(* ===== verification/Prelude.thy ===== *)
theory Prelude
  imports Main "HOL-Library.Word"
begin

text \<open>
  Shared vocabulary of the development: the machine integer types of the Rust sources, the
  saturating arithmetic of the Rust core library, the runs of a state machine that returns
  outputs, and generic lemmas on lists that several components use.
\<close>

unbundle bit_operations_syntax

named_theorems step_simps \<open>equations of operations, one per branch of the code\<close>
named_theorems inv_rules \<open>invariants kept by operations\<close>

type_synonym u8 = "8 word"
type_synonym u16 = "16 word"
type_synonym u32 = "32 word"
type_synonym u64 = "64 word"

section \<open>Saturating arithmetic\<close>

definition sat_sub :: "'a::len word \<Rightarrow> 'a word \<Rightarrow> 'a word" where
  "sat_sub a b = (if a < b then 0 else a - b)"

definition sat_add :: "'a::len word \<Rightarrow> 'a word \<Rightarrow> 'a word" where
  "sat_add a b = (if unat a + unat b < 2 ^ LENGTH('a) then a + b else - 1)"

lemma unat_sat_sub [simp]: "unat (sat_sub a b) = unat a - unat b"
  by (auto simp: sat_sub_def word_less_nat_alt unat_sub_if')

lemma unat_sat_add:
  "unat (sat_add a b) = min (unat a + unat b) (2 ^ LENGTH('a) - 1)" for a b :: "'a::len word"
proof (cases "unat a + unat b < 2 ^ LENGTH('a)")
  case True
  then have "unat a + unat b \<le> 2 ^ LENGTH('a) - 1" by linarith
  with True show ?thesis by (simp add: sat_add_def unat_word_ariths)
next
  case False
  have "unat (- 1 :: 'a word) = 2 ^ LENGTH('a) - 1"
    by (simp add: unsigned_minus_1_eq_mask mask_eq_exp_minus_1)
  with False show ?thesis by (simp add: sat_add_def)
qed

section \<open>Runs of a machine with outputs\<close>

fun run_machine :: "('s \<Rightarrow> 'e \<Rightarrow> 's \<times> 'o list) \<Rightarrow> 's \<Rightarrow> 'e list \<Rightarrow> 's \<times> 'o list" where
  "run_machine step s [] = (s, [])"
| "run_machine step s (e # es) =
     (case step s e of (s', os) \<Rightarrow>
        (case run_machine step s' es of (t, ps) \<Rightarrow> (t, os @ ps)))"

lemma run_machine_Cons_proj:
  "fst (run_machine step s (e # es)) = fst (run_machine step (fst (step s e)) es)"
  "snd (run_machine step s (e # es)) = snd (step s e) @ snd (run_machine step (fst (step s e)) es)"
  by (simp_all split: prod.splits)

lemma run_machine_append:
  "run_machine step s (xs @ ys) =
     (case run_machine step s xs of (s', os) \<Rightarrow>
        (case run_machine step s' ys of (t, ps) \<Rightarrow> (t, os @ ps)))"
  by (induction xs arbitrary: s) (auto split: prod.splits)

lemma run_machine_append_proj:
  "fst (run_machine step s (xs @ ys)) = fst (run_machine step (fst (run_machine step s xs)) ys)"
  "snd (run_machine step s (xs @ ys)) =
     snd (run_machine step s xs) @ snd (run_machine step (fst (run_machine step s xs)) ys)"
  by (simp_all add: run_machine_append split: prod.splits)

section \<open>Bytes\<close>

lemma unat_u8_less: "unat x < 256" for x :: u8
  by (rule order.strict_trans2 [OF unsigned_less]) simp

lemma unat_u8_le: "unat x \<le> 255" for x :: u8
  using unat_u8_less [of x] by linarith

text \<open>A fact about every byte can be checked on the 256 bytes, by their two nibbles.\<close>

definition nibbles :: "u8 list" where
  "nibbles = [0, 1, 2, 3, 4, 5, 6, 7, 8, 9, 10, 11, 12, 13, 14, 15]"

lemma nibble_in: "k < 16 \<Longrightarrow> word_of_nat k \<in> set nibbles"
proof -
  have "\<forall>k \<in> set [0..<16]. word_of_nat k \<in> set nibbles" by code_simp
  then show "k < 16 \<Longrightarrow> word_of_nat k \<in> set nibbles" by simp
qed

lemma all_u8: "list_all (\<lambda>h. list_all (\<lambda>l. P (16 * h + l)) nibbles) nibbles \<Longrightarrow> P x"
proof -
  assume a: "list_all (\<lambda>h. list_all (\<lambda>l. P (16 * h + l)) nibbles) nibbles"
  have "unat x < 256" by (rule unat_u8_less)
  then have "word_of_nat (unat x div 16) \<in> set nibbles" "word_of_nat (unat x mod 16) \<in> set nibbles"
    by (auto intro!: nibble_in)
  with a have "P (16 * word_of_nat (unat x div 16) + word_of_nat (unat x mod 16))"
    unfolding list_all_iff by blast
  also have "16 * word_of_nat (unat x div 16) + word_of_nat (unat x mod 16) =
      (word_of_nat (16 * (unat x div 16) + unat x mod 16) :: u8)"
    by (simp only: of_nat_add of_nat_mult of_nat_numeral)
  also have "16 * (unat x div 16) + unat x mod 16 = unat x" by (rule mult_div_mod_eq)
  also have "word_of_nat (unat x) = x" by simp
  finally show "P x" .
qed

text \<open>The two bytes of a 16-bit word, and the big-endian order of the standard library.\<close>

lemma u16_bytes:
  fixes h :: u16
  shows "unat (ucast (drop_bit 8 h) :: u8) = unat h div 256" "unat (ucast (h AND 0xFF) :: u8) = unat h mod 256"
proof -
  have h: "unat h < 65536" by (rule order.strict_trans2 [OF unsigned_less]) simp
  show "unat (ucast (drop_bit 8 h) :: u8) = unat h div 256"
    using h by (simp add: unsigned_ucast_eq unsigned_drop_bit_eq drop_bit_eq_div take_bit_eq_mod unat_div)
  have m: "h AND 0xFF = take_bit 8 h" by (simp add: take_bit_eq_mask mask_eq_exp_minus_1)
  show "unat (ucast (h AND 0xFF) :: u8) = unat h mod 256"
    unfolding m by (simp add: unsigned_ucast_eq take_bit_eq_mod unat_mod)
qed

definition be16 :: "u16 \<Rightarrow> u8 list" where
  "be16 n = [ucast (drop_bit 8 n), ucast n]"

definition from_be16 :: "u8 \<Rightarrow> u8 \<Rightarrow> u16" where
  "from_be16 a b = push_bit 8 (ucast a) OR ucast b"

lemma length_be16 [simp]: "length (be16 n) = 2"
  by (simp add: be16_def)

lemma from_be16_be16: "from_be16 (be16 n ! 0) (be16 n ! 1) = n"
  by (rule bit_word_eqI)
    (auto simp: from_be16_def be16_def bit_simps not_less)

section \<open>Lists\<close>

definition take_last :: "nat \<Rightarrow> 'a list \<Rightarrow> 'a list" where
  "take_last n xs = drop (length xs - n) xs"

lemma drop_eq_Cons_length: "x # ys = drop n zs \<Longrightarrow> length ys < length zs"
  by (drule arg_cong [of _ _ length]) simp

lemma length_take_last [simp]: "length (take_last n xs) = min n (length xs)"
  by (simp add: take_last_def)

lemma take_last_all [simp]: "length xs \<le> n \<Longrightarrow> take_last n xs = xs"
  by (simp add: take_last_def)

lemma take_last_snoc_full:
  "length xs = n \<Longrightarrow> 0 < n \<Longrightarrow> take_last n (xs @ [x]) = tl xs @ [x]"
  by (simp add: take_last_def drop_Suc)

lemma take_last_snoc_take_last:
  "take_last n (take_last n xs @ [x]) = take_last n (xs @ [x])"
proof (cases "n \<le> length xs")
  case True
  then show ?thesis by (simp add: take_last_def Suc_diff_le)
qed (simp add: take_last_def)

end
