(* ===== verification/Interfaces.thy ===== *)
theory Interfaces
  imports Prelude
begin

text \<open>
  The interfaces between components, as locales. Each is interpreted on the model's own
  definitions in the theory of the component that provides it; the lemmas proved here once are
  then available there.
  \<^item> \<open>codec\<close>: an encoder with a decoder that inverts it on well-formed values;
  \<^item> \<open>invariant_machine\<close>: a machine with outputs whose steps keep an invariant and emit only
    permitted outputs;
  \<^item> \<open>partial_machine\<close>: a machine whose steps may panic, and do not from states with an invariant;
    \<open>partial_observer\<close> adds which outputs its steps may have;
  \<^item> \<open>stream_decoder\<close>: a decoder fed with arbitrary chunks of a byte stream;
  \<^item> \<open>framed_decoder\<close>: a stream decoder that recognises the frames of an encoder;
  \<^item> \<open>byte_checksum\<close>: a checksum computed by a byte-wise step that is a bijection.
\<close>

section \<open>Encoders and decoders\<close>

locale codec =
  fixes enc :: "'a \<Rightarrow> 'b"
    and dec :: "'b \<Rightarrow> 'a option"
    and wf :: "'a \<Rightarrow> bool"
  assumes dec_enc: "wf x \<Longrightarrow> dec (enc x) = Some x"
begin

lemma enc_inject: "wf x \<Longrightarrow> wf y \<Longrightarrow> enc x = enc y \<longleftrightarrow> x = y"
  by (metis dec_enc option.inject)

lemma enc_inj_on: "inj_on enc {x. wf x}"
  by (rule inj_onI) (simp add: enc_inject)

end

section \<open>Machines with an invariant\<close>

locale invariant_machine =
  fixes step :: "'s \<Rightarrow> 'e \<Rightarrow> 's \<times> 'o list"
    and inv :: "'s \<Rightarrow> bool"
    and ok :: "'o \<Rightarrow> bool"
  assumes step_inv: "inv s \<Longrightarrow> inv (fst (step s e))"
    and step_ok: "inv s \<Longrightarrow> p \<in> set (snd (step s e)) \<Longrightarrow> ok p"
begin

lemma run_inv: "inv s \<Longrightarrow> inv (fst (run_machine step s es))"
proof (induction es arbitrary: s)
  case (Cons e es)
  obtain s' os where st: "step s e = (s', os)" by fastforce
  with Cons.prems step_inv [of s e] have "inv s'" by simp
  from Cons.IH [OF this] st show ?case by (auto split: prod.splits)
qed simp

lemma run_ok: "inv s \<Longrightarrow> p \<in> set (snd (run_machine step s es)) \<Longrightarrow> ok p"
proof (induction es arbitrary: s)
  case (Cons e es)
  obtain s' os where st: "step s e = (s', os)" by fastforce
  with Cons.prems(1) step_inv [of s e] have "inv s'" by simp
  with Cons step_ok [of s p e] st show ?case by (auto split: prod.splits)
qed simp

end

section \<open>Machines that may fail\<close>

text \<open>A step that panics has no result, and then the run has none.\<close>

fun run_partial :: "('s \<Rightarrow> 'e \<Rightarrow> ('s \<times> 'o list) option) \<Rightarrow> 's \<Rightarrow> 'e list \<Rightarrow> ('s \<times> 'o list) option" where
  "run_partial step s [] = Some (s, [])"
| "run_partial step s (e # es) =
     (case step s e of None \<Rightarrow> None
      | Some (s', os) \<Rightarrow> (case run_partial step s' es of None \<Rightarrow> None | Some (t, ps) \<Rightarrow> Some (t, os @ ps)))"

locale partial_machine =
  fixes step :: "'s \<Rightarrow> 'e \<Rightarrow> ('s \<times> 'o list) option"
    and inv :: "'s \<Rightarrow> bool"
    and safe :: "'e \<Rightarrow> bool"
  assumes step_total: "inv s \<Longrightarrow> safe e \<Longrightarrow> \<exists>s' os. step s e = Some (s', os) \<and> inv s'"
begin

lemma run_total: "inv s \<Longrightarrow> list_all safe es \<Longrightarrow> \<exists>s' os. run_partial step s es = Some (s', os) \<and> inv s'"
proof (induction es arbitrary: s)
  case (Cons e es)
  obtain s' os where st: "step s e = Some (s', os)" "inv s'" using step_total [of s e] Cons.prems by auto
  obtain t ps where "run_partial step s' es = Some (t, ps)" "inv t" using Cons.IH [OF st(2)] Cons.prems by auto
  with st show ?case by simp
qed simp

end

text \<open>A machine whose outputs are also permitted ones.\<close>

locale partial_observer = partial_machine +
  fixes ok :: "'c \<Rightarrow> bool"
  assumes step_ok: "inv s \<Longrightarrow> safe e \<Longrightarrow> step s e = Some (s', os) \<Longrightarrow> list_all ok os"
begin

lemma run_ok:
  "inv s \<Longrightarrow> list_all safe es \<Longrightarrow>
     \<exists>s' os. run_partial step s es = Some (s', os) \<and> inv s' \<and> list_all ok os"
proof (induction es arbitrary: s)
  case (Cons e es)
  obtain s1 os where s1: "step s e = Some (s1, os)" "inv s1"
    using step_total [of s e] Cons.prems by auto
  have "list_all ok os" using step_ok [OF _ _ s1(1)] Cons.prems by simp
  with s1 Cons.IH [OF s1(2)] Cons.prems show ?case by auto
qed simp

end

section \<open>Decoders of a byte stream\<close>

locale stream_decoder =
  fixes feed :: "'d \<Rightarrow> 'b list \<Rightarrow> ('d \<times> 'f list) option"
    and inv :: "'d \<Rightarrow> bool"
  assumes feed_nil: "feed d [] = Some (d, [])"
    and feed_total: "inv d \<Longrightarrow> \<exists>d' fs. feed d xs = Some (d', fs) \<and> inv d'"
    and feed_append: "inv d \<Longrightarrow> feed d xs = Some (d', fs) \<Longrightarrow> feed d' ys = Some (d'', gs) \<Longrightarrow>
       feed d (xs @ ys) = Some (d'', fs @ gs)"
begin

text \<open>How the stream is cut into chunks does not matter.\<close>

lemma feed_chunks:
  assumes "inv d"
  shows "feed d (concat xss) =
    Some (fst (run_machine (\<lambda>d xs. the (feed d xs)) d xss),
          snd (run_machine (\<lambda>d xs. the (feed d xs)) d xss))"
  using assms
proof (induction xss arbitrary: d)
  case Nil
  then show ?case by (simp add: feed_nil)
next
  case (Cons xs xss)
  obtain d' fs where f: "feed d xs = Some (d', fs)" and i: "inv d'"
    using feed_total [OF Cons.prems] by blast
  from feed_append [OF Cons.prems f Cons.IH [OF i]] f
  show ?case by (simp split: prod.splits)
qed

end

locale framed_decoder = stream_decoder +
  fixes enc :: "'f \<Rightarrow> 'b list"
    and ready :: "'d \<Rightarrow> bool"
    and ok :: "'f \<Rightarrow> bool"
    and noise :: "'b \<Rightarrow> bool"
  assumes ready_inv: "ready d \<Longrightarrow> inv d"
    and feed_enc: "ready d \<Longrightarrow> ok f \<Longrightarrow> feed d (enc f) = Some (d, [f])"
    and feed_noise: "ready d \<Longrightarrow> (\<And>b. b \<in> set bs \<Longrightarrow> noise b) \<Longrightarrow> feed d bs = Some (d, [])"
begin

text \<open>Frames separated by noise are recovered, all of them and in order.\<close>

lemma feed_frames:
  assumes "ready d" and "\<And>bs f. (bs, f) \<in> set ps \<Longrightarrow> ok f \<and> (\<forall>b \<in> set bs. noise b)"
  shows "feed d (concat (map (\<lambda>(bs, f). bs @ enc f) ps)) = Some (d, map snd ps)"
  using assms(2)
proof (induction ps)
  case Nil
  show ?case by (simp add: feed_nil)
next
  case (Cons p ps)
  obtain bs f where p: "p = (bs, f)" by fastforce
  note i = ready_inv [OF assms(1)]
  have n: "feed d bs = Some (d, [])"
    using Cons.prems [of bs f] p by (intro feed_noise [OF assms(1)]) simp
  have e: "feed d (enc f) = Some (d, [f])"
    using Cons.prems [of bs f] p by (intro feed_enc [OF assms(1)]) simp
  have r: "feed d (concat (map (\<lambda>(bs, f). bs @ enc f) ps)) = Some (d, map snd ps)"
    using Cons.prems by (intro Cons.IH) auto
  from feed_append [OF i e r] have "feed d (enc f @ concat (map (\<lambda>(bs, f). bs @ enc f) ps)) =
      Some (d, f # map snd ps)" by simp
  from feed_append [OF i n this] p show ?case by simp
qed

end

section \<open>Checksums\<close>

locale byte_checksum =
  fixes sum :: "'b list \<Rightarrow> 'c"
    and step :: "'s \<Rightarrow> 'b \<Rightarrow> 's"
    and init :: "'s"
    and final :: "'s \<Rightarrow> 'c"
  assumes sum_fold: "sum xs = final (foldl step init xs)"
    and final_inj: "final s = final t \<Longrightarrow> s = t"
    and step_inj: "step s b = step t b \<Longrightarrow> s = t"
    and step_inj_byte: "step s b = step s c \<Longrightarrow> b = c"
begin

lemma foldl_inj: "foldl step s xs = foldl step t xs \<Longrightarrow> s = t"
  by (induction xs arbitrary: s t) (auto dest: step_inj)

text \<open>Replacing one byte by a different one always changes the checksum.\<close>

lemma detects_one:
  assumes "b \<noteq> c" shows "sum (xs @ b # ys) \<noteq> sum (xs @ c # ys)"
proof
  assume "sum (xs @ b # ys) = sum (xs @ c # ys)"
  then have "foldl step (step (foldl step init xs) b) ys = foldl step (step (foldl step init xs) c) ys"
    by (auto simp: sum_fold dest: final_inj)
  then have "step (foldl step init xs) b = step (foldl step init xs) c" by (rule foldl_inj)
  with assms show False by (auto dest: step_inj_byte)
qed

lemma detects_update:
  assumes "i < length xs" and "b \<noteq> xs ! i" shows "sum (xs[i := b]) \<noteq> sum xs"
  using detects_one [of b "xs ! i" "take i xs" "drop (Suc i) xs"] assms
  by (simp add: upd_conv_take_nth_drop id_take_nth_drop [symmetric])

end

end
