(* ===== verification/Strings.thy ===== *)
theory Strings
  imports Prelude
begin

text \<open>
  Rust strings as lists of Unicode scalar values (\<open>rstr\<close>), with what the sources use of the
  standard library: the formatting of integers (decimal, zero-padded, hexadecimal, binary),
  UTF-8 encoding, strict and lossy decoding, trimming, searching, splitting, and the parsing of
  unsigned integers.
\<close>

unbundle bit_operations_syntax

type_synonym rstr = "nat list"

definition lit :: "string \<Rightarrow> rstr" where
  "lit s = map of_char s"

lemma length_lit [simp]: "length (lit s) = length s"
  by (simp add: lit_def)

section \<open>Formatting\<close>

fun show_nat :: "nat \<Rightarrow> rstr" where
  "show_nat n = (if n < 10 then [48 + n] else show_nat (n div 10) @ [48 + n mod 10])"

declare show_nat.simps [simp del]

lemma show_nat_not_Nil [simp]: "show_nat n \<noteq> []"
  by (subst show_nat.simps) simp

lemma show_nat_digits: "c \<in> set (show_nat n) \<Longrightarrow> 48 \<le> c \<and> c \<le> 57"
proof (induction n rule: show_nat.induct)
  case (1 n)
  then show ?case by (cases "n < 10") (auto simp: show_nat.simps [of n])
qed

definition pad_zero :: "nat \<Rightarrow> rstr \<Rightarrow> rstr" where
  "pad_zero w s = replicate (w - length s) 48 @ s"

definition hex_digit_upper :: "nat \<Rightarrow> nat" where
  "hex_digit_upper d = (if d < 10 then 48 + d else 55 + d)"

definition show_hex2_upper :: "u8 \<Rightarrow> rstr" where
  "show_hex2_upper b = [hex_digit_upper (unat b div 16), hex_digit_upper (unat b mod 16)]"

definition show_bin8 :: "u8 \<Rightarrow> rstr" where
  "show_bin8 b = map (\<lambda>i. if bit b i then 49 else 48) [7, 6, 5, 4, 3, 2, 1, 0]"

section \<open>UTF-8\<close>

definition len_utf8 :: "nat \<Rightarrow> nat" where
  "len_utf8 c = (if c < 0x80 then 1 else if c < 0x800 then 2 else if c < 0x10000 then 3 else 4)"

definition utf8_char :: "nat \<Rightarrow> u8 list" where
  "utf8_char c = map word_of_nat
     (if c < 0x80 then [c]
      else if c < 0x800 then [0xC0 + c div 64, 0x80 + c mod 64]
      else if c < 0x10000 then [0xE0 + c div 4096, 0x80 + c div 64 mod 64, 0x80 + c mod 64]
      else [0xF0 + c div 262144, 0x80 + c div 4096 mod 64, 0x80 + c div 64 mod 64, 0x80 + c mod 64])"

definition as_bytes :: "rstr \<Rightarrow> u8 list" where
  "as_bytes s = concat (map utf8_char s)"

lemma length_utf8_char: "length (utf8_char c) = len_utf8 c"
  by (simp add: utf8_char_def len_utf8_def)

definition scalar_value :: "nat \<Rightarrow> bool" where
  "scalar_value c \<longleftrightarrow> c < 0xD800 \<or> 0xE000 \<le> c \<and> c < 0x110000"

text \<open>
  One step of the decoder on a non-empty input: the scalar value at the head and its width, or
  the length of the maximal invalid prefix. A byte past the end reads as no continuation byte.
\<close>

definition byte_at :: "u8 list \<Rightarrow> nat \<Rightarrow> nat" where
  "byte_at bs i = (if i < length bs then unat (bs ! i) else 0)"

definition in_range :: "nat \<Rightarrow> nat \<Rightarrow> nat \<Rightarrow> bool" where
  "in_range lo hi n \<longleftrightarrow> lo \<le> n \<and> n \<le> hi"

definition second_range :: "nat \<Rightarrow> nat \<times> nat" where
  "second_range b0 =
     (if b0 = 0xE0 then (0xA0, 0xBF) else if b0 = 0xED then (0x80, 0x9F)
      else if b0 = 0xF0 then (0x90, 0xBF) else if b0 = 0xF4 then (0x80, 0x8F) else (0x80, 0xBF))"

definition utf8_step :: "u8 list \<Rightarrow> nat option \<times> nat" where
  "utf8_step bs =
     (let b0 = byte_at bs 0; b1 = byte_at bs 1; b2 = byte_at bs 2; b3 = byte_at bs 3;
          ok1 = in_range (fst (second_range b0)) (snd (second_range b0)) b1 in
      if b0 < 0x80 then (Some b0, 1)
      else if in_range 0xC2 0xDF b0 then
        if ok1 then (Some ((b0 - 0xC0) * 64 + (b1 - 0x80)), 2) else (None, 1)
      else if in_range 0xE0 0xEF b0 then
        if \<not> ok1 then (None, 1) else if \<not> in_range 0x80 0xBF b2 then (None, 2)
        else (Some ((b0 - 0xE0) * 4096 + (b1 - 0x80) * 64 + (b2 - 0x80)), 3)
      else if in_range 0xF0 0xF4 b0 then
        if \<not> ok1 then (None, 1) else if \<not> in_range 0x80 0xBF b2 then (None, 2)
        else if \<not> in_range 0x80 0xBF b3 then (None, 3)
        else (Some ((b0 - 0xF0) * 262144 + (b1 - 0x80) * 4096 + (b2 - 0x80) * 64 + (b3 - 0x80)), 4)
      else (None, 1))"

lemma utf8_step_pos: "0 < snd (utf8_step bs)"
  by (simp add: utf8_step_def Let_def)

function from_utf8_lossy :: "u8 list \<Rightarrow> rstr" where
  "from_utf8_lossy [] = []"
| "from_utf8_lossy (b # bs) =
     (case utf8_step (b # bs) of
        (Some c, n) \<Rightarrow> c # from_utf8_lossy (drop n (b # bs))
      | (None, n) \<Rightarrow> 0xFFFD # from_utf8_lossy (drop n (b # bs)))"
  by pat_completeness auto
termination
  by (relation "measure length") (auto dest!: arg_cong [of _ "utf8_step _" snd] simp: utf8_step_pos dest: sym)

function from_utf8 :: "u8 list \<Rightarrow> rstr option" where
  "from_utf8 [] = Some []"
| "from_utf8 (b # bs) =
     (case utf8_step (b # bs) of
        (Some c, n) \<Rightarrow> map_option (Cons c) (from_utf8 (drop n (b # bs)))
      | (None, n) \<Rightarrow> None)"
  by pat_completeness auto
termination
  by (relation "measure length") (auto dest!: arg_cong [of _ "utf8_step _" snd] simp: utf8_step_pos dest: sym)

section \<open>Trimming, searching, splitting\<close>

definition is_whitespace :: "nat \<Rightarrow> bool" where
  "is_whitespace c \<longleftrightarrow> in_range 9 13 c \<or> c = 32 \<or> c = 0x85 \<or> c = 0xA0 \<or> c = 0x1680 \<or>
     in_range 0x2000 0x200A c \<or> c = 0x2028 \<or> c = 0x2029 \<or> c = 0x202F \<or> c = 0x205F \<or> c = 0x3000"

definition trim_start :: "rstr \<Rightarrow> rstr" where
  "trim_start s = dropWhile is_whitespace s"

definition trim_end :: "rstr \<Rightarrow> rstr" where
  "trim_end s = rev (dropWhile is_whitespace (rev s))"

definition trim :: "rstr \<Rightarrow> rstr" where
  "trim s = trim_end (trim_start s)"

definition trim_end_matches :: "nat \<Rightarrow> rstr \<Rightarrow> rstr" where
  "trim_end_matches c s = rev (dropWhile (\<lambda>x. x = c) (rev s))"

fun starts_with :: "'a list \<Rightarrow> 'a list \<Rightarrow> bool" where
  "starts_with s [] = True"
| "starts_with [] (p # ps) = False"
| "starts_with (c # s) (p # ps) = (c = p \<and> starts_with s ps)"

definition strip_prefix :: "'a list \<Rightarrow> 'a list \<Rightarrow> 'a list option" where
  "strip_prefix s p = (if starts_with s p then Some (drop (length p) s) else None)"

text \<open>The position of the first occurrence of a pattern.\<close>

fun find_str :: "'a list \<Rightarrow> 'a list \<Rightarrow> nat option" where
  "find_str [] p = (if p = [] then Some 0 else None)"
| "find_str (c # s) p = (if starts_with (c # s) p then Some 0 else map_option Suc (find_str s p))"

fun split_char :: "nat \<Rightarrow> rstr \<Rightarrow> rstr list" where
  "split_char sep [] = [[]]"
| "split_char sep (c # s) =
     (if c = sep then [] # split_char sep s
      else case split_char sep s of [] \<Rightarrow> [[c]] | p # ps \<Rightarrow> (c # p) # ps)"

section \<open>Unsigned integers\<close>

definition is_digit :: "nat \<Rightarrow> bool" where
  "is_digit c \<longleftrightarrow> 48 \<le> c \<and> c \<le> 57"

definition digits_value :: "rstr \<Rightarrow> nat" where
  "digits_value s = foldl (\<lambda>n c. 10 * n + (c - 48)) 0 s"

text \<open>
  The standard library accepts one leading plus sign before at least one digit, and rejects a value
  above the maximum of the type.
\<close>

definition parse_unsigned :: "nat \<Rightarrow> rstr \<Rightarrow> nat option" where
  "parse_unsigned mx s =
     (let ds = (if s \<noteq> [] \<and> hd s = 43 then tl s else s) in
      if ds \<noteq> [] \<and> list_all is_digit ds \<and> digits_value ds \<le> mx then Some (digits_value ds) else None)"

lemma parse_unsigned_le: "parse_unsigned mx s = Some n \<Longrightarrow> n \<le> mx"
  by (auto simp: parse_unsigned_def Let_def split: if_splits)

lemma digits_value_show_nat: "digits_value (show_nat n) = n"
proof (induction n rule: show_nat.induct)
  case (1 n)
  then show ?case
    by (cases "n < 10") (simp_all add: show_nat.simps [of n] digits_value_def)
qed

lemma parse_unsigned_show_nat: "n \<le> mx \<Longrightarrow> parse_unsigned mx (show_nat n) = Some n"
  using show_nat_digits [of "hd (show_nat n)" n]
  by (auto simp: parse_unsigned_def Let_def digits_value_show_nat list_all_iff is_digit_def
      dest: show_nat_digits)

end
