(* ===== verification/Float32.thy ===== *)
theory Float32
  imports Complex_Main Prelude
begin

text \<open>
  The \<open>f32\<close> of the sources: finite values as the rational numbers they are, the two infinities
  and NaN. Every operation computes the exact rational result and rounds it once, to nearest with
  ties to even, to 24 bits of significand with the exponent range of binary32 (quantum at least
  2^-149, overflow to infinity at 2^128). The sign of zero is not kept: nothing in the modelled
  code tells the two zeros apart.
\<close>

datatype f32 = F32_NaN | F32_Inf bool | F32_Fin rat

definition pow2 :: "int \<Rightarrow> rat" where
  "pow2 k = (if 0 \<le> k then 2 ^ nat k else 1 / 2 ^ nat (- k))"

fun ilog2_nat :: "nat \<Rightarrow> nat" where
  "ilog2_nat n = (if n < 2 then 0 else Suc (ilog2_nat (n div 2)))"

declare ilog2_nat.simps [simp del]

definition ilog2 :: "rat \<Rightarrow> int" where
  "ilog2 x =
     (if 1 \<le> x then int (ilog2_nat (nat \<lfloor>x\<rfloor>))
      else - int (Suc (ilog2_nat (nat (\<lceil>1 / x\<rceil> - 1)))))"

definition round_half_even :: "rat \<Rightarrow> int" where
  "round_half_even x =
     (let f = \<lfloor>x\<rfloor>; d = x - of_int f in
      if d < 1 / 2 then f else if 1 / 2 < d then f + 1 else if even f then f else f + 1)"

definition round_f32 :: "rat \<Rightarrow> f32" where
  "round_f32 x =
     (if x = 0 then F32_Fin 0
      else let e = max (ilog2 \<bar>x\<bar> - 23) (- 149); m = round_half_even (x / pow2 e) in
        if 2 ^ 128 \<le> \<bar>of_int m * pow2 e\<bar> then F32_Inf (x < 0)
        else F32_Fin (of_int m * pow2 e))"

fun f32_add :: "f32 \<Rightarrow> f32 \<Rightarrow> f32" where
  "f32_add (F32_Fin a) (F32_Fin b) = round_f32 (a + b)"
| "f32_add (F32_Inf s) (F32_Inf t) = (if s = t then F32_Inf s else F32_NaN)"
| "f32_add (F32_Inf s) (F32_Fin _) = F32_Inf s"
| "f32_add (F32_Fin _) (F32_Inf t) = F32_Inf t"
| "f32_add _ _ = F32_NaN"

fun f32_neg :: "f32 \<Rightarrow> f32" where
  "f32_neg (F32_Fin a) = F32_Fin (- a)"
| "f32_neg (F32_Inf s) = F32_Inf (\<not> s)"
| "f32_neg F32_NaN = F32_NaN"

definition f32_sub :: "f32 \<Rightarrow> f32 \<Rightarrow> f32" where
  "f32_sub a b = f32_add a (f32_neg b)"

fun f32_mul :: "f32 \<Rightarrow> f32 \<Rightarrow> f32" where
  "f32_mul (F32_Fin a) (F32_Fin b) = round_f32 (a * b)"
| "f32_mul (F32_Inf s) (F32_Inf t) = F32_Inf (s \<noteq> t)"
| "f32_mul (F32_Inf s) (F32_Fin b) = (if b = 0 then F32_NaN else F32_Inf (s \<noteq> (b < 0)))"
| "f32_mul (F32_Fin a) (F32_Inf t) = (if a = 0 then F32_NaN else F32_Inf ((a < 0) \<noteq> t))"
| "f32_mul _ _ = F32_NaN"

fun f32_div :: "f32 \<Rightarrow> f32 \<Rightarrow> f32" where
  "f32_div (F32_Fin a) (F32_Fin b) =
     (if b = 0 then (if a = 0 then F32_NaN else F32_Inf (a < 0)) else round_f32 (a / b))"
| "f32_div (F32_Inf s) (F32_Fin b) = F32_Inf (s \<noteq> (b < 0))"
| "f32_div (F32_Fin _) (F32_Inf _) = F32_Fin 0"
| "f32_div _ _ = F32_NaN"

fun f32_less :: "f32 \<Rightarrow> f32 \<Rightarrow> bool" where
  "f32_less (F32_Fin a) (F32_Fin b) = (a < b)"
| "f32_less (F32_Inf s) (F32_Inf t) = (s \<and> \<not> t)"
| "f32_less (F32_Inf s) (F32_Fin _) = s"
| "f32_less (F32_Fin _) (F32_Inf t) = (\<not> t)"
| "f32_less _ _ = False"

fun f32_eq :: "f32 \<Rightarrow> f32 \<Rightarrow> bool" where
  "f32_eq (F32_Fin a) (F32_Fin b) = (a = b)"
| "f32_eq (F32_Inf s) (F32_Inf t) = (s = t)"
| "f32_eq _ _ = False"

text \<open>The cast \<open>as u8\<close> truncates towards zero and saturates; NaN becomes 0.\<close>

fun f32_to_u8 :: "f32 \<Rightarrow> u8" where
  "f32_to_u8 F32_NaN = 0"
| "f32_to_u8 (F32_Inf s) = (if s then 0 else 255)"
| "f32_to_u8 (F32_Fin a) = (if a < 0 then 0 else if 255 < a then 255 else word_of_int \<lfloor>a\<rfloor>)"

definition f32_of_u8 :: "u8 \<Rightarrow> f32" where
  "f32_of_u8 b = F32_Fin (of_nat (unat b))"

text \<open>
  \<open>max\<close> and \<open>min\<close> return the other argument when one is NaN; \<open>clamp\<close> keeps NaN. A literal is the
  nearest value to its decimal.
\<close>

definition f32_max :: "f32 \<Rightarrow> f32 \<Rightarrow> f32" where
  "f32_max a b = (if a = F32_NaN then b else if f32_less a b then b else a)"

definition f32_min :: "f32 \<Rightarrow> f32 \<Rightarrow> f32" where
  "f32_min a b = (if a = F32_NaN then b else if f32_less b a then b else a)"

fun f32_abs :: "f32 \<Rightarrow> f32" where
  "f32_abs (F32_Fin a) = F32_Fin \<bar>a\<bar>"
| "f32_abs (F32_Inf _) = F32_Inf False"
| "f32_abs F32_NaN = F32_NaN"

definition f32_clamp :: "f32 \<Rightarrow> f32 \<Rightarrow> f32 \<Rightarrow> f32" where
  "f32_clamp x lo hi = (if f32_less x lo then lo else if f32_less hi x then hi else x)"

definition f32_le :: "f32 \<Rightarrow> f32 \<Rightarrow> bool" where
  "f32_le a b \<longleftrightarrow> f32_less a b \<or> f32_eq a b"

definition f32_of_nat :: "nat \<Rightarrow> f32" where
  "f32_of_nat n = round_f32 (of_nat n)"

text \<open>
  The few \<open>f64\<close> values of the sources are 64-bit integers and their quotients by 2^63: finite and far
  from subnormal, so a rational rounded to 53 bits stands for each.
\<close>

definition round_f64 :: "rat \<Rightarrow> rat" where
  "round_f64 x =
     (if x = 0 then 0
      else let e = ilog2 \<bar>x\<bar> - 52 in of_int (round_half_even (x / pow2 e)) * pow2 e)"

definition i64_as_f64 :: "u64 \<Rightarrow> rat" where
  "i64_as_f64 w = round_f64 (of_int (sint w))"

definition unit_f32 :: "rat \<Rightarrow> f32" where
  "unit_f32 x = round_f32 (round_f64 (x / 2 ^ 63))"

section \<open>Values that need no rounding\<close>

lemma pow2_pos [simp]: "0 < pow2 k"
  by (simp add: pow2_def)

lemma pow2_add: "pow2 (j + k) = pow2 j * pow2 k"
proof -
  have "pow2 i = 2 powi i" for i
    by (simp add: pow2_def power_int_def inverse_eq_divide power_one_over [symmetric])
  then show ?thesis by (simp add: power_int_add)
qed

lemma pow2_0 [simp]: "pow2 0 = 1" by (simp add: pow2_def)

lemma pow2_mono: "j \<le> k \<Longrightarrow> pow2 j \<le> pow2 k"
proof -
  assume "j \<le> k"
  then have "pow2 k = pow2 j * pow2 (k - j)" by (simp add: pow2_add [symmetric])
  moreover have "1 \<le> pow2 (k - j)" using \<open>j \<le> k\<close> by (simp add: pow2_def)
  ultimately show ?thesis by simp
qed

lemma pow2_less_iff: "pow2 j < pow2 k \<Longrightarrow> j < k"
  using pow2_mono [of k j] by linarith

lemma ilog2_nat_le: "0 < n \<Longrightarrow> 2 ^ ilog2_nat n \<le> n"
proof (induction n rule: ilog2_nat.induct)
  case (1 n)
  show ?case
  proof (cases "n < 2")
    case True
    with 1 show ?thesis by (simp add: ilog2_nat.simps [of n])
  next
    case False
    with 1 have "2 ^ ilog2_nat (n div 2) \<le> n div 2" by simp
    with False show ?thesis by (simp add: ilog2_nat.simps [of n])
  qed
qed

lemma ilog2_nat_gt: "n < 2 ^ Suc (ilog2_nat n)"
proof (induction n rule: ilog2_nat.induct)
  case (1 n)
  show ?case
  proof (cases "n < 2")
    case True
    then show ?thesis by (simp add: ilog2_nat.simps [of n])
  next
    case False
    with 1 have "n div 2 < 2 ^ Suc (ilog2_nat (n div 2))" by simp
    with False show ?thesis by (simp add: ilog2_nat.simps [of n])
  qed
qed

lemma pow2_ilog2_le:
  assumes "0 < x" shows "pow2 (ilog2 x) \<le> x"
proof (cases "1 \<le> x")
  case True
  define n where "n = nat \<lfloor>x\<rfloor>"
  have n: "0 < n" "of_nat n \<le> x" using True by (simp_all add: n_def) 
  have "(of_nat (2 ^ ilog2_nat n) :: rat) \<le> of_nat n"
    using ilog2_nat_le [OF n(1)] by (simp only: of_nat_le_iff)
  also note n(2)
  finally show ?thesis using True by (simp add: ilog2_def pow2_def n_def [symmetric])
next
  case False
  define n where "n = nat (\<lceil>1 / x\<rceil> - 1)"
  have "1 < 1 / x" using assms False by simp
  then have "1 < \<lceil>1 / x\<rceil>" by linarith
  then have "int n + 1 = \<lceil>1 / x\<rceil>" unfolding n_def by linarith
  then have "1 / x \<le> of_nat (n + 1)" by (metis le_of_int_ceiling of_int_of_nat_eq of_nat_1 of_nat_add)
  also have "\<dots> \<le> of_nat (2 ^ Suc (ilog2_nat n))"
    using ilog2_nat_gt [of n] by (intro of_nat_mono) simp
  finally have "1 / 2 ^ Suc (ilog2_nat n) \<le> x" using assms by (simp add: field_simps)
  moreover have "ilog2 x = - int (Suc (ilog2_nat n))" using False by (simp add: ilog2_def n_def)
  moreover have "pow2 (- int k) = 1 / 2 ^ k" for k
    by (cases "k = 0") (simp_all add: pow2_def)
  ultimately show ?thesis by (simp only:)
qed

lemma round_half_even_of_int [simp]: "round_half_even (of_int k) = k"
  by (simp add: round_half_even_def)

lemma round_f32_exact:
  assumes x: "x = of_int k * pow2 j" and "\<bar>k\<bar> < 2 ^ 24" and "- 149 \<le> j" and "j \<le> 100"
  shows "round_f32 x = F32_Fin x"
proof (cases "x = 0")
  case False
  define e where "e = max (ilog2 \<bar>x\<bar> - 23) (- 149)"
  have "\<bar>x\<bar> = of_int \<bar>k\<bar> * pow2 j"
    using x pow2_pos [of j] by (simp add: abs_mult abs_of_pos)
  also have "\<dots> < pow2 24 * pow2 j"
  proof -
    have "(of_int \<bar>k\<bar> :: rat) < of_int (2 ^ 24)" using assms(2) by (simp only: of_int_less_iff)
    moreover have "pow2 24 = of_int (2 ^ 24)" by (simp add: pow2_def)
    ultimately show ?thesis by (simp only: mult_less_cancel_right_pos [OF pow2_pos])
  qed
  finally have lt: "\<bar>x\<bar> < pow2 (24 + j)" by (simp add: pow2_add)
  have "ilog2 \<bar>x\<bar> < 24 + j"
    using pow2_ilog2_le [of "\<bar>x\<bar>"] False lt by (intro pow2_less_iff) simp
  then have e: "e \<le> j" using assms(3) by (simp add: e_def)
  define i where "i = k * 2 ^ nat (j - e)"
  have xi: "x = of_int i * pow2 e"
    using x e pow2_add [of "j - e" e] by (simp add: i_def pow2_def [of "j - e"])
  have "pow2 e \<noteq> 0" using pow2_pos [of e] by (rule less_imp_neq [symmetric])
  then have "x / pow2 e = of_int i" using xi by simp
  then have "round_half_even (x / pow2 e) = i" by simp
  moreover have "\<bar>x\<bar> < 2 ^ 128"
    using lt pow2_mono [of "24 + j" 124] assms(4) by (simp add: pow2_def)
  ultimately show ?thesis
    unfolding round_f32_def Let_def e_def [symmetric] using False
    by (simp add: xi [symmetric])
qed (simp add: round_f32_def)

text \<open>The integers and half-integers of the wire encoding are exact.\<close>

lemma round_f32_of_int [simp]: "\<bar>k\<bar> < 2 ^ 24 \<Longrightarrow> round_f32 (of_int k) = F32_Fin (of_int k)"
  by (rule round_f32_exact [where j = 0]) simp_all

lemma round_f32_half: "\<bar>k\<bar> < 2 ^ 24 \<Longrightarrow> round_f32 (of_int k / 2) = F32_Fin (of_int k / 2)"
  by (rule round_f32_exact [where j = "- 1"]) (simp_all add: pow2_def)

end
