(* ===== verification/Temperature.thy ===== *)
theory Temperature
  imports Float32
begin

text \<open>
  The scale-aware temperature of \<open>crates/launa-protocol/src/temperature.rs\<close> (its scale type is
  declared in \<open>status.rs\<close>): wire bytes are the value in Fahrenheit and twice the value in Celsius.
\<close>

datatype TemperatureScale = Fahrenheit | Celsius

datatype TemperatureError = TempNegative | TempOverflow

record Temperature =
  temp_value :: f32
  temp_scale :: TemperatureScale

definition temp_celsius :: "f32 \<Rightarrow> Temperature" where
  "temp_celsius v = \<lparr>temp_value = v, temp_scale = Celsius\<rparr>"

definition temp_fahrenheit :: "f32 \<Rightarrow> Temperature" where
  "temp_fahrenheit v = \<lparr>temp_value = v, temp_scale = Fahrenheit\<rparr>"

definition temp_from_wire :: "u8 \<Rightarrow> TemperatureScale \<Rightarrow> Temperature" where
  "temp_from_wire raw scale =
     (let v = (case scale of
                 Fahrenheit \<Rightarrow> f32_of_u8 raw
               | Celsius \<Rightarrow> f32_div (f32_of_u8 raw) (F32_Fin 2))
      in \<lparr>temp_value = v, temp_scale = scale\<rparr>)"

definition temp_to_wire :: "Temperature \<Rightarrow> TemperatureError + u8" where
  "temp_to_wire t =
     (let raw = (case temp_scale t of
                   Fahrenheit \<Rightarrow> temp_value t
                 | Celsius \<Rightarrow> f32_mul (temp_value t) (F32_Fin 2));
          rounded = f32_add raw (F32_Fin (1 / 2))
      in if f32_less rounded (F32_Fin 0) then Inl TempNegative
         else if f32_less (F32_Fin 255) rounded then Inl TempOverflow
         else Inr (f32_to_u8 rounded))"

definition temp_to_celsius :: "Temperature \<Rightarrow> f32" where
  "temp_to_celsius t =
     (case temp_scale t of
        Celsius \<Rightarrow> temp_value t
      | Fahrenheit \<Rightarrow> f32_div (f32_mul (f32_sub (temp_value t) (F32_Fin 32)) (F32_Fin 5)) (F32_Fin 9))"

definition temp_to_fahrenheit :: "Temperature \<Rightarrow> f32" where
  "temp_to_fahrenheit t =
     (case temp_scale t of
        Fahrenheit \<Rightarrow> temp_value t
      | Celsius \<Rightarrow> f32_add (f32_div (f32_mul (temp_value t) (F32_Fin 9)) (F32_Fin 5)) (F32_Fin 32))"

definition temp_convert :: "Temperature \<Rightarrow> TemperatureScale \<Rightarrow> Temperature" where
  "temp_convert t target =
     (if temp_scale t = target then t
      else case target of
          Celsius \<Rightarrow> temp_celsius (temp_to_celsius t)
        | Fahrenheit \<Rightarrow> temp_fahrenheit (temp_to_fahrenheit t))"

definition temp_set_raw_value :: "Temperature \<Rightarrow> f32 \<Rightarrow> Temperature" where
  "temp_set_raw_value t v = t\<lparr>temp_value := v\<rparr>"

text \<open>\<open>PartialEq\<close> and \<open>PartialOrd\<close> compare in Fahrenheit.\<close>

definition temp_eq :: "Temperature \<Rightarrow> Temperature \<Rightarrow> bool" where
  "temp_eq s t = f32_eq (temp_to_fahrenheit s) (temp_to_fahrenheit t)"

datatype Ordering = Less | Equal | Greater

definition temp_partial_cmp :: "Temperature \<Rightarrow> Temperature \<Rightarrow> Ordering option" where
  "temp_partial_cmp s t =
     (let a = temp_to_fahrenheit s; b = temp_to_fahrenheit t in
      if f32_eq a b then Some Equal
      else if f32_less a b then Some Less
      else if f32_less b a then Some Greater
      else None)"

section \<open>Wire values\<close>

lemma round_f32_of_nat_half:
  "n < 2 ^ 23 \<Longrightarrow> round_f32 (of_nat n / 2) = F32_Fin (of_nat n / 2)"
  using round_f32_half [of "int n"] by simp

lemma round_f32_of_nat: "n < 2 ^ 24 \<Longrightarrow> round_f32 (of_nat n) = F32_Fin (of_nat n)"
  using round_f32_of_int [of "int n"] by simp

lemma temp_from_wire_value:
  "temp_value (temp_from_wire raw scale) =
     F32_Fin (case scale of Fahrenheit \<Rightarrow> of_nat (unat raw) | Celsius \<Rightarrow> of_nat (unat raw) / 2)"
proof -
  have "unat raw < 2 ^ 23" using unat_u8_less [of raw] by simp
  from round_f32_of_nat_half [OF this] show ?thesis
    by (cases scale) (simp_all add: temp_from_wire_def Let_def f32_of_u8_def)
qed

lemma temp_from_wire_scale [simp]: "temp_scale (temp_from_wire raw scale) = scale"
  by (simp add: temp_from_wire_def Let_def)

lemma temp_to_wire_from_wire:
  "temp_to_wire (temp_from_wire raw scale) =
     (if unat raw = 255 then Inl TempOverflow else Inr raw)"
proof -
  define n where "n = unat raw"
  have n: "n \<le> 255" using unat_u8_le by (simp add: n_def)
  have sum: "round_f32 (of_nat n + 1 / 2) = F32_Fin (of_nat n + 1 / 2)"
  proof -
    have half: "(of_nat n + 1 / 2 :: rat) = of_nat (2 * n + 1) / 2" by (simp add: field_simps)
    show ?thesis unfolding half by (rule round_f32_of_nat_half) (use n in simp)
  qed
  have twice: "round_f32 (of_nat n) = F32_Fin (of_nat n)" using n by (simp add: round_f32_of_nat)
  have big: "(255 :: rat) < of_nat n + 1 / 2 \<longleftrightarrow> n = 255"
  proof
    assume "(255 :: rat) < of_nat n + 1 / 2"
    then have "(510 :: rat) < of_nat (2 * n + 1)" by simp
    then have "510 < 2 * n + 1" by (metis of_nat_less_iff of_nat_numeral)
    with n show "n = 255" by simp
  qed simp
  have "\<lfloor>of_nat n + 1 / 2 :: rat\<rfloor> = int n" by (simp add: floor_eq_iff)
  moreover have "word_of_nat n = raw" by (simp add: n_def)
  ultimately show ?thesis using big sum twice
    by (cases scale)
      (simp_all add: temp_to_wire_def Let_def temp_from_wire_value n_def [symmetric])
qed

section \<open>Properties\<close>

text \<open>
  Encoding a decoded wire byte gives the byte back, in both scales, for every byte but
  255. That one is refused as an overflow, because one half is added before the comparison with 255.
\<close>

theorem temp_wire_roundtrip:
  "temp_to_wire (temp_from_wire raw scale) = (if raw = 255 then Inl TempOverflow else Inr raw)"
  using temp_to_wire_from_wire [of raw scale] by (simp add: word_unat_eq_iff)

end
