(* ===== verification/Status.thy ===== *)
theory Status
  imports Temperature
begin

text \<open>
  The status message: \<open>crates/launa-protocol/src/status.rs\<close> with the pump bit fields of
  \<open>pump_bits.rs\<close>. The six pumps and four lights are fixed-size arrays in the code; here they are
  lists, and the length of each is a lemma.
\<close>

unbundle bit_operations_syntax

section \<open>Pump bits\<close>

definition decode_pump_raw :: "u8 \<Rightarrow> u8 \<Rightarrow> u8 list" where
  "decode_pump_raw byte1 byte2 =
     [byte1 AND 3, drop_bit 2 byte1 AND 3, drop_bit 4 byte1 AND 3, drop_bit 6 byte1 AND 3,
      byte2 AND 3, drop_bit 2 byte2 AND 3]"

definition decode_pumps :: "u8 \<Rightarrow> u8 \<Rightarrow> (u8 \<Rightarrow> 'a) \<Rightarrow> 'a list" where
  "decode_pumps byte1 byte2 f = map f (decode_pump_raw byte1 byte2)"

lemma length_decode_pumps [simp]: "length (decode_pumps a b f) = 6"
  by (simp add: decode_pumps_def decode_pump_raw_def)

section \<open>The status record\<close>

datatype HeatingMode = Mode_Ready | Mode_Rest | Mode_ReadyInRest

datatype TimeFormat = Hour12 | Hour24

datatype TempRange = Range_Low | Range_High

datatype PumpState = Pump_Off | Pump_Low | Pump_High

datatype StatusError = StatusUnexpectedLength nat

record StatusUpdate =
  current_temp :: "Temperature option"
  set_temp :: Temperature
  st_hour :: u8
  st_minute :: u8
  heating_mode :: HeatingMode
  temperature_scale :: TemperatureScale
  time_format :: TimeFormat
  filter_mode :: u8
  is_heating :: bool
  temp_range :: TempRange
  pumps :: "PumpState list"
  circ_pump :: bool
  blower :: bool
  mister :: bool
  lights :: "bool list"
  is_priming :: bool
  is_hold :: bool
  notification_type :: u8
  panel_locked :: bool
  settings_lock :: bool
  m8_cycle_time :: u8
  sensor_a_temp :: "Temperature option"
  sensor_b_temp :: "Temperature option"
  hold_timer_minutes :: "u8 option"

definition decode_pump_state :: "u8 \<Rightarrow> PumpState" where
  "decode_pump_state bits =
     (if bits = 0 then Pump_Off else if bits = 1 then Pump_Low
      else if bits = 2 then Pump_High else Pump_Off)"

definition status_parse :: "u8 list \<Rightarrow> StatusError + StatusUpdate" where
  "status_parse p =
     (if length p < 24 then Inl (StatusUnexpectedLength (length p))
      else
        let scale = (if p ! 9 AND 0x01 \<noteq> 0 then Celsius else Fahrenheit);
            cur = (if p ! 2 = 0xFF then None else Some (temp_from_wire (p ! 2) scale));
            set = temp_from_wire (p ! 20) scale;
            mode = (let m = p ! 5 AND 0x03 in
                    if m = 0 then Mode_Ready else if m = 1 then Mode_Rest
                    else if m = 3 then Mode_ReadyInRest else Mode_Ready);
            pmps = decode_pumps (p ! 11) (p ! 12) decode_pump_state;
            circ_blower = p ! 13;
            heating_flags = p ! 10;
            hold = (p ! 0 = 0x05);
            ab_temps = (p ! 0 = 0x14);
            (a_temp, hold_minutes) =
              (if hold then (None, Some (p ! 7))
               else (Some (temp_from_wire (p ! 7) scale), None));
            b_temp = (if ab_temps then Some (temp_from_wire (p ! 8) scale) else None)
        in Inr \<lparr>current_temp = cur, set_temp = set, st_hour = p ! 3, st_minute = p ! 4,
             heating_mode = mode, temperature_scale = scale,
             time_format = (if p ! 9 AND 0x02 \<noteq> 0 then Hour24 else Hour12),
             filter_mode = drop_bit 2 (p ! 9) AND 0x03,
             is_heating = (heating_flags AND 0x30 \<noteq> 0),
             temp_range = (if heating_flags AND 0x04 \<noteq> 0 then Range_High else Range_Low),
             pumps = pmps,
             circ_pump = (circ_blower AND 0x02 \<noteq> 0),
             blower = (circ_blower AND 0x0C \<noteq> 0),
             mister = (p ! 15 \<noteq> 0),
             lights = [p ! 14 AND 0x03 \<noteq> 0, p ! 14 AND 0x0C \<noteq> 0, p ! 14 AND 0x30 \<noteq> 0,
                       p ! 14 AND 0xC0 \<noteq> 0],
             is_priming = (p ! 1 = 0x01),
             is_hold = hold,
             notification_type = p ! 6,
             panel_locked = (p ! 18 AND 0x01 \<noteq> 0),
             settings_lock = (p ! 19 AND 0x01 \<noteq> 0),
             m8_cycle_time = p ! 21,
             sensor_a_temp = a_temp, sensor_b_temp = b_temp, hold_timer_minutes = hold_minutes\<rparr>)"

section \<open>Well-formed status values\<close>

definition opt_scale :: "TemperatureScale \<Rightarrow> Temperature option \<Rightarrow> bool" where
  "opt_scale sc t = (case t of None \<Rightarrow> True | Some u \<Rightarrow> temp_scale u = sc)"

text \<open>
  What every parsed status satisfies: array sizes, one scale for all temperatures, and the two
  readings of offset 7 are exclusive and decided by Hold mode.
\<close>

definition status_wf :: "StatusUpdate \<Rightarrow> bool" where
  "status_wf s \<longleftrightarrow> length (pumps s) = 6 \<and> length (lights s) = 4 \<and>
     temp_scale (set_temp s) = temperature_scale s \<and>
     opt_scale (temperature_scale s) (current_temp s) \<and>
     opt_scale (temperature_scale s) (sensor_a_temp s) \<and>
     opt_scale (temperature_scale s) (sensor_b_temp s) \<and>
     (hold_timer_minutes s = None \<longleftrightarrow> \<not> is_hold s) \<and>
     (sensor_a_temp s = None \<longleftrightarrow> is_hold s) \<and>
     (sensor_b_temp s = None \<or> \<not> is_hold s)"

lemma status_parse_Inl_iff: "status_parse p = Inl e \<longleftrightarrow> length p < 24 \<and> e = StatusUnexpectedLength (length p)"
  by (cases "length p < 24") (auto simp: status_parse_def Let_def split_def)

lemma status_parse_Inr_iff: "status_parse p = Inr s \<longleftrightarrow> 24 \<le> length p \<and> s = projr (status_parse p)"
proof (cases "length p < 24")
  case True
  then show ?thesis by (simp add: status_parse_def)
next
  case False
  then show ?thesis using status_parse_Inl_iff [of p] by (cases "status_parse p") auto
qed

lemma projr_status_parse_wf: "24 \<le> length p \<Longrightarrow> status_wf (projr (status_parse p))"
  unfolding status_parse_def Let_def by (simp add: status_wf_def opt_scale_def)

lemma status_parse_wf: "status_parse p = Inr s \<Longrightarrow> status_wf s"
  using projr_status_parse_wf by (simp add: status_parse_Inr_iff [of p s])

text \<open>The fields of a parsed status, offset by offset.\<close>

lemma projr_status_parse_fields:
  assumes "24 \<le> length p"
  shows "set_temp (projr (status_parse p)) =
      temp_from_wire (p ! 20) (if p ! 9 AND 0x01 \<noteq> 0 then Celsius else Fahrenheit)"
    and "pumps (projr (status_parse p)) = decode_pumps (p ! 11) (p ! 12) decode_pump_state"
    and "is_hold (projr (status_parse p)) = (p ! 0 = 5)"
  using assms unfolding status_parse_def Let_def by (simp_all add: split_def)

text \<open>The set temperature of a parsed status is the byte at offset 20 again.\<close>

lemma status_set_temp_wire:
  assumes "status_parse p = Inr s"
  shows "temp_to_wire (set_temp s) = (if unat (p ! 20) = 255 then Inl TempOverflow else Inr (p ! 20))"
  using assms projr_status_parse_fields(1) [of p]
  by (simp add: status_parse_Inr_iff [of p s] temp_to_wire_from_wire)

section \<open>Properties\<close>


end
