(* ===== verification/Messages.thy ===== *)
theory Messages
  imports Interfaces Strings Status
begin

text \<open>
  The other responses of the spa: fault log (\<open>fault.rs\<close>), filter cycles (\<open>filter.rs\<close>),
  configuration (\<open>config.rs\<close>) and information (\<open>information.rs\<close>) of
  \<open>crates/launa-protocol/src\<close>. Each parser checks the length first, then reads fixed offsets.
\<close>

unbundle bit_operations_syntax

section \<open>Fault log\<close>

datatype FaultCode =
    Sync | LowFlow | FlowFailed | SettingsReset | Priming | ClockFailed | ProgramMemory
  | SyncCallService | HeaterDry | HeaterMaybeDry | WaterTooHot | HeaterTooHot | SensorAFault
  | SensorBFault | PumpStuckOn | HotFault | GfciTestFailed | StandbyHold | Fault_Unknown u8

definition FaultCode_from_code :: "u8 \<Rightarrow> FaultCode" where
  "FaultCode_from_code code =
     (if code = 15 then Sync else if code = 16 then LowFlow else if code = 17 then FlowFailed
      else if code = 18 then SettingsReset else if code = 19 then Priming
      else if code = 20 then ClockFailed else if code = 22 then ProgramMemory
      else if code = 26 then SyncCallService else if code = 27 then HeaterDry
      else if code = 28 then HeaterMaybeDry else if code = 29 then WaterTooHot
      else if code = 30 then HeaterTooHot else if code = 31 then SensorAFault
      else if code = 32 then SensorBFault else if code = 34 then PumpStuckOn
      else if code = 35 then HotFault else if code = 36 then GfciTestFailed
      else if code = 37 then StandbyHold else Fault_Unknown code)"

fun FaultCode_code :: "FaultCode \<Rightarrow> u8" where
  "FaultCode_code Sync = 15"
| "FaultCode_code LowFlow = 16"
| "FaultCode_code FlowFailed = 17"
| "FaultCode_code SettingsReset = 18"
| "FaultCode_code Priming = 19"
| "FaultCode_code ClockFailed = 20"
| "FaultCode_code ProgramMemory = 22"
| "FaultCode_code SyncCallService = 26"
| "FaultCode_code HeaterDry = 27"
| "FaultCode_code HeaterMaybeDry = 28"
| "FaultCode_code WaterTooHot = 29"
| "FaultCode_code HeaterTooHot = 30"
| "FaultCode_code SensorAFault = 31"
| "FaultCode_code SensorBFault = 32"
| "FaultCode_code PumpStuckOn = 34"
| "FaultCode_code HotFault = 35"
| "FaultCode_code GfciTestFailed = 36"
| "FaultCode_code StandbyHold = 37"
| "FaultCode_code (Fault_Unknown c) = c"

text \<open>The derived \<open>Debug\<close> text of a fault code.\<close>

fun FaultCode_debug :: "FaultCode \<Rightarrow> rstr" where
  "FaultCode_debug Sync = lit ''Sync''"
| "FaultCode_debug LowFlow = lit ''LowFlow''"
| "FaultCode_debug FlowFailed = lit ''FlowFailed''"
| "FaultCode_debug SettingsReset = lit ''SettingsReset''"
| "FaultCode_debug Priming = lit ''Priming''"
| "FaultCode_debug ClockFailed = lit ''ClockFailed''"
| "FaultCode_debug ProgramMemory = lit ''ProgramMemory''"
| "FaultCode_debug SyncCallService = lit ''SyncCallService''"
| "FaultCode_debug HeaterDry = lit ''HeaterDry''"
| "FaultCode_debug HeaterMaybeDry = lit ''HeaterMaybeDry''"
| "FaultCode_debug WaterTooHot = lit ''WaterTooHot''"
| "FaultCode_debug HeaterTooHot = lit ''HeaterTooHot''"
| "FaultCode_debug SensorAFault = lit ''SensorAFault''"
| "FaultCode_debug SensorBFault = lit ''SensorBFault''"
| "FaultCode_debug PumpStuckOn = lit ''PumpStuckOn''"
| "FaultCode_debug HotFault = lit ''HotFault''"
| "FaultCode_debug GfciTestFailed = lit ''GfciTestFailed''"
| "FaultCode_debug StandbyHold = lit ''StandbyHold''"
| "FaultCode_debug (Fault_Unknown c) = lit ''Unknown('' @ show_nat (unat c) @ lit '')''"

record FaultLogEntry =
  fault_count :: u8
  entry_number :: u8
  message_code :: FaultCode
  days_ago :: u8
  fault_hour :: u8
  fault_minute :: u8
  fault_flags :: u8
  set_temperature :: u8
  sensor_a_raw :: u8
  sensor_b_raw :: u8

datatype FaultError = FaultUnexpectedLength nat

definition fault_parse :: "u8 list \<Rightarrow> FaultError + FaultLogEntry" where
  "fault_parse p =
     (if length p < 10 then Inl (FaultUnexpectedLength (length p))
      else Inr \<lparr>fault_count = p ! 0, entry_number = p ! 1,
             message_code = FaultCode_from_code (p ! 2), days_ago = p ! 3, fault_hour = p ! 4,
             fault_minute = p ! 5, fault_flags = p ! 6, set_temperature = p ! 7,
             sensor_a_raw = p ! 8, sensor_b_raw = p ! 9\<rparr>)"

lemma FaultCode_code_from_code: "FaultCode_code (FaultCode_from_code c) = c"
  by (auto simp: FaultCode_from_code_def)

interpretation fault_code: codec FaultCode_from_code "\<lambda>f. Some (FaultCode_code f)" "\<lambda>_. True"
  by unfold_locales (simp add: FaultCode_code_from_code)

section \<open>Filter cycles\<close>

record FilterCycle =
  start_hour :: u8
  start_minute :: u8
  duration_hours :: u8
  duration_minutes :: u8
  fc_enabled :: bool

record FilterCycles =
  filter1 :: FilterCycle
  filter2 :: FilterCycle

datatype FilterError = FilterUnexpectedLength nat

definition filter_parse :: "u8 list \<Rightarrow> FilterError + FilterCycles" where
  "filter_parse p =
     (if length p < 8 then Inl (FilterUnexpectedLength (length p))
      else
        let f1 = \<lparr>start_hour = p ! 0, start_minute = p ! 1, duration_hours = p ! 2,
                  duration_minutes = p ! 3, fc_enabled = True\<rparr>;
            f2_enabled = (p ! 4 AND 0x80 \<noteq> 0);
            f2_start_hour = p ! 4 AND 0x7F;
            f2 = \<lparr>start_hour = f2_start_hour, start_minute = p ! 5, duration_hours = p ! 6,
                  duration_minutes = p ! 7, fc_enabled = f2_enabled\<rparr>
        in Inr \<lparr>filter1 = f1, filter2 = f2\<rparr>)"

section \<open>Configuration\<close>

datatype PumpConfig = Config_None | SingleSpeed | TwoSpeed

record SpaConfig =
  pump_configs :: "PumpConfig list"
  cfg_lights :: "bool list"
  cfg_circ_pump :: bool
  cfg_blower :: bool
  cfg_mister :: bool
  aux1 :: bool
  aux2 :: bool
  temperature_scale_celsius :: bool

datatype ConfigError = ConfigUnexpectedLength nat

definition config_parse :: "u8 list \<Rightarrow> ConfigError + SpaConfig" where
  "config_parse p =
     (if length p < 10 then Inl (ConfigUnexpectedLength (length p))
      else Inr \<lparr>
        pump_configs = decode_pumps (p ! 5) (p ! 6)
          (\<lambda>bits. if bits = 0 then Config_None else if bits = 1 then SingleSpeed
                  else if bits = 2 then TwoSpeed else Config_None),
        cfg_lights = [p ! 7 AND 0x03 \<noteq> 0, p ! 7 AND 0x0C \<noteq> 0, p ! 7 AND 0x30 \<noteq> 0,
                      p ! 7 AND 0xC0 \<noteq> 0],
        cfg_circ_pump = (p ! 8 AND 0x80 \<noteq> 0),
        cfg_blower = (p ! 8 AND 0x03 \<noteq> 0),
        cfg_mister = (p ! 9 AND 0x30 \<noteq> 0),
        aux1 = (p ! 9 AND 0x01 \<noteq> 0),
        aux2 = (p ! 9 AND 0x02 \<noteq> 0),
        temperature_scale_celsius = (p ! 3 AND 0x01 \<noteq> 0)\<rparr>)"

section \<open>Information\<close>

datatype HeaterVoltage = Voltage_Unknown u8 | V240

datatype HeaterType = HeaterType_Unknown u8 | Standard

definition HeaterVoltage_from_byte :: "u8 \<Rightarrow> HeaterVoltage" where
  "HeaterVoltage_from_byte b = (if b = 0x01 then V240 else Voltage_Unknown b)"

definition HeaterType_from_byte :: "u8 \<Rightarrow> HeaterType" where
  "HeaterType_from_byte b = (if b = 0x0A then Standard else HeaterType_Unknown b)"

record InformationResponse =
  software_id :: rstr
  system_model :: rstr
  current_setup :: u8
  config_signature :: rstr
  heater_voltage :: HeaterVoltage
  heater_type :: HeaterType
  dip_switches :: rstr

datatype InformationError = InfoUnexpectedLength nat

definition information_parse :: "u8 list \<Rightarrow> InformationError + InformationResponse" where
  "information_parse p =
     (if length p < 21 then Inl (InfoUnexpectedLength (length p))
      else
        let dec = (\<lambda>i. show_nat (unat (p ! i)));
            sid = lit ''M'' @ dec 0 @ lit ''_'' @ dec 1 @ lit '' V'' @ dec 2 @ lit ''.'' @ dec 3;
            model = trim_end_matches 0 (trim_end (from_utf8_lossy (drop 4 (take 12 p))));
            sig = show_hex2_upper (p ! 13) @ show_hex2_upper (p ! 14) @ show_hex2_upper (p ! 15) @
                  show_hex2_upper (p ! 16);
            dips = show_bin8 (p ! 19) @ show_bin8 (p ! 20)
        in Inr \<lparr>software_id = sid, system_model = model, current_setup = p ! 12,
             config_signature = sig, heater_voltage = HeaterVoltage_from_byte (p ! 17),
             heater_type = HeaterType_from_byte (p ! 18), dip_switches = dips\<rparr>)"

text \<open>The example of the source: bytes 0x64, 0xDC, 0x11, 0x00 read M100\_220 V17.0.\<close>

lemma information_example:
  "map_sum id software_id (information_parse ([0x64, 0xDC, 0x11, 0] @ replicate 17 0)) =
     Inr (lit ''M100_220 V17.0'')"
  by (simp add: information_parse_def Let_def show_nat.simps lit_def)

section \<open>Properties\<close>

text \<open>
  The numeric value of a decoded fault code is the byte it was decoded from, so no two
  bytes decode to the same fault code, and a code is unknown only for a byte that none of the
  eighteen named codes has.
\<close>

theorem fault_code_roundtrip:
  "FaultCode_code (FaultCode_from_code c) = c \<and>
   (FaultCode_from_code c = FaultCode_from_code d \<longleftrightarrow> c = d) \<and>
   ((\<exists>x. FaultCode_from_code c = Fault_Unknown x) \<longleftrightarrow>
      c \<notin> set [15, 16, 17, 18, 19, 20, 22, 26, 27, 28, 29, 30, 31, 32, 34, 35, 36, 37])"
proof (intro conjI)
  show "FaultCode_code (FaultCode_from_code c) = c" by (rule FaultCode_code_from_code)
  show "FaultCode_from_code c = FaultCode_from_code d \<longleftrightarrow> c = d"
    by (rule fault_code.enc_inject) simp_all
  show "(\<exists>x. FaultCode_from_code c = Fault_Unknown x) \<longleftrightarrow>
      c \<notin> set [15, 16, 17, 18, 19, 20, 22, 26, 27, 28, 29, 30, 31, 32, 34, 35, 36, 37]"
    by (simp add: FaultCode_from_code_def)
qed

end
