(* ===== verification/SimState.thy ===== *)
theory SimState
  imports Messages
begin

text \<open>
  The parts of the spa simulator of \<open>crates/launa-sim/src\<close>: the generator \<open>lcg.rs\<close>, the simulated
  spa's state \<open>spa_sim/state.rs\<close>, the response data \<open>spa_sim/config.rs\<close>, and the subsystems
  \<open>fault_manager.rs\<close>, \<open>error_injection.rs\<close> and \<open>frame_splitter.rs\<close>. Counters are 64-bit words.
\<close>

unbundle bit_operations_syntax

section \<open>The generator\<close>

definition lcg_next :: "u64 \<Rightarrow> u64" where
  "lcg_next s = s * 6364136223846793005 + 1442695040888963407"

section \<open>The spa's state\<close>

record SpaState =
  sp_current_temp :: Temperature
  sp_set_temp :: Temperature
  sp_set_temp_high :: Temperature
  sp_set_temp_low :: Temperature
  sp_heating_mode :: HeatingMode
  sp_temp_scale :: TemperatureScale
  sp_is_heating :: bool
  sp_temp_range :: TempRange
  sp_pumps :: "PumpState list"
  sp_circ_pump :: bool
  sp_blower :: bool
  sp_lights :: "bool list"
  sp_mister :: bool
  sp_hour :: u8
  sp_minute :: u8
  sp_priming :: bool
  sp_hold :: bool

definition spa_state_default :: SpaState where
  "spa_state_default = \<lparr>
     sp_current_temp = temp_celsius (F32_Fin 38), sp_set_temp = temp_celsius (F32_Fin 40),
     sp_set_temp_high = temp_celsius (F32_Fin 40), sp_set_temp_low = temp_celsius (F32_Fin 26),
     sp_heating_mode = Mode_Ready, sp_temp_scale = Celsius, sp_is_heating = False,
     sp_temp_range = Range_High, sp_pumps = replicate 6 Pump_Off, sp_circ_pump = True,
     sp_blower = False, sp_lights = replicate 4 False, sp_mister = False, sp_hour = 14,
     sp_minute = 30, sp_priming = False, sp_hold = False\<rparr>"

definition set_target_temp :: "SpaState \<Rightarrow> Temperature \<Rightarrow> SpaState" where
  "set_target_temp s t =
     (let s1 = s\<lparr>sp_set_temp := t\<rparr> in
      case sp_temp_range s1 of
        Range_High \<Rightarrow> s1\<lparr>sp_set_temp_high := t\<rparr>
      | Range_Low \<Rightarrow> s1\<lparr>sp_set_temp_low := t\<rparr>)"

datatype SpaEventType = FilterCycleStart nat

record SpaEvent =
  event_tick :: u64
  event_type :: SpaEventType

section \<open>Response data\<close>

record FaultLogConfig =
  flc_fault_count :: u8
  flc_entry_number :: u8
  flc_message_code :: FaultCode
  flc_days_ago :: u8
  flc_hour :: u8
  flc_minute :: u8
  flc_flags :: u8
  flc_set_temperature :: u8
  flc_sensor_a_temp :: u8
  flc_sensor_b_temp :: u8

definition fault_log_config_default :: FaultLogConfig where
  "fault_log_config_default = \<lparr>flc_fault_count = 3, flc_entry_number = 1,
     flc_message_code = HeaterDry, flc_days_ago = 2, flc_hour = 14, flc_minute = 30,
     flc_flags = 0x04, flc_set_temperature = 104, flc_sensor_a_temp = 104,
     flc_sensor_b_temp = 102\<rparr>"

record FilterCycleConfig =
  fcc_start_hour :: u8
  fcc_start_minute :: u8
  fcc_duration_hours :: u8
  fcc_duration_minutes :: u8
  fcc_enabled :: bool

record FilterCyclesConfig =
  fcc_filter1 :: FilterCycleConfig
  fcc_filter2 :: FilterCycleConfig

definition filter_cycles_config_default :: FilterCyclesConfig where
  "filter_cycles_config_default = \<lparr>
     fcc_filter1 = \<lparr>fcc_start_hour = 8, fcc_start_minute = 0, fcc_duration_hours = 4,
       fcc_duration_minutes = 0, fcc_enabled = True\<rparr>,
     fcc_filter2 = \<lparr>fcc_start_hour = 16, fcc_start_minute = 0, fcc_duration_hours = 2,
       fcc_duration_minutes = 0, fcc_enabled = True\<rparr>\<rparr>"

text \<open>The model string is an array of eight bytes.\<close>

record InformationConfig =
  inf_software_id_byte0 :: u8
  inf_software_id_byte1 :: u8
  inf_software_version_byte0 :: u8
  inf_software_version_byte1 :: u8
  inf_system_model :: "u8 list"
  inf_current_setup :: u8
  inf_config_sig_byte0 :: u8
  inf_config_sig_byte1 :: u8
  inf_config_sig_byte2 :: u8
  inf_config_sig_byte3 :: u8
  inf_heater_voltage :: u8
  inf_heater_type :: u8
  inf_dip_switch_byte0 :: u8
  inf_dip_switch_byte1 :: u8

definition information_config_default :: InformationConfig where
  "information_config_default = \<lparr>
     inf_software_id_byte0 = 0x64, inf_software_id_byte1 = 0xDC,
     inf_software_version_byte0 = 0x11, inf_software_version_byte1 = 0x00,
     inf_system_model = [0x42, 0x46, 0x42, 0x50, 0x32, 0x30, 0x20, 0x20],
     inf_current_setup = 0x01, inf_config_sig_byte0 = 0x3D, inf_config_sig_byte1 = 0x12,
     inf_config_sig_byte2 = 0x38, inf_config_sig_byte3 = 0x2E, inf_heater_voltage = 0x01,
     inf_heater_type = 0x0A, inf_dip_switch_byte0 = 0x04, inf_dip_switch_byte1 = 0x00\<rparr>"

text \<open>The raw payload is an array of ten bytes.\<close>

record SpaConfigConfig =
  raw_payload :: "u8 list"

definition spa_config_config_default :: SpaConfigConfig where
  "spa_config_config_default =
     \<lparr>raw_payload = (replicate 10 0)[0 := 0x02, 1 := 0x02, 5 := 0x0A, 7 := 0x01, 8 := 0x81]\<rparr>"

section \<open>Fault state\<close>

record FaultManager =
  fault_active :: bool
  transient_fault_remaining_ticks :: u64
  fault_log_config :: FaultLogConfig
  fault_log_entries :: "FaultLogConfig list"

definition fault_manager_new :: FaultManager where
  "fault_manager_new = \<lparr>fault_active = False, transient_fault_remaining_ticks = 0,
     fault_log_config = fault_log_config_default, fault_log_entries = []\<rparr>"

definition fm_simulate_fault_state :: "FaultManager \<Rightarrow> FaultCode \<Rightarrow> FaultManager" where
  "fm_simulate_fault_state m code =
     m\<lparr>fault_active := True,
       fault_log_config := (fault_log_config m)\<lparr>flc_message_code := code\<rparr>,
       transient_fault_remaining_ticks := 0\<rparr>"

definition fm_clear_fault_state :: "FaultManager \<Rightarrow> FaultManager" where
  "fm_clear_fault_state m = m\<lparr>fault_active := False, transient_fault_remaining_ticks := 0\<rparr>"

definition fm_simulate_transient_fault :: "FaultManager \<Rightarrow> FaultCode \<Rightarrow> u64 \<Rightarrow> FaultManager" where
  "fm_simulate_transient_fault m code ticks =
     (if ticks = 0 then m\<lparr>fault_active := False, transient_fault_remaining_ticks := 0\<rparr>
      else m\<lparr>fault_active := True,
             fault_log_config := (fault_log_config m)\<lparr>flc_message_code := code\<rparr>,
             transient_fault_remaining_ticks := ticks\<rparr>)"

definition fm_set_fault_log_config :: "FaultManager \<Rightarrow> FaultLogConfig \<Rightarrow> FaultManager" where
  "fm_set_fault_log_config m cfg = m\<lparr>fault_log_config := cfg\<rparr>"

definition fm_set_fault_log_entries :: "FaultManager \<Rightarrow> FaultLogConfig list \<Rightarrow> FaultManager" where
  "fm_set_fault_log_entries m entries = m\<lparr>fault_log_entries := entries\<rparr>"

definition fm_tick_transient_fault_countdown :: "FaultManager \<Rightarrow> FaultManager" where
  "fm_tick_transient_fault_countdown m =
     (if transient_fault_remaining_ticks m > 0 then
        let m1 = m\<lparr>transient_fault_remaining_ticks := transient_fault_remaining_ticks m - 1\<rparr> in
        if transient_fault_remaining_ticks m1 = 0 then m1\<lparr>fault_active := False\<rparr> else m1
      else m)"

section \<open>Error injection\<close>

record ErrorInjection =
  command_success_rate :: f32
  command_counter :: u64
  bus_silence_remaining :: u64
  inject_corrupt_next :: bool
  duplicate_next :: bool

definition error_injection_new :: ErrorInjection where
  "error_injection_new = \<lparr>command_success_rate = F32_Fin 1, command_counter = 0,
     bus_silence_remaining = 0, inject_corrupt_next = False, duplicate_next = False\<rparr>"

definition ei_set_command_success_rate :: "ErrorInjection \<Rightarrow> f32 \<Rightarrow> ErrorInjection" where
  "ei_set_command_success_rate e rate =
     e\<lparr>command_success_rate := f32_clamp rate (F32_Fin 0) (F32_Fin 1)\<rparr>"

definition ei_simulate_bus_silence :: "ErrorInjection \<Rightarrow> u64 \<Rightarrow> ErrorInjection" where
  "ei_simulate_bus_silence e ticks = e\<lparr>bus_silence_remaining := ticks\<rparr>"

definition ei_inject_corrupt_frame :: "ErrorInjection \<Rightarrow> ErrorInjection" where
  "ei_inject_corrupt_frame e = e\<lparr>inject_corrupt_next := True\<rparr>"

definition ei_inject_duplicate_frame :: "ErrorInjection \<Rightarrow> ErrorInjection" where
  "ei_inject_duplicate_frame e = e\<lparr>duplicate_next := True\<rparr>"

definition ei_should_accept_command :: "ErrorInjection \<Rightarrow> ErrorInjection \<times> bool" where
  "ei_should_accept_command e =
     (let rate = command_success_rate e in
      if f32_le (F32_Fin 1) rate then (e, True)
      else if f32_le rate (F32_Fin 0) then (e, False)
      else
        let rand_val = ucast (drop_bit 16 (command_counter e * 1103515245 + 12345)) :: u8;
            threshold = f32_to_u8 (f32_mul rate (F32_Fin 256))
        in (e\<lparr>command_counter := command_counter e + 1\<rparr>, rand_val < threshold))"

definition ei_is_silent :: "ErrorInjection \<Rightarrow> bool" where
  "ei_is_silent e \<longleftrightarrow> bus_silence_remaining e > 0"

definition ei_tick_bus_silence :: "ErrorInjection \<Rightarrow> ErrorInjection \<times> bool" where
  "ei_tick_bus_silence e =
     (if bus_silence_remaining e > 0
      then (e\<lparr>bus_silence_remaining := bus_silence_remaining e - 1\<rparr>, True) else (e, False))"

definition ei_take_corrupt_next :: "ErrorInjection \<Rightarrow> ErrorInjection \<times> bool" where
  "ei_take_corrupt_next e = (e\<lparr>inject_corrupt_next := False\<rparr>, inject_corrupt_next e)"

definition ei_take_duplicate_next :: "ErrorInjection \<Rightarrow> ErrorInjection \<times> bool" where
  "ei_take_duplicate_next e = (e\<lparr>duplicate_next := False\<rparr>, duplicate_next e)"

section \<open>Split frames\<close>

record FrameSplitter =
  split_point :: "nat option"
  split_remainder :: "u8 list option"

definition frame_splitter_new :: FrameSplitter where
  "frame_splitter_new = \<lparr>split_point = None, split_remainder = None\<rparr>"

definition fs_inject_partial_frame_at :: "FrameSplitter \<Rightarrow> nat \<Rightarrow> FrameSplitter" where
  "fs_inject_partial_frame_at f p = f\<lparr>split_point := Some p, split_remainder := None\<rparr>"

definition fs_take_remainder :: "FrameSplitter \<Rightarrow> FrameSplitter \<times> u8 list option" where
  "fs_take_remainder f = (f\<lparr>split_remainder := None\<rparr>, split_remainder f)"

definition fs_take_split_point :: "FrameSplitter \<Rightarrow> FrameSplitter \<times> nat option" where
  "fs_take_split_point f = (f\<lparr>split_point := None\<rparr>, split_point f)"

definition fs_set_remainder :: "FrameSplitter \<Rightarrow> u8 list \<Rightarrow> FrameSplitter" where
  "fs_set_remainder f bs = f\<lparr>split_remainder := Some bs\<rparr>"

definition fs_has_remainder :: "FrameSplitter \<Rightarrow> bool" where
  "fs_has_remainder f \<longleftrightarrow> split_remainder f \<noteq> None"

end
