(* ===== verification/Crc8.thy ===== *)
theory Crc8
  imports Interfaces
begin

text \<open>
  The Balboa CRC-8 of \<open>crates/launa-protocol/src/crc8.rs\<close>: initial value 0x02, polynomial
  0x07, final XOR 0x02. The inner loop body, the eight rounds for one byte and the whole
  \<open>compute\<close> are separate definitions. The lemmas show that each round is a bijection on bytes,
  which makes the checksum an interpretation of \<open>byte_checksum\<close>.
\<close>

unbundle bit_operations_syntax

definition crc8_round :: "u8 \<Rightarrow> u8" where
  "crc8_round crc =
     (if crc AND 0x80 \<noteq> 0 then push_bit 1 crc XOR 0x07 else push_bit 1 crc)"

definition crc8_byte :: "u8 \<Rightarrow> u8 \<Rightarrow> u8" where
  "crc8_byte crc byte = (crc8_round ^^ 8) (crc XOR byte)"

lemma crc8_byte_unroll:
  "crc8_byte c b = crc8_round (crc8_round (crc8_round (crc8_round (crc8_round (crc8_round
     (crc8_round (crc8_round (c XOR b))))))))"
  by (simp add: crc8_byte_def eval_nat_numeral)

definition crc8_compute :: "u8 list \<Rightarrow> u8" where
  "crc8_compute data = foldl crc8_byte 0x02 data XOR 0x02"

lemma crc8_compute_nil: "crc8_compute [] = 0"
  by (simp add: crc8_compute_def)

definition crc8_unround :: "u8 \<Rightarrow> u8" where
  "crc8_unround crc =
     (if crc AND 1 \<noteq> 0 then drop_bit 1 (crc XOR 0x07) OR 0x80 else drop_bit 1 crc)"

lemma crc8_unround_round: "crc8_unround (crc8_round x) = x"
  by (rule all_u8) (simp add: crc8_unround_def crc8_round_def nibbles_def)

lemma inj_crc8_rounds: "inj (crc8_round ^^ n)"
  by (rule inj_fn) (metis crc8_unround_round injI)

lemma xor_right_cancel: "x XOR z = y XOR z \<longleftrightarrow> x = y" for x y z :: "'a::len word"
  by (metis xor.assoc xor.right_neutral xor_self_eq)

lemma xor_left_cancel: "z XOR x = z XOR y \<longleftrightarrow> x = y" for x y z :: "'a::len word"
  by (metis xor_right_cancel xor.commute)

lemma crc8_byte_inject: "crc8_byte c b = crc8_byte d e \<longleftrightarrow> c XOR b = d XOR e"
  by (simp add: crc8_byte_def inj_eq [OF inj_crc8_rounds])

text \<open>The value for the status message quoted in the protocol documentation.\<close>

lemma crc8_known_value:
  "crc8_compute [0x1D, 0xFF, 0xAF, 0x13, 0, 0, 0x64, 7, 7, 0, 0, 1, 0, 0, 4, 0, 0, 0, 0, 0, 0, 0,
     0, 0, 0x64, 0, 0, 0] = 0xC2"
  by (simp add: crc8_compute_def crc8_byte_unroll crc8_round_def)

interpretation crc: byte_checksum crc8_compute crc8_byte "0x02" "\<lambda>c. c XOR 0x02"
  by unfold_locales
    (simp_all add: crc8_compute_def crc8_byte_inject xor_right_cancel xor_left_cancel)

end
