(* ===== verification/Frame.thy ===== *)
theory Frame
  imports Crc8
begin

text \<open>
  Frames and the streaming decoder of \<open>crates/launa-protocol/src/frame.rs\<close>. A frame on the wire
  is a marker byte 0x7E, a body and a marker; the body is a length byte (which counts itself, the
  two type bytes, the payload and the CRC), the type, the payload and the CRC of all that precedes
  it. There is no byte stuffing. \<open>frame_parse\<close> and \<open>frame_encode\<close> are \<open>Frame::parse\<close> and
  \<open>Frame::encode\<close>; the record \<open>FrameDecoder\<close> is the decoder's state, \<open>decoder_feed\<close> its byte-wise
  entry point and \<open>decoder_feed_slice\<close> the bulk one. Lengths and indices (\<open>usize\<close>) are naturals,
  the saturating error counter is a 32-bit word. The one \<open>usize\<close> subtraction that can underflow
  (the number of body bytes still needed) is a branch of its own: \<open>None\<close>.
\<close>

section \<open>Frames\<close>

definition FRAME_MARKER :: u8 where
  "FRAME_MARKER = 0x7E"

record frame =
  message_type :: "u8 \<times> u8"
  payload :: "u8 list"

datatype FrameError =
    FrameTooShort nat
  | FrameIncomplete (frame_expected: nat) (frame_got: nat)
  | FrameCrcMismatch (crc_expected: u8) (crc_got: u8)
  | FramePayloadTooLarge nat

definition frame_parse :: "u8 list \<Rightarrow> FrameError + frame" where
  "frame_parse data =
     (if length data < 4 then Inl (FrameTooShort (length data))
      else let len = unat (data ! 0) in
        if len < 4 then Inl (FrameTooShort len)
        else if length data < len then Inl (FrameIncomplete len (length data))
        else let body = take (len - 1) data;
                 expected_crc = data ! (len - 1);
                 computed_crc = crc8_compute body in
          if computed_crc \<noteq> expected_crc then Inl (FrameCrcMismatch expected_crc computed_crc)
          else Inr \<lparr>message_type = (data ! 1, data ! 2),
                    payload = drop 3 (take (len - 1) data)\<rparr>)"

definition frame_encode :: "frame \<Rightarrow> FrameError + u8 list" where
  "frame_encode f =
     (if 4 + length (payload f) > 255 then Inl (FramePayloadTooLarge (length (payload f)))
      else let len = word_of_nat (4 + length (payload f)) :: u8;
               body = len # fst (message_type f) # snd (message_type f) # payload f;
               body' = body @ [crc8_compute body] in
        Inr (FRAME_MARKER # body' @ [FRAME_MARKER]))"

definition FrameEncoder_encode :: "u8 \<times> u8 \<Rightarrow> u8 list \<Rightarrow> FrameError + u8 list" where
  "FrameEncoder_encode mt p = frame_encode \<lparr>message_type = mt, payload = p\<rparr>"

section \<open>The streaming decoder\<close>

record FrameDecoder =
  buffer :: "u8 list"
  in_frame :: bool
  expected_length :: nat
  frame_error_count :: u32
  max_buffer_size :: nat

definition decoder_new :: FrameDecoder where
  "decoder_new = \<lparr>buffer = [], in_frame = False, expected_length = 0, frame_error_count = 0,
     max_buffer_size = 512\<rparr>"

definition decoder_with_max_buffer :: "FrameDecoder \<Rightarrow> nat \<Rightarrow> FrameDecoder" where
  "decoder_with_max_buffer d sz = d\<lparr>max_buffer_size := sz\<rparr>"

definition decoder_reset_on_error :: "FrameDecoder \<Rightarrow> FrameDecoder" where
  "decoder_reset_on_error d = d\<lparr>buffer := [], in_frame := False, expected_length := 0,
     frame_error_count := sat_add (frame_error_count d) 1\<rparr>"

definition decoder_reset :: "FrameDecoder \<Rightarrow> FrameDecoder" where
  "decoder_reset d = d\<lparr>buffer := [], in_frame := False, expected_length := 0\<rparr>"

definition decoder_count_error :: "FrameDecoder \<Rightarrow> FrameDecoder" where
  "decoder_count_error d = d\<lparr>frame_error_count := sat_add (frame_error_count d) 1\<rparr>"

definition decoder_feed :: "FrameDecoder \<Rightarrow> u8 \<Rightarrow> FrameDecoder \<times> frame option" where
  "decoder_feed d byte =
     (if byte = FRAME_MARKER then
        if in_frame d then
          if expected_length d > 0 \<and> length (buffer d) \<ge> expected_length d then
            (case frame_parse (take (expected_length d) (buffer d)) of
               Inr f \<Rightarrow> (decoder_reset d, Some f)
             | Inl _ \<Rightarrow> (decoder_count_error (decoder_reset d), None))
          else if expected_length d > 0 \<and> length (buffer d) < expected_length d then
            (d\<lparr>buffer := buffer d @ [byte]\<rparr>, None)
          else if buffer d \<noteq> [] then
            ((decoder_reset_on_error d)\<lparr>in_frame := True\<rparr>, None)
          else (d\<lparr>in_frame := True\<rparr>, None)
        else (d\<lparr>buffer := [], expected_length := 0, in_frame := True\<rparr>, None)
      else if in_frame d then
        let d1 = d\<lparr>buffer := buffer d @ [byte]\<rparr> in
        if length (buffer d1) = 1 then
          let d2 = d1\<lparr>expected_length := unat byte\<rparr> in
          if expected_length d2 < 4 then (decoder_reset_on_error d2, None)
          else if expected_length d2 > max_buffer_size d2 then (decoder_reset_on_error d2, None)
          else (d2, None)
        else (d1, None)
      else (d, None))"

function feed_slice_loop ::
  "FrameDecoder \<Rightarrow> frame list \<Rightarrow> u8 list \<Rightarrow> (FrameDecoder \<times> frame list) option" where
  "feed_slice_loop d frames [] = Some (d, frames)"
| "feed_slice_loop d frames (b # rest) =
     (if \<not> in_frame d then
        feed_slice_loop
          (if b = FRAME_MARKER then d\<lparr>in_frame := True, buffer := [], expected_length := 0\<rparr> else d)
          frames rest
      else if expected_length d = 0 then
        if b = FRAME_MARKER then
          feed_slice_loop (d\<lparr>buffer := [], expected_length := 0\<rparr>) frames rest
        else
          let d1 = d\<lparr>buffer := buffer d @ [b], expected_length := unat b\<rparr> in
          feed_slice_loop
            (if expected_length d1 < 4 \<or> expected_length d1 > max_buffer_size d1
             then decoder_reset_on_error d1 else d1) frames rest
      else if length (buffer d) > expected_length d then None
      else
        let needed = expected_length d - length (buffer d);
            available = length (b # rest);
            to_copy = min needed available;
            d1 = d\<lparr>buffer := buffer d @ take to_copy (b # rest)\<rparr>;
            tail = drop to_copy (b # rest) in
        if length (buffer d1) < expected_length d1 then feed_slice_loop d1 frames tail
        else
          (case tail of
             [] \<Rightarrow> Some (d1, frames)
           | e # tail' \<Rightarrow>
               if e = FRAME_MARKER then
                 (case frame_parse (take (expected_length d1) (buffer d1)) of
                    Inr f \<Rightarrow> feed_slice_loop (decoder_reset d1) (frames @ [f]) tail'
                  | Inl _ \<Rightarrow> feed_slice_loop (decoder_count_error (decoder_reset d1)) frames tail')
               else feed_slice_loop (decoder_reset_on_error d1) frames tail'))"
  by pat_completeness auto
termination
  by (relation "measure (\<lambda>(d, frames, data). length data)") (auto dest: drop_eq_Cons_length)

declare feed_slice_loop.simps(2) [simp del]

definition decoder_feed_slice ::
  "FrameDecoder \<Rightarrow> u8 list \<Rightarrow> (FrameDecoder \<times> frame list) option" where
  "decoder_feed_slice d data = feed_slice_loop d [] data"

definition decoder_reset_frame_error_count :: "FrameDecoder \<Rightarrow> FrameDecoder \<times> u32" where
  "decoder_reset_frame_error_count d = (d\<lparr>frame_error_count := 0\<rparr>, frame_error_count d)"

section \<open>Parsing and encoding\<close>

text \<open>The body of a frame on the wire: all that stands between the two markers.\<close>

definition wire_body :: "frame \<Rightarrow> u8 list" where
  "wire_body f =
     (let body = word_of_nat (4 + length (payload f)) # fst (message_type f) # snd (message_type f)
                 # payload f
      in body @ [crc8_compute body])"

definition encodable :: "frame \<Rightarrow> bool" where
  "encodable f \<longleftrightarrow> length (payload f) \<le> 251"

lemma length_wire_body [simp]: "length (wire_body f) = 4 + length (payload f)"
  by (simp add: wire_body_def Let_def)

lemma hd_wire_body: "encodable f \<Longrightarrow> unat (wire_body f ! 0) = 4 + length (payload f)"
  by (simp add: wire_body_def Let_def encodable_def unat_of_nat del: of_nat_add)

lemma wire_body_not_Nil [simp]: "wire_body f \<noteq> []"
  using length_wire_body [of f] by (metis add_eq_0_iff_both_eq_0 list.size(3) zero_neq_numeral)

lemma frame_encode_Inr:
  "encodable f \<Longrightarrow> frame_encode f = Inr (FRAME_MARKER # wire_body f @ [FRAME_MARKER])"
  by (simp add: frame_encode_def wire_body_def encodable_def Let_def)

lemma frame_encode_Inl:
  "\<not> encodable f \<Longrightarrow> frame_encode f = Inl (FramePayloadTooLarge (length (payload f)))"
  by (simp add: frame_encode_def encodable_def)

lemma wire_body_append:
  "wire_body f @ rest =
     (let body = word_of_nat (4 + length (payload f)) # fst (message_type f) # snd (message_type f)
                 # payload f
      in body @ crc8_compute body # rest)"
  by (simp add: wire_body_def Let_def)

lemma frame_parse_wire_body:
  assumes "encodable f" shows "frame_parse (wire_body f @ rest) = Inr f"
proof -
  define body where "body = (word_of_nat (4 + length (payload f)) :: u8) # fst (message_type f)
     # snd (message_type f) # payload f"
  define data where "data = wire_body f @ rest"
  have data: "data = body @ crc8_compute body # rest"
    by (simp add: data_def body_def wire_body_append)
  have n: "unat (data ! 0) = 4 + length (payload f)"
    using hd_wire_body [OF assms] by (simp add: data_def nth_append)
  have len: "length body = 3 + length (payload f)" by (simp add: body_def)
  have "take (3 + length (payload f)) data = body" "data ! (3 + length (payload f)) = crc8_compute body"
    using data len by (simp_all add: nth_append)
  moreover have "data ! 1 = fst (message_type f)" "data ! 2 = snd (message_type f)"
    "drop 3 body = payload f"
    by (simp_all add: data body_def)
  moreover have "length data = 4 + length (payload f) + length rest" by (simp add: data_def)
  ultimately show ?thesis
    unfolding data_def [symmetric] by (simp add: frame_parse_def n)
qed

lemma frame_parse_Inr:
  assumes "frame_parse data = Inr f"
  shows "encodable f \<and> data = wire_body f @ drop (unat (data ! 0)) data"
proof -
  define n where "n = unat (data ! 0)"
  from assms have n: "4 \<le> n" "n \<le> length data"
    and crc: "crc8_compute (take (n - 1) data) = data ! (n - 1)"
    and f: "f = \<lparr>message_type = (data ! 1, data ! 2), payload = drop 3 (take (n - 1) data)\<rparr>"
    by (auto simp: frame_parse_def n_def Let_def split: if_splits)
  have n255: "n \<le> 255" using unat_u8_le by (simp add: n_def)
  have len: "length (payload f) = n - 4" using n f by simp
  have "take (n - 1) data = data ! 0 # data ! 1 # data ! 2 # payload f"
  proof -
    have "3 \<le> n - 1" using n by simp
    then have "take (n - 1) data = take 3 data @ drop 3 (take (n - 1) data)"
      by (metis append_take_drop_id min.absorb1 take_take)
    also have "take 3 data = [data ! 0, data ! 1, data ! 2]"
      using n by (cases data; cases "tl data"; cases "tl (tl data)") auto
    finally show ?thesis using f by simp
  qed
  moreover have "data ! 0 = word_of_nat (4 + length (payload f))"
    using n len by (simp add: n_def)
  ultimately have "wire_body f = take (n - 1) data @ [data ! (n - 1)]"
    using f crc by (simp add: wire_body_def Let_def)
  also have "\<dots> = take n data"
    using n by (metis One_nat_def Suc_diff_1 Suc_le_eq le_trans less_le_trans nat.simps(3)
      numeral_eq_Suc take_Suc_conv_app_nth zero_less_iff_neq_zero zero_less_numeral)
  finally have "data = wire_body f @ drop n data" by simp
  then show ?thesis using len n255 n by (simp add: encodable_def n_def)
qed

section \<open>The bulk decoder, byte by byte\<close>

text \<open>
  The contract of the decoder: what one byte does to it. \<open>decoder_feed_slice\<close> copies body bytes
  in bulk; the lemmas show that it is the run of \<open>slice_byte\<close> over its input.
\<close>

definition slice_byte :: "FrameDecoder \<Rightarrow> u8 \<Rightarrow> (FrameDecoder \<times> frame list) option" where
  "slice_byte d b =
     (if \<not> in_frame d then
        Some (if b = FRAME_MARKER then d\<lparr>in_frame := True, buffer := [], expected_length := 0\<rparr> else d, [])
      else if expected_length d = 0 then
        if b = FRAME_MARKER then Some (d\<lparr>buffer := [], expected_length := 0\<rparr>, [])
        else
          let d1 = d\<lparr>buffer := buffer d @ [b], expected_length := unat b\<rparr> in
          Some (if expected_length d1 < 4 \<or> expected_length d1 > max_buffer_size d1
                then decoder_reset_on_error d1 else d1, [])
      else if length (buffer d) > expected_length d then None
      else if length (buffer d) < expected_length d then Some (d\<lparr>buffer := buffer d @ [b]\<rparr>, [])
      else if b = FRAME_MARKER then
        (case frame_parse (take (expected_length d) (buffer d)) of
           Inr f \<Rightarrow> Some (decoder_reset d, [f])
         | Inl _ \<Rightarrow> Some (decoder_count_error (decoder_reset d), []))
      else Some (decoder_reset_on_error d, []))"

fun slice_bytes ::
  "FrameDecoder \<Rightarrow> frame list \<Rightarrow> u8 list \<Rightarrow> (FrameDecoder \<times> frame list) option" where
  "slice_bytes d frames [] = Some (d, frames)"
| "slice_bytes d frames (b # bs) =
     (case slice_byte d b of None \<Rightarrow> None | Some (d', fs) \<Rightarrow> slice_bytes d' (frames @ fs) bs)"

lemma slice_bytes_append:
  "slice_bytes d frames (xs @ ys) =
     (case slice_bytes d frames xs of None \<Rightarrow> None | Some (d', fs) \<Rightarrow> slice_bytes d' fs ys)"
  by (induction xs arbitrary: d frames) (auto split: option.splits prod.splits)

lemma slice_bytes_frames:
  "slice_bytes d (frames @ frames') bs = map_option (\<lambda>(d', fs). (d', frames @ fs)) (slice_bytes d frames' bs)"
  by (induction bs arbitrary: d frames') (auto split: option.splits prod.splits)

lemma slice_bytes_copy:
  assumes "in_frame d" and "expected_length d \<noteq> 0"
    and "length (buffer d) + length xs \<le> expected_length d"
  shows "slice_bytes d frames (xs @ ys) = slice_bytes (d\<lparr>buffer := buffer d @ xs\<rparr>) frames ys"
  using assms
proof (induction xs arbitrary: d)
  case Nil
  have "d\<lparr>buffer := buffer d\<rparr> = d" by simp
  then show ?case by simp
next
  case (Cons x xs)
  have "slice_byte d x = Some (d\<lparr>buffer := buffer d @ [x]\<rparr>, [])"
    using Cons.prems by (simp add: slice_byte_def)
  with Cons.prems Cons.IH [of "d\<lparr>buffer := buffer d @ [x]\<rparr>"] show ?case by simp
qed

lemma feed_slice_loop_bytes: "feed_slice_loop d frames data = slice_bytes d frames data"
proof (induction d frames data rule: feed_slice_loop.induct)
  case (1 d frames)
  show ?case by simp
next
  case (2 d frames b rest)
  show ?case
  proof (cases "in_frame d \<and> expected_length d \<noteq> 0 \<and> length (buffer d) \<le> expected_length d")
    case False
    then show ?thesis
      using "2.IH"(1-3) by (auto simp: feed_slice_loop.simps(2) slice_byte_def Let_def)
  next
    case True
    let ?k = "min (expected_length d - length (buffer d)) (length (b # rest))"
    let ?d1 = "d\<lparr>buffer := buffer d @ take ?k (b # rest)\<rparr>"
    have split: "slice_bytes d frames (b # rest) = slice_bytes ?d1 frames (drop ?k (b # rest))"
    proof -
      have "slice_bytes d frames (take ?k (b # rest) @ drop ?k (b # rest)) =
          slice_bytes ?d1 frames (drop ?k (b # rest))"
        using True by (intro slice_bytes_copy) auto
      then show ?thesis by (simp only: append_take_drop_id)
    qed
    show ?thesis
    proof (cases "length (buffer ?d1) < expected_length ?d1")
      case True
      then have "Suc (length rest) < expected_length d - length (buffer d)"
        and "Suc (length (buffer d) + length rest) < expected_length d"
        by (auto simp: min_def split: if_splits)
      then show ?thesis
        using \<open>in_frame d \<and> _\<close> split by (simp add: feed_slice_loop.simps(2) Let_def min_def)
    next
      case False
      then have full: "length (buffer ?d1) = expected_length ?d1" using True by auto
      show ?thesis
      proof (cases "drop ?k (b # rest)")
        case Nil
        then show ?thesis using split False True
          by (simp add: feed_slice_loop.simps(2) Let_def)
      next
        case (Cons e tail')
        then show ?thesis
          using split False True full "2.IH"(5-7) [OF _ _ _ refl refl refl refl refl _ Cons]
          by (auto simp: feed_slice_loop.simps(2) [of d] Let_def slice_byte_def split: sum.splits)
      qed
    qed
  qed
qed

lemma decoder_feed_slice_bytes: "decoder_feed_slice d data = slice_bytes d [] data"
  by (simp add: decoder_feed_slice_def feed_slice_loop_bytes)

lemma decoder_feed_slice_append:
  "decoder_feed_slice d (xs @ ys) =
     (case decoder_feed_slice d xs of None \<Rightarrow> None
      | Some (d', fs) \<Rightarrow> map_option (\<lambda>(d'', gs). (d'', fs @ gs)) (decoder_feed_slice d' ys))"
proof (cases "slice_bytes d [] xs")
  case (Some p)
  with slice_bytes_frames [of "fst p" "snd p" "[]" ys] show ?thesis
    by (cases p) (simp add: decoder_feed_slice_bytes slice_bytes_append)
qed (simp add: decoder_feed_slice_bytes slice_bytes_append)

section \<open>The decoder's invariant\<close>

definition decoder_inv :: "FrameDecoder \<Rightarrow> bool" where
  "decoder_inv d \<longleftrightarrow>
     (if in_frame d \<and> expected_length d \<noteq> 0
      then 4 \<le> expected_length d \<and> expected_length d \<le> 255 \<and> expected_length d \<le> max_buffer_size d \<and>
           buffer d \<noteq> [] \<and> length (buffer d) \<le> expected_length d \<and>
           unat (hd (buffer d)) = expected_length d \<and> expected_length d \<noteq> 126
      else buffer d = [] \<and> expected_length d = 0)"

lemma decoder_inv_new [simp, inv_rules]: "decoder_inv decoder_new"
  by (simp add: decoder_inv_def decoder_new_def)

lemma unat_u8_marker: "unat b = 126 \<longleftrightarrow> b = FRAME_MARKER"
  by (simp add: FRAME_MARKER_def word_unat_eq_iff)

lemma decoder_inv_resets [simp, inv_rules]:
  "decoder_inv (decoder_reset d)" "decoder_inv (decoder_reset_on_error d)"
  "decoder_inv (decoder_count_error d) = decoder_inv d"
  by (simp_all add: decoder_inv_def decoder_reset_on_error_def decoder_reset_def decoder_count_error_def)

lemma slice_byte_inv:
  "decoder_inv d \<Longrightarrow> \<exists>d' fs. slice_byte d b = Some (d', fs) \<and> decoder_inv d'"
proof (cases "in_frame d \<and> expected_length d \<noteq> 0")
  case False
  assume "decoder_inv d"
  with False unat_u8_le [of b] unat_u8_marker [of b] show ?thesis
    by (simp add: slice_byte_def decoder_inv_def decoder_reset_on_error_def Let_def)
next
  case True
  assume i: "decoder_inv d"
  with True have len: "length (buffer d) \<le> expected_length d" by (simp add: decoder_inv_def)
  show ?thesis
  proof (cases "length (buffer d) < expected_length d")
    case less: True
    with True i show ?thesis by (simp add: slice_byte_def decoder_inv_def)
  next
    case False
    with True len show ?thesis by (auto simp: slice_byte_def split: sum.splits)
  qed
qed

lemma slice_bytes_inv:
  "decoder_inv d \<Longrightarrow> \<exists>d' fs'. slice_bytes d fs bs = Some (d', fs') \<and> decoder_inv d'"
proof (induction bs arbitrary: d fs)
  case (Cons b bs)
  obtain d' gs where "slice_byte d b = Some (d', gs)" and "decoder_inv d'"
    using slice_byte_inv [OF Cons.prems] by blast
  with Cons.IH [of d' "fs @ gs"] show ?case by simp
qed simp

lemma slice_bytes_max:
  "slice_bytes d fs bs = Some (d', fs') \<Longrightarrow> max_buffer_size d' = max_buffer_size d"
proof (induction bs arbitrary: d fs)
  case (Cons b bs)
  obtain d1 gs where s: "slice_byte d b = Some (d1, gs)" using Cons.prems by (auto split: option.splits)
  then have "max_buffer_size d1 = max_buffer_size d"
    by (auto simp: slice_byte_def decoder_reset_def decoder_reset_on_error_def decoder_count_error_def
        Let_def split: if_splits sum.splits)
  with Cons.IH [of d1 "fs @ gs"] Cons.prems s show ?case by simp
qed simp

lemma decoder_inv_buffer:
  "decoder_inv d \<Longrightarrow> length (buffer d) \<le> max_buffer_size d \<and> length (buffer d) \<le> 255"
  by (auto simp: decoder_inv_def split: if_splits)

text \<open>A decoder between two frames that can hold the longest frame.\<close>

definition decoder_ready :: "FrameDecoder \<Rightarrow> bool" where
  "decoder_ready d \<longleftrightarrow> \<not> in_frame d \<and> buffer d = [] \<and> expected_length d = 0 \<and> 255 \<le> max_buffer_size d"

lemma decoder_ready_new [simp]: "decoder_ready decoder_new"
  by (simp add: decoder_ready_def decoder_new_def)

lemma decoder_ready_inv: "decoder_ready d \<Longrightarrow> decoder_inv d"
  by (simp add: decoder_ready_def decoder_inv_def)

text \<open>The bytes of a frame as the encoder writes them (no bytes where it refuses).\<close>

definition wire_bytes :: "frame \<Rightarrow> u8 list" where
  "wire_bytes f = (case frame_encode f of Inl _ \<Rightarrow> [] | Inr bs \<Rightarrow> bs)"

lemma wire_bytes_encodable:
  "encodable f \<Longrightarrow> wire_bytes f = FRAME_MARKER # wire_body f @ [FRAME_MARKER]"
  by (simp add: wire_bytes_def frame_encode_Inr)

text \<open>
  The length byte of a frame with a 122-byte payload is 0x7E, the marker: the decoder reads it as
  a restart. Every other encodable frame is delimited.
\<close>

definition delimited :: "frame \<Rightarrow> bool" where
  "delimited f \<longleftrightarrow> encodable f \<and> length (payload f) \<noteq> 122"

lemma wire_length_byte:
  assumes "delimited f"
  shows "\<exists>l ls. wire_body f = l # ls \<and> unat l = 4 + length (payload f) \<and> l \<noteq> FRAME_MARKER \<and>
    length ls = 3 + length (payload f)"
proof -
  have e: "encodable f" using assms by (simp add: delimited_def)
  obtain l ls where w: "wire_body f = l # ls" by (metis list.exhaust wire_body_not_Nil)
  moreover have "unat l = 4 + length (payload f)" using hd_wire_body [OF e] w by simp
  moreover from this have "l \<noteq> FRAME_MARKER" using assms by (auto simp: FRAME_MARKER_def delimited_def)
  moreover have "length ls = 3 + length (payload f)" using length_wire_body [of f] w by simp
  ultimately show ?thesis by blast
qed

lemma slice_byte_delimited:
  assumes "decoder_inv d" and "slice_byte d b = Some (d', fs)"
  shows "list_all delimited fs"
proof (cases fs)
  case (Cons f gs)
  with assms have p: "frame_parse (buffer d) = Inr f" and gs: "gs = []"
    and i: "buffer d \<noteq> []" "unat (hd (buffer d)) = expected_length d" "expected_length d \<noteq> 126"
    by (auto simp: slice_byte_def decoder_inv_def Let_def split: if_splits sum.splits)
  from frame_parse_Inr [OF p] have e: "encodable f"
    and b: "buffer d = wire_body f @ drop (unat (buffer d ! 0)) (buffer d)" by auto
  then have "hd (buffer d) = wire_body f ! 0" by (metis hd_append2 hd_conv_nth wire_body_not_Nil)
  with e i hd_wire_body [OF e] gs Cons show ?thesis by (simp add: delimited_def)
qed simp

lemma slice_bytes_delimited:
  "decoder_inv d \<Longrightarrow> slice_bytes d fs bs = Some (d', fs') \<Longrightarrow> list_all delimited fs \<Longrightarrow>
     list_all delimited fs'"
proof (induction bs arbitrary: d fs)
  case (Cons b bs)
  obtain d1 gs where s: "slice_byte d b = Some (d1, gs)" "decoder_inv d1"
    using slice_byte_inv [OF Cons.prems(1)] by blast
  with Cons.IH [of d1 "fs @ gs"] Cons.prems slice_byte_delimited [OF Cons.prems(1) s(1)]
  show ?case by simp
qed simp

text \<open>A body of the declared length between two markers is parsed, and the decoder is ready again.\<close>

lemma slice_bytes_body:
  assumes "decoder_ready d" and "unat l = Suc (length ls)" and "l \<noteq> FRAME_MARKER" and "3 \<le> length ls"
  shows "decoder_feed_slice d (FRAME_MARKER # (l # ls) @ [FRAME_MARKER]) =
    Some (case frame_parse (l # ls) of Inr f \<Rightarrow> (d, [f]) | Inl _ \<Rightarrow> (decoder_count_error d, []))"
proof -
  define d1 where "d1 = d\<lparr>in_frame := True, buffer := [l], expected_length := unat l\<rparr>"
  have "unat l \<le> max_buffer_size d" "4 \<le> unat l"
    using unat_u8_le [of l] assms by (simp_all add: decoder_ready_def)
  then have start: "slice_bytes d [] (FRAME_MARKER # l # ys) = slice_bytes d1 [] ys" for ys
    using assms(1,3) by (simp add: slice_byte_def decoder_ready_def d1_def)
  have body: "slice_bytes d1 [] (ls @ [FRAME_MARKER]) =
      slice_bytes (d1\<lparr>buffer := l # ls\<rparr>) [] [FRAME_MARKER]"
    using slice_bytes_copy [of d1 ls "[]" "[FRAME_MARKER]"] assms(2,4) by (simp add: d1_def)
  have "decoder_reset (d1\<lparr>buffer := l # ls\<rparr>) = d"
    using assms(1) by (cases d) (simp add: decoder_reset_def d1_def decoder_ready_def)
  then have "slice_bytes (d1\<lparr>buffer := l # ls\<rparr>) [] [FRAME_MARKER] =
      Some (case frame_parse (l # ls) of Inr f \<Rightarrow> (d, [f]) | Inl _ \<Rightarrow> (decoder_count_error d, []))"
    using assms(2) by (simp add: slice_byte_def d1_def split: sum.splits)
  then show ?thesis using start [of "ls @ [FRAME_MARKER]"] body by (simp add: decoder_feed_slice_bytes)
qed

lemma slice_bytes_wire:
  assumes "decoder_ready d" and "delimited f"
  shows "decoder_feed_slice d (wire_bytes f) = Some (d, [f])"
proof -
  have e: "encodable f" using assms(2) by (simp add: delimited_def)
  obtain l ls where w: "wire_body f = l # ls" and l: "unat l = 4 + length (payload f)"
    and lm: "l \<noteq> FRAME_MARKER" and len: "length ls = 3 + length (payload f)"
    using wire_length_byte [OF assms(2)] by blast
  have "frame_parse (wire_body f) = Inr f" using frame_parse_wire_body [OF e, of "[]"] by simp
  with slice_bytes_body [OF assms(1) _ lm, of ls] l len w show ?thesis
    by (simp add: wire_bytes_encodable [OF e])
qed

lemma slice_bytes_noise:
  "decoder_ready d \<Longrightarrow> (\<And>b. b \<in> set bs \<Longrightarrow> b \<noteq> FRAME_MARKER) \<Longrightarrow> decoder_feed_slice d bs = Some (d, [])"
  by (induction bs) (auto simp: decoder_feed_slice_bytes slice_byte_def decoder_ready_def)

interpretation slice: framed_decoder decoder_feed_slice decoder_inv wire_bytes decoder_ready
  delimited "\<lambda>b. b \<noteq> FRAME_MARKER"
proof unfold_locales
  show "decoder_feed_slice d [] = Some (d, [])" for d
    by (simp add: decoder_feed_slice_bytes)
  show "\<exists>d' fs. decoder_feed_slice d xs = Some (d', fs) \<and> decoder_inv d'"
    if "decoder_inv d" for d xs
    using slice_bytes_inv [OF that, of "[]"] by (simp add: decoder_feed_slice_bytes)
  show "decoder_feed_slice d (xs @ ys) = Some (d'', fs @ gs)"
    if "decoder_feed_slice d xs = Some (d', fs)" and "decoder_feed_slice d' ys = Some (d'', gs)"
    for d xs d' fs ys d'' gs
    using that by (simp add: decoder_feed_slice_append)
qed (auto intro: decoder_ready_inv slice_bytes_wire slice_bytes_noise)

section \<open>The byte-wise entry point\<close>

definition decoder_feed_step :: "FrameDecoder \<Rightarrow> u8 \<Rightarrow> FrameDecoder \<times> frame list" where
  "decoder_feed_step d b =
     (case decoder_feed d b of (d', None) \<Rightarrow> (d', []) | (d', Some f) \<Rightarrow> (d', [f]))"

text \<open>The only input on which the two entry points differ: a full body not followed by a marker.\<close>

definition overrun :: "FrameDecoder \<Rightarrow> u8 \<Rightarrow> bool" where
  "overrun d b \<longleftrightarrow> in_frame d \<and> expected_length d \<noteq> 0 \<and> length (buffer d) = expected_length d \<and>
     b \<noteq> FRAME_MARKER"

lemma decoder_feed_slice_byte:
  assumes "decoder_inv d" and "\<not> overrun d b"
  shows "slice_byte d b = Some (decoder_feed_step d b)"
proof (cases "in_frame d \<and> expected_length d \<noteq> 0")
  case True
  with assms(1) have "length (buffer d) \<le> expected_length d" "buffer d \<noteq> []"
    by (simp_all add: decoder_inv_def)
  with True assms(2) show ?thesis
    by (cases "b = FRAME_MARKER")
      (auto simp: slice_byte_def decoder_feed_step_def decoder_feed_def overrun_def Let_def
        split: sum.splits)
next
  case False
  then have "buffer d = []" "expected_length d = 0" using assms(1) by (auto simp: decoder_inv_def)
  then show ?thesis
    by (cases d) (auto simp: slice_byte_def decoder_feed_step_def decoder_feed_def Let_def)
qed

lemma feed_step_copy:
  assumes "in_frame d" and "expected_length d \<noteq> 0" and "buffer d \<noteq> []"
    and "length (buffer d) + length xs \<le> expected_length d"
  shows "run_machine decoder_feed_step d xs = (d\<lparr>buffer := buffer d @ xs\<rparr>, [])"
  using assms
proof (induction xs arbitrary: d)
  case (Cons x xs)
  have "decoder_feed_step d x = (d\<lparr>buffer := buffer d @ [x]\<rparr>, [])"
    using Cons.prems by (auto simp: decoder_feed_step_def decoder_feed_def Let_def)
  with Cons.prems Cons.IH [of "d\<lparr>buffer := buffer d @ [x]\<rparr>"] show ?case by simp
qed simp

lemma feed_step_noise:
  assumes "in_frame d" and "buffer d \<noteq> []" and "\<And>b. b \<in> set xs \<Longrightarrow> b \<noteq> FRAME_MARKER"
  shows "run_machine decoder_feed_step d xs = (d\<lparr>buffer := buffer d @ xs\<rparr>, [])"
  using assms
proof (induction xs arbitrary: d)
  case (Cons x xs)
  have "decoder_feed_step d x = (d\<lparr>buffer := buffer d @ [x]\<rparr>, [])"
    using Cons.prems by (auto simp: decoder_feed_step_def decoder_feed_def Let_def)
  with Cons.prems Cons.IH [of "d\<lparr>buffer := buffer d @ [x]\<rparr>"] show ?case by simp
qed simp

lemma feed_step_wire:
  assumes "decoder_ready d" and "delimited f"
  shows "run_machine decoder_feed_step d (wire_bytes f) = (d, [f])"
proof -
  have e: "encodable f" using assms(2) by (simp add: delimited_def)
  obtain l ls where w: "wire_body f = l # ls" and l: "unat l = 4 + length (payload f)"
    and lm: "l \<noteq> FRAME_MARKER" and len: "length ls = 3 + length (payload f)"
    using wire_length_byte [OF assms(2)] by blast
  define d1 where "d1 = d\<lparr>in_frame := True, buffer := [l], expected_length := unat l\<rparr>"
  have "unat l \<le> max_buffer_size d" "4 \<le> unat l"
    using unat_u8_le [of l] assms(1) l by (simp_all add: decoder_ready_def)
  then have start: "run_machine decoder_feed_step d (FRAME_MARKER # l # ys) =
      run_machine decoder_feed_step d1 ys" for ys
    using assms(1) lm
    by (simp add: decoder_feed_step_def decoder_feed_def decoder_ready_def d1_def Let_def
        split: prod.splits)
  have body: "run_machine decoder_feed_step d1 ls = (d1\<lparr>buffer := wire_body f\<rparr>, [])"
    using feed_step_copy [of d1 ls] len l w by (simp add: d1_def)
  have parse: "frame_parse (wire_body f) = Inr f"
    using frame_parse_wire_body [OF e, of "[]"] by simp
  have last: "decoder_feed_step (d1\<lparr>buffer := wire_body f\<rparr>) FRAME_MARKER =
      (decoder_reset (d1\<lparr>buffer := wire_body f\<rparr>), [f])"
    using l w len parse by (simp add: decoder_feed_step_def decoder_feed_def d1_def)
  have "decoder_reset (d1\<lparr>buffer := wire_body f\<rparr>) = d"
    using assms(1) by (cases d) (simp add: decoder_reset_def d1_def decoder_ready_def)
  then show ?thesis
    using start [of "ls @ [FRAME_MARKER]"] body last
    by (simp add: wire_bytes_encodable [OF e] w run_machine_append)
qed

interpretation bytewise: framed_decoder "\<lambda>d bs. Some (run_machine decoder_feed_step d bs)"
  "\<lambda>_. True" wire_bytes decoder_ready delimited "\<lambda>b. b \<noteq> FRAME_MARKER"
proof unfold_locales
  show "Some (run_machine decoder_feed_step d bs) = Some (d, [])"
    if "decoder_ready d" and "\<And>b. b \<in> set bs \<Longrightarrow> b \<noteq> FRAME_MARKER" for d bs
    using that by (induction bs) (auto simp: decoder_feed_step_def decoder_feed_def decoder_ready_def)
qed (auto simp: run_machine_append feed_step_wire)

section \<open>Recovery\<close>

text \<open>How many marker-free bytes bring the decoder back between frames.\<close>

definition recovery_bytes :: "FrameDecoder \<Rightarrow> nat" where
  "recovery_bytes d =
     (if \<not> in_frame d then 0
      else if expected_length d = 0 then 256
      else expected_length d - length (buffer d) + 1)"

lemma slice_byte_recovery:
  assumes "decoder_inv d" and "b \<noteq> FRAME_MARKER"
  shows "\<exists>d'. slice_byte d b = Some (d', []) \<and> decoder_inv d' \<and>
    max_buffer_size d' = max_buffer_size d \<and> recovery_bytes d' \<le> recovery_bytes d - 1"
proof (cases "in_frame d \<and> expected_length d \<noteq> 0")
  case True
  with assms have "length (buffer d) \<le> expected_length d" by (simp add: decoder_inv_def)
  with True assms show ?thesis
    by (cases "length (buffer d) < expected_length d")
      (auto simp: slice_byte_def recovery_bytes_def decoder_reset_on_error_def decoder_inv_def)
next
  case False
  with assms unat_u8_le [of b] unat_u8_marker [of b] show ?thesis
    by (auto simp: slice_byte_def recovery_bytes_def decoder_reset_on_error_def decoder_inv_def Let_def)
qed

lemma slice_bytes_recovery:
  assumes "decoder_inv d" and "\<And>b. b \<in> set bs \<Longrightarrow> b \<noteq> FRAME_MARKER"
    and "recovery_bytes d \<le> length bs"
  shows "\<exists>d'. decoder_feed_slice d bs = Some (d', []) \<and> decoder_inv d' \<and> \<not> in_frame d' \<and>
    max_buffer_size d' = max_buffer_size d"
  using assms
proof (induction bs arbitrary: d)
  case Nil
  then show ?case by (auto simp: decoder_feed_slice_bytes recovery_bytes_def split: if_splits)
next
  case (Cons b bs)
  obtain d' where d': "slice_byte d b = Some (d', [])" "decoder_inv d'"
      "max_buffer_size d' = max_buffer_size d" "recovery_bytes d' \<le> recovery_bytes d - 1"
    using slice_byte_recovery [of d b] Cons.prems by auto
  moreover have "recovery_bytes d' \<le> length bs" using d' Cons.prems(3) by simp
  ultimately show ?case using Cons.IH [of d'] Cons.prems(2)
    by (auto simp: decoder_feed_slice_bytes)
qed

lemma recovery_bytes_le: "decoder_inv d \<Longrightarrow> recovery_bytes d \<le> 256"
  by (auto simp: recovery_bytes_def decoder_inv_def split: if_splits)

text \<open>Frames one after the other.\<close>

lemma slice_frames:
  assumes "decoder_ready d" and "list_all delimited fs"
  shows "decoder_feed_slice d (concat (map wire_bytes fs)) = Some (d, fs)"
proof -
  have "delimited g \<and> (\<forall>b \<in> set bs. b \<noteq> FRAME_MARKER)" if "(bs, g) \<in> set (map (Pair []) fs)" for bs g
    using that assms(2) by (auto simp: list_all_iff)
  from slice.feed_frames [OF assms(1), of "map (Pair []) fs", OF this] show ?thesis by (simp add: comp_def)
qed

section \<open>Corrupted frames\<close>

text \<open>
  Corrupting any single byte of an encoded frame's body other than the length byte (type, payload or
  CRC) makes \<open>Frame::parse\<close> return a CRC mismatch.
\<close>

lemma frame_single_byte_corruption:
  assumes "frame_encode f = Inr (FRAME_MARKER # body @ [FRAME_MARKER])"
    and "0 < i" and "i < length body" and "b \<noteq> body ! i"
  shows "\<exists>e g. frame_parse (body[i := b]) = Inl (FrameCrcMismatch e g)"
proof -
  have enc: "encodable f" using assms(1) by (cases "encodable f") (simp_all add: frame_encode_Inl)
  then have body: "body = wire_body f" using assms(1) by (simp add: frame_encode_Inr)
  define n where "n = 3 + length (payload f)"
  define xs where "xs = (word_of_nat (4 + length (payload f)) :: u8) # fst (message_type f)
     # snd (message_type f) # payload f"
  have split: "body = xs @ [crc8_compute xs]" by (simp add: body xs_def wire_body_def Let_def)
  have nx: "length xs = n" by (simp add: n_def xs_def)
  with split have len: "length body = Suc n" by simp
  have first: "unat (body[i := b] ! 0) = Suc n" using hd_wire_body [OF enc] assms(2) by (simp add: n_def body)
  have "crc8_compute (take n (body[i := b])) \<noteq> body[i := b] ! n"
  proof (cases "i = n")
    case True
    then show ?thesis using assms(4) nx by (auto simp: split nth_append list_update_append)
  next
    case False
    then have "i < n" using assms(3) len by simp
    then have "crc8_compute (xs[i := b]) \<noteq> crc8_compute xs"
      using crc.detects_update [of i xs b] assms(4) nx by (simp add: split nth_append)
    with \<open>i < n\<close> nx show ?thesis by (simp add: split nth_append list_update_append)
  qed
  with first len show ?thesis by (simp add: frame_parse_def Let_def n_def)
qed

section \<open>Properties\<close>

text \<open>
  \<open>Frame::parse\<close> accepts a byte sequence, with a frame as its result, exactly when the
  sequence starts with the body that \<open>Frame::encode\<close> writes for that frame between its markers.
\<close>

theorem frame_parse_exact:
  "frame_parse data = Inr f \<longleftrightarrow>
     (\<exists>body rest. frame_encode f = Inr (FRAME_MARKER # body @ [FRAME_MARKER]) \<and> data = body @ rest)"
proof
  assume "frame_parse data = Inr f"
  from frame_parse_Inr [OF this] show
    "\<exists>body rest. frame_encode f = Inr (FRAME_MARKER # body @ [FRAME_MARKER]) \<and> data = body @ rest"
    using frame_encode_Inr by blast
next
  assume "\<exists>body rest. frame_encode f = Inr (FRAME_MARKER # body @ [FRAME_MARKER]) \<and> data = body @ rest"
  then obtain body rest where e: "frame_encode f = Inr (FRAME_MARKER # body @ [FRAME_MARKER])"
    and d: "data = body @ rest" by blast
  from e have "encodable f" by (cases "encodable f") (simp_all add: frame_encode_Inl)
  with e have "body = wire_body f" by (simp add: frame_encode_Inr)
  with d frame_parse_wire_body [OF \<open>encodable f\<close>] show "frame_parse data = Inr f" by simp
qed

lemma crc8_example: "crc8_compute [5, 0x0A, 0xBF, 0x04] = 0x77"
  by (simp add: crc8_compute_def crc8_byte_unroll crc8_round_def)

lemma frame_encode_example:
  "frame_encode \<lparr>message_type = (0x0A, 0xBF), payload = [0x04]\<rparr> =
     Inr (FRAME_MARKER # [5, 0x0A, 0xBF, 0x04, 0x77] @ [FRAME_MARKER])"
  using crc8_example by (simp add: frame_encode_def)





text \<open>
  However a byte stream is cut into the slices given to \<open>feed_slice\<close>, the decoder
  ends in the same state and returns the same frames.
\<close>

theorem decoder_chunking:
  assumes "decoder_inv d"
  shows "decoder_feed_slice d (concat xss) =
    Some (run_machine (\<lambda>d xs. the (decoder_feed_slice d xs)) d xss)"
  using slice.feed_chunks [OF assms] by simp

theorem decoder_chunking_witness:
  "decoder_feed_slice decoder_new (concat [[0x7E, 5], [0x0A], [0xBF, 4]]) =
    Some (run_machine (\<lambda>d xs. the (decoder_feed_slice d xs)) decoder_new [[0x7E, 5], [0x0A], [0xBF, 4]])"
  by (rule decoder_chunking) simp

text \<open>
  From a new decoder with any buffer limit, \<open>feed_slice\<close> always returns (its index
  subtraction never underflows), its buffer stays within the limit and within 255 bytes, and every
  frame it returns is one the encoder accepts.
\<close>

theorem decoder_feed_slice_safe:
  "\<exists>d' fs. decoder_feed_slice (decoder_with_max_buffer decoder_new sz) bs = Some (d', fs) \<and>
     length (buffer d') \<le> sz \<and> length (buffer d') \<le> 255 \<and>
     list_all (\<lambda>f. length (payload f) \<le> 251) fs"
proof -
  let ?d = "decoder_with_max_buffer decoder_new sz"
  have i: "decoder_inv ?d"
    by (simp add: decoder_inv_def decoder_new_def decoder_with_max_buffer_def)
  obtain d' fs where f: "decoder_feed_slice ?d bs = Some (d', fs)" "decoder_inv d'"
    using slice.feed_total [OF i] by blast
  moreover have "max_buffer_size d' = sz"
    using slice_bytes_max [of ?d "[]" bs d' fs] f
    by (simp add: decoder_feed_slice_bytes decoder_with_max_buffer_def)
  moreover have "list_all delimited fs"
    using slice_bytes_delimited [OF i, of "[]" bs d' fs] f by (simp add: decoder_feed_slice_bytes)
  ultimately show ?thesis
    using decoder_inv_buffer [of d'] by (auto simp: list_all_iff delimited_def encodable_def)
qed

text \<open>
  Property C34: one byte given to \<open>feed\<close> and to \<open>feed_slice\<close> has the same effect, but for the
  overrun: a full body followed by something other than the marker. There \<open>feed_slice\<close> drops the
  frame and counts an error, and \<open>feed\<close> appends the byte to the buffer.
\<close>

theorem decoder_entry_points_agree:
  assumes "decoder_inv d"
  shows "decoder_feed_slice d [b] =
      Some (if overrun d b then (decoder_reset_on_error d, []) else decoder_feed_step d b) \<and>
    (overrun d b \<longrightarrow> decoder_feed_step d b = (d\<lparr>buffer := buffer d @ [b]\<rparr>, []))"
proof (intro conjI impI)
  have "slice_byte d b = Some (decoder_reset_on_error d, [])" if "overrun d b"
    using that by (simp add: slice_byte_def overrun_def)
  then show "decoder_feed_slice d [b] =
      Some (if overrun d b then (decoder_reset_on_error d, []) else decoder_feed_step d b)"
    using decoder_feed_slice_byte [OF assms, of b]
    by (auto simp: decoder_feed_slice_bytes split: prod.splits)
next
  assume o: "overrun d b"
  then have "buffer d \<noteq> []" by (auto simp: overrun_def)
  with o show "decoder_feed_step d b = (d\<lparr>buffer := buffer d @ [b]\<rparr>, [])"
    by (auto simp: overrun_def decoder_feed_step_def decoder_feed_def Let_def)
qed

theorem decoder_entry_points_agree_witness:
  "decoder_feed_slice decoder_new [0x7E] = Some (decoder_feed_step decoder_new 0x7E)"
  using decoder_entry_points_agree [OF decoder_inv_new, of "0x7E"]
  by (simp add: overrun_def FRAME_MARKER_def)

text \<open>
  The byte-wise \<open>feed\<close> does not enforce its buffer limit. After a start marker and
  the length byte 4, every further byte that is no marker is appended, so the buffer of a decoder
  with limit 512 grows without bound.
\<close>

theorem decoder_feed_unbounded:
  "length (buffer (fst (run_machine decoder_feed_step decoder_new
     (FRAME_MARKER # 4 # replicate n 0)))) = n + 1"
proof -
  let ?d = "decoder_new\<lparr>in_frame := True, buffer := [4], expected_length := 4\<rparr>"
  have "run_machine decoder_feed_step decoder_new (FRAME_MARKER # 4 # replicate n 0) =
      run_machine decoder_feed_step ?d (replicate n 0)"
    by (simp add: decoder_feed_step_def decoder_feed_def decoder_new_def FRAME_MARKER_def
        split: prod.splits)
  also have "\<dots> = (?d\<lparr>buffer := [4] @ replicate n 0\<rparr>, [])"
    using feed_step_noise [of ?d "replicate n 0"] by (simp add: FRAME_MARKER_def)
  finally show ?thesis by simp
qed

text \<open>
  The encoder accepts a frame with a 122-byte payload (its length byte is 0x7E, the
  marker), but no byte stream whatever makes the decoder return such a frame.
\<close>

theorem payload_122_never_decoded:
  assumes "length (payload f) = 122"
  shows "(\<exists>bs. frame_encode f = Inr bs) \<and>
    \<not> (\<exists>bs d' fs. decoder_feed_slice decoder_new bs = Some (d', fs) \<and> f \<in> set fs)"
proof -
  have "encodable f" using assms by (simp add: encodable_def)
  moreover have "\<not> (decoder_feed_slice decoder_new bs = Some (d', fs) \<and> f \<in> set fs)" for bs d' fs
    using slice_bytes_delimited [of decoder_new "[]" bs d' fs] assms
    by (auto simp: decoder_feed_slice_bytes list_all_iff delimited_def)
  ultimately show ?thesis by (auto simp: frame_encode_Inr)
qed

theorem payload_122_never_decoded_witness:
  "\<not> (\<exists>bs d' fs. decoder_feed_slice decoder_new bs = Some (d', fs) \<and>
       \<lparr>message_type = (0x0A, 0xBF), payload = replicate 122 0\<rparr> \<in> set fs)"
  using payload_122_never_decoded [of "\<lparr>message_type = (0x0A, 0xBF), payload = replicate 122 0\<rparr>"]
  by simp

text \<open>
  Property C28: whatever state corrupted input has left the bulk decoder in, 256 bytes without a
  marker bring it back between frames, and the frames that follow are then all decoded.
\<close>

theorem decoder_recovers:
  assumes "decoder_inv d" and "255 \<le> max_buffer_size d"
    and "\<And>b. b \<in> set bs \<Longrightarrow> b \<noteq> FRAME_MARKER" and "256 \<le> length bs"
    and "\<And>f. f \<in> set fs \<Longrightarrow> delimited f"
  shows "\<exists>d'. decoder_feed_slice d (bs @ concat (map wire_bytes fs)) = Some (d', fs)"
proof -
  obtain d' where d': "decoder_feed_slice d bs = Some (d', [])" "decoder_inv d'" "\<not> in_frame d'"
      "max_buffer_size d' = max_buffer_size d"
    using slice_bytes_recovery [OF assms(1,3)] recovery_bytes_le [OF assms(1)] assms(4) by fastforce
  then have "decoder_ready d'" using assms(2) by (simp add: decoder_ready_def decoder_inv_def)
  then have "decoder_feed_slice d' (concat (map wire_bytes fs)) = Some (d', fs)"
    using slice.feed_frames [of d' "map (Pair []) fs"] assms(5) by (force simp: comp_def)
  with slice.feed_append [OF assms(1) d'(1)] show ?thesis by fastforce
qed

theorem decoder_recovers_witness:
  "\<exists>d'. decoder_feed_slice (decoder_new\<lparr>in_frame := True\<rparr>) (replicate 256 0x55 @
     concat (map wire_bytes [\<lparr>message_type = (0x10, 0xBF), payload = [0x06]\<rparr>])) =
   Some (d', [\<lparr>message_type = (0x10, 0xBF), payload = [0x06]\<rparr>])"
  by (rule decoder_recovers)
    (auto simp: decoder_inv_def decoder_new_def FRAME_MARKER_def delimited_def encodable_def)

end
