(* ===== verification/Registration.thy ===== *)
theory Registration
  imports Interfaces Frame
begin

text \<open>
  The client registration protocol of \<open>crates/launa-protocol/src/registration.rs\<close>: channel
  numbers, the registration messages with their parser and encoder, and the state machine that a
  client runs. \<open>registration_process\<close> is \<open>RegistrationStateMachine::process\<close>; it returns the new
  machine and the action for the caller.
\<close>

section \<open>Channels\<close>

datatype Channel =
    WifiModule
  | Client u8
  | ClientNoCTS u8
  | MulticastChannelAssignment
  | MulticastBroadcast
  | Channel_Unknown u8

definition in_cts_range :: "u8 \<Rightarrow> bool" where
  "in_cts_range v \<longleftrightarrow> 0x10 \<le> v \<and> v \<le> 0x2F"

definition in_no_cts_range :: "u8 \<Rightarrow> bool" where
  "in_no_cts_range v \<longleftrightarrow> 0x30 \<le> v \<and> v \<le> 0x3F"

fun has_cts :: "Channel \<Rightarrow> bool" where
  "has_cts (Client _) = True"
| "has_cts _ = False"

fun is_client :: "Channel \<Rightarrow> bool" where
  "is_client (Client _) = True"
| "is_client (ClientNoCTS _) = True"
| "is_client _ = False"

definition new_client_channel :: "nat \<Rightarrow> Channel option" where
  "new_client_channel index =
     (let i = word_of_nat index :: u8 in
      if unat (0x10 :: u8) + unat i > 255 then None
      else let raw = 0x10 + i in if in_cts_range raw then Some (Client raw) else None)"

definition channel_from_u8 :: "u8 \<Rightarrow> Channel" where
  "channel_from_u8 v =
     (if v = 0x0A then WifiModule
      else if v = 0xFE then MulticastChannelAssignment
      else if v = 0xFF then MulticastBroadcast
      else if in_cts_range v then Client v
      else if in_no_cts_range v then ClientNoCTS v
      else Channel_Unknown v)"

fun channel_to_u8 :: "Channel \<Rightarrow> u8" where
  "channel_to_u8 WifiModule = 0x0A"
| "channel_to_u8 (Client v) = v"
| "channel_to_u8 (ClientNoCTS v) = v"
| "channel_to_u8 MulticastChannelAssignment = 0xFE"
| "channel_to_u8 MulticastBroadcast = 0xFF"
| "channel_to_u8 (Channel_Unknown v) = v"

section \<open>Messages\<close>

type_synonym hash = "u8 \<times> u8"

datatype RegistrationMessage =
    NewClientQuery
  | NewClientResponse (device_type: u8) (resp_hash: hash)
  | ClientIdAssignment (asg_channel: u8) (asg_hash: hash)
  | ClientIdAck (ack_channel: u8)
  | ExistingClientRequest (req_channel: "u8 option") (req_hash: "hash option")
  | ExistingClientResponse (ex_channel: u8) (ex_hash: hash)
  | ClearToSend (cts_channel: u8)

datatype RegistrationParseError = TruncatedPayload | NotRegistrationFrame | UnknownSubType u8

definition registration_parse ::
  "u8 \<times> u8 \<Rightarrow> u8 list \<Rightarrow> RegistrationParseError + RegistrationMessage" where
  "registration_parse msg_type p =
     (if msg_type = (0xFE, 0xBF) then
        if p = [] then Inl TruncatedPayload
        else if p ! 0 = 0x00 then Inr NewClientQuery
        else if p ! 0 = 0x01 then
          if length p < 4 then Inl TruncatedPayload
          else Inr (NewClientResponse (p ! 1) (p ! 2, p ! 3))
        else if p ! 0 = 0x02 then
          if length p < 4 then
            if length p < 2 then Inl TruncatedPayload
            else Inr (ClientIdAssignment (p ! 1) (0x00, 0x00))
          else Inr (ClientIdAssignment (p ! 1) (p ! 2, p ! 3))
        else if p ! 0 = 0x04 then
          if length p \<ge> 4 then Inr (ExistingClientRequest (Some (p ! 1)) (Some (p ! 2, p ! 3)))
          else Inr (ExistingClientRequest None None)
        else Inl (UnknownSubType (p ! 0))
      else if snd msg_type = 0xBF \<and> fst msg_type \<noteq> 0xFE \<and> fst msg_type \<noteq> 0xFF \<and> fst msg_type \<noteq> 0x0A then
        if p = [] then Inl TruncatedPayload
        else if p ! 0 = 0x03 then Inr (ClientIdAck (fst msg_type))
        else if p ! 0 = 0x05 then
          if length p < 5 \<or> p ! 1 \<noteq> 0x04 then Inl TruncatedPayload
          else Inr (ExistingClientResponse (p ! 2) (p ! 3, p ! 4))
        else if p ! 0 = 0x06 then Inr (ClearToSend (fst msg_type))
        else Inl NotRegistrationFrame
      else Inl NotRegistrationFrame)"

fun encode_parts :: "RegistrationMessage \<Rightarrow> FrameError + (u8 \<times> u8) \<times> u8 list" where
  "encode_parts NewClientQuery = Inr ((0xFE, 0xBF), [0x00])"
| "encode_parts (NewClientResponse dt h) = Inr ((0xFE, 0xBF), [0x01, dt, fst h, snd h])"
| "encode_parts (ClientIdAssignment ch h) = Inr ((0xFE, 0xBF), [0x02, ch, fst h, snd h])"
| "encode_parts (ClientIdAck ch) = Inr ((ch, 0xBF), [0x03])"
| "encode_parts (ExistingClientRequest ch h) =
     Inr ((0xFE, 0xBF),
       0x04 # (case ch of None \<Rightarrow> []
               | Some c \<Rightarrow> c # (case h of None \<Rightarrow> [] | Some hs \<Rightarrow> [fst hs, snd hs])))"
| "encode_parts (ExistingClientResponse ch h) = Inr ((ch, 0xBF), [0x05, 0x04, ch, fst h, snd h])"
| "encode_parts (ClearToSend ch) = Inr ((ch, 0xBF), [0x06])"

definition registration_encode :: "RegistrationMessage \<Rightarrow> FrameError + u8 list" where
  "registration_encode m =
     (case encode_parts m of Inl e \<Rightarrow> Inl e | Inr (mt, p) \<Rightarrow> FrameEncoder_encode mt p)"

section \<open>The state machine\<close>

datatype RegistrationState =
    WaitingForQuery
  | WaitingForAssignment
  | WaitingForExistingResponse
  | Registered (reg_client_id: u8)

datatype RegistrationAction =
    SendNewClientResponse
  | SendClientIdAck u8
  | SendExistingClientRequest RegistrationMessage
  | RegAction_None

record RegistrationStateMachine =
  reg_state :: RegistrationState
  reg_hash :: hash
  previous_channel :: "u8 option"

definition registration_new :: "hash \<Rightarrow> RegistrationStateMachine" where
  "registration_new h = \<lparr>reg_state = WaitingForQuery, reg_hash = h, previous_channel = None\<rparr>"

definition with_previous_channel :: "hash \<Rightarrow> u8 \<Rightarrow> RegistrationStateMachine" where
  "with_previous_channel h ch =
     \<lparr>reg_state = WaitingForQuery, reg_hash = h, previous_channel = Some ch\<rparr>"

definition is_registered :: "RegistrationStateMachine \<Rightarrow> bool" where
  "is_registered m = (case reg_state m of Registered _ \<Rightarrow> True | _ \<Rightarrow> False)"

definition registration_client_id :: "RegistrationStateMachine \<Rightarrow> u8 option" where
  "registration_client_id m = (case reg_state m of Registered c \<Rightarrow> Some c | _ \<Rightarrow> None)"

definition registration_process ::
  "RegistrationStateMachine \<Rightarrow> RegistrationMessage \<Rightarrow> RegistrationStateMachine \<times> RegistrationAction" where
  "registration_process m msg =
     (case reg_state m of
        WaitingForQuery \<Rightarrow>
          (case msg of
             NewClientQuery \<Rightarrow>
               (case previous_channel m of
                  Some ch \<Rightarrow>
                    (m\<lparr>reg_state := WaitingForExistingResponse\<rparr>,
                     SendExistingClientRequest (ExistingClientRequest (Some ch) (Some (reg_hash m))))
                | None \<Rightarrow> (m\<lparr>reg_state := WaitingForAssignment\<rparr>, SendNewClientResponse))
           | _ \<Rightarrow> (m, RegAction_None))
      | WaitingForAssignment \<Rightarrow>
          (case msg of
             ClientIdAssignment ch h \<Rightarrow>
               if h \<noteq> (0x00, 0x00) \<and> h \<noteq> reg_hash m then (m, RegAction_None)
               else (m\<lparr>reg_state := Registered ch\<rparr>, SendClientIdAck ch)
           | _ \<Rightarrow> (m, RegAction_None))
      | WaitingForExistingResponse \<Rightarrow>
          (case msg of
             ExistingClientResponse ch h \<Rightarrow>
               if h \<noteq> reg_hash m then (m, RegAction_None)
               else (m\<lparr>reg_state := Registered ch\<rparr>, RegAction_None)
           | NewClientQuery \<Rightarrow> (m\<lparr>reg_state := WaitingForAssignment\<rparr>, SendNewClientResponse)
           | _ \<Rightarrow> (m, RegAction_None))
      | Registered _ \<Rightarrow> (m, RegAction_None))"

definition registration_process_raw ::
  "RegistrationStateMachine \<Rightarrow> u8 \<times> u8 \<Rightarrow> u8 list \<Rightarrow>
     RegistrationStateMachine \<times> RegistrationAction option" where
  "registration_process_raw m mt p =
     (case registration_parse mt p of
        Inr msg \<Rightarrow> (case registration_process m msg of (m', a) \<Rightarrow> (m', Some a))
      | Inl NotRegistrationFrame \<Rightarrow> (m, None)
      | Inl _ \<Rightarrow> (m, Some RegAction_None))"

definition registration_reset :: "RegistrationStateMachine \<Rightarrow> RegistrationStateMachine" where
  "registration_reset m = m\<lparr>reg_state := WaitingForQuery\<rparr>"

section \<open>Lemmas on messages\<close>

text \<open>The channels whose frames the parser reads as addressed to one client.\<close>

definition client_address :: "u8 \<Rightarrow> bool" where
  "client_address c \<longleftrightarrow> c \<noteq> 0xFE \<and> c \<noteq> 0xFF \<and> c \<noteq> 0x0A"

fun message_wf :: "RegistrationMessage \<Rightarrow> bool" where
  "message_wf (ClientIdAck c) = client_address c"
| "message_wf (ClearToSend c) = client_address c"
| "message_wf (ExistingClientResponse c _) = client_address c"
| "message_wf (ExistingClientRequest c h) = (c = None \<longleftrightarrow> h = None)"
| "message_wf _ = True"

lemma encode_parts_Inr: "\<exists>mt p. encode_parts m = Inr (mt, p)"
  by (cases m) simp_all

lemma registration_parse_encode:
  "encode_parts m = Inr (mt, p) \<Longrightarrow> registration_parse mt p = Inr m \<longleftrightarrow> message_wf m"
  by (cases m) (auto simp: registration_parse_def client_address_def split: option.splits)

interpretation registration_codec: codec "\<lambda>m. projr (encode_parts m)"
  "\<lambda>(mt, p). case registration_parse mt p of Inl _ \<Rightarrow> None | Inr m \<Rightarrow> Some m" message_wf
proof unfold_locales
  fix m assume "message_wf m"
  obtain mt p where e: "encode_parts m = Inr (mt, p)" using encode_parts_Inr by blast
  with registration_parse_encode [OF e] \<open>message_wf m\<close>
  show "(case projr (encode_parts m) of (mt, p) \<Rightarrow>
      case registration_parse mt p of Inl _ \<Rightarrow> None | Inr m \<Rightarrow> Some m) = Some m"
    by simp
qed

lemma encode_parts_length: "encode_parts m = Inr (mt, p) \<Longrightarrow> length p \<le> 5"
  by (cases m) (auto split: option.splits)

lemma registration_encode_Inr: "\<exists>bs. registration_encode m = Inr bs"
proof -
  obtain mt p where e: "encode_parts m = Inr (mt, p)" using encode_parts_Inr by blast
  with encode_parts_length [OF e] show ?thesis
    by (auto simp: registration_encode_def FrameEncoder_encode_def frame_encode_Inr encodable_def)
qed

section \<open>Lemmas on the state machine\<close>

definition registration_step ::
  "RegistrationStateMachine \<Rightarrow> RegistrationMessage \<Rightarrow> RegistrationStateMachine \<times> RegistrationAction list" where
  "registration_step m msg = (case registration_process m msg of (m', a) \<Rightarrow> (m', [a]))"

lemma registration_step_proj [simp]:
  "fst (registration_step m msg) = fst (registration_process m msg)"
  "snd (registration_step m msg) = [snd (registration_process m msg)]"
  by (simp_all add: registration_step_def split: prod.splits)

lemma registration_process_frame:
  "reg_hash (fst (registration_process m msg)) = reg_hash m"
  "previous_channel (fst (registration_process m msg)) = previous_channel m"
  by (auto simp: registration_process_def split: RegistrationState.splits RegistrationMessage.splits
      option.splits)

text \<open>The message, if any, that made this machine register on a channel.\<close>

definition grants :: "RegistrationStateMachine \<Rightarrow> u8 \<Rightarrow> RegistrationMessage \<Rightarrow> bool" where
  "grants m c msg \<longleftrightarrow>
     msg = ClientIdAssignment c (reg_hash m) \<or> msg = ClientIdAssignment c (0, 0) \<or>
     msg = ExistingClientResponse c (reg_hash m)"

lemma registration_process_grants:
  assumes "reg_state (fst (registration_process m msg)) = Registered c"
  shows "reg_state m = Registered c \<or> grants m c msg"
  using assms
  by (auto simp: registration_process_def grants_def split: RegistrationState.splits
      RegistrationMessage.splits option.splits if_splits)

lemma registration_process_registered:
  "reg_state m = Registered c \<Longrightarrow> registration_process m msg = (m, RegAction_None)"
  by (simp add: registration_process_def)

lemma registration_process_ack:
  "snd (registration_process m msg) = SendClientIdAck c \<Longrightarrow>
     reg_state (fst (registration_process m msg)) = Registered c \<and> \<not> is_registered m"
  by (auto simp: registration_process_def is_registered_def split: RegistrationState.splits
      RegistrationMessage.splits option.splits if_splits)

lemma run_registered:
  "reg_state m = Registered c \<Longrightarrow>
     run_machine registration_step m msgs = (m, replicate (length msgs) RegAction_None)"
  by (induction msgs) (simp_all add: registration_step_def registration_process_registered)

lemma run_hash: "reg_hash (fst (run_machine registration_step m msgs)) = reg_hash m"
proof (induction msgs arbitrary: m)
  case (Cons msg msgs)
  from Cons [of "fst (registration_process m msg)"] show ?case
    by (simp only: run_machine_Cons_proj registration_step_proj registration_process_frame)
qed simp

lemma run_grants:
  assumes "reg_state (fst (run_machine registration_step m msgs)) = Registered c"
    and "\<not> is_registered m"
  shows "\<exists>msg \<in> set msgs. grants m c msg"
  using assms
proof (induction msgs arbitrary: m)
  case Nil
  then show ?case by (simp add: is_registered_def)
next
  case (Cons msg msgs)
  let ?m = "fst (registration_process m msg)"
  have run: "fst (run_machine registration_step m (msg # msgs)) = fst (run_machine registration_step ?m msgs)"
    by (simp only: run_machine_Cons_proj registration_step_proj)
  show ?case
  proof (cases "reg_state ?m")
    case (Registered c')
    with run Cons.prems(1) run_registered [OF Registered] have "c' = c" by simp
    with Registered registration_process_grants [of m msg c] Cons.prems(2) show ?thesis
      by (auto simp: is_registered_def)
  qed (use Cons.IH [of ?m] Cons.prems(1) run registration_process_frame [of m msg] in
    \<open>auto simp: is_registered_def grants_def\<close>)
qed

lemma run_acks:
  assumes "SendClientIdAck c \<in> set (snd (run_machine registration_step m msgs))"
  shows "reg_state (fst (run_machine registration_step m msgs)) = Registered c"
  using assms
proof (induction msgs arbitrary: m)
  case (Cons msg msgs)
  let ?m = "fst (registration_process m msg)"
  have fst_run: "fst (run_machine registration_step m (msg # msgs)) = fst (run_machine registration_step ?m msgs)"
    by (simp only: run_machine_Cons_proj registration_step_proj)
  show ?case
  proof (cases "snd (registration_process m msg) = SendClientIdAck c")
    case True
    then have "reg_state ?m = Registered c" by (simp add: registration_process_ack)
    with fst_run run_registered [OF this] show ?thesis by simp
  next
    case False
    with Cons.prems have "SendClientIdAck c \<in> set (snd (run_machine registration_step ?m msgs))"
      by (auto simp only: run_machine_Cons_proj registration_step_proj append_Cons append_Nil
          list.set insert_iff)
    with Cons.IH fst_run show ?thesis by simp
  qed
qed simp

text \<open>The stages of the handshake; no message takes the machine back.\<close>

fun stage :: "RegistrationState \<Rightarrow> nat" where
  "stage WaitingForQuery = 0"
| "stage WaitingForExistingResponse = 1"
| "stage WaitingForAssignment = 2"
| "stage (Registered _) = 3"

lemma stage_3: "stage s = 3 \<longleftrightarrow> (\<exists>c. s = Registered c)"
  by (cases s) simp_all

lemma registration_process_stage:
  "stage (reg_state m) \<le> stage (reg_state (fst (registration_process m msg)))"
  by (auto simp: registration_process_def split: RegistrationState.splits
      RegistrationMessage.splits option.splits)

lemma query_stage:
  "min 2 (Suc (stage (reg_state m))) \<le> stage (reg_state (fst (registration_process m NewClientQuery)))"
  by (auto simp: registration_process_def split: RegistrationState.splits option.splits)

lemma assignment_stage:
  "2 \<le> stage (reg_state m) \<Longrightarrow> g = reg_hash m \<or> g = (0, 0) \<Longrightarrow>
     stage (reg_state (fst (registration_process m (ClientIdAssignment c g)))) = 3"
  by (cases "reg_state m") (auto simp: registration_process_def)

interpretation reg_stage: invariant_machine registration_step "\<lambda>m. k \<le> stage (reg_state m)" "\<lambda>_. True" for k
  by unfold_locales (auto intro: order_trans [OF _ registration_process_stage])

section \<open>Properties\<close>

text \<open>
  The channel type loses nothing of the byte it is made from, and its two
  classifications are the documented ranges.
\<close>

theorem channel_roundtrip:
  "channel_to_u8 (channel_from_u8 v) = v \<and>
   (has_cts (channel_from_u8 v) \<longleftrightarrow> 0x10 \<le> v \<and> v \<le> 0x2F) \<and>
   (is_client (channel_from_u8 v) \<longleftrightarrow> 0x10 \<le> v \<and> v \<le> 0x3F)"
proof -
  have n: "unat v < 256" by (rule unat_u8_less)
  have le: "numeral k \<le> v \<longleftrightarrow> unat (numeral k :: u8) \<le> unat v"
    "v \<le> numeral k \<longleftrightarrow> unat v \<le> unat (numeral k :: u8)" for k
    by (simp_all only: word_le_nat_alt)
  have eq: "v = numeral k \<longleftrightarrow> unat v = unat (numeral k :: u8)" for k
    by (simp only: word_unat_eq_iff)
  show ?thesis
    unfolding channel_from_u8_def in_cts_range_def in_no_cts_range_def le eq by (auto simp: eq)
qed

text \<open>
  \<open>new_client_channel\<close> only looks at the index modulo 256. For an index below 256 it
  returns a channel exactly for the 32 channels with clear-to-send, but an index such as 256 gives
  channel 0x10 although it would place the channel far outside the range.
\<close>

theorem new_client_channel_truncates:
  "new_client_channel (i + 256 * k) =
     (if i mod 256 < 32 then Some (Client (word_of_nat (0x10 + i mod 256))) else None)"
proof -
  define j where "j = i mod 256"
  have w: "(word_of_nat (i + 256 * k) :: u8) = word_of_nat j"
    by (rule word_unat_eq_iff [THEN iffD2]) (simp add: unat_of_nat j_def del: of_nat_add of_nat_mult)
  have u: "unat (word_of_nat j :: u8) = j"
    by (simp add: unat_of_nat j_def)
  have raw: "(0x10 + word_of_nat j :: u8) = word_of_nat (0x10 + j)" by simp
  show ?thesis
  proof (cases "j < 32")
    case True
    then have "unat (word_of_nat (0x10 + j) :: u8) = 0x10 + j" by (simp add: unat_of_nat del: of_nat_add)
    with True w u raw show ?thesis
      by (simp add: new_client_channel_def Let_def in_cts_range_def word_le_nat_alt j_def [symmetric]
          del: of_nat_add)
  next
    case False
    show ?thesis
    proof (cases "16 + j > 255")
      case True
      with False w u show ?thesis by (simp add: new_client_channel_def Let_def j_def [symmetric])
    next
      case small: False
      then have "unat (word_of_nat (0x10 + j) :: u8) = 0x10 + j" by (simp add: unat_of_nat del: of_nat_add)
      with False small w u raw show ?thesis
        by (simp add: new_client_channel_def Let_def in_cts_range_def word_le_nat_alt j_def [symmetric]
            del: of_nat_add)
    qed
  qed
qed

text \<open>
  Every registration message encodes, and parsing its encoding gives the message back
  exactly when the message is well formed: a message addressed to one client must name a channel
  other than 0x0A, 0xFE and 0xFF, and an \<open>ExistingClientRequest\<close> must carry both channel and hash
  or neither.
\<close>

theorem registration_message_roundtrip:
  "\<exists>mt p. encode_parts m = Inr (mt, p) \<and> length p \<le> 5 \<and>
     (registration_parse mt p = Inr m \<longleftrightarrow> message_wf m)"
proof -
  obtain mt p where e: "encode_parts m = Inr (mt, p)" using encode_parts_Inr by blast
  from encode_parts_length [OF e] registration_parse_encode [OF e] e show ?thesis by blast
qed





text \<open>
  Property C25: the handshake completes. From a reset machine, with any hash and with or without a
  previous channel, any traffic that contains two queries and after them an assignment for the
  machine's hash (or the legacy hash) ends in the registered state.
\<close>

theorem registration_completes:
  assumes "g = reg_hash m \<or> g = (0, 0)"
  shows "is_registered (fst (run_machine registration_step (registration_reset m)
     (xs @ NewClientQuery # ys @ NewClientQuery # zs @ ClientIdAssignment c g # ws)))"
proof -
  let ?run = "\<lambda>m es. fst (run_machine registration_step m es)"
  have app: "?run m (es @ fs) = ?run (?run m es) fs" for m es fs
    by (rule run_machine_append_proj)
  have con: "?run m (e # es) = ?run (fst (registration_process m e)) es" for m e es
    by (simp only: run_machine_Cons_proj registration_step_proj)
  define m1 where "m1 = fst (registration_process (?run (registration_reset m) xs) NewClientQuery)"
  define m2 where "m2 = fst (registration_process (?run m1 ys) NewClientQuery)"
  define m3 where "m3 = ?run m2 zs"
  have "1 \<le> stage (reg_state m1)"
    using query_stage [of "?run (registration_reset m) xs"] by (simp add: m1_def)
  then have "1 \<le> stage (reg_state (?run m1 ys))" by (rule reg_stage.run_inv)
  then have "2 \<le> stage (reg_state m2)" using query_stage [of "?run m1 ys"] by (simp add: m2_def)
  then have "2 \<le> stage (reg_state m3)" unfolding m3_def by (rule reg_stage.run_inv)
  moreover have "reg_hash m3 = reg_hash m"
    by (simp add: m1_def m2_def m3_def run_hash registration_process_frame registration_reset_def)
  ultimately have "3 \<le> stage (reg_state (fst (registration_process m3 (ClientIdAssignment c g))))"
    using assignment_stage [of m3 g c] assms by simp
  then have "3 \<le> stage (reg_state (?run (fst (registration_process m3 (ClientIdAssignment c g))) ws))"
    by (rule reg_stage.run_inv)
  moreover have "stage s \<le> 3" for s by (cases s) simp_all
  ultimately have "stage (reg_state (?run (fst (registration_process m3 (ClientIdAssignment c g))) ws)) = 3"
    by (simp add: le_antisym)
  then obtain c' where
    "reg_state (?run (fst (registration_process m3 (ClientIdAssignment c g))) ws) = Registered c'"
    unfolding stage_3 by blast
  then have "is_registered (?run (fst (registration_process m3 (ClientIdAssignment c g))) ws)"
    by (simp add: is_registered_def)
  then show ?thesis by (simp only: app con m1_def m2_def m3_def)
qed

theorem registration_completes_witness:
  "is_registered (fst (run_machine registration_step (registration_reset (with_previous_channel (0, 7) 0x15))
     ([] @ NewClientQuery # [ClearToSend 0x10] @ NewClientQuery # [] @ ClientIdAssignment 0x16 (0, 7) # [])))"
  by (rule registration_completes) (simp add: with_previous_channel_def)

end
