(* ===== verification/Dispatcher.thy ===== *)
theory Dispatcher
  imports Messages Registration
begin

text \<open>
  The message dispatcher of \<open>crates/launa-protocol/src/dispatcher.rs\<close>: a frame becomes a typed
  incoming message. The handlers mirror the functions of the file; the log lines are left out.
\<close>

datatype IncomingMessage =
    Msg_StatusUpdate StatusUpdate
  | Msg_ConfigurationResponse SpaConfig
  | Msg_InformationResponse InformationResponse
  | Msg_FaultLogResponse FaultLogEntry
  | Msg_FilterCyclesResponse FilterCycles
  | Msg_ControlConfiguration SpaConfig
  | Msg_Ready u8
  | Msg_Registration RegistrationMessage
  | Msg_PreferencesResponse "u8 list"
  | Msg_SetupParametersResponse "u8 list"
  | Msg_Unknown "u8 \<times> u8" "u8 list"

definition unknown_msg :: "u8 \<times> u8 \<Rightarrow> u8 list \<Rightarrow> IncomingMessage" where
  "unknown_msg msg_type p = Msg_Unknown msg_type p"

definition parse_or_unknown ::
  "u8 \<times> u8 \<Rightarrow> u8 list \<Rightarrow> (u8 list \<Rightarrow> 'e + 't) \<Rightarrow> ('t \<Rightarrow> IncomingMessage) \<Rightarrow> IncomingMessage" where
  "parse_or_unknown msg_type p parse_fn ok_variant =
     (case parse_fn p of Inr v \<Rightarrow> ok_variant v | Inl _ \<Rightarrow> unknown_msg msg_type p)"

definition handle_status :: "u8 \<times> u8 \<Rightarrow> u8 list \<Rightarrow> IncomingMessage" where
  "handle_status msg_type p =
     (let status_data = (if length p = 25 \<and> p ! 0 = 0x13 then drop 1 p else p) in
      case status_parse status_data of
        Inr status \<Rightarrow> Msg_StatusUpdate status
      | Inl _ \<Rightarrow> unknown_msg msg_type p)"

definition handle_registration :: "u8 \<times> u8 \<Rightarrow> u8 list \<Rightarrow> IncomingMessage" where
  "handle_registration msg_type p =
     (case registration_parse msg_type p of
        Inr msg \<Rightarrow> Msg_Registration msg
      | Inl _ \<Rightarrow> unknown_msg msg_type p)"

definition handle_settings_0x22 :: "u8 \<times> u8 \<Rightarrow> u8 list \<Rightarrow> IncomingMessage" where
  "handle_settings_0x22 msg_type p =
     (if length p < 2 then unknown_msg msg_type p
      else if p ! 1 = 0x00 then unknown_msg msg_type p
      else if p ! 1 = 0x01 then
        (if length p > 3
         then parse_or_unknown msg_type p (\<lambda>data. filter_parse (drop 3 data)) Msg_FilterCyclesResponse
         else unknown_msg msg_type p)
      else if p ! 1 = 0x02 then
        (if length p > 3
         then parse_or_unknown msg_type p (\<lambda>data. information_parse (drop 3 data)) Msg_InformationResponse
         else unknown_msg msg_type p)
      else if p ! 1 = 0x20 then
        (if length p > 3
         then parse_or_unknown msg_type p (\<lambda>data. fault_parse (drop 3 data)) Msg_FaultLogResponse
         else unknown_msg msg_type p)
      else unknown_msg msg_type p)"

definition handle_filter_cycles_direct :: "u8 \<times> u8 \<Rightarrow> u8 list \<Rightarrow> IncomingMessage" where
  "handle_filter_cycles_direct msg_type p =
     parse_or_unknown msg_type p (\<lambda>data. filter_parse (drop 1 data)) Msg_FilterCyclesResponse"

definition handle_information_direct :: "u8 \<times> u8 \<Rightarrow> u8 list \<Rightarrow> IncomingMessage" where
  "handle_information_direct msg_type p =
     parse_or_unknown msg_type p (\<lambda>data. information_parse (drop 1 data)) Msg_InformationResponse"

definition handle_fault_log_direct :: "u8 \<times> u8 \<Rightarrow> u8 list \<Rightarrow> IncomingMessage" where
  "handle_fault_log_direct msg_type p =
     parse_or_unknown msg_type p (\<lambda>data. fault_parse (drop 1 data)) Msg_FaultLogResponse"

definition handle_control_configuration :: "u8 \<times> u8 \<Rightarrow> u8 list \<Rightarrow> IncomingMessage" where
  "handle_control_configuration msg_type p =
     parse_or_unknown msg_type p (\<lambda>data. config_parse (drop 1 data)) Msg_ControlConfiguration"

definition handle_configuration_response :: "u8 \<times> u8 \<Rightarrow> u8 list \<Rightarrow> IncomingMessage" where
  "handle_configuration_response msg_type p =
     parse_or_unknown msg_type p (\<lambda>data. config_parse (drop 1 data)) Msg_ConfigurationResponse"

definition handle_0abf :: "u8 \<times> u8 \<Rightarrow> u8 list \<Rightarrow> IncomingMessage" where
  "handle_0abf msg_type p =
     (if p = [] then unknown_msg msg_type p
      else if p ! 0 = 0x04 then unknown_msg msg_type p
      else if p ! 0 = 0x07 then unknown_msg msg_type p
      else if p ! 0 = 0x11 then unknown_msg msg_type p
      else if p ! 0 = 0x20 then unknown_msg msg_type p
      else if p ! 0 = 0x22 then handle_settings_0x22 msg_type p
      else if p ! 0 = 0x23 then handle_filter_cycles_direct msg_type p
      else if p ! 0 = 0x24 then handle_information_direct msg_type p
      else if p ! 0 = 0x25 then Msg_SetupParametersResponse (drop 1 p)
      else if p ! 0 = 0x26 then Msg_PreferencesResponse (drop 1 p)
      else if p ! 0 = 0x28 then handle_fault_log_direct msg_type p
      else if p ! 0 = 0x2E then handle_control_configuration msg_type p
      else if p ! 0 = 0x94 then handle_configuration_response msg_type p
      else unknown_msg msg_type p)"

definition dispatch_frame :: "frame \<Rightarrow> IncomingMessage" where
  "dispatch_frame f =
     (let msg_type = message_type f; p = payload f in
      if msg_type = (0xFF, 0xAF) then handle_status msg_type p
      else if msg_type = (0xFE, 0xBF) then handle_registration msg_type p
      else if msg_type = (0x0A, 0xBF) then handle_0abf msg_type p
      else if snd msg_type = 0xBF then Msg_Ready (fst msg_type)
      else unknown_msg msg_type p)"

section \<open>Lemmas\<close>

lemmas handle_defs = handle_status_def handle_registration_def handle_settings_0x22_def
  handle_filter_cycles_direct_def handle_information_direct_def handle_fault_log_direct_def
  handle_control_configuration_def handle_configuration_response_def handle_0abf_def
  parse_or_unknown_def unknown_msg_def

lemma parse_or_unknown_cases:
  "parse_or_unknown mt p f k = Msg_Unknown mt p \<or> (\<exists>v. f p = Inr v \<and> parse_or_unknown mt p f k = k v)"
  by (cases "f p") (simp_all add: parse_or_unknown_def unknown_msg_def)

lemma parse_or_unknown_Unknown:
  assumes "parse_or_unknown mt p f k = Msg_Unknown mt' p'" and "\<And>v mt p. k v \<noteq> Msg_Unknown mt p"
  shows "mt' = mt \<and> p' = p"
  using assms by (auto simp: parse_or_unknown_def unknown_msg_def split: sum.splits)

section \<open>Properties\<close>

text \<open>
  The dispatcher loses no frame it does not understand: an unknown message carries the
  type and the payload of the frame, and every frame that is neither a status broadcast nor
  addressed through the second type byte 0xBF is reported unknown.
\<close>

theorem dispatch_unknown_keeps_frame:
  "(dispatch_frame f = Msg_Unknown mt p \<longrightarrow> mt = message_type f \<and> p = payload f) \<and>
   (message_type f \<noteq> (0xFF, 0xAF) \<and> snd (message_type f) \<noteq> 0xBF \<longrightarrow>
      dispatch_frame f = Msg_Unknown (message_type f) (payload f))"
proof (intro conjI impI)
  assume "dispatch_frame f = Msg_Unknown mt p"
  then show "mt = message_type f" "p = payload f"
    by (auto simp: dispatch_frame_def Let_def handle_defs split: if_splits sum.splits)
next
  assume "message_type f \<noteq> (0xFF, 0xAF) \<and> snd (message_type f) \<noteq> 0xBF"
  then show "dispatch_frame f = Msg_Unknown (message_type f) (payload f)"
    by (cases "message_type f") (auto simp: dispatch_frame_def Let_def unknown_msg_def)
qed

theorem dispatch_unknown_keeps_frame_witness:
  "dispatch_frame \<lparr>message_type = (0x12, 0x34), payload = [7]\<rparr> = Msg_Unknown (0x12, 0x34) [7]"
  using dispatch_unknown_keeps_frame [of "\<lparr>message_type = (0x12, 0x34), payload = [7]\<rparr>"] by simp

text \<open>
  The two wire formats of a status broadcast agree. The 24 status bytes of the
  simulator and the same bytes after the sub-type byte 0x13 of the hardware dispatch to the same
  status, the well-formed one that \<open>StatusUpdate::parse\<close> makes of them.
\<close>

theorem dispatch_status_prefix:
  assumes "length d = 24"
  shows "dispatch_frame \<lparr>message_type = (0xFF, 0xAF), payload = 0x13 # d\<rparr> =
      dispatch_frame \<lparr>message_type = (0xFF, 0xAF), payload = d\<rparr> \<and>
    (\<exists>s. status_parse d = Inr s \<and> status_wf s \<and>
      dispatch_frame \<lparr>message_type = (0xFF, 0xAF), payload = d\<rparr> = Msg_StatusUpdate s)"
proof -
  have "status_parse d = Inr (projr (status_parse d))" using assms by (simp add: status_parse_Inr_iff)
  then obtain s where s: "status_parse d = Inr s" by blast
  with status_parse_wf [OF s] assms show ?thesis
    by (simp add: dispatch_frame_def handle_status_def)
qed

theorem dispatch_status_prefix_witness:
  "dispatch_frame \<lparr>message_type = (0xFF, 0xAF), payload = 0x13 # replicate 24 7\<rparr> =
     dispatch_frame \<lparr>message_type = (0xFF, 0xAF), payload = replicate 24 7\<rparr>"
  using dispatch_status_prefix [of "replicate 24 7"] by simp

text \<open>
  Of the registration messages, exactly the broadcast ones reach the caller as
  registration messages. A message addressed to a client's channel (an acknowledgement, a
  reconnection response, clear-to-send) is dispatched as the same ready indication for that channel,
  whatever it says; telling them apart is left to the caller.
\<close>

theorem dispatch_registration:
  assumes "encode_parts m = Inr (mt, p)" and "message_wf m"
  shows "dispatch_frame \<lparr>message_type = mt, payload = p\<rparr> =
    (case m of ClientIdAck c \<Rightarrow> Msg_Ready c | ExistingClientResponse c _ \<Rightarrow> Msg_Ready c
     | ClearToSend c \<Rightarrow> Msg_Ready c | _ \<Rightarrow> Msg_Registration m)"
proof -
  have "registration_parse mt p = Inr m"
    using registration_parse_encode [OF assms(1)] assms(2) by simp
  then show ?thesis using assms
    by (cases m) (auto simp: dispatch_frame_def Let_def handle_registration_def client_address_def)
qed

theorem dispatch_registration_witness:
  "dispatch_frame \<lparr>message_type = (0x10, 0xBF), payload = [0x03]\<rparr> = Msg_Ready 0x10"
  using dispatch_registration [of "ClientIdAck 0x10" "(0x10, 0xBF)" "[0x03]"]
  by (simp add: message_wf.simps client_address_def)

end
