(* ===== verification/Clock.thy ===== *)
theory Clock
  imports Prelude
begin

text \<open>
  Time: \<open>Timestamp\<close> of \<open>crates/launa-hal/src/clock.rs\<close> with its derived order, and the constants of
  \<open>crates/launa-core/src/types.rs\<close>. The clock itself is a parameter of the code (a trait object);
  the operations of the model take its current reading as the argument \<open>now\<close>.
\<close>

section \<open>Timestamps\<close>

datatype Timestamp = Timestamp (as_millis: u64)

instantiation Timestamp :: linorder
begin

definition less_eq_Timestamp :: "Timestamp \<Rightarrow> Timestamp \<Rightarrow> bool" where
  "less_eq_Timestamp a b \<longleftrightarrow> as_millis a \<le> as_millis b"

definition less_Timestamp :: "Timestamp \<Rightarrow> Timestamp \<Rightarrow> bool" where
  "less_Timestamp a b \<longleftrightarrow> as_millis a < as_millis b"

instance
  by standard (auto simp: less_eq_Timestamp_def less_Timestamp_def intro: Timestamp.expand)

end

definition ts_zero :: Timestamp where
  "ts_zero = Timestamp 0"

definition from_millis :: "u64 \<Rightarrow> Timestamp" where
  "from_millis ms = Timestamp ms"

definition from_secs :: "u64 \<Rightarrow> Timestamp" where
  "from_secs s = Timestamp (s * 1000)"

definition as_secs :: "Timestamp \<Rightarrow> u64" where
  "as_secs t = as_millis t div 1000"

definition elapsed_since :: "Timestamp \<Rightarrow> Timestamp \<Rightarrow> u64" where
  "elapsed_since t earlier = sat_sub (as_millis t) (as_millis earlier)"

definition ts_saturating_add :: "Timestamp \<Rightarrow> u64 \<Rightarrow> Timestamp" where
  "ts_saturating_add t ms = Timestamp (sat_add (as_millis t) ms)"

definition ts_is_zero :: "Timestamp \<Rightarrow> bool" where
  "ts_is_zero t \<longleftrightarrow> as_millis t = 0"

lemma unat_elapsed_since [simp]:
  "unat (elapsed_since t u) = unat (as_millis t) - unat (as_millis u)"
  by (simp add: elapsed_since_def)

lemma elapsed_since_self [simp]: "elapsed_since t t = 0"
  by (simp add: elapsed_since_def sat_sub_def)

lemma elapsed_since_future: "t \<le> u \<Longrightarrow> elapsed_since t u = 0"
  by (auto simp: elapsed_since_def sat_sub_def less_eq_Timestamp_def not_less)

lemma elapsed_since_mono: "t \<le> t' \<Longrightarrow> elapsed_since t u \<le> elapsed_since t' u"
  by (simp add: word_le_nat_alt less_eq_Timestamp_def diff_le_mono)

lemma elapsed_saturating_add:
  "unat (elapsed_since (ts_saturating_add t ms) t) = min (unat ms) (2 ^ 64 - 1 - unat (as_millis t))"
  by (simp add: ts_saturating_add_def unat_sat_add)

section \<open>Constants\<close>

definition COMMAND_ACK_TIMEOUT_MS :: u64 where "COMMAND_ACK_TIMEOUT_MS = 5000"
definition MAX_COMMAND_RETRIES :: u8 where "MAX_COMMAND_RETRIES = 2"
definition MAX_PENDING_COMMANDS :: nat where "MAX_PENDING_COMMANDS = 8"
definition MAX_COMMAND_QUEUE :: nat where "MAX_COMMAND_QUEUE = 32"
definition DEFAULT_PUMP_DURATION_MS :: u64 where "DEFAULT_PUMP_DURATION_MS = 20 * 60 * 1000"
definition DEFAULT_HOLD_MODE_TIMEOUT_MS :: u64 where "DEFAULT_HOLD_MODE_TIMEOUT_MS = 60 * 60 * 1000"
definition STALE_PROBE_INTERVAL_MS :: u64 where "STALE_PROBE_INTERVAL_MS = 5000"
definition STALE_THRESHOLD_MS :: u64 where "STALE_THRESHOLD_MS = 30000"
definition CTS_LOSS_THRESHOLD_MS :: u64 where "CTS_LOSS_THRESHOLD_MS = 5000"
definition REGISTRATION_TIMEOUT_MS :: u64 where "REGISTRATION_TIMEOUT_MS = 5000"
definition DIAGNOSTICS_INTERVAL_MS :: u64 where "DIAGNOSTICS_INTERVAL_MS = 60000"
definition HEAP_CHECK_INTERVAL_MS :: u64 where "HEAP_CHECK_INTERVAL_MS = 30000"
definition HEAP_WARN_THRESHOLD :: nat where "HEAP_WARN_THRESHOLD = 4096"
definition HEAP_CRIT_THRESHOLD :: nat where "HEAP_CRIT_THRESHOLD = 1024"

lemmas timeout_defs = COMMAND_ACK_TIMEOUT_MS_def DEFAULT_PUMP_DURATION_MS_def
  DEFAULT_HOLD_MODE_TIMEOUT_MS_def STALE_PROBE_INTERVAL_MS_def STALE_THRESHOLD_MS_def
  CTS_LOSS_THRESHOLD_MS_def REGISTRATION_TIMEOUT_MS_def DIAGNOSTICS_INTERVAL_MS_def
  HEAP_CHECK_INTERVAL_MS_def

end
