(* ===== verification/Command.thy ===== *)
theory Command
  imports Status Frame
begin

text \<open>
  Outgoing commands: \<open>crates/launa-protocol/src/command.rs\<close>. Set-temperature validation, the
  toggle items with their codes and indices, and the encoding of every command into a message type
  and a payload.
\<close>

unbundle bit_operations_syntax

section \<open>Temperature limits\<close>

definition ABSOLUTE_MAX_TEMP_F :: u8 where "ABSOLUTE_MAX_TEMP_F = 108"
definition ABSOLUTE_MAX_TEMP_C :: u8 where "ABSOLUTE_MAX_TEMP_C = 42"

datatype TempError = BelowMin | AboveMax | AboveAbsoluteLimit

datatype CommandError = InvalidHour u8 | InvalidMinute u8 | InvalidTemperature u8

fun temp_limits :: "TemperatureScale \<Rightarrow> TempRange \<Rightarrow> u8 \<times> u8" where
  "temp_limits Fahrenheit Range_High = (80, 104)"
| "temp_limits Fahrenheit Range_Low = (50, 80)"
| "temp_limits Celsius Range_High = (26, 40)"
| "temp_limits Celsius Range_Low = (10, 26)"

definition validate_set_temperature ::
  "u8 \<Rightarrow> TemperatureScale \<Rightarrow> TempRange \<Rightarrow> TempError + u8" where
  "validate_set_temperature raw scale rng =
     (let (mn, mx) = temp_limits scale rng;
          abs_max = (case scale of Fahrenheit \<Rightarrow> ABSOLUTE_MAX_TEMP_F | Celsius \<Rightarrow> ABSOLUTE_MAX_TEMP_C)
      in if raw > abs_max then Inl AboveAbsoluteLimit
         else if raw < mn then Inl BelowMin
         else if raw > mx then Inl AboveMax
         else Inr raw)"

section \<open>Commands\<close>

datatype ToggleItem =
    Pump1 | Pump2 | Pump3 | Pump4 | Pump5 | Pump6 | Blower | Light1 | Light2 | Light3 | Light4
  | Mister | Aux1 | Aux2 | HoldMode | HeatingModeItem | TemperatureRange | CirculationPump
  | SoakMode | NormalOperation | ClearNotification

datatype SettingsType =
  Settings_Panel | Settings_FilterCycles | Settings_Information | Settings_Preferences

datatype Command =
    ConfigurationRequest
  | ToggleItem ToggleItem
  | SetTemperature u8
  | SetTime (time_hour: u8) (time_minute: u8) (is_24h: bool)
  | SetPreference (pref_code: u8) (pref_value: u8)
  | SetTemperatureScale bool
  | SettingsRequest SettingsType
  | FilterCyclesRequest
  | InformationRequest
  | FaultLogRequest u8
  | NothingToSend u8
  | Sniff "u16 option"
  | Reboot

fun toggle_code :: "ToggleItem \<Rightarrow> u8" where
  "toggle_code Pump1 = 0x04"
| "toggle_code Pump2 = 0x05"
| "toggle_code Pump3 = 0x06"
| "toggle_code Pump4 = 0x07"
| "toggle_code Pump5 = 0x08"
| "toggle_code Pump6 = 0x09"
| "toggle_code Blower = 0x0C"
| "toggle_code Light1 = 0x11"
| "toggle_code Light2 = 0x12"
| "toggle_code Light3 = 0x13"
| "toggle_code Light4 = 0x14"
| "toggle_code Mister = 0x0E"
| "toggle_code Aux1 = 0x16"
| "toggle_code Aux2 = 0x17"
| "toggle_code HoldMode = 0x3C"
| "toggle_code HeatingModeItem = 0x51"
| "toggle_code TemperatureRange = 0x50"
| "toggle_code CirculationPump = 0x3D"
| "toggle_code SoakMode = 0x1D"
| "toggle_code NormalOperation = 0x01"
| "toggle_code ClearNotification = 0x03"

fun pump_index :: "ToggleItem \<Rightarrow> nat option" where
  "pump_index Pump1 = Some 0"
| "pump_index Pump2 = Some 1"
| "pump_index Pump3 = Some 2"
| "pump_index Pump4 = Some 3"
| "pump_index Pump5 = Some 4"
| "pump_index Pump6 = Some 5"
| "pump_index _ = None"

fun light_index :: "ToggleItem \<Rightarrow> nat option" where
  "light_index Light1 = Some 0"
| "light_index Light2 = Some 1"
| "light_index Light3 = Some 2"
| "light_index Light4 = Some 3"
| "light_index _ = None"

definition from_pump_index :: "nat \<Rightarrow> ToggleItem option" where
  "from_pump_index i =
     (if i = 0 then Some Pump1 else if i = 1 then Some Pump2 else if i = 2 then Some Pump3
      else if i = 3 then Some Pump4 else if i = 4 then Some Pump5 else if i = 5 then Some Pump6
      else None)"

definition from_light_index :: "nat \<Rightarrow> ToggleItem option" where
  "from_light_index i =
     (if i = 0 then Some Light1 else if i = 1 then Some Light2 else if i = 2 then Some Light3
      else if i = 3 then Some Light4 else None)"

definition PREF_REMINDERS :: u8 where "PREF_REMINDERS = 0x00"
definition PREF_TEMPERATURE_SCALE :: u8 where "PREF_TEMPERATURE_SCALE = 0x01"
definition PREF_CLOCK_MODE :: u8 where "PREF_CLOCK_MODE = 0x02"
definition PREF_CLEANUP_CYCLE :: u8 where "PREF_CLEANUP_CYCLE = 0x03"
definition PREF_M8_AI :: u8 where "PREF_M8_AI = 0x06"

fun command_encode :: "Command \<Rightarrow> CommandError + (u8 \<times> u8) \<times> u8 list" where
  "command_encode ConfigurationRequest = Inr ((0x0A, 0xBF), [0x04])"
| "command_encode (ToggleItem item) = Inr ((0x0A, 0xBF), [0x11, toggle_code item, 0x00])"
| "command_encode (SetTemperature temp) =
     (if temp > ABSOLUTE_MAX_TEMP_F then Inl (InvalidTemperature temp)
      else Inr ((0x0A, 0xBF), [0x20, temp]))"
| "command_encode (SetTime hour minute h24) =
     (if hour > 23 \<or> hour AND 0x80 \<noteq> 0 then Inl (InvalidHour hour)
      else if minute > 59 then Inl (InvalidMinute minute)
      else let h = (if h24 then hour OR 0x80 else hour) in Inr ((0x0A, 0xBF), [0x21, h, minute]))"
| "command_encode (SetPreference code value) = Inr ((0x0A, 0xBF), [0x27, code, value])"
| "command_encode (SetTemperatureScale celsius) =
     (let ts = (if celsius then 0x01 else 0x00) in Inr ((0x0A, 0xBF), [0x27, 0x01, ts]))"
| "command_encode (SettingsRequest Settings_Panel) = Inr ((0x0A, 0xBF), [0x22, 0x00, 0x00, 0x01])"
| "command_encode (SettingsRequest Settings_FilterCycles) =
     Inr ((0x0A, 0xBF), [0x22, 0x01, 0x00, 0x00])"
| "command_encode FilterCyclesRequest = Inr ((0x0A, 0xBF), [0x22, 0x01, 0x00, 0x00])"
| "command_encode (SettingsRequest Settings_Information) =
     Inr ((0x0A, 0xBF), [0x22, 0x02, 0x00, 0x00])"
| "command_encode InformationRequest = Inr ((0x0A, 0xBF), [0x22, 0x02, 0x00, 0x00])"
| "command_encode (SettingsRequest Settings_Preferences) =
     Inr ((0x0A, 0xBF), [0x22, 0x08, 0x00, 0x00])"
| "command_encode (FaultLogRequest entry) = Inr ((0x0A, 0xBF), [0x22, 0x20, entry, 0x00])"
| "command_encode (NothingToSend client_id) = Inr ((client_id, 0xBF), [0x07])"
| "command_encode (Sniff _) = Inr ((0x00, 0x00), [])"
| "command_encode Reboot = Inr ((0x00, 0x00), [])"

section \<open>Lemmas\<close>

lemma toggle_code_inject: "toggle_code i = toggle_code j \<longleftrightarrow> i = j"
  by (cases i; cases j) simp_all

lemma from_pump_index_Some: "from_pump_index i = Some t \<longleftrightarrow> pump_index t = Some i"
  by (cases t) (auto simp: from_pump_index_def)

lemma from_light_index_Some: "from_light_index i = Some t \<longleftrightarrow> light_index t = Some i"
  by (cases t) (auto simp: from_light_index_def)

lemma pump_index_less: "pump_index t = Some i \<Longrightarrow> i < 6"
  by (cases t) auto

lemma light_index_less: "light_index t = Some i \<Longrightarrow> i < 4"
  by (cases t) auto

lemma pump_index_inj: "pump_index s = Some i \<Longrightarrow> pump_index t = Some i \<Longrightarrow> s = t"
  by (metis from_pump_index_Some option.inject)

lemma command_encode_length: "command_encode c = Inr (mt, p) \<Longrightarrow> length p \<le> 4"
  by (induction c rule: command_encode.induct) (auto simp: Let_def split: if_splits)

lemma hour_flag:
  fixes h :: u8 assumes "h \<le> 23"
  shows "h AND 0x80 = 0" and "(h OR 0x80) AND 0x7F = h" and "(h OR 0x80) AND 0x80 = 0x80"
proof -
  have "h \<le> 23 \<longrightarrow> h AND 0x80 = 0 \<and> (h OR 0x80) AND 0x7F = h \<and> (h OR 0x80) AND 0x80 = 0x80"
    by (rule all_u8 [of _ h]) (simp add: nibbles_def)
  with assms show "h AND 0x80 = 0" "(h OR 0x80) AND 0x7F = h" "(h OR 0x80) AND 0x80 = 0x80"
    by simp_all
qed

lemma command_encode_errors:
  "(\<exists>e. command_encode c = Inl e) \<longleftrightarrow>
     (case c of SetTemperature t \<Rightarrow> t > 108 | SetTime h m _ \<Rightarrow> h > 23 \<or> m > 59 | _ \<Rightarrow> False)"
proof (cases c)
  case (SetTime h m b)
  then show ?thesis using hour_flag(1) [of h] by (cases "h \<le> 23") (auto simp: Let_def not_le)
next
  case (SettingsRequest t)
  then show ?thesis by (cases t) simp_all
qed (auto simp: ABSOLUTE_MAX_TEMP_F_def)

section \<open>Properties\<close>

text \<open>
  \<open>validate_set_temperature\<close> returns the raw value unchanged exactly when it lies in
  the range the controller documents for the scale and range setting, and otherwise names the first
  violated bound: the absolute limit (108 F, 42 C), the minimum, or the maximum.
\<close>

theorem validate_set_temperature_exact:
  "validate_set_temperature raw scale rng =
     (let lo = fst (temp_limits scale rng); hi = snd (temp_limits scale rng);
          top = (if scale = Fahrenheit then 108 else 42) in
      if lo \<le> raw \<and> raw \<le> hi then Inr raw
      else if raw < lo then Inl BelowMin
      else if raw \<le> top then Inl AboveMax else Inl AboveAbsoluteLimit)"
proof -
  have "temp_limits scale rng \<in> {(80, 104), (50, 80), (26, 40), (10, 26)}"
    by (cases scale; cases rng) simp_all
  show ?thesis
    by (cases scale; cases rng)
      (auto simp: validate_set_temperature_def ABSOLUTE_MAX_TEMP_F_def ABSOLUTE_MAX_TEMP_C_def Let_def
        not_le not_less word_le_nat_alt word_less_nat_alt)
qed

text \<open>
  Encoding a command fails exactly for a temperature above 108 and for a time that is
  no time of day; every command that encodes does so in at most four payload bytes, so the frame
  encoder accepts it and the decoder gives back its type and payload.
\<close>

theorem command_encode_total:
  assumes "decoder_ready d"
  shows "case command_encode c of
      Inl _ \<Rightarrow> (case c of SetTemperature t \<Rightarrow> t > 108 | SetTime h m _ \<Rightarrow> h > 23 \<or> m > 59 | _ \<Rightarrow> False)
    | Inr (mt, p) \<Rightarrow> \<not> (case c of SetTemperature t \<Rightarrow> t > 108 | SetTime h m _ \<Rightarrow> h > 23 \<or> m > 59 | _ \<Rightarrow> False) \<and>
        (\<exists>bs. FrameEncoder_encode mt p = Inr bs \<and>
          decoder_feed_slice d bs = Some (d, [\<lparr>message_type = mt, payload = p\<rparr>]))"
proof (cases "command_encode c")
  case (Inl e)
  then show ?thesis using command_encode_errors [of c] by auto
next
  case (Inr r)
  obtain mt p where r: "r = (mt, p)" by fastforce
  let ?f = "\<lparr>message_type = mt, payload = p\<rparr>"
  have "delimited ?f" using command_encode_length [of c mt p] Inr r by (simp add: delimited_def encodable_def)
  then have "FrameEncoder_encode mt p = Inr (wire_bytes ?f)"
    by (simp add: FrameEncoder_encode_def wire_bytes_encodable frame_encode_Inr delimited_def)
  moreover note slice_bytes_wire [OF assms \<open>delimited ?f\<close>]
  ultimately show ?thesis using command_encode_errors [of c] Inr r by auto
qed

theorem command_encode_total_witness:
  "\<exists>bs. FrameEncoder_encode (0x0A, 0xBF) [0x20, 100] = Inr bs \<and>
     decoder_feed_slice decoder_new bs =
       Some (decoder_new, [\<lparr>message_type = (0x0A, 0xBF), payload = [0x20, 100]\<rparr>])"
  using command_encode_total [of decoder_new "SetTemperature 100"]
  by (simp add: ABSOLUTE_MAX_TEMP_F_def)

text \<open>
  The time command carries the hour in the low seven bits of its hour byte and the
  24-hour flag in the high bit: both can be read back from the encoded payload.
\<close>

theorem set_time_encoding:
  assumes "command_encode (SetTime h m b) = Inr (mt, p)"
  shows "mt = (0x0A, 0xBF) \<and> length p = 3 \<and> p ! 0 = 0x21 \<and> (p ! 1) AND 0x7F = h \<and>
    ((p ! 1) AND 0x80 \<noteq> 0) = b \<and> p ! 2 = m"
proof -
  have h: "h \<le> 23" using assms by (auto simp: Let_def not_less split: if_splits)
  have low: "h AND 0x7F = h"
  proof -
    have "h \<le> 23 \<longrightarrow> h AND 0x7F = h" by (rule all_u8 [of _ h]) (simp add: nibbles_def)
    with h show ?thesis by simp
  qed
  from hour_flag [OF h] low assms show ?thesis
    by (cases b) (auto simp: Let_def split: if_splits)
qed

theorem set_time_encoding_witness:
  "(0x95 :: u8) AND 0x7F = 21 \<and> (0x95 :: u8) AND 0x80 \<noteq> 0"
proof -
  have e: "command_encode (SetTime 21 30 True) = Inr ((0x0A, 0xBF), [0x21, 0x95, 30])" by simp
  from set_time_encoding [OF e] show ?thesis by simp
qed

end
