(* ===== verification/Timers.thy ===== *)
theory Timers
  imports Interfaces Clock Command
begin

text \<open>
  The pump timers and the hold mode safety timer of \<open>crates/launa-core/src/timers.rs\<close>. Time is the
  argument \<open>now\<close>. The six timers of the manager are a list, ticked in order; a command that a tick
  returns is an output.
\<close>

section \<open>Pump timers\<close>

record PumpTimer =
  timer_pump :: ToggleItem
  started_at :: "Timestamp option"
  duration_ms :: u64

definition pump_timer_new :: "ToggleItem \<Rightarrow> PumpTimer" where
  "pump_timer_new p = \<lparr>timer_pump = p, started_at = None, duration_ms = DEFAULT_PUMP_DURATION_MS\<rparr>"

definition pump_timer_start :: "PumpTimer \<Rightarrow> Timestamp \<Rightarrow> PumpTimer \<times> Command" where
  "pump_timer_start t now = (t\<lparr>started_at := Some now\<rparr>, ToggleItem (timer_pump t))"

definition start_with_minutes :: "PumpTimer \<Rightarrow> u32 \<Rightarrow> Timestamp \<Rightarrow> PumpTimer \<times> Command" where
  "start_with_minutes t minutes now =
     pump_timer_start (t\<lparr>duration_ms := ucast minutes * 60 * 1000\<rparr>) now"

definition pump_timer_cancel :: "PumpTimer \<Rightarrow> PumpTimer" where
  "pump_timer_cancel t = t\<lparr>started_at := None\<rparr>"

definition pump_timer_tick :: "PumpTimer \<Rightarrow> Timestamp \<Rightarrow> PumpState \<Rightarrow> PumpTimer \<times> Command option" where
  "pump_timer_tick t now current_state =
     (case started_at t of
        None \<Rightarrow> (t, None)
      | Some started \<Rightarrow>
          let is_on = (current_state = Pump_Low \<or> current_state = Pump_High) in
          if \<not> is_on then (t\<lparr>started_at := None\<rparr>, None)
          else if elapsed_since now started \<ge> duration_ms t
          then (t\<lparr>started_at := None\<rparr>, Some (ToggleItem (timer_pump t)))
          else (t, None))"

definition pump_timer_remaining_ms :: "PumpTimer \<Rightarrow> Timestamp \<Rightarrow> u64" where
  "pump_timer_remaining_ms t now =
     (case started_at t of None \<Rightarrow> 0 | Some s \<Rightarrow> sat_sub (duration_ms t) (elapsed_since now s))"

definition pump_timer_is_running :: "PumpTimer \<Rightarrow> bool" where
  "pump_timer_is_running t \<longleftrightarrow> started_at t \<noteq> None"

section \<open>The manager\<close>

record PumpTimerManager =
  timers :: "PumpTimer list"

definition pump_timers_new :: PumpTimerManager where
  "pump_timers_new = \<lparr>timers = map pump_timer_new [Pump1, Pump2, Pump3, Pump4, Pump5, Pump6]\<rparr>"

text \<open>The loop over the timers with their index.\<close>

fun tick_timers :: "Timestamp \<Rightarrow> PumpState list \<Rightarrow> nat \<Rightarrow> PumpTimer list \<Rightarrow> PumpTimer list \<times> Command list" where
  "tick_timers now ps i [] = ([], [])"
| "tick_timers now ps i (t # ts) =
     (let (t', c) = pump_timer_tick t now (ps ! i);
          (ts', cs) = tick_timers now ps (Suc i) ts
      in (t' # ts', (case c of None \<Rightarrow> cs | Some c \<Rightarrow> c # cs)))"

definition tick_all :: "PumpTimerManager \<Rightarrow> Timestamp \<Rightarrow> PumpState list \<Rightarrow> PumpTimerManager \<times> Command list" where
  "tick_all m now ps =
     (let (ts, cs) = tick_timers now ps 0 (timers m) in (m\<lparr>timers := ts\<rparr>, cs))"

definition start_timer :: "PumpTimerManager \<Rightarrow> u8 \<Rightarrow> u32 \<Rightarrow> Timestamp \<Rightarrow> PumpTimerManager \<times> Command option" where
  "start_timer m pump_no minutes now =
     (if unat pump_no < 1 then (m, None)
      else let i = unat pump_no - 1 in
        if i \<ge> length (timers m) then (m, None)
        else let (t, c) = start_with_minutes (timers m ! i) minutes now in
          (m\<lparr>timers := (timers m)[i := t]\<rparr>, Some c))"

definition cancel_all :: "PumpTimerManager \<Rightarrow> PumpTimerManager" where
  "cancel_all m = m\<lparr>timers := map pump_timer_cancel (timers m)\<rparr>"

section \<open>Hold mode timer\<close>

record HoldModeTimer =
  entered_at :: "Timestamp option"
  timeout_ms :: u64
  fired :: bool

definition hold_timer_new :: HoldModeTimer where
  "hold_timer_new = \<lparr>entered_at = None, timeout_ms = DEFAULT_HOLD_MODE_TIMEOUT_MS, fired = False\<rparr>"

definition hold_with_timeout_ms :: "u64 \<Rightarrow> HoldModeTimer" where
  "hold_with_timeout_ms ms = \<lparr>entered_at = None, timeout_ms = ms, fired = False\<rparr>"

definition hold_timer_tick :: "HoldModeTimer \<Rightarrow> Timestamp \<Rightarrow> bool \<Rightarrow> HoldModeTimer \<times> Command option" where
  "hold_timer_tick h now hold =
     (if hold then
        if fired h then (h, None)
        else (case entered_at h of
                Some entered \<Rightarrow>
                  if elapsed_since now entered \<ge> timeout_ms h
                  then (h\<lparr>entered_at := None, fired := True\<rparr>, Some (ToggleItem HoldMode))
                  else (h, None)
              | None \<Rightarrow> (h\<lparr>entered_at := Some now\<rparr>, None))
      else (h\<lparr>entered_at := None, fired := False\<rparr>, None))"

definition hold_remaining_ms :: "HoldModeTimer \<Rightarrow> Timestamp \<Rightarrow> u64" where
  "hold_remaining_ms h now =
     (case entered_at h of None \<Rightarrow> 0 | Some e \<Rightarrow> sat_sub (timeout_ms h) (elapsed_since now e))"

section \<open>Lemmas\<close>

definition pump_timer_step :: "PumpTimer \<Rightarrow> Timestamp \<times> PumpState \<Rightarrow> PumpTimer \<times> Command list" where
  "pump_timer_step t e =
     (case pump_timer_tick t (fst e) (snd e) of (t', c) \<Rightarrow> (t', case c of None \<Rightarrow> [] | Some c \<Rightarrow> [c]))"

definition hold_timer_step :: "HoldModeTimer \<Rightarrow> Timestamp \<times> bool \<Rightarrow> HoldModeTimer \<times> Command list" where
  "hold_timer_step h e =
     (case hold_timer_tick h (fst e) (snd e) of (h', c) \<Rightarrow> (h', case c of None \<Rightarrow> [] | Some c \<Rightarrow> [c]))"

lemma length_tick_timers [simp]: "length (fst (tick_timers now ps i ts)) = length ts"
  by (induction ts arbitrary: i) (auto split: prod.splits option.splits, (metis fst_conv)+)

lemma length_tick_timers_out: "length (snd (tick_timers now ps i ts)) \<le> length ts"
proof (induction ts arbitrary: i)
  case (Cons t ts)
  from Cons [of "Suc i"] show ?case by (auto split: prod.splits option.splits)
qed simp

lemma pump_timer_stopped_run:
  "started_at t = None \<Longrightarrow> run_machine pump_timer_step t es = (t, [])"
  by (induction es) (simp_all add: pump_timer_step_def pump_timer_tick_def)

lemma hold_fired_run:
  "fired h \<Longrightarrow> run_machine hold_timer_step h (map (\<lambda>t. (t, True)) ts) = (h, [])"
  by (induction ts) (simp_all add: hold_timer_step_def hold_timer_tick_def)

text \<open>
  The reaction of the spa to a pump toggle, as the simulator of the repository has it
  (\<open>crates/launa-sim/src/spa_sim/frame_gen.rs\<close>): a cycle through three states.
\<close>

definition cycle_pump :: "PumpState \<Rightarrow> PumpState" where
  "cycle_pump s = (case s of Pump_Off \<Rightarrow> Pump_Low | Pump_Low \<Rightarrow> Pump_High | Pump_High \<Rightarrow> Pump_Off)"

lemma pump_timer_step_running:
  "started_at t = Some s \<Longrightarrow> p \<noteq> Pump_Off \<Longrightarrow> elapsed_since now s < duration_ms t \<Longrightarrow>
     pump_timer_step t (now, p) = (t, [])"
  by (cases p) (simp_all add: pump_timer_step_def pump_timer_tick_def not_le)

lemma pump_timer_step_expired:
  "started_at t = Some s \<Longrightarrow> p \<noteq> Pump_Off \<Longrightarrow> duration_ms t \<le> elapsed_since now s \<Longrightarrow>
     pump_timer_step t (now, p) = (t\<lparr>started_at := None\<rparr>, [ToggleItem (timer_pump t)])"
  by (cases p) (simp_all add: pump_timer_step_def pump_timer_tick_def)

lemma pump_timer_step_off:
  "started_at t = Some s \<Longrightarrow> pump_timer_step t (now, Pump_Off) = (t\<lparr>started_at := None\<rparr>, [])"
  by (simp add: pump_timer_step_def pump_timer_tick_def)

text \<open>A tick that leaves a running timer waiting: the pump is on and the time is not up.\<close>

definition waits :: "PumpTimer \<Rightarrow> Timestamp \<Rightarrow> Timestamp \<times> PumpState \<Rightarrow> bool" where
  "waits t s e \<longleftrightarrow> snd e \<noteq> Pump_Off \<and> elapsed_since (fst e) s < duration_ms t"

lemma pump_timer_run_waiting:
  "started_at t = Some s \<Longrightarrow> list_all (waits t s) es \<Longrightarrow> run_machine pump_timer_step t es = (t, [])"
  by (induction es) (auto simp: waits_def pump_timer_step_running)

lemma pump_timer_run:
  assumes "started_at t = Some s"
  shows "snd (run_machine pump_timer_step t es) =
    (case dropWhile (waits t s) es of
       (now, p) # _ \<Rightarrow> if p = Pump_Off then [] else [ToggleItem (timer_pump t)]
     | [] \<Rightarrow> [])"
  using assms
proof (induction es)
  case (Cons e es)
  obtain now p where e: "e = (now, p)" by (cases e)
  show ?case
  proof (cases "waits t s e")
    case True
    then have "pump_timer_step t e = (t, [])"
      using pump_timer_step_running [OF Cons.prems] e by (simp add: waits_def)
    with Cons True show ?thesis by (simp split: prod.splits)
  next
    case False
    then have c: "p = Pump_Off \<or> p \<noteq> Pump_Off \<and> duration_ms t \<le> elapsed_since now s"
      using e by (auto simp: waits_def not_less)
    from c False e pump_timer_step_off [OF Cons.prems] pump_timer_step_expired [OF Cons.prems]
    show ?thesis by (auto simp: pump_timer_stopped_run)
  qed
qed simp

lemma hold_run_armed:
  assumes "entered_at h = Some e" and "\<not> fired h"
  shows "snd (run_machine hold_timer_step h (map (\<lambda>t. (t, True)) ts)) =
    (if \<exists>t \<in> set ts. timeout_ms h \<le> elapsed_since t e then [ToggleItem HoldMode] else [])"
  using assms
proof (induction ts)
  case (Cons t ts)
  show ?case
  proof (cases "timeout_ms h \<le> elapsed_since t e")
    case True
    then have "hold_timer_step h (t, True) =
        (h\<lparr>entered_at := None, fired := True\<rparr>, [ToggleItem HoldMode])"
      using Cons.prems by (simp add: hold_timer_step_def hold_timer_tick_def)
    with True show ?thesis by (simp add: hold_fired_run)
  next
    case False
    then have "hold_timer_step h (t, True) = (h, [])"
      using Cons.prems by (simp add: hold_timer_step_def hold_timer_tick_def)
    with False Cons show ?thesis by (simp split: prod.splits)
  qed
qed simp

lemma hold_run_frame:
  "timeout_ms (fst (run_machine hold_timer_step h es)) = timeout_ms h"
proof (induction es arbitrary: h)
  case (Cons e es)
  have "timeout_ms (fst (hold_timer_step h e)) = timeout_ms h"
    by (auto simp: hold_timer_step_def hold_timer_tick_def split: option.splits)
  with Cons show ?case by (simp only: run_machine_Cons_proj)
qed simp

section \<open>Properties\<close>

text \<open>
  While hold mode lasts, the safety timer sends its release toggle exactly once, as
  soon as a status arrives at least the timeout after the first one, and never again; when hold mode
  ends the timer is back in its initial state, ready for the next hold.
\<close>

theorem hold_timer_fires_once:
  "snd (run_machine hold_timer_step (hold_with_timeout_ms ms) (map (\<lambda>t. (t, True)) (t0 # ts))) =
     (if \<exists>t \<in> set ts. ms \<le> elapsed_since t t0 then [ToggleItem HoldMode] else []) \<and>
   fst (run_machine hold_timer_step (hold_with_timeout_ms ms) (map (\<lambda>t. (t, True)) (t0 # ts) @ [(t1, False)])) =
     hold_with_timeout_ms ms"
proof (rule conjI)
  let ?h = "hold_with_timeout_ms ms\<lparr>entered_at := Some t0\<rparr>"
  have "hold_timer_step (hold_with_timeout_ms ms) (t0, True) = (?h, [])"
    by (simp add: hold_timer_step_def hold_timer_tick_def hold_with_timeout_ms_def)
  with hold_run_armed [of ?h t0 ts]
  show "snd (run_machine hold_timer_step (hold_with_timeout_ms ms) (map (\<lambda>t. (t, True)) (t0 # ts))) =
     (if \<exists>t \<in> set ts. ms \<le> elapsed_since t t0 then [ToggleItem HoldMode] else [])"
    by (simp add: hold_with_timeout_ms_def split: prod.splits)
  let ?es = "map (\<lambda>t. (t, True)) (t0 # ts)"
  let ?g = "fst (run_machine hold_timer_step (hold_with_timeout_ms ms) ?es)"
  have "timeout_ms ?g = ms" by (simp only: hold_run_frame) (simp add: hold_with_timeout_ms_def)
  then show "fst (run_machine hold_timer_step (hold_with_timeout_ms ms) (?es @ [(t1, False)])) =
     hold_with_timeout_ms ms"
    by (simp only: run_machine_append_proj run_machine_Cons_proj run_machine.simps(1))
      (simp add: hold_timer_step_def hold_timer_tick_def hold_with_timeout_ms_def)
qed

text \<open>
  A started pump timer sends exactly one toggle, at the first status that shows the
  pump on with the duration elapsed, provided no earlier status showed the pump off: such a status,
  even one sent before the start toggle took effect, cancels the timer without a command.
\<close>

theorem pump_timer_one_toggle:
  "snd (run_machine pump_timer_step (fst (start_with_minutes t minutes t0)) es) =
     (case dropWhile (\<lambda>(now, p). p \<noteq> Pump_Off \<and> elapsed_since now t0 < ucast minutes * 60000) es of
        (now, p) # _ \<Rightarrow> if p = Pump_Off then [] else [ToggleItem (timer_pump t)]
      | [] \<Rightarrow> [])"
proof -
  let ?t = "fst (start_with_minutes t minutes t0)"
  have f: "started_at ?t = Some t0" "duration_ms ?t = ucast minutes * 60000" "timer_pump ?t = timer_pump t"
    by (simp_all add: start_with_minutes_def pump_timer_start_def mult.assoc)
  have w: "waits ?t t0 = (\<lambda>(now, p). p \<noteq> Pump_Off \<and> elapsed_since now t0 < ucast minutes * 60000)"
    by (auto simp: waits_def f fun_eq_iff)
  show ?thesis unfolding pump_timer_run [OF f(1), of es] w f(3) ..
qed

text \<open>
  The final toggle is not a switch-off: on a pump at low speed the simulator goes to high speed,
  and the timer no longer runs.
\<close>

lemma pump_timer_expiry_low:
  "started_at t = Some s \<Longrightarrow> duration_ms t \<le> elapsed_since now s \<Longrightarrow>
     snd (pump_timer_tick t now Pump_Low) = Some (ToggleItem (timer_pump t)) \<and>
     \<not> pump_timer_is_running (fst (pump_timer_tick t now Pump_Low)) \<and>
     cycle_pump Pump_Low = Pump_High"
  by (simp add: pump_timer_tick_def pump_timer_is_running_def cycle_pump_def)

end
