(* ===== verification/SimFrames.thy ===== *)
theory SimFrames
  imports SimState Dispatcher Timers
begin

text \<open>
  What the simulated spa sends, \<open>crates/launa-sim/src/spa_sim/frame_gen.rs\<close>: toggles by item code and
  the generators of its frames. A generator that unwraps a failing encoder panics: its value is then
  \<open>None\<close>. The pump cycle \<open>cycle_pump\<close> is defined in theory \<open>Timers\<close>.
\<close>

unbundle bit_operations_syntax

section \<open>Toggles\<close>

definition pump_state_to_bits :: "PumpState \<Rightarrow> u8" where
  "pump_state_to_bits s = (case s of Pump_Off \<Rightarrow> 0 | Pump_Low \<Rightarrow> 1 | Pump_High \<Rightarrow> 2)"

definition cycle_heating_mode :: "HeatingMode \<Rightarrow> HeatingMode" where
  "cycle_heating_mode m =
     (case m of Mode_Ready \<Rightarrow> Mode_Rest | Mode_Rest \<Rightarrow> Mode_ReadyInRest | Mode_ReadyInRest \<Rightarrow> Mode_Ready)"

definition flip_temp_range :: "TempRange \<Rightarrow> TempRange" where
  "flip_temp_range r = (case r of Range_High \<Rightarrow> Range_Low | Range_Low \<Rightarrow> Range_High)"

definition switch_range :: "SpaState \<Rightarrow> SpaState" where
  "switch_range s =
     (let current_set = sp_set_temp s;
          s1 = (case sp_temp_range s of
                  Range_High \<Rightarrow> s\<lparr>sp_set_temp_high := current_set\<rparr>
                | Range_Low \<Rightarrow> s\<lparr>sp_set_temp_low := current_set\<rparr>);
          s2 = s1\<lparr>sp_temp_range := flip_temp_range (sp_temp_range s1)\<rparr>
      in s2\<lparr>sp_set_temp := (case sp_temp_range s2 of
              Range_High \<Rightarrow> sp_set_temp_high s2
            | Range_Low \<Rightarrow> sp_set_temp_low s2)\<rparr>)"

definition apply_toggle_by_code :: "SpaState \<Rightarrow> u8 \<Rightarrow> SpaState" where
  "apply_toggle_by_code s item_code =
     (if 0x04 \<le> item_code \<and> item_code \<le> 0x09 then
        let idx = unat (item_code - 0x04) in
        s\<lparr>sp_pumps := (sp_pumps s)[idx := cycle_pump (sp_pumps s ! idx)]\<rparr>
      else if item_code = 0x0C then s\<lparr>sp_blower := \<not> sp_blower s\<rparr>
      else if item_code = 0x11 then s\<lparr>sp_lights := (sp_lights s)[0 := \<not> sp_lights s ! 0]\<rparr>
      else if item_code = 0x12 then s\<lparr>sp_lights := (sp_lights s)[1 := \<not> sp_lights s ! 1]\<rparr>
      else if item_code = 0x13 then s\<lparr>sp_lights := (sp_lights s)[2 := \<not> sp_lights s ! 2]\<rparr>
      else if item_code = 0x14 then s\<lparr>sp_lights := (sp_lights s)[3 := \<not> sp_lights s ! 3]\<rparr>
      else if item_code = 0x3C then s\<lparr>sp_hold := \<not> sp_hold s\<rparr>
      else if item_code = 0x51 then s\<lparr>sp_heating_mode := cycle_heating_mode (sp_heating_mode s)\<rparr>
      else if item_code = 0x50 then switch_range s
      else s)"

section \<open>Status frames\<close>

definition reported_temp ::
  "SpaState \<Rightarrow> f32 \<Rightarrow> f32 \<Rightarrow> f32 \<Rightarrow> rat \<Rightarrow> u8" where
  "reported_temp s sensor_noise_jitter physics_noise_amplitude physics_noise_value ready_rand_value =
     (let f0 = temp_to_fahrenheit (sp_current_temp s);
          f1 = (if f32_less (F32_Fin 0) physics_noise_amplitude
                then f32_add f0 physics_noise_value else f0);
          f2 = (if f32_less (F32_Fin 0) sensor_noise_jitter
                then f32_add f1 (f32_mul (unit_f32 ready_rand_value) sensor_noise_jitter) else f1)
      in case temp_to_wire (temp_convert (temp_fahrenheit f2) (sp_temp_scale s)) of
           Inr b \<Rightarrow> b | Inl _ \<Rightarrow> 0xFF)"

text \<open>The 24 status bytes; \<open>current\<close> is the byte at offset 2, \<open>target\<close> the byte at offset 20.\<close>

definition status_payload :: "SpaState \<Rightarrow> u64 \<Rightarrow> bool \<Rightarrow> u8 \<Rightarrow> u8 \<Rightarrow> u8 list" where
  "status_payload s priming_remaining_ticks fault current target =
     [if sp_hold s then 0x05 else 0,
      if fault then 0x02 else if priming_remaining_ticks > 0 then 0x01 else 0,
      current,
      sp_hour s, sp_minute s,
      (case sp_heating_mode s of Mode_Ready \<Rightarrow> 0 | Mode_Rest \<Rightarrow> 1 | Mode_ReadyInRest \<Rightarrow> 3),
      0, 0, 0,
      (if sp_temp_scale s = Celsius then 0x01 else 0) OR 0x02,
      (if sp_is_heating s then 0x30 else 0) OR (if sp_temp_range s = Range_High then 0x04 else 0),
      pump_state_to_bits (sp_pumps s ! 0) OR push_bit 2 (pump_state_to_bits (sp_pumps s ! 1)) OR
        push_bit 4 (pump_state_to_bits (sp_pumps s ! 2)) OR push_bit 6 (pump_state_to_bits (sp_pumps s ! 3)),
      pump_state_to_bits (sp_pumps s ! 4) OR push_bit 2 (pump_state_to_bits (sp_pumps s ! 5)),
      (if sp_circ_pump s then 0x02 else 0) OR (if sp_blower s then 0x0C else 0),
      (if sp_lights s ! 0 then 0x03 else 0) OR (if sp_lights s ! 1 then 0x0C else 0) OR
        (if sp_lights s ! 2 then 0x30 else 0) OR (if sp_lights s ! 3 then 0xC0 else 0),
      if sp_mister s then 0x01 else 0,
      0, 0, 0, 0, target, 0, 0, 0]"

definition sim_frame :: "u8 \<times> u8 \<Rightarrow> u8 list \<Rightarrow> u8 list option" where
  "sim_frame mt p = (case FrameEncoder_encode mt p of Inr bs \<Rightarrow> Some bs | Inl _ \<Rightarrow> None)"

definition corrupt_frame :: "u8 list \<Rightarrow> u8 list" where
  "corrupt_frame bs = (if length bs > 6 then bs[5 := xor (bs ! 5) 0xFF] else bs)"

definition generate_status_frame ::
  "SpaState \<Rightarrow> u64 \<Rightarrow> bool \<Rightarrow> bool \<Rightarrow> f32 \<Rightarrow> u64 \<Rightarrow> u64 \<Rightarrow> f32 \<Rightarrow> f32 \<Rightarrow> rat \<Rightarrow> bool \<Rightarrow> u8 list option" where
  "generate_status_frame s priming_remaining_ticks fault report_unknown_temp sensor_noise_jitter
     physics_unknown_temp_ticks physics_tick_count physics_noise_amplitude physics_noise_value
     ready_rand_value inject_corrupt =
     (let in_unknown_period =
            (physics_unknown_temp_ticks > 0 \<and> physics_tick_count \<le> physics_unknown_temp_ticks);
          current = (if report_unknown_temp \<or> in_unknown_period then 0xFF
            else reported_temp s sensor_noise_jitter physics_noise_amplitude physics_noise_value
              ready_rand_value)
      in case temp_to_wire (sp_set_temp s) of
           Inl _ \<Rightarrow> None
         | Inr target \<Rightarrow>
             map_option (\<lambda>bs. if inject_corrupt then corrupt_frame bs else bs)
               (sim_frame (0xFF, 0xAF)
                 (0x13 # status_payload s priming_remaining_ticks fault current target)))"

section \<open>The other frames\<close>

definition generate_ready_frame :: "u8 \<Rightarrow> u8 list option" where
  "generate_ready_frame channel = sim_frame (channel, 0xBF) [0x06]"

definition generate_registration_query :: "u8 list option" where
  "generate_registration_query = sim_frame (0xFE, 0xBF) [0x00]"

definition generate_client_id_assignment :: "u8 \<Rightarrow> hash \<Rightarrow> u8 list option" where
  "generate_client_id_assignment cid h = sim_frame (0xFE, 0xBF) [0x02, cid, fst h, snd h]"

definition generate_existing_client_response :: "u8 \<Rightarrow> hash \<Rightarrow> u8 list option" where
  "generate_existing_client_response channel h =
     sim_frame (channel, 0xBF) [0x05, 0x04, channel, fst h, snd h]"

definition generate_config_response :: "SpaState \<Rightarrow> SpaConfigConfig \<Rightarrow> u8 list option" where
  "generate_config_response s cfg =
     (let p = raw_payload cfg;
          p' = (if sp_temp_scale s = Celsius then p[3 := p ! 3 OR 0x01] else p[3 := p ! 3 AND NOT 0x01])
      in sim_frame (0x0A, 0xBF) (0x2E # p'))"

definition generate_information_response :: "InformationConfig \<Rightarrow> u8 list option" where
  "generate_information_response cfg =
     (let info_data = [inf_software_id_byte0 cfg, inf_software_id_byte1 cfg,
            inf_software_version_byte0 cfg, inf_software_version_byte1 cfg] @
          inf_system_model cfg @
          [inf_current_setup cfg, inf_config_sig_byte0 cfg, inf_config_sig_byte1 cfg,
           inf_config_sig_byte2 cfg, inf_config_sig_byte3 cfg, inf_heater_voltage cfg,
           inf_heater_type cfg, inf_dip_switch_byte0 cfg, inf_dip_switch_byte1 cfg]
      in sim_frame (0x0A, 0xBF) (0x24 # info_data))"

definition fault_log_config_to_bytes :: "FaultLogConfig \<Rightarrow> u8 list" where
  "fault_log_config_to_bytes cfg =
     [flc_fault_count cfg, flc_entry_number cfg, FaultCode_code (flc_message_code cfg),
      flc_days_ago cfg, flc_hour cfg, flc_minute cfg, flc_flags cfg, flc_set_temperature cfg,
      flc_sensor_a_temp cfg, flc_sensor_b_temp cfg]"

definition generate_fault_log_response_for_entry ::
  "FaultLogConfig \<Rightarrow> FaultLogConfig list \<Rightarrow> u8 \<Rightarrow> u8 list option" where
  "generate_fault_log_response_for_entry cfg entries entry =
     (if entries \<noteq> [] then
        if entry = 0 \<or> unat entry > length entries
        then sim_frame (0x0A, 0xBF) (0x28 # replicate 10 0)
        else sim_frame (0x0A, 0xBF) (0x28 # fault_log_config_to_bytes (entries ! (unat entry - 1)))
      else sim_frame (0x0A, 0xBF) (0x28 # fault_log_config_to_bytes cfg))"

definition generate_fault_log_response :: "FaultLogConfig \<Rightarrow> u8 list option" where
  "generate_fault_log_response cfg = generate_fault_log_response_for_entry cfg [] 1"

definition generate_filter_cycles_response :: "FilterCyclesConfig \<Rightarrow> u8 list option" where
  "generate_filter_cycles_response cfg =
     (let f1 = fcc_filter1 cfg; f2 = fcc_filter2 cfg;
          f2_start_hour = (if fcc_enabled f2 then fcc_start_hour f2 OR 0x80
                           else fcc_start_hour f2 AND 0x7F)
      in sim_frame (0x0A, 0xBF)
           [0x23, fcc_start_hour f1, fcc_start_minute f1, fcc_duration_hours f1,
            fcc_duration_minutes f1, f2_start_hour, fcc_start_minute f2, fcc_duration_hours f2,
            fcc_duration_minutes f2])"

section \<open>What the controller decodes\<close>

text \<open>A frame whose payload is short enough for the length byte is encoded, and found by the decoder.\<close>

lemma sim_frame_wire:
  "length p \<le> 121 \<Longrightarrow> sim_frame mt p = Some (wire_bytes \<lparr>message_type = mt, payload = p\<rparr>) \<and>
     delimited \<lparr>message_type = mt, payload = p\<rparr>"
  by (simp add: sim_frame_def FrameEncoder_encode_def wire_bytes_encodable frame_encode_Inr
      delimited_def encodable_def)

definition spa_wf :: "SpaState \<Rightarrow> bool" where
  "spa_wf s \<longleftrightarrow> length (sp_pumps s) = 6 \<and> length (sp_lights s) = 4 \<and>
     (\<exists>b. temp_to_wire (sp_set_temp s) = Inr b)"

lemma list6: "length xs = 6 \<Longrightarrow> [xs ! 0, xs ! 1, xs ! 2, xs ! 3, xs ! 4, xs ! 5] = xs"
  by (simp add: list_eq_iff_nth_eq numeral_eq_Suc less_Suc_eq nth_Cons')

lemma list4: "length xs = 4 \<Longrightarrow> [xs ! 0, xs ! 1, xs ! 2, xs ! 3] = xs"
  by (simp add: list_eq_iff_nth_eq numeral_eq_Suc less_Suc_eq nth_Cons')

lemma decode_pump_byte:
  "let byte = pump_state_to_bits a OR push_bit 2 (pump_state_to_bits b) OR
      push_bit 4 (pump_state_to_bits c) OR push_bit 6 (pump_state_to_bits d)
   in decode_pump_state (byte AND 3) = a \<and> decode_pump_state (drop_bit 2 byte AND 3) = b \<and>
      decode_pump_state (drop_bit 4 byte AND 3) = c \<and> decode_pump_state (drop_bit 6 byte AND 3) = d"
  by (cases a; cases b; cases c; cases d) (simp_all add: pump_state_to_bits_def decode_pump_state_def)

lemma decode_pump_byte2:
  "let byte = pump_state_to_bits a OR push_bit 2 (pump_state_to_bits b)
   in decode_pump_state (byte AND 3) = a \<and> decode_pump_state (drop_bit 2 byte AND 3) = b"
  by (cases a; cases b) (simp_all add: pump_state_to_bits_def decode_pump_state_def)

lemma decode_status_pumps:
  assumes "length ps = 6"
  shows "decode_pumps
      (pump_state_to_bits (ps ! 0) OR push_bit 2 (pump_state_to_bits (ps ! 1)) OR
        push_bit 4 (pump_state_to_bits (ps ! 2)) OR push_bit 6 (pump_state_to_bits (ps ! 3)))
      (pump_state_to_bits (ps ! 4) OR push_bit 2 (pump_state_to_bits (ps ! 5))) decode_pump_state = ps"
  using decode_pump_byte [of "ps ! 0" "ps ! 1" "ps ! 2" "ps ! 3"]
    decode_pump_byte2 [of "ps ! 4" "ps ! 5"] list6 [OF assms]
  by (simp add: decode_pumps_def decode_pump_raw_def Let_def)

lemma decode_light_byte:
  "let byte = (if a then 0x03 else 0) OR (if b then 0x0C else 0) OR (if c then 0x30 else 0) OR
      (if d then 0xC0 else 0) :: u8
   in (byte AND 0x03 \<noteq> 0) = a \<and> (byte AND 0x0C \<noteq> 0) = b \<and> (byte AND 0x30 \<noteq> 0) = c \<and>
      (byte AND 0xC0 \<noteq> 0) = d"
  by (cases a; cases b; cases c; cases d) simp_all

text \<open>The status that a spa state means, for the two temperature bytes that are sent with it.\<close>

definition status_of :: "SpaState \<Rightarrow> u64 \<Rightarrow> bool \<Rightarrow> u8 \<Rightarrow> u8 \<Rightarrow> StatusUpdate" where
  "status_of s priming_remaining_ticks fault current target =
     \<lparr>current_temp = (if current = 0xFF then None else Some (temp_from_wire current (sp_temp_scale s))),
      set_temp = temp_from_wire target (sp_temp_scale s), st_hour = sp_hour s,
      st_minute = sp_minute s, heating_mode = sp_heating_mode s,
      temperature_scale = sp_temp_scale s, time_format = Hour24, filter_mode = 0,
      is_heating = sp_is_heating s, temp_range = sp_temp_range s, pumps = sp_pumps s,
      circ_pump = sp_circ_pump s, blower = sp_blower s, mister = sp_mister s,
      lights = sp_lights s, is_priming = (priming_remaining_ticks > 0 \<and> \<not> fault),
      is_hold = sp_hold s, notification_type = 0, panel_locked = False, settings_lock = False,
      m8_cycle_time = 0,
      sensor_a_temp = (if sp_hold s then None else Some (temp_from_wire 0 (sp_temp_scale s))),
      sensor_b_temp = None, hold_timer_minutes = (if sp_hold s then Some 0 else None)\<rparr>"

lemma length_status_payload [simp]: "length (status_payload s pr fault current target) = 24"
  by (simp add: status_payload_def)

lemma status_payload_nth:
  "status_payload s pr fault current target ! 0 = (if sp_hold s then 0x05 else 0)"
  "status_payload s pr fault current target ! 1 = (if fault then 0x02 else if pr > 0 then 0x01 else 0)"
  "status_payload s pr fault current target ! 2 = current"
  "status_payload s pr fault current target ! 3 = sp_hour s"
  "status_payload s pr fault current target ! 4 = sp_minute s"
  "status_payload s pr fault current target ! 6 = 0"
  "status_payload s pr fault current target ! 7 = 0"
  "status_payload s pr fault current target ! 8 = 0"
  "status_payload s pr fault current target ! 15 = (if sp_mister s then 0x01 else 0)"
  "status_payload s pr fault current target ! 18 = 0"
  "status_payload s pr fault current target ! 19 = 0"
  "status_payload s pr fault current target ! 20 = target"
  "status_payload s pr fault current target ! 21 = 0"
  by (simp_all add: status_payload_def)

lemma status_payload_flags:
  fixes s pr fault current target
  defines "p \<equiv> status_payload s pr fault current target"
  shows "(if p ! 9 AND 0x01 \<noteq> 0 then Celsius else Fahrenheit) = sp_temp_scale s"
    and "p ! 9 AND 0x02 \<noteq> 0" and "drop_bit 2 (p ! 9) AND 0x03 = 0"
    and "(if p ! 5 AND 0x03 = 0 then Mode_Ready else if p ! 5 AND 0x03 = 1 then Mode_Rest
          else if p ! 5 AND 0x03 = 3 then Mode_ReadyInRest else Mode_Ready) = sp_heating_mode s"
    and "(p ! 10 AND 0x30 \<noteq> 0) = sp_is_heating s"
    and "(if p ! 10 AND 0x04 \<noteq> 0 then Range_High else Range_Low) = sp_temp_range s"
    and "(p ! 13 AND 0x02 \<noteq> 0) = sp_circ_pump s" and "(p ! 13 AND 0x0C \<noteq> 0) = sp_blower s"
proof -
  show "(if p ! 9 AND 0x01 \<noteq> 0 then Celsius else Fahrenheit) = sp_temp_scale s"
    "p ! 9 AND 0x02 \<noteq> 0" "drop_bit 2 (p ! 9) AND 0x03 = 0"
    by (cases "sp_temp_scale s"; simp add: p_def status_payload_def)+
  show "(if p ! 5 AND 0x03 = 0 then Mode_Ready else if p ! 5 AND 0x03 = 1 then Mode_Rest
          else if p ! 5 AND 0x03 = 3 then Mode_ReadyInRest else Mode_Ready) = sp_heating_mode s"
    by (cases "sp_heating_mode s") (simp_all add: p_def status_payload_def)
  show "(p ! 10 AND 0x30 \<noteq> 0) = sp_is_heating s"
    "(if p ! 10 AND 0x04 \<noteq> 0 then Range_High else Range_Low) = sp_temp_range s"
    by (cases "sp_is_heating s"; cases "sp_temp_range s"; simp add: p_def status_payload_def)+
  show "(p ! 13 AND 0x02 \<noteq> 0) = sp_circ_pump s" "(p ! 13 AND 0x0C \<noteq> 0) = sp_blower s"
    by (simp_all add: p_def status_payload_def)
qed

lemma status_payload_arrays:
  fixes s pr fault current target
  assumes "length (sp_pumps s) = 6" and "length (sp_lights s) = 4"
  defines "p \<equiv> status_payload s pr fault current target"
  shows "decode_pumps (p ! 11) (p ! 12) decode_pump_state = sp_pumps s"
    and "[p ! 14 AND 0x03 \<noteq> 0, p ! 14 AND 0x0C \<noteq> 0, p ! 14 AND 0x30 \<noteq> 0, p ! 14 AND 0xC0 \<noteq> 0] = sp_lights s"
  using decode_status_pumps [OF assms(1)] list4 [OF assms(2)]
    decode_light_byte [of "sp_lights s ! 0" "sp_lights s ! 1" "sp_lights s ! 2" "sp_lights s ! 3"]
  by (simp_all add: p_def status_payload_def Let_def)

lemma status_parse_payload:
  assumes "length (sp_pumps s) = 6" and "length (sp_lights s) = 4"
  shows "status_parse (status_payload s pr fault current target) =
    Inr (status_of s pr fault current target)"
  unfolding status_parse_def status_of_def Let_def status_payload_flags
    status_payload_arrays [OF assms] status_payload_nth
  by (auto simp: status_payload_flags)

text \<open>The frame that the simulator sends for a state, when it can send one.\<close>

definition status_frame :: "SpaState \<Rightarrow> u64 \<Rightarrow> bool \<Rightarrow> u8 \<Rightarrow> u8 \<Rightarrow> frame" where
  "status_frame s pr fault current target =
     \<lparr>message_type = (0xFF, 0xAF), payload = 0x13 # status_payload s pr fault current target\<rparr>"

lemma status_frame_delimited [simp]: "delimited (status_frame s pr fault current target)"
  by (simp add: status_frame_def delimited_def encodable_def)

lemma dispatch_status_frame:
  "length (sp_pumps s) = 6 \<Longrightarrow> length (sp_lights s) = 4 \<Longrightarrow>
     dispatch_frame (status_frame s pr fault current target) =
       Msg_StatusUpdate (status_of s pr fault current target)"
  by (simp add: dispatch_frame_def status_frame_def handle_status_def status_parse_payload)

lemma generate_status_frame_wire:
  assumes "temp_to_wire (sp_set_temp s) = Inr target"
  shows "\<exists>current. generate_status_frame s pr fault unknown jit ut tc amp nv rv corrupt =
    Some (if corrupt then corrupt_frame (wire_bytes (status_frame s pr fault current target))
          else wire_bytes (status_frame s pr fault current target)) \<and>
    (unknown \<longrightarrow> current = 0xFF)"
  using assms by (auto simp: generate_status_frame_def Let_def sim_frame_wire status_frame_def)

text \<open>What the controller makes of the bytes of a response.\<close>

definition received :: "u8 list option \<Rightarrow> IncomingMessage list" where
  "received r =
     (case r of None \<Rightarrow> []
      | Some bs \<Rightarrow> (case decoder_feed_slice decoder_new bs of None \<Rightarrow> [] | Some (_, fs) \<Rightarrow> map dispatch_frame fs))"

lemma received_sim_frame:
  "length p \<le> 121 \<Longrightarrow> received (sim_frame mt p) = [dispatch_frame \<lparr>message_type = mt, payload = p\<rparr>]"
  using sim_frame_wire [of p mt] slice.feed_enc [OF decoder_ready_new, of "\<lparr>message_type = mt, payload = p\<rparr>"]
  by (simp add: received_def)

definition fault_entry_of :: "FaultLogConfig \<Rightarrow> FaultLogEntry" where
  "fault_entry_of cfg = \<lparr>fault_count = flc_fault_count cfg, entry_number = flc_entry_number cfg,
     message_code = FaultCode_from_code (FaultCode_code (flc_message_code cfg)),
     days_ago = flc_days_ago cfg, fault_hour = flc_hour cfg, fault_minute = flc_minute cfg,
     fault_flags = flc_flags cfg, set_temperature = flc_set_temperature cfg,
     sensor_a_raw = flc_sensor_a_temp cfg, sensor_b_raw = flc_sensor_b_temp cfg\<rparr>"

lemma dispatch_fault_bytes:
  "dispatch_frame \<lparr>message_type = (0x0A, 0xBF), payload = 0x28 # fault_log_config_to_bytes cfg\<rparr> =
     Msg_FaultLogResponse (fault_entry_of cfg)"
  by (simp add: dispatch_frame_def handle_defs fault_parse_def fault_log_config_to_bytes_def
      fault_entry_of_def)

lemma hour_enable_bit:
  fixes h :: u8
  shows "((if e then h OR 0x80 else h AND 0x7F) AND 0x80 \<noteq> 0) = e"
    and "(if e then h OR 0x80 else h AND 0x7F) AND 0x7F = h AND 0x7F"
proof -
  have "(h OR 0x80) AND 0x80 \<noteq> 0 \<and> (h AND 0x7F) AND 0x80 = 0 \<and> (h OR 0x80) AND 0x7F = h AND 0x7F \<and>
      (h AND 0x7F) AND 0x7F = h AND 0x7F"
    by (rule all_u8 [of _ h]) (simp add: nibbles_def)
  then show "((if e then h OR 0x80 else h AND 0x7F) AND 0x80 \<noteq> 0) = e"
    "(if e then h OR 0x80 else h AND 0x7F) AND 0x7F = h AND 0x7F" by auto
qed

section \<open>Properties\<close>

text \<open>
  The controller reads from the simulated spa what the spa's state is. The status frame
  of a well-formed state is found by the decoder and dispatched as the status with the state's
  pumps, lights, blower, modes, range, clock and scale, its set temperature as the wire can carry
  it, and no temperature when none is to be reported; and the simulator sends it exactly when the
  set temperature has a wire byte (it panics otherwise).
\<close>

theorem sim_status_roundtrip:
  assumes "length (sp_pumps s) = 6" and "length (sp_lights s) = 4"
  shows "case temp_to_wire (sp_set_temp s) of
      Inl _ \<Rightarrow> generate_status_frame s pr fault unknown jit ut tc amp nv rv corrupt = None
    | Inr target \<Rightarrow> \<exists>bs current f.
        generate_status_frame s pr fault unknown jit ut tc amp nv rv False = Some bs \<and>
        decoder_feed_slice decoder_new bs = Some (decoder_new, [f]) \<and>
        dispatch_frame f = Msg_StatusUpdate (status_of s pr fault current target) \<and>
        (unknown \<longrightarrow> current_temp (status_of s pr fault current target) = None)"
proof (cases "temp_to_wire (sp_set_temp s)")
  case (Inl e)
  then show ?thesis by (simp add: generate_status_frame_def)
next
  case (Inr target)
  obtain current where c:
      "generate_status_frame s pr fault unknown jit ut tc amp nv rv False =
         Some (wire_bytes (status_frame s pr fault current target))"
      "unknown \<longrightarrow> current = 0xFF"
    using generate_status_frame_wire [OF Inr, of pr fault unknown jit ut tc amp nv rv False] by auto
  have "decoder_feed_slice decoder_new (wire_bytes (status_frame s pr fault current target)) =
      Some (decoder_new, [status_frame s pr fault current target])"
    by (rule slice.feed_enc) simp_all
  with c dispatch_status_frame [OF assms] have
    "generate_status_frame s pr fault unknown jit ut tc amp nv rv False =
       Some (wire_bytes (status_frame s pr fault current target)) \<and>
     decoder_feed_slice decoder_new (wire_bytes (status_frame s pr fault current target)) =
       Some (decoder_new, [status_frame s pr fault current target]) \<and>
     dispatch_frame (status_frame s pr fault current target) =
       Msg_StatusUpdate (status_of s pr fault current target) \<and>
     (unknown \<longrightarrow> current_temp (status_of s pr fault current target) = None)"
    by (simp add: status_of_def)
  then show ?thesis unfolding Inr sum.case by blast
qed

lemma to_wire_40: "temp_to_wire (temp_celsius (F32_Fin 40)) = Inr 80"
proof -
  have "round_f32 (40 * 2) = F32_Fin 80" using round_f32_of_int [of 80] by simp
  moreover have "round_f32 (80 + 1 / 2) = F32_Fin (161 / 2)" using round_f32_half [of 161] by simp
  moreover have "\<lfloor>161 / 2 :: rat\<rfloor> = 80" by (simp add: floor_eq_iff)
  ultimately show ?thesis by (simp add: temp_to_wire_def temp_celsius_def)
qed

theorem sim_status_roundtrip_witness:
  "\<exists>bs current f. generate_status_frame spa_state_default 0 True True (F32_Fin 0) 0 0 (F32_Fin 0) (F32_Fin 0) 0 False = Some bs \<and>
     decoder_feed_slice decoder_new bs = Some (decoder_new, [f]) \<and>
     dispatch_frame f = Msg_StatusUpdate (status_of spa_state_default 0 True current 80)"
  using sim_status_roundtrip [of spa_state_default 0 True True "F32_Fin 0" 0 0 "F32_Fin 0" "F32_Fin 0" 0 False]
    to_wire_40 by (auto simp: spa_state_default_def)

text \<open>
  The responses of the simulated spa are read as they were configured. The filter cycles
  come back with the second cycle's enable bit and its hour in seven bits (the first always reads
  enabled), a fault log entry with the code its byte has, an entry number that does not exist as an
  empty log, and the configuration with the spa's temperature scale whatever the configured byte says.
\<close>

theorem sim_responses_roundtrip:
  assumes "length (raw_payload c) = 10"
  shows "received (generate_filter_cycles_response fc) = [Msg_FilterCyclesResponse
      \<lparr>filter1 = \<lparr>start_hour = fcc_start_hour (fcc_filter1 fc), start_minute = fcc_start_minute (fcc_filter1 fc),
         duration_hours = fcc_duration_hours (fcc_filter1 fc),
         duration_minutes = fcc_duration_minutes (fcc_filter1 fc), fc_enabled = True\<rparr>,
       filter2 = \<lparr>start_hour = fcc_start_hour (fcc_filter2 fc) AND 0x7F,
         start_minute = fcc_start_minute (fcc_filter2 fc),
         duration_hours = fcc_duration_hours (fcc_filter2 fc),
         duration_minutes = fcc_duration_minutes (fcc_filter2 fc),
         fc_enabled = fcc_enabled (fcc_filter2 fc)\<rparr>\<rparr>] \<and>
    (\<exists>e. received (generate_fault_log_response_for_entry fl es n) = [Msg_FaultLogResponse e] \<and>
       (if es = [] then e = fault_entry_of fl
        else if n = 0 \<or> length es < unat n then fault_count e = 0
        else e = fault_entry_of (es ! (unat n - 1)))) \<and>
    (\<exists>sc. received (generate_config_response s c) = [Msg_ControlConfiguration sc] \<and>
       temperature_scale_celsius sc = (sp_temp_scale s = Celsius))"
proof (intro conjI)
  show "received (generate_filter_cycles_response fc) = [Msg_FilterCyclesResponse
      \<lparr>filter1 = \<lparr>start_hour = fcc_start_hour (fcc_filter1 fc), start_minute = fcc_start_minute (fcc_filter1 fc),
         duration_hours = fcc_duration_hours (fcc_filter1 fc),
         duration_minutes = fcc_duration_minutes (fcc_filter1 fc), fc_enabled = True\<rparr>,
       filter2 = \<lparr>start_hour = fcc_start_hour (fcc_filter2 fc) AND 0x7F,
         start_minute = fcc_start_minute (fcc_filter2 fc),
         duration_hours = fcc_duration_hours (fcc_filter2 fc),
         duration_minutes = fcc_duration_minutes (fcc_filter2 fc),
         fc_enabled = fcc_enabled (fcc_filter2 fc)\<rparr>\<rparr>]"
    by (simp add: generate_filter_cycles_response_def Let_def received_sim_frame dispatch_frame_def
        handle_defs filter_parse_def hour_enable_bit del: word_and_max)
  show "\<exists>e. received (generate_fault_log_response_for_entry fl es n) = [Msg_FaultLogResponse e] \<and>
      (if es = [] then e = fault_entry_of fl
       else if n = 0 \<or> length es < unat n then fault_count e = 0
       else e = fault_entry_of (es ! (unat n - 1)))"
  proof -
    have len: "length (fault_log_config_to_bytes cfg) = 10" for cfg by (simp add: fault_log_config_to_bytes_def)
    have "dispatch_frame \<lparr>message_type = (0x0A, 0xBF), payload = 0x28 # replicate 10 0\<rparr> =
        Msg_FaultLogResponse (projr (fault_parse (replicate 10 0)))"
      by (simp add: dispatch_frame_def handle_defs fault_parse_def)
    moreover have "fault_count (projr (fault_parse (replicate 10 0))) = 0" by (simp add: fault_parse_def)
    ultimately show ?thesis
      by (simp add: generate_fault_log_response_for_entry_def received_sim_frame len dispatch_fault_bytes)
  qed
  show "\<exists>sc. received (generate_config_response s c) = [Msg_ControlConfiguration sc] \<and>
      temperature_scale_celsius sc = (sp_temp_scale s = Celsius)"
  proof -
    let ?p = "raw_payload c"
    have bit: "(x OR 1) AND 1 \<noteq> 0 \<and> (x AND NOT 1) AND 1 = 0" for x :: u8
      by (rule all_u8 [of _ x]) (simp add: nibbles_def)
    define b where "b = (if sp_temp_scale s = Celsius then ?p ! 3 OR 1 else ?p ! 3 AND NOT 1)"
    obtain sc where "config_parse ((?p)[3 := b]) = Inr sc"
        "temperature_scale_celsius sc = (b AND 0x01 \<noteq> 0)"
      using assms by (simp add: config_parse_def)
    moreover have "(b AND 0x01 \<noteq> 0) = (sp_temp_scale s = Celsius)" using bit by (simp add: b_def)
    moreover have "generate_config_response s c = sim_frame (0x0A, 0xBF) (0x2E # (?p)[3 := b])"
      by (simp add: generate_config_response_def b_def Let_def)
    ultimately show ?thesis
      using assms by (simp add: received_sim_frame dispatch_frame_def handle_defs)
  qed
qed

theorem sim_responses_roundtrip_witness:
  "\<exists>e. received (generate_fault_log_response_for_entry fault_log_config_default [fault_log_config_default] 2) =
      [Msg_FaultLogResponse e] \<and> fault_count e = 0"
  using sim_responses_roundtrip [of spa_config_config_default filter_cycles_config_default
      fault_log_config_default "[fault_log_config_default]" 2 spa_state_default]
  by (simp add: spa_config_config_default_def)

end
