(* ===== verification/SimPhysics.thy ===== *)
theory SimPhysics
  imports SimState
begin

text \<open>
  The thermal model of the simulated spa, \<open>crates/launa-sim/src/spa_sim/physics.rs\<close>: one tick in the
  order of the code, over the \<open>f32\<close> of theory \<open>Float32\<close>. Decimal literals are rounded.
\<close>

definition HYSTERESIS_F :: f32 where
  "HYSTERESIS_F = F32_Fin (1 / 2)"

definition DEFAULT_HEATING_RATE_F :: f32 where
  "DEFAULT_HEATING_RATE_F = round_f32 (3 / 10)"

record PhysicsContext =
  pc_ambient_temp :: Temperature
  pc_pump_heat_contribution :: f32
  pc_physics_tick_count :: u64
  pc_physics_overshoot :: f32
  pc_heating_overshot :: bool
  pc_physics_noise_rng :: u64

definition f32_pos :: "f32 \<Rightarrow> bool" where
  "f32_pos x \<longleftrightarrow> f32_less (F32_Fin 0) x"

definition any_pump_on :: "SpaState \<Rightarrow> bool" where
  "any_pump_on s \<longleftrightarrow> list_ex (\<lambda>p. p \<noteq> Pump_Off) (sp_pumps s) \<or> sp_circ_pump s"

definition running_pump_count :: "SpaState \<Rightarrow> nat" where
  "running_pump_count s = length (filter (\<lambda>p. p \<noteq> Pump_Off) (sp_pumps s)) + (if sp_circ_pump s then 1 else 0)"

text \<open>One tick of heating towards the target: the new temperature, and whether the target is reached.\<close>

definition heat_step :: "f32 \<Rightarrow> f32 \<Rightarrow> f32" where
  "heat_step target current =
     (let delta = f32_max (f32_sub target current) (F32_Fin 0) in
      if f32_less (round_f32 (1 / 100)) delta then
        let proportional_rate = f32_mul DEFAULT_HEATING_RATE_F (f32_div delta (F32_Fin 24));
            base_rate = f32_max (round_f32 (1 / 5)) (f32_mul delta (round_f32 (1 / 100)));
            rate = f32_add proportional_rate base_rate
        in f32_min (f32_add current rate) target
      else current)"

text \<open>One tick of cooling towards the ambient temperature.\<close>

definition cool_step :: "f32 \<Rightarrow> f32 \<Rightarrow> f32" where
  "cool_step ambient current =
     (let delta = f32_max (f32_sub current ambient) (F32_Fin 0) in
      if f32_less (round_f32 (1 / 100)) delta then
        let rate = f32_mul (F32_Fin (1 / 4)) (f32_max (f32_div delta (F32_Fin 10)) (round_f32 (1 / 10)))
        in f32_max (f32_sub current rate) ambient
      else current)"

definition advance_clock :: "SpaState \<Rightarrow> SpaState" where
  "advance_clock s =
     (let s1 = s\<lparr>sp_minute := sp_minute s + 1\<rparr> in
      if sp_minute s1 \<ge> 60 then s1\<lparr>sp_minute := 0, sp_hour := (sp_hour s1 + 1) mod 24\<rparr> else s1)"

text \<open>
  The temperature after one tick, with the heater and the overshoot flag: \<open>heating\<close> is the heater's
  state after the interlock and the stop threshold.
\<close>

definition temperature_step ::
  "f32 \<Rightarrow> f32 \<Rightarrow> f32 \<Rightarrow> bool \<Rightarrow> bool \<Rightarrow> f32 \<Rightarrow> f32 \<times> bool \<times> bool" where
  "temperature_step overshoot effective_target ambient_f heating overshot current_f =
     (if heating then
        let c = heat_step effective_target current_f in
        if f32_le (f32_sub effective_target (round_f32 (1 / 100))) c then
          if f32_le c (f32_add effective_target (round_f32 (1 / 100)))
          then (effective_target, False, f32_pos overshoot \<or> overshot)
          else (c, False, overshot)
        else (c, True, overshot)
      else if f32_less ambient_f current_f then (cool_step ambient_f current_f, False, overshot)
      else (current_f, False, overshot))"

text \<open>Waste heat of the running pumps, and the decision to start heating.\<close>

definition waste_heat :: "f32 \<Rightarrow> nat \<Rightarrow> f32 \<Rightarrow> f32 \<Rightarrow> f32" where
  "waste_heat contribution running overshoot_target current_f =
     (if running > 0 \<and> f32_pos contribution then
        let heat_gain = f32_mul contribution (f32_of_nat running);
            upper_bound = f32_max overshoot_target (f32_add current_f heat_gain)
        in f32_min (f32_add current_f heat_gain) upper_bound
      else current_f)"

definition heater_control :: "bool \<Rightarrow> bool \<Rightarrow> bool \<Rightarrow> bool \<Rightarrow> bool \<times> bool" where
  "heater_control pump_on overshot heating below =
     (if pump_on then
        if overshot then (if below then (True, False) else (heating, overshot))
        else if \<not> heating \<and> below then (True, overshot)
        else (heating, overshot)
      else (heating, overshot))"

text \<open>The targets of a tick, all in Fahrenheit, and whether the heater runs in it.\<close>

definition hysteresis :: "PhysicsContext \<Rightarrow> f32" where
  "hysteresis ctx =
     (if f32_pos (pc_physics_overshoot ctx) then f32_div (pc_physics_overshoot ctx) (F32_Fin 2)
      else HYSTERESIS_F)"

definition overshoot_target :: "SpaState \<Rightarrow> PhysicsContext \<Rightarrow> f32" where
  "overshoot_target s ctx = f32_add (temp_to_fahrenheit (sp_set_temp s)) (pc_physics_overshoot ctx)"

definition upper_target :: "SpaState \<Rightarrow> PhysicsContext \<Rightarrow> f32" where
  "upper_target s ctx = f32_add (temp_to_fahrenheit (sp_set_temp s)) (hysteresis ctx)"

definition lower_target :: "SpaState \<Rightarrow> PhysicsContext \<Rightarrow> f32" where
  "lower_target s ctx = f32_sub (temp_to_fahrenheit (sp_set_temp s)) (hysteresis ctx)"

definition stop_threshold :: "SpaState \<Rightarrow> PhysicsContext \<Rightarrow> f32" where
  "stop_threshold s ctx =
     (if f32_pos (pc_physics_overshoot ctx) then overshoot_target s ctx else upper_target s ctx)"

definition heater_runs :: "SpaState \<Rightarrow> PhysicsContext \<Rightarrow> bool" where
  "heater_runs s ctx =
     (let heating = (if any_pump_on s then sp_is_heating s else False) in
      if heating \<and> f32_less (stop_threshold s ctx) (temp_to_fahrenheit (sp_current_temp s))
      then False else heating)"

text \<open>The temperature in Fahrenheit, the heater and the overshoot flag after one tick.\<close>

definition physics_values :: "SpaState \<Rightarrow> PhysicsContext \<Rightarrow> f32 \<times> bool \<times> bool" where
  "physics_values s ctx =
     (let current0 = temp_to_fahrenheit (sp_current_temp s);
          overshot0 = (if pc_heating_overshot ctx \<and>
              f32_less (f32_add (temp_to_fahrenheit (sp_set_temp s)) (round_f32 (1 / 100))) current0
            then False else pc_heating_overshot ctx);
          (current1, heating, overshot1) =
            temperature_step (pc_physics_overshoot ctx) (stop_threshold s ctx)
              (temp_to_fahrenheit (pc_ambient_temp ctx)) (heater_runs s ctx) overshot0 current0;
          current2 = waste_heat (pc_pump_heat_contribution ctx) (running_pump_count s)
            (overshoot_target s ctx) current1;
          (heating', overshot2) =
            heater_control (any_pump_on s) overshot1 heating (f32_less current2 (lower_target s ctx))
      in (current2, heating', overshot2))"

definition simulate_physics :: "SpaState \<Rightarrow> PhysicsContext \<Rightarrow> SpaState \<times> PhysicsContext" where
  "simulate_physics s ctx =
     (let (current_f, heating, overshot) = physics_values s ctx in
      (advance_clock (s\<lparr>sp_current_temp := temp_convert (temp_fahrenheit current_f) (sp_temp_scale s),
          sp_is_heating := heating\<rparr>),
       ctx\<lparr>pc_physics_tick_count := pc_physics_tick_count ctx + 1, pc_heating_overshot := overshot\<rparr>))"

definition next_physics_noise_rand :: "u64 \<Rightarrow> u64 \<times> f32" where
  "next_physics_noise_rand rng = (let r = lcg_next rng in (r, unit_f32 (i64_as_f64 r)))"

definition next_rand :: "u64 \<Rightarrow> u64 \<times> u64" where
  "next_rand rng = (let r = lcg_next rng in (r, r))"

section \<open>What one tick changes\<close>

lemma advance_clock_frame [simp]:
  "sp_current_temp (advance_clock s) = sp_current_temp s" "sp_set_temp (advance_clock s) = sp_set_temp s"
  "sp_set_temp_high (advance_clock s) = sp_set_temp_high s"
  "sp_set_temp_low (advance_clock s) = sp_set_temp_low s"
  "sp_pumps (advance_clock s) = sp_pumps s" "sp_lights (advance_clock s) = sp_lights s"
  "sp_circ_pump (advance_clock s) = sp_circ_pump s" "sp_temp_scale (advance_clock s) = sp_temp_scale s"
  "sp_temp_range (advance_clock s) = sp_temp_range s" "sp_hold (advance_clock s) = sp_hold s"
  "sp_heating_mode (advance_clock s) = sp_heating_mode s" "sp_blower (advance_clock s) = sp_blower s"
  "sp_is_heating (advance_clock s) = sp_is_heating s"
  by (simp_all add: advance_clock_def Let_def)

lemma simulate_physics_shape:
  obtains c h where "fst (simulate_physics s ctx) =
    advance_clock (s\<lparr>sp_current_temp := temp_convert (temp_fahrenheit c) (sp_temp_scale s), sp_is_heating := h\<rparr>)"
    and "(c, h) = (fst (physics_values s ctx), fst (snd (physics_values s ctx)))"
  by (cases "physics_values s ctx") (simp add: simulate_physics_def)

lemma simulate_physics_frame [simp]:
  "sp_set_temp (fst (simulate_physics s ctx)) = sp_set_temp s"
  "sp_set_temp_high (fst (simulate_physics s ctx)) = sp_set_temp_high s"
  "sp_set_temp_low (fst (simulate_physics s ctx)) = sp_set_temp_low s"
  "sp_pumps (fst (simulate_physics s ctx)) = sp_pumps s"
  "sp_lights (fst (simulate_physics s ctx)) = sp_lights s"
  "sp_circ_pump (fst (simulate_physics s ctx)) = sp_circ_pump s"
  "sp_temp_scale (fst (simulate_physics s ctx)) = sp_temp_scale s"
  "sp_temp_range (fst (simulate_physics s ctx)) = sp_temp_range s"
  "sp_hold (fst (simulate_physics s ctx)) = sp_hold s"
  "sp_heating_mode (fst (simulate_physics s ctx)) = sp_heating_mode s"
  "sp_blower (fst (simulate_physics s ctx)) = sp_blower s"
  by (simp_all add: simulate_physics_def split: prod.splits)

lemma f32_less_irrefl [simp]: "\<not> f32_less x x"
  by (cases x) simp_all

lemma f32_min_upper: "\<not> f32_less t (f32_min x t)"
  by (simp add: f32_min_def)

lemma f32_max_lower: "\<not> f32_less (f32_max x a) a"
  by (simp add: f32_max_def)

text \<open>The heater does not overshoot its target, and cooling stops at the ambient temperature.\<close>

lemma heat_step_upper: "\<not> f32_less target c \<Longrightarrow> \<not> f32_less target (heat_step target c)"
  by (simp add: heat_step_def Let_def f32_min_upper)

lemma cool_step_lower: "f32_less ambient c \<Longrightarrow> \<not> f32_less (cool_step ambient c) ambient"
proof -
  have "f32_less ambient c \<Longrightarrow> \<not> f32_less c ambient"
    by (cases ambient; cases c) auto
  then show "f32_less ambient c \<Longrightarrow> \<not> f32_less (cool_step ambient c) ambient"
    by (auto simp: cool_step_def Let_def f32_max_lower)
qed

lemma temperature_step_bounds:
  "heating \<Longrightarrow> \<not> f32_less t c \<Longrightarrow> \<not> f32_less t (fst (temperature_step ov t amb heating os c))"
  "\<not> heating \<Longrightarrow> f32_less amb c \<Longrightarrow> \<not> f32_less (fst (temperature_step ov t amb heating os c)) amb"
  using heat_step_upper [of t c] cool_step_lower [of amb c]
  by (auto simp: temperature_step_def Let_def)

lemma physics_values_interlock: "\<not> any_pump_on s \<Longrightarrow> \<not> fst (snd (physics_values s ctx))"
  by (auto simp: physics_values_def heater_runs_def heater_control_def temperature_step_def Let_def
      split: prod.splits if_splits)

lemma physics_values_bounds:
  assumes "pc_pump_heat_contribution ctx = F32_Fin 0"
  shows "heater_runs s ctx \<Longrightarrow>
      \<not> f32_less (stop_threshold s ctx) (fst (physics_values s ctx))"
    and "\<not> heater_runs s ctx \<Longrightarrow>
      f32_less (temp_to_fahrenheit (pc_ambient_temp ctx)) (temp_to_fahrenheit (sp_current_temp s)) \<Longrightarrow>
      \<not> f32_less (fst (physics_values s ctx)) (temp_to_fahrenheit (pc_ambient_temp ctx))"
proof -
  have v: "\<exists>os. fst (physics_values s ctx) =
      fst (temperature_step (pc_physics_overshoot ctx) (stop_threshold s ctx)
        (temp_to_fahrenheit (pc_ambient_temp ctx)) (heater_runs s ctx) os
        (temp_to_fahrenheit (sp_current_temp s)))"
    by (rule exI) (simp add: physics_values_def Let_def waste_heat_def f32_pos_def assms split_def)
  have t: "heater_runs s ctx \<Longrightarrow> \<not> f32_less (stop_threshold s ctx) (temp_to_fahrenheit (sp_current_temp s))"
    by (auto simp: heater_runs_def split: if_splits)
  show "heater_runs s ctx \<Longrightarrow> \<not> f32_less (stop_threshold s ctx) (fst (physics_values s ctx))"
    using v t temperature_step_bounds(1) by metis
  show "\<not> heater_runs s ctx \<Longrightarrow>
      f32_less (temp_to_fahrenheit (pc_ambient_temp ctx)) (temp_to_fahrenheit (sp_current_temp s)) \<Longrightarrow>
      \<not> f32_less (fst (physics_values s ctx)) (temp_to_fahrenheit (pc_ambient_temp ctx))"
    using v temperature_step_bounds(2) by metis
qed

lemma advance_clock_time:
  assumes "sp_hour s < 24" and "sp_minute s < 60"
  shows "60 * unat (sp_hour (advance_clock s)) + unat (sp_minute (advance_clock s)) =
      (60 * unat (sp_hour s) + unat (sp_minute s) + 1) mod 1440"
    and "sp_hour (advance_clock s) < 24" and "sp_minute (advance_clock s) < 60"
proof -
  have h: "unat (sp_hour s) < 24" and m: "unat (sp_minute s) < 60"
    using assms by (simp_all add: word_less_nat_alt)
  have "unat (sp_minute s + 1) = unat (sp_minute s) + 1" "unat (sp_hour s + 1) = unat (sp_hour s) + 1"
    using h m by (simp_all add: unat_word_ariths)
  moreover have "unat ((sp_hour s + 1) mod 24) = (unat (sp_hour s) + 1) mod 24"
    using calculation(2) by (simp add: unat_mod)
  ultimately have c: "unat (sp_hour (advance_clock s)) =
        (if unat (sp_minute s) = 59 then (unat (sp_hour s) + 1) mod 24 else unat (sp_hour s))"
      "unat (sp_minute (advance_clock s)) = (unat (sp_minute s) + 1) mod 60"
    using m by (auto simp: advance_clock_def Let_def word_le_nat_alt dest: le_neq_implies_less)
  show "60 * unat (sp_hour (advance_clock s)) + unat (sp_minute (advance_clock s)) =
      (60 * unat (sp_hour s) + unat (sp_minute s) + 1) mod 1440"
  proof (cases "unat (sp_minute s) = 59")
    case True
    then show ?thesis using h by (cases "unat (sp_hour s) = 23") (simp_all add: c)
  qed (use h m in \<open>simp add: c\<close>)
  show "sp_hour (advance_clock s) < 24" "sp_minute (advance_clock s) < 60"
    using h by (simp_all add: word_less_nat_alt c)
qed

section \<open>Properties\<close>

text \<open>
  The simulated spa heats only with a pump running. Whatever state a tick starts from,
  after it the heater is on only if a pump or the circulation pump is; the clock has advanced by one
  minute of the day; and without waste heat a tick in which the heater runs ends no higher than the
  temperature at which the heater stops, and one in which the water cools no lower than the ambient
  temperature (the water being measured in Fahrenheit).
\<close>

theorem sim_physics_safe:
  assumes "sp_hour s < 24" and "sp_minute s < 60"
  shows "let s' = fst (simulate_physics s ctx) in
    (sp_is_heating s' \<longrightarrow> any_pump_on s') \<and>
    sp_hour s' < 24 \<and> sp_minute s' < 60 \<and>
    60 * unat (sp_hour s') + unat (sp_minute s') =
      (60 * unat (sp_hour s) + unat (sp_minute s) + 1) mod 1440 \<and>
    (pc_pump_heat_contribution ctx = F32_Fin 0 \<and> sp_temp_scale s = Fahrenheit \<longrightarrow>
      (heater_runs s ctx \<longrightarrow>
        \<not> f32_less (stop_threshold s ctx) (temp_to_fahrenheit (sp_current_temp s'))) \<and>
      (\<not> heater_runs s ctx \<and>
       f32_less (temp_to_fahrenheit (pc_ambient_temp ctx)) (temp_to_fahrenheit (sp_current_temp s)) \<longrightarrow>
        \<not> f32_less (temp_to_fahrenheit (sp_current_temp s')) (temp_to_fahrenheit (pc_ambient_temp ctx))))"
proof -
  obtain c h where s': "fst (simulate_physics s ctx) =
      advance_clock (s\<lparr>sp_current_temp := temp_convert (temp_fahrenheit c) (sp_temp_scale s), sp_is_heating := h\<rparr>)"
    and ch: "(c, h) = (fst (physics_values s ctx), fst (snd (physics_values s ctx)))"
    by (rule simulate_physics_shape)
  let ?t = "s\<lparr>sp_current_temp := temp_convert (temp_fahrenheit c) (sp_temp_scale s), sp_is_heating := h\<rparr>"
  have pump: "h \<longrightarrow> any_pump_on s" using physics_values_interlock [of s ctx] ch by auto
  have clock: "sp_hour (advance_clock ?t) < 24" "sp_minute (advance_clock ?t) < 60"
      "60 * unat (sp_hour (advance_clock ?t)) + unat (sp_minute (advance_clock ?t)) =
        (60 * unat (sp_hour s) + unat (sp_minute s) + 1) mod 1440"
    using advance_clock_time [of ?t] assms by simp_all
  have temp: "temp_to_fahrenheit (temp_convert (temp_fahrenheit c) (sp_temp_scale s)) = c"
    if "sp_temp_scale s = Fahrenheit"
    using that by (simp add: temp_convert_def temp_fahrenheit_def temp_to_fahrenheit_def)
  show ?thesis
    unfolding s' Let_def
    using pump clock temp physics_values_bounds [of ctx s] ch by (simp add: any_pump_on_def)
qed

theorem sim_physics_safe_witness:
  "\<not> sp_is_heating (fst (simulate_physics (spa_state_default\<lparr>sp_circ_pump := False, sp_is_heating := True\<rparr>)
     \<lparr>pc_ambient_temp = temp_celsius (F32_Fin 21), pc_pump_heat_contribution = F32_Fin 0,
      pc_physics_tick_count = 0, pc_physics_overshoot = F32_Fin 0, pc_heating_overshot = False,
      pc_physics_noise_rng = 0\<rparr>))"
  (is "\<not> sp_is_heating (fst (simulate_physics ?s ?ctx))")
proof -
  have "sp_is_heating (fst (simulate_physics ?s ?ctx)) \<longrightarrow> any_pump_on (fst (simulate_physics ?s ?ctx))"
    using sim_physics_safe [of ?s ?ctx, unfolded Let_def] by (simp add: spa_state_default_def)
  then show ?thesis by (simp add: any_pump_on_def) (simp add: spa_state_default_def list_ex_iff)
qed

end
