(* ===== verification/SpaSim.thy ===== *)
theory SpaSim
  imports SimFrames SimPhysics "HOL-Library.Monad_Syntax"
begin

text \<open>
  The simulated spa of \<open>crates/launa-sim/src/spa_sim/mod.rs\<close>: registration, commands, the tick. A
  deferred command is a closure over the spa's state in the code and a function here. Counters are
  64-bit words. What panics (a frame that does not encode, a division by zero) is \<open>None\<close>.
\<close>

unbundle bit_operations_syntax

record SpaSim =
  sim_state :: SpaState
  sim_client_id :: "u8 option"
  next_client_id :: u8
  tick_count :: u64
  sim_registered :: bool
  pending_client_hash :: "hash option"
  error_injection :: ErrorInjection
  fault_manager :: FaultManager
  frame_splitter :: FrameSplitter
  pending_events :: "SpaEvent list"
  jitter_padding_bytes :: u64
  command_latency_ticks :: u64
  pending_commands :: "(u64 \<times> (SpaState \<Rightarrow> SpaState)) list"
  ready_interval_range :: "u64 \<times> u64"
  ready_countdown :: u64
  ready_rng_state :: u64
  report_unknown_temp :: bool
  sensor_noise_jitter :: f32
  ambient_temp :: Temperature
  pump_heat_contribution :: f32
  physics_unknown_temp_ticks :: u64
  physics_tick_count :: u64
  physics_overshoot :: f32
  physics_noise_amplitude :: f32
  physics_noise_rng :: u64
  heating_overshot :: bool
  priming_remaining_ticks :: u64
  filter_cycles_config :: FilterCyclesConfig
  information_config :: InformationConfig
  spa_config_config :: SpaConfigConfig
  require_registration :: bool
  rejected_unregistered_frames :: u64
  registration_query_tick :: "u64 option"
  registration_window_ticks :: "u64 option"
  rejected_registration_responses :: u64

definition sim_new :: SpaSim where
  "sim_new = \<lparr>
     sim_state = spa_state_default, sim_client_id = None, next_client_id = 0x11, tick_count = 0,
     sim_registered = False, pending_client_hash = None, error_injection = error_injection_new,
     fault_manager = fault_manager_new, frame_splitter = frame_splitter_new, pending_events = [],
     jitter_padding_bytes = 0, command_latency_ticks = 0, pending_commands = [],
     ready_interval_range = (1, 1), ready_countdown = 1, ready_rng_state = 0,
     report_unknown_temp = False, sensor_noise_jitter = F32_Fin 0,
     ambient_temp = temp_celsius (F32_Fin 21), pump_heat_contribution = F32_Fin 0,
     physics_unknown_temp_ticks = 0, physics_tick_count = 0, physics_overshoot = F32_Fin 0,
     physics_noise_amplitude = F32_Fin 0, physics_noise_rng = 0xDEADBEEFCAFE1234,
     heating_overshot = False, priming_remaining_ticks = 0,
     filter_cycles_config = filter_cycles_config_default,
     information_config = information_config_default,
     spa_config_config = spa_config_config_default, require_registration = False,
     rejected_unregistered_frames = 0, registration_query_tick = None,
     registration_window_ticks = None, rejected_registration_responses = 0\<rparr>"

section \<open>Configuration of the simulation\<close>

definition set_command_success_rate :: "SpaSim \<Rightarrow> f32 \<Rightarrow> SpaSim" where
  "set_command_success_rate m rate =
     m\<lparr>error_injection := ei_set_command_success_rate (error_injection m) rate\<rparr>"

definition simulate_bus_silence :: "SpaSim \<Rightarrow> u64 \<Rightarrow> SpaSim" where
  "simulate_bus_silence m ticks = m\<lparr>error_injection := ei_simulate_bus_silence (error_injection m) ticks\<rparr>"

definition schedule_event :: "SpaSim \<Rightarrow> u64 \<Rightarrow> SpaEventType \<Rightarrow> SpaSim" where
  "schedule_event m at_tick e =
     m\<lparr>pending_events := pending_events m @ [\<lparr>event_tick = at_tick, event_type = e\<rparr>]\<rparr>"

definition simulate_filter_cycle_start :: "SpaSim \<Rightarrow> nat \<Rightarrow> u64 \<Rightarrow> SpaSim" where
  "simulate_filter_cycle_start m pump at_tick = schedule_event m at_tick (FilterCycleStart pump)"

definition inject_corrupt_frame :: "SpaSim \<Rightarrow> SpaSim" where
  "inject_corrupt_frame m = m\<lparr>error_injection := ei_inject_corrupt_frame (error_injection m)\<rparr>"

definition inject_duplicate_frame :: "SpaSim \<Rightarrow> SpaSim" where
  "inject_duplicate_frame m = m\<lparr>error_injection := ei_inject_duplicate_frame (error_injection m)\<rparr>"

definition inject_partial_frame_at :: "SpaSim \<Rightarrow> nat \<Rightarrow> SpaSim" where
  "inject_partial_frame_at m p = m\<lparr>frame_splitter := fs_inject_partial_frame_at (frame_splitter m) p\<rparr>"

definition simulate_spa_reboot :: "SpaSim \<Rightarrow> SpaSim" where
  "simulate_spa_reboot m =
     m\<lparr>sim_registered := False, sim_client_id := None, pending_client_hash := None,
       registration_query_tick := None\<rparr>"

definition force_set_client :: "SpaSim \<Rightarrow> u8 \<Rightarrow> SpaSim" where
  "force_set_client m channel = m\<lparr>sim_client_id := Some channel, sim_registered := True\<rparr>"

definition simulate_fault_state :: "SpaSim \<Rightarrow> FaultCode \<Rightarrow> SpaSim" where
  "simulate_fault_state m code = m\<lparr>fault_manager := fm_simulate_fault_state (fault_manager m) code\<rparr>"

definition clear_fault_state :: "SpaSim \<Rightarrow> SpaSim" where
  "clear_fault_state m = m\<lparr>fault_manager := fm_clear_fault_state (fault_manager m)\<rparr>"

definition simulate_transient_fault :: "SpaSim \<Rightarrow> FaultCode \<Rightarrow> u64 \<Rightarrow> SpaSim" where
  "simulate_transient_fault m code ticks =
     m\<lparr>fault_manager := fm_simulate_transient_fault (fault_manager m) code ticks\<rparr>"

definition simulate_priming_mode :: "SpaSim \<Rightarrow> u64 \<Rightarrow> SpaSim" where
  "simulate_priming_mode m ticks = m\<lparr>priming_remaining_ticks := ticks\<rparr>"

definition clear_priming_mode :: "SpaSim \<Rightarrow> SpaSim" where
  "clear_priming_mode m = m\<lparr>priming_remaining_ticks := 0\<rparr>"

definition simulate_sensor_noise :: "SpaSim \<Rightarrow> f32 \<Rightarrow> SpaSim" where
  "simulate_sensor_noise m jitter = m\<lparr>sensor_noise_jitter := f32_abs jitter\<rparr>"

definition simulate_unknown_temp :: "SpaSim \<Rightarrow> SpaSim" where
  "simulate_unknown_temp m = m\<lparr>report_unknown_temp := True\<rparr>"

definition clear_unknown_temp :: "SpaSim \<Rightarrow> SpaSim" where
  "clear_unknown_temp m = m\<lparr>report_unknown_temp := False\<rparr>"

definition set_physics_unknown_temp_ticks :: "SpaSim \<Rightarrow> u64 \<Rightarrow> SpaSim" where
  "set_physics_unknown_temp_ticks m ticks = m\<lparr>physics_unknown_temp_ticks := ticks\<rparr>"

definition set_physics_overshoot :: "SpaSim \<Rightarrow> Temperature \<Rightarrow> SpaSim" where
  "set_physics_overshoot m t = m\<lparr>physics_overshoot := f32_max (temp_to_fahrenheit t) (F32_Fin 0)\<rparr>"

definition set_physics_noise_amplitude :: "SpaSim \<Rightarrow> f32 \<Rightarrow> SpaSim" where
  "set_physics_noise_amplitude m a = m\<lparr>physics_noise_amplitude := f32_max a (F32_Fin 0)\<rparr>"

definition set_ambient_temp :: "SpaSim \<Rightarrow> Temperature \<Rightarrow> SpaSim" where
  "set_ambient_temp m t = m\<lparr>ambient_temp := t\<rparr>"

definition set_pump_heat_contribution :: "SpaSim \<Rightarrow> Temperature \<Rightarrow> SpaSim" where
  "set_pump_heat_contribution m t =
     m\<lparr>pump_heat_contribution := f32_max (temp_to_fahrenheit t) (F32_Fin 0)\<rparr>"

definition set_jitter_padding_bytes :: "SpaSim \<Rightarrow> u64 \<Rightarrow> SpaSim" where
  "set_jitter_padding_bytes m n = m\<lparr>jitter_padding_bytes := n\<rparr>"

definition set_command_latency_ticks :: "SpaSim \<Rightarrow> u64 \<Rightarrow> SpaSim" where
  "set_command_latency_ticks m n = m\<lparr>command_latency_ticks := n\<rparr>"

definition set_ready_interval_range :: "SpaSim \<Rightarrow> u64 \<Rightarrow> u64 \<Rightarrow> SpaSim" where
  "set_ready_interval_range m lo hi = m\<lparr>ready_interval_range := (max lo 1, max hi lo)\<rparr>"

definition set_fault_log_config :: "SpaSim \<Rightarrow> FaultLogConfig \<Rightarrow> SpaSim" where
  "set_fault_log_config m c = m\<lparr>fault_manager := fm_set_fault_log_config (fault_manager m) c\<rparr>"

definition set_fault_log_entries :: "SpaSim \<Rightarrow> FaultLogConfig list \<Rightarrow> SpaSim" where
  "set_fault_log_entries m es = m\<lparr>fault_manager := fm_set_fault_log_entries (fault_manager m) es\<rparr>"

definition set_filter_cycles_config :: "SpaSim \<Rightarrow> FilterCyclesConfig \<Rightarrow> SpaSim" where
  "set_filter_cycles_config m c = m\<lparr>filter_cycles_config := c\<rparr>"

definition set_information_config :: "SpaSim \<Rightarrow> InformationConfig \<Rightarrow> SpaSim" where
  "set_information_config m c = m\<lparr>information_config := c\<rparr>"

definition set_spa_config_config :: "SpaSim \<Rightarrow> SpaConfigConfig \<Rightarrow> SpaSim" where
  "set_spa_config_config m c = m\<lparr>spa_config_config := c\<rparr>"

definition set_require_registration :: "SpaSim \<Rightarrow> bool \<Rightarrow> SpaSim" where
  "set_require_registration m b = m\<lparr>require_registration := b\<rparr>"

definition set_registration_window :: "SpaSim \<Rightarrow> u64 option \<Rightarrow> SpaSim" where
  "set_registration_window m w = m\<lparr>registration_window_ticks := w\<rparr>"

section \<open>Random numbers and countdowns\<close>

definition next_ready_rand :: "SpaSim \<Rightarrow> SpaSim \<times> u64" where
  "next_ready_rand m = (let (r, v) = next_rand (ready_rng_state m) in (m\<lparr>ready_rng_state := r\<rparr>, v))"

definition sim_next_physics_noise_rand :: "SpaSim \<Rightarrow> SpaSim \<times> f32" where
  "sim_next_physics_noise_rand m =
     (let (r, v) = next_physics_noise_rand (physics_noise_rng m) in (m\<lparr>physics_noise_rng := r\<rparr>, v))"

definition jitter_padding_len :: "SpaSim \<Rightarrow> SpaSim \<times> nat" where
  "jitter_padding_len m =
     (if jitter_padding_bytes m = 0 then (m, 0)
      else let (m1, rand_val) = next_ready_rand m in (m1, unat (rand_val mod jitter_padding_bytes m1)))"

text \<open>The remainder by zero, when the range is (1, 0), panics.\<close>

definition next_ready_interval :: "SpaSim \<Rightarrow> (SpaSim \<times> u64) option" where
  "next_ready_interval m =
     (let (lo, hi) = ready_interval_range m in
      if lo = hi then Some (m, lo)
      else let (m1, rand_val) = next_ready_rand m in
        if hi - lo + 1 = 0 then None else Some (m1, lo + rand_val mod (hi - lo + 1)))"

definition tick_transient_fault_countdown :: "SpaSim \<Rightarrow> SpaSim" where
  "tick_transient_fault_countdown m =
     m\<lparr>fault_manager := fm_tick_transient_fault_countdown (fault_manager m)\<rparr>"

definition tick_priming_countdown :: "SpaSim \<Rightarrow> SpaSim" where
  "tick_priming_countdown m =
     (if priming_remaining_ticks m > 0
      then m\<lparr>priming_remaining_ticks := priming_remaining_ticks m - 1\<rparr> else m)"

section \<open>What the spa sends\<close>

definition sim_generate_ready_frame :: "SpaSim \<Rightarrow> u8 list option" where
  "sim_generate_ready_frame m =
     generate_ready_frame (case sim_client_id m of Some c \<Rightarrow> c | None \<Rightarrow> 0x10)"

definition physics_noise_value :: "SpaSim \<Rightarrow> SpaSim \<times> f32" where
  "physics_noise_value m =
     (if f32_pos (physics_noise_amplitude m) then
        let (m', v) = sim_next_physics_noise_rand m in (m', f32_mul v (physics_noise_amplitude m'))
      else (m, F32_Fin 0))"

definition ready_rand_value :: "SpaSim \<Rightarrow> SpaSim \<times> rat" where
  "ready_rand_value m =
     (if f32_pos (sensor_noise_jitter m) then let (m', v) = next_ready_rand m in (m', i64_as_f64 v)
      else (m, 0))"

definition sim_generate_status_frame :: "SpaSim \<Rightarrow> (SpaSim \<times> u8 list) option" where
  "sim_generate_status_frame m =
     (let (m1, nv) = physics_noise_value m;
          (m2, rv) = ready_rand_value m1;
          (ei, inject_corrupt) = ei_take_corrupt_next (error_injection m2);
          m3 = m2\<lparr>error_injection := ei\<rparr>
      in map_option (Pair m3)
        (generate_status_frame (sim_state m3) (priming_remaining_ticks m3)
          (fault_active (fault_manager m3)) (report_unknown_temp m3) (sensor_noise_jitter m3)
          (physics_unknown_temp_ticks m3) (physics_tick_count m3) (physics_noise_amplitude m3)
          nv rv inject_corrupt))"

definition maybe_emit_ready :: "SpaSim \<Rightarrow> u8 list \<Rightarrow> (SpaSim \<times> u8 list) option" where
  "maybe_emit_ready m output =
     (let m1 = (if ready_countdown m > 0 then m\<lparr>ready_countdown := ready_countdown m - 1\<rparr> else m) in
      if ready_countdown m1 = 0 then do {
        ready \<leftarrow> sim_generate_ready_frame m1;
        (m2, k) \<leftarrow> next_ready_interval m1;
        Some (m2\<lparr>ready_countdown := k\<rparr>, output @ ready)
      } else Some (m1, output))"

section \<open>One tick\<close>

text \<open>The loops over the deferred commands and over the scheduled events.\<close>

fun process_deferred ::
  "(u64 \<times> (SpaState \<Rightarrow> SpaState)) list \<Rightarrow> SpaState \<Rightarrow> (u64 \<times> (SpaState \<Rightarrow> SpaState)) list \<times> SpaState" where
  "process_deferred [] s = ([], s)"
| "process_deferred ((k, f) # cs) s =
     (if k - 1 = 0 then process_deferred cs (f s)
      else case process_deferred cs s of (cs', s') \<Rightarrow> ((k - 1, f) # cs', s'))"

definition process_pending_commands :: "SpaSim \<Rightarrow> SpaSim" where
  "process_pending_commands m =
     (let (cs, s) = process_deferred (pending_commands m) (sim_state m) in
      m\<lparr>pending_commands := cs, sim_state := s\<rparr>)"

definition apply_event :: "SpaEventType \<Rightarrow> SpaState \<Rightarrow> SpaState" where
  "apply_event e s =
     (case e of FilterCycleStart i \<Rightarrow>
        if i < 6 \<and> sp_pumps s ! i = Pump_Off then s\<lparr>sp_pumps := (sp_pumps s)[i := Pump_Low]\<rparr> else s)"

fun process_events :: "u64 \<Rightarrow> SpaEvent list \<Rightarrow> SpaState \<Rightarrow> SpaEvent list \<times> SpaState" where
  "process_events now [] s = ([], s)"
| "process_events now (e # es) s =
     (if event_tick e \<le> now then process_events now es (apply_event (event_type e) s)
      else case process_events now es s of (es', s') \<Rightarrow> (e # es', s'))"

definition process_pending_events :: "SpaSim \<Rightarrow> SpaSim" where
  "process_pending_events m =
     (let (es, s) = process_events (tick_count m) (pending_events m) (sim_state m) in
      m\<lparr>pending_events := es, sim_state := s\<rparr>)"

definition sim_simulate_physics :: "SpaSim \<Rightarrow> SpaSim" where
  "sim_simulate_physics m =
     (let ctx = \<lparr>pc_ambient_temp = ambient_temp m,
            pc_pump_heat_contribution = pump_heat_contribution m,
            pc_physics_tick_count = physics_tick_count m,
            pc_physics_overshoot = physics_overshoot m,
            pc_heating_overshot = heating_overshot m,
            pc_physics_noise_rng = physics_noise_rng m\<rparr>;
          (s, ctx') = simulate_physics (sim_state m) ctx
      in m\<lparr>sim_state := s, physics_tick_count := pc_physics_tick_count ctx',
           heating_overshot := pc_heating_overshot ctx',
           physics_noise_rng := pc_physics_noise_rng ctx'\<rparr>)"

text \<open>The end of a tick: the status frame, whole, twice or split, and the ready frame.\<close>

definition emit_status :: "SpaSim \<Rightarrow> u8 list \<Rightarrow> u8 list \<Rightarrow> (SpaSim \<times> u8 list) option" where
  "emit_status m output status_bytes =
     (let (fs, point) = fs_take_split_point (frame_splitter m); m1 = m\<lparr>frame_splitter := fs\<rparr> in
      case point of
        Some p \<Rightarrow>
          if p = 0 then
            Some (m1\<lparr>frame_splitter := fs_set_remainder (frame_splitter m1) []\<rparr>, output @ status_bytes)
          else if p \<ge> length status_bytes then maybe_emit_ready m1 (output @ status_bytes)
          else Some (m1\<lparr>frame_splitter := fs_set_remainder (frame_splitter m1) (drop p status_bytes)\<rparr>,
                     output @ take p status_bytes)
      | None \<Rightarrow>
          let (ei, dup) = ei_take_duplicate_next (error_injection m1); m2 = m1\<lparr>error_injection := ei\<rparr> in
          maybe_emit_ready m2 (output @ status_bytes @ (if dup then status_bytes else [])))"

text \<open>The tick in which the rest of a split frame is due, and the ordinary one.\<close>

definition tick_remainder :: "SpaSim \<Rightarrow> u8 list \<Rightarrow> (SpaSim \<times> u8 list) option" where
  "tick_remainder m rest = do {
     ready \<leftarrow> sim_generate_ready_frame m;
     (m1, k) \<leftarrow> next_ready_interval m;
     Some (tick_priming_countdown (tick_transient_fault_countdown (m1\<lparr>ready_countdown := k\<rparr>)), rest @ ready)
   }"

definition emit_query :: "SpaSim \<Rightarrow> (SpaSim \<times> u8 list) option" where
  "emit_query m =
     (if \<not> sim_registered m then do {
        query \<leftarrow> generate_registration_query;
        Some (m\<lparr>registration_query_tick := Some (tick_count m)\<rparr>, query)
      } else Some (m, []))"

definition tick_ordinary :: "SpaSim \<Rightarrow> (SpaSim \<times> u8 list) option" where
  "tick_ordinary m = do {
     (m1, query) \<leftarrow> emit_query m;
     let (m2, padding_len) = jitter_padding_len (sim_simulate_physics (process_pending_events m1));
     (m3, status_bytes) \<leftarrow> sim_generate_status_frame m2;
     emit_status (tick_priming_countdown (tick_transient_fault_countdown m3))
       (query @ replicate padding_len 0x00) status_bytes
   }"

definition sim_tick :: "SpaSim \<Rightarrow> (SpaSim \<times> u8 list) option" where
  "sim_tick m =
     (let m1 = process_pending_commands (m\<lparr>tick_count := tick_count m + 1\<rparr>);
          (ei, silent) = ei_tick_bus_silence (error_injection m1);
          m2 = m1\<lparr>error_injection := ei\<rparr> in
      if silent then Some (tick_priming_countdown (tick_transient_fault_countdown m2), [])
      else
        let (fs, remainder) = fs_take_remainder (frame_splitter m2); m3 = m2\<lparr>frame_splitter := fs\<rparr> in
        case remainder of
          Some rest \<Rightarrow> tick_remainder m3 rest
        | None \<Rightarrow> tick_ordinary m3)"

section \<open>What the spa receives\<close>

definition should_accept_command :: "SpaSim \<Rightarrow> SpaSim \<times> bool" where
  "should_accept_command m =
     (let (e, b) = ei_should_accept_command (error_injection m) in (m\<lparr>error_injection := e\<rparr>, b))"

text \<open>A change of the state, now or after the command latency.\<close>

definition apply_or_defer :: "SpaSim \<Rightarrow> (SpaState \<Rightarrow> SpaState) \<Rightarrow> SpaSim" where
  "apply_or_defer m f =
     (if command_latency_ticks m = 0 then m\<lparr>sim_state := f (sim_state m)\<rparr>
      else m\<lparr>pending_commands := pending_commands m @ [(command_latency_ticks m, f)]\<rparr>)"

text \<open>The result is \<open>None\<close> for a panic, and holds the response, if there is one.\<close>

definition process_command :: "SpaSim \<Rightarrow> u8 list \<Rightarrow> (SpaSim \<times> u8 list option) option" where
  "process_command m p =
     (if p = [] then Some (m, None)
      else if require_registration m \<and> \<not> sim_registered m then
        Some (m\<lparr>rejected_unregistered_frames := rejected_unregistered_frames m + 1\<rparr>, None)
      else if p ! 0 = 0x04 then
        map_option (\<lambda>r. (m, Some r)) (generate_config_response (sim_state m) (spa_config_config m))
      else if p ! 0 = 0x11 then
        if length p \<ge> 2 then
          let (m1, ok) = should_accept_command m in
          Some (if ok then apply_or_defer m1 (\<lambda>s. apply_toggle_by_code s (p ! 1)) else m1, None)
        else Some (m, None)
      else if p ! 0 = 0x20 then
        if length p \<ge> 2 then
          let (m1, ok) = should_accept_command m; scale = sp_temp_scale (sim_state m1) in
          Some (if ok then apply_or_defer m1 (\<lambda>s. set_target_temp s (temp_from_wire (p ! 1) scale)) else m1, None)
        else Some (m, None)
      else if p ! 0 = 0x22 then
        if length p \<ge> 2 then
          if p ! 1 = 0x01 then
            map_option (\<lambda>r. (m, Some r)) (generate_filter_cycles_response (filter_cycles_config m))
          else if p ! 1 = 0x02 then
            map_option (\<lambda>r. (m, Some r)) (generate_information_response (information_config m))
          else if p ! 1 = 0x20 then
            map_option (\<lambda>r. (m, Some r)) (generate_fault_log_response (fault_log_config (fault_manager m)))
          else Some (m, None)
        else Some (m, None)
      else Some (m, None))"

definition assign_channel :: "SpaSim \<Rightarrow> hash \<Rightarrow> SpaSim \<times> u8" where
  "assign_channel m h =
     (let previous_hash = pending_client_hash m;
          (m1, cid) = (case sim_client_id m of
              Some c \<Rightarrow> if sim_registered m \<and> previous_hash = Some h then (m, c)
                else (m\<lparr>next_client_id := (if next_client_id m \<ge> 0x2F then 0x11 else next_client_id m + 1)\<rparr>,
                      next_client_id m)
            | None \<Rightarrow> (m\<lparr>next_client_id := (if next_client_id m \<ge> 0x2F then 0x11 else next_client_id m + 1)\<rparr>,
                      next_client_id m))
      in (m1\<lparr>pending_client_hash := Some h, registration_query_tick := None\<rparr>, cid))"

definition outside_window :: "SpaSim \<Rightarrow> bool" where
  "outside_window m =
     (case (registration_window_ticks m, registration_query_tick m) of
        (Some window_ticks, Some query_tick) \<Rightarrow> sat_sub (tick_count m) query_tick > window_ticks
      | _ \<Rightarrow> False)"

definition process_registration :: "SpaSim \<Rightarrow> u8 list \<Rightarrow> (SpaSim \<times> u8 list option) option" where
  "process_registration m p =
     (if p = [] then Some (m, None)
      else if p ! 0 = 0x01 then
        if outside_window m then
          Some (m\<lparr>rejected_registration_responses := rejected_registration_responses m + 1\<rparr>, None)
        else
          let h = (if length p \<ge> 4 then (p ! 2, p ! 3) else (0x00, 0x00)); (m1, cid) = assign_channel m h in
          map_option (\<lambda>r. (m1, Some r)) (generate_client_id_assignment cid h)
      else if p ! 0 = 0x04 then
        if length p \<ge> 2 then
          let channel = p ! 1; h = (if length p \<ge> 4 then (p ! 2, p ! 3) else (0x00, 0x00)) in
          map_option (\<lambda>r. (m\<lparr>sim_client_id := Some channel, sim_registered := True,
                              pending_client_hash := Some h\<rparr>, Some r))
            (generate_existing_client_response channel h)
        else Some (m, None)
      else Some (m, None))"

definition sim_process_frame :: "SpaSim \<Rightarrow> frame \<Rightarrow> (SpaSim \<times> u8 list option) option" where
  "sim_process_frame m f =
     (let p = payload f in
      if message_type f = (0x0A, 0xBF) then process_command m p
      else if message_type f = (0xFE, 0xBF) then process_registration m p
      else if p \<noteq> [] \<and> snd (message_type f) = 0xBF \<and> p ! 0 = 0x03 then
        Some (m\<lparr>sim_client_id := Some (fst (message_type f)), sim_registered := True\<rparr>, None)
      else Some (m, None))"

fun sim_process_frames :: "SpaSim \<Rightarrow> frame list \<Rightarrow> (SpaSim \<times> u8 list) option" where
  "sim_process_frames m [] = Some (m, [])"
| "sim_process_frames m (f # fs) = do {
     (m1, r) \<leftarrow> sim_process_frame m f;
     (m2, responses) \<leftarrow> sim_process_frames m1 fs;
     Some (m2, (case r of Some bs \<Rightarrow> bs | None \<Rightarrow> []) @ responses)
   }"

definition process_incoming_bytes :: "SpaSim \<Rightarrow> u8 list \<Rightarrow> (SpaSim \<times> u8 list) option" where
  "process_incoming_bytes m bs = do {
     (_, frames) \<leftarrow> decoder_feed_slice decoder_new bs;
     sim_process_frames m frames
   }"

definition tick_status :: "SpaSim \<Rightarrow> (SpaSim \<times> StatusUpdate option) option" where
  "tick_status m = do {
     (m1, output) \<leftarrow> sim_tick m;
     (_, frames) \<leftarrow> decoder_feed_slice decoder_new output;
     Some (m1, case List.find (\<lambda>st. st \<noteq> None) (map (\<lambda>f. if message_type f = (0xFF, 0xAF)
           then (case dispatch_frame f of Msg_StatusUpdate st \<Rightarrow> Some st | _ \<Rightarrow> None) else None) frames) of
         Some st \<Rightarrow> st | None \<Rightarrow> None)
   }"

end
