(* ===== verification/CommandTracker.thy ===== *)
theory CommandTracker
  imports Interfaces Clock Command
begin

text \<open>
  Command tracking of \<open>crates/launa-core/src/command_tracker.rs\<close>: what a sent command is expected to
  change, the pending commands, and \<open>verify\<close>, which confirms, retries or drops them when a status
  arrives. The loop over indices of the code is modelled as it is and shown equal to one pass over
  the pending list. The counters are 32-bit and wrap.
\<close>

section \<open>Expected changes\<close>

datatype ExpectedChange =
    PumpToggled ToggleItem PumpState
  | BlowerToggled bool
  | TemperatureSet u8
  | LightToggled ToggleItem bool
  | HoldModeToggled bool
  | HeatingModeToggled HeatingMode
  | TempRangeToggled TempRange

definition expected_from_command :: "Command \<Rightarrow> StatusUpdate \<Rightarrow> ExpectedChange option" where
  "expected_from_command cmd pre_status =
     (case cmd of
        ToggleItem item \<Rightarrow>
          (case pump_index item of
             Some idx \<Rightarrow> Some (PumpToggled item (pumps pre_status ! idx))
           | None \<Rightarrow>
               (case light_index item of
                  Some idx \<Rightarrow> Some (LightToggled item (lights pre_status ! idx))
                | None \<Rightarrow>
                    (case item of
                       Blower \<Rightarrow> Some (BlowerToggled (blower pre_status))
                     | HoldMode \<Rightarrow> Some (HoldModeToggled (is_hold pre_status))
                     | HeatingModeItem \<Rightarrow> Some (HeatingModeToggled (heating_mode pre_status))
                     | TemperatureRange \<Rightarrow> Some (TempRangeToggled (temp_range pre_status))
                     | _ \<Rightarrow> None)))
      | SetTemperature temp \<Rightarrow> Some (TemperatureSet temp)
      | _ \<Rightarrow> None)"

definition is_confirmed :: "ExpectedChange \<Rightarrow> StatusUpdate \<Rightarrow> bool" where
  "is_confirmed expected status =
     (case expected of
        PumpToggled item pre_state \<Rightarrow>
          (case pump_index item of Some idx \<Rightarrow> pumps status ! idx \<noteq> pre_state | None \<Rightarrow> False)
      | BlowerToggled pre_state \<Rightarrow> blower status \<noteq> pre_state
      | TemperatureSet temp \<Rightarrow>
          (case temp_to_wire (set_temp status) of Inr w \<Rightarrow> Some w | Inl _ \<Rightarrow> None) = Some temp
      | LightToggled item pre_state \<Rightarrow>
          (case light_index item of
             Some idx \<Rightarrow> lights status ! idx \<noteq> pre_state
           | None \<Rightarrow> lights status ! 0 \<noteq> pre_state)
      | HoldModeToggled pre_state \<Rightarrow> is_hold status \<noteq> pre_state
      | HeatingModeToggled pre_mode \<Rightarrow> heating_mode status \<noteq> pre_mode
      | TempRangeToggled pre_range \<Rightarrow> temp_range status \<noteq> pre_range)"

section \<open>The tracker\<close>

record PendingCommand =
  pending_command :: Command
  expected :: ExpectedChange
  sent_at :: Timestamp
  retries :: u8

record CommandTracker =
  pending :: "PendingCommand list"
  dropped_count :: u32
  retry_count :: u32

record VerifyResult =
  vr_retries :: "Command list"
  vr_dropped :: u32

definition tracker_new :: CommandTracker where
  "tracker_new = \<lparr>pending = [], dropped_count = 0, retry_count = 0\<rparr>"

text \<open>The entry that is updated in place: the first one with the same expected change.\<close>

fun refresh :: "ExpectedChange \<Rightarrow> Command \<Rightarrow> Timestamp \<Rightarrow> PendingCommand list \<Rightarrow> PendingCommand list option" where
  "refresh ex cmd now [] = None"
| "refresh ex cmd now (p # ps) =
     (if expected p = ex then Some (p\<lparr>pending_command := cmd, sent_at := now\<rparr> # ps)
      else map_option (Cons p) (refresh ex cmd now ps))"

definition track :: "CommandTracker \<Rightarrow> Command \<Rightarrow> StatusUpdate \<Rightarrow> Timestamp \<Rightarrow> CommandTracker" where
  "track t cmd pre_status now =
     (case expected_from_command cmd pre_status of
        None \<Rightarrow> t
      | Some ex \<Rightarrow>
          (case refresh ex cmd now (pending t) of
             Some ps \<Rightarrow> t\<lparr>pending := ps\<rparr>
           | None \<Rightarrow>
               if length (pending t) \<ge> MAX_PENDING_COMMANDS
               then t\<lparr>dropped_count := dropped_count t + 1\<rparr>
               else t\<lparr>pending := pending t @
                 [\<lparr>pending_command = cmd, expected = ex, sent_at = now, retries = 0\<rparr>]\<rparr>))"

text \<open>The first loop of \<open>verify\<close>, one index: the lists of confirmed and of due indices, and drops.\<close>

definition verify_scan :: "StatusUpdate \<Rightarrow> Timestamp \<Rightarrow> PendingCommand list \<Rightarrow> nat \<Rightarrow>
    nat list \<times> nat list \<times> u32 \<Rightarrow> nat list \<times> nat list \<times> u32" where
  "verify_scan status now ps i acc =
     (let (confirmed, to_retry, dropped) = acc; p = ps ! i; elapsed = elapsed_since now (sent_at p) in
      if is_confirmed (expected p) status then (confirmed @ [i], to_retry, dropped)
      else if elapsed \<ge> COMMAND_ACK_TIMEOUT_MS then
        (if retries p < MAX_COMMAND_RETRIES then (confirmed, to_retry @ [i], dropped)
         else (confirmed @ [i], to_retry, dropped + 1))
      else (confirmed, to_retry, dropped))"

definition bump :: "Timestamp \<Rightarrow> PendingCommand \<Rightarrow> PendingCommand" where
  "bump now p = p\<lparr>retries := retries p + 1, sent_at := now\<rparr>"

text \<open>The second loop, one index, and \<open>Vec::remove\<close>.\<close>

definition retry_one :: "Timestamp \<Rightarrow> nat \<Rightarrow> PendingCommand list \<times> Command list \<Rightarrow>
    PendingCommand list \<times> Command list" where
  "retry_one now i acc =
     (let (ps, cmds) = acc; p = bump now (ps ! i) in (ps[i := p], cmds @ [pending_command p]))"

definition remove_nth :: "nat \<Rightarrow> 'a list \<Rightarrow> 'a list" where
  "remove_nth i xs = take i xs @ drop (Suc i) xs"

definition verify :: "CommandTracker \<Rightarrow> StatusUpdate \<Rightarrow> Timestamp \<Rightarrow> CommandTracker \<times> VerifyResult" where
  "verify t status now =
     (let (confirmed, to_retry, dropped_this_call) =
            fold (verify_scan status now (pending t)) (rev [0..<length (pending t)]) ([], [], 0);
          (ps, cmds) = fold (retry_one now) to_retry (pending t, []);
          to_remove = sort confirmed;
          ps' = fold remove_nth (rev to_remove) ps
      in (t\<lparr>pending := ps',
            retry_count := retry_count t + word_of_nat (length cmds),
            dropped_count := dropped_count t + dropped_this_call\<rparr>,
          \<lparr>vr_retries = cmds, vr_dropped = dropped_this_call\<rparr>))"

definition record_dropped :: "CommandTracker \<Rightarrow> CommandTracker" where
  "record_dropped t = t\<lparr>dropped_count := dropped_count t + 1\<rparr>"

definition tracker_reset :: "CommandTracker \<Rightarrow> CommandTracker" where
  "tracker_reset t = t\<lparr>pending := [], dropped_count := 0, retry_count := 0\<rparr>"

section \<open>One pass over the pending list\<close>

definition retried :: "StatusUpdate \<Rightarrow> Timestamp \<Rightarrow> PendingCommand \<Rightarrow> bool" where
  "retried status now p \<longleftrightarrow> \<not> is_confirmed (expected p) status \<and>
     COMMAND_ACK_TIMEOUT_MS \<le> elapsed_since now (sent_at p) \<and> retries p < MAX_COMMAND_RETRIES"

definition given_up :: "StatusUpdate \<Rightarrow> Timestamp \<Rightarrow> PendingCommand \<Rightarrow> bool" where
  "given_up status now p \<longleftrightarrow> \<not> is_confirmed (expected p) status \<and>
     COMMAND_ACK_TIMEOUT_MS \<le> elapsed_since now (sent_at p) \<and> \<not> retries p < MAX_COMMAND_RETRIES"

definition gone :: "StatusUpdate \<Rightarrow> Timestamp \<Rightarrow> PendingCommand \<Rightarrow> bool" where
  "gone status now p \<longleftrightarrow> is_confirmed (expected p) status \<or> given_up status now p"

lemma fold_verify_scan:
  "fold (verify_scan status now ps) js (c, r, d) =
     (c @ filter (\<lambda>i. gone status now (ps ! i)) js, r @ filter (\<lambda>i. retried status now (ps ! i)) js,
      d + word_of_nat (length (filter (\<lambda>i. given_up status now (ps ! i)) js)))"
  by (induction js arbitrary: c r d)
    (auto simp: verify_scan_def gone_def retried_def given_up_def Let_def)

lemma filter_indices_snoc:
  "filter (\<lambda>i. P ((ps @ [p]) ! i)) (rev [0..<length (ps @ [p])]) =
     (if P p then [length ps] else []) @ filter (\<lambda>i. P (ps ! i)) (rev [0..<length ps])"
proof -
  have "filter (\<lambda>i. P ((ps @ [p]) ! i)) (rev [0..<length ps]) = filter (\<lambda>i. P (ps ! i)) (rev [0..<length ps])"
    by (rule filter_cong) (auto simp: nth_append)
  then show ?thesis by simp
qed

lemma length_filter_indices:
  "length (filter (\<lambda>i. P (ps ! i)) (rev [0..<length ps])) = length (filter P ps)"
  by (induction ps rule: rev_induct) (simp, simp only: filter_indices_snoc, simp)

lemma retry_one_snoc:
  "i < length ps \<Longrightarrow> retry_one now i (ps @ [p], cs) =
     (fst (retry_one now i (ps, cs)) @ [p], snd (retry_one now i (ps, cs)))"
  by (simp add: retry_one_def Let_def nth_append list_update_append)

lemma length_retry_one [simp]: "length (fst (retry_one now i acc)) = length (fst acc)"
  by (simp add: retry_one_def Let_def split: prod.splits)

lemma fold_retry_one_snoc:
  "\<forall>i \<in> set js. i < length ps \<Longrightarrow> fold (retry_one now) js (ps @ [p], cs) =
     (fst (fold (retry_one now) js (ps, cs)) @ [p], snd (fold (retry_one now) js (ps, cs)))"
proof (induction js arbitrary: ps cs)
  case (Cons i js)
  obtain ps' cs' where r: "retry_one now i (ps, cs) = (ps', cs')" by fastforce
  then have "length ps' = length ps" using length_retry_one [of now i "(ps, cs)"] by simp
  with Cons.IH [of ps' cs'] Cons.prems r retry_one_snoc [of i ps now p cs] show ?case by simp
qed simp

lemma remove_nth_snoc: "i < length xs \<Longrightarrow> remove_nth i (xs @ [x]) = remove_nth i xs @ [x]"
  by (simp add: remove_nth_def)

lemma length_remove_nth [simp]: "i < length xs \<Longrightarrow> length (remove_nth i xs) = length xs - 1"
  by (simp add: remove_nth_def)

lemma remove_nth_last: "remove_nth (length xs) (xs @ [x]) = xs"
  by (simp add: remove_nth_def)

text \<open>Removing at descending positions leaves what comes after them alone.\<close>

lemma fold_remove_nth_snoc:
  "sorted_wrt (>) js \<Longrightarrow> \<forall>i \<in> set js. i < length xs \<Longrightarrow>
     fold remove_nth js (xs @ [x]) = fold remove_nth js xs @ [x]"
proof (induction js arbitrary: xs)
  case (Cons i js)
  then have "\<forall>j \<in> set js. j < length (remove_nth i xs)" by fastforce
  with Cons show ?case by (simp add: remove_nth_snoc)
qed simp

lemma sorted_wrt_rev_upt: "sorted_wrt (>) (filter P (rev [0..<n]))"
  by (rule sorted_wrt_filter) (simp add: sorted_wrt_rev)

lemma rev_sort_descending: "sorted_wrt (>) js \<Longrightarrow> rev (sort js) = js" for js :: "nat list"
proof (induction js)
  case (Cons i js)
  then have "sort js = rev js" by (metis rev_swap sorted_wrt.simps(2))
  then have "insort i (sort js) = rev js @ [i]"
    using Cons.prems sorted_insort_is_snoc [of "rev js" i] sorted_sort [of js] by fastforce
  then show ?case by simp
qed simp

lemma fold_retry_one:
  "fold (retry_one now) (filter (\<lambda>i. Q (ps ! i)) (rev [0..<length ps])) (ps, cs) =
     (map (\<lambda>p. if Q p then bump now p else p) ps, cs @ rev (map pending_command (filter Q ps)))"
proof (induction ps arbitrary: cs rule: rev_induct)
  case (snoc p ps)
  let ?js = "filter (\<lambda>i. Q (ps ! i)) (rev [0..<length ps])"
  have lt: "\<forall>i \<in> set ?js. i < length ps" by auto
  have one: "retry_one now (length ps) (ps @ [p], cs) =
      (ps @ [bump now p], cs @ [pending_command p])"
    by (simp add: retry_one_def bump_def)
  show ?case
    unfolding filter_indices_snoc
    using snoc [of "cs @ [pending_command p]"] snoc [of cs] one fold_retry_one_snoc [OF lt]
    by (cases "Q p") simp_all
qed simp

lemma fold_remove_nth:
  "fold remove_nth (filter (\<lambda>i. Q (ps ! i)) (rev [0..<length ps])) (map f ps) =
     map f (filter (\<lambda>p. \<not> Q p) ps)"
proof (induction ps rule: rev_induct)
  case (snoc p ps)
  let ?js = "filter (\<lambda>i. Q (ps ! i)) (rev [0..<length ps])"
  have lt: "\<forall>i \<in> set ?js. i < length (map f ps)" by auto
  show ?case
    unfolding filter_indices_snoc
    using snoc fold_remove_nth_snoc [OF sorted_wrt_rev_upt lt, of "f p"] remove_nth_last [of "map f ps" "f p"]
    by (cases "Q p") simp_all
qed simp

lemma verify_one_pass:
  "verify t status now =
     (t\<lparr>pending := map (\<lambda>p. if retried status now p then bump now p else p)
          (filter (\<lambda>p. \<not> gone status now p) (pending t)),
        retry_count := retry_count t + word_of_nat (length (filter (retried status now) (pending t))),
        dropped_count := dropped_count t + word_of_nat (length (filter (given_up status now) (pending t)))\<rparr>,
      \<lparr>vr_retries = rev (map pending_command (filter (retried status now) (pending t))),
       vr_dropped = word_of_nat (length (filter (given_up status now) (pending t)))\<rparr>)"
  unfolding verify_def
  by (simp add: fold_verify_scan fold_retry_one fold_remove_nth length_filter_indices
      rev_sort_descending [OF sorted_wrt_rev_upt])

section \<open>The tracker as a machine\<close>

datatype TrackerEvent =
    Ev_Track Command StatusUpdate Timestamp
  | Ev_Verify StatusUpdate Timestamp
  | Ev_Dropped
  | Ev_Reset

fun tracker_step :: "CommandTracker \<Rightarrow> TrackerEvent \<Rightarrow> CommandTracker \<times> Command list" where
  "tracker_step t (Ev_Track cmd pre now) = (track t cmd pre now, [])"
| "tracker_step t (Ev_Verify st now) = (fst (verify t st now), vr_retries (snd (verify t st now)))"
| "tracker_step t Ev_Dropped = (record_dropped t, [])"
| "tracker_step t Ev_Reset = (tracker_reset t, [])"

text \<open>An entry's command is one that can expect its change, and it was retried at most twice.\<close>

definition entry_ok :: "PendingCommand \<Rightarrow> bool" where
  "entry_ok p \<longleftrightarrow> retries p \<le> 2 \<and> (\<exists>pre. expected_from_command (pending_command p) pre = Some (expected p))"

definition tracker_inv :: "CommandTracker \<Rightarrow> bool" where
  "tracker_inv t \<longleftrightarrow> length (pending t) \<le> MAX_PENDING_COMMANDS \<and>
     distinct (map expected (pending t)) \<and> (\<forall>p \<in> set (pending t). entry_ok p)"

definition retryable :: "Command \<Rightarrow> bool" where
  "retryable c = (case c of ToggleItem _ \<Rightarrow> True | SetTemperature _ \<Rightarrow> True | _ \<Rightarrow> False)"

lemma expected_retryable: "expected_from_command c pre = Some ex \<Longrightarrow> retryable c"
  by (auto simp: expected_from_command_def retryable_def split: Command.splits)

lemma refresh_None: "refresh ex cmd now ps = None \<longleftrightarrow> ex \<notin> expected ` set ps"
  by (induction ps) auto

lemma refresh_Some:
  "refresh ex cmd now ps = Some qs \<Longrightarrow> map expected qs = map expected ps \<and>
     (\<forall>q \<in> set qs. q \<in> set ps \<or>
        (\<exists>p \<in> set ps. expected p = ex \<and> q = p\<lparr>pending_command := cmd, sent_at := now\<rparr>))"
proof (induction ps arbitrary: qs)
  case (Cons p ps)
  then show ?case by (cases "expected p = ex") fastforce+
qed simp

lemma track_inv: assumes "tracker_inv t" shows "tracker_inv (track t cmd pre now)"
proof (cases "expected_from_command cmd pre")
  case None
  with assms show ?thesis by (simp add: track_def)
next
  case (Some ex)
  show ?thesis
  proof (cases "refresh ex cmd now (pending t)")
    case None
    let ?p = "\<lparr>pending_command = cmd, expected = ex, sent_at = now, retries = 0\<rparr>"
    have "entry_ok ?p" using Some by (auto simp: entry_ok_def)
    moreover have "track t cmd pre now = (if length (pending t) \<ge> MAX_PENDING_COMMANDS
        then t\<lparr>dropped_count := dropped_count t + 1\<rparr> else t\<lparr>pending := pending t @ [?p]\<rparr>)"
      by (simp add: track_def Some None)
    moreover have "ex \<notin> expected ` set (pending t)" using None by (rule refresh_None [THEN iffD1])
    ultimately show ?thesis using assms by (auto simp: tracker_inv_def)
  next
    case (Some qs)
    note r = refresh_Some [OF Some]
    then have "length qs = length (pending t)" by (metis length_map)
    moreover have "\<forall>q \<in> set qs. entry_ok q"
      using r assms \<open>expected_from_command cmd pre = Some ex\<close>
      by (fastforce simp: tracker_inv_def entry_ok_def)
    ultimately show ?thesis
      using r assms Some \<open>expected_from_command cmd pre = Some ex\<close> by (simp add: track_def tracker_inv_def)
  qed
qed

lemma bump_ok: "entry_ok p \<Longrightarrow> retried st now p \<Longrightarrow> entry_ok (bump now p)"
proof -
  assume a: "entry_ok p" "retried st now p"
  then have "unat (retries p) < 2" by (simp add: retried_def MAX_COMMAND_RETRIES_def word_less_nat_alt)
  then have "unat (retries p + 1) = unat (retries p) + 1" by (subst unat_add_lem [THEN iffD1]) simp_all
  then have "retries p + 1 \<le> 2" using \<open>unat (retries p) < 2\<close> by (simp add: word_le_nat_alt)
  with a(1) show "entry_ok (bump now p)" by (simp add: entry_ok_def bump_def)
qed

lemma verify_inv: assumes "tracker_inv t" shows "tracker_inv (fst (verify t st now))"
proof -
  let ?f = "\<lambda>p. if retried st now p then bump now p else p"
  let ?ps = "filter (\<lambda>p. \<not> gone st now p) (pending t)"
  have e: "map (expected \<circ> ?f) ?ps = map expected ?ps" by (simp add: bump_def)
  have "distinct (map (expected \<circ> ?f) ?ps)"
    unfolding e using assms by (simp add: tracker_inv_def distinct_map_filter)
  moreover have "\<forall>p \<in> set (map ?f ?ps). entry_ok p"
    using assms bump_ok by (auto simp: tracker_inv_def)
  moreover have "length (map ?f ?ps) \<le> MAX_PENDING_COMMANDS"
    using assms le_trans [OF length_filter_le [of "\<lambda>p. \<not> gone st now p" "pending t"]]
    by (simp add: tracker_inv_def)
  moreover have "pending (fst (verify t st now)) = map ?f ?ps" by (simp add: verify_one_pass)
  ultimately show ?thesis
    unfolding tracker_inv_def by (simp only: map_map)
qed

interpretation tracker: invariant_machine tracker_step tracker_inv retryable
proof unfold_locales
  fix t e assume i: "tracker_inv t"
  show "tracker_inv (fst (tracker_step t e))"
    using track_inv [OF i] verify_inv [OF i] i
    by (cases e) (simp_all add: record_dropped_def tracker_reset_def tracker_inv_def)
  show "retryable c" if "c \<in> set (snd (tracker_step t e))" for c
    using that i expected_retryable
    by (cases e) (auto simp: verify_one_pass tracker_inv_def entry_ok_def)
qed

lemma tracker_inv_new: "tracker_inv tracker_new"
  by (simp add: tracker_inv_def tracker_new_def)

text \<open>A set-temperature command is confirmed by the set temperature byte of the status.\<close>

lemma temperature_confirmed_by_status:
  "status_parse p = Inr s \<Longrightarrow> is_confirmed (TemperatureSet w) s \<longleftrightarrow> p ! 20 = w \<and> w \<noteq> 255"
proof -
  assume "status_parse p = Inr s"
  then have "temp_to_wire (set_temp s) = (if unat (p ! 20) = 255 then Inl TempOverflow else Inr (p ! 20))"
    by (rule status_set_temp_wire)
  moreover have "unat (p ! 20) = 255 \<longleftrightarrow> p ! 20 = 255" by (simp add: word_unat_eq_iff)
  ultimately show ?thesis by (auto simp: is_confirmed_def)
qed

lemma verify_all_due:
  assumes "\<And>p. p \<in> set (pending u) \<Longrightarrow> COMMAND_ACK_TIMEOUT_MS \<le> elapsed_since now (sent_at p)"
  obtains qs where "pending (fst (verify u st now)) = map (bump now) qs"
    and "vr_retries (snd (verify u st now)) = rev (map pending_command qs)"
    and "length qs \<le> length (pending u)" and "set qs \<subseteq> set (pending u)"
    and "\<forall>p \<in> set qs. retries p < MAX_COMMAND_RETRIES"
proof
  let ?qs = "filter (retried st now) (pending u)"
  have "filter (\<lambda>p. \<not> gone st now p) (pending u) = ?qs"
    using assms by (auto simp: gone_def given_up_def retried_def intro!: filter_cong)
  then show "pending (fst (verify u st now)) = map (bump now) ?qs"
    by (simp add: verify_one_pass)
qed (auto simp: verify_one_pass retried_def)

lemma all_bumped: "p \<in> bump now ` qs \<Longrightarrow> sent_at p = now"
  by (auto simp: bump_def)

text \<open>A command that may still be retried after one retry has had its last one after the second.\<close>

lemma bumped_twice:
  assumes "retries p < MAX_COMMAND_RETRIES" and "retries (bump t p) < MAX_COMMAND_RETRIES"
  shows "\<not> retries (bump t' (bump t p)) < MAX_COMMAND_RETRIES"
proof -
  have up: "unat (r + 1) = unat r + 1" if "r < MAX_COMMAND_RETRIES" for r :: u8
    using that by (subst unat_add_lem [THEN iffD1]) (simp_all add: MAX_COMMAND_RETRIES_def word_less_nat_alt)
  from up [OF assms(1)] up [OF assms(2)] show ?thesis
    by (simp add: bump_def MAX_COMMAND_RETRIES_def word_less_nat_alt)
qed

section \<open>Properties\<close>

text \<open>The reference for \<open>verify\<close>: what becomes of one pending entry.\<close>

definition verify_entry :: "StatusUpdate \<Rightarrow> Timestamp \<Rightarrow> PendingCommand \<Rightarrow> PendingCommand option" where
  "verify_entry st now p =
     (if is_confirmed (expected p) st then None
      else if elapsed_since now (sent_at p) < COMMAND_ACK_TIMEOUT_MS then Some p
      else if retries p < MAX_COMMAND_RETRIES then Some (bump now p)
      else None)"

lemma map_filter_verify_entry:
  "map (\<lambda>p. if retried st now p then bump now p else p) (filter (\<lambda>p. \<not> gone st now p) ps) =
     List.map_filter (verify_entry st now) ps"
  by (induction ps)
    (auto simp: verify_entry_def retried_def gone_def given_up_def List.map_filter_simps not_less)

text \<open>
  Property C36: \<open>verify\<close>, with its two index lists and its removal loop, does to the pending commands
  exactly what one pass does that looks at each entry alone: a confirmed entry leaves, an entry whose
  five seconds are not over stays as it is, an overdue one is stamped and counted as retried, or is
  dropped after its second retry. The commands to send again are those of the retried entries, the
  latest first, and the counters grow by the numbers of retried and dropped entries.
\<close>

theorem verify_refines:
  "pending (fst (verify t st now)) = List.map_filter (verify_entry st now) (pending t) \<and>
   vr_retries (snd (verify t st now)) = rev (map pending_command (filter (retried st now) (pending t))) \<and>
   retry_count (fst (verify t st now)) = retry_count t + word_of_nat (length (vr_retries (snd (verify t st now)))) \<and>
   dropped_count (fst (verify t st now)) = dropped_count t + vr_dropped (snd (verify t st now)) \<and>
   vr_dropped (snd (verify t st now)) = word_of_nat (length (filter (given_up st now) (pending t)))"
  by (simp add: verify_one_pass map_filter_verify_entry)

text \<open>
  Whatever commands are tracked and whatever statuses arrive, the tracker holds at most
  eight entries, no two with the same expected change, none retried more than twice, each with a
  command that can have the change it waits for; and only toggles and set-temperature commands are
  ever sent again.
\<close>

theorem tracker_bounded:
  "length (pending (fst (run_machine tracker_step tracker_new es))) \<le> 8 \<and>
   distinct (map expected (pending (fst (run_machine tracker_step tracker_new es)))) \<and>
   list_all (\<lambda>p. retries p \<le> 2 \<and> (\<exists>pre. expected_from_command (pending_command p) pre = Some (expected p)))
     (pending (fst (run_machine tracker_step tracker_new es))) \<and>
   list_all retryable (snd (run_machine tracker_step tracker_new es))"
  using tracker.run_inv [OF tracker_inv_new, of es] tracker.run_ok [OF tracker_inv_new, of _ es]
  by (auto simp: tracker_inv_def entry_ok_def MAX_PENDING_COMMANDS_def list_all_iff)

text \<open>
  Property C37: no command stays pending for ever. Three statuses, the first at least the timeout
  after every send and each of the others at least the timeout after the one before, empty the
  tracker whether they confirm anything or not, and at most two retries of each command are sent.
\<close>

theorem verify_drains:
  assumes "\<And>p. p \<in> set (pending t) \<Longrightarrow> COMMAND_ACK_TIMEOUT_MS \<le> elapsed_since t1 (sent_at p)"
    and "COMMAND_ACK_TIMEOUT_MS \<le> elapsed_since t2 t1" and "COMMAND_ACK_TIMEOUT_MS \<le> elapsed_since t3 t2"
  shows "pending (fst (run_machine tracker_step t [Ev_Verify s1 t1, Ev_Verify s2 t2, Ev_Verify s3 t3])) = [] \<and>
    length (snd (run_machine tracker_step t [Ev_Verify s1 t1, Ev_Verify s2 t2, Ev_Verify s3 t3])) \<le>
      2 * length (pending t)"
proof -
  let ?u1 = "fst (verify t s1 t1)"
  let ?u2 = "fst (verify ?u1 s2 t2)"
  obtain q1 where q1: "pending ?u1 = map (bump t1) q1"
      "vr_retries (snd (verify t s1 t1)) = rev (map pending_command q1)"
      "length q1 \<le> length (pending t)" "set q1 \<subseteq> set (pending t)"
      "\<forall>p \<in> set q1. retries p < MAX_COMMAND_RETRIES"
    by (rule verify_all_due [of t t1 s1, OF assms(1)])
  obtain q2 where q2: "pending ?u2 = map (bump t2) q2"
      "vr_retries (snd (verify ?u1 s2 t2)) = rev (map pending_command q2)"
      "length q2 \<le> length (pending ?u1)" "set q2 \<subseteq> set (pending ?u1)"
      "\<forall>p \<in> set q2. retries p < MAX_COMMAND_RETRIES"
    by (rule verify_all_due [of ?u1 t2 s2])
      (use assms(2) in \<open>simp_all add: q1(1) all_bumped\<close>)
  obtain q3 where q3: "pending (fst (verify ?u2 s3 t3)) = map (bump t3) q3"
      "vr_retries (snd (verify ?u2 s3 t3)) = rev (map pending_command q3)"
      "length q3 \<le> length (pending ?u2)" "set q3 \<subseteq> set (pending ?u2)"
      "\<forall>p \<in> set q3. retries p < MAX_COMMAND_RETRIES"
    by (rule verify_all_due [of ?u2 t3 s3])
      (use assms(3) in \<open>simp_all add: q2(1) all_bumped\<close>)
  have "p \<notin> set q3" for p
  proof
    assume p: "p \<in> set q3"
    then obtain p2 p1 where "p2 \<in> set q2" "p = bump t2 p2" "p1 \<in> set q1" "p2 = bump t1 p1"
      using q3(4) q2(4) by (force simp: q1(1) q2(1))
    then show False using bumped_twice [of p1 t1 t2] q1(5) q2(5) q3(5) p by auto
  qed
  then have "q3 = []" by (cases q3) auto
  with q1(1-3) q2(1-3) q3(1-3) show ?thesis by simp
qed

theorem verify_drains_witness:
  "\<forall>s. pending (fst (run_machine tracker_step
     \<lparr>pending = [\<lparr>pending_command = SetTemperature 100, expected = TemperatureSet 100,
        sent_at = Timestamp 1000, retries = 0\<rparr>], dropped_count = 0, retry_count = 0\<rparr>
     [Ev_Verify s (Timestamp 6000), Ev_Verify s (Timestamp 12000), Ev_Verify s (Timestamp 17000)])) = []"
  by (rule allI, rule verify_drains [THEN conjunct1])
    (auto simp: COMMAND_ACK_TIMEOUT_MS_def elapsed_since_def sat_sub_def)

end
