(* ===== verification/SimProperties.thy ===== *)
theory SimProperties
  imports SpaSim CommandTracker
begin

text \<open>
  Properties of the simulated spa: when it panics and when not, how it hands out channels, and what
  a command does to its state.
\<close>

section \<open>States that can be sent\<close>

definition wire_ok :: "Temperature \<Rightarrow> bool" where
  "wire_ok t \<longleftrightarrow> (\<exists>b. temp_to_wire t = Inr b)"

definition spa_ok :: "SpaState \<Rightarrow> bool" where
  "spa_ok s \<longleftrightarrow> length (sp_pumps s) = 6 \<and> length (sp_lights s) = 4 \<and>
     wire_ok (sp_set_temp s) \<and> wire_ok (sp_set_temp_high s) \<and> wire_ok (sp_set_temp_low s) \<and>
     sp_hour s < 24 \<and> sp_minute s < 60"

lemma wire_ok_from_wire: "b \<noteq> 0xFF \<Longrightarrow> wire_ok (temp_from_wire b scale)"
proof -
  assume "b \<noteq> 0xFF"
  then have "unat b \<noteq> 255" by (simp add: word_unat_eq_iff)
  then show ?thesis by (simp add: wire_ok_def temp_to_wire_from_wire)
qed

lemma to_wire_26: "temp_to_wire (temp_celsius (F32_Fin 26)) = Inr 52"
proof -
  have "round_f32 (26 * 2) = F32_Fin 52" using round_f32_of_int [of 52] by simp
  moreover have "round_f32 (52 + 1 / 2) = F32_Fin (105 / 2)" using round_f32_half [of 105] by simp
  moreover have "\<lfloor>105 / 2 :: rat\<rfloor> = 52" by (simp add: floor_eq_iff)
  ultimately show ?thesis by (simp add: temp_to_wire_def temp_celsius_def)
qed

lemma spa_ok_default [inv_rules]: "spa_ok spa_state_default"
  using to_wire_40 to_wire_26 by (simp add: spa_ok_def spa_state_default_def wire_ok_def)

lemma spa_ok_toggle [inv_rules]: "spa_ok s \<Longrightarrow> spa_ok (apply_toggle_by_code s c)"
  by (auto simp: spa_ok_def apply_toggle_by_code_def switch_range_def Let_def split: TempRange.splits)

lemma spa_ok_set_target [inv_rules]: "spa_ok s \<Longrightarrow> wire_ok t \<Longrightarrow> spa_ok (set_target_temp s t)"
  by (simp add: spa_ok_def set_target_temp_def Let_def split: TempRange.splits)

lemma spa_ok_event [inv_rules]: "spa_ok s \<Longrightarrow> spa_ok (apply_event e s)"
  by (simp add: spa_ok_def apply_event_def split: SpaEventType.splits)

lemma spa_ok_physics [inv_rules]:
  assumes "spa_ok s" shows "spa_ok (fst (simulate_physics s ctx))"
proof -
  obtain c h where s': "fst (simulate_physics s ctx) =
      advance_clock (s\<lparr>sp_current_temp := temp_convert (temp_fahrenheit c) (sp_temp_scale s), sp_is_heating := h\<rparr>)"
    by (rule simulate_physics_shape)
  show ?thesis using assms advance_clock_time(2,3) [of "s\<lparr>sp_current_temp := temp_convert (temp_fahrenheit c) (sp_temp_scale s), sp_is_heating := h\<rparr>"]
    unfolding s' by (simp add: spa_ok_def)
qed

section \<open>The invariant of the simulator\<close>

definition keeps_ok :: "(SpaState \<Rightarrow> SpaState) \<Rightarrow> bool" where
  "keeps_ok f \<longleftrightarrow> (\<forall>s. spa_ok s \<longrightarrow> spa_ok (f s))"

definition sim_inv :: "SpaSim \<Rightarrow> bool" where
  "sim_inv m \<longleftrightarrow> spa_ok (sim_state m) \<and> list_all (\<lambda>(k, f). keeps_ok f) (pending_commands m) \<and>
     0x11 \<le> next_client_id m \<and> next_client_id m \<le> 0x2F \<and>
     1 \<le> fst (ready_interval_range m) \<and> fst (ready_interval_range m) \<le> snd (ready_interval_range m) \<and>
     length (raw_payload (spa_config_config m)) = 10 \<and>
     length (inf_system_model (information_config m)) = 8"

lemma sim_inv_new: "sim_inv sim_new"
  by (simp add: sim_inv_def sim_new_def spa_ok_default spa_config_config_default_def
      information_config_default_def)

lemma sim_inv_cong:
  "sim_state m' = sim_state m \<Longrightarrow> pending_commands m' = pending_commands m \<Longrightarrow>
     next_client_id m' = next_client_id m \<Longrightarrow> ready_interval_range m' = ready_interval_range m \<Longrightarrow>
     spa_config_config m' = spa_config_config m \<Longrightarrow> information_config m' = information_config m \<Longrightarrow>
     sim_inv m' = sim_inv m"
  by (simp add: sim_inv_def)

lemma process_deferred_ok:
  "list_all (\<lambda>(k, f). keeps_ok f) cs \<Longrightarrow> spa_ok s \<Longrightarrow>
     list_all (\<lambda>(k, f). keeps_ok f) (fst (process_deferred cs s)) \<and> spa_ok (snd (process_deferred cs s))"
proof (induction cs s rule: process_deferred.induct)
  case (2 k f cs s)
  show ?case
  proof (cases "k - 1 = 0")
    case True
    with 2 show ?thesis by (simp add: keeps_ok_def)
  next
    case False
    with 2 show ?thesis by (cases "process_deferred cs s") simp
  qed
qed simp

lemma process_pending_commands_inv: "sim_inv m \<Longrightarrow> sim_inv (process_pending_commands m)"
  using process_deferred_ok [of "pending_commands m" "sim_state m"]
  by (auto simp: sim_inv_def process_pending_commands_def split: prod.splits)

lemma process_events_ok: "spa_ok s \<Longrightarrow> spa_ok (snd (process_events now es s))"
  by (induction now es s rule: process_events.induct) (auto simp: spa_ok_event split: prod.splits)

lemma process_pending_events_inv: "sim_inv m \<Longrightarrow> sim_inv (process_pending_events m)"
  using process_events_ok [of "sim_state m" "tick_count m" "pending_events m"]
  by (auto simp: sim_inv_def process_pending_events_def split: prod.splits)

lemma sim_simulate_physics_inv: "sim_inv m \<Longrightarrow> sim_inv (sim_simulate_physics m)"
  using spa_ok_physics [of "sim_state m"]
  by (auto simp: sim_inv_def sim_simulate_physics_def Let_def split: prod.splits) (metis fst_conv)

lemma tick_countdowns_inv [simp]:
  "sim_inv (tick_priming_countdown m) = sim_inv m"
  "sim_inv (tick_transient_fault_countdown m) = sim_inv m"
  by (simp_all add: sim_inv_def tick_priming_countdown_def tick_transient_fault_countdown_def)

lemma next_ready_rand_inv [simp]: "sim_inv (fst (next_ready_rand m)) = sim_inv m"
  by (simp add: next_ready_rand_def sim_inv_def split: prod.splits)

lemma jitter_padding_len_inv [simp]: "sim_inv (fst (jitter_padding_len m)) = sim_inv m"
  by (simp add: jitter_padding_len_def split_def Let_def)

lemma word_range_nonzero:
  fixes lo hi :: u64 assumes "1 \<le> lo" and "lo \<le> hi" shows "hi - lo + 1 \<noteq> 0"
proof -
  have "unat lo \<le> unat hi" "1 \<le> unat lo" using assms by (simp_all add: word_le_nat_alt)
  moreover have "unat hi < 2 ^ 64" by (rule order.strict_trans2 [OF unsigned_less]) simp
  ultimately have "unat (hi - lo + 1) = unat hi - unat lo + 1"
    using assms(2) by (simp add: unat_word_ariths unat_sub)
  then show ?thesis by auto
qed

lemma next_ready_interval_total:
  assumes "sim_inv m" shows "\<exists>m' k. next_ready_interval m = Some (m', k) \<and> sim_inv m'"
proof -
  obtain lo hi where r: "ready_interval_range m = (lo, hi)" by fastforce
  have "hi - lo + 1 \<noteq> 0" using assms r word_range_nonzero [of lo hi] by (simp add: sim_inv_def)
  moreover have "sim_inv (fst (next_ready_rand m))" using assms by simp
  ultimately show ?thesis using assms r by (simp add: next_ready_interval_def split_def Let_def)
qed

section \<open>A tick never panics\<close>

lemma sim_generate_ready_total: "\<exists>bs. sim_generate_ready_frame m = Some bs"
  by (simp add: sim_generate_ready_frame_def generate_ready_frame_def sim_frame_wire)

lemma maybe_emit_ready_total:
  assumes "sim_inv m" shows "\<exists>m' bs. maybe_emit_ready m out = Some (m', bs) \<and> sim_inv m'"
proof -
  define m1 where "m1 = (if ready_countdown m > 0 then m\<lparr>ready_countdown := ready_countdown m - 1\<rparr> else m)"
  have "sim_inv m1" using assms by (simp add: m1_def sim_inv_def)
  from next_ready_interval_total [OF this] obtain m' k
    where k: "next_ready_interval m1 = Some (m', k)" "sim_inv m'" by blast
  have "sim_inv (m'\<lparr>ready_countdown := k\<rparr>)" using k(2) by (simp add: sim_inv_def)
  with k \<open>sim_inv m1\<close> sim_generate_ready_total [of m1] show ?thesis
    by (auto simp: maybe_emit_ready_def Let_def m1_def [symmetric])
qed

lemma sim_generate_status_total:
  assumes "sim_inv m" shows "\<exists>m' bs. sim_generate_status_frame m = Some (m', bs) \<and> sim_inv m'"
proof -
  obtain m1 nv where n: "physics_noise_value m = (m1, nv)" by fastforce
  obtain m2 rv where r: "ready_rand_value m1 = (m2, rv)" by fastforce
  have i1: "sim_inv m1" using assms n
    by (auto simp: physics_noise_value_def sim_next_physics_noise_rand_def sim_inv_def split: if_splits prod.splits)
  have i2: "sim_inv m2" using i1 r
    by (auto simp: ready_rand_value_def next_ready_rand_def sim_inv_def split: if_splits prod.splits)
  then obtain b where "temp_to_wire (sp_set_temp (sim_state m2)) = Inr b"
    by (auto simp: sim_inv_def spa_ok_def wire_ok_def)
  from generate_status_frame_wire [OF this] obtain bs where bs:
    "generate_status_frame (sim_state m2) (priming_remaining_ticks m2)
       (fault_active (fault_manager m2)) (report_unknown_temp m2) (sensor_noise_jitter m2)
       (physics_unknown_temp_ticks m2) (physics_tick_count m2) (physics_noise_amplitude m2)
       nv rv (inject_corrupt_next (error_injection m2)) = Some bs"
    by blast
  have "sim_generate_status_frame m =
      Some (m2\<lparr>error_injection := (error_injection m2)\<lparr>inject_corrupt_next := False\<rparr>\<rparr>, bs)"
    unfolding sim_generate_status_frame_def n r Let_def prod.case ei_take_corrupt_next_def
    by (simp add: bs)
  moreover have "sim_inv (m2\<lparr>error_injection := (error_injection m2)\<lparr>inject_corrupt_next := False\<rparr>\<rparr>)"
    using i2 by (simp add: sim_inv_def)
  ultimately show ?thesis by blast
qed

lemma emit_status_total:
  assumes "sim_inv m" shows "\<exists>m' bs. emit_status m out st = Some (m', bs) \<and> sim_inv m'"
proof -
  have i: "sim_inv (m\<lparr>frame_splitter := fs\<rparr>)" "sim_inv (m\<lparr>frame_splitter := fs, error_injection := ei\<rparr>)" for fs ei
    using assms by (simp_all add: sim_inv_def)
  show ?thesis
  proof (cases "split_point (frame_splitter m)")
    case None
    then show ?thesis using maybe_emit_ready_total [OF i(2)]
      by (simp add: emit_status_def Let_def split_def fs_take_split_point_def)
  next
    case (Some p)
    then show ?thesis using maybe_emit_ready_total [OF i(1)] i(1)
      by (simp add: emit_status_def Let_def split_def fs_take_split_point_def)
  qed
qed

lemma tick_remainder_total:
  assumes "sim_inv m" shows "\<exists>m' bs. tick_remainder m rest = Some (m', bs) \<and> sim_inv m'"
proof -
  obtain ready where "sim_generate_ready_frame m = Some ready" using sim_generate_ready_total by blast
  moreover obtain m1 k where k: "next_ready_interval m = Some (m1, k)" "sim_inv m1"
    using next_ready_interval_total [OF assms] by blast
  moreover from k(2) have "sim_inv (m1\<lparr>ready_countdown := k\<rparr>)" by (simp add: sim_inv_def)
  ultimately show ?thesis by (simp add: tick_remainder_def)
qed

lemma emit_query_wire:
  "emit_query m = Some
     (if sim_registered m then (m, [])
      else (m\<lparr>registration_query_tick := Some (tick_count m)\<rparr>,
            wire_bytes \<lparr>message_type = (0xFE, 0xBF), payload = [0]\<rparr>))"
  by (simp add: emit_query_def generate_registration_query_def sim_frame_wire)

lemma tick_ordinary_total:
  assumes "sim_inv m" shows "\<exists>m' bs. tick_ordinary m = Some (m', bs) \<and> sim_inv m'"
proof -
  obtain m1 q where q: "emit_query m = Some (m1, q)" "sim_inv m1"
    using assms by (cases "sim_registered m") (auto simp: emit_query_wire sim_inv_def)
  define m2 where "m2 = sim_simulate_physics (process_pending_events m1)"
  have "sim_inv m2" unfolding m2_def by (intro sim_simulate_physics_inv process_pending_events_inv q(2))
  then have "sim_inv (fst (jitter_padding_len m2))" by simp
  from sim_generate_status_total [OF this] obtain m3 st where st:
    "sim_generate_status_frame (fst (jitter_padding_len m2)) = Some (m3, st)" "sim_inv m3" by blast
  then have "sim_inv (tick_priming_countdown (tick_transient_fault_countdown m3))" by simp
  from emit_status_total [OF this, of "q @ replicate (snd (jitter_padding_len m2)) 0" st]
  show ?thesis using q(1) st(1) by (simp add: tick_ordinary_def m2_def [symmetric] split_def)
qed

lemma sim_tick_total:
  assumes "sim_inv m" shows "\<exists>m' bs. sim_tick m = Some (m', bs) \<and> sim_inv m'"
proof -
  have "sim_inv (m\<lparr>tick_count := tick_count m + 1\<rparr>)" using assms by (simp add: sim_inv_def)
  from process_pending_commands_inv [OF this]
  have i: "sim_inv ((process_pending_commands (m\<lparr>tick_count := tick_count m + 1\<rparr>))\<lparr>error_injection := ei\<rparr>)"
    "sim_inv ((process_pending_commands (m\<lparr>tick_count := tick_count m + 1\<rparr>))\<lparr>error_injection := ei, frame_splitter := fs\<rparr>)"
    for ei fs by (simp_all add: sim_inv_def)
  show ?thesis
    using i tick_remainder_total [OF i(2)] tick_ordinary_total [OF i(2)]
    by (simp add: sim_tick_def Let_def split_def split: option.split)
qed

section \<open>What the spa receives\<close>

text \<open>The one frame that leads to a panic: a set temperature of 255.\<close>

definition sets_255 :: "frame \<Rightarrow> bool" where
  "sets_255 f \<longleftrightarrow> message_type f = (0x0A, 0xBF) \<and> 2 \<le> length (payload f) \<and>
     payload f ! 0 = 0x20 \<and> payload f ! 1 = 0xFF"

lemma responses_total:
  "\<exists>bs. generate_filter_cycles_response fc = Some bs"
  "\<exists>bs. generate_fault_log_response fl = Some bs"
  "length (raw_payload c) = 10 \<Longrightarrow> \<exists>bs. generate_config_response s c = Some bs"
  "length (inf_system_model ic) = 8 \<Longrightarrow> \<exists>bs. generate_information_response ic = Some bs"
  "\<exists>bs. generate_client_id_assignment cid h = Some bs"
  "\<exists>bs. generate_existing_client_response cid h = Some bs"
  by (simp_all add: generate_filter_cycles_response_def generate_fault_log_response_def
      generate_fault_log_response_for_entry_def generate_config_response_def Let_def
      generate_information_response_def generate_client_id_assignment_def
      generate_existing_client_response_def fault_log_config_to_bytes_def sim_frame_wire)

lemma should_accept_command_inv: "sim_inv m \<Longrightarrow> sim_inv (fst (should_accept_command m))"
  by (simp add: should_accept_command_def Let_def split_def sim_inv_def)

lemma apply_or_defer_inv: "sim_inv m \<Longrightarrow> keeps_ok f \<Longrightarrow> sim_inv (apply_or_defer m f)"
  by (simp add: sim_inv_def apply_or_defer_def keeps_ok_def)

lemma process_command_total:
  assumes "sim_inv m" and "\<not> (2 \<le> length p \<and> p ! 0 = 0x20 \<and> p ! 1 = 0xFF)"
  shows "\<exists>m' r. process_command m p = Some (m', r) \<and> sim_inv m'"
proof -
  note i = should_accept_command_inv [OF assms(1)]
  have t: "keeps_ok (\<lambda>s. apply_toggle_by_code s c)" for c by (simp add: keeps_ok_def spa_ok_toggle)
  have w: "keeps_ok (\<lambda>s. set_target_temp s (temp_from_wire b sc))" if "b \<noteq> 0xFF" for b sc
    by (simp add: keeps_ok_def spa_ok_set_target wire_ok_from_wire [OF that])
  have rej: "sim_inv (m\<lparr>rejected_unregistered_frames := n\<rparr>)" for n using assms(1) by (simp add: sim_inv_def)
  have r: "\<exists>bs. generate_config_response (sim_state m) (spa_config_config m) = Some bs"
    "\<exists>bs. generate_information_response (information_config m) = Some bs"
    using assms(1) responses_total by (simp_all add: sim_inv_def)
  show ?thesis
    using assms i t w rej r responses_total(1,2)
    by (simp add: process_command_def Let_def split_def apply_or_defer_inv)
qed

lemma next_client_range:
  fixes c :: u8 assumes "0x11 \<le> c" and "c \<le> 0x2F"
  defines "d \<equiv> if c \<ge> 0x2F then 0x11 else c + 1"
  shows "0x11 \<le> d" and "d \<le> 0x2F"
proof -
  have "unat c \<le> 47" "17 \<le> unat c" using assms by (simp_all add: word_le_nat_alt)
  then have "unat (c + 1) = unat c + 1" by (simp add: unat_word_ariths)
  then show "0x11 \<le> d" "d \<le> 0x2F" using assms(1,2) by (auto simp: d_def word_le_nat_alt)
qed

lemma assign_channel_inv: "sim_inv m \<Longrightarrow> sim_inv (fst (assign_channel m h))"
  using next_client_range [of "next_client_id m"]
  by (auto simp: assign_channel_def Let_def split_def sim_inv_def split: option.splits if_splits)

lemma process_registration_total:
  assumes "sim_inv m" shows "\<exists>m' r. process_registration m p = Some (m', r) \<and> sim_inv m'"
proof -
  have "sim_inv (m\<lparr>rejected_registration_responses := n\<rparr>)"
    "sim_inv (m\<lparr>sim_client_id := a, sim_registered := b, pending_client_hash := d\<rparr>)" for n a b d
    using assms by (simp_all add: sim_inv_def)
  moreover obtain bs where "generate_client_id_assignment c h = Some (bs c h)" for c h
    using responses_total(5) by metis
  moreover obtain cs where "generate_existing_client_response c h = Some (cs c h)" for c h
    using responses_total(6) by metis
  ultimately show ?thesis using assms assign_channel_inv [OF assms]
    by (simp add: process_registration_def Let_def split_def)
qed

lemma sim_process_frame_total:
  assumes "sim_inv m" and "\<not> sets_255 f"
  shows "\<exists>m' r. sim_process_frame m f = Some (m', r) \<and> sim_inv m'"
proof -
  have "sim_inv (m\<lparr>sim_client_id := a, sim_registered := b\<rparr>)" for a b
    using assms(1) by (simp add: sim_inv_def)
  then show ?thesis
    using assms process_registration_total [OF assms(1), of "payload f"]
      process_command_total [OF assms(1), of "payload f"]
    by (auto simp: sim_process_frame_def Let_def sets_255_def)
qed

lemma sim_process_frames_total:
  "sim_inv m \<Longrightarrow> list_all (\<lambda>f. \<not> sets_255 f) fs \<Longrightarrow>
     \<exists>m' bs. sim_process_frames m fs = Some (m', bs) \<and> sim_inv m'"
proof (induction fs arbitrary: m)
  case (Cons f fs)
  obtain m1 r where f: "sim_process_frame m f = Some (m1, r)" "sim_inv m1"
    using sim_process_frame_total [of m f] Cons.prems by auto
  obtain m2 bs where "sim_process_frames m1 fs = Some (m2, bs)" "sim_inv m2"
    using Cons.IH [OF f(2)] Cons.prems by auto
  with f show ?case by simp
qed simp

section \<open>Commands and their confirmation\<close>

text \<open>What an accepted command does to the state of the spa.\<close>

definition executed :: "Command \<Rightarrow> SpaState \<Rightarrow> SpaState" where
  "executed c s =
     (case c of
        ToggleItem item \<Rightarrow> apply_toggle_by_code s (toggle_code item)
      | SetTemperature t \<Rightarrow> set_target_temp s (temp_from_wire t (sp_temp_scale s))
      | _ \<Rightarrow> s)"

lemma process_command_executes:
  assumes "command_encode c = Inr (mt, p)" and "expected_from_command c st = Some ex"
    and "require_registration m \<longrightarrow> sim_registered m" and "snd (should_accept_command m)"
    and "command_latency_ticks m = 0"
  shows "mt = (0x0A, 0xBF) \<and>
    process_command m p = Some ((fst (should_accept_command m))\<lparr>sim_state := executed c (sim_state m)\<rparr>, None)"
proof -
  have s: "sim_state (fst (should_accept_command m)) = sim_state m"
    "command_latency_ticks (fst (should_accept_command m)) = command_latency_ticks m"
    by (simp_all add: should_accept_command_def split_def Let_def)
  have reg: "(require_registration m \<and> \<not> sim_registered m) = False" using assms(3) by blast
  from assms(1,2) consider i where "c = ToggleItem i" "p = [0x11, toggle_code i, 0]" "mt = (0x0A, 0xBF)"
    | t where "c = SetTemperature t" "p = [0x20, t]" "mt = (0x0A, 0xBF)"
    by (auto simp: expected_from_command_def split: Command.splits if_splits)
  then show ?thesis
  proof cases
    case 1
    then show ?thesis using assms(4,5) s
      by (simp add: process_command_def reg split_def Let_def apply_or_defer_def executed_def)
  next
    case 2
    then show ?thesis using assms(4,5) s
      by (simp add: process_command_def reg split_def Let_def apply_or_defer_def executed_def)
  qed
qed

lemma cycle_pump_neq: "cycle_pump p \<noteq> p" by (cases p) (simp_all add: cycle_pump_def)
lemma cycle_heating_mode_neq: "cycle_heating_mode h \<noteq> h" by (cases h) (simp_all add: cycle_heating_mode_def)
lemma flip_temp_range_neq: "flip_temp_range r \<noteq> r" by (cases r) (simp_all add: flip_temp_range_def)

text \<open>What the tracker reads of a status, which a tick of the physics does not touch.\<close>

definition same_switches :: "SpaState \<Rightarrow> SpaState \<Rightarrow> bool" where
  "same_switches s t \<longleftrightarrow> sp_pumps s = sp_pumps t \<and> sp_lights s = sp_lights t \<and> sp_blower s = sp_blower t \<and>
     sp_hold s = sp_hold t \<and> sp_heating_mode s = sp_heating_mode t \<and> sp_temp_range s = sp_temp_range t \<and>
     sp_set_temp s = sp_set_temp t \<and> sp_temp_scale s = sp_temp_scale t \<and>
     sp_set_temp_high s = sp_set_temp_high t \<and> sp_set_temp_low s = sp_set_temp_low t"

lemma same_switches_refl: "same_switches s s" by (simp add: same_switches_def)

lemma same_switches_trans: "same_switches s t \<Longrightarrow> same_switches t u \<Longrightarrow> same_switches s u"
  by (simp add: same_switches_def)

lemma same_switches_physics: "same_switches (fst (simulate_physics s ctx)) s"
proof -
  obtain c h where "fst (simulate_physics s ctx) =
      advance_clock (s\<lparr>sp_current_temp := temp_convert (temp_fahrenheit c) (sp_temp_scale s), sp_is_heating := h\<rparr>)"
    by (rule simulate_physics_shape)
  then show ?thesis by (simp add: same_switches_def)
qed

lemma same_switches_executed: "same_switches s t \<Longrightarrow> same_switches (executed c s) (executed c t)"
  by (auto simp: same_switches_def executed_def apply_toggle_by_code_def switch_range_def set_target_temp_def
      Let_def split: Command.splits TempRange.splits)

lemma spa_ok_executed:
  assumes "spa_ok s" and "command_encode c = Inr r" shows "spa_ok (executed c s)"
  using assms by (cases c) (auto simp: executed_def spa_ok_toggle ABSOLUTE_MAX_TEMP_F_def
      word_le_nat_alt intro!: spa_ok_set_target wire_ok_from_wire split: if_splits)

lemma status_of_reads:
  "pumps (status_of s pr fault current target) = sp_pumps s"
  "lights (status_of s pr fault current target) = sp_lights s"
  "blower (status_of s pr fault current target) = sp_blower s"
  "is_hold (status_of s pr fault current target) = sp_hold s"
  "heating_mode (status_of s pr fault current target) = sp_heating_mode s"
  "temp_range (status_of s pr fault current target) = sp_temp_range s"
  "set_temp (status_of s pr fault current target) = temp_from_wire target (sp_temp_scale s)"
  by (simp_all add: status_of_def)

lemma executed_confirmed:
  assumes ex: "expected_from_command c (status_of s pr fault current target) = Some ex"
    and "command_encode c = Inr r" and "spa_ok s" and ss: "same_switches s' (executed c s)"
    and w: "temp_to_wire (sp_set_temp s') = Inr target'"
  shows "is_confirmed ex (status_of s' pr' fault' current' target')"
proof (cases c)
  case (ToggleItem i)
  then show ?thesis
    using assms(3) ex ss cycle_pump_neq cycle_heating_mode_neq flip_temp_range_neq
    by (cases i) (auto simp: expected_from_command_def is_confirmed_def status_of_reads executed_def
        same_switches_def apply_toggle_by_code_def switch_range_def spa_ok_def Let_def split: TempRange.splits)
next
  case (SetTemperature t)
  then have "t \<le> 108" using assms(2) by (auto simp: ABSOLUTE_MAX_TEMP_F_def not_less split: if_splits)
  then have t: "unat t \<noteq> 255" by (auto simp: word_le_nat_alt)
  have "sp_set_temp s' = temp_from_wire t (sp_temp_scale s)"
    using ss SetTemperature by (simp add: same_switches_def executed_def set_target_temp_def Let_def split: TempRange.splits)
  with w t have "target' = t" by (simp add: temp_to_wire_from_wire)
  moreover have "ex = TemperatureSet t" using ex SetTemperature by (simp add: expected_from_command_def)
  ultimately show ?thesis using t by (simp add: is_confirmed_def status_of_reads temp_to_wire_from_wire)
qed (use ex in \<open>simp_all add: expected_from_command_def\<close>)

lemma toggle_not_confirmed:
  "expected_from_command (ToggleItem i) st = Some ex \<Longrightarrow> \<not> is_confirmed ex st"
  by (cases i) (auto simp: expected_from_command_def is_confirmed_def)

section \<open>The simulator as a machine\<close>

datatype SimEvent = Sim_Tick | Sim_Receive "u8 list"

fun sim_step :: "SpaSim \<Rightarrow> SimEvent \<Rightarrow> (SpaSim \<times> u8 list) option" where
  "sim_step m Sim_Tick = sim_tick m"
| "sim_step m (Sim_Receive bs) = process_incoming_bytes m bs"

fun sim_safe :: "SimEvent \<Rightarrow> bool" where
  "sim_safe Sim_Tick = True"
| "sim_safe (Sim_Receive bs) =
     (case decoder_feed_slice decoder_new bs of None \<Rightarrow> True | Some (_, fs) \<Rightarrow> list_all (\<lambda>f. \<not> sets_255 f) fs)"

interpretation sim: partial_machine sim_step sim_inv sim_safe
proof unfold_locales
  fix m e assume i: "sim_inv m" and s: "sim_safe e"
  show "\<exists>m' bs. sim_step m e = Some (m', bs) \<and> sim_inv m'"
  proof (cases e)
    case (Sim_Receive bs)
    obtain d fs where d: "decoder_feed_slice decoder_new bs = Some (d, fs)"
      using slice.feed_total [of decoder_new bs] decoder_ready_inv [OF decoder_ready_new] by auto
    with s Sim_Receive have "list_all (\<lambda>f. \<not> sets_255 f) fs" by simp
    from sim_process_frames_total [OF i this] d Sim_Receive show ?thesis
      by (simp add: process_incoming_bytes_def)
  qed (use sim_tick_total [OF i] in simp)
qed

lemma process_events_set_temp: "sp_set_temp (snd (process_events now es s)) = sp_set_temp s"
  by (induction now es s rule: process_events.induct)
    (auto simp: apply_event_def split: prod.splits SpaEventType.splits)

text \<open>A tick with a set temperature that the wire cannot carry panics.\<close>

lemma tick_ordinary_panics:
  assumes "temp_to_wire (sp_set_temp (sim_state m)) = Inl e" shows "tick_ordinary m = None"
proof -
  define m1 where "m1 = fst (the (emit_query m))"
  have q: "emit_query m = Some (m1, snd (the (emit_query m)))" by (simp add: m1_def emit_query_wire)
  define m2 where "m2 = fst (jitter_padding_len (sim_simulate_physics (process_pending_events m1)))"
  have "sp_set_temp (sim_state m1) = sp_set_temp (sim_state m)" by (simp add: m1_def emit_query_wire)
  then have "sp_set_temp (sim_state (process_pending_events m1)) = sp_set_temp (sim_state m)"
    by (simp add: process_pending_events_def Let_def split_def process_events_set_temp)
  then have "sp_set_temp (sim_state (sim_simulate_physics (process_pending_events m1))) = sp_set_temp (sim_state m)"
    by (simp add: sim_simulate_physics_def Let_def split_def)
  then have m2: "sp_set_temp (sim_state m2) = sp_set_temp (sim_state m)"
    by (simp add: m2_def jitter_padding_len_def next_ready_rand_def Let_def split_def)
  have "sim_generate_status_frame m2 = None"
    using assms m2 by (auto simp: sim_generate_status_frame_def physics_noise_value_def ready_rand_value_def
        sim_next_physics_noise_rand_def next_ready_rand_def generate_status_frame_def Let_def split_def)
  then show ?thesis by (subst tick_ordinary_def, subst q) (simp add: split_def m2_def [symmetric])
qed

section \<open>Properties\<close>

text \<open>
  The simulator panics for one command only. Whatever bytes it receives and however
  often it ticks, as long as no frame sets the temperature byte 255 it goes on, and hands out
  channels from 0x11 to 0x2F; a frame that sets 255 is accepted, and the next tick panics because the
  set temperature does not encode.
\<close>

theorem sim_never_panics:
  "(list_all sim_safe es \<longrightarrow>
      (\<exists>m bs. run_partial sim_step sim_new es = Some (m, bs) \<and>
        0x11 \<le> next_client_id m \<and> next_client_id m \<le> 0x2F)) \<and>
   run_partial sim_step sim_new
     [Sim_Receive (wire_bytes \<lparr>message_type = (0x0A, 0xBF), payload = [0x20, 0xFF]\<rparr>), Sim_Tick] = None"
proof
  show "list_all sim_safe es \<longrightarrow>
      (\<exists>m bs. run_partial sim_step sim_new es = Some (m, bs) \<and>
        0x11 \<le> next_client_id m \<and> next_client_id m \<le> 0x2F)"
    using sim.run_total [OF sim_inv_new] unfolding sim_inv_def by blast
  define f where "f = \<lparr>message_type = (0x0A, 0xBF), payload = [0x20, 0xFF :: u8]\<rparr>"
  define m where "m = sim_new\<lparr>sim_state := set_target_temp spa_state_default (temp_from_wire 0xFF Celsius)\<rparr>"
  have "delimited f" by (simp add: f_def delimited_def encodable_def)
  then have d: "decoder_feed_slice decoder_new (wire_bytes f) = Some (decoder_new, [f])"
    by (rule slice.feed_enc [OF decoder_ready_new])
  have "sim_process_frame sim_new f = Some (m, None)"
    by (simp add: sim_process_frame_def process_command_def f_def m_def sim_new_def should_accept_command_def
        ei_should_accept_command_def error_injection_new_def f32_le_def apply_or_defer_def
        spa_state_default_def)
  with d have r: "process_incoming_bytes sim_new (wire_bytes f) = Some (m, [])"
    by (simp add: process_incoming_bytes_def)
  have "temp_to_wire (sp_set_temp (sim_state m)) = Inl TempOverflow"
    by (simp add: m_def set_target_temp_def spa_state_default_def temp_to_wire_from_wire)
  from tick_ordinary_panics [of _ TempOverflow] this have "sim_tick m = None"
    by (simp add: sim_tick_def Let_def split_def process_pending_commands_def m_def sim_new_def
        ei_tick_bus_silence_def error_injection_new_def fs_take_remainder_def frame_splitter_new_def)
  with r show "run_partial sim_step sim_new [Sim_Receive (wire_bytes \<lparr>message_type = (0x0A, 0xBF), payload = [0x20, 0xFF]\<rparr>), Sim_Tick] = None"
    by (simp add: f_def)
qed

theorem sim_never_panics_witness:
  "\<exists>m bs. run_partial sim_step sim_new [Sim_Tick, Sim_Tick] = Some (m, bs)"
  using sim_never_panics [of "[Sim_Tick, Sim_Tick]"] by auto

text \<open>
  What the tracker of the controller waits for is what the spa does. A command that is
  tracked and that the spa accepts is executed with the next frame, and from then on, for as many
  ticks of the physics as there are before another command, every status that is sent confirms it;
  the status before it does not, unless the command sets the temperature that is already set.
\<close>

theorem sim_confirms_commands:
  assumes "sim_inv m" and "command_encode c = Inr (mt, p)"
    and "expected_from_command c (status_of (sim_state m) pr fault current target) = Some ex"
    and "require_registration m \<longrightarrow> sim_registered m"
    and "snd (should_accept_command m)" and "command_latency_ticks m = 0"
  shows "(\<exists>m'. sim_process_frame m \<lparr>message_type = mt, payload = p\<rparr> = Some (m', None) \<and>
      (\<forall>ctxs. let s = fold (\<lambda>ctx s. fst (simulate_physics s ctx)) ctxs (sim_state m') in
         \<exists>target'. temp_to_wire (sp_set_temp s) = Inr target' \<and>
           (\<forall>pr' fault' current'. is_confirmed ex (status_of s pr' fault' current' target')))) \<and>
    (is_confirmed ex (status_of (sim_state m) pr fault current target) \<longrightarrow>
      (\<exists>t. c = SetTemperature t \<and> temp_to_wire (set_temp (status_of (sim_state m) pr fault current target)) = Inr t))"
proof
  have ok: "spa_ok (sim_state m)" using assms(1) by (simp add: sim_inv_def)
  define m' where "m' = (fst (should_accept_command m))\<lparr>sim_state := executed c (sim_state m)\<rparr>"
  have p: "sim_process_frame m \<lparr>message_type = mt, payload = p\<rparr> = Some (m', None)"
    using process_command_executes [OF assms(2) assms(3) assms(4) assms(5) assms(6)]
    by (simp add: sim_process_frame_def m'_def)
  note ok' = spa_ok_executed [OF ok assms(2)]
  have run: "same_switches (fold (\<lambda>ctx s. fst (simulate_physics s ctx)) ctxs s) s \<and>
      (spa_ok s \<longrightarrow> spa_ok (fold (\<lambda>ctx s. fst (simulate_physics s ctx)) ctxs s))" for ctxs s
    by (induction ctxs arbitrary: s)
      (use same_switches_physics spa_ok_physics in \<open>auto simp: same_switches_def\<close>)
  have "let s = fold (\<lambda>ctx s. fst (simulate_physics s ctx)) ctxs (sim_state m') in
         \<exists>target'. temp_to_wire (sp_set_temp s) = Inr target' \<and>
           (\<forall>pr' fault' current'. is_confirmed ex (status_of s pr' fault' current' target'))" for ctxs
    using run [of ctxs "executed c (sim_state m)"] ok' executed_confirmed [OF assms(3) assms(2) ok]
    by (auto simp: m'_def Let_def spa_ok_def wire_ok_def)
  with p show "\<exists>m'. sim_process_frame m \<lparr>message_type = mt, payload = p\<rparr> = Some (m', None) \<and>
      (\<forall>ctxs. let s = fold (\<lambda>ctx s. fst (simulate_physics s ctx)) ctxs (sim_state m') in
         \<exists>target'. temp_to_wire (sp_set_temp s) = Inr target' \<and>
           (\<forall>pr' fault' current'. is_confirmed ex (status_of s pr' fault' current' target')))" by blast
  show "is_confirmed ex (status_of (sim_state m) pr fault current target) \<longrightarrow>
      (\<exists>t. c = SetTemperature t \<and> temp_to_wire (set_temp (status_of (sim_state m) pr fault current target)) = Inr t)"
    using assms(3) toggle_not_confirmed
    by (cases c) (auto simp: expected_from_command_def is_confirmed_def split: sum.splits)
qed

theorem sim_confirms_commands_witness:
  "\<exists>m'. sim_process_frame sim_new \<lparr>message_type = (0x0A, 0xBF), payload = [0x11, 0x04, 0]\<rparr> = Some (m', None)"
proof -
  have "snd (should_accept_command sim_new)"
    by (simp add: should_accept_command_def ei_should_accept_command_def sim_new_def error_injection_new_def f32_le_def Let_def)
  from sim_confirms_commands [OF sim_inv_new _ _ _ this, of "ToggleItem Pump1" "(0x0A, 0xBF)" "[0x11, 0x04, 0]" 0 False 0 0 "PumpToggled Pump1 Pump_Off"]
  show ?thesis by (auto simp: expected_from_command_def status_of_def sim_new_def spa_state_default_def)
qed

end
