(* ===== verification/SimTraffic.thy ===== *)
theory SimTraffic
  imports SimProperties
begin

text \<open>
  What one tick of a simulated spa puts on the bus when no error is being injected: the registration
  query while no client is registered, then the status of its state, then possibly a clear-to-send.
\<close>

section \<open>A quiet simulator\<close>

text \<open>Nothing is being injected or deferred. Jitter, noise, faults, priming and the ready interval are free.\<close>

definition quiet :: "SpaSim \<Rightarrow> bool" where
  "quiet m \<longleftrightarrow> sim_inv m \<and> pending_commands m = [] \<and> pending_events m = [] \<and>
     bus_silence_remaining (error_injection m) = 0 \<and> \<not> inject_corrupt_next (error_injection m) \<and>
     split_point (frame_splitter m) = None \<and> split_remainder (frame_splitter m) = None"

text \<open>What a tick leaves alone.\<close>

definition same_client :: "SpaSim \<Rightarrow> SpaSim \<Rightarrow> bool" where
  "same_client m m' \<longleftrightarrow> sim_client_id m' = sim_client_id m \<and> sim_registered m' = sim_registered m \<and>
     pending_client_hash m' = pending_client_hash m \<and> next_client_id m' = next_client_id m \<and>
     require_registration m' = require_registration m \<and>
     registration_window_ticks m' = registration_window_ticks m \<and>
     command_latency_ticks m' = command_latency_ticks m \<and>
     ready_interval_range m' = ready_interval_range m \<and>
     command_success_rate (error_injection m') = command_success_rate (error_injection m) \<and>
     command_counter (error_injection m') = command_counter (error_injection m) \<and>
     same_switches (sim_state m') (sim_state m)"

lemma same_client_refl: "same_client m m"
  by (simp add: same_client_def same_switches_refl)

lemma same_client_trans: "same_client m m' \<Longrightarrow> same_client m' m'' \<Longrightarrow> same_client m m''"
  by (simp add: same_client_def same_switches_def)

lemmas noise_defs = physics_noise_value_def ready_rand_value_def sim_next_physics_noise_rand_def
  next_ready_rand_def

lemma quiet_new: "quiet sim_new"
  by (simp add: quiet_def sim_inv_new) (simp add: sim_new_def error_injection_new_def frame_splitter_new_def)

section \<open>The parts of a tick\<close>

lemma query_frame_delimited [simp]: "delimited \<lparr>message_type = (0xFE, 0xBF), payload = [0]\<rparr>"
  and ready_frame_delimited [simp]: "delimited \<lparr>message_type = (c, 0xBF), payload = [6]\<rparr>"
  by (simp_all add: delimited_def encodable_def)

text \<open>The physics and the noise before the status: only the state moves, and no switch of it.\<close>

lemma tick_physics:
  assumes "quiet m" and "emit_query m = Some (m1, q)"
  defines "m2 \<equiv> fst (jitter_padding_len (sim_simulate_physics (process_pending_events m1)))"
  shows "quiet m2" and "same_client m m2"
    and "registration_query_tick m2 = (if sim_registered m then registration_query_tick m else Some (tick_count m))"
    and "tick_count m2 = tick_count m" and "ready_countdown m2 = ready_countdown m"
proof -
  have i: "sim_inv m1" "quiet m1"
    using assms(1,2) by (auto simp: emit_query_wire quiet_def sim_inv_def split: if_splits)
  then have e: "process_pending_events m1 = m1" by (simp add: process_pending_events_def quiet_def)
  have "sim_inv m2" using sim_simulate_physics_inv [OF i(1)] by (simp add: m2_def e)
  then show "quiet m2" using i(2)
    by (simp add: quiet_def m2_def e sim_simulate_physics_def jitter_padding_len_def noise_defs Let_def split_def)
  show "same_client m m2" using assms(2) same_switches_physics
    by (auto simp: same_client_def m2_def e emit_query_wire sim_simulate_physics_def jitter_padding_len_def
        noise_defs Let_def split_def split: if_splits)
  show "registration_query_tick m2 = (if sim_registered m then registration_query_tick m else Some (tick_count m))"
    and "tick_count m2 = tick_count m" and "ready_countdown m2 = ready_countdown m"
    using assms(2) by (auto simp: m2_def e emit_query_wire sim_simulate_physics_def jitter_padding_len_def
        noise_defs Let_def split_def split: if_splits)
qed

lemma noise_same:
  assumes "physics_noise_value m = (m1, nv)" and "ready_rand_value m1 = (m2, rv)" and "quiet m"
  shows "quiet m2" and "same_client m m2" and "sim_state m2 = sim_state m"
    and "registration_query_tick m2 = registration_query_tick m"
    and "tick_count m2 = tick_count m" and "ready_countdown m2 = ready_countdown m"
    and "error_injection m2 = error_injection m"
  using assms by (auto simp: noise_defs quiet_def sim_inv_def same_client_def same_switches_refl Let_def split_def
      split: if_splits)

lemma tick_status_frame:
  assumes "quiet m" and "sim_generate_status_frame m = Some (m', bs)"
  shows "\<exists>pr fault current target. bs = wire_bytes (status_frame (sim_state m') pr fault current target) \<and>
      temp_to_wire (sp_set_temp (sim_state m')) = Inr target"
    and "quiet m'" and "same_client m m'"
    and "registration_query_tick m' = registration_query_tick m"
    and "tick_count m' = tick_count m" and "ready_countdown m' = ready_countdown m"
proof -
  obtain m1 nv where n: "physics_noise_value m = (m1, nv)" by fastforce
  obtain m2 rv where r: "ready_rand_value m1 = (m2, rv)" by fastforce
  note same = noise_same [OF n r assms(1)]
  define m3 where "m3 = m2\<lparr>error_injection := (error_injection m2)\<lparr>inject_corrupt_next := False\<rparr>\<rparr>"
  obtain target where t: "temp_to_wire (sp_set_temp (sim_state m2)) = Inr target"
    using same(1) by (auto simp: quiet_def sim_inv_def spa_ok_def wire_ok_def)
  have c: "\<not> inject_corrupt_next (error_injection m2)" using same(1) by (simp add: quiet_def)
  obtain current where g: "generate_status_frame (sim_state m2) (priming_remaining_ticks m2)
      (fault_active (fault_manager m2)) (report_unknown_temp m2) (sensor_noise_jitter m2)
      (physics_unknown_temp_ticks m2) (physics_tick_count m2) (physics_noise_amplitude m2) nv rv False =
      Some (wire_bytes (status_frame (sim_state m2) (priming_remaining_ticks m2)
        (fault_active (fault_manager m2)) current target))"
    using generate_status_frame_wire [OF t, where corrupt = False] by (metis (full_types))
  have "m' = m3 \<and> bs = wire_bytes (status_frame (sim_state m2) (priming_remaining_ticks m2)
      (fault_active (fault_manager m2)) current target)"
    using assms(2) c g unfolding sim_generate_status_frame_def n r Let_def prod.case ei_take_corrupt_next_def
    by (simp add: m3_def)
  moreover have "quiet m3" "same_client m m3" "registration_query_tick m3 = registration_query_tick m"
    "tick_count m3 = tick_count m" "ready_countdown m3 = ready_countdown m" "sim_state m3 = sim_state m2"
    using same by (simp_all add: m3_def quiet_def sim_inv_def same_client_def)
  ultimately show "\<exists>pr fault current target. bs = wire_bytes (status_frame (sim_state m') pr fault current target) \<and>
      temp_to_wire (sp_set_temp (sim_state m')) = Inr target"
    "quiet m'" "same_client m m'" "registration_query_tick m' = registration_query_tick m"
    "tick_count m' = tick_count m" "ready_countdown m' = ready_countdown m"
    using t by auto
qed

definition ready_frame_of :: "SpaSim \<Rightarrow> frame" where
  "ready_frame_of m =
     \<lparr>message_type = (case sim_client_id m of Some c \<Rightarrow> c | None \<Rightarrow> 0x10, 0xBF), payload = [6]\<rparr>"

definition query_frame :: frame where
  "query_frame = \<lparr>message_type = (0xFE, 0xBF), payload = [0]\<rparr>"

lemma ready_frame_wire: "sim_generate_ready_frame m = Some (wire_bytes (ready_frame_of m))"
  by (simp add: sim_generate_ready_frame_def generate_ready_frame_def sim_frame_wire ready_frame_of_def)

text \<open>What follows the status: nothing, or the clear-to-send when its countdown has run out.\<close>

lemma maybe_emit_ready_quiet:
  assumes "quiet m" and "maybe_emit_ready m out = Some (m', bs)"
  shows "bs = out @ (if ready_countdown m \<le> 1 then wire_bytes (ready_frame_of m) else [])"
    and "quiet m'" and "same_client m m'" and "sim_state m' = sim_state m"
    and "registration_query_tick m' = registration_query_tick m" and "tick_count m' = tick_count m"
    and "ready_interval_range m = (1, 1) \<Longrightarrow> ready_countdown m \<le> 1 \<Longrightarrow> ready_countdown m' = 1"
proof -
  define m1 where "m1 = (if ready_countdown m > 0 then m\<lparr>ready_countdown := ready_countdown m - 1\<rparr> else m)"
  have q: "quiet m1" "same_client m m1" "sim_state m1 = sim_state m" "sim_client_id m1 = sim_client_id m"
    "registration_query_tick m1 = registration_query_tick m" "tick_count m1 = tick_count m"
    using assms(1) by (simp_all add: m1_def quiet_def sim_inv_def same_client_def same_switches_refl)
  have z: "ready_countdown m1 = 0 \<longleftrightarrow> ready_countdown m \<le> 1"
  proof -
    have "ready_countdown m \<le> 1 \<longleftrightarrow> ready_countdown m = 0 \<or> ready_countdown m = 1"
      by (auto simp: word_le_nat_alt word_unat_eq_iff)
    then show ?thesis by (auto simp: m1_def word_gt_0)
  qed
  obtain m2 k where n: "next_ready_interval m1 = Some (m2, k)" "sim_inv m2"
    using next_ready_interval_total q(1) unfolding quiet_def by blast
  then have m2: "quiet m2" "same_client m m2" "sim_state m2 = sim_state m"
      "registration_query_tick m2 = registration_query_tick m" "tick_count m2 = tick_count m"
      "ready_interval_range m1 = (1, 1) \<longrightarrow> k = 1"
    using q by (auto simp: next_ready_interval_def noise_defs quiet_def same_client_def Let_def split_def split: if_splits)
  have "m' = (if ready_countdown m1 = 0 then m2\<lparr>ready_countdown := k\<rparr> else m1) \<and>
      bs = out @ (if ready_countdown m1 = 0 then wire_bytes (ready_frame_of m1) else [])"
    using assms(2) n(1) by (auto simp: maybe_emit_ready_def Let_def m1_def [symmetric] ready_frame_wire split: if_splits)
  moreover have "ready_frame_of m1 = ready_frame_of m" by (simp add: ready_frame_of_def q(4))
  moreover have "quiet (m2\<lparr>ready_countdown := k\<rparr>)" "same_client m (m2\<lparr>ready_countdown := k\<rparr>)"
    using m2 by (simp_all add: quiet_def sim_inv_def same_client_def)
  moreover have "ready_interval_range m1 = ready_interval_range m" by (simp add: m1_def)
  ultimately show "bs = out @ (if ready_countdown m \<le> 1 then wire_bytes (ready_frame_of m) else [])"
    "quiet m'" "same_client m m'" "sim_state m' = sim_state m"
    "registration_query_tick m' = registration_query_tick m" "tick_count m' = tick_count m"
    "ready_interval_range m = (1, 1) \<Longrightarrow> ready_countdown m \<le> 1 \<Longrightarrow> ready_countdown m' = 1"
    using z q m2 by auto
qed

lemma emit_status_quiet:
  assumes "quiet m" and "emit_status m out st = Some (m', bs)"
  shows "\<exists>n. bs = out @ concat (replicate (Suc n) st) @
      (if ready_countdown m \<le> 1 then wire_bytes (ready_frame_of m) else [])"
    and "quiet m'" and "same_client m m'" and "sim_state m' = sim_state m"
    and "registration_query_tick m' = registration_query_tick m" and "tick_count m' = tick_count m"
    and "ready_interval_range m = (1, 1) \<Longrightarrow> ready_countdown m \<le> 1 \<Longrightarrow> ready_countdown m' = 1"
proof -
  define m1 where "m1 = m\<lparr>frame_splitter := (frame_splitter m)\<lparr>split_point := None\<rparr>,
    error_injection := (error_injection m)\<lparr>duplicate_next := False\<rparr>\<rparr>"
  define o1 where "o1 = out @ st @ (if duplicate_next (error_injection m) then st else [])"
  have m1: "quiet m1" "same_client m m1" "sim_state m1 = sim_state m" "ready_frame_of m1 = ready_frame_of m"
    "registration_query_tick m1 = registration_query_tick m" "tick_count m1 = tick_count m"
    "ready_countdown m1 = ready_countdown m" "ready_interval_range m1 = ready_interval_range m"
    using assms(1) by (simp_all add: m1_def quiet_def sim_inv_def same_client_def same_switches_refl ready_frame_of_def)
  have e: "maybe_emit_ready m1 o1 = Some (m', bs)"
    using assms by (simp add: emit_status_def fs_take_split_point_def ei_take_duplicate_next_def quiet_def
        m1_def o1_def Let_def)
  note r = maybe_emit_ready_quiet [OF m1(1) e]
  have "o1 = out @ concat (replicate (Suc (if duplicate_next (error_injection m) then 1 else 0)) st)"
    by (simp add: o1_def)
  with r(1) m1 show "\<exists>n. bs = out @ concat (replicate (Suc n) st) @
      (if ready_countdown m \<le> 1 then wire_bytes (ready_frame_of m) else [])" by (metis append_assoc)
  show "quiet m'" "same_client m m'" "sim_state m' = sim_state m"
    "registration_query_tick m' = registration_query_tick m" "tick_count m' = tick_count m"
    "ready_interval_range m = (1, 1) \<Longrightarrow> ready_countdown m \<le> 1 \<Longrightarrow> ready_countdown m' = 1"
    using r m1 same_client_trans by auto
qed

section \<open>One tick\<close>

lemma replicate_frames:
  "concat (replicate n (wire_bytes f)) = concat (map (\<lambda>(bs, f). bs @ wire_bytes f) (replicate n ([], f)))"
  by (induction n) simp_all

text \<open>The frames of a tick, and the state after it.\<close>

definition tick_traffic :: "SpaSim \<Rightarrow> SpaSim \<Rightarrow> frame list \<Rightarrow> bool" where
  "tick_traffic m m' fs \<longleftrightarrow>
     quiet m' \<and> same_client m m' \<and> tick_count m' = tick_count m + 1 \<and>
     registration_query_tick m' =
       (if sim_registered m then registration_query_tick m else Some (tick_count m + 1)) \<and>
     (ready_interval_range m = (1, 1) \<and> ready_countdown m \<le> 1 \<longrightarrow> ready_countdown m' = 1) \<and>
     (\<exists>n pr fault current target.
        temp_to_wire (sp_set_temp (sim_state m')) = Inr target \<and>
        fs = (if sim_registered m then [] else [query_frame]) @
          replicate (Suc n) (status_frame (sim_state m') pr fault current target) @
          (if ready_countdown m \<le> 1 then [ready_frame_of m] else []))"

lemma no_pending_commands: "pending_commands m = [] \<Longrightarrow> process_pending_commands m = m"
  by (cases m) (simp add: process_pending_commands_def)

lemma no_remainder:
  "split_remainder (frame_splitter m) = None \<Longrightarrow>
     m\<lparr>frame_splitter := (frame_splitter m)\<lparr>split_remainder := None\<rparr>\<rparr> = m"
  by (cases m; cases "frame_splitter m") simp

lemma sim_tick_quiet_ordinary:
  "quiet m \<Longrightarrow> sim_tick m = tick_ordinary (m\<lparr>tick_count := tick_count m + 1\<rparr>)"
proof -
  assume q: "quiet m"
  define m0 where "m0 = m\<lparr>tick_count := tick_count m + 1\<rparr>"
  have "process_pending_commands m0 = m0" using q by (simp add: no_pending_commands quiet_def m0_def)
  moreover have "bus_silence_remaining (error_injection m0) = 0" "split_remainder (frame_splitter m0) = None"
    using q by (simp_all add: quiet_def m0_def)
  ultimately show ?thesis
    by (simp add: sim_tick_def ei_tick_bus_silence_def fs_take_remainder_def Let_def no_remainder m0_def [symmetric])
qed

lemma countdowns_quiet:
  assumes "quiet m"
  shows "quiet (tick_priming_countdown (tick_transient_fault_countdown m))"
    and "same_client m (tick_priming_countdown (tick_transient_fault_countdown m))"
    and "sim_state (tick_priming_countdown (tick_transient_fault_countdown m)) = sim_state m"
    and "registration_query_tick (tick_priming_countdown (tick_transient_fault_countdown m)) = registration_query_tick m"
    and "tick_count (tick_priming_countdown (tick_transient_fault_countdown m)) = tick_count m"
    and "ready_countdown (tick_priming_countdown (tick_transient_fault_countdown m)) = ready_countdown m"
  using assms by (simp_all add: quiet_def same_client_def same_switches_refl)
    (simp_all add: tick_priming_countdown_def tick_transient_fault_countdown_def same_switches_refl)

lemma sim_tick_quiet:
  assumes "quiet m"
  shows "\<exists>m' bs fs. sim_tick m = Some (m', bs) \<and> tick_traffic m m' fs \<and>
    (\<forall>d. decoder_ready d \<longrightarrow> decoder_feed_slice d bs = Some (d, fs))"
proof -
  define m0 where "m0 = m\<lparr>tick_count := tick_count m + 1\<rparr>"
  have m0: "quiet m0" "same_client m m0" using assms
    by (simp_all add: m0_def quiet_def sim_inv_def same_client_def same_switches_refl)
  obtain m1 q where q: "emit_query m0 = Some (m1, q)" by (cases "sim_registered m0") (auto simp: emit_query_wire)
  define m2 where "m2 = fst (jitter_padding_len (sim_simulate_physics (process_pending_events m1)))"
  define k where "k = snd (jitter_padding_len (sim_simulate_physics (process_pending_events m1)))"
  note p = tick_physics [OF m0(1) q, folded m2_def]
  obtain m3 st where s: "sim_generate_status_frame m2 = Some (m3, st)"
    using sim_generate_status_total p(1) unfolding quiet_def by blast
  note t = tick_status_frame [OF p(1) s]
  define m4 where "m4 = tick_priming_countdown (tick_transient_fault_countdown m3)"
  note c = countdowns_quiet [OF t(2), folded m4_def]
  obtain m' bs where e: "emit_status m4 (q @ replicate k 0) st = Some (m', bs)"
    using emit_status_total c(1) unfolding quiet_def by blast
  note r = emit_status_quiet [OF c(1) e]
  have run: "sim_tick m = Some (m', bs)"
    using q s e by (simp add: sim_tick_quiet_ordinary [OF assms] m0_def [symmetric] tick_ordinary_def
        m2_def [symmetric] k_def [symmetric] m4_def [symmetric] split_def)
  have same: "same_client m m4"
    using m0(2) p(2) t(3) c(2) by (blast intro: same_client_trans)
  then have same': "same_client m m'" using r(3) same_client_trans by blast
  have rf: "ready_frame_of m4 = ready_frame_of m" using same by (simp add: ready_frame_of_def same_client_def)
  obtain pr fault current target where f: "st = wire_bytes (status_frame (sim_state m') pr fault current target)"
    "temp_to_wire (sp_set_temp (sim_state m')) = Inr target"
    using t(1) c(3) r(4) by auto
  obtain n where n: "bs = (q @ replicate k 0) @ concat (replicate (Suc n) st) @
      (if ready_countdown m4 \<le> 1 then wire_bytes (ready_frame_of m4) else [])" using r(1) by blast
  define sf where "sf = status_frame (sim_state m') pr fault current target"
  define fs where "fs = (if sim_registered m then [] else [query_frame]) @ replicate (Suc n) sf @
      (if ready_countdown m \<le> 1 then [ready_frame_of m] else [])"
  define ps :: "(u8 list \<times> frame) list" where "ps = (if sim_registered m then [] else [([], query_frame)]) @ (replicate k 0, sf) #
      replicate n ([], sf) @ (if ready_countdown m \<le> 1 then [([], ready_frame_of m)] else [])"
  have m0r: "sim_registered m0 = sim_registered m" "ready_countdown m0 = ready_countdown m"
    by (simp_all add: m0_def)
  have qw: "q = (if sim_registered m then [] else wire_bytes query_frame)"
    using q m0r by (simp add: emit_query_wire query_frame_def split: if_splits)
  have cd: "ready_countdown m4 = ready_countdown m" using m0r p(5) t(6) c(6) by simp
  have "concat (map (\<lambda>(bs, f). bs @ wire_bytes f) ps) = bs"
    using n f(1) qw cd rf replicate_frames [of n sf] by (simp add: ps_def sf_def)
  moreover have "map snd ps = fs" by (simp add: ps_def fs_def)
  moreover have "delimited g \<and> (\<forall>b \<in> set xs. b \<noteq> FRAME_MARKER)" if "(xs, g) \<in> set ps" for xs g
    using that by (auto simp: ps_def sf_def query_frame_def ready_frame_of_def FRAME_MARKER_def split: if_splits)
  ultimately have dec: "decoder_feed_slice d bs = Some (d, fs)" if "decoder_ready d" for d
    using slice.feed_frames [OF that, of ps] by auto
  have "tick_traffic m m' fs"
    unfolding tick_traffic_def
  proof (intro conjI)
    show "tick_count m' = tick_count m + 1" using r(6) c(5) t(5) p(4) by (simp add: m0_def)
    show "registration_query_tick m' = (if sim_registered m then registration_query_tick m else Some (tick_count m + 1))"
      using r(5) c(4) t(4) p(3) by (simp add: m0_def)
    show "ready_interval_range m = (1, 1) \<and> ready_countdown m \<le> 1 \<longrightarrow> ready_countdown m' = 1"
      using r(7) cd same by (simp add: same_client_def)
    show "\<exists>n pr fault current target.
        temp_to_wire (sp_set_temp (sim_state m')) = Inr target \<and>
        fs = (if sim_registered m then [] else [query_frame]) @
          replicate (Suc n) (status_frame (sim_state m') pr fault current target) @
          (if ready_countdown m \<le> 1 then [ready_frame_of m] else [])"
      using f(2) unfolding fs_def sf_def by blast
  qed (use r(2) same' in simp_all)
  with run dec show ?thesis by blast
qed

end
