(* ===== verification/RateControl.thy ===== *)
theory RateControl
  imports Interfaces Strings Clock
begin

text \<open>
  The small guards of \<open>crates/launa-core/src\<close>: the rate limiter of incoming commands
  (\<open>rate_limiter.rs\<close>), the rate-limited log (\<open>rate_log.rs\<close>), the heap monitor
  (\<open>heap_monitor.rs\<close>), the channel allocation token (\<open>channel_broker.rs\<close>), and the network helpers
  (\<open>network.rs\<close>). A \<open>usize\<close> count is a natural number; the atomics of the log and of the token are
  plain fields, each operation one atomic step.
\<close>

section \<open>Rate limiter\<close>

definition RATE_LIMIT_MAX_COMMANDS :: nat where "RATE_LIMIT_MAX_COMMANDS = 10"
definition RATE_LIMIT_WINDOW_MS :: u64 where "RATE_LIMIT_WINDOW_MS = 10000"

record RateLimiter =
  rl_count :: nat
  window_start_ms :: u64

definition rate_limiter_new :: RateLimiter where
  "rate_limiter_new = \<lparr>rl_count = 0, window_start_ms = 0\<rparr>"

definition rate_limiter_check :: "RateLimiter \<Rightarrow> u64 \<Rightarrow> RateLimiter \<times> bool" where
  "rate_limiter_check r now_ms =
     (let r1 = (if sat_sub now_ms (window_start_ms r) \<ge> RATE_LIMIT_WINDOW_MS
                then r\<lparr>rl_count := 0, window_start_ms := now_ms\<rparr> else r);
          r2 = r1\<lparr>rl_count := rl_count r1 + 1\<rparr>
      in (r2, rl_count r2 \<le> RATE_LIMIT_MAX_COMMANDS))"

definition rate_limiter_step :: "RateLimiter \<Rightarrow> u64 \<Rightarrow> RateLimiter \<times> bool list" where
  "rate_limiter_step r t = (fst (rate_limiter_check r t), [snd (rate_limiter_check r t)])"

definition allowed :: "RateLimiter \<Rightarrow> u64 list \<Rightarrow> nat" where
  "allowed r ts = length (filter id (snd (run_machine rate_limiter_step r ts)))"

lemma rate_limiter_expired:
  "sat_sub t (window_start_ms r) \<ge> RATE_LIMIT_WINDOW_MS \<Longrightarrow>
     rate_limiter_check r t = (\<lparr>rl_count = 1, window_start_ms = t, \<dots> = RateLimiter.more r\<rparr>, True)"
  by (simp add: rate_limiter_check_def RATE_LIMIT_MAX_COMMANDS_def)

lemma rate_limiter_running:
  "\<not> sat_sub t (window_start_ms r) \<ge> RATE_LIMIT_WINDOW_MS \<Longrightarrow>
     rate_limiter_check r t = (r\<lparr>rl_count := rl_count r + 1\<rparr>, rl_count r < RATE_LIMIT_MAX_COMMANDS)"
  by (simp add: rate_limiter_check_def Let_def less_eq_Suc_le)

lemma allowed_Nil [simp]: "allowed r [] = 0"
  by (simp add: allowed_def)

lemma allowed_Cons:
  "allowed r (t # ts) = (if snd (rate_limiter_check r t) then 1 else 0) +
     allowed (fst (rate_limiter_check r t)) ts"
  by (simp add: allowed_def run_machine_Cons_proj rate_limiter_step_def del: run_machine.simps)

text \<open>Within one window exactly the commands up to the limit pass.\<close>

lemma allowed_one_window:
  assumes "\<And>t. t \<in> set ts \<Longrightarrow> sat_sub t (window_start_ms r) < RATE_LIMIT_WINDOW_MS"
  shows "allowed r ts = min (length ts) (RATE_LIMIT_MAX_COMMANDS - rl_count r)"
  using assms
proof (induction ts arbitrary: r)
  case (Cons t ts)
  have "\<not> sat_sub t (window_start_ms r) \<ge> RATE_LIMIT_WINDOW_MS" using Cons.prems by (simp add: not_le)
  note run = rate_limiter_running [OF this]
  have "allowed (r\<lparr>rl_count := rl_count r + 1\<rparr>) ts =
      min (length ts) (RATE_LIMIT_MAX_COMMANDS - (rl_count r + 1))"
    using Cons.IH [of "r\<lparr>rl_count := rl_count r + 1\<rparr>"] Cons.prems by simp
  with run show ?case by (auto simp: allowed_Cons)
qed simp

lemma allowed_le_two_windows:
  assumes "sorted ts" and "\<And>t. t \<in> set ts \<Longrightarrow> s \<le> t \<and> t - s < RATE_LIMIT_WINDOW_MS"
  shows "allowed r ts \<le> (RATE_LIMIT_MAX_COMMANDS - rl_count r) + RATE_LIMIT_MAX_COMMANDS"
  using assms
proof (induction ts arbitrary: r)
  case (Cons t ts)
  show ?case
  proof (cases "sat_sub t (window_start_ms r) \<ge> RATE_LIMIT_WINDOW_MS")
    case True
    let ?r = "\<lparr>rl_count = 1, window_start_ms = t, \<dots> = RateLimiter.more r\<rparr>"
    have "sat_sub u t < RATE_LIMIT_WINDOW_MS" if "u \<in> set ts" for u
    proof -
      have "s \<le> t" "s \<le> u" "t \<le> u" "u - s < RATE_LIMIT_WINDOW_MS" using Cons.prems that by auto
      then show ?thesis
        by (auto simp: sat_sub_def word_le_nat_alt word_less_nat_alt unat_sub)
    qed
    then have "allowed ?r ts = min (length ts) (RATE_LIMIT_MAX_COMMANDS - 1)"
      using allowed_one_window [of ts ?r] by simp
    with rate_limiter_expired [OF True] show ?thesis
      by (simp add: allowed_Cons RATE_LIMIT_MAX_COMMANDS_def)
  next
    case False
    have "allowed (r\<lparr>rl_count := rl_count r + 1\<rparr>) ts \<le>
        (RATE_LIMIT_MAX_COMMANDS - (rl_count r + 1)) + RATE_LIMIT_MAX_COMMANDS"
      using Cons.IH [of "r\<lparr>rl_count := rl_count r + 1\<rparr>"] Cons.prems by simp
    with rate_limiter_running [OF False] show ?thesis by (auto simp: allowed_Cons)
  qed
qed simp

section \<open>Rate-limited log\<close>

record RateLog =
  last_emit_secs :: u32
  suppressed :: u32

definition rate_log_new :: RateLog where
  "rate_log_new = \<lparr>last_emit_secs = 0, suppressed = 0\<rparr>"

definition rate_log_check :: "RateLog \<Rightarrow> u32 \<Rightarrow> u32 \<Rightarrow> RateLog \<times> (u32 + u32)" where
  "rate_log_check r now_secs cooldown_secs =
     (let last = last_emit_secs r;
          elapsed = sat_sub now_secs last;
          should_emit = (last = 0 \<or> elapsed \<ge> cooldown_secs) in
      if should_emit then
        (r\<lparr>suppressed := 0, last_emit_secs := now_secs\<rparr>, Inr (suppressed r))
      else
        let r' = r\<lparr>suppressed := suppressed r + 1\<rparr> in (r', Inl (suppressed r')))"

definition rate_log_step :: "u32 \<Rightarrow> RateLog \<Rightarrow> u32 \<Rightarrow> RateLog \<times> (u32 + u32) list" where
  "rate_log_step cooldown r t = (fst (rate_log_check r t cooldown), [snd (rate_log_check r t cooldown)])"

text \<open>What a sequence of answers reports, and what it holds back.\<close>

definition reported :: "(u32 + u32) list \<Rightarrow> u32" where
  "reported os = sum_list (map (\<lambda>a. case a of Inr n \<Rightarrow> n | Inl _ \<Rightarrow> 0) os)"

definition held_back :: "(u32 + u32) list \<Rightarrow> nat" where
  "held_back os = length (filter isl os)"

section \<open>Heap monitor\<close>

record HeapMonitor =
  last_check :: "Timestamp option"

definition heap_monitor_new :: HeapMonitor where
  "heap_monitor_new = \<lparr>last_check = None\<rparr>"

definition heap_monitor_tick :: "HeapMonitor \<Rightarrow> Timestamp \<Rightarrow> nat \<Rightarrow> HeapMonitor \<times> bool option" where
  "heap_monitor_tick h now free_heap =
     (let should_check = (case last_check h of None \<Rightarrow> True
            | Some t \<Rightarrow> elapsed_since now t \<ge> HEAP_CHECK_INTERVAL_MS) in
      if \<not> should_check then (h, None)
      else (h\<lparr>last_check := Some now\<rparr>,
            if free_heap < HEAP_CRIT_THRESHOLD then Some True
            else if free_heap < HEAP_WARN_THRESHOLD then Some False
            else None))"

lemma heap_monitor_tick_quiet:
  "last_check h = Some l \<Longrightarrow> elapsed_since now l < HEAP_CHECK_INTERVAL_MS \<Longrightarrow>
     heap_monitor_tick h now free = (h, None)"
  by (simp add: heap_monitor_tick_def not_le)

lemma heap_monitor_tick_critical:
  "snd (heap_monitor_tick h now free) = Some True \<Longrightarrow>
     free < 1024 \<and> last_check (fst (heap_monitor_tick h now free)) = Some now"
  by (auto simp: heap_monitor_tick_def Let_def HEAP_CRIT_THRESHOLD_def split: if_splits)

section \<open>Channel allocation token\<close>

record ChannelAllocatorBroker =
  token_taken :: bool

definition broker_new :: ChannelAllocatorBroker where
  "broker_new = \<lparr>token_taken = False\<rparr>"

definition try_acquire :: "ChannelAllocatorBroker \<Rightarrow> ChannelAllocatorBroker \<times> bool" where
  "try_acquire b = (if token_taken b then (b, False) else (b\<lparr>token_taken := True\<rparr>, True))"

definition broker_release :: "ChannelAllocatorBroker \<Rightarrow> ChannelAllocatorBroker" where
  "broker_release b = b\<lparr>token_taken := False\<rparr>"

text \<open>
  Devices share one broker. A device that acquires becomes a holder of a token, a failed attempt
  changes nothing, and dropping a token releases; the list names the devices whose tokens live.
\<close>

inductive broker_step ::
  "ChannelAllocatorBroker \<times> nat list \<Rightarrow> ChannelAllocatorBroker \<times> nat list \<Rightarrow> bool" where
  acquired: "try_acquire b = (b', True) \<Longrightarrow> broker_step (b, holders) (b', d # holders)"
| refused: "try_acquire b = (b', False) \<Longrightarrow> broker_step (b, holders) (b', holders)"
| dropped: "d \<in> set holders \<Longrightarrow> broker_step (b, holders) (broker_release b, remove1 d holders)"

inductive_cases broker_stepE: "broker_step (b, h) s"

inductive broker_reachable :: "ChannelAllocatorBroker \<times> nat list \<Rightarrow> bool" where
  start: "broker_reachable (broker_new, [])"
| step: "broker_reachable s \<Longrightarrow> broker_step s t \<Longrightarrow> broker_reachable t"

definition broker_inv :: "ChannelAllocatorBroker \<times> nat list \<Rightarrow> bool" where
  "broker_inv s \<longleftrightarrow> length (snd s) = (if token_taken (fst s) then 1 else 0)"

lemma broker_step_inv: "broker_step s t \<Longrightarrow> broker_inv s \<Longrightarrow> broker_inv t"
  by (induction rule: broker_step.induct)
    (auto simp: broker_inv_def try_acquire_def broker_release_def length_remove1 split: if_splits)

lemma broker_reachable_inv: "broker_reachable s \<Longrightarrow> broker_inv s"
proof (induction rule: broker_reachable.induct)
  case start
  show ?case by (simp add: broker_inv_def broker_new_def)
qed (rule broker_step_inv)

section \<open>Network helpers\<close>

definition parse_ip :: "rstr \<Rightarrow> (nat \<times> nat \<times> nat \<times> nat) option" where
  "parse_ip s =
     (case split_char 46 s of
        [a, b, c, d] \<Rightarrow>
          (case (parse_unsigned 255 a, parse_unsigned 255 b, parse_unsigned 255 c, parse_unsigned 255 d) of
             (Some a, Some b, Some c, Some d) \<Rightarrow> Some (a, b, c, d)
           | _ \<Rightarrow> None)
      | _ \<Rightarrow> None)"

fun show_ip :: "nat \<times> nat \<times> nat \<times> nat \<Rightarrow> rstr" where
  "show_ip (a, b, c, d) = show_nat a @ 46 # show_nat b @ 46 # show_nat c @ 46 # show_nat d"

definition backoff_secs :: "u32 \<Rightarrow> u64" where
  "backoff_secs attempt = min (push_bit (unat (min (sat_sub attempt 1) 4)) 5) 60"

lemma split_char_no_sep: "sep \<notin> set s \<Longrightarrow> split_char sep s = [s]"
  by (induction s) auto

lemma split_char_append: "sep \<notin> set s \<Longrightarrow> split_char sep (s @ sep # t) = s # split_char sep t"
  by (induction s) auto

lemma dot_not_in_show_nat: "46 \<notin> set (show_nat n)"
  using show_nat_digits [of 46 n] by auto

interpretation ip_codec: codec show_ip parse_ip "\<lambda>(a, b, c, d). a \<le> 255 \<and> b \<le> 255 \<and> c \<le> 255 \<and> d \<le> 255"
  by unfold_locales
    (auto simp: parse_ip_def split_char_append split_char_no_sep dot_not_in_show_nat
      parse_unsigned_show_nat)

lemma backoff_bounds: "5 \<le> unat (backoff_secs n) \<and> unat (backoff_secs n) \<le> 60"
proof -
  have "min (sat_sub n 1) 4 \<in> {0, 1, 2, 3, 4}"
  proof -
    have "unat (min (sat_sub n 1) 4) \<le> 4"
      by (simp add: min_def word_le_nat_alt)
    then have "unat (min (sat_sub n 1) 4) \<in> {0, 1, 2, 3, 4}" by auto
    then show ?thesis by (auto simp: word_unat_eq_iff)
  qed
  then show ?thesis by (auto simp: backoff_secs_def push_bit_eq_mult)
qed

section \<open>Properties\<close>

text \<open>
  The rate limiter's window is fixed, not sliding. Among commands that arrive within
  less than ten seconds of each other at most twenty pass, from any state of the limiter; and twenty
  can pass, even within ten milliseconds, when they straddle the end of a window.
\<close>

theorem rate_limiter_window:
  assumes "sorted ts" and "\<And>t. t \<in> set ts \<Longrightarrow> s \<le> t \<and> t - s < RATE_LIMIT_WINDOW_MS"
  shows "allowed r ts \<le> 20 \<and>
    allowed rate_limiter_new (replicate 10 9990 @ replicate 10 10000) = 20"
proof (rule conjI)
  show "allowed r ts \<le> 20"
  proof -
    have "allowed r ts \<le> (RATE_LIMIT_MAX_COMMANDS - rl_count r) + RATE_LIMIT_MAX_COMMANDS"
      by (rule allowed_le_two_windows [OF assms])
    then show ?thesis by (simp add: RATE_LIMIT_MAX_COMMANDS_def)
  qed
  show "allowed rate_limiter_new (replicate 10 9990 @ replicate 10 10000) = 20"
    by code_simp
qed

theorem rate_limiter_window_witness:
  "allowed \<lparr>rl_count = 3, window_start_ms = 500\<rparr> [1000, 1000, 2000] \<le> 20"
  by (rule rate_limiter_window [of "[1000, 1000, 2000]" 1000, THEN conjunct1])
    (auto simp: RATE_LIMIT_WINDOW_MS_def)

text \<open>
  The rate-limited log loses no count. After any sequence of log attempts the
  messages reported as suppressed and those still pending add up (in the 32-bit counter) to the
  messages that were actually held back.
\<close>

theorem rate_log_conserves:
  "reported (snd (run_machine (rate_log_step cooldown) r ts)) +
     suppressed (fst (run_machine (rate_log_step cooldown) r ts)) =
   suppressed r + word_of_nat (held_back (snd (run_machine (rate_log_step cooldown) r ts)))"
proof (induction ts arbitrary: r)
  case Nil
  show ?case by (simp add: reported_def held_back_def)
next
  case (Cons t ts)
  from Cons [of "fst (rate_log_check r t cooldown)"] show ?case
    by (auto simp: run_machine_Cons_proj rate_log_step_def rate_log_check_def Let_def reported_def
        held_back_def algebra_simps simp del: run_machine.simps)
qed

text \<open>
  The allocation token is exclusive. In every reachable state at most one token is
  alive, and the broker's flag says exactly whether one is; so dropping a token never frees another
  device's.
\<close>

theorem broker_exclusive:
  assumes "broker_reachable (b, holders)"
  shows "length holders \<le> 1 \<and> (token_taken b \<longleftrightarrow> holders \<noteq> [])"
  using broker_reachable_inv [OF assms] by (auto simp: broker_inv_def split: if_splits)

theorem broker_exclusive_witness:
  "length [7 :: nat] \<le> 1 \<and> (token_taken \<lparr>token_taken = True\<rparr> \<longleftrightarrow> [7 :: nat] \<noteq> [])"
proof (rule broker_exclusive)
  have "broker_step (broker_new, []) (\<lparr>token_taken = True\<rparr>, [7])"
    by (rule broker_step.acquired) (simp add: try_acquire_def broker_new_def)
  then show "broker_reachable (\<lparr>token_taken = True\<rparr>, [7])"
    by (rule broker_reachable.step [OF broker_reachable.start])
qed

end
