(* ===== verification/FaultBuf.thy ===== *)
theory FaultBuf
  imports Strings
begin

text \<open>
  The fixed-size fault string of \<open>crates/launa-core/src/fault_buf.rs\<close>: 64 bytes and a length, read
  back through strict UTF-8 decoding.
\<close>

section \<open>UTF-8 round trip\<close>

lemma utf8_split:
  fixes c :: nat
  shows "c = 64 * (c div 64) + c mod 64" "c = 4096 * (c div 4096) + 64 * (c div 64 mod 64) + c mod 64"
    "c = 262144 * (c div 262144) + 4096 * (c div 4096 mod 64) + 64 * (c div 64 mod 64) + c mod 64"
proof -
  have d: "c div 4096 = c div 64 div 64" "c div 262144 = c div 64 div 64 div 64"
    by (simp_all add: div_mult2_eq)
  have e: "c = 64 * (c div 64) + c mod 64" "c div 64 = 64 * (c div 64 div 64) + c div 64 mod 64"
    "c div 64 div 64 = 64 * (c div 64 div 64 div 64) + c div 64 div 64 mod 64" by simp_all
  show "c = 64 * (c div 64) + c mod 64" by simp
  show "c = 4096 * (c div 4096) + 64 * (c div 64 mod 64) + c mod 64"
    unfolding d using e by linarith
  show "c = 262144 * (c div 262144) + 4096 * (c div 4096 mod 64) + 64 * (c div 64 mod 64) + c mod 64"
    unfolding d using e by linarith
qed

lemma unat_of_nat_u8: "n < 256 \<Longrightarrow> unat (word_of_nat n :: u8) = n"
  by (simp add: unat_of_nat)

lemmas utf8_step_simps = utf8_step_def byte_at_def unat_of_nat_u8 second_range_def in_range_def Let_def

lemma utf8_step_2:
  assumes "2 \<le> a" "a < 32" "b < 64"
  shows "utf8_step (map word_of_nat [0xC0 + a, 0x80 + b] @ bs) = (Some (64 * a + b), 2)"
  using assms by (simp add: utf8_step_simps del: of_nat_add)

lemma utf8_step_3:
  assumes "a < 16" "b < 64" "d < 64" "a = 0 \<Longrightarrow> 32 \<le> b" "a = 13 \<Longrightarrow> b < 32"
  shows "utf8_step (map word_of_nat [0xE0 + a, 0x80 + b, 0x80 + d] @ bs) =
    (Some (4096 * a + 64 * b + d), 3)"
  using assms by (cases "a = 0"; cases "a = 13") (simp_all add: utf8_step_simps del: of_nat_add)

lemma utf8_step_4:
  assumes "a \<le> 4" "b < 64" "d < 64" "e < 64" "a = 0 \<Longrightarrow> 16 \<le> b" "a = 4 \<Longrightarrow> b < 16"
  shows "utf8_step (map word_of_nat [0xF0 + a, 0x80 + b, 0x80 + d, 0x80 + e] @ bs) =
    (Some (262144 * a + 4096 * b + 64 * d + e), 4)"
  using assms by (cases "a = 0"; cases "a = 4") (simp_all add: utf8_step_simps del: of_nat_add)

lemma utf8_step_char:
  assumes "scalar_value c"
  shows "utf8_step (utf8_char c @ bs) = (Some c, len_utf8 c)"
proof -
  have m: "c mod 64 < 64" "c div 64 mod 64 < 64" "c div 4096 mod 64 < 64" by simp_all
  consider (1) "c < 0x80" | (2) "0x80 \<le> c" "c < 0x800" | (3) "0x800 \<le> c" "c < 0x10000"
    | (4) "0x10000 \<le> c" "c < 0x110000"
    using assms unfolding scalar_value_def by linarith
  then show ?thesis
  proof cases
    case 1
    then show ?thesis
      by (simp add: utf8_step_def utf8_char_def len_utf8_def byte_at_def unat_of_nat_u8)
  next
    case 2
    then have q: "2 \<le> c div 64" "c div 64 < 32" by linarith+
    have "utf8_char c = map word_of_nat [0xC0 + c div 64, 0x80 + c mod 64]" "len_utf8 c = 2"
      using 2 by (simp_all add: utf8_char_def len_utf8_def)
    with utf8_step_2 [OF q m(1), of bs] utf8_split(1) [of c] show ?thesis by (simp only:)
  next
    case 3
    have q: "c div 4096 < 16" using 3 by linarith
    have low: "c div 4096 = 0 \<Longrightarrow> 32 \<le> c div 64 mod 64" using 3 utf8_split(2) [of c] m(1) by linarith
    have high: "c div 4096 = 13 \<Longrightarrow> c div 64 mod 64 < 32"
      using 3 utf8_split(2) [of c] assms by (simp add: scalar_value_def; linarith)
    have "utf8_char c = map word_of_nat [0xE0 + c div 4096, 0x80 + c div 64 mod 64, 0x80 + c mod 64]"
      "len_utf8 c = 3"
      using 3 by (simp_all add: utf8_char_def len_utf8_def)
    with utf8_step_3 [OF q m(2,1) low high, of bs] utf8_split(2) [of c] show ?thesis by (simp only:)
  next
    case 4
    have q: "c div 262144 \<le> 4" using 4 by linarith
    have low: "c div 262144 = 0 \<Longrightarrow> 16 \<le> c div 4096 mod 64"
      using 4 utf8_split(3) [of c] m by linarith
    have high: "c div 262144 = 4 \<Longrightarrow> c div 4096 mod 64 < 16"
      using 4 utf8_split(3) [of c] by linarith
    have "utf8_char c = map word_of_nat
        [0xF0 + c div 262144, 0x80 + c div 4096 mod 64, 0x80 + c div 64 mod 64, 0x80 + c mod 64]"
      "len_utf8 c = 4"
      using 4 by (simp_all add: utf8_char_def len_utf8_def)
    with utf8_step_4 [OF q m(3,2,1) low high, of bs] utf8_split(3) [of c] show ?thesis by (simp only:)
  qed
qed

lemma utf8_char_not_Nil: "utf8_char c \<noteq> []"
  by (simp add: utf8_char_def)

lemma from_utf8_step: "bs \<noteq> [] \<Longrightarrow> utf8_step bs = (Some c, n) \<Longrightarrow>
    from_utf8 bs = map_option (Cons c) (from_utf8 (drop n bs))"
  by (cases bs) simp_all

lemma from_utf8_as_bytes: "list_all scalar_value s \<Longrightarrow> from_utf8 (as_bytes s) = Some s"
proof (induction s)
  case (Cons c s)
  then have st: "utf8_step (utf8_char c @ as_bytes s) = (Some c, len_utf8 c)" by (simp add: utf8_step_char)
  have "drop (len_utf8 c) (utf8_char c @ as_bytes s) = as_bytes s"
    by (simp flip: length_utf8_char)
  with from_utf8_step [OF _ st] Cons utf8_char_not_Nil [of c] show ?case
    by (simp add: as_bytes_def)
qed (simp add: as_bytes_def)

section \<open>The buffer\<close>

record FaultBuf =
  fb_data :: "u8 list"
  fb_len :: u8

definition fault_buf_empty :: FaultBuf where
  "fault_buf_empty = \<lparr>fb_data = replicate 64 0, fb_len = 0\<rparr>"

definition fault_buf_from_string :: "rstr \<Rightarrow> FaultBuf" where
  "fault_buf_from_string s =
     (let to_copy = min (length (as_bytes s)) 63;
          buf = take to_copy (as_bytes s) @ drop to_copy (replicate 64 0)
      in \<lparr>fb_data = buf, fb_len = word_of_nat to_copy\<rparr>)"

definition fault_buf_as_str :: "FaultBuf \<Rightarrow> rstr option" where
  "fault_buf_as_str b =
     (if fb_len b = 0 then None else from_utf8 (take (unat (fb_len b)) (fb_data b)))"

lemma fault_buf_as_str_from_string:
  "fault_buf_as_str (fault_buf_from_string s) =
     (if as_bytes s = [] then None else from_utf8 (take 63 (as_bytes s)))"
proof -
  let ?n = "min (length (as_bytes s)) 63"
  have n: "unat (word_of_nat ?n :: u8) = ?n" by (rule unat_of_nat_u8) simp
  have "(word_of_nat ?n :: u8) = 0 \<longleftrightarrow> ?n = 0" using n by (simp add: word_unat_eq_iff)
  then have z: "(word_of_nat ?n :: u8) = 0 \<longleftrightarrow> as_bytes s = []" by (cases "as_bytes s") simp_all
  have t: "take ?n (as_bytes s) = take 63 (as_bytes s)" by (simp add: min_def)
  show ?thesis
    unfolding fault_buf_as_str_def fault_buf_from_string_def Let_def
    using n t z by simp
qed

text \<open>A text that fits is read back unchanged.\<close>

lemma fault_buf_fits:
  assumes "list_all scalar_value s" and "length (as_bytes s) \<le> 63" and "s \<noteq> []"
  shows "fault_buf_as_str (fault_buf_from_string s) = Some s"
proof -
  have "as_bytes s \<noteq> []" using assms(3) utf8_char_not_Nil by (cases s) (simp_all add: as_bytes_def)
  then show ?thesis using assms by (simp add: fault_buf_as_str_from_string from_utf8_as_bytes)
qed

text \<open>
  A longer text may be lost: cutting at 63 bytes can split a character, and then nothing is read back.
\<close>

lemma fault_buf_split_char:
  "fault_buf_as_str (fault_buf_from_string (replicate 62 97 @ [0xE9])) = None"
proof -
  have "as_bytes (replicate 62 97 @ [0xE9]) = replicate 62 97 @ [0xC3, 0xA9]"
    by (simp add: as_bytes_def utf8_char_def replicate_eqI concat_map_singleton)
  then have "fault_buf_as_str (fault_buf_from_string (replicate 62 97 @ [0xE9])) =
      from_utf8 (replicate 62 97 @ [0xC3])"
    by (simp add: fault_buf_as_str_from_string)
  also have "\<dots> = None"
  proof -
    have "from_utf8 (replicate n 97 @ [0xC3]) = None" for n
      by (induction n)
        (simp_all add: utf8_step_def byte_at_def in_range_def second_range_def Let_def)
    then show ?thesis .
  qed
  finally show ?thesis .
qed

end
