(* ===== verification/SpaApp.thy ===== *)
theory SpaApp
  imports RateControl Timers CommandTracker Dispatcher FaultBuf
begin

text \<open>
  The core of the firmware, \<open>crates/launa-core/src/spa_app.rs\<close>: one state that owns registration,
  the command queue, command tracking, timers, and the detection of lost communication. Every entry
  point takes the current time, returns the new state and the list of side effects for the caller
  (\<open>actions.rs\<close>). Log lines are left out; the state of the log's rate limiter is kept. The 32-bit
  counters and the 8-bit attempt counter wrap, as in a release build.
\<close>

section \<open>Actions and state\<close>

datatype AppAction =
    SendFrame "u8 list"
  | PublishState (act_status: StatusUpdate) (act_fault: "rstr option") (recovering_from_stale: bool)
      (act_registration_state: rstr)
  | PublishAvailability bool
  | PublishStaleAvailability
  | PublishDiscovery
  | PublishDiagnostics (uptime_secs: u64) (diag_frames_received: u32) (unregistered_frames: u32)
      (command_retries: u32) (command_drops: u32) (diag_registration_state: rstr)
      (frame_errors: u32) (uart_bytes: u32)
  | PublishAlert (alert_level: rstr) (alert_message: rstr)
  | RequestOta rstr

record SpaApp =
  registration :: RegistrationStateMachine
  registration_started_at :: "Timestamp option"
  cmd_tracker :: CommandTracker
  command_queue :: "Command list"
  pump_timers :: PumpTimerManager
  hold_timer :: HoldModeTimer
  heap_monitor :: HeapMonitor
  last_status :: "StatusUpdate option"
  last_fault :: "rstr option"
  client_id :: "u8 option"
  last_status_time :: "Timestamp option"
  last_probe_time :: "Timestamp option"
  last_diag_time :: "Timestamp option"
  was_stale :: bool
  frames_received :: u32
  unregistered_frames_received :: u32
  no_query_alert_sent :: bool
  reg_log :: RateLog
  boot_time :: Timestamp
  client_hash :: hash
  failed_registration_attempts :: u8
  last_unregistered_frame_time :: "Timestamp option"
  last_registration_probe_time :: "Timestamp option"
  last_cts_time :: "Timestamp option"

section \<open>Construction\<close>

definition with_client_hash :: "Timestamp \<Rightarrow> hash \<Rightarrow> SpaApp" where
  "with_client_hash now h =
     \<lparr>registration = registration_new h, registration_started_at = None,
      cmd_tracker = tracker_new, command_queue = [], pump_timers = pump_timers_new,
      hold_timer = hold_timer_new, heap_monitor = heap_monitor_new, last_status = None,
      last_fault = None, client_id = None, last_status_time = None, last_probe_time = None,
      last_diag_time = None, was_stale = False, frames_received = 0,
      unregistered_frames_received = 0, no_query_alert_sent = False, reg_log = rate_log_new,
      boot_time = now, client_hash = h, failed_registration_attempts = 0,
      last_unregistered_frame_time = None, last_registration_probe_time = None,
      last_cts_time = None\<rparr>"

definition app_new :: "Timestamp \<Rightarrow> SpaApp" where
  "app_new now = with_client_hash now (0x00, 0x01)"

definition derive_client_hash :: "rstr \<Rightarrow> hash" where
  "derive_client_hash device_id =
     (let h = foldl (\<lambda>h b. xor h (ucast b) * 0x0101) (0x811C :: u16) (as_bytes device_id);
          h1 = (if h = 0 then 1 else h);
          h2 = (if h1 = 0xF173 then 0xF174 else h1)
      in (ucast (drop_bit 8 h2), ucast (h2 AND 0xFF)))"

definition new_from_device_id :: "Timestamp \<Rightarrow> rstr \<Rightarrow> SpaApp" where
  "new_from_device_id now device_id = with_client_hash now (derive_client_hash device_id)"

definition set_previous_channel :: "SpaApp \<Rightarrow> u8 \<Rightarrow> SpaApp" where
  "set_previous_channel a ch = a\<lparr>registration := with_previous_channel (client_hash a) ch\<rparr>"

definition app_is_registered :: "SpaApp \<Rightarrow> bool" where
  "app_is_registered a = is_registered (registration a)"

definition registration_state_str :: "SpaApp \<Rightarrow> rstr" where
  "registration_state_str a =
     (case reg_state (registration a) of
        WaitingForQuery \<Rightarrow> lit ''waiting_for_query''
      | WaitingForAssignment \<Rightarrow> lit ''waiting_for_assignment''
      | WaitingForExistingResponse \<Rightarrow> lit ''waiting_for_existing_response''
      | Registered _ \<Rightarrow> lit ''registered'')"

definition force_registered :: "SpaApp \<Rightarrow> u8 \<Rightarrow> SpaApp" where
  "force_registered a cid =
     (let r1 = fst (registration_process (registration a) NewClientQuery);
          r2 = fst (registration_process r1 (ClientIdAssignment cid (client_hash a)))
      in a\<lparr>registration := r2, client_id := Some cid, failed_registration_attempts := 0\<rparr>)"

definition reset_registration_state :: "SpaApp \<Rightarrow> bool \<Rightarrow> SpaApp" where
  "reset_registration_state a clear_commands =
     (let a1 = a\<lparr>registration := registration_reset (registration a), client_id := None,
                registration_started_at := None, last_unregistered_frame_time := None,
                last_registration_probe_time := None, last_cts_time := None\<rparr> in
      if clear_commands then
        a1\<lparr>command_queue := [], cmd_tracker := tracker_reset (cmd_tracker a1),
           pump_timers := cancel_all (pump_timers a1)\<rparr>
      else a1)"

definition force_publish :: "SpaApp \<Rightarrow> AppAction list" where
  "force_publish a =
     (case last_status a of
        Some status \<Rightarrow> [PublishState status (last_fault a) False (registration_state_str a)]
      | None \<Rightarrow> [])"

definition encode_command :: "Command \<Rightarrow> u8 list" where
  "encode_command cmd =
     (case command_encode cmd of
        Inl _ \<Rightarrow> []
      | Inr (msg_type, p) \<Rightarrow> (case FrameEncoder_encode msg_type p of Inr bs \<Rightarrow> bs | Inl _ \<Rightarrow> []))"

definition app_start_pump_timer :: "SpaApp \<Rightarrow> Timestamp \<Rightarrow> u8 \<Rightarrow> u32 \<Rightarrow> SpaApp \<times> AppAction list" where
  "app_start_pump_timer a now pump_no minutes =
     (let (m, c) = start_timer (pump_timers a) pump_no minutes now in
      (a\<lparr>pump_timers := m\<rparr>, (case c of Some cmd \<Rightarrow> [SendFrame (encode_command cmd)] | None \<Rightarrow> [])))"

section \<open>Frames while unregistered\<close>

text \<open>What the action of the registration machine makes the application do.\<close>

definition handle_registration_action ::
  "SpaApp \<Rightarrow> Timestamp \<Rightarrow> RegistrationAction \<Rightarrow> SpaApp \<times> AppAction list" where
  "handle_registration_action a now action =
     (case action of
        SendNewClientResponse \<Rightarrow> (a\<lparr>registration_started_at := Some now\<rparr>, [])
      | SendClientIdAck cid \<Rightarrow>
          (case registration_encode (ClientIdAck cid) of
             Inr encoded \<Rightarrow>
               (a\<lparr>client_id := Some cid, registration_started_at := None,
                  failed_registration_attempts := 0, last_unregistered_frame_time := None,
                  last_registration_probe_time := None\<rparr>, [SendFrame encoded])
           | Inl _ \<Rightarrow> (a, []))
      | SendExistingClientRequest msg \<Rightarrow>
          (case registration_encode msg of
             Inr encoded \<Rightarrow> (a\<lparr>registration_started_at := Some now\<rparr>, [SendFrame encoded])
           | Inl _ \<Rightarrow> (a, []))
      | RegAction_None \<Rightarrow> (a, []))"

definition process_unregistered :: "SpaApp \<Rightarrow> Timestamp \<Rightarrow> frame \<Rightarrow> SpaApp \<times> AppAction list" where
  "process_unregistered a now f =
     (let a1 = a\<lparr>unregistered_frames_received := unregistered_frames_received a + 1,
                last_unregistered_frame_time := Some now\<rparr> in
      case registration_parse (message_type f) (payload f) of
        Inl _ \<Rightarrow> (a1, [])
      | Inr msg \<Rightarrow>
          let now_secs = ucast (as_secs now) :: u32;
              a2 = a1\<lparr>reg_log := fst (rate_log_check (reg_log a1) now_secs 5)\<rparr>;
              (r, action) = registration_process (registration a2) msg
          in handle_registration_action (a2\<lparr>registration := r\<rparr>) now action)"

section \<open>Frames while registered\<close>

definition process_status :: "SpaApp \<Rightarrow> Timestamp \<Rightarrow> rstr \<Rightarrow> StatusUpdate \<Rightarrow> SpaApp \<times> AppAction list" where
  "process_status a now rs status =
     (let a1 = (if app_is_registered a then a\<lparr>frames_received := frames_received a + 1\<rparr> else a);
          a2 = (if app_is_registered a1 then
                  let (ct, result) = verify (cmd_tracker a1) status now;
                      (pt, expired) = tick_all (pump_timers a1) now (pumps status);
                      (ht, release) = hold_timer_tick (hold_timer a1) now (is_hold status)
                  in a1\<lparr>cmd_tracker := ct, pump_timers := pt, hold_timer := ht,
                        command_queue := command_queue a1 @ vr_retries result @ expired @
                          (case release of Some c \<Rightarrow> [c] | None \<Rightarrow> [])\<rparr>
                else a1);
          a3 = a2\<lparr>last_status := Some status, last_status_time := Some now, last_probe_time := Some now\<rparr>;
          recovering = (was_stale a3 \<and> app_is_registered a3);
          a4 = (if recovering then a3\<lparr>was_stale := False\<rparr> else a3)
      in (a4, [PublishState status (last_fault a4) recovering rs]))"

definition process_ready :: "SpaApp \<Rightarrow> Timestamp \<Rightarrow> u8 \<Rightarrow> SpaApp \<times> AppAction list" where
  "process_ready a now channel =
     (if (case client_id a of Some my_id \<Rightarrow> channel \<noteq> my_id | None \<Rightarrow> False) then (a, [])
      else
        let a1 = a\<lparr>last_cts_time := Some now\<rparr> in
        case command_queue a1 of
          cmd # rest \<Rightarrow>
            (a1\<lparr>command_queue := rest,
                cmd_tracker := (case last_status a1 of
                    Some pre_status \<Rightarrow> track (cmd_tracker a1) cmd pre_status now
                  | None \<Rightarrow> cmd_tracker a1)\<rparr>, [SendFrame (encode_command cmd)])
        | [] \<Rightarrow>
            (case client_id a1 of
               Some cid \<Rightarrow> (a1, [SendFrame (encode_command (NothingToSend cid))])
             | None \<Rightarrow> (a1, [])))"

definition fault_text :: "FaultLogEntry \<Rightarrow> rstr" where
  "fault_text fl =
     FaultCode_debug (message_code fl) @ lit '' ('' @ show_nat (unat (days_ago fl)) @ lit ''d ago, '' @
     show_nat (unat (fault_hour fl)) @ lit '':'' @ pad_zero 2 (show_nat (unat (fault_minute fl))) @
     lit '', set='' @ show_nat (unat (set_temperature fl)) @ lit '')''"

definition process_registered :: "SpaApp \<Rightarrow> Timestamp \<Rightarrow> rstr \<Rightarrow> frame \<Rightarrow> SpaApp \<times> AppAction list" where
  "process_registered a now rs f =
     (case dispatch_frame f of
        Msg_StatusUpdate status \<Rightarrow> process_status a now rs status
      | Msg_Ready channel \<Rightarrow> if app_is_registered a then process_ready a now channel else (a, [])
      | Msg_Registration msg \<Rightarrow>
          (case msg of
             NewClientQuery \<Rightarrow> (a, [])
           | ClientIdAssignment channel _ \<Rightarrow> (a\<lparr>client_id := Some channel\<rparr>, [])
           | _ \<Rightarrow> (a, []))
      | Msg_FaultLogResponse fl \<Rightarrow> (a\<lparr>last_fault := Some (fault_text fl)\<rparr>, [])
      | _ \<Rightarrow> (a, []))"

definition app_process_frame :: "SpaApp \<Rightarrow> Timestamp \<Rightarrow> frame \<Rightarrow> SpaApp \<times> AppAction list" where
  "app_process_frame a now f =
     (if \<not> is_registered (registration a) then process_unregistered a now f
      else process_registered a now (registration_state_str a) f)"

section \<open>Commands\<close>

text \<open>The loops over the queue: replacing a set-temperature, removing an equal toggle.\<close>

fun replace_set_temperature :: "u8 \<Rightarrow> Command list \<Rightarrow> Command list option" where
  "replace_set_temperature temp [] = None"
| "replace_set_temperature temp (SetTemperature t # cs) = Some (SetTemperature temp # cs)"
| "replace_set_temperature temp (c # cs) = map_option (Cons c) (replace_set_temperature temp cs)"

fun remove_toggle :: "ToggleItem \<Rightarrow> Command list \<Rightarrow> Command list option" where
  "remove_toggle item [] = None"
| "remove_toggle item (c # cs) =
     (if c = ToggleItem item then Some cs else map_option (Cons c) (remove_toggle item cs))"

definition is_clock_pref :: "Command \<Rightarrow> bool" where
  "is_clock_pref c = (case c of SetPreference code _ \<Rightarrow> code = PREF_CLOCK_MODE | _ \<Rightarrow> False)"

text \<open>Queueing the clock mode before a 24-hour time.\<close>

definition queue_clock_pref :: "SpaApp \<Rightarrow> Command \<Rightarrow> SpaApp" where
  "queue_clock_pref a cmd =
     (case cmd of
        SetTime _ _ True \<Rightarrow>
          if \<not> list_ex is_clock_pref (command_queue a) then
            if length (command_queue a) \<ge> MAX_COMMAND_QUEUE
            then a\<lparr>cmd_tracker := record_dropped (cmd_tracker a)\<rparr>
            else a\<lparr>command_queue := command_queue a @ [SetPreference PREF_CLOCK_MODE 1]\<rparr>
          else a
      | _ \<Rightarrow> a)"

definition push_or_drop :: "SpaApp \<Rightarrow> Command \<Rightarrow> SpaApp" where
  "push_or_drop a cmd =
     (if length (command_queue a) \<ge> MAX_COMMAND_QUEUE
      then a\<lparr>cmd_tracker := record_dropped (cmd_tracker a)\<rparr>
      else a\<lparr>command_queue := command_queue a @ [cmd]\<rparr>)"

definition on_mqtt_command :: "SpaApp \<Rightarrow> Command \<Rightarrow> SpaApp \<times> AppAction list" where
  "on_mqtt_command a cmd =
     (case (case cmd of SetTemperature temp \<Rightarrow> replace_set_temperature temp (command_queue a) | _ \<Rightarrow> None) of
        Some q \<Rightarrow> (a\<lparr>command_queue := q\<rparr>, [])
      | None \<Rightarrow>
          let a1 = queue_clock_pref a cmd in
          (case (case cmd of ToggleItem item \<Rightarrow> remove_toggle item (command_queue a1) | _ \<Rightarrow> None) of
             Some q \<Rightarrow> (a1\<lparr>command_queue := q\<rparr>, [])
           | None \<Rightarrow> (push_or_drop a1 cmd, [])))"

section \<open>Periodic tick\<close>

definition alert :: "string \<Rightarrow> string \<Rightarrow> AppAction" where
  "alert lvl msg = PublishAlert (lit lvl) (lit msg)"

definition tick_registration :: "SpaApp \<Rightarrow> Timestamp \<Rightarrow> SpaApp \<times> AppAction list" where
  "tick_registration a now =
     (if \<not> is_registered (registration a) then
        let (a1, as1) = (case registration_started_at a of
              Some started \<Rightarrow>
                if elapsed_since now started \<ge> REGISTRATION_TIMEOUT_MS then
                  (a\<lparr>failed_registration_attempts := failed_registration_attempts a + 1,
                     registration := registration_reset (registration a),
                     registration_started_at := None\<rparr>, [alert ''warn'' ''registration_timeout''])
                else (a, [])
            | None \<Rightarrow> (a, []))
        in if \<not> no_query_alert_sent a1 \<and> registration_started_at a1 = None \<and>
              elapsed_since now (boot_time a1) \<ge> STALE_THRESHOLD_MS
           then (a1\<lparr>no_query_alert_sent := True\<rparr>, as1 @ [alert ''warn'' ''no_registration_query''])
           else (a1, as1)
      else (a\<lparr>registration_started_at := None, no_query_alert_sent := False\<rparr>, []))"

definition tick_cts :: "SpaApp \<Rightarrow> Timestamp \<Rightarrow> SpaApp \<times> AppAction list" where
  "tick_cts a now =
     (if is_registered (registration a) \<and> \<not> was_stale a \<and>
         (case last_cts_time a of
            Some last_cts \<Rightarrow> elapsed_since now last_cts \<ge> CTS_LOSS_THRESHOLD_MS
          | None \<Rightarrow> False)
      then (reset_registration_state a True, [alert ''warn'' ''cts_loss''])
      else (a, []))"

definition tick_probe :: "SpaApp \<Rightarrow> Timestamp \<Rightarrow> u64 \<Rightarrow> SpaApp \<times> AppAction list" where
  "tick_probe a now elapsed =
     (let should_probe = (case last_probe_time a of None \<Rightarrow> True
            | Some lp \<Rightarrow> elapsed_since now lp \<ge> STALE_PROBE_INTERVAL_MS) in
      if elapsed \<ge> STALE_PROBE_INTERVAL_MS \<and> should_probe then
        (a\<lparr>last_probe_time := Some now\<rparr>,
         (case client_id a of
            Some cid \<Rightarrow> [SendFrame (encode_command (NothingToSend cid))]
          | None \<Rightarrow> []))
      else (a, []))"

definition tick_stale :: "SpaApp \<Rightarrow> Timestamp \<Rightarrow> SpaApp \<times> AppAction list" where
  "tick_stale a now =
     (case last_status_time a of
        None \<Rightarrow> (a, [])
      | Some lst \<Rightarrow>
          let elapsed = elapsed_since now lst;
              (a1, as1) = tick_probe a now elapsed
          in if elapsed \<ge> STALE_THRESHOLD_MS \<and> \<not> was_stale a1 then
               let a2 = reset_registration_state (a1\<lparr>was_stale := True\<rparr>) True in
               (a2, as1 @ [alert ''warn'' ''spa_communication_lost''] @
                  (case last_status a2 of
                     Some stale_status \<Rightarrow>
                       [PublishState stale_status (last_fault a2) False (registration_state_str a2),
                        PublishStaleAvailability]
                   | None \<Rightarrow> []))
             else (a1, as1))"

definition tick_diag :: "SpaApp \<Rightarrow> Timestamp \<Rightarrow> SpaApp \<times> AppAction list" where
  "tick_diag a now =
     (let should_diag = (case last_diag_time a of None \<Rightarrow> True
            | Some ld \<Rightarrow> elapsed_since now ld \<ge> DIAGNOSTICS_INTERVAL_MS) in
      if should_diag then
        let a1 = a\<lparr>last_diag_time := Some now\<rparr>; uptime_ms = elapsed_since now (boot_time a1) in
        (a1, [PublishDiagnostics (uptime_ms div 1000) (frames_received a1)
           (unregistered_frames_received a1) (retry_count (cmd_tracker a1))
           (dropped_count (cmd_tracker a1)) (registration_state_str a1) 0 0])
      else (a, []))"

definition app_tick :: "SpaApp \<Rightarrow> Timestamp \<Rightarrow> SpaApp \<times> AppAction list" where
  "app_tick a now =
     (let (a1, as1) = tick_registration a now;
          (a2, as2) = tick_cts a1 now;
          (a3, as3) = tick_stale a2 now;
          (a4, as4) = tick_diag a3 now
      in (a4, as1 @ as2 @ as3 @ as4))"

definition check_heap :: "SpaApp \<Rightarrow> Timestamp \<Rightarrow> nat \<Rightarrow> SpaApp \<times> AppAction list" where
  "check_heap a now free_heap =
     (let (hm, r) = heap_monitor_tick (heap_monitor a) now free_heap in
      (a\<lparr>heap_monitor := hm\<rparr>,
       (case r of
          Some True \<Rightarrow> [alert ''error'' ''heap_critically_low'']
        | Some False \<Rightarrow> []
        | None \<Rightarrow> [])))"

section \<open>The application as a machine\<close>

datatype AppEvent =
    Ev_Frame Timestamp frame
  | Ev_Mqtt Command
  | Ev_Tick Timestamp
  | Ev_PumpTimer Timestamp u8 u32
  | Ev_Heap Timestamp nat

fun app_step :: "SpaApp \<Rightarrow> AppEvent \<Rightarrow> SpaApp \<times> AppAction list" where
  "app_step a (Ev_Frame now f) = app_process_frame a now f"
| "app_step a (Ev_Mqtt cmd) = on_mqtt_command a cmd"
| "app_step a (Ev_Tick now) = app_tick a now"
| "app_step a (Ev_PumpTimer now i m) = app_start_pump_timer a now i m"
| "app_step a (Ev_Heap now n) = check_heap a now n"

text \<open>The six timers stand for the six pumps, in order.\<close>

definition pump_order :: "PumpTimerManager \<Rightarrow> bool" where
  "pump_order m \<longleftrightarrow> map timer_pump (timers m) = [Pump1, Pump2, Pump3, Pump4, Pump5, Pump6]"

definition app_inv :: "SpaApp \<Rightarrow> bool" where
  "app_inv a \<longleftrightarrow> tracker_inv (cmd_tracker a) \<and>
     pump_order (pump_timers a) \<and>
     (client_id a \<noteq> None \<longrightarrow> is_registered (registration a)) \<and>
     reg_hash (registration a) = client_hash a"

text \<open>What may be sent: nothing, or one frame that the decoder finds.\<close>

definition sendable :: "u8 list \<Rightarrow> bool" where
  "sendable bs \<longleftrightarrow> bs = [] \<or> (\<exists>f. delimited f \<and> bs = wire_bytes f)"

definition action_ok :: "AppAction \<Rightarrow> bool" where
  "action_ok act = (case act of SendFrame bs \<Rightarrow> sendable bs | _ \<Rightarrow> True)"

lemma wire_bytes_encode:
  "length p \<le> 5 \<Longrightarrow> FrameEncoder_encode mt p = Inr (wire_bytes \<lparr>message_type = mt, payload = p\<rparr>) \<and>
     delimited \<lparr>message_type = mt, payload = p\<rparr>"
  by (simp add: FrameEncoder_encode_def wire_bytes_encodable frame_encode_Inr delimited_def encodable_def)

lemma encode_command_frame:
  "encode_command cmd = (case command_encode cmd of Inl _ \<Rightarrow> []
     | Inr (mt, p) \<Rightarrow> wire_bytes \<lparr>message_type = mt, payload = p\<rparr>)"
proof (cases "command_encode cmd")
  case (Inr r)
  obtain mt p where "r = (mt, p)" by (cases r)
  with Inr command_encode_length [of cmd mt p] wire_bytes_encode [of p mt] show ?thesis
    by (simp add: encode_command_def)
qed (simp add: encode_command_def)

lemma sendable_wire_bytes: "length p \<le> 5 \<Longrightarrow> sendable (wire_bytes \<lparr>message_type = mt, payload = p\<rparr>)"
  using wire_bytes_encode [of p mt] by (auto simp: sendable_def)

lemma encode_command_sendable [simp]: "sendable (encode_command cmd)"
proof (cases "command_encode cmd")
  case (Inr r)
  obtain mt p where "r = (mt, p)" by (cases r)
  with Inr command_encode_length [of cmd mt p] sendable_wire_bytes [of p mt] show ?thesis
    by (simp add: encode_command_frame)
qed (simp add: encode_command_frame sendable_def)

lemma registration_encode_wire:
  "encode_parts m = Inr (mt, p) \<Longrightarrow>
     registration_encode m = Inr (wire_bytes \<lparr>message_type = mt, payload = p\<rparr>)"
  using encode_parts_length [of m mt p] wire_bytes_encode [of p mt] by (simp add: registration_encode_def)

lemma registration_encode_sendable: "registration_encode m = Inr bs \<Longrightarrow> sendable bs"
proof -
  obtain mt p where e: "encode_parts m = Inr (mt, p)" using encode_parts_Inr by blast
  moreover assume "registration_encode m = Inr bs"
  ultimately show ?thesis
    using registration_encode_wire [OF e] encode_parts_length [OF e] sendable_wire_bytes [of p mt] by simp
qed

lemma map_timer_pump_tick_timers:
  "map timer_pump (fst (tick_timers now ps i ts)) = map timer_pump ts"
proof (induction ts arbitrary: i)
  case (Cons t ts)
  have "timer_pump (fst (pump_timer_tick t now (ps ! i))) = timer_pump t"
    by (simp add: pump_timer_tick_def Let_def split: option.splits)
  with Cons [of "Suc i"] show ?case by (auto split: prod.splits)
qed simp

lemma tick_all_pumps [simp]: "pump_order (fst (tick_all m now ps)) = pump_order m"
  unfolding pump_order_def using map_timer_pump_tick_timers [of now ps 0 "timers m"] by (simp add: tick_all_def split_def Let_def)

lemma map_update_same: "i < length xs \<Longrightarrow> (map f xs)[i := f (xs ! i)] = map f xs"
  by (simp add: list_update_same_conv)

lemma start_timer_pumps [simp]: "pump_order (fst (start_timer m i n now)) = pump_order m"
  by (simp add: pump_order_def start_timer_def start_with_minutes_def pump_timer_start_def Let_def map_update
      map_update_same not_le)

lemma cancel_all_pumps [simp]: "pump_order (cancel_all m) = pump_order m"
  by (simp add: pump_order_def comp_def cancel_all_def pump_timer_cancel_def)

lemma reset_frame [simp]:
  "reg_hash (registration_reset m) = reg_hash m" "\<not> is_registered (registration_reset m)"
  by (simp_all add: registration_reset_def is_registered_def)

lemma registered_process: "is_registered m \<Longrightarrow> registration_process m msg = (m, RegAction_None)"
  by (auto simp: is_registered_def registration_process_def split: RegistrationState.splits)

text \<open>Each handler keeps the invariant and sends only what is sendable.\<close>

definition handler_ok :: "SpaApp \<times> AppAction list \<Rightarrow> bool" where
  "handler_ok r \<longleftrightarrow> app_inv (fst r) \<and> list_all action_ok (snd r)"

lemma handler_okI: "app_inv a \<Longrightarrow> list_all action_ok acts \<Longrightarrow> handler_ok (a, acts)"
  by (simp add: handler_ok_def)

lemma action_ok_simps [simp]:
  "action_ok (SendFrame bs) = sendable bs" "action_ok (PublishState s ft r rs)"
  "action_ok (alert l m)" "action_ok PublishStaleAvailability"
  "action_ok (PublishDiagnostics u fr uf cr cd rs fe ub)"
  by (simp_all add: action_ok_def alert_def)

lemma app_inv_new: "app_inv (with_client_hash now h)"
  by (simp add: app_inv_def with_client_hash_def tracker_inv_new registration_new_def
      pump_order_def pump_timers_new_def pump_timer_new_def)

lemma reset_registration_inv: "app_inv a \<Longrightarrow> app_inv (reset_registration_state a b)"
  by (simp add: app_inv_def reset_registration_state_def Let_def tracker_reset_def
      tracker_inv_def)

lemma registration_ack_is_registered:
  "registration_process m msg = (r, SendClientIdAck c) \<Longrightarrow> is_registered r"
  using registration_process_ack [of m msg c] by (simp add: is_registered_def)

lemma process_unregistered_ok:
  assumes "app_inv a" and "\<not> is_registered (registration a)"
  shows "handler_ok (process_unregistered a now f)"
proof -
  have cid: "client_id a = None" using assms by (auto simp: app_inv_def)
  show ?thesis
  proof (cases "registration_parse (message_type f) (payload f)")
    case (Inl e)
    with assms show ?thesis
      by (auto simp: process_unregistered_def Let_def handler_ok_def app_inv_def)
  next
    case (Inr msg)
    obtain r action where p: "registration_process (registration a) msg = (r, action)" by fastforce
    have h: "reg_hash r = reg_hash (registration a)"
      using registration_process_frame(1) [of "registration a" msg] p by simp
    have ack: "is_registered r" if "action = SendClientIdAck c" for c
      using registration_ack_is_registered p that by blast
    show ?thesis
      using assms Inr p h ack cid registration_encode_sendable
      by (cases action)
        (auto simp: process_unregistered_def Let_def handle_registration_action_def handler_ok_def
          app_inv_def split: sum.splits)
  qed
qed

lemma process_status_ok: assumes "app_inv a" shows "handler_ok (process_status a now rs status)"
proof -
  have "tracker_inv (cmd_tracker a)" using assms by (simp add: app_inv_def)
  note v = verify_inv [OF this, of status now]
  show ?thesis
    using assms v by (auto simp: process_status_def Let_def split_def handler_ok_def app_inv_def app_is_registered_def)
qed

lemma process_ready_ok: assumes "app_inv a" shows "handler_ok (process_ready a now ch)"
  using assms track_inv [of "cmd_tracker a"]
  by (auto simp: process_ready_def Let_def handler_ok_def app_inv_def split: list.splits option.splits)

lemma process_registered_ok:
  assumes "app_inv a" and "is_registered (registration a)"
  shows "handler_ok (process_registered a now rs f)"
proof (cases "dispatch_frame f")
  case (Msg_StatusUpdate st)
  with process_status_ok [OF assms(1)] show ?thesis by (simp add: process_registered_def)
next
  case (Msg_Ready ch)
  with process_ready_ok [OF assms(1)] assms(2) show ?thesis
    by (simp add: process_registered_def app_is_registered_def)
next
  case (Msg_Registration m)
  with assms show ?thesis by (cases m) (simp_all add: process_registered_def handler_ok_def app_inv_def)
qed (use assms in \<open>simp_all add: process_registered_def handler_ok_def app_inv_def\<close>)

lemma process_frame_ok: "app_inv a \<Longrightarrow> handler_ok (app_process_frame a now f)"
  by (simp add: app_process_frame_def process_unregistered_ok process_registered_ok)

lemma on_mqtt_command_frame:
  "snd (on_mqtt_command a cmd) = []"
  "registration (fst (on_mqtt_command a cmd)) = registration a"
  "client_id (fst (on_mqtt_command a cmd)) = client_id a"
  "client_hash (fst (on_mqtt_command a cmd)) = client_hash a"
  "pump_timers (fst (on_mqtt_command a cmd)) = pump_timers a"
  "pending (cmd_tracker (fst (on_mqtt_command a cmd))) = pending (cmd_tracker a)"
  by (simp_all add: on_mqtt_command_def Let_def push_or_drop_def queue_clock_pref_def record_dropped_def
      split: option.splits Command.splits bool.splits)

lemma on_mqtt_command_ok: "app_inv a \<Longrightarrow> handler_ok (on_mqtt_command a cmd)"
  by (simp add: handler_ok_def app_inv_def on_mqtt_command_frame tracker_inv_def)

lemma tick_registration_ok: "app_inv a \<Longrightarrow> handler_ok (tick_registration a now)"
  by (auto simp: tick_registration_def Let_def handler_ok_def app_inv_def split: option.splits if_splits)

lemma tick_cts_ok: "app_inv a \<Longrightarrow> handler_ok (tick_cts a now)"
  by (simp add: tick_cts_def handler_ok_def reset_registration_inv)

lemma tick_probe_ok: "app_inv a \<Longrightarrow> handler_ok (tick_probe a now el)"
  by (auto simp: tick_probe_def Let_def handler_ok_def app_inv_def split: option.splits)

lemma stale_flag_inv [simp]: "app_inv (a\<lparr>was_stale := b\<rparr>) = app_inv a"
  by (simp add: app_inv_def)

lemma tick_stale_ok: assumes "app_inv a" shows "handler_ok (tick_stale a now)"
proof (cases "last_status_time a")
  case None
  with assms show ?thesis by (simp add: tick_stale_def handler_ok_def)
next
  case (Some l)
  obtain a1 as1 where p: "tick_probe a now (elapsed_since now l) = (a1, as1)" by fastforce
  then have "app_inv a1" "list_all action_ok as1"
    using tick_probe_ok [OF assms, of now "elapsed_since now l"] by (simp_all add: handler_ok_def)
  with Some p show ?thesis
    by (auto simp: tick_stale_def Let_def handler_ok_def reset_registration_inv split: option.splits)
qed

lemma tick_diag_ok: "app_inv a \<Longrightarrow> handler_ok (tick_diag a now)"
  by (simp add: tick_diag_def Let_def handler_ok_def app_inv_def)

lemma app_tick_ok: assumes "app_inv a" shows "handler_ok (app_tick a now)"
proof -
  obtain a1 as1 where t1: "tick_registration a now = (a1, as1)" by fastforce
  with tick_registration_ok [OF assms] have i1: "app_inv a1" "list_all action_ok as1"
    by (simp_all add: handler_ok_def, metis fst_conv, metis snd_conv)
  obtain a2 as2 where t2: "tick_cts a1 now = (a2, as2)" by fastforce
  with tick_cts_ok [OF i1(1)] have i2: "app_inv a2" "list_all action_ok as2"
    by (simp_all add: handler_ok_def, metis fst_conv, metis snd_conv)
  obtain a3 as3 where t3: "tick_stale a2 now = (a3, as3)" by fastforce
  with tick_stale_ok [OF i2(1)] have i3: "app_inv a3" "list_all action_ok as3"
    by (simp_all add: handler_ok_def, metis fst_conv, metis snd_conv)
  obtain a4 as4 where t4: "tick_diag a3 now = (a4, as4)" by fastforce
  with tick_diag_ok [OF i3(1)] have i4: "app_inv a4" "list_all action_ok as4"
    by (simp_all add: handler_ok_def, metis fst_conv, metis snd_conv)
  show ?thesis by (simp add: app_tick_def t1 t2 t3 t4 handler_ok_def i4 i3(2) i2(2) i1(2))
qed

lemma start_pump_timer_ok: assumes "app_inv a" shows "handler_ok (app_start_pump_timer a now i n)"
proof -
  obtain m c where s: "start_timer (pump_timers a) i n now = (m, c)" by fastforce
  then have "pump_order m = pump_order (pump_timers a)"
    using start_timer_pumps [of "pump_timers a" i n now] by simp
  with assms s show ?thesis
    by (auto simp: app_start_pump_timer_def handler_ok_def app_inv_def split: option.splits)
qed

lemma check_heap_ok: "app_inv a \<Longrightarrow> handler_ok (check_heap a now n)"
  by (auto simp: check_heap_def split_def Let_def handler_ok_def app_inv_def split: option.splits bool.splits)

lemma app_step_ok: "app_inv a \<Longrightarrow> handler_ok (app_step a e)"
  by (cases e) (simp_all add: process_frame_ok on_mqtt_command_ok app_tick_ok start_pump_timer_ok check_heap_ok)

interpretation app: invariant_machine app_step app_inv action_ok
proof unfold_locales
  fix a e assume "app_inv a"
  note ok = app_step_ok [OF this, of e]
  then show "app_inv (fst (app_step a e))" by (simp add: handler_ok_def)
  show "action_ok act" if "act \<in> set (snd (app_step a e))" for act
    using ok that by (auto simp: handler_ok_def list_all_iff)
qed

end
