(* ===== verification/SpaAppProperties.thy ===== *)
theory SpaAppProperties
  imports SpaApp
begin

text \<open>
  Properties of the application core of theory \<open>SpaApp\<close>: when it transmits, how it registers, what it
  does with commands, statuses and lost communication, and how its texts and identities come out.
\<close>

section \<open>Lemmas\<close>

lemma dispatch_client_frame:
  "client_address c \<Longrightarrow> dispatch_frame \<lparr>message_type = (c, 0xBF), payload = p\<rparr> = Msg_Ready c"
  by (simp add: dispatch_frame_def client_address_def)

lemma dispatch_broadcast_query:
  "dispatch_frame \<lparr>message_type = (0xFE, 0xBF), payload = [0]\<rparr> = Msg_Registration NewClientQuery"
  by (simp add: dispatch_frame_def handle_registration_def registration_parse_def)

lemma dispatch_assignment:
  "dispatch_frame \<lparr>message_type = (0xFE, 0xBF), payload = [2, d, g1, g2]\<rparr> =
     Msg_Registration (ClientIdAssignment d (g1, g2))"
  by (simp add: dispatch_frame_def handle_registration_def registration_parse_def)

lemma process_ready_own:
  "client_id a = Some c \<Longrightarrow> process_ready a now c =
     (case command_queue a of
        [] \<Rightarrow> (a\<lparr>last_cts_time := Some now\<rparr>, [SendFrame (encode_command (NothingToSend c))])
      | cmd # rest \<Rightarrow>
          (a\<lparr>last_cts_time := Some now, command_queue := rest,
             cmd_tracker := (case last_status a of Some s \<Rightarrow> track (cmd_tracker a) cmd s now | None \<Rightarrow> cmd_tracker a)\<rparr>,
           [SendFrame (encode_command cmd)]))"
  by (simp add: process_ready_def Let_def split: list.splits option.splits)

lemma process_ready_other:
  "client_id a = Some c \<Longrightarrow> d \<noteq> c \<Longrightarrow> process_ready a now d = (a, [])"
  by (simp add: process_ready_def)

lemma process_registered_ready:
  "is_registered (registration a) \<Longrightarrow> client_address c \<Longrightarrow>
     app_process_frame a now \<lparr>message_type = (c, 0xBF), payload = p\<rparr> = process_ready a now c"
  by (simp add: app_process_frame_def process_registered_def dispatch_client_frame app_is_registered_def)

text \<open>A registered application, for the examples.\<close>

definition example_app :: SpaApp where
  "example_app = force_registered (with_client_hash (Timestamp 0) (1, 2)) 0x10"

lemma example_app:
  "app_inv example_app" "is_registered (registration example_app)" "client_id example_app = Some 0x10"
  "command_queue example_app = []" "pending (cmd_tracker example_app) = []" "\<not> was_stale example_app"
  using app_inv_new [of "Timestamp 0" "(1, 2)"]
  by (simp_all add: app_inv_def example_app_def force_registered_def with_client_hash_def
      registration_new_def registration_process_def is_registered_def tracker_new_def Let_def)

lemma dispatch_status:
  "length d = 24 \<Longrightarrow> dispatch_frame \<lparr>message_type = (0xFF, 0xAF), payload = d\<rparr> =
     Msg_StatusUpdate (projr (status_parse d))"
proof -
  assume d: "length d = 24"
  then obtain s where "status_parse d = Inr s" using status_parse_Inr_iff [of d "projr (status_parse d)"] by auto
  with d show ?thesis by (simp add: dispatch_frame_def handle_status_def)
qed

section \<open>Transmission\<close>

text \<open>
  Property C2: the application speaks on the bus only when it is spoken to. Handling a frame sends at
  most one frame. When registered it sends only for a ready indication, on its own channel if it knows
  its channel, and what it sends is the oldest queued command or, with an empty queue, the
  nothing-to-send answer. When unregistered it sends only the acknowledgement of an assignment with
  its hash (or the legacy hash) or the request to reconnect to its previous channel.
\<close>

theorem app_transmits_in_turn:
  assumes "app_inv a" and "SendFrame bs \<in> set (snd (app_process_frame a now f))"
  shows "snd (app_process_frame a now f) = [SendFrame bs] \<and>
    (if is_registered (registration a)
     then \<exists>ch. dispatch_frame f = Msg_Ready ch \<and> (client_id a = None \<or> client_id a = Some ch) \<and>
        bs = (case command_queue a of cmd # _ \<Rightarrow> encode_command cmd | [] \<Rightarrow> encode_command (NothingToSend ch))
     else \<exists>msg. registration_parse (message_type f) (payload f) = Inr msg \<and>
        ((\<exists>c g. msg = ClientIdAssignment c g \<and> (g = client_hash a \<or> g = (0, 0)) \<and>
            registration_encode (ClientIdAck c) = Inr bs) \<or>
         (\<exists>c. msg = NewClientQuery \<and> previous_channel (registration a) = Some c \<and>
            registration_encode (ExistingClientRequest (Some c) (Some (client_hash a))) = Inr bs)))"
proof (cases "is_registered (registration a)")
  case True
  with assms(2) have s: "SendFrame bs \<in> set (snd (process_registered a now (registration_state_str a) f))"
    by (simp add: app_process_frame_def)
  then obtain ch where ch: "dispatch_frame f = Msg_Ready ch"
    by (cases "dispatch_frame f")
      (auto simp: process_registered_def process_status_def Let_def split_def split: RegistrationMessage.splits)
  with s True have r: "SendFrame bs \<in> set (snd (process_ready a now ch))"
    by (simp add: process_registered_def app_is_registered_def)
  have eq: "app_process_frame a now f = process_ready a now ch"
    using True ch by (simp add: app_process_frame_def process_registered_def app_is_registered_def)
  show ?thesis
    using True ch r unfolding eq
    by (cases "command_queue a"; cases "client_id a")
      (auto simp: process_ready_def Let_def split: if_splits)
next
  case False
  with assms(2) have s: "SendFrame bs \<in> set (snd (process_unregistered a now f))"
    by (simp add: app_process_frame_def)
  have h: "reg_hash (registration a) = client_hash a" using assms(1) by (simp add: app_inv_def)
  from s obtain msg where msg: "registration_parse (message_type f) (payload f) = Inr msg"
    by (cases "registration_parse (message_type f) (payload f)") (simp_all add: process_unregistered_def)
  obtain r action where p: "registration_process (registration a) msg = (r, action)" by fastforce
  show ?thesis
    using False s h msg p
    by (cases action)
      (auto simp: app_process_frame_def process_unregistered_def handle_registration_action_def Let_def
        registration_process_def is_registered_def
        split: sum.splits RegistrationState.splits RegistrationMessage.splits option.splits if_splits)
qed

theorem app_transmits_in_turn_witness:
  "\<exists>ch. dispatch_frame \<lparr>message_type = (0x10, 0xBF), payload = [6]\<rparr> = Msg_Ready ch"
proof -
  let ?f = "\<lparr>message_type = (0x10, 0xBF), payload = [6]\<rparr> :: frame"
  have s: "SendFrame (encode_command (NothingToSend 0x10)) \<in>
      set (snd (app_process_frame example_app (Timestamp 5) ?f))"
    by (simp add: process_registered_ready client_address_def process_ready_own example_app)
  show ?thesis using app_transmits_in_turn [OF example_app(1) s] example_app(2) by auto
qed

text \<open>
  Property C3: whatever frames, commands, ticks and timer requests arrive in whatever order, from
  power-on the application holds a channel only while it is registered, tracks at most eight commands,
  and everything it sends is either nothing or one frame that the spa's decoder finds, whole and alone.
\<close>

theorem app_always_well_formed:
  "(client_id (fst (run_machine app_step (with_client_hash t0 h) es)) = None \<or>
      is_registered (registration (fst (run_machine app_step (with_client_hash t0 h) es)))) \<and>
   length (pending (cmd_tracker (fst (run_machine app_step (with_client_hash t0 h) es)))) \<le> 8 \<and>
   list_all (\<lambda>act. case act of
       SendFrame bs \<Rightarrow> bs = [] \<or> (\<exists>f. decoder_feed_slice decoder_new bs = Some (decoder_new, [f]))
     | _ \<Rightarrow> True) (snd (run_machine app_step (with_client_hash t0 h) es))"
proof -
  let ?r = "run_machine app_step (with_client_hash t0 h) es"
  have inv: "app_inv (fst ?r)" by (rule app.run_inv [OF app_inv_new])
  have ok: "action_ok act" if "act \<in> set (snd ?r)" for act
    by (rule app.run_ok [OF app_inv_new that])
  have "case act of SendFrame bs \<Rightarrow> bs = [] \<or> (\<exists>f. decoder_feed_slice decoder_new bs = Some (decoder_new, [f]))
      | _ \<Rightarrow> True" if "act \<in> set (snd ?r)" for act
    using ok [OF that] slice_bytes_wire [OF decoder_ready_new]
    by (cases act) (auto simp: action_ok_def sendable_def)
  then show ?thesis
    using inv by (auto simp: app_inv_def tracker_inv_def MAX_PENDING_COMMANDS_def list_all_iff)
qed

section \<open>Registration\<close>

text \<open>The registration messages in a sequence of frames.\<close>

definition registration_messages :: "frame list \<Rightarrow> RegistrationMessage list" where
  "registration_messages fs =
     concat (map (\<lambda>f. case registration_parse (message_type f) (payload f) of Inr m \<Rightarrow> [m] | Inl _ \<Rightarrow> []) fs)"

lemma handle_registration_action_frame [simp]:
  "registration (fst (handle_registration_action a now action)) = registration a"
  by (simp add: handle_registration_action_def split: RegistrationAction.splits sum.splits)

lemma process_status_registration [simp]:
  "registration (fst (process_status a now rs st)) = registration a"
  by (simp add: process_status_def Let_def split_def)

lemma process_ready_registration [simp]:
  "registration (fst (process_ready a now ch)) = registration a"
  by (simp add: process_ready_def Let_def split: list.splits option.splits)

lemma process_registered_registration [simp]:
  "registration (fst (process_registered a now rs f)) = registration a"
  by (simp add: process_registered_def split: IncomingMessage.splits RegistrationMessage.splits)

lemma process_frame_registration:
  "registration (fst (app_process_frame a now f)) =
     fst (run_machine registration_step (registration a) (registration_messages [f]))"
proof (cases "is_registered (registration a)")
  case True
  then show ?thesis
    by (simp add: app_process_frame_def registration_messages_def registration_step_def
        registered_process split: sum.splits)
next
  case False
  then show ?thesis
    by (simp add: app_process_frame_def process_unregistered_def registration_messages_def
        registration_step_def Let_def split: sum.splits prod.splits)
qed

text \<open>
  Property C39: between ticks the application's registration is the registration state machine:
  on any sequence of frames its registration state is that of the machine run on the registration
  messages among them, so that what holds of the machine holds of the application.
\<close>

theorem app_refines_registration:
  "registration (fst (run_machine app_step a (map (\<lambda>(t, f). Ev_Frame t f) tfs))) =
     fst (run_machine registration_step (registration a) (registration_messages (map snd tfs)))"
proof (induction tfs arbitrary: a)
  case Nil
  show ?case by (simp add: registration_messages_def)
next
  case (Cons tf tfs)
  obtain t f where tf: "tf = (t, f)" by (cases tf)
  have "registration_messages (map snd (tf # tfs)) =
      registration_messages [f] @ registration_messages (map snd tfs)"
    by (simp add: tf registration_messages_def)
  with Cons [of "fst (app_process_frame a t f)"] tf show ?case
    by (simp add: run_machine_Cons_proj run_machine_append_proj process_frame_registration
        del: run_machine.simps)
qed

text \<open>
  The handshake works over the wire. A freshly started application that sees the spa's
  query, an assignment of a channel for its hash, and clear-to-send on that channel sends exactly the
  acknowledgement frame and the nothing-to-send frame for the channel, and holds the channel.
\<close>

theorem app_registers:
  assumes "client_address c"
  shows "let r = run_machine app_step (with_client_hash t0 (h1, h2))
      [Ev_Frame t1 \<lparr>message_type = (0xFE, 0xBF), payload = [0]\<rparr>,
       Ev_Frame t2 \<lparr>message_type = (0xFE, 0xBF), payload = [2, c, h1, h2]\<rparr>,
       Ev_Frame t3 \<lparr>message_type = (c, 0xBF), payload = [6]\<rparr>] in
    snd r = [SendFrame (wire_bytes \<lparr>message_type = (c, 0xBF), payload = [3]\<rparr>),
             SendFrame (wire_bytes \<lparr>message_type = (c, 0xBF), payload = [7]\<rparr>)] \<and>
    client_id (fst r) = Some c \<and> reg_state (registration (fst r)) = Registered c"
proof -
  let ?a0 = "with_client_hash t0 (h1, h2)"
  let ?q = "\<lparr>message_type = (0xFE, 0xBF), payload = [0]\<rparr> :: frame"
  let ?g = "\<lparr>message_type = (0xFE, 0xBF), payload = [2, c, h1, h2]\<rparr> :: frame"
  let ?a1 = "fst (app_process_frame ?a0 t1 ?q)"
  let ?a2 = "fst (app_process_frame ?a1 t2 ?g)"
  have p: "registration_parse (0xFE, 0xBF) [0] = Inr NewClientQuery"
    "registration_parse (0xFE, 0xBF) [2, c, h1, h2] = Inr (ClientIdAssignment c (h1, h2))"
    by (simp_all add: registration_parse_def)
  have e: "registration_encode (ClientIdAck c) = Inr (wire_bytes \<lparr>message_type = (c, 0xBF), payload = [3]\<rparr>)"
    by (rule registration_encode_wire) simp
  have a1: "snd (app_process_frame ?a0 t1 ?q) = []"
    "registration ?a1 = \<lparr>reg_state = WaitingForAssignment, reg_hash = (h1, h2), previous_channel = None\<rparr>"
    "command_queue ?a1 = []"
    by (simp_all add: app_process_frame_def process_unregistered_def p registration_process_def
        with_client_hash_def registration_new_def is_registered_def handle_registration_action_def Let_def)
  have a2: "snd (app_process_frame ?a1 t2 ?g) =
      [SendFrame (wire_bytes \<lparr>message_type = (c, 0xBF), payload = [3]\<rparr>)]"
    "client_id ?a2 = Some c" "reg_state (registration ?a2) = Registered c" "command_queue ?a2 = []"
    using a1(2,3)
    by (simp_all add: app_process_frame_def [of ?a1] process_unregistered_def [of ?a1] p e
        registration_process_def is_registered_def handle_registration_action_def Let_def)
  have "is_registered (registration ?a2)" using a2(3) by (simp add: is_registered_def)
  then have a3: "app_process_frame ?a2 t3 \<lparr>message_type = (c, 0xBF), payload = [6]\<rparr> =
      (?a2\<lparr>last_cts_time := Some t3\<rparr>, [SendFrame (encode_command (NothingToSend c))])"
    using assms a2 by (simp add: process_registered_ready process_ready_own)
  show ?thesis
    using a1(1) a2 a3
    by (simp add: Let_def run_machine_Cons_proj encode_command_frame del: run_machine.simps(2))
qed

theorem app_registers_witness:
  "client_id (fst (run_machine app_step (with_client_hash (Timestamp 0) (1, 2))
      [Ev_Frame (Timestamp 1) \<lparr>message_type = (0xFE, 0xBF), payload = [0]\<rparr>,
       Ev_Frame (Timestamp 2) \<lparr>message_type = (0xFE, 0xBF), payload = [2, 0x10, 1, 2]\<rparr>,
       Ev_Frame (Timestamp 3) \<lparr>message_type = (0x10, 0xBF), payload = [6]\<rparr>])) = Some 0x10"
  using app_registers [of "0x10" "Timestamp 0" 1 2 "Timestamp 1" "Timestamp 2" "Timestamp 3"]
  by (simp add: client_address_def Let_def del: run_machine.simps)

text \<open>
  A registered application gives up its channel for any assignment it overhears. The
  assignment of channel \<open>d\<close> to a client with another hash leaves the registration machine on its
  channel, but the application then ignores clear-to-send on its own channel \<open>c\<close> and answers on the
  other client's.
\<close>

theorem assignment_hijack:
  assumes "is_registered (registration a)" and "client_id a = Some c"
    and "client_address c" and "client_address d" and "c \<noteq> d"
  shows "let a' = fst (app_process_frame a t1 \<lparr>message_type = (0xFE, 0xBF), payload = [2, d, g1, g2]\<rparr>) in
    registration a' = registration a \<and> client_id a' = Some d \<and>
    snd (app_process_frame a' t2 \<lparr>message_type = (c, 0xBF), payload = [6]\<rparr>) = [] \<and>
    (\<exists>bs. snd (app_process_frame a' t2 \<lparr>message_type = (d, 0xBF), payload = [6]\<rparr>) = [SendFrame bs])"
proof -
  have "app_process_frame a t1 \<lparr>message_type = (0xFE, 0xBF), payload = [2, d, g1, g2]\<rparr> =
      (a\<lparr>client_id := Some d\<rparr>, [])"
    using assms by (simp add: app_process_frame_def process_registered_def dispatch_assignment)
  moreover have "app_process_frame (a\<lparr>client_id := Some d\<rparr>) t2 \<lparr>message_type = (c, 0xBF), payload = [6]\<rparr> =
      (a\<lparr>client_id := Some d\<rparr>, [])"
    using assms by (simp add: process_registered_ready process_ready_other)
  moreover have "\<exists>bs. snd (app_process_frame (a\<lparr>client_id := Some d\<rparr>) t2
      \<lparr>message_type = (d, 0xBF), payload = [6]\<rparr>) = [SendFrame bs]"
    using assms by (simp add: process_registered_ready process_ready_own split: list.splits)
  ultimately show ?thesis by (simp add: Let_def)
qed

theorem assignment_hijack_witness:
  "client_id (fst (app_process_frame (force_registered (with_client_hash (Timestamp 0) (1, 2)) 0x10)
     (Timestamp 9) \<lparr>message_type = (0xFE, 0xBF), payload = [2, 0x11, 7, 7]\<rparr>)) = Some 0x11"
  using assignment_hijack [of "force_registered (with_client_hash (Timestamp 0) (1, 2)) 0x10" "0x10" "0x11"
      "Timestamp 9" 7 7 "Timestamp 10"]
  by (simp add: Let_def client_address_def force_registered_def with_client_hash_def
      registration_new_def registration_process_def is_registered_def)

text \<open>
  Reconnecting to a previous channel leaves the application registered without knowing
  its channel: the reconnection response registers the machine, but the application's own channel
  number stays unset, and a queued command is then sent on clear-to-send for any client's channel.
\<close>

theorem reconnect_without_channel:
  assumes "reg_state (registration a) = WaitingForQuery" and "previous_channel (registration a) = Some pc"
    and "reg_hash (registration a) = (h1, h2)" and "client_id a = None" and "command_queue a = []"
    and "client_address c" and "client_address x"
  shows "let r = run_machine app_step a
      [Ev_Frame t1 \<lparr>message_type = (0xFE, 0xBF), payload = [0]\<rparr>,
       Ev_Frame t2 \<lparr>message_type = (c, 0xBF), payload = [5, 4, c, h1, h2]\<rparr>,
       Ev_Mqtt (ToggleItem item),
       Ev_Frame t3 \<lparr>message_type = (x, 0xBF), payload = [6]\<rparr>] in
    reg_state (registration (fst r)) = Registered c \<and> client_id (fst r) = None \<and>
    SendFrame (encode_command (ToggleItem item)) \<in> set (snd r)"
proof -
  let ?q = "\<lparr>message_type = (0xFE, 0xBF), payload = [0]\<rparr> :: frame"
  let ?g = "\<lparr>message_type = (c, 0xBF), payload = [5, 4, c, h1, h2]\<rparr> :: frame"
  let ?a1 = "fst (app_process_frame a t1 ?q)"
  let ?a2 = "fst (app_process_frame ?a1 t2 ?g)"
  let ?a3 = "fst (on_mqtt_command ?a2 (ToggleItem item))"
  have p: "registration_parse (0xFE, 0xBF) [0] = Inr NewClientQuery"
    "registration_parse (c, 0xBF) [5, 4, c, h1, h2] = Inr (ExistingClientResponse c (h1, h2))"
    using assms(6) by (simp_all add: registration_parse_def client_address_def)
  have a1: "reg_state (registration ?a1) = WaitingForExistingResponse"
    "reg_hash (registration ?a1) = (h1, h2)" "client_id ?a1 = None" "command_queue ?a1 = []"
    using assms
    by (simp_all add: app_process_frame_def process_unregistered_def p registration_process_def
        is_registered_def handle_registration_action_def Let_def split: sum.splits)
  have a2: "reg_state (registration ?a2) = Registered c" "client_id ?a2 = None" "command_queue ?a2 = []"
    using a1
    by (simp_all add: app_process_frame_def [of ?a1] process_unregistered_def [of ?a1] p
        registration_process_def is_registered_def handle_registration_action_def Let_def)
  have a3: "registration ?a3 = registration ?a2" "client_id ?a3 = None"
      "command_queue ?a3 = [ToggleItem item]"
    using a2 by (simp_all add: on_mqtt_command_def queue_clock_pref_def push_or_drop_def
        MAX_COMMAND_QUEUE_def)
  have "is_registered (registration ?a3)" using a2(1) a3(1) by (simp add: is_registered_def)
  then have "app_process_frame ?a3 t3 \<lparr>message_type = (x, 0xBF), payload = [6]\<rparr> =
      process_ready ?a3 t3 x"
    using assms(7) by (rule process_registered_ready)
  moreover have "snd (process_ready ?a3 t3 x) = [SendFrame (encode_command (ToggleItem item))]"
    "client_id (fst (process_ready ?a3 t3 x)) = None"
    using a3 by (simp_all add: process_ready_def Let_def)
  ultimately show ?thesis
    using a2 a3 by (simp add: Let_def run_machine_Cons_proj del: run_machine.simps(2))
qed

theorem reconnect_without_channel_witness:
  "client_id (fst (run_machine app_step
      (set_previous_channel (with_client_hash (Timestamp 0) (1, 2)) 0x12)
      [Ev_Frame (Timestamp 1) \<lparr>message_type = (0xFE, 0xBF), payload = [0]\<rparr>,
       Ev_Frame (Timestamp 2) \<lparr>message_type = (0x12, 0xBF), payload = [5, 4, 0x12, 1, 2]\<rparr>,
       Ev_Mqtt (ToggleItem Light1),
       Ev_Frame (Timestamp 3) \<lparr>message_type = (0x2A, 0xBF), payload = [6]\<rparr>])) = None"
  using reconnect_without_channel [of "set_previous_channel (with_client_hash (Timestamp 0) (1, 2)) 0x12"
      "0x12" 1 2 "0x12" "0x2A" "Timestamp 1" "Timestamp 2" Light1 "Timestamp 3"]
  by (simp add: Let_def client_address_def set_previous_channel_def with_previous_channel_def
      with_client_hash_def del: run_machine.simps)

section \<open>The command queue\<close>

definition is_set_temperature :: "Command \<Rightarrow> bool" where
  "is_set_temperature c = (case c of SetTemperature _ \<Rightarrow> True | _ \<Rightarrow> False)"

definition is_toggle :: "Command \<Rightarrow> bool" where
  "is_toggle c = (case c of ToggleItem _ \<Rightarrow> True | _ \<Rightarrow> False)"

text \<open>A queue as commands from outside leave it.\<close>

definition queue_ok :: "Command list \<Rightarrow> bool" where
  "queue_ok q \<longleftrightarrow> length q \<le> MAX_COMMAND_QUEUE \<and> length (filter is_set_temperature q) \<le> 1 \<and>
     distinct (filter is_toggle q)"

lemma replace_set_temperature_None:
  "replace_set_temperature w q = None \<longleftrightarrow> filter is_set_temperature q = []"
  by (induction w q rule: replace_set_temperature.induct)
    (auto simp: is_set_temperature_def split: Command.splits)

lemma replace_set_temperature_Some:
  "replace_set_temperature w q = Some r \<Longrightarrow> length r = length q \<and>
     length (filter is_set_temperature r) = length (filter is_set_temperature q) \<and>
     filter is_toggle r = filter is_toggle q"
proof (induction w q arbitrary: r rule: replace_set_temperature.induct)
  case (2 w t cs)
  then show ?case by (auto simp: is_set_temperature_def is_toggle_def)
qed (auto simp: is_set_temperature_def is_toggle_def)

lemma remove_toggle_None: "remove_toggle i q = None \<longleftrightarrow> ToggleItem i \<notin> set q"
  by (induction q) auto

lemma remove_toggle_Some:
  "remove_toggle i q = Some r \<Longrightarrow> r = remove1 (ToggleItem i) q \<and> ToggleItem i \<in> set q"
  by (induction q arbitrary: r) (auto split: if_splits)

lemma remove_toggle_snoc: "ToggleItem i \<notin> set q \<Longrightarrow> remove_toggle i (q @ [ToggleItem i]) = Some q"
  by (induction q) auto

lemma push_or_drop_queue:
  "queue_ok (command_queue a) \<Longrightarrow>
     (is_set_temperature cmd \<Longrightarrow> filter is_set_temperature (command_queue a) = []) \<Longrightarrow>
     (is_toggle cmd \<Longrightarrow> cmd \<notin> set (command_queue a)) \<Longrightarrow>
     queue_ok (command_queue (push_or_drop a cmd))"
  by (auto simp: push_or_drop_def queue_ok_def)

lemma queue_clock_pref_cases:
  "command_queue (queue_clock_pref a cmd) = command_queue a \<or>
   length (command_queue a) < MAX_COMMAND_QUEUE \<and>
     command_queue (queue_clock_pref a cmd) = command_queue a @ [SetPreference PREF_CLOCK_MODE 1]"
proof (cases cmd)
  case (SetTime hr mn b)
  then show ?thesis by (cases b) (simp_all add: queue_clock_pref_def)
qed (simp_all add: queue_clock_pref_def)

lemma queue_clock_pref_queue:
  assumes "queue_ok (command_queue a)"
  shows "queue_ok (command_queue (queue_clock_pref a cmd)) \<and>
    filter is_set_temperature (command_queue (queue_clock_pref a cmd)) =
      filter is_set_temperature (command_queue a)"
  using assms queue_clock_pref_cases [of a cmd]
  by (auto simp: queue_ok_def is_set_temperature_def is_toggle_def)

lemma on_mqtt_command_queue:
  assumes "queue_ok (command_queue a)"
  shows "queue_ok (command_queue (fst (on_mqtt_command a cmd)))"
proof -
  let ?a1 = "queue_clock_pref a cmd"
  have q1: "queue_ok (command_queue ?a1)"
    and s1: "filter is_set_temperature (command_queue ?a1) = filter is_set_temperature (command_queue a)"
    using queue_clock_pref_queue [OF assms] by simp_all
  show ?thesis
  proof (cases cmd)
    case (SetTemperature w)
    show ?thesis
    proof (cases "replace_set_temperature w (command_queue a)")
      case None
      then have "filter is_set_temperature (command_queue ?a1) = []"
        by (simp add: s1 replace_set_temperature_None)
      with q1 have "queue_ok (command_queue (push_or_drop ?a1 cmd))"
        by (rule push_or_drop_queue) (simp_all add: SetTemperature is_toggle_def)
      with None SetTemperature show ?thesis by (simp add: on_mqtt_command_def)
    next
      case (Some q)
      with SetTemperature replace_set_temperature_Some [OF Some] assms show ?thesis
        by (simp add: on_mqtt_command_def queue_ok_def)
    qed
  next
    case (ToggleItem i)
    show ?thesis
    proof (cases "remove_toggle i (command_queue ?a1)")
      case None
      then have "ToggleItem i \<notin> set (command_queue ?a1)" by (simp add: remove_toggle_None)
      with None ToggleItem q1 show ?thesis
        by (auto simp: on_mqtt_command_def is_set_temperature_def intro!: push_or_drop_queue)
    next
      case (Some q)
      from remove_toggle_Some [OF Some] have "q = remove1 (ToggleItem i) (command_queue ?a1)" by simp
      moreover have "queue_ok (remove1 c p)" if "queue_ok p" for c p
      proof -
        have "length (filter P (remove1 c p)) \<le> length (filter P p)" for P
          by (simp add: filter_remove1 length_remove1)
        with that show ?thesis
          by (auto simp: queue_ok_def filter_remove1 length_remove1 intro: le_trans)
      qed
      ultimately show ?thesis using Some ToggleItem q1 by (simp add: on_mqtt_command_def Let_def)
    qed
  qed (use q1 in \<open>auto simp: on_mqtt_command_def is_set_temperature_def is_toggle_def intro!: push_or_drop_queue\<close>)
qed

interpretation mqtt_queue: invariant_machine on_mqtt_command "\<lambda>a. queue_ok (command_queue a)" "\<lambda>_. False"
  by unfold_locales (simp_all add: on_mqtt_command_queue on_mqtt_command_frame)

text \<open>
  Commands from outside cannot flood the queue. After any sequence of them it holds at
  most thirty-two, of which at most one sets the temperature and no two toggle the same item, and no
  command is sent at once.
\<close>

theorem mqtt_queue_bounded:
  "length (command_queue (fst (run_machine on_mqtt_command (with_client_hash t0 h) cmds))) \<le> 32 \<and>
   length (filter is_set_temperature
     (command_queue (fst (run_machine on_mqtt_command (with_client_hash t0 h) cmds)))) \<le> 1 \<and>
   distinct (filter is_toggle (command_queue (fst (run_machine on_mqtt_command (with_client_hash t0 h) cmds)))) \<and>
   snd (run_machine on_mqtt_command (with_client_hash t0 h) cmds) = []"
proof -
  have i: "queue_ok (command_queue (with_client_hash t0 h))" by (simp add: with_client_hash_def queue_ok_def)
  have "snd (run_machine on_mqtt_command (with_client_hash t0 h) cmds) = []"
    using mqtt_queue.run_ok [OF i] by (meson last_in_set)
  with mqtt_queue.run_inv [OF i, of cmds] show ?thesis by (simp add: queue_ok_def MAX_COMMAND_QUEUE_def)
qed

text \<open>Two toggles of one item cancel out in the queue.\<close>

lemma toggle_twice:
  assumes "length (command_queue a) < 32" and "ToggleItem i \<notin> set (command_queue a)"
  shows "command_queue (fst (on_mqtt_command (fst (on_mqtt_command a (ToggleItem i))) (ToggleItem i))) =
    command_queue a"
  using assms
  by (simp add: on_mqtt_command_def queue_clock_pref_def push_or_drop_def MAX_COMMAND_QUEUE_def
      remove_toggle_None [THEN iffD2] remove_toggle_snoc)

text \<open>What the timers and the tracker put into the queue.\<close>

lemma tick_timers_toggles: "c \<in> set (snd (tick_timers now ps i ts)) \<Longrightarrow> retryable c"
proof (induction ts arbitrary: i)
  case (Cons t ts)
  then show ?case
    by (auto simp: pump_timer_tick_def retryable_def split_def Let_def split: option.splits if_splits)
qed simp

lemma hold_timer_tick_toggle: "hold_timer_tick h now b = (h', Some c) \<Longrightarrow> retryable c"
  by (auto simp: hold_timer_tick_def retryable_def split: if_splits option.splits)

lemma verify_retries_ok:
  assumes "tracker_inv t"
  shows "length (vr_retries (snd (verify t st now))) \<le> 8 \<and> list_all retryable (vr_retries (snd (verify t st now)))"
proof -
  have "length (filter (retried st now) (pending t)) \<le> 8"
    using assms le_trans [OF length_filter_le [of "retried st now" "pending t"]]
    by (simp add: tracker_inv_def MAX_PENDING_COMMANDS_def)
  then show ?thesis
    using tracker.step_ok [of t _ "Ev_Verify st now"] assms
    by (auto simp: verify_one_pass list_all_iff)
qed

text \<open>
  A status never withdraws a queued command, not even a retry whose command the status
  has just confirmed; and it appends retries and timer commands, up to fifteen toggles and
  temperature settings, whatever the length of the queue.
\<close>

theorem status_appends_to_queue:
  assumes "app_inv a" and "is_registered (registration a)" and "dispatch_frame f = Msg_StatusUpdate st"
  shows "\<exists>added. command_queue (fst (app_process_frame a now f)) = command_queue a @ added \<and>
    length added \<le> 15 \<and> list_all retryable added"
proof -
  let ?v = "vr_retries (snd (verify (cmd_tracker a) st now))"
  let ?e = "snd (tick_all (pump_timers a) now (pumps st))"
  let ?h = "case snd (hold_timer_tick (hold_timer a) now (is_hold st)) of Some c \<Rightarrow> [c] | None \<Rightarrow> []"
  have "length (timers (pump_timers a)) = 6"
    using assms(1) arg_cong [of _ _ length] by (fastforce simp: app_inv_def pump_order_def)
  then have e: "length ?e \<le> 6" "list_all retryable ?e"
    using length_tick_timers_out [of now "pumps st" 0 "timers (pump_timers a)"] tick_timers_toggles
    by (auto simp: tick_all_def split_def Let_def list_all_iff)
  have v: "length ?v \<le> 8" "list_all retryable ?v"
    using assms(1) verify_retries_ok by (simp_all add: app_inv_def)
  have h: "length ?h \<le> 1" "list_all retryable ?h"
    using hold_timer_tick_toggle [of "hold_timer a" now "is_hold st"]
    by (cases "hold_timer_tick (hold_timer a) now (is_hold st)"; cases "snd (hold_timer_tick (hold_timer a) now (is_hold st))"; simp)+
  have "command_queue (fst (app_process_frame a now f)) = command_queue a @ ?v @ ?e @ ?h"
    using assms(2,3)
    by (simp add: app_process_frame_def process_registered_def process_status_def app_is_registered_def
        Let_def split_def)
  with e v h show ?thesis by (intro exI [of _ "?v @ ?e @ ?h"]) simp
qed

theorem status_appends_to_queue_witness:
  "\<exists>added. command_queue (fst (app_process_frame example_app (Timestamp 9)
      \<lparr>message_type = (0xFF, 0xAF), payload = replicate 24 0\<rparr>)) = added \<and> length added \<le> 15"
  using status_appends_to_queue [OF example_app(1,2) dispatch_status [of "replicate 24 0"], of "Timestamp 9"]
  by (auto simp: example_app)

text \<open>
  Property C35: a command goes through. A registered application that receives a trackable command,
  gets clear-to-send on its channel and then a status that shows the expected change sends the frame
  from which the spa decodes the command's type and payload, publishes the status, and has nothing
  pending any more.
\<close>

theorem command_lifecycle:
  assumes "is_registered (registration a)" and "client_id a = Some c" and "client_address c"
    and "command_queue a = []" and "pending (cmd_tracker a) = []" and "last_status a = Some s0"
    and "expected_from_command cmd s0 = Some ex" and "command_encode cmd = Inr (mt, p)"
    and "length d = 24" and "is_confirmed ex (projr (status_parse d))"
  shows "let r = run_machine app_step a
      [Ev_Mqtt cmd, Ev_Frame t1 \<lparr>message_type = (c, 0xBF), payload = [6]\<rparr>,
       Ev_Frame t2 \<lparr>message_type = (0xFF, 0xAF), payload = d\<rparr>] in
    (\<exists>bs ft rec rs. snd r = [SendFrame bs, PublishState (projr (status_parse d)) ft rec rs] \<and>
      decoder_feed_slice decoder_new bs = Some (decoder_new, [\<lparr>message_type = mt, payload = p\<rparr>])) \<and>
    last_status (fst r) = Some (projr (status_parse d)) \<and> pending (cmd_tracker (fst r)) = []"
proof -
  let ?g = "\<lparr>message_type = (c, 0xBF), payload = [6]\<rparr> :: frame"
  let ?f = "\<lparr>message_type = (0xFF, 0xAF), payload = d\<rparr> :: frame"
  let ?s = "projr (status_parse d)"
  have r: "retryable cmd" using assms(7) by (rule expected_retryable)
  have m: "on_mqtt_command a cmd = (a\<lparr>command_queue := [cmd]\<rparr>, [])"
    using r assms(4)
    by (cases cmd) (simp_all add: on_mqtt_command_def queue_clock_pref_def push_or_drop_def
        MAX_COMMAND_QUEUE_def retryable_def)
  let ?a2 = "a\<lparr>command_queue := [], cmd_tracker := track (cmd_tracker a) cmd s0 t1, last_cts_time := Some t1\<rparr>"
  have g: "app_process_frame (a\<lparr>command_queue := [cmd]\<rparr>) t1 ?g = (?a2, [SendFrame (encode_command cmd)])"
    using assms(1-3,6) by (simp add: process_registered_ready process_ready_own)
  have t: "pending (track (cmd_tracker a) cmd s0 t1) =
      [\<lparr>pending_command = cmd, expected = ex, sent_at = t1, retries = 0\<rparr>]"
    using assms(5,7) by (simp add: track_def MAX_PENDING_COMMANDS_def)
  obtain ft rec rs where f: "snd (app_process_frame ?a2 t2 ?f) = [PublishState ?s ft rec rs]"
      "last_status (fst (app_process_frame ?a2 t2 ?f)) = Some ?s"
      "pending (cmd_tracker (fst (app_process_frame ?a2 t2 ?f))) = []"
    using assms(1,10) t
    by (simp add: app_process_frame_def process_registered_def dispatch_status [OF assms(9)]
        process_status_def app_is_registered_def Let_def split_def verify_one_pass gone_def)
  have "length p \<le> 5" using command_encode_length [OF assms(8)] by simp
  then have "delimited \<lparr>message_type = mt, payload = p\<rparr>" using wire_bytes_encode by blast
  then have "decoder_feed_slice decoder_new (encode_command cmd) =
      Some (decoder_new, [\<lparr>message_type = mt, payload = p\<rparr>])"
    using slice_bytes_wire [OF decoder_ready_new] by (simp add: encode_command_frame assms(8))
  with m g f show ?thesis by (simp add: Let_def run_machine_Cons_proj del: run_machine.simps(2))
qed

theorem command_lifecycle_witness:
  "last_status (fst (run_machine app_step
      (example_app\<lparr>last_status := Some (projr (status_parse (replicate 24 0)))\<rparr>)
      [Ev_Mqtt (SetTemperature 100),
       Ev_Frame (Timestamp 7) \<lparr>message_type = (0x10, 0xBF), payload = [6]\<rparr>,
       Ev_Frame (Timestamp 9) \<lparr>message_type = (0xFF, 0xAF), payload = replicate 20 0 @ [100, 0, 0, 0]\<rparr>])) =
    Some (projr (status_parse (replicate 20 0 @ [100, 0, 0, 0])))"
proof -
  let ?d = "replicate 20 0 @ [100, 0, 0, 0] :: u8 list"
  have "status_parse ?d = Inr (projr (status_parse ?d))" by (simp add: status_parse_Inr_iff)
  then have "is_confirmed (TemperatureSet 100) (projr (status_parse ?d))"
    by (simp add: temperature_confirmed_by_status nth_append)
  then show ?thesis
    using command_lifecycle [of "example_app\<lparr>last_status := Some (projr (status_parse (replicate 24 0)))\<rparr>"
        "0x10" "projr (status_parse (replicate 24 0))" "SetTemperature 100" "TemperatureSet 100" "(0x0A, 0xBF)"
        "[0x20, 100]" ?d "Timestamp 7" "Timestamp 9"]
    by (simp add: example_app client_address_def expected_from_command_def ABSOLUTE_MAX_TEMP_F_def Let_def
        del: run_machine.simps)
qed

section \<open>Lost communication\<close>

definition timers_stopped :: "SpaApp \<Rightarrow> bool" where
  "timers_stopped a \<longleftrightarrow> list_all (\<lambda>t. \<not> pump_timer_is_running t) (timers (pump_timers a))"

text \<open>Nothing left that could be sent.\<close>

definition cleared :: "SpaApp \<Rightarrow> bool" where
  "cleared a \<longleftrightarrow> \<not> is_registered (registration a) \<and> client_id a = None \<and> command_queue a = [] \<and>
     pending (cmd_tracker a) = [] \<and> timers_stopped a"

lemma reset_cleared: "cleared (reset_registration_state a True)"
  by (simp add: cleared_def reset_registration_state_def Let_def tracker_reset_def timers_stopped_def
      cancel_all_def pump_timer_cancel_def pump_timer_is_running_def list_all_iff)

lemma reset_was_stale [simp]: "was_stale (reset_registration_state a b) = was_stale a"
  by (simp add: reset_registration_state_def Let_def)

lemma tick_probe_frame [simp]:
  "cleared (fst (tick_probe a now el)) = cleared a"
  "was_stale (fst (tick_probe a now el)) = was_stale a"
  "last_status (fst (tick_probe a now el)) = last_status a"
  by (simp_all add: tick_probe_def Let_def cleared_def timers_stopped_def)

lemma tick_diag_cleared [simp]: "cleared (fst (tick_diag a now)) = cleared a"
  by (simp add: tick_diag_def Let_def cleared_def timers_stopped_def)

lemma tick_stale_cleared: "cleared a \<Longrightarrow> cleared (fst (tick_stale a now))"
  by (simp add: tick_stale_def Let_def split_def reset_cleared split: option.splits)

lemma tick_stale_lost:
  "last_status_time a = Some t \<Longrightarrow> STALE_THRESHOLD_MS \<le> elapsed_since now t \<Longrightarrow> \<not> was_stale a \<Longrightarrow>
     cleared (fst (tick_stale a now)) \<and> was_stale (fst (tick_stale a now)) \<and>
     alert ''warn'' ''spa_communication_lost'' \<in> set (snd (tick_stale a now))"
  by (simp add: tick_stale_def Let_def split_def reset_cleared)

lemma tick_registration_registered:
  "is_registered (registration a) \<Longrightarrow>
     tick_registration a now = (a\<lparr>registration_started_at := None, no_query_alert_sent := False\<rparr>, [])"
  by (simp add: tick_registration_def)

lemma app_tick_proj:
  "fst (app_tick a now) = fst (tick_diag (fst (tick_stale (fst (tick_cts (fst (tick_registration a now)) now)) now)) now)"
  "set (snd (app_tick a now)) = set (snd (tick_registration a now)) \<union>
     set (snd (tick_cts (fst (tick_registration a now)) now)) \<union>
     set (snd (tick_stale (fst (tick_cts (fst (tick_registration a now)) now)) now)) \<union>
     set (snd (tick_diag (fst (tick_stale (fst (tick_cts (fst (tick_registration a now)) now)) now)) now))"
  by (auto simp: app_tick_def Let_def split_def)



section \<open>Texts and identities\<close>

lemma length_show_nat_le: "n < 1000 \<Longrightarrow> length (show_nat n) \<le> 3"
proof -
  assume "n < 1000"
  then have "n div 100 < 10" by simp
  then show ?thesis
    by (simp add: show_nat.simps [of n] show_nat.simps [of "n div 10"] show_nat.simps [of "n div 100"]
        div_mult2_eq [symmetric])
qed

lemma show_nat_ascii: "list_all (\<lambda>c. c < 128) (show_nat n)"
  using show_nat_digits [of _ n] by (force simp: list_all_iff)

lemma as_bytes_ascii: "list_all (\<lambda>c. c < 128) s \<Longrightarrow> as_bytes s = map word_of_nat s"
  by (induction s) (simp_all add: as_bytes_def utf8_char_def)

lemma FaultCode_debug_text: "length (FaultCode_debug c) \<le> 15 \<and> list_all (\<lambda>c. c < 128) (FaultCode_debug c)"
proof (cases c)
  case (Fault_Unknown b)
  have "unat b < 1000" using unat_u8_less [of b] by simp
  then show ?thesis
    using Fault_Unknown length_show_nat_le [of "unat b"] show_nat_ascii [of "unat b"] by (simp add: lit_def)
qed (simp_all add: lit_def)

text \<open>
  Every fault text the application builds passes through the fixed-size fault buffer
  unchanged: it has at most 63 bytes, all of them ASCII.
\<close>

theorem fault_text_survives:
  "fault_buf_as_str (fault_buf_from_string (fault_text fl)) = Some (fault_text fl)"
proof -
  have n: "length (show_nat (unat b)) \<le> 3" "list_all (\<lambda>c. c < 128) (show_nat (unat b))" for b :: u8
    using unat_u8_less [of b] length_show_nat_le [of "unat b"] show_nat_ascii [of "unat b"] by simp_all
  have p: "length (pad_zero 2 (show_nat (unat b))) \<le> 3"
    "list_all (\<lambda>c. c < 128) (pad_zero 2 (show_nat (unat b)))" for b :: u8
    using n [of b] by (auto simp: pad_zero_def list_all_iff)
  have ascii: "list_all (\<lambda>c. c < 128) (fault_text fl)"
    using FaultCode_debug_text [of "message_code fl"] n p
    by (simp add: fault_text_def) (simp add: lit_def)
  have "length (fault_text fl) \<le> 63"
    using FaultCode_debug_text [of "message_code fl"] n(1) [of "days_ago fl"] n(1) [of "fault_hour fl"]
      p(1) [of "fault_minute fl"] n(1) [of "set_temperature fl"]
    by (simp add: fault_text_def)
  moreover have "list_all scalar_value (fault_text fl)"
    using ascii by (auto simp: list_all_iff scalar_value_def)
  moreover have "fault_text fl \<noteq> []" by (simp add: fault_text_def lit_def)
  ultimately show ?thesis by (simp add: fault_buf_fits as_bytes_ascii [OF ascii])
qed

text \<open>
  The identity derived from a device name is never one of the two reserved hashes:
  neither 0000, the legacy hash that every client accepts, nor F173.
\<close>

theorem derive_client_hash_valid:
  "derive_client_hash device \<noteq> (0, 0) \<and> derive_client_hash device \<noteq> (0xF1, 0x73)"
proof -
  define h where "h = foldl (\<lambda>h b. xor h (ucast b) * 0x0101) (0x811C :: u16) (as_bytes device)"
  define k where "k = (let h1 = (if h = 0 then 1 else h) in if h1 = 0xF173 then 0xF174 else h1)"
  have k: "k \<noteq> 0" "k \<noteq> 0xF173" by (auto simp: k_def Let_def)
  have d: "derive_client_hash device = (ucast (drop_bit 8 k), ucast (k AND 0xFF))"
    by (simp add: derive_client_hash_def k_def h_def Let_def)
  have split: "unat k = 256 * unat (fst (derive_client_hash device)) + unat (snd (derive_client_hash device))"
    by (simp add: d u16_bytes)
  show ?thesis
  proof (intro conjI notI)
    assume "derive_client_hash device = (0, 0)"
    with split have "unat k = unat (0 :: u16)" by simp
    with k(1) show False by (simp only: word_unat_eq_iff)
  next
    assume "derive_client_hash device = (0xF1, 0x73)"
    with split have "unat k = unat (0xF173 :: u16)" by simp
    with k(2) show False by (simp only: word_unat_eq_iff)
  qed
qed

end
