(* ===== verification/Harness.thy ===== *)
theory Harness
  imports SimTraffic SpaAppProperties
begin

text \<open>
  The simulated spa, the decoder and the application connected to each other, as
  \<open>crates/launa-integration-tests/src/harness.rs\<close> connects them: the only place of the repository
  where both ends of the bus run together. A panic of the simulator, or of the harness when the
  registration does not complete, is the value \<open>None\<close>. The broker of the harness is left out.
\<close>

section \<open>The harness\<close>

record TestHarness =
  h_sim :: SpaSim
  h_app :: SpaApp
  h_clock :: Timestamp
  h_decoder :: FrameDecoder

definition harness_new :: TestHarness where
  "harness_new = \<lparr>h_sim = set_require_registration sim_new True, h_app = app_new ts_zero,
     h_clock = ts_zero, h_decoder = decoder_new\<rparr>"

text \<open>The application handles frames, one after the other.\<close>

fun app_process_frames :: "SpaApp \<Rightarrow> Timestamp \<Rightarrow> frame list \<Rightarrow> SpaApp \<times> AppAction list" where
  "app_process_frames a now [] = (a, [])"
| "app_process_frames a now (f # fs) =
     (let (a1, as1) = app_process_frame a now f; (a2, as2) = app_process_frames a1 now fs in (a2, as1 @ as2))"

definition tick_spa :: "TestHarness \<Rightarrow> (TestHarness \<times> AppAction list) option" where
  "tick_spa h = do {
     (sim, spa_bytes) \<leftarrow> sim_tick (h_sim h);
     (d, frames) \<leftarrow> decoder_feed_slice (h_decoder h) spa_bytes;
     let (a, actions) = app_process_frames (h_app h) (h_clock h) frames;
     Some (h\<lparr>h_sim := sim, h_decoder := d, h_app := a\<rparr>, actions)
   }"

definition tick_app :: "TestHarness \<Rightarrow> TestHarness \<times> AppAction list" where
  "tick_app h = (let (a, actions) = app_tick (h_app h) (h_clock h) in (h\<lparr>h_app := a\<rparr>, actions))"

definition advance_ms :: "TestHarness \<Rightarrow> u64 \<Rightarrow> TestHarness" where
  "advance_ms h ms = h\<lparr>h_clock := ts_saturating_add (h_clock h) ms\<rparr>"

definition send_command :: "TestHarness \<Rightarrow> Command \<Rightarrow> TestHarness \<times> AppAction list" where
  "send_command h cmd = (let (a, actions) = on_mqtt_command (h_app h) cmd in (h\<lparr>h_app := a\<rparr>, actions))"

definition client_channel :: "TestHarness \<Rightarrow> u8 option" where
  "client_channel h = client_id (h_app h)"

text \<open>The frames that the application sends go to the simulator; what it answers is dropped here.\<close>

fun deliver :: "SpaSim \<Rightarrow> AppAction list \<Rightarrow> SpaSim option" where
  "deliver sim [] = Some sim"
| "deliver sim (SendFrame bs # acts) = do { (sim', _) \<leftarrow> process_incoming_bytes sim bs; deliver sim' acts }"
| "deliver sim (_ # acts) = deliver sim acts"

definition process_outgoing :: "TestHarness \<Rightarrow> AppAction list \<Rightarrow> TestHarness option" where
  "process_outgoing h actions = map_option (\<lambda>sim. h\<lparr>h_sim := sim\<rparr>) (deliver (h_sim h) actions)"

definition tick_spa_with_outgoing :: "TestHarness \<Rightarrow> (TestHarness \<times> AppAction list) option" where
  "tick_spa_with_outgoing h = do {
     (h1, actions) \<leftarrow> tick_spa h;
     h2 \<leftarrow> process_outgoing h1 actions;
     Some (h2, actions)
   }"

text \<open>A whole cycle: the spa, what the application sends, and the application's own tick.\<close>

definition full_tick :: "TestHarness \<Rightarrow> (TestHarness \<times> AppAction list) option" where
  "full_tick h = do {
     (h1, spa_actions) \<leftarrow> tick_spa h;
     h2 \<leftarrow> process_outgoing h1 spa_actions;
     let (h3, app_actions) = tick_app h2;
     Some (h3, spa_actions @ app_actions)
   }"

section \<open>Registration\<close>

definition is_new_client_query :: "frame \<Rightarrow> bool" where
  "is_new_client_query f \<longleftrightarrow> message_type f = (0xFE, 0xBF) \<and> length (payload f) = 1 \<and> payload f ! 0 = 0x00"

text \<open>
  The query: the application sees it, and the harness answers for the fast path of the firmware; what
  the spa then says is handled before the next frame.
\<close>

definition answer_query :: "TestHarness \<Rightarrow> frame \<Rightarrow> (TestHarness \<times> AppAction list) option" where
  "answer_query h f =
     (let (a1, as1) = app_process_frame (h_app h) (h_clock h) f; h1 = h\<lparr>h_app := a1\<rparr> in
      case registration_encode (NewClientResponse 0x02 (client_hash a1)) of
        Inl _ \<Rightarrow> Some (h1, as1)
      | Inr encoded \<Rightarrow> do {
          (sim, resp_bytes) \<leftarrow> process_incoming_bytes (h_sim h1) encoded;
          if resp_bytes = [] then Some (h1\<lparr>h_sim := sim\<rparr>, as1)
          else do {
            (d, resp_frames) \<leftarrow> decoder_feed_slice (h_decoder h1) resp_bytes;
            let (a2, as2) = app_process_frames a1 (h_clock h1) resp_frames;
            Some (h1\<lparr>h_sim := sim, h_decoder := d, h_app := a2\<rparr>, as1 @ as2)
          }
        })"

fun registration_frames :: "TestHarness \<Rightarrow> frame list \<Rightarrow> (TestHarness \<times> AppAction list) option" where
  "registration_frames h [] = Some (h, [])"
| "registration_frames h (f # fs) = do {
     (h1, as1) \<leftarrow>
       (if is_new_client_query f then answer_query h f
        else if \<not> app_is_registered (h_app h) then
          (let (a, acts) = app_process_frame (h_app h) (h_clock h) f in Some (h\<lparr>h_app := a\<rparr>, acts))
        else Some (h, []));
     (h2, as2) \<leftarrow> registration_frames h1 fs;
     Some (h2, as1 @ as2)
   }"

text \<open>The frames sent go to the simulator, and its answers to the application, once.\<close>

fun answer_frames :: "TestHarness \<Rightarrow> frame list \<Rightarrow> TestHarness option" where
  "answer_frames h [] = Some h"
| "answer_frames h (f # fs) = do {
     let (a, resp_actions) = app_process_frame (h_app h) (h_clock h) f;
     sim \<leftarrow> deliver (h_sim h) resp_actions;
     answer_frames (h\<lparr>h_app := a, h_sim := sim\<rparr>) fs
   }"

fun exchange :: "TestHarness \<Rightarrow> AppAction list \<Rightarrow> TestHarness option" where
  "exchange h [] = Some h"
| "exchange h (SendFrame bs # acts) = do {
     (sim, responses) \<leftarrow> process_incoming_bytes (h_sim h) bs;
     h1 \<leftarrow> (if responses = [] then Some (h\<lparr>h_sim := sim\<rparr>)
       else do {
         (d, resp_frames) \<leftarrow> decoder_feed_slice (h_decoder h) responses;
         answer_frames (h\<lparr>h_sim := sim, h_decoder := d\<rparr>) resp_frames
       });
     exchange h1 acts
   }"
| "exchange h (_ # acts) = exchange h acts"

text \<open>One turn of the loop: what the spa sends, up to the point where the answers are delivered; then these.\<close>

definition offer_round :: "TestHarness \<Rightarrow> (TestHarness \<times> AppAction list) option" where
  "offer_round h = do {
     (sim, spa_bytes) \<leftarrow> sim_tick (h_sim h);
     (d, frames) \<leftarrow> decoder_feed_slice (h_decoder h) spa_bytes;
     registration_frames (h\<lparr>h_sim := sim, h_decoder := d\<rparr>) frames
   }"

definition registration_round :: "TestHarness \<Rightarrow> TestHarness option" where
  "registration_round h = do {
     (h1, all_actions) \<leftarrow> offer_round h;
     exchange h1 all_actions
   }"

fun complete_registration :: "TestHarness \<Rightarrow> nat \<Rightarrow> (TestHarness \<times> nat) option" where
  "complete_registration h 0 = None"
| "complete_registration h (Suc n) = do {
     h1 \<leftarrow> registration_round h;
     if app_is_registered (h_app h1) then Some (h1, 1)
     else map_option (apsnd Suc) (complete_registration h1 n)
   }"

section \<open>Frames of a tick at the application\<close>

lemma tick_traffic_frames:
  assumes "tick_traffic m m' fs"
  obtains n pr fault current target where "temp_to_wire (sp_set_temp (sim_state m')) = Inr target"
    and "fs = (if sim_registered m then [] else [query_frame]) @
      replicate (Suc n) (status_frame (sim_state m') pr fault current target) @
      (if ready_countdown m \<le> 1 then [ready_frame_of m] else [])"
  using assms unfolding tick_traffic_def by blast

lemma app_process_frames_append:
  "app_process_frames a now (fs @ gs) =
     (let (a1, as1) = app_process_frames a now fs; (a2, as2) = app_process_frames a1 now gs in (a2, as1 @ as2))"
  by (induction fs arbitrary: a) (simp_all add: split_def Let_def)

definition is_send :: "AppAction \<Rightarrow> bool" where
  "is_send act = (case act of SendFrame _ \<Rightarrow> True | _ \<Rightarrow> False)"

lemma deliver_no_send: "list_all (\<lambda>act. \<not> is_send act) acts \<Longrightarrow> deliver sim acts = Some sim"
  by (induction sim acts rule: deliver.induct) (simp_all add: is_send_def)

lemma deliver_append: "deliver sim (as1 @ as2) = Option.bind (deliver sim as1) (\<lambda>s. deliver s as2)"
proof (induction sim as1 rule: deliver.induct)
  case (2 sim bs acts)
  then show ?case by (cases "process_incoming_bytes sim bs") auto
qed simp_all

text \<open>The timers are quiet: no pump timer runs, and hold is not about to be released.\<close>

definition hold_quiet :: "HoldModeTimer \<Rightarrow> Timestamp \<Rightarrow> bool \<Rightarrow> bool" where
  "hold_quiet h now hold \<longleftrightarrow> 0 < timeout_ms h \<and>
     (hold \<longrightarrow> fired h \<or> (case entered_at h of None \<Rightarrow> True | Some e \<Rightarrow> elapsed_since now e < timeout_ms h))"

lemma hold_quiet_tick:
  assumes "hold_quiet h now hold"
  shows "snd (hold_timer_tick h now hold) = None"
    and "hold_quiet (fst (hold_timer_tick h now hold)) now hold"
  using assms by (auto simp: hold_quiet_def hold_timer_tick_def word_gt_0 split: option.splits)

lemma tick_timers_stopped:
  "list_all (\<lambda>t. \<not> pump_timer_is_running t) ts \<Longrightarrow> tick_timers now ps i ts = (ts, [])"
  by (induction ts arbitrary: i) (simp_all add: pump_timer_tick_def pump_timer_is_running_def)

lemma tick_all_stopped:
  "list_all (\<lambda>t. \<not> pump_timer_is_running t) (timers m) \<Longrightarrow> tick_all m now ps = (m, [])"
  by (simp add: tick_all_def tick_timers_stopped)

text \<open>A status never sends anything; what else it leaves alone.\<close>

lemma app_status:
  assumes "is_registered (registration a)" and "length (sp_pumps s) = 6" and "length (sp_lights s) = 4"
    and "app_process_frame a now (status_frame s pr fault current target) = (a', acts)"
  shows "list_all (\<lambda>act. \<not> is_send act) acts" and "registration a' = registration a"
    and "client_id a' = client_id a" and "last_cts_time a' = last_cts_time a"
    and "last_status_time a' = Some now" and "client_hash a' = client_hash a"
  using assms by (auto simp: app_process_frame_def process_registered_def dispatch_status_frame
      process_status_def app_is_registered_def is_send_def Let_def split_def)

text \<open>With quiet timers, a status that confirms all that is pending.\<close>

definition settled :: "SpaApp \<Rightarrow> StatusUpdate \<Rightarrow> Timestamp \<Rightarrow> bool" where
  "settled a st now \<longleftrightarrow> timers_stopped a \<and> hold_quiet (hold_timer a) now (is_hold st) \<and>
     list_all (\<lambda>p. is_confirmed (expected p) st) (pending (cmd_tracker a))"

lemma app_status_settled:
  assumes "is_registered (registration a)" and "length (sp_pumps s) = 6" and "length (sp_lights s) = 4"
    and "settled a (status_of s pr fault current target) now"
    and "app_process_frame a now (status_frame s pr fault current target) = (a', acts)"
  shows "command_queue a' = command_queue a" and "pending (cmd_tracker a') = []"
    and "last_status a' = Some (status_of s pr fault current target)" and "settled a' (status_of s pr fault current target) now"
    and "retry_count (cmd_tracker a') = retry_count (cmd_tracker a)"
    and "dropped_count (cmd_tracker a') = dropped_count (cmd_tracker a)"
    and "timeout_ms (hold_timer a') = timeout_ms (hold_timer a)"
    and "\<not> sp_hold s \<Longrightarrow> entered_at (hold_timer a') = None"
proof -
  let ?st = "status_of s pr fault current target"
  have t: "tick_all (pump_timers a) now ps = (pump_timers a, [])" for ps
    using assms(4) by (intro tick_all_stopped) (simp add: settled_def timers_stopped_def)
  obtain ht where h: "hold_timer_tick (hold_timer a) now (is_hold ?st) = (ht, None)"
      "hold_quiet ht now (is_hold ?st)"
    using hold_quiet_tick [of "hold_timer a" now "is_hold ?st"] assms(4) unfolding settled_def by (metis prod.collapse)
  have none: "filter (\<lambda>p. \<not> gone ?st now p) (pending (cmd_tracker a)) = []"
    "filter (retried ?st now) (pending (cmd_tracker a)) = []"
    "filter (given_up ?st now) (pending (cmd_tracker a)) = []"
    using assms(4) by (auto simp: settled_def gone_def retried_def given_up_def filter_empty_conv list_all_iff)
  have ht: "timeout_ms ht = timeout_ms (hold_timer a)" "\<not> sp_hold s \<longrightarrow> entered_at ht = None"
    using h(1) by (auto simp: hold_timer_tick_def status_of_reads split: if_splits option.splits)
  have a': "a' = fst (process_status a now (registration_state_str a) ?st)"
    using assms(1-3,5) by (simp add: app_process_frame_def process_registered_def dispatch_status_frame)
  have v: "verify (cmd_tracker a) ?st now = ((cmd_tracker a)\<lparr>pending := []\<rparr>, \<lparr>vr_retries = [], vr_dropped = 0\<rparr>)"
    by (simp add: verify_one_pass none)
  have p: "command_queue a' = command_queue a" "pending (cmd_tracker a') = []" "last_status a' = Some ?st"
    "retry_count (cmd_tracker a') = retry_count (cmd_tracker a)"
    "dropped_count (cmd_tracker a') = dropped_count (cmd_tracker a)" "pump_timers a' = pump_timers a"
    "hold_timer a' = ht"
    using assms(1) by (simp_all add: a' process_status_def app_is_registered_def v t h(1) Let_def)
  then show "command_queue a' = command_queue a" "pending (cmd_tracker a') = []" "last_status a' = Some ?st"
    "retry_count (cmd_tracker a') = retry_count (cmd_tracker a)"
    "dropped_count (cmd_tracker a') = dropped_count (cmd_tracker a)"
    "timeout_ms (hold_timer a') = timeout_ms (hold_timer a)"
    "\<not> sp_hold s \<Longrightarrow> entered_at (hold_timer a') = None"
    using ht by simp_all
  show "settled a' ?st now"
    using assms(4) p h(2) by (simp add: settled_def timers_stopped_def)
qed

section \<open>The handshake\<close>

text \<open>An application that takes the next assignment: not registered, and not about to reclaim a channel.\<close>

definition joining :: "SpaApp \<Rightarrow> bool" where
  "joining a \<longleftrightarrow> app_inv a \<and> \<not> is_registered (registration a) \<and>
     (reg_state (registration a) = WaitingForQuery \<longrightarrow> previous_channel (registration a) = None)"

lemma app_query:
  assumes "joining a"
  shows "\<exists>a'. app_process_frame a now query_frame = (a', []) \<and>
    reg_state (registration a') = WaitingForAssignment \<and> reg_hash (registration a') = client_hash a \<and>
    client_hash a' = client_hash a \<and> last_cts_time a' = last_cts_time a"
proof -
  have p: "registration_parse (0xFE, 0xBF) [0] = Inr NewClientQuery" by (simp add: registration_parse_def)
  show ?thesis
    using assms by (cases "reg_state (registration a)")
      (auto simp: joining_def app_inv_def app_process_frame_def process_unregistered_def query_frame_def p
        registration_process_def handle_registration_action_def is_registered_def Let_def)
qed

definition assignment_frame :: "u8 \<Rightarrow> hash \<Rightarrow> frame" where
  "assignment_frame c h = \<lparr>message_type = (0xFE, 0xBF), payload = [2, c, fst h, snd h]\<rparr>"

definition ack_frame :: "u8 \<Rightarrow> frame" where
  "ack_frame c = \<lparr>message_type = (c, 0xBF), payload = [3]\<rparr>"

lemma app_assignment:
  assumes "reg_state (registration a) = WaitingForAssignment" and "reg_hash (registration a) = client_hash a"
  shows "\<exists>a'. app_process_frame a now (assignment_frame c (client_hash a)) =
      (a', [SendFrame (wire_bytes (ack_frame c))]) \<and>
    reg_state (registration a') = Registered c \<and> client_id a' = Some c \<and> client_hash a' = client_hash a \<and>
    last_cts_time a' = last_cts_time a"
proof -
  obtain h1 h2 where h: "client_hash a = (h1, h2)" by fastforce
  have p: "registration_parse (0xFE, 0xBF) [2, c, h1, h2] = Inr (ClientIdAssignment c (h1, h2))"
    by (simp add: registration_parse_def)
  have e: "registration_encode (ClientIdAck c) = Inr (wire_bytes (ack_frame c))"
    unfolding ack_frame_def by (rule registration_encode_wire) simp
  show ?thesis
    using assms h by (simp add: app_process_frame_def process_unregistered_def assignment_frame_def p e
        registration_process_def handle_registration_action_def is_registered_def Let_def)
qed

lemma one_frame: "delimited f \<Longrightarrow> decoder_ready d \<Longrightarrow> decoder_feed_slice d (wire_bytes f) = Some (d, [f])"
  by (rule slice.feed_enc)

lemma sim_answers_response:
  assumes "quiet m" and "\<not> sim_registered m" and "registration_query_tick m = Some (tick_count m)"
  defines "c \<equiv> next_client_id m"
  shows "\<exists>m'. process_incoming_bytes m (wire_bytes \<lparr>message_type = (0xFE, 0xBF), payload = [1, dt, fst h, snd h]\<rparr>) =
      Some (m', wire_bytes (assignment_frame c h)) \<and>
    quiet m' \<and> \<not> sim_registered m' \<and> sim_client_id m' = sim_client_id m \<and>
    pending_client_hash m' = Some h \<and> sim_state m' = sim_state m"
proof -
  have i: "sim_inv m" using assms(1) by (simp add: quiet_def)
  have d: "decoder_feed_slice decoder_new (wire_bytes \<lparr>message_type = (0xFE, 0xBF), payload = [1, dt, fst h, snd h]\<rparr>) =
      Some (decoder_new, [\<lparr>message_type = (0xFE, 0xBF), payload = [1, dt, fst h, snd h]\<rparr>])"
    by (intro one_frame) (simp_all add: delimited_def encodable_def)
  have w: "\<not> outside_window m"
    using assms(3) by (simp add: outside_window_def sat_sub_def split: option.splits)
  define m' where "m' = fst (assign_channel m h)"
  have a: "assign_channel m h = (m', c)" "pending_client_hash m' = Some h"
      "\<not> sim_registered m'" "sim_client_id m' = sim_client_id m" "sim_state m' = sim_state m"
      "pending_commands m' = pending_commands m" "pending_events m' = pending_events m"
      "error_injection m' = error_injection m" "frame_splitter m' = frame_splitter m"
    using assms(2) by (simp_all add: m'_def assign_channel_def c_def Let_def split: option.splits)
  have "quiet m'" using assms(1) a assign_channel_inv [OF i, of h] by (simp add: quiet_def)
  moreover have "sim_process_frame m \<lparr>message_type = (0xFE, 0xBF), payload = [1, dt, fst h, snd h]\<rparr> =
      Some (m', Some (wire_bytes (assignment_frame c h)))"
    using w a(1) by (simp add: sim_process_frame_def process_registration_def generate_client_id_assignment_def
        sim_frame_wire assignment_frame_def Let_def)
  ultimately show ?thesis using a d by (simp add: process_incoming_bytes_def)
qed

lemma sim_takes_ack:
  assumes "quiet m" and "0x11 \<le> c" and "c \<le> 0x2F"
  shows "process_incoming_bytes m (wire_bytes (ack_frame c)) =
      Some (m\<lparr>sim_client_id := Some c, sim_registered := True\<rparr>, [])"
    and "quiet (m\<lparr>sim_client_id := Some c, sim_registered := True\<rparr>)"
proof -
  have n: "c \<noteq> 0xFE" "c \<noteq> 0x0A" using assms(2,3) by (auto simp: word_le_nat_alt)
  have "decoder_feed_slice decoder_new (wire_bytes (ack_frame c)) = Some (decoder_new, [ack_frame c])"
    by (intro one_frame) (simp_all add: ack_frame_def delimited_def encodable_def)
  with n show "process_incoming_bytes m (wire_bytes (ack_frame c)) =
      Some (m\<lparr>sim_client_id := Some c, sim_registered := True\<rparr>, [])"
    by (simp add: process_incoming_bytes_def sim_process_frame_def ack_frame_def)
  show "quiet (m\<lparr>sim_client_id := Some c, sim_registered := True\<rparr>)"
    using assms(1) by (simp add: quiet_def sim_inv_def)
qed

text \<open>The frames after the assignment are skipped, being no queries.\<close>

lemma registration_frames_skip:
  "app_is_registered (h_app h) \<Longrightarrow> list_all (\<lambda>f. \<not> is_new_client_query f) fs \<Longrightarrow>
     registration_frames h fs = Some (h, [])"
  by (induction fs) simp_all

lemma no_more_queries:
  "list_all (\<lambda>f. \<not> is_new_client_query f)
     (replicate n (status_frame s pr fault current target) @ (if b then [ready_frame_of m] else []))"
  by (auto simp: list_all_iff is_new_client_query_def status_frame_def ready_frame_of_def)

lemma offer_round_quiet:
  assumes "quiet (h_sim h)" and "\<not> sim_registered (h_sim h)" and "decoder_ready (h_decoder h)"
    and "joining (h_app h)"
  defines "c \<equiv> next_client_id (h_sim h)"
  shows "\<exists>h1. offer_round h = Some (h1, [SendFrame (wire_bytes (ack_frame c))]) \<and>
    quiet (h_sim h1) \<and> \<not> sim_registered (h_sim h1) \<and> sim_client_id (h_sim h1) = sim_client_id (h_sim h) \<and>
    pending_client_hash (h_sim h1) = Some (client_hash (h_app h)) \<and>
    h_decoder h1 = h_decoder h \<and> h_clock h1 = h_clock h \<and>
    reg_state (registration (h_app h1)) = Registered c \<and> client_id (h_app h1) = Some c \<and>
    last_cts_time (h_app h1) = last_cts_time (h_app h) \<and> 0x11 \<le> c \<and> c \<le> 0x2F"
proof -
  let ?hash = "client_hash (h_app h)"
  obtain m bs fs where tick: "sim_tick (h_sim h) = Some (m, bs)" "tick_traffic (h_sim h) m fs"
      "decoder_feed_slice (h_decoder h) bs = Some (h_decoder h, fs)"
    using sim_tick_quiet [OF assms(1)] assms(3) by blast
  from tick(2) have m: "quiet m" "\<not> sim_registered m" "sim_client_id m = sim_client_id (h_sim h)"
      "next_client_id m = c" "registration_query_tick m = Some (tick_count m)"
    using assms(2) by (auto simp: tick_traffic_def same_client_def c_def)
  obtain n pr fault cur tgt where shape:
    "fs = (if sim_registered (h_sim h) then [] else [query_frame]) @
      (replicate (Suc n) (status_frame (sim_state m) pr fault cur tgt) @
       (if ready_countdown (h_sim h) \<le> 1 then [ready_frame_of (h_sim h)] else []))"
    by (rule tick_traffic_frames [OF tick(2)])
  define rest where "rest = replicate (Suc n) (status_frame (sim_state m) pr fault cur tgt) @
      (if ready_countdown (h_sim h) \<le> 1 then [ready_frame_of (h_sim h)] else [])"
  have fs: "fs = query_frame # rest" "list_all (\<lambda>f. \<not> is_new_client_query f) rest"
    using shape assms(2) no_more_queries unfolding rest_def by (simp, blast)
  obtain a1 where a1: "app_process_frame (h_app h) (h_clock h) query_frame = (a1, [])"
      "reg_state (registration a1) = WaitingForAssignment" "reg_hash (registration a1) = client_hash a1"
      "client_hash a1 = ?hash" "last_cts_time a1 = last_cts_time (h_app h)"
    using app_query [OF assms(4), of "h_clock h"] by metis
  obtain a2 where a2: "app_process_frame a1 (h_clock h) (assignment_frame c ?hash) =
        (a2, [SendFrame (wire_bytes (ack_frame c))])"
      "reg_state (registration a2) = Registered c" "client_id a2 = Some c"
      "last_cts_time a2 = last_cts_time (h_app h)"
    using app_assignment [OF a1(2,3), of "h_clock h" c] a1(4,5) by auto
  have e: "registration_encode (NewClientResponse 2 ?hash) =
      Inr (wire_bytes \<lparr>message_type = (0xFE, 0xBF), payload = [1, 2, fst ?hash, snd ?hash]\<rparr>)"
    by (rule registration_encode_wire) simp
  obtain m' where m': "process_incoming_bytes m
        (wire_bytes \<lparr>message_type = (0xFE, 0xBF), payload = [1, 2, fst ?hash, snd ?hash]\<rparr>) =
        Some (m', wire_bytes (assignment_frame c ?hash))"
      "quiet m'" "\<not> sim_registered m'" "sim_client_id m' = sim_client_id (h_sim h)"
      "pending_client_hash m' = Some ?hash"
    using sim_answers_response [OF m(1,2,5), of 2 ?hash] m(3,4) by auto
  have del: "delimited (assignment_frame c ?hash)"
    by (simp add: assignment_frame_def delimited_def encodable_def)
  note d = one_frame [OF del assms(3)]
  have ne: "wire_bytes (assignment_frame c ?hash) \<noteq> []"
    using del by (simp add: delimited_def wire_bytes_encodable)
  have q: "is_new_client_query query_frame" by (simp add: is_new_client_query_def query_frame_def)
  define h1 where "h1 = h\<lparr>h_sim := m', h_decoder := h_decoder h, h_app := a2\<rparr>"
  have "answer_query (h\<lparr>h_sim := m, h_decoder := h_decoder h\<rparr>) query_frame =
      Some (h1, [SendFrame (wire_bytes (ack_frame c))])"
    by (simp add: answer_query_def a1(1,4) e m'(1) ne d a2(1) h1_def Let_def)
  moreover have "registration_frames h1 rest = Some (h1, [])"
    using fs(2) a2(2) by (intro registration_frames_skip) (simp_all add: h1_def app_is_registered_def is_registered_def)
  ultimately have "offer_round h = Some (h1, [SendFrame (wire_bytes (ack_frame c))])"
    using tick(1,3) fs(1) q by (simp add: offer_round_def)
  moreover have "0x11 \<le> c" "c \<le> 0x2F" using assms(1) by (simp_all add: quiet_def sim_inv_def c_def)
  ultimately show ?thesis using m' a2 by (simp add: h1_def)
qed

section \<open>When the acknowledgement is lost\<close>

text \<open>
  The application believes to be registered on \<open>c\<close> and has never been given clear-to-send; the spa
  knows of no client.
\<close>

definition stuck :: "u8 \<Rightarrow> TestHarness \<Rightarrow> bool" where
  "stuck c h \<longleftrightarrow> quiet (h_sim h) \<and> \<not> sim_registered (h_sim h) \<and> sim_client_id (h_sim h) = None \<and>
     decoder_ready (h_decoder h) \<and> is_registered (registration (h_app h)) \<and>
     client_id (h_app h) = Some c \<and> last_cts_time (h_app h) = None \<and> c \<noteq> 0x10"

lemma app_statuses:
  assumes "is_registered (registration a)" and "length (sp_pumps s) = 6" and "length (sp_lights s) = 4"
    and "app_process_frames a now (replicate n (status_frame s pr fault current target)) = (a', acts)"
  shows "list_all (\<lambda>act. \<not> is_send act) acts \<and> registration a' = registration a \<and>
    client_id a' = client_id a \<and> last_cts_time a' = last_cts_time a \<and>
    (0 < n \<longrightarrow> last_status_time a' = Some now)"
  using assms(1,4)
proof (induction n arbitrary: a a' acts)
  case (Suc n)
  obtain a1 as1 where a1: "app_process_frame a now (status_frame s pr fault current target) = (a1, as1)" by fastforce
  note st = app_status [OF Suc.prems(1) assms(2,3) a1]
  obtain a2 as2 where a2: "app_process_frames a1 now (replicate n (status_frame s pr fault current target)) = (a2, as2)"
    by fastforce
  have "is_registered (registration a1)" using Suc.prems(1) st(2) by simp
  from Suc.IH [OF this a2] st Suc.prems(2) a1 a2 show ?case by (cases n) auto
qed simp

lemma app_other_ready:
  assumes "is_registered (registration a)" and "client_id a = Some c" and "c \<noteq> 0x10" and "sim_client_id m = None"
  shows "app_process_frame a now (ready_frame_of m) = (a, [])"
  using assms by (simp add: ready_frame_of_def process_registered_ready client_address_def process_ready_other)

lemma app_query_registered:
  "is_registered (registration a) \<Longrightarrow> app_process_frame a now query_frame = (a, [])"
  by (simp add: app_process_frame_def process_registered_def query_frame_def dispatch_broadcast_query)

lemma app_tick_fresh:
  assumes "is_registered (registration a)" and "last_cts_time a = None" and "last_status_time a = Some now"
    and "app_tick a now = (a', acts)"
  shows "registration a' = registration a \<and> client_id a' = client_id a \<and> last_cts_time a' = None \<and>
    list_all (\<lambda>act. \<not> is_send act) acts"
proof -
  define a1 where "a1 = a\<lparr>registration_started_at := None, no_query_alert_sent := False\<rparr>"
  have r: "tick_registration a now = (a1, [])" using assms(1) by (simp add: tick_registration_def a1_def)
  have c: "tick_cts a1 now = (a1, [])" using assms(2) by (simp add: tick_cts_def a1_def)
  have s: "tick_stale a1 now = (a1, [])" using assms(3)
    by (simp add: tick_stale_def tick_probe_def a1_def STALE_PROBE_INTERVAL_MS_def STALE_THRESHOLD_MS_def Let_def)
  show ?thesis
    using assms(2,4) r c s
    by (auto simp: app_tick_def tick_diag_def a1_def is_send_def Let_def split: if_splits)
qed

text \<open>One cycle: time passes, commands arrive, both sides tick.\<close>

fun stuck_cycle :: "TestHarness \<Rightarrow> u64 \<times> Command list \<Rightarrow> (TestHarness \<times> AppAction list) option" where
  "stuck_cycle h (ms, cmds) = full_tick (foldl (\<lambda>h c. fst (send_command h c)) (advance_ms h ms) cmds)"

lemma send_commands_frame:
  defines "run \<equiv> \<lambda>h cmds. foldl (\<lambda>h c. fst (send_command h c)) h cmds"
  shows "h_sim (run h cmds) = h_sim h" and "h_decoder (run h cmds) = h_decoder h"
    and "registration (h_app (run h cmds)) = registration (h_app h)"
    and "client_id (h_app (run h cmds)) = client_id (h_app h)"
    and "last_cts_time (h_app (run h cmds)) = last_cts_time (h_app h)"
proof -
  have "last_cts_time (fst (on_mqtt_command a c)) = last_cts_time a" for a c
    by (simp add: on_mqtt_command_def Let_def push_or_drop_def queue_clock_pref_def
        split: option.splits Command.splits bool.splits)
  then have "h_sim (run h cmds) = h_sim h \<and> h_decoder (run h cmds) = h_decoder h \<and>
      registration (h_app (run h cmds)) = registration (h_app h) \<and>
      client_id (h_app (run h cmds)) = client_id (h_app h) \<and>
      last_cts_time (h_app (run h cmds)) = last_cts_time (h_app h)"
    unfolding run_def by (induction cmds arbitrary: h)
      (simp_all add: send_command_def on_mqtt_command_frame split_def Let_def)
  then show "h_sim (run h cmds) = h_sim h" "h_decoder (run h cmds) = h_decoder h"
    "registration (h_app (run h cmds)) = registration (h_app h)"
    "client_id (h_app (run h cmds)) = client_id (h_app h)"
    "last_cts_time (h_app (run h cmds)) = last_cts_time (h_app h)" by simp_all
qed

lemma quiet_arrays: "quiet m \<Longrightarrow> length (sp_pumps (sim_state m)) = 6 \<and> length (sp_lights (sim_state m)) = 4"
  by (simp add: quiet_def sim_inv_def spa_ok_def)

lemma stuck_full_tick:
  assumes "stuck c h"
  shows "\<exists>h' acts. full_tick h = Some (h', acts) \<and> stuck c h' \<and> list_all (\<lambda>act. \<not> is_send act) acts"
proof -
  have h: "quiet (h_sim h)" "\<not> sim_registered (h_sim h)" "sim_client_id (h_sim h) = None"
    "decoder_ready (h_decoder h)" "is_registered (registration (h_app h))"
    "client_id (h_app h) = Some c" "last_cts_time (h_app h) = None" "c \<noteq> 0x10"
    using assms by (simp_all add: stuck_def)
  obtain m bs fs where tick: "sim_tick (h_sim h) = Some (m, bs)" "tick_traffic (h_sim h) m fs"
      "decoder_feed_slice (h_decoder h) bs = Some (h_decoder h, fs)"
    using sim_tick_quiet [OF h(1)] h(4) by blast
  from tick(2) have m: "quiet m" "\<not> sim_registered m" "sim_client_id m = None"
    using h(2,3) by (auto simp: tick_traffic_def same_client_def)
  obtain n pr fault cur tgt where fs: "fs = (if sim_registered (h_sim h) then [] else [query_frame]) @
      replicate (Suc n) (status_frame (sim_state m) pr fault cur tgt) @
      (if ready_countdown (h_sim h) \<le> 1 then [ready_frame_of (h_sim h)] else [])"
    by (rule tick_traffic_frames [OF tick(2)])
  obtain a acts where st: "app_process_frames (h_app h) (h_clock h)
      (replicate (Suc n) (status_frame (sim_state m) pr fault cur tgt)) = (a, acts)" by fastforce
  note a = app_statuses [OF h(5) conjunct1 [OF quiet_arrays [OF m(1)]] conjunct2 [OF quiet_arrays [OF m(1)]] st]
  have "app_process_frames (h_app h) (h_clock h) fs = (a, acts)"
    using app_query_registered [OF h(5), of "h_clock h"] a h(5,6,8) st
      app_other_ready [of a c "h_sim h" "h_clock h"] h(2,3)
    by (simp add: fs app_process_frames_append Let_def split_def del: replicate_Suc)
  then have t: "tick_spa h = Some (h\<lparr>h_sim := m, h_decoder := h_decoder h, h_app := a\<rparr>, acts)"
    using tick(1,3) by (simp add: tick_spa_def)
  obtain a' acts' where ta: "app_tick a (h_clock h) = (a', acts')" by fastforce
  have a': "registration a' = registration a" "client_id a' = client_id a" "last_cts_time a' = None"
      "list_all (\<lambda>act. \<not> is_send act) acts'"
    using app_tick_fresh [OF _ _ _ ta] a h(5,7) by simp_all
  show ?thesis
    using t ta a a' h m deliver_no_send [of acts m]
    by (simp add: full_tick_def process_outgoing_def tick_app_def stuck_def)
qed

interpretation stuck: partial_observer stuck_cycle "stuck c" "\<lambda>_. True" "\<lambda>act. \<not> is_send act" for c
proof unfold_locales
  fix h and e :: "u64 \<times> Command list"
  assume i: "stuck c h"
  obtain ms cmds where e: "e = (ms, cmds)" by fastforce
  let ?h = "foldl (\<lambda>h c. fst (send_command h c)) (advance_ms h ms) cmds"
  have "stuck c ?h" using i send_commands_frame [of "advance_ms h ms" cmds]
    by (simp add: stuck_def advance_ms_def)
  from stuck_full_tick [OF this] show "\<exists>s' os. stuck_cycle h e = Some (s', os) \<and> stuck c s'"
    by (auto simp: e)
  show "list_all (\<lambda>act. \<not> is_send act) os" if "stuck_cycle h e = Some (s', os)" for s' os
    using stuck_full_tick [OF \<open>stuck c ?h\<close>] that by (auto simp: e)
qed

section \<open>A command from end to end\<close>

text \<open>Both ends registered on channel \<open>c\<close>, the spa accepting commands at once, and the timers quiet.\<close>

definition linked :: "u8 \<Rightarrow> TestHarness \<Rightarrow> bool" where
  "linked c h \<longleftrightarrow> quiet (h_sim h) \<and> sim_registered (h_sim h) \<and> sim_client_id (h_sim h) = Some c \<and>
     ready_interval_range (h_sim h) = (1, 1) \<and> ready_countdown (h_sim h) \<le> 1 \<and>
     command_latency_ticks (h_sim h) = 0 \<and> command_success_rate (error_injection (h_sim h)) = F32_Fin 1 \<and>
     decoder_ready (h_decoder h) \<and> client_address c \<and>
     is_registered (registration (h_app h)) \<and> client_id (h_app h) = Some c \<and>
     timers_stopped (h_app h) \<and> 0 < timeout_ms (hold_timer (h_app h))"

lemma accepts: "command_success_rate (error_injection m) = F32_Fin 1 \<Longrightarrow> should_accept_command m = (m, True)"
  by (cases m) (simp add: should_accept_command_def ei_should_accept_command_def f32_le_def)

lemma app_statuses_settled:
  assumes "is_registered (registration a)" and "length (sp_pumps s) = 6" and "length (sp_lights s) = 4"
    and "settled a (status_of s pr fault current target) now"
    and "app_process_frames a now (replicate (Suc n) (status_frame s pr fault current target)) = (a', acts)"
  shows "command_queue a' = command_queue a \<and> pending (cmd_tracker a') = [] \<and>
    last_status a' = Some (status_of s pr fault current target) \<and>
    settled a' (status_of s pr fault current target) now \<and>
    retry_count (cmd_tracker a') = retry_count (cmd_tracker a) \<and>
    dropped_count (cmd_tracker a') = dropped_count (cmd_tracker a) \<and>
    timeout_ms (hold_timer a') = timeout_ms (hold_timer a) \<and>
    (\<not> sp_hold s \<longrightarrow> entered_at (hold_timer a') = None)"
  using assms(1,4,5)
proof (induction n arbitrary: a a' acts)
  case 0
  then have "app_process_frame a now (status_frame s pr fault current target) = (a', acts)"
    by (simp add: Let_def split_def prod_eq_iff)
  from app_status_settled [OF 0(1) assms(2,3) 0(2) this] show ?case by simp
next
  case (Suc n)
  obtain a1 as1 where a1: "app_process_frame a now (status_frame s pr fault current target) = (a1, as1)" by fastforce
  note st = app_status_settled [OF Suc.prems(1) assms(2,3) Suc.prems(2) a1]
  have reg: "is_registered (registration a1)" using Suc.prems(1) app_status(2) [OF Suc.prems(1) assms(2,3) a1] by simp
  obtain a2 as2 where a2: "app_process_frames a1 now (replicate (Suc n) (status_frame s pr fault current target)) = (a2, as2)"
    by fastforce
  have "a' = a2" using Suc.prems(3) a1 a2 by (simp add: Let_def split_def)
  with Suc.IH [OF reg st(4) a2] st show ?case by simp
qed

text \<open>
  One cycle of a linked pair whose pending commands the coming status confirms: the application's
  state is settled by the status, and then the clear-to-send is answered.
\<close>

lemma linked_tick:
  assumes "linked c h"
    and "\<And>s' pr fault cur tgt. same_switches s' (sim_state (h_sim h)) \<Longrightarrow>
      temp_to_wire (sp_set_temp s') = Inr tgt \<Longrightarrow>
      settled (h_app h) (status_of s' pr fault cur tgt) (h_clock h)"
  obtains m a acts st pr fault cur tgt where
    "tick_spa h = Some (h\<lparr>h_sim := m, h_app := fst (process_ready a (h_clock h) c)\<rparr>,
      acts @ snd (process_ready a (h_clock h) c))"
    and "list_all (\<lambda>act. \<not> is_send act) acts" and "linked c (h\<lparr>h_sim := m, h_app := a\<rparr>)"
    and "same_switches (sim_state m) (sim_state (h_sim h))"
    and "st = status_of (sim_state m) pr fault cur tgt" and "last_status a = Some st"
    and "command_queue a = command_queue (h_app h)" and "pending (cmd_tracker a) = []"
    and "retry_count (cmd_tracker a) = retry_count (cmd_tracker (h_app h))"
    and "dropped_count (cmd_tracker a) = dropped_count (cmd_tracker (h_app h))"
    and "\<not> sp_hold (sim_state m) \<longrightarrow> entered_at (hold_timer a) = None"
proof -
  have h: "quiet (h_sim h)" "sim_registered (h_sim h)" "sim_client_id (h_sim h) = Some c"
    "ready_countdown (h_sim h) \<le> 1" "decoder_ready (h_decoder h)" "client_address c"
    "is_registered (registration (h_app h))" "client_id (h_app h) = Some c"
    using assms(1) by (simp_all add: linked_def)
  obtain m bs fs where tick: "sim_tick (h_sim h) = Some (m, bs)" "tick_traffic (h_sim h) m fs"
      "decoder_feed_slice (h_decoder h) bs = Some (h_decoder h, fs)"
    using sim_tick_quiet [OF h(1)] h(5) by blast
  have m: "quiet m" "same_client (h_sim h) m" "ready_countdown m = 1"
    using tick(2) assms(1) by (simp_all add: tick_traffic_def linked_def)
  obtain n pr fault cur tgt where tgt: "temp_to_wire (sp_set_temp (sim_state m)) = Inr tgt"
    and fs: "fs = (if sim_registered (h_sim h) then [] else [query_frame]) @
      replicate (Suc n) (status_frame (sim_state m) pr fault cur tgt) @
      (if ready_countdown (h_sim h) \<le> 1 then [ready_frame_of (h_sim h)] else [])"
    by (rule tick_traffic_frames [OF tick(2)])
  obtain a acts where st: "app_process_frames (h_app h) (h_clock h)
      (replicate (Suc n) (status_frame (sim_state m) pr fault cur tgt)) = (a, acts)" by fastforce
  have sw: "same_switches (sim_state m) (sim_state (h_sim h))" using m(2) by (simp add: same_client_def)
  note len = conjunct1 [OF quiet_arrays [OF m(1)]] conjunct2 [OF quiet_arrays [OF m(1)]]
  note a = app_statuses [OF h(7) len st]
  note s = app_statuses_settled [OF h(7) len assms(2) [OF sw tgt] st]
  have rd: "app_process_frame a (h_clock h) (ready_frame_of (h_sim h)) = process_ready a (h_clock h) c"
    using a h(3,6,7) by (simp add: ready_frame_of_def process_registered_ready)
  have "app_process_frames (h_app h) (h_clock h) fs =
      (fst (process_ready a (h_clock h) c), acts @ snd (process_ready a (h_clock h) c))"
    using h(2,4) st rd by (simp add: fs app_process_frames_append Let_def split_def del: replicate_Suc)
  then have t: "tick_spa h = Some (h\<lparr>h_sim := m, h_app := fst (process_ready a (h_clock h) c)\<rparr>,
        acts @ snd (process_ready a (h_clock h) c))"
    using tick(1,3) by (cases h) (simp add: tick_spa_def)
  have l: "linked c (h\<lparr>h_sim := m, h_app := a\<rparr>)"
    using assms(1) m a s by (simp add: linked_def same_client_def accepts settled_def)
  show ?thesis by (rule that [OF t _ l sw refl]) (use a s in simp_all)
qed

lemma expected_any:
  "expected_from_command cmd st0 = Some ex0 \<Longrightarrow> \<exists>ex. expected_from_command cmd st = Some ex"
  by (auto simp: expected_from_command_def split: Command.splits option.splits ToggleItem.splits)

lemma sim_executes:
  assumes "linked c h" and "expected_from_command cmd st = Some ex" and "command_encode cmd = Inr r"
  defines "m \<equiv> h_sim h"
  shows "process_incoming_bytes m (encode_command cmd) = Some (m\<lparr>sim_state := executed cmd (sim_state m)\<rparr>, [])"
    and "quiet (m\<lparr>sim_state := executed cmd (sim_state m)\<rparr>)"
proof -
  obtain mt p where r: "r = (mt, p)" by fastforce
  have m: "quiet m" "sim_registered m" "command_latency_ticks m = 0" "should_accept_command m = (m, True)"
    using assms(1) by (simp_all add: linked_def m_def accepts)
  have e: "mt = (0x0A, 0xBF)" "process_command m p = Some (m\<lparr>sim_state := executed cmd (sim_state m)\<rparr>, None)"
    using process_command_executes [of cmd mt p st ex m] assms(2,3) m r by simp_all
  have del: "delimited \<lparr>message_type = mt, payload = p\<rparr>"
    using command_encode_length [of cmd mt p] assms(3) r by (simp add: delimited_def encodable_def)
  then show "process_incoming_bytes m (encode_command cmd) = Some (m\<lparr>sim_state := executed cmd (sim_state m)\<rparr>, [])"
    using one_frame [OF del decoder_ready_new] e r assms(3)
    by (simp add: process_incoming_bytes_def encode_command_frame sim_process_frame_def)
  show "quiet (m\<lparr>sim_state := executed cmd (sim_state m)\<rparr>)"
    using m(1) spa_ok_executed [of "sim_state m" cmd r] assms(3) by (simp add: quiet_def sim_inv_def)
qed

lemma sim_ignores_nothing_to_send:
  assumes "client_address c"
  shows "process_incoming_bytes m (encode_command (NothingToSend c)) = Some (m, [])"
proof -
  have "delimited \<lparr>message_type = (c, 0xBF), payload = [7]\<rparr>" by (simp add: delimited_def encodable_def)
  from one_frame [OF this decoder_ready_new] show ?thesis
    using assms by (simp add: process_incoming_bytes_def encode_command_frame sim_process_frame_def client_address_def)
qed

text \<open>After the first cycle: the command is sent and awaits the status that confirms it.\<close>

definition awaiting :: "u8 \<Rightarrow> Command \<Rightarrow> TestHarness \<Rightarrow> bool" where
  "awaiting c cmd h \<longleftrightarrow> linked c h \<and> command_queue (h_app h) = [] \<and>
     map pending_command (pending (cmd_tracker (h_app h))) = [cmd] \<and>
     entered_at (hold_timer (h_app h)) = None \<and>
     (\<forall>s' pr fault cur tgt. same_switches s' (sim_state (h_sim h)) \<longrightarrow> temp_to_wire (sp_set_temp s') = Inr tgt \<longrightarrow>
        list_all (\<lambda>p. is_confirmed (expected p) (status_of s' pr fault cur tgt)) (pending (cmd_tracker (h_app h))))"

definition same_counts :: "TestHarness \<Rightarrow> TestHarness \<Rightarrow> bool" where
  "same_counts h h' \<longleftrightarrow> retry_count (cmd_tracker (h_app h')) = retry_count (cmd_tracker (h_app h)) \<and>
     dropped_count (cmd_tracker (h_app h')) = dropped_count (cmd_tracker (h_app h))"

lemma same_counts_trans: "same_counts h h1 \<Longrightarrow> same_counts h1 h2 \<Longrightarrow> same_counts h h2"
  by (simp add: same_counts_def)

lemma first_cycle:
  assumes "linked c h" and "expected_from_command cmd st0 = Some ex0" and "command_encode cmd = Inr r"
    and "command_queue (h_app h) = [cmd]" and "pending (cmd_tracker (h_app h)) = []"
    and "\<not> sp_hold (sim_state (h_sim h))"
  shows "\<exists>h1 acts. tick_spa_with_outgoing h = Some (h1, acts @ [SendFrame (encode_command cmd)]) \<and>
    same_switches (sim_state (h_sim h1)) (executed cmd (sim_state (h_sim h))) \<and>
    awaiting c cmd h1 \<and> same_counts h h1"
proof -
  have s0: "settled (h_app h) (status_of s' pr fault cur tgt) (h_clock h)"
    if "same_switches s' (sim_state (h_sim h))" for s' pr fault cur tgt
    using that assms(1,5,6) by (simp add: settled_def hold_quiet_def linked_def same_switches_def status_of_reads)
  obtain m a acts st pr fault cur tgt where
      t: "tick_spa h = Some (h\<lparr>h_sim := m, h_app := fst (process_ready a (h_clock h) c)\<rparr>,
        acts @ snd (process_ready a (h_clock h) c))"
      and n: "list_all (\<lambda>act. \<not> is_send act) acts" and l: "linked c (h\<lparr>h_sim := m, h_app := a\<rparr>)"
      and w: "same_switches (sim_state m) (sim_state (h_sim h))"
      and st: "st = status_of (sim_state m) pr fault cur tgt" "last_status a = Some st"
      and q: "command_queue a = command_queue (h_app h)" "pending (cmd_tracker a) = []"
        "retry_count (cmd_tracker a) = retry_count (cmd_tracker (h_app h))"
        "dropped_count (cmd_tracker a) = dropped_count (cmd_tracker (h_app h))"
      and e: "\<not> sp_hold (sim_state m) \<longrightarrow> entered_at (hold_timer a) = None"
    by (rule linked_tick [OF assms(1) s0])
  obtain ex where ex: "expected_from_command cmd st = Some ex" using expected_any [OF assms(2)] by blast
  define p where "p = \<lparr>pending_command = cmd, expected = ex, sent_at = h_clock h, retries = 0\<rparr>"
  define a1 where "a1 = a\<lparr>last_cts_time := Some (h_clock h), command_queue := [],
      cmd_tracker := (cmd_tracker a)\<lparr>pending := [p]\<rparr>\<rparr>"
  have "client_id a = Some c" using l by (simp add: linked_def)
  from process_ready_own [OF this] have rd: "process_ready a (h_clock h) c = (a1, [SendFrame (encode_command cmd)])"
    using q ex st assms(4) by (simp add: a1_def p_def track_def MAX_PENDING_COMMANDS_def)
  define m1 where "m1 = m\<lparr>sim_state := executed cmd (sim_state m)\<rparr>"
  note x = sim_executes [OF l ex assms(3), simplified, folded m1_def]
  define h1 where "h1 = h\<lparr>h_sim := m1, h_app := a1\<rparr>"
  have "tick_spa_with_outgoing h = Some (h1, acts @ [SendFrame (encode_command cmd)])"
    using t rd x(1) deliver_no_send [OF n]
    by (simp add: tick_spa_with_outgoing_def process_outgoing_def deliver_append h1_def)
  moreover have "same_switches (sim_state (h_sim h1)) (executed cmd (sim_state (h_sim h)))"
    using w by (simp add: h1_def m1_def same_switches_executed)
  moreover have "spa_ok (sim_state m)" using l by (simp add: linked_def quiet_def sim_inv_def)
  then have "is_confirmed ex (status_of s' pr' fault' cur' tgt')"
    if "same_switches s' (sim_state (h_sim h1))" "temp_to_wire (sp_set_temp s') = Inr tgt'" for s' pr' fault' cur' tgt'
    using executed_confirmed [OF ex [unfolded st(1)] assms(3) _ _ that(2)] that(1) by (simp add: h1_def m1_def)
  then have "awaiting c cmd h1"
    using l x(2) e w assms(6)
    by (simp add: awaiting_def h1_def a1_def linked_def timers_stopped_def m1_def p_def same_switches_def)
  moreover have "same_counts h h1" using q by (simp add: same_counts_def h1_def a1_def)
  ultimately show ?thesis by blast
qed

lemma second_cycle:
  assumes "awaiting c cmd h"
  shows "\<exists>h2 acts. tick_spa_with_outgoing h = Some (h2, acts) \<and>
    same_switches (sim_state (h_sim h2)) (sim_state (h_sim h)) \<and> linked c h2 \<and>
    pending (cmd_tracker (h_app h2)) = [] \<and> command_queue (h_app h2) = [] \<and> same_counts h h2"
proof -
  have l: "linked c h" using assms by (simp add: awaiting_def)
  have s: "settled (h_app h) (status_of s' pr fault cur tgt) (h_clock h)"
    if "same_switches s' (sim_state (h_sim h))" "temp_to_wire (sp_set_temp s') = Inr tgt" for s' pr fault cur tgt
    using assms l that by (simp add: awaiting_def settled_def hold_quiet_def linked_def)
  obtain m a acts st pr fault cur tgt where
      t: "tick_spa h = Some (h\<lparr>h_sim := m, h_app := fst (process_ready a (h_clock h) c)\<rparr>,
        acts @ snd (process_ready a (h_clock h) c))"
      and n: "list_all (\<lambda>act. \<not> is_send act) acts" and l': "linked c (h\<lparr>h_sim := m, h_app := a\<rparr>)"
      and w: "same_switches (sim_state m) (sim_state (h_sim h))"
      and st: "st = status_of (sim_state m) pr fault cur tgt" "last_status a = Some st"
      and q: "command_queue a = command_queue (h_app h)" "pending (cmd_tracker a) = []"
        "retry_count (cmd_tracker a) = retry_count (cmd_tracker (h_app h))"
        "dropped_count (cmd_tracker a) = dropped_count (cmd_tracker (h_app h))"
      and e: "\<not> sp_hold (sim_state m) \<longrightarrow> entered_at (hold_timer a) = None"
    by (rule linked_tick [OF l s])
  have "client_id a = Some c" "client_address c" "command_queue a = []"
    using l' q(1) assms by (simp_all add: linked_def awaiting_def)
  then have "tick_spa_with_outgoing h = Some (h\<lparr>h_sim := m, h_app := a\<lparr>last_cts_time := Some (h_clock h)\<rparr>\<rparr>,
      acts @ [SendFrame (encode_command (NothingToSend c))])"
    using t deliver_no_send [OF n] sim_ignores_nothing_to_send
    by (simp add: tick_spa_with_outgoing_def process_outgoing_def deliver_append process_ready_own)
  moreover have "linked c (h\<lparr>h_sim := m, h_app := a\<lparr>last_cts_time := Some (h_clock h)\<rparr>\<rparr>)"
    using l' by (simp add: linked_def timers_stopped_def)
  ultimately show ?thesis using w q \<open>command_queue a = []\<close> by (auto simp: same_counts_def)
qed

lemma awaiting_later: "awaiting c cmd h \<Longrightarrow> awaiting c cmd (advance_ms h ms)"
  by (simp add: awaiting_def linked_def advance_ms_def)

section \<open>Properties\<close>

text \<open>
  The two ends of the bus find together in one cycle. A simulated spa without a client,
  into which no error is being injected (noise, jitter, faults and priming are free), and an
  application that is not registered and has no old channel to reclaim: after one turn of the loop
  both hold the same channel, the next one of the spa's pool, the spa for the application's hash.
\<close>

theorem harness_registers:
  assumes "quiet (h_sim h)" and "\<not> sim_registered (h_sim h)" and "decoder_ready (h_decoder h)"
    and "joining (h_app h)" and "0 < max_ticks"
  shows "\<exists>h'. complete_registration h max_ticks = Some (h', 1) \<and>
    client_channel h' = Some (next_client_id (h_sim h)) \<and>
    sim_client_id (h_sim h') = Some (next_client_id (h_sim h)) \<and>
    is_registered (registration (h_app h')) \<and> sim_registered (h_sim h') \<and>
    pending_client_hash (h_sim h') = Some (client_hash (h_app h)) \<and>
    0x11 \<le> next_client_id (h_sim h) \<and> next_client_id (h_sim h) \<le> 0x2F"
proof -
  obtain n where n: "max_ticks = Suc n" using assms(5) gr0_implies_Suc by blast
  let ?c = "next_client_id (h_sim h)"
  obtain h1 where h1: "offer_round h = Some (h1, [SendFrame (wire_bytes (ack_frame ?c))])"
      "quiet (h_sim h1)" "pending_client_hash (h_sim h1) = Some (client_hash (h_app h))"
      "reg_state (registration (h_app h1)) = Registered ?c" "client_id (h_app h1) = Some ?c"
      "0x11 \<le> ?c" "?c \<le> 0x2F"
    using offer_round_quiet [OF assms(1-4)] by auto
  define h' where "h' = h1\<lparr>h_sim := (h_sim h1)\<lparr>sim_client_id := Some ?c, sim_registered := True\<rparr>\<rparr>"
  have "registration_round h = Some h'"
    using h1(1) sim_takes_ack(1) [OF h1(2,6,7)] by (simp add: registration_round_def h'_def)
  moreover have r: "is_registered (registration (h_app h'))" using h1(4) by (simp add: h'_def is_registered_def)
  ultimately have "complete_registration h max_ticks = Some (h', 1)"
    by (simp add: n app_is_registered_def)
  with r h1 show ?thesis by (simp add: h'_def client_channel_def)
qed

lemma harness_new_ready: "quiet (h_sim harness_new)" "\<not> sim_registered (h_sim harness_new)"
  "decoder_ready (h_decoder harness_new)" "joining (h_app harness_new)"
  using quiet_new app_inv_new
  by (simp_all add: harness_new_def set_require_registration_def quiet_def sim_inv_def joining_def app_new_def)
    (simp_all add: sim_new_def with_client_hash_def registration_new_def is_registered_def)

theorem harness_registers_witness:
  "\<exists>h'. complete_registration harness_new 5 = Some (h', 1) \<and> client_channel h' = Some 0x11"
  using harness_registers [OF harness_new_ready, of 5]
  by (auto simp: harness_new_def set_require_registration_def sim_new_def)

text \<open>
  Property C27: a lost acknowledgement is never made up for. When the spa and the application of the
  previous property have made the offer and the acknowledgement frame does not arrive, then whatever
  time passes and whatever commands arrive, cycle after cycle: the spa asks for clients and the
  application, which holds the channel, sends nothing at all, neither a registration nor a command,
  and takes itself for registered. The loss of clear-to-send is only detected after a first one.
\<close>

theorem lost_ack_never_recovers:
  assumes "quiet (h_sim h)" and "\<not> sim_registered (h_sim h)" and "sim_client_id (h_sim h) = None"
    and "decoder_ready (h_decoder h)" and "joining (h_app h)" and "last_cts_time (h_app h) = None"
  shows "\<exists>h1 ack. offer_round h = Some (h1, [SendFrame ack]) \<and>
    (\<forall>es. \<exists>h2 acts. run_partial stuck_cycle h1 es = Some (h2, acts) \<and>
       list_all (\<lambda>act. \<not> is_send act) acts \<and>
       is_registered (registration (h_app h2)) \<and> \<not> sim_registered (h_sim h2))"
proof -
  let ?c = "next_client_id (h_sim h)"
  obtain h1 where h1: "offer_round h = Some (h1, [SendFrame (wire_bytes (ack_frame ?c))])"
      "quiet (h_sim h1)" "\<not> sim_registered (h_sim h1)" "sim_client_id (h_sim h1) = None"
      "h_decoder h1 = h_decoder h" "reg_state (registration (h_app h1)) = Registered ?c"
      "client_id (h_app h1) = Some ?c" "last_cts_time (h_app h1) = None" "0x11 \<le> ?c"
    using offer_round_quiet [OF assms(1,2,4,5)] assms(3,6) by auto
  have "?c \<noteq> 0x10" using h1(9) by (auto simp: word_le_nat_alt)
  with h1 assms(4) have "stuck ?c h1" by (simp add: stuck_def is_registered_def)
  from stuck.run_ok [OF this] have "\<exists>h2 acts. run_partial stuck_cycle h1 es = Some (h2, acts) \<and>
      stuck ?c h2 \<and> list_all (\<lambda>act. \<not> is_send act) acts" for es by (simp add: list_all_iff)
  with h1(1) show ?thesis unfolding stuck_def by blast
qed

theorem lost_ack_never_recovers_witness:
  "\<exists>h1 ack. offer_round harness_new = Some (h1, [SendFrame ack]) \<and>
    (\<exists>h2 acts. run_partial stuck_cycle h1 [(1000, [SetTemperature 76]), (60000, [])] = Some (h2, acts) \<and>
      list_all (\<lambda>act. \<not> is_send act) acts)"
proof -
  have "sim_client_id (h_sim harness_new) = None" "last_cts_time (h_app harness_new) = None"
    by (simp_all add: harness_new_def set_require_registration_def sim_new_def app_new_def with_client_hash_def)
  from lost_ack_never_recovers [OF harness_new_ready(1,2) this(1) harness_new_ready(3,4) this(2)]
  show ?thesis by blast
qed

text \<open>
  Property C26: a command is carried out and confirmed within two cycles. With both ends registered on
  one channel and nothing else waiting, a trackable command from outside is sent with the next
  clear-to-send, the spa's state is then the one the command asks for, and the status of the next
  cycle confirms it, however much later that is: nothing is pending, nothing was retried or
  dropped, and both ends are linked as before.
\<close>

theorem harness_command:
  assumes "linked c h" and "expected_from_command cmd st0 = Some ex0" and "command_encode cmd = Inr r"
    and "command_queue (h_app h) = []" and "pending (cmd_tracker (h_app h)) = []"
    and "\<not> sp_hold (sim_state (h_sim h))"
  shows "\<exists>h1 as1 h2 as2.
    tick_spa_with_outgoing (fst (send_command h cmd)) = Some (h1, as1) \<and>
    SendFrame (encode_command cmd) \<in> set as1 \<and>
    same_switches (sim_state (h_sim h1)) (executed cmd (sim_state (h_sim h))) \<and>
    map pending_command (pending (cmd_tracker (h_app h1))) = [cmd] \<and>
    tick_spa_with_outgoing (advance_ms h1 ms) = Some (h2, as2) \<and>
    same_switches (sim_state (h_sim h2)) (executed cmd (sim_state (h_sim h))) \<and>
    pending (cmd_tracker (h_app h2)) = [] \<and> command_queue (h_app h2) = [] \<and>
    same_counts h h2 \<and> linked c h2"
proof -
  have "retryable cmd" using assms(2) by (rule expected_retryable)
  then have "on_mqtt_command (h_app h) cmd = ((h_app h)\<lparr>command_queue := [cmd]\<rparr>, [])"
    using assms(4) by (cases cmd) (simp_all add: on_mqtt_command_def queue_clock_pref_def
        push_or_drop_def MAX_COMMAND_QUEUE_def retryable_def)
  then have h0: "fst (send_command h cmd) = h\<lparr>h_app := (h_app h)\<lparr>command_queue := [cmd]\<rparr>\<rparr>"
    by (simp add: send_command_def)
  have "linked c (fst (send_command h cmd))" using assms(1) by (simp add: h0 linked_def timers_stopped_def)
  from first_cycle [OF this assms(2,3)] obtain h1 acts where h1:
      "tick_spa_with_outgoing (fst (send_command h cmd)) = Some (h1, acts @ [SendFrame (encode_command cmd)])"
      "same_switches (sim_state (h_sim h1)) (executed cmd (sim_state (h_sim h)))"
      "awaiting c cmd h1" "same_counts h h1"
    using assms(5,6) by (auto simp: h0 same_counts_def)
  from second_cycle [OF awaiting_later [OF h1(3), of ms]] obtain h2 as2 where
      "tick_spa_with_outgoing (advance_ms h1 ms) = Some (h2, as2)" "linked c h2"
      "same_switches (sim_state (h_sim h2)) (sim_state (h_sim h1))"
      "pending (cmd_tracker (h_app h2)) = []" "command_queue (h_app h2) = []" "same_counts h1 h2"
    by (auto simp: same_counts_def advance_ms_def)
  moreover have "same_switches (sim_state (h_sim h2)) (executed cmd (sim_state (h_sim h)))"
    using same_switches_trans [OF \<open>same_switches (sim_state (h_sim h2)) (sim_state (h_sim h1))\<close> h1(2)] .
  moreover have "same_counts h h2" using same_counts_trans [OF h1(4) \<open>same_counts h1 h2\<close>] .
  moreover note h1(1,2,4) and h1(3) [unfolded awaiting_def]
  ultimately show ?thesis
    by (intro exI [of _ h1] exI [of _ "acts @ [SendFrame (encode_command cmd)]"] exI [of _ h2] exI [of _ as2] conjI)
      simp_all
qed

theorem harness_command_witness:
  "let h = \<lparr>h_sim = force_set_client sim_new 0x11, h_app = force_registered (app_new ts_zero) 0x11,
      h_clock = ts_zero, h_decoder = decoder_new\<rparr> in
   \<exists>h1 as1. tick_spa_with_outgoing (fst (send_command h (SetTemperature 76))) = Some (h1, as1) \<and>
     SendFrame (encode_command (SetTemperature 76)) \<in> set as1"
proof -
  let ?h = "\<lparr>h_sim = force_set_client sim_new 0x11, h_app = force_registered (app_new ts_zero) 0x11,
      h_clock = ts_zero, h_decoder = decoder_new\<rparr>"
  have "quiet (force_set_client sim_new 0x11)"
    using quiet_new by (simp add: force_set_client_def quiet_def sim_inv_def)
  then have l: "linked 0x11 ?h"
    by (simp add: linked_def) (simp add: force_set_client_def sim_new_def error_injection_new_def
        force_registered_def app_new_def with_client_hash_def registration_new_def registration_process_def
        is_registered_def client_address_def timers_stopped_def pump_timers_new_def pump_timer_new_def
        pump_timer_is_running_def hold_timer_new_def DEFAULT_HOLD_MODE_TIMEOUT_MS_def Let_def)
  have e: "expected_from_command (SetTemperature 76) (status_of spa_state_default 0 False 0 0) = Some (TemperatureSet 76)"
    by (simp add: expected_from_command_def)
  have c: "command_encode (SetTemperature 76) = Inr ((0x0A, 0xBF), [0x20, 76])"
    by (simp add: ABSOLUTE_MAX_TEMP_F_def)
  have q: "command_queue (h_app ?h) = []" "pending (cmd_tracker (h_app ?h)) = []" "\<not> sp_hold (sim_state (h_sim ?h))"
    by (simp_all add: force_registered_def app_new_def with_client_hash_def tracker_new_def
        force_set_client_def sim_new_def spa_state_default_def Let_def)
  from harness_command [OF l e c q] show ?thesis unfolding Let_def by blast
qed

end
