(* ===== verification/MqttCodec.thy ===== *)
theory MqttCodec
  imports Interfaces FaultBuf
begin

text \<open>
  The MQTT 3.1.1 codec of \<open>crates/launa-mqtt/src/mqtt_codec.rs\<close> and the packet extraction of
  \<open>packet.rs\<close>. Strings are encoded in UTF-8. The lengths that the decoder computes in \<open>usize\<close> are 32-bit
  words, as on the target, so that their wrap-around is visible; lengths of buffers in memory are
  natural numbers. A slice out of range panics: the parsers that slice return an option.
\<close>

unbundle bit_operations_syntax

section \<open>Remaining length\<close>

text \<open>The encoding loop: seven bits at a time, the continuation bit on all but the last byte.\<close>

fun encode_remaining_length :: "nat \<Rightarrow> u8 list" where
  "encode_remaining_length n =
     (let byte = word_of_nat (n mod 128) :: u8; rest = n div 128 in
      if rest > 0 then (byte OR 0x80) # encode_remaining_length rest else [byte])"

declare encode_remaining_length.simps [simp del]

text \<open>The decoding loop, from index \<open>idx\<close>.\<close>

function decode_loop :: "u8 list \<Rightarrow> u32 \<Rightarrow> u32 \<Rightarrow> nat \<Rightarrow> (u32 \<times> nat) option" where
  "decode_loop buf multiplier v idx =
     (if idx \<ge> length buf then None
      else
        let byte = buf ! idx;
            v' = v + ucast (byte AND 0x7F) * multiplier;
            multiplier' = multiplier * 128
        in if byte AND 0x80 = 0 then Some (v', idx + 1)
           else if multiplier' > 128 * 128 * 128 * 128 then None
           else decode_loop buf multiplier' v' (idx + 1))"
  by pat_completeness auto
termination
  by (relation "measure (\<lambda>(buf, _, _, idx). length buf - idx)") auto

declare decode_loop.simps [simp del]

definition decode_remaining_length :: "u8 list \<Rightarrow> (u32 \<times> nat) option" where
  "decode_remaining_length buf = (if buf = [] then None else decode_loop buf 1 0 1)"

definition try_extract_packet :: "u8 list \<Rightarrow> u8 list \<times> u8 list option" where
  "try_extract_packet buffer =
     (if length buffer < 2 then (buffer, None)
      else
        case decode_remaining_length buffer of
          None \<Rightarrow> (buffer, None)
        | Some (remaining_len, header_size) \<Rightarrow>
            let total_size = unat (word_of_nat header_size + remaining_len) in
            if length buffer \<ge> total_size
            then (drop total_size buffer, Some (take total_size buffer))
            else (buffer, None))"

section \<open>Encoders\<close>

definition append_lp_string :: "u8 list \<Rightarrow> rstr \<Rightarrow> u8 list" where
  "append_lp_string buf s =
     (let bytes = as_bytes s in buf @ be16 (word_of_nat (length bytes)) @ bytes)"

record ConnectConfig =
  cc_client_id :: rstr
  lwt_topic :: rstr
  username :: "rstr option"
  password :: "rstr option"
  keep_alive :: u16

definition encode_connect :: "ConnectConfig \<Rightarrow> u8 list" where
  "encode_connect c =
     (let flags = (0x02 :: u8) OR push_bit 2 1 OR push_bit 3 1 OR push_bit 5 1;
          flags1 = (if username c \<noteq> None then flags OR push_bit 7 1 else flags);
          flags2 = (if password c \<noteq> None then flags1 OR push_bit 6 1 else flags1);
          var_header = [0x00, 0x04] @ [0x4D, 0x51, 0x54, 0x54] @ [0x04] @ [flags2] @ be16 (keep_alive c);
          p1 = append_lp_string [] (cc_client_id c);
          p2 = append_lp_string p1 (lwt_topic c);
          will_payload = as_bytes (lit ''offline'');
          p3 = p2 @ be16 (word_of_nat (length will_payload)) @ will_payload;
          p4 = (case username c of Some user \<Rightarrow> append_lp_string p3 user | None \<Rightarrow> p3);
          p5 = (case password c of Some pass \<Rightarrow> append_lp_string p4 pass | None \<Rightarrow> p4)
      in [0x10] @ encode_remaining_length (length var_header + length p5) @ var_header @ p5)"

datatype PublishError = InvalidQoS u8 | MissingPacketId

definition encode_publish ::
  "rstr \<Rightarrow> u8 list \<Rightarrow> u8 \<Rightarrow> bool \<Rightarrow> u16 option \<Rightarrow> PublishError + u8 list" where
  "encode_publish topic p qos retain packet_id =
     (if qos > 1 then Inl (InvalidQoS qos)
      else
        let retain_flag = (if retain then 0x01 else 0x00);
            qos_flag = push_bit 1 (qos AND 0x03);
            topic_bytes = as_bytes topic;
            remaining = 2 + length topic_bytes + length p;
            remaining = (if qos > 0 then remaining + 2 else remaining);
            packet = [0x30 OR qos_flag OR retain_flag] @ encode_remaining_length remaining @
              be16 (word_of_nat (length topic_bytes)) @ topic_bytes
        in if qos > 0 then
             (case packet_id of
                None \<Rightarrow> Inl MissingPacketId
              | Some i \<Rightarrow> Inr (packet @ be16 i @ p))
           else Inr (packet @ p))"

definition encode_subscribe :: "rstr \<Rightarrow> u16 \<Rightarrow> u8 list" where
  "encode_subscribe topic packet_id =
     (let topic_bytes = as_bytes topic; remaining = 2 + 2 + length topic_bytes + 1 in
      [0x82] @ encode_remaining_length remaining @ be16 packet_id @
      be16 (word_of_nat (length topic_bytes)) @ topic_bytes @ [0x01])"

definition encode_puback :: "u16 \<Rightarrow> u8 list" where
  "encode_puback packet_id = [0x40, 0x02, ucast (drop_bit 8 packet_id), ucast (packet_id AND 0xFF)]"

definition encode_pingreq :: "u8 list" where "encode_pingreq = [0xC0, 0x00]"
definition encode_pingresp :: "u8 list" where "encode_pingresp = [0xD0, 0x00]"
definition encode_disconnect :: "u8 list" where "encode_disconnect = [0xE0, 0x00]"

section \<open>Parsers\<close>

datatype ConnackError = Connack_TooShort | Connack_WrongType u8 | Connack_ReasonCode u8

definition parse_connack :: "u8 list \<Rightarrow> ConnackError + unit" where
  "parse_connack buf =
     (if length buf < 4 then Inl Connack_TooShort
      else if buf ! 0 \<noteq> 0x20 then Inl (Connack_WrongType (buf ! 0))
      else if buf ! 3 \<noteq> 0x00 then Inl (Connack_ReasonCode (buf ! 3))
      else Inr ())"

record IncomingPublish =
  ip_topic :: rstr
  ip_payload :: "u8 list"
  ip_packet_id :: "u16 option"

datatype PublishParseError =
    Publish_TooShort | NotPublish u8 | Publish_InvalidRemainingLength | InvalidTopic

definition slice_range :: "nat \<Rightarrow> nat \<Rightarrow> 'a list \<Rightarrow> 'a list option" where
  "slice_range i j xs = (if i \<le> j \<and> j \<le> length xs then Some (drop i (take j xs)) else None)"

text \<open>The body of a packet once its remaining length is known; the errors are the caller's.\<close>

definition publish_body :: "u8 \<Rightarrow> u8 list \<Rightarrow> PublishParseError + IncomingPublish" where
  "publish_body first body =
     (if length body < 2 then Inl Publish_TooShort
      else
        let topic_len = unat (from_be16 (body ! 0) (body ! 1)) in
        if length body < 2 + topic_len then Inl Publish_TooShort
        else
          (case from_utf8 (take topic_len (drop 2 body)) of
             None \<Rightarrow> Inl InvalidTopic
           | Some topic \<Rightarrow>
               let qos = drop_bit 1 first AND 0x03; idx = 2 + topic_len in
               if qos > 0 then
                 if length body < idx + 2 then Inl Publish_TooShort
                 else Inr \<lparr>ip_topic = topic, ip_payload = drop (idx + 2) body,
                        ip_packet_id = Some (from_be16 (body ! idx) (body ! (idx + 1)))\<rparr>
               else Inr \<lparr>ip_topic = topic, ip_payload = drop idx body, ip_packet_id = None\<rparr>))"

definition parse_incoming_publish :: "u8 list \<Rightarrow> (PublishParseError + IncomingPublish) option" where
  "parse_incoming_publish buf =
     (if buf = [] then Some (Inl Publish_TooShort)
      else if drop_bit 4 (buf ! 0) \<noteq> 3 then Some (Inl (NotPublish (buf ! 0)))
      else
        case decode_remaining_length buf of
          None \<Rightarrow> Some (Inl Publish_InvalidRemainingLength)
        | Some (remaining_len, header_size) \<Rightarrow>
            let end_pos = unat (word_of_nat header_size + remaining_len) in
            if length buf < end_pos then Some (Inl Publish_TooShort)
            else map_option (publish_body (buf ! 0)) (slice_range header_size end_pos buf))"

datatype SubackError =
    Suback_TooShort | Suback_WrongType u8 | Suback_InvalidRemainingLength | PayloadTooShort
  | PacketIdMismatch (expected_id: u16) (got_id: u16) | SubscriptionFailed u8

definition suback_payload :: "u16 \<Rightarrow> u8 list \<Rightarrow> SubackError + unit" where
  "suback_payload expected_packet_id p =
     (if length p < 3 then Inl PayloadTooShort
      else
        let ack_pkt_id = from_be16 (p ! 0) (p ! 1) in
        if ack_pkt_id \<noteq> expected_packet_id
        then Inl (PacketIdMismatch expected_packet_id ack_pkt_id)
        else if length p < 3 then Inl PayloadTooShort
        else if p ! 2 = 0x80 then Inl (SubscriptionFailed (p ! 2))
        else Inr ())"

definition parse_suback :: "u8 list \<Rightarrow> u16 \<Rightarrow> (SubackError + unit) option" where
  "parse_suback buf expected_packet_id =
     (if buf = [] then Some (Inl Suback_TooShort)
      else if buf ! 0 \<noteq> 0x90 then Some (Inl (Suback_WrongType (buf ! 0)))
      else
        case decode_remaining_length buf of
          None \<Rightarrow> Some (Inl Suback_InvalidRemainingLength)
        | Some (remaining_len, header_size) \<Rightarrow>
            let end_pos = unat (word_of_nat header_size + remaining_len) in
            if length buf < end_pos then Some (Inl Suback_TooShort)
            else map_option (suback_payload expected_packet_id) (slice_range header_size end_pos buf))"

section \<open>Lemmas on the remaining length\<close>

lemma length_byte:
  assumes "r < 128"
  shows "(word_of_nat r :: u8) AND 0x7F = word_of_nat r" "(word_of_nat r :: u8) AND 0x80 = 0"
    "(word_of_nat r OR 0x80 :: u8) AND 0x7F = word_of_nat r" "(word_of_nat r OR 0x80 :: u8) AND 0x80 \<noteq> 0"
    "ucast (word_of_nat r :: u8) = (word_of_nat r :: u32)"
proof -
  have "b < 128 \<longrightarrow> b AND 0x7F = b \<and> b AND 0x80 = 0 \<and> (b OR 0x80) AND 0x7F = b \<and> (b OR 0x80) AND 0x80 \<noteq> 0"
    for b :: u8
    by (rule all_u8 [of _ b]) (simp add: nibbles_def)
  moreover have u: "unat (word_of_nat r :: u8) = r" using assms by (simp add: unat_of_nat)
  then have "(word_of_nat r :: u8) < 128" using assms by (simp add: word_less_nat_alt)
  ultimately show "(word_of_nat r :: u8) AND 0x7F = word_of_nat r" "(word_of_nat r :: u8) AND 0x80 = 0"
    "(word_of_nat r OR 0x80 :: u8) AND 0x7F = word_of_nat r" "(word_of_nat r OR 0x80 :: u8) AND 0x80 \<noteq> 0"
    by simp_all
  show "ucast (word_of_nat r :: u8) = (word_of_nat r :: u32)"
    using assms by (simp add: word_unat_eq_iff unsigned_ucast_eq u unat_of_nat take_bit_eq_mod)
qed

lemma length_encode_bound: "n < 128 ^ j \<Longrightarrow> 0 < j \<Longrightarrow> length (encode_remaining_length n) \<le> j"
proof (induction n arbitrary: j rule: encode_remaining_length.induct)
  case (1 n)
  show ?case
  proof (cases "n div 128 > 0")
    case True
    with "1.prems" obtain i where j: "j = Suc i" "0 < i" by (cases j; cases "j - 1") auto
    then have "n div 128 < 128 ^ i" using "1.prems"(1) by (simp add: less_mult_imp_div_less mult.commute)
    with "1.IH" [OF refl refl True] j True show ?thesis
      by (simp add: encode_remaining_length.simps [of n] Let_def)
  next
    case False
    with "1.prems" show ?thesis by (simp add: encode_remaining_length.simps [of n])
  qed
qed

lemma encode_remaining_length_not_Nil [simp]: "encode_remaining_length n \<noteq> []"
  by (subst encode_remaining_length.simps) (simp add: Let_def)

lemma word_of_nat_div_mod:
  "(word_of_nat (n mod 128) :: u32) + word_of_nat (n div 128) * 128 = word_of_nat n"
proof -
  have "word_of_nat (n mod 128 + n div 128 * 128) = (word_of_nat n :: u32)" by simp
  then show ?thesis by (simp only: of_nat_add of_nat_mult of_nat_numeral)
qed

lemma multiplier_ok: "k < 4 \<Longrightarrow> \<not> (128 :: u32) ^ k * 128 > 128 * 128 * 128 * 128"
proof -
  assume "k < 4"
  then have "k \<in> set [0..<4]" by simp
  moreover have "\<forall>k \<in> set [0..<4]. \<not> (128 :: u32) ^ k * 128 > 128 * 128 * 128 * 128"
    by (simp add: upt_rec)
  ultimately show ?thesis by blast
qed

lemma decode_encode_loop:
  assumes "n < 128 ^ (4 - k)" and "k < 4"
  shows "decode_loop (pre @ encode_remaining_length n @ post) (128 ^ k) v (length pre) =
    Some (v + word_of_nat n * 128 ^ k, length pre + length (encode_remaining_length n))"
  using assms
proof (induction n arbitrary: k pre v rule: encode_remaining_length.induct)
  case (1 n)
  note lb = length_byte [of "n mod 128", OF mod_less_divisor]
  show ?case
  proof (cases "n div 128 > 0")
    case True
    then have k: "Suc k < 4" using "1.prems" by (cases "k = 3") auto
    have lt: "n div 128 < 128 ^ (4 - Suc k)"
    proof -
      have "(128 :: nat) ^ (4 - k) = 128 * 128 ^ (4 - Suc k)"
        using k by (metis Suc_diff_Suc Suc_lessD power_Suc)
      then show ?thesis using "1.prems"(1) by (simp add: less_mult_imp_div_less mult.commute)
    qed
    let ?b = "word_of_nat (n mod 128) OR 0x80 :: u8"
    have "decode_loop ((pre @ [?b]) @ encode_remaining_length (n div 128) @ post) (128 ^ Suc k)
        (v + word_of_nat (n mod 128) * 128 ^ k) (length (pre @ [?b])) =
      Some (v + word_of_nat (n mod 128) * 128 ^ k + word_of_nat (n div 128) * 128 ^ Suc k,
        length (pre @ [?b]) + length (encode_remaining_length (n div 128)))"
      by (rule "1.IH" [OF refl refl True lt k])
    moreover have "v + word_of_nat (n mod 128) * 128 ^ k + word_of_nat (n div 128) * 128 ^ Suc k =
        v + (word_of_nat (n mod 128) + word_of_nat (n div 128) * 128) * (128 :: u32) ^ k"
      by (simp add: algebra_simps)
    ultimately show ?thesis
      using True lb multiplier_ok [OF "1.prems"(2)]
      by (simp add: encode_remaining_length.simps [of n] decode_loop.simps [of "pre @ _"] Let_def nth_append
          word_of_nat_div_mod mult.commute [of 128])
  next
    case False
    then have "n mod 128 = n" by simp
    with False lb show ?thesis
      by (simp add: encode_remaining_length.simps [of n] decode_loop.simps [of "pre @ _"] nth_append)
  qed
qed

lemma decode_encode_remaining_length:
  assumes "n < 2 ^ 28"
  shows "decode_remaining_length (ty # encode_remaining_length n @ post) =
    Some (word_of_nat n, 1 + length (encode_remaining_length n))"
  using decode_encode_loop [of n 0 "[ty]" post 0] assms by (simp add: decode_remaining_length_def)

lemma decode_loop_short:
  assumes "n < 128 ^ (4 - k)" and "k < 4" and "j < length (encode_remaining_length n)"
  shows "decode_loop (pre @ take j (encode_remaining_length n)) (128 ^ k) v (length pre) = None"
  using assms
proof (induction n arbitrary: k pre v j rule: encode_remaining_length.induct)
  case (1 n)
  note lb = length_byte [of "n mod 128", OF mod_less_divisor]
  show ?case
  proof (cases j)
    case 0
    then show ?thesis by (simp add: decode_loop.simps)
  next
    case (Suc i)
    then have True: "n div 128 > 0"
      using "1.prems"(3) by (auto simp: encode_remaining_length.simps [of n] Let_def split: if_splits)
    then have k: "Suc k < 4" using "1.prems" by (cases "k = 3") auto
    have "(128 :: nat) ^ (4 - k) = 128 * 128 ^ (4 - Suc k)"
      using k by (metis Suc_diff_Suc Suc_lessD power_Suc)
    then have lt: "n div 128 < 128 ^ (4 - Suc k)"
      using "1.prems"(1) by (simp add: less_mult_imp_div_less mult.commute)
    let ?b = "word_of_nat (n mod 128) OR 0x80 :: u8"
    have "i < length (encode_remaining_length (n div 128))"
      using "1.prems"(3) True Suc by (simp add: encode_remaining_length.simps [of n] Let_def)
    then have "decode_loop ((pre @ [?b]) @ take i (encode_remaining_length (n div 128))) (128 ^ Suc k)
        (v + word_of_nat (n mod 128) * 128 ^ k) (length (pre @ [?b])) = None"
      by (rule "1.IH" [OF refl refl True lt k])
    then show ?thesis
      using True lb multiplier_ok [OF "1.prems"(2)] Suc
      by (simp add: encode_remaining_length.simps [of n] decode_loop.simps [of "pre @ _"] Let_def nth_append
          mult.commute [of 128])
  qed
qed

section \<open>Packets in a stream\<close>

text \<open>A packet as the encoders build it: the type byte, the length of the rest, the rest.\<close>

definition mqtt_packet :: "u8 \<Rightarrow> u8 list \<Rightarrow> u8 list" where
  "mqtt_packet ty body = ty # encode_remaining_length (length body) @ body"

lemma encoded_length_le_4: "n < 2 ^ 28 \<Longrightarrow> length (encode_remaining_length n) \<le> 4"
  using length_encode_bound [of n 4] by simp

lemma packet_end:
  assumes "n < 2 ^ 28"
  shows "unat (word_of_nat (1 + length (encode_remaining_length n)) + word_of_nat n :: u32) =
    1 + length (encode_remaining_length n) + n"
proof -
  have "1 + length (encode_remaining_length n) + n < 2 ^ 32"
    using encoded_length_le_4 [OF assms] assms by simp
  then have "unat (word_of_nat (1 + length (encode_remaining_length n) + n) :: u32) =
      1 + length (encode_remaining_length n) + n"
    by (simp add: unat_of_nat del: of_nat_Suc of_nat_add)
  then show ?thesis by (simp only: of_nat_add)
qed

lemma length_mqtt_packet: "length (mqtt_packet ty body) = 1 + length (encode_remaining_length (length body)) + length body"
  by (simp add: mqtt_packet_def)

lemma try_extract_complete:
  assumes "length body < 2 ^ 28"
  shows "try_extract_packet (mqtt_packet ty body @ post) = (post, Some (mqtt_packet ty body))"
proof -
  let ?e = "encode_remaining_length (length body)"
  have d: "decode_remaining_length (mqtt_packet ty body @ post) = Some (word_of_nat (length body), 1 + length ?e)"
    using decode_encode_remaining_length [OF assms, of ty "body @ post"] by (simp add: mqtt_packet_def)
  have "0 < length ?e" by simp
  then have "\<not> length (mqtt_packet ty body @ post) < 2" by (simp add: mqtt_packet_def del: length_greater_0_conv)
  then show ?thesis
    using d packet_end [OF assms] length_mqtt_packet [of ty body]
    by (simp add: try_extract_packet_def)
qed

lemma try_extract_incomplete:
  assumes "length body < 2 ^ 28" and "k < length (mqtt_packet ty body)"
  shows "try_extract_packet (take k (mqtt_packet ty body)) = (take k (mqtt_packet ty body), None)"
proof -
  let ?e = "encode_remaining_length (length body)"
  let ?b = "take k (mqtt_packet ty body)"
  show ?thesis
  proof (cases "k < 1 + length ?e")
    case True
    have "decode_remaining_length ?b = None" if "0 < k"
    proof -
      have "?b = [ty] @ take (k - 1) ?e" using that True by (cases k) (simp_all add: mqtt_packet_def)
      with decode_loop_short [of "length body" 0 "k - 1" "[ty]" 0] True that assms(1) show ?thesis
        by (simp add: decode_remaining_length_def)
    qed
    then show ?thesis by (cases "k = 0") (auto simp: try_extract_packet_def)
  next
    case False
    then have "?b = ty # ?e @ take (k - 1 - length ?e) body" by (cases k) (simp_all add: mqtt_packet_def)
    then have "decode_remaining_length ?b = Some (word_of_nat (length body), 1 + length ?e)"
      using decode_encode_remaining_length [OF assms(1)] by simp
    then show ?thesis
      using packet_end [OF assms(1)] assms(2) length_mqtt_packet [of ty body] by (simp add: try_extract_packet_def)
  qed
qed

text \<open>The caller's loop: extract packets from the buffer until none is complete.\<close>

fun extract_packets :: "nat \<Rightarrow> u8 list \<Rightarrow> u8 list list \<times> u8 list" where
  "extract_packets 0 buffer = ([], buffer)"
| "extract_packets (Suc fuel) buffer =
     (case try_extract_packet buffer of
        (buffer', None) \<Rightarrow> ([], buffer')
      | (buffer', Some p) \<Rightarrow> (case extract_packets fuel buffer' of (ps, r) \<Rightarrow> (p # ps, r)))"

lemma extract_packets_all:
  assumes "\<And>ty body. (ty, body) \<in> set ps \<Longrightarrow> length body < 2 ^ 28" and "length ps < fuel"
    and "length b < 2 ^ 28" and "k < length (mqtt_packet t b)"
  shows "extract_packets fuel (concat (map (\<lambda>(ty, body). mqtt_packet ty body) ps) @ take k (mqtt_packet t b)) =
    (map (\<lambda>(ty, body). mqtt_packet ty body) ps, take k (mqtt_packet t b))"
  using assms(1,2)
proof (induction ps arbitrary: fuel)
  case Nil
  then show ?case using try_extract_incomplete [OF assms(3,4)] by (cases fuel) simp_all
next
  case (Cons p ps)
  obtain ty body where p: "p = (ty, body)" by (cases p)
  obtain f where f: "fuel = Suc f" using Cons.prems(2) by (cases fuel) auto
  have "length body < 2 ^ 28" using Cons.prems(1) [of ty body] p by simp
  note x = try_extract_complete [OF this, of ty]
  have "extract_packets f (concat (map (\<lambda>(ty, body). mqtt_packet ty body) ps) @ take k (mqtt_packet t b)) =
      (map (\<lambda>(ty, body). mqtt_packet ty body) ps, take k (mqtt_packet t b))"
    using Cons.prems f by (intro Cons.IH) auto
  with x p f show ?case by simp
qed

section \<open>Publish\<close>

lemma slice_range_packet:
  assumes "length body < 2 ^ 28"
  shows "slice_range (1 + length (encode_remaining_length (length body)))
     (1 + length (encode_remaining_length (length body)) + length body) (mqtt_packet ty body) = Some body"
  by (simp add: slice_range_def mqtt_packet_def)

lemma parse_publish_packet:
  assumes "length body < 2 ^ 28" and "drop_bit 4 ty = 3"
  shows "parse_incoming_publish (mqtt_packet ty body) = Some (publish_body ty body)"
proof -
  let ?e = "encode_remaining_length (length body)"
  have d: "decode_remaining_length (mqtt_packet ty body) = Some (word_of_nat (length body), 1 + length ?e)"
    using decode_encode_remaining_length [OF assms(1), of ty body] by (simp add: mqtt_packet_def)
  have h: "mqtt_packet ty body \<noteq> []" "mqtt_packet ty body ! 0 = ty" by (simp_all add: mqtt_packet_def)
  show ?thesis
    unfolding parse_incoming_publish_def d h
    using h packet_end [OF assms(1)] slice_range_packet [OF assms(1), of ty] length_mqtt_packet [of ty body] assms(2)
    by (simp add: Let_def)
qed

text \<open>What \<open>encode_publish\<close> puts after the length.\<close>

definition publish_rest :: "rstr \<Rightarrow> u8 list \<Rightarrow> u16 option \<Rightarrow> u8 list" where
  "publish_rest topic p packet_id =
     be16 (word_of_nat (length (as_bytes topic))) @ as_bytes topic @
     (case packet_id of Some i \<Rightarrow> be16 i | None \<Rightarrow> []) @ p"

definition publish_type :: "u8 \<Rightarrow> bool \<Rightarrow> u8" where
  "publish_type qos retain = 0x30 OR push_bit 1 (qos AND 0x03) OR (if retain then 0x01 else 0x00)"

lemma encode_publish_packet:
  "qos \<le> 1 \<Longrightarrow> (packet_id = None) = (qos = 0) \<Longrightarrow>
     encode_publish topic p qos retain packet_id =
       Inr (mqtt_packet (publish_type qos retain) (publish_rest topic p packet_id))"
  by (cases packet_id)
    (auto simp: encode_publish_def mqtt_packet_def publish_type_def publish_rest_def Let_def
      word_gt_0 not_less add.commute add.left_commute)

lemma publish_type_bits:
  assumes "qos \<le> 1"
  shows "drop_bit 4 (publish_type qos retain) = 3" "drop_bit 1 (publish_type qos retain) AND 0x03 = qos"
proof -
  have "unat qos \<le> 1" using assms by (simp add: word_le_nat_alt)
  then have "unat qos = 0 \<or> unat qos = 1" by linarith
  then have "qos = 0 \<or> qos = 1" by (auto simp: word_unat_eq_iff)
  then show "drop_bit 4 (publish_type qos retain) = 3" "drop_bit 1 (publish_type qos retain) AND 0x03 = qos"
    by (cases retain; auto simp: publish_type_def)+
qed

lemma publish_body_rest:
  assumes "list_all scalar_value topic" and "length (as_bytes topic) < 2 ^ 16" and "qos \<le> 1"
    and "(packet_id = None) = (qos = 0)"
  shows "publish_body (publish_type qos retain) (publish_rest topic p packet_id) =
    Inr \<lparr>ip_topic = topic, ip_payload = p, ip_packet_id = packet_id\<rparr>"
proof -
  let ?n = "word_of_nat (length (as_bytes topic)) :: u16"
  obtain a b where ab: "be16 ?n = [a, b]" by (simp add: be16_def)
  have "from_be16 a b = ?n" using from_be16_be16 [of ?n] ab by simp
  then have n: "unat (from_be16 a b) = length (as_bytes topic)" using assms(2) by (simp add: unat_of_nat)
  note q = publish_type_bits [OF assms(3), of retain]
  show ?thesis
  proof (cases packet_id)
    case None
    then show ?thesis
      using assms(4) q n from_utf8_as_bytes [OF assms(1)]
      by (simp add: publish_body_def publish_rest_def ab)
  next
    case (Some i)
    obtain c d where cd: "be16 i = [c, d]" by (simp add: be16_def)
    then have "from_be16 c d = i" using from_be16_be16 [of i] by simp
    then show ?thesis
      using Some assms(4) q n from_utf8_as_bytes [OF assms(1)]
      by (simp add: publish_body_def publish_rest_def ab cd nth_append word_gt_0)
  qed
qed

section \<open>Properties\<close>

text \<open>
  Packets are recovered from the byte stream. A buffer that holds any number of complete
  packets and an incomplete one is split into exactly those packets, in order, and the incomplete
  packet stays in the buffer until the rest arrives.
\<close>

theorem mqtt_extract_stream:
  assumes "\<And>ty body. (ty, body) \<in> set ps \<Longrightarrow> length body < 2 ^ 28"
    and "length b < 2 ^ 28" and "k < length (mqtt_packet t b)"
  shows "extract_packets (Suc (length ps)) (concat (map (\<lambda>(ty, body). mqtt_packet ty body) ps) @ take k (mqtt_packet t b)) =
    (map (\<lambda>(ty, body). mqtt_packet ty body) ps, take k (mqtt_packet t b))"
  by (rule extract_packets_all) (use assms in auto)

theorem mqtt_extract_stream_witness:
  "extract_packets 2 ([0x30, 2, 7, 7] @ [0x40, 2, 9]) = ([[0x30, 2, 7, 7]], [0x40, 2, 9])"
proof -
  have e: "mqtt_packet t [x, y] = [t, 2, x, y]" for t x y
    by (simp add: mqtt_packet_def encode_remaining_length.simps [of "Suc (Suc 0)"])
  have "extract_packets (Suc (length [(0x30 :: u8, [7, 7 :: u8])]))
      (concat (map (\<lambda>(ty, body). mqtt_packet ty body) [(0x30, [7, 7])]) @ take 3 (mqtt_packet 0x40 [9, 9])) =
    (map (\<lambda>(ty, body). mqtt_packet ty body) [(0x30, [7, 7])], take 3 (mqtt_packet 0x40 [9, 9]))"
    by (rule mqtt_extract_stream) (auto simp: e)
  then show ?thesis by (simp add: e numeral_2_eq_2 del: extract_packets.simps)
qed

text \<open>
  A published message arrives as it was sent: parsing an encoded PUBLISH packet of
  quality of service 0 or 1 gives back its topic, its payload and its packet identifier.
\<close>

theorem mqtt_publish_roundtrip:
  assumes "qos \<le> 1" and "(packet_id = None) = (qos = 0)" and "list_all scalar_value topic"
    and "length (as_bytes topic) < 2 ^ 16" and "length (publish_rest topic p packet_id) < 2 ^ 28"
  shows "\<exists>bs. encode_publish topic p qos retain packet_id = Inr bs \<and>
    parse_incoming_publish bs = Some (Inr \<lparr>ip_topic = topic, ip_payload = p, ip_packet_id = packet_id\<rparr>)"
  using encode_publish_packet [OF assms(1,2)] publish_body_rest [OF assms(3,4,1,2)]
    parse_publish_packet [OF assms(5) publish_type_bits(1) [OF assms(1)]] by auto

theorem mqtt_publish_roundtrip_witness:
  "\<exists>bs. encode_publish (lit ''a/b'') [1, 2] 1 True (Some 7) = Inr bs \<and>
    parse_incoming_publish bs = Some (Inr \<lparr>ip_topic = lit ''a/b'', ip_payload = [1, 2], ip_packet_id = Some 7\<rparr>)"
  by (rule mqtt_publish_roundtrip)
    (simp_all add: lit_def scalar_value_def as_bytes_def utf8_char_def publish_rest_def)

text \<open>
  Five length bytes are accepted, one more than MQTT allows, and their value wraps around in 32 bits:
  there is a buffer from which the empty packet is extracted again and again, and one on which the
  publish parser panics.
\<close>

lemma mqtt_length_wraps:
  "try_extract_packet [0x30, 0xFA, 0xFF, 0xFF, 0xFF, 0x0F] = ([0x30, 0xFA, 0xFF, 0xFF, 0xFF, 0x0F], Some [])"
  "parse_incoming_publish [0x30, 0xFF, 0xFF, 0xFF, 0xFF, 0x0F] = None"
  by (simp_all add: try_extract_packet_def parse_incoming_publish_def decode_remaining_length_def
      decode_loop.simps slice_range_def)

end
