(* ===== verification/CommandParser.thy ===== *)
theory CommandParser
  imports Float32 FaultBuf Timers
begin

text \<open>
  The parser of MQTT commands, \<open>crates/launa-mqtt/src/command_parser.rs\<close>. The texts of the
  \<open>InvalidPayload\<close> errors are replaced by the reason and the values they mention. The decimal parser
  of \<open>f32\<close> is the standard library's: sign, digits, point, exponent, or a name of infinity or NaN,
  rounded once.
\<close>

section \<open>Decimal numbers\<close>

definition pow10 :: "int \<Rightarrow> rat" where
  "pow10 k = (if 0 \<le> k then 10 ^ nat k else 1 / 10 ^ nat (- k))"

definition split_sign :: "rstr \<Rightarrow> bool \<times> rstr" where
  "split_sign s =
     (case s of [] \<Rightarrow> (False, [])
      | c # r \<Rightarrow> if c = 45 then (True, r) else if c = 43 then (False, r) else (False, s))"

definition parse_decimal :: "rstr \<Rightarrow> rat option" where
  "parse_decimal s =
     (let ip = takeWhile is_digit s; r = dropWhile is_digit s;
          (fp, r2) = (case r of c # r' \<Rightarrow> if c = 46 then (takeWhile is_digit r', dropWhile is_digit r') else ([], r)
                      | [] \<Rightarrow> ([], r));
          mant = of_nat (digits_value (ip @ fp)); scale = - int (length fp)
      in if ip = [] \<and> fp = [] then None
         else case r2 of
           [] \<Rightarrow> Some (mant * pow10 scale)
         | c # r3 \<Rightarrow>
             if c = 101 \<or> c = 69 then
               let (eneg, ds) = split_sign r3; ex = int (digits_value ds) in
               if ds \<noteq> [] \<and> list_all is_digit ds
               then Some (mant * pow10 (if eneg then scale - ex else scale + ex))
               else None
             else None)"

definition ascii_lower :: "nat \<Rightarrow> nat" where
  "ascii_lower c = (if 65 \<le> c \<and> c \<le> 90 then c + 32 else c)"

definition parse_f32 :: "rstr \<Rightarrow> f32 option" where
  "parse_f32 s =
     (let (neg, body) = split_sign s in
      case parse_decimal body of
        Some x \<Rightarrow> Some (round_f32 (if neg then - x else x))
      | None \<Rightarrow>
          let l = map ascii_lower body in
          if l = lit ''inf'' \<or> l = lit ''infinity'' then Some (F32_Inf neg)
          else if l = lit ''nan'' then Some F32_NaN
          else None)"

section \<open>Results\<close>

datatype PayloadError =
    NonUtf8 | NotANumber rstr | OutOfRepresentableRange rstr | EmptyPayload | TimerMinutes u32
  | PreferenceNotJson rstr | UnknownPreference rstr | InvalidPreferenceValue rstr
  | InvalidPreferenceJson rstr | InvalidTimeJson rstr | InvalidTimePayload rstr | TimeOutOfRange u8 u8

datatype ParseResult =
    Valid Command
  | TemperatureOutOfRange (raw_temperature: u8) (temp_error: TempError)
  | UnknownSubtopic rstr
  | InvalidPayload PayloadError
  | TimerPump (timer_minutes: u32) (timer_pump_index: u8)

definition ALLOWED_SUBTOPICS :: "rstr list" where
  "ALLOWED_SUBTOPICS = map lit
     [''pump1'', ''pump2'', ''pump3'', ''pump4'', ''pump5'', ''pump6'',
      ''pump1_timer'', ''pump2_timer'', ''pump3_timer'', ''pump4_timer'', ''pump5_timer'', ''pump6_timer'',
      ''light1'', ''light2'', ''light3'', ''light4'', ''blower'', ''mister'', ''circulation_pump'',
      ''aux1'', ''aux2'', ''heat_mode'', ''temp_range'', ''hold_mode'', ''soak_mode'',
      ''normal_operation'', ''clear_notification'', ''set_temperature'', ''set_time'', ''set_preference'']"

section \<open>Payload parsers\<close>

definition f32_in_range :: "f32 \<Rightarrow> rat \<Rightarrow> rat \<Rightarrow> bool" where
  "f32_in_range t lo hi \<longleftrightarrow>
     (f32_less (F32_Fin lo) t \<or> f32_eq (F32_Fin lo) t) \<and> (f32_less t (F32_Fin hi) \<or> f32_eq t (F32_Fin hi))"

definition parse_set_temperature :: "rstr \<Rightarrow> ParseResult" where
  "parse_set_temperature p =
     (case parse_f32 p of
        None \<Rightarrow> InvalidPayload (NotANumber p)
      | Some t \<Rightarrow>
          if t = F32_NaN \<or> \<not> f32_in_range t 0 255 then InvalidPayload (OutOfRepresentableRange p)
          else
            let temp = f32_to_u8 (f32_add t (F32_Fin (1 / 2))) in
            if temp = 0 then TemperatureOutOfRange 0 BelowMin
            else if temp > ABSOLUTE_MAX_TEMP_F then TemperatureOutOfRange temp AboveAbsoluteLimit
            else Valid (SetTemperature temp))"

definition parse_set_temperature_validated :: "rstr \<Rightarrow> TemperatureScale \<Rightarrow> TempRange \<Rightarrow> ParseResult" where
  "parse_set_temperature_validated p scale rng =
     (case parse_unsigned 255 p of
        None \<Rightarrow> InvalidPayload (NotANumber p)
      | Some n \<Rightarrow>
          let temp = word_of_nat n in
          (case validate_set_temperature temp scale rng of
             Inr _ \<Rightarrow> Valid (SetTemperature temp)
           | Inl e \<Rightarrow> TemperatureOutOfRange temp e))"

definition parse_toggle :: "rstr \<Rightarrow> ToggleItem \<Rightarrow> ParseResult" where
  "parse_toggle p item = (if p = [] then InvalidPayload EmptyPayload else Valid (ToggleItem item))"

definition parse_pump_timer :: "rstr \<Rightarrow> u8 \<Rightarrow> ParseResult" where
  "parse_pump_timer p pump_no =
     (case parse_unsigned (2 ^ 32 - 1) p of
        Some n \<Rightarrow>
          let minutes = word_of_nat n in
          if minutes > 0 \<and> minutes \<le> 120 then TimerPump minutes pump_no
          else InvalidPayload (TimerMinutes minutes)
      | None \<Rightarrow> InvalidPayload (NotANumber p))"

text \<open>The text after the key of a flat JSON object, with leading white space removed.\<close>

definition json_rest :: "rstr \<Rightarrow> rstr \<Rightarrow> rstr option" where
  "json_rest json key =
     (let pat = 34 # key @ [34, 58] in
      case find_str json pat of
        None \<Rightarrow> None
      | Some start \<Rightarrow> Some (trim_start (drop (start + length pat) json)))"

definition extract_json_string :: "rstr \<Rightarrow> rstr \<Rightarrow> rstr option" where
  "extract_json_string json key =
     (case json_rest json key of
        None \<Rightarrow> None
      | Some rest \<Rightarrow>
          if \<not> starts_with rest [34] then None
          else let inner = drop 1 rest in
            (case find_str inner [34] of None \<Rightarrow> None | Some e \<Rightarrow> Some (take e inner)))"

definition extract_json_number :: "rstr \<Rightarrow> rstr \<Rightarrow> nat option" where
  "extract_json_number json key =
     (case json_rest json key of
        None \<Rightarrow> None
      | Some rest \<Rightarrow> parse_unsigned 255 (takeWhile is_digit rest))"

definition extract_json_bool :: "rstr \<Rightarrow> rstr \<Rightarrow> bool option" where
  "extract_json_bool json key =
     (case json_rest json key of
        None \<Rightarrow> None
      | Some rest \<Rightarrow>
          if starts_with rest (lit ''true'') then Some True
          else if starts_with rest (lit ''false'') then Some False
          else None)"

definition validate_time :: "u8 \<Rightarrow> u8 \<Rightarrow> bool \<Rightarrow> ParseResult" where
  "validate_time hour minute h24 =
     (if hour > 23 \<or> minute > 59 then InvalidPayload (TimeOutOfRange hour minute)
      else Valid (SetTime hour minute h24))"

definition preference_code :: "rstr \<Rightarrow> u8 option" where
  "preference_code name =
     (if name = lit ''reminders'' then Some PREF_REMINDERS
      else if name = lit ''temperature_scale'' then Some PREF_TEMPERATURE_SCALE
      else if name = lit ''clock_mode'' then Some PREF_CLOCK_MODE
      else if name = lit ''cleanup_cycle'' then Some PREF_CLEANUP_CYCLE
      else if name = lit ''m8_ai'' then Some PREF_M8_AI
      else None)"

definition preference_value :: "rstr \<Rightarrow> u8 option" where
  "preference_value v =
     (if v = lit ''12h'' \<or> v = lit ''fahrenheit'' \<or> v = lit ''off'' \<or> v = lit ''no'' then Some 0
      else if v = lit ''24h'' \<or> v = lit ''celsius'' \<or> v = lit ''on'' \<or> v = lit ''yes'' then Some 1
      else map_option word_of_nat (parse_unsigned 255 v))"

definition parse_set_preference :: "rstr \<Rightarrow> ParseResult" where
  "parse_set_preference p =
     (let trimmed = trim p in
      if \<not> starts_with trimmed [123] then InvalidPayload (PreferenceNotJson p)
      else
        case extract_json_string trimmed (lit ''name'') of
          Some name \<Rightarrow>
            let value_str = (case extract_json_string trimmed (lit ''value'') of Some v \<Rightarrow> v | None \<Rightarrow> []) in
            (case preference_code name of
               None \<Rightarrow> InvalidPayload (UnknownPreference name)
             | Some code \<Rightarrow>
                 (case preference_value value_str of
                    None \<Rightarrow> InvalidPayload (InvalidPreferenceValue value_str)
                  | Some v \<Rightarrow> Valid (SetPreference code v)))
        | None \<Rightarrow>
            (case (extract_json_number trimmed (lit ''code''), extract_json_number trimmed (lit ''value'')) of
               (Some c, Some v) \<Rightarrow> Valid (SetPreference (word_of_nat c) (word_of_nat v))
             | _ \<Rightarrow> InvalidPayload (InvalidPreferenceJson p)))"

definition parse_set_time :: "rstr \<Rightarrow> ParseResult" where
  "parse_set_time p =
     (let trimmed = trim p in
      if starts_with trimmed [123] then
        (let h24 = (case extract_json_bool trimmed (lit ''is_24h'') of Some b \<Rightarrow> b | None \<Rightarrow> False) in
         case (extract_json_number trimmed (lit ''hour''), extract_json_number trimmed (lit ''minute'')) of
           (Some h, Some m) \<Rightarrow> validate_time (word_of_nat h) (word_of_nat m) h24
         | _ \<Rightarrow> InvalidPayload (InvalidTimeJson p))
      else
        (case split_char 58 trimmed of
           [a, b] \<Rightarrow>
             (case (parse_unsigned 255 (trim a), parse_unsigned 255 (trim b)) of
                (Some h, Some m) \<Rightarrow> validate_time (word_of_nat h) (word_of_nat m) False
              | _ \<Rightarrow> InvalidPayload (InvalidTimePayload p))
         | _ \<Rightarrow> InvalidPayload (InvalidTimePayload p)))"

section \<open>Topics\<close>

definition ends_with :: "'a list \<Rightarrow> 'a list \<Rightarrow> bool" where
  "ends_with s p = starts_with (rev s) (rev p)"

definition named_toggle :: "rstr \<Rightarrow> ToggleItem option" where
  "named_toggle s =
     (if s = lit ''blower'' then Some Blower
      else if s = lit ''mister'' then Some Mister
      else if s = lit ''circulation_pump'' then Some CirculationPump
      else if s = lit ''aux1'' then Some Aux1
      else if s = lit ''aux2'' then Some Aux2
      else if s = lit ''heat_mode'' then Some HeatingModeItem
      else if s = lit ''temp_range'' then Some TemperatureRange
      else if s = lit ''hold_mode'' then Some HoldMode
      else if s = lit ''soak_mode'' then Some SoakMode
      else if s = lit ''normal_operation'' then Some NormalOperation
      else if s = lit ''clear_notification'' then Some ClearNotification
      else None)"

definition parse_subtopic :: "rstr \<Rightarrow> rstr \<Rightarrow> ParseResult" where
  "parse_subtopic s payload_str =
     (if starts_with s (lit ''pump'') \<and> ends_with s (lit ''_timer'') then
        (case parse_unsigned 255 (drop 4 (take (length s - 6) s)) of
           Some n \<Rightarrow> if 1 \<le> n \<and> n \<le> 6 then parse_pump_timer payload_str (word_of_nat n) else UnknownSubtopic s
         | None \<Rightarrow> UnknownSubtopic s)
      else if starts_with s (lit ''pump'') then
        (case parse_unsigned (2 ^ 32 - 1) (drop 4 s) of
           Some n \<Rightarrow>
             if 1 \<le> n \<and> n \<le> 6 then
               (case from_pump_index (n - 1) of
                  Some item \<Rightarrow> parse_toggle payload_str item | None \<Rightarrow> UnknownSubtopic s)
             else UnknownSubtopic s
         | None \<Rightarrow> UnknownSubtopic s)
      else if starts_with s (lit ''light'') then
        (case parse_unsigned (2 ^ 32 - 1) (drop 5 s) of
           Some n \<Rightarrow>
             if 1 \<le> n \<and> n \<le> 4 then
               (case from_light_index (n - 1) of
                  Some item \<Rightarrow> parse_toggle payload_str item | None \<Rightarrow> UnknownSubtopic s)
             else UnknownSubtopic s
         | None \<Rightarrow> UnknownSubtopic s)
      else
        (case named_toggle s of
           Some item \<Rightarrow> parse_toggle payload_str item
         | None \<Rightarrow>
             if s = lit ''set_temperature'' then parse_set_temperature payload_str
             else if s = lit ''set_time'' then parse_set_time payload_str
             else if s = lit ''set_preference'' then parse_set_preference payload_str
             else UnknownSubtopic s))"

definition parse_command :: "rstr \<Rightarrow> rstr \<Rightarrow> u8 list \<Rightarrow> ParseResult" where
  "parse_command command_topic_base topic p =
     (if \<not> starts_with topic command_topic_base then UnknownSubtopic topic
      else
        let suffix = drop (length command_topic_base) topic in
        if \<not> starts_with suffix [47] then UnknownSubtopic topic
        else
          let subtopic = drop 1 suffix in
          if subtopic \<notin> set ALLOWED_SUBTOPICS then UnknownSubtopic subtopic
          else
            case from_utf8 p of
              None \<Rightarrow> InvalidPayload NonUtf8
            | Some payload_str \<Rightarrow> parse_subtopic subtopic payload_str)"

definition parse_command_ok :: "rstr \<Rightarrow> rstr \<Rightarrow> u8 list \<Rightarrow> Command option" where
  "parse_command_ok command_topic_base topic p =
     (case parse_command command_topic_base topic p of Valid cmd \<Rightarrow> Some cmd | _ \<Rightarrow> None)"

section \<open>Lemmas\<close>

lemma parse_toggle_Valid: "parse_toggle p i = Valid c \<Longrightarrow> c = ToggleItem i"
  by (simp add: parse_toggle_def split: if_splits)

lemma parse_set_temperature_Valid: "parse_set_temperature p = Valid c \<Longrightarrow> \<exists>t. c = SetTemperature t \<and> 0 < t \<and> t \<le> 108"
  by (auto simp: parse_set_temperature_def Let_def ABSOLUTE_MAX_TEMP_F_def word_gt_0 not_less
      split: option.splits if_splits)

lemma validate_time_Valid: "validate_time h m b = Valid c \<Longrightarrow> c = SetTime h m b \<and> h \<le> 23 \<and> m \<le> 59"
  by (simp add: validate_time_def not_less split: if_splits)

lemma parse_set_time_Valid: "parse_set_time p = Valid c \<Longrightarrow> \<exists>h m b. c = SetTime h m b \<and> h \<le> 23 \<and> m \<le> 59"
  by (auto simp: parse_set_time_def Let_def split: if_splits option.splits list.splits
      dest!: validate_time_Valid)

lemma parse_set_preference_Valid: "parse_set_preference p = Valid c \<Longrightarrow> \<exists>k v. c = SetPreference k v"
  by (auto simp: parse_set_preference_def Let_def split: if_splits option.splits)

lemma parse_pump_timer_not_Valid: "parse_pump_timer p i \<noteq> Valid c"
  by (simp add: parse_pump_timer_def Let_def split: option.splits)

lemma parse_pump_timer_TimerPump:
  "parse_pump_timer p i = TimerPump m j \<Longrightarrow> j = i \<and> 0 < m \<and> m \<le> 120"
  by (auto simp: parse_pump_timer_def Let_def split: option.splits if_splits)

lemma other_parsers_no_timer:
  "parse_toggle p i \<noteq> TimerPump m j" "parse_set_temperature p \<noteq> TimerPump m j"
  "validate_time h mi b \<noteq> TimerPump m j" "parse_set_preference p \<noteq> TimerPump m j"
  by (simp_all add: parse_toggle_def parse_set_temperature_def validate_time_def parse_set_preference_def
      Let_def split: option.splits)

lemma parse_set_time_no_timer: "parse_set_time p \<noteq> TimerPump m j"
  by (auto simp: parse_set_time_def Let_def other_parsers_no_timer split: option.splits list.splits)

lemma parse_subtopic_Valid:
  assumes "parse_subtopic s p = Valid c"
  shows "(\<exists>i. c = ToggleItem i) \<or> (\<exists>t. c = SetTemperature t \<and> 0 < t \<and> t \<le> 108) \<or>
    (\<exists>h m b. c = SetTime h m b \<and> h \<le> 23 \<and> m \<le> 59) \<or> (\<exists>k v. c = SetPreference k v)"
  using assms unfolding parse_subtopic_def
  by (auto simp: parse_pump_timer_not_Valid split: if_splits option.splits
      dest!: parse_toggle_Valid parse_set_temperature_Valid parse_set_time_Valid parse_set_preference_Valid)

lemma parse_subtopic_TimerPump:
  assumes "parse_subtopic s p = TimerPump m i"
  shows "0 < m \<and> m \<le> 120 \<and> 1 \<le> unat i \<and> unat i \<le> 6"
proof -
  obtain n where n: "1 \<le> n" "n \<le> 6" "parse_pump_timer p (word_of_nat n) = TimerPump m i"
    using assms unfolding parse_subtopic_def
    by (auto simp: other_parsers_no_timer parse_set_time_no_timer split: if_splits option.splits)
  then have "i = word_of_nat n" using parse_pump_timer_TimerPump by blast
  then have "unat i = n" using n(2) by (simp add: unat_of_nat)
  with n parse_pump_timer_TimerPump [OF n(3)] show ?thesis by simp
qed

lemma parse_command_subtopic:
  "parse_command b t p = r \<Longrightarrow> (\<exists>c. r = Valid c) \<or> (\<exists>m i. r = TimerPump m i) \<Longrightarrow>
     \<exists>s ps. t = b @ 47 # s \<and> s \<in> set ALLOWED_SUBTOPICS \<and> from_utf8 p = Some ps \<and> parse_subtopic s ps = r"
proof -
  have sw: "starts_with xs ys \<Longrightarrow> xs = ys @ drop (length ys) xs" for xs ys :: rstr
    by (induction xs ys rule: starts_with.induct) auto
  assume "parse_command b t p = r" "(\<exists>c. r = Valid c) \<or> (\<exists>m i. r = TimerPump m i)"
  then show ?thesis
    using sw [of t b] sw [of "drop (length b) t" "[47]"]
    by (auto simp: parse_command_def Let_def split: if_splits option.splits)
qed

text \<open>The numbers of the payload: a decimal integer is read exactly.\<close>

lemma takeWhile_show_nat: "takeWhile is_digit (show_nat n) = show_nat n" "dropWhile is_digit (show_nat n) = []"
  using show_nat_digits by (auto simp: is_digit_def takeWhile_eq_all_conv)

lemma parse_decimal_show_nat: "parse_decimal (show_nat n) = Some (of_nat n)"
  by (simp add: parse_decimal_def takeWhile_show_nat digits_value_show_nat pow10_def)

lemma split_sign_show_nat: "split_sign (show_nat n) = (False, show_nat n)"
proof (cases "show_nat n")
  case (Cons c r)
  then have "48 \<le> c" using show_nat_digits [of c n] by simp
  with Cons show ?thesis by (simp add: split_sign_def)
qed simp

lemma parse_f32_show_nat:
  assumes "n < 2 ^ 24" shows "parse_f32 (show_nat n) = Some (F32_Fin (of_nat n))"
proof -
  have "\<bar>int n\<bar> < 2 ^ 24" using assms by simp
  then have "round_f32 (of_int (int n)) = F32_Fin (of_int (int n))" by (rule round_f32_of_int)
  then show ?thesis by (simp add: parse_f32_def split_sign_show_nat parse_decimal_show_nat)
qed

lemma temperature_cast:
  assumes "n \<le> 255"
  shows "f32_to_u8 (f32_add (F32_Fin (of_nat n)) (F32_Fin (1 / 2))) = word_of_nat n"
proof -
  have "\<bar>int (2 * n + 1)\<bar> < 2 ^ 24" using assms by simp
  then have "round_f32 (of_int (int (2 * n + 1)) / 2) = F32_Fin (of_int (int (2 * n + 1)) / 2)"
    by (rule round_f32_half)
  moreover have "(of_int (int (2 * n + 1)) / 2 :: rat) = of_nat n + 1 / 2" by simp
  ultimately have r: "round_f32 (of_nat n + 1 / 2) = F32_Fin (of_nat n + 1 / 2)" by (simp only:)
  have fl: "\<lfloor>of_nat n + 1 / 2 :: rat\<rfloor> = int n" by (rule floor_unique) simp_all
  show ?thesis
  proof (cases "n = 255")
    case True
    then show ?thesis using r by simp
  next
    case False
    then have "n \<le> 254" using assms by simp
    then have "(of_nat n :: rat) \<le> of_nat 254" by (simp only: of_nat_le_iff)
    then have "\<not> (255 :: rat) < of_nat n + 1 / 2" by simp
    then show ?thesis using r fl by (simp add: not_less)
  qed
qed

text \<open>The topics of the toggles.\<close>

fun item_topic :: "ToggleItem \<Rightarrow> rstr" where
  "item_topic Pump1 = lit ''pump1''"
| "item_topic Pump2 = lit ''pump2''"
| "item_topic Pump3 = lit ''pump3''"
| "item_topic Pump4 = lit ''pump4''"
| "item_topic Pump5 = lit ''pump5''"
| "item_topic Pump6 = lit ''pump6''"
| "item_topic Light1 = lit ''light1''"
| "item_topic Light2 = lit ''light2''"
| "item_topic Light3 = lit ''light3''"
| "item_topic Light4 = lit ''light4''"
| "item_topic Blower = lit ''blower''"
| "item_topic Mister = lit ''mister''"
| "item_topic CirculationPump = lit ''circulation_pump''"
| "item_topic Aux1 = lit ''aux1''"
| "item_topic Aux2 = lit ''aux2''"
| "item_topic HeatingModeItem = lit ''heat_mode''"
| "item_topic TemperatureRange = lit ''temp_range''"
| "item_topic HoldMode = lit ''hold_mode''"
| "item_topic SoakMode = lit ''soak_mode''"
| "item_topic NormalOperation = lit ''normal_operation''"
| "item_topic ClearNotification = lit ''clear_notification''"

lemma starts_with_append [simp]: "starts_with (xs @ ys) xs"
  by (induction xs) simp_all

lemma parse_command_topic:
  "s \<in> set ALLOWED_SUBTOPICS \<Longrightarrow> from_utf8 p = Some ps \<Longrightarrow> parse_command b (b @ 47 # s) p = parse_subtopic s ps"
  by (simp add: parse_command_def Let_def)

lemma item_topic_allowed: "item_topic i \<in> set ALLOWED_SUBTOPICS"
  by (cases i) (simp_all add: ALLOWED_SUBTOPICS_def)

lemmas subtopic_simps = parse_subtopic_def ends_with_def lit_def parse_unsigned_def is_digit_def
  digits_value_def from_pump_index_def from_light_index_def named_toggle_def Let_def

lemma parse_subtopic_item: "parse_subtopic (item_topic i) ps = parse_toggle ps i"
  by (cases i) (simp_all add: subtopic_simps)

lemma parse_subtopic_set_temperature: "parse_subtopic (lit ''set_temperature'') ps = parse_set_temperature ps"
  by (simp add: subtopic_simps)

section \<open>Properties\<close>

text \<open>
  What the parser accepts can be carried out. Every command it accepts, from any topic
  and any payload, has an encoding (so the application never puts an empty frame on the bus for it),
  and every timer request names one of the six pumps and between 1 and 120 minutes.
\<close>

theorem parsed_commands_executable:
  "case parse_command b t p of
     Valid c \<Rightarrow> \<exists>mt q. command_encode c = Inr (mt, q)
   | TimerPump m i \<Rightarrow> 0 < m \<and> m \<le> 120 \<and> snd (start_timer pump_timers_new i m now) \<noteq> None
   | _ \<Rightarrow> True"
proof (cases "parse_command b t p")
  case (Valid c)
  then obtain s ps where "parse_subtopic s ps = Valid c" using parse_command_subtopic [OF Valid] by auto
  from parse_subtopic_Valid [OF this] show ?thesis
    unfolding Valid
    by (auto simp: Let_def ABSOLUTE_MAX_TEMP_F_def not_less hour_flag)
next
  case (TimerPump m i)
  then obtain s ps where "parse_subtopic s ps = TimerPump m i" using parse_command_subtopic [OF TimerPump] by auto
  from parse_subtopic_TimerPump [OF this] have b: "0 < m" "m \<le> 120" "\<not> unat i < 1" "\<not> unat i - 1 \<ge> 6"
    by auto
  have "length (timers pump_timers_new) = 6" by (simp add: pump_timers_new_def)
  with b have "snd (start_timer pump_timers_new i m now) \<noteq> None"
    by (simp only: start_timer_def Let_def if_False split_def snd_conv option.distinct not_False_eq_True)
  with b show ?thesis unfolding TimerPump by simp
qed simp_all

text \<open>
  Every toggle has its topic. A non-empty text payload on the topic of an item toggles
  that item, whatever the payload says, and an empty one is rejected.
\<close>

theorem toggle_topics:
  assumes "from_utf8 p = Some ps"
  shows "parse_command b (b @ 47 # item_topic i) p =
    (if ps = [] then InvalidPayload EmptyPayload else Valid (ToggleItem i))"
  using parse_command_topic [OF item_topic_allowed assms, of b i]
  by (simp add: parse_subtopic_item parse_toggle_def)

theorem toggle_topics_witness:
  "parse_command (lit ''launa/x/command'') (lit ''launa/x/command/pump2'') [116] = Valid (ToggleItem Pump2)"
proof -
  have "from_utf8 [116] = Some [116]" by (simp add: utf8_step_def byte_at_def)
  from toggle_topics [OF this, of "lit ''launa/x/command''" Pump2] show ?thesis by (simp add: lit_def)
qed

text \<open>
  A whole number of degrees on the set-temperature topic is accepted unchanged exactly
  from 1 to 108; zero and the values up to 255 are reported out of range with their value.
\<close>

theorem set_temperature_topic:
  assumes "n \<le> 255"
  shows "parse_command b (b @ 47 # lit ''set_temperature'') (as_bytes (show_nat n)) =
    (if n = 0 then TemperatureOutOfRange 0 BelowMin
     else if n \<le> 108 then Valid (SetTemperature (word_of_nat n))
     else TemperatureOutOfRange (word_of_nat n) AboveAbsoluteLimit)"
proof -
  have "list_all scalar_value (show_nat n)" using show_nat_digits [of _ n] by (force simp: list_all_iff scalar_value_def)
  then have "from_utf8 (as_bytes (show_nat n)) = Some (show_nat n)" by (rule from_utf8_as_bytes)
  moreover have "lit ''set_temperature'' \<in> set ALLOWED_SUBTOPICS" by (simp add: ALLOWED_SUBTOPICS_def)
  ultimately have r: "parse_command b (b @ 47 # lit ''set_temperature'') (as_bytes (show_nat n)) =
      parse_set_temperature (show_nat n)"
    by (simp add: parse_command_topic parse_subtopic_set_temperature)
  have u: "unat (word_of_nat n :: u8) = n" using assms by (simp add: unat_of_nat)
  then have w: "(word_of_nat n :: u8) = 0 \<longleftrightarrow> n = 0" "(108 :: u8) < word_of_nat n \<longleftrightarrow> 108 < n"
    by (auto simp: word_unat_eq_iff word_less_nat_alt)
  have f: "parse_f32 (show_nat n) = Some (F32_Fin (of_nat n))" using assms by (simp add: parse_f32_show_nat)
  have "(of_nat n :: rat) \<le> of_nat 255" using assms by (simp only: of_nat_le_iff)
  then have "f32_in_range (F32_Fin (of_nat n)) 0 255" by (auto simp: f32_in_range_def)
  then show ?thesis
    unfolding r using f temperature_cast [OF assms] w
    by (auto simp: parse_set_temperature_def Let_def ABSOLUTE_MAX_TEMP_F_def simp del: f32_add.simps f32_to_u8.simps)
qed

theorem set_temperature_topic_witness:
  "parse_command [] (47 # lit ''set_temperature'') (as_bytes (show_nat 102)) = Valid (SetTemperature 102)"
  using set_temperature_topic [of 102 "[]"] by simp

end
