(* ===== verification/LogBuffer.thy ===== *)
theory LogBuffer
  imports Interfaces Strings
begin

text \<open>
  The remote log of \<open>crates/launa-core/src/log_buffer.rs\<close>, a ring buffer of sixteen entries, and
  the fixed-size fault string of \<open>fault_buf.rs\<close>. The ring buffer is shown to implement the abstract
  log that keeps the last sixteen entries.
\<close>

section \<open>The ring buffer\<close>

definition REMOTE_LOG_BUF_SIZE :: nat where "REMOTE_LOG_BUF_SIZE = 16"
definition MAX_LOG_MESSAGE_LEN :: nat where "MAX_LOG_MESSAGE_LEN = 128"

record LogEntry =
  level :: rstr
  log_message :: rstr
  timestamp_ms :: u64

record RemoteLogBuffer =
  entries :: "LogEntry list"
  head :: nat
  len :: nat
  enabled :: bool

definition log_new :: RemoteLogBuffer where
  "log_new = \<lparr>entries = [], head = 0, len = 0, enabled = False\<rparr>"

definition set_enabled :: "bool \<Rightarrow> RemoteLogBuffer \<Rightarrow> RemoteLogBuffer" where
  "set_enabled e b = b\<lparr>enabled := e\<rparr>"

text \<open>The scan over the characters of a message: the running byte count stops it.\<close>

fun scan_bytes :: "nat \<Rightarrow> rstr \<Rightarrow> rstr" where
  "scan_bytes bytes [] = []"
| "scan_bytes bytes (ch # s) =
     (let bytes' = bytes + len_utf8 ch in
      if bytes' > MAX_LOG_MESSAGE_LEN then [] else ch # scan_bytes bytes' s)"

definition truncate_message :: "rstr \<Rightarrow> rstr" where
  "truncate_message s = scan_bytes 0 s"

definition log_push :: "RemoteLogBuffer \<Rightarrow> rstr \<Rightarrow> rstr \<Rightarrow> u64 \<Rightarrow> RemoteLogBuffer" where
  "log_push b lvl msg ts =
     (if \<not> enabled b then b
      else
        let entry = \<lparr>level = lvl, log_message = truncate_message msg, timestamp_ms = ts\<rparr> in
        if len b < REMOTE_LOG_BUF_SIZE then
          let es = entries b @ [entry] in
          b\<lparr>entries := es, len := length es, head := length es mod REMOTE_LOG_BUF_SIZE\<rparr>
        else
          b\<lparr>entries := (if head b < length (entries b) then (entries b)[head b := entry] else entries b),
            head := (head b + 1) mod REMOTE_LOG_BUF_SIZE\<rparr>)"

definition log_drain :: "RemoteLogBuffer \<Rightarrow> RemoteLogBuffer \<times> LogEntry list" where
  "log_drain b =
     (if len b = 0 then (b, [])
      else
        let capacity = min (length (entries b)) (len b);
            result = map (\<lambda>i. entries b ! ((head b + i) mod length (entries b))) [0..<capacity]
        in (b\<lparr>entries := [], head := 0, len := 0\<rparr>, result))"

section \<open>The abstract log\<close>

definition ring_inv :: "RemoteLogBuffer \<Rightarrow> bool" where
  "ring_inv b \<longleftrightarrow> len b = length (entries b) \<and> len b \<le> REMOTE_LOG_BUF_SIZE \<and>
     head b < REMOTE_LOG_BUF_SIZE \<and> (len b < REMOTE_LOG_BUF_SIZE \<longrightarrow> head b = len b)"

text \<open>The entries in chronological order.\<close>

definition log_abs :: "RemoteLogBuffer \<Rightarrow> LogEntry list" where
  "log_abs b = rotate (head b) (entries b)"

lemma ring_inv_new: "ring_inv log_new"
  by (simp add: ring_inv_def log_new_def REMOTE_LOG_BUF_SIZE_def)

lemma log_abs_new: "log_abs log_new = []"
  by (simp add: log_abs_def log_new_def)

text \<open>What a push does with its entry, whatever the entry is.\<close>

definition push_entry :: "RemoteLogBuffer \<Rightarrow> LogEntry \<Rightarrow> RemoteLogBuffer" where
  "push_entry b e =
     (if len b < REMOTE_LOG_BUF_SIZE
      then b\<lparr>entries := entries b @ [e], len := Suc (length (entries b)), head := Suc (length (entries b)) mod REMOTE_LOG_BUF_SIZE\<rparr>
      else b\<lparr>entries := (if head b < length (entries b) then (entries b)[head b := e] else entries b),
        head := (head b + 1) mod REMOTE_LOG_BUF_SIZE\<rparr>)"

lemma log_push_entry:
  "log_push b l m t =
     (if enabled b then push_entry b \<lparr>level = l, log_message = truncate_message m, timestamp_ms = t\<rparr> else b)"
  by (simp add: log_push_def push_entry_def Let_def)

lemma push_entry_inv: "ring_inv b \<Longrightarrow> ring_inv (push_entry b e)"
  by (auto simp: ring_inv_def push_entry_def REMOTE_LOG_BUF_SIZE_def)

lemma push_entry_enabled [simp]: "enabled (push_entry b e) = enabled b"
  by (simp add: push_entry_def)

lemma rotate_update:
  assumes "h < length xs"
  shows "rotate (Suc h mod length xs) (xs[h := x]) = tl (rotate h xs) @ [x]"
proof -
  have "rotate h (xs[h := x]) = x # tl (rotate h xs)"
    using assms by (simp add: rotate_drop_take drop_update_cancel upd_conv_take_nth_drop
        Cons_nth_drop_Suc [symmetric] del: Cons_nth_drop_Suc)
  then have "rotate1 (rotate h (xs[h := x])) = tl (rotate h xs) @ [x]" by simp
  moreover have "rotate (Suc h mod length xs) (xs[h := x]) = rotate1 (rotate h (xs[h := x]))"
    using rotate_conv_mod [of "Suc h" "xs[h := x]"] by simp
  ultimately show ?thesis by simp
qed

lemma push_entry_abs:
  assumes "ring_inv b"
  shows "log_abs (push_entry b e) = take_last 16 (log_abs b @ [e])"
proof -
  have "len b \<le> 16" using assms by (simp add: ring_inv_def REMOTE_LOG_BUF_SIZE_def)
  then consider "len b < 16" | "len b = 16" by linarith
  then show ?thesis
  proof cases
    case 1
    then have l: "length (entries b) = len b" "head b = len b"
      using assms by (auto simp: ring_inv_def REMOTE_LOG_BUF_SIZE_def)
    have "rotate (Suc (len b) mod 16) (entries b @ [e]) = entries b @ [e]"
      using rotate_conv_mod [of "Suc (len b) mod 16" "entries b @ [e]"] 1 l
      by (cases "len b = 15") simp_all
    with 1 l show ?thesis by (simp add: push_entry_def log_abs_def REMOTE_LOG_BUF_SIZE_def)
  next
    case 2
    then have l: "length (entries b) = 16" "head b < 16"
      using assms by (auto simp: ring_inv_def REMOTE_LOG_BUF_SIZE_def)
    with 2 rotate_update [of "head b" "entries b" e] show ?thesis
      by (simp add: push_entry_def log_abs_def REMOTE_LOG_BUF_SIZE_def take_last_snoc_full)
  qed
qed

lemma push_entries_spec:
  assumes "ring_inv b"
  shows "ring_inv (foldl push_entry b es) \<and> log_abs (foldl push_entry b es) = take_last 16 (log_abs b @ es)"
proof (induction es rule: rev_induct)
  case Nil
  have "length (log_abs b) \<le> 16" using assms by (simp add: log_abs_def ring_inv_def REMOTE_LOG_BUF_SIZE_def)
  with assms show ?case by simp
next
  case (snoc e es)
  then show ?case
    by (simp add: push_entry_inv push_entry_abs take_last_snoc_take_last flip: append_assoc)
qed

lemma log_drain_abs: "ring_inv b \<Longrightarrow> snd (log_drain b) = log_abs b"
  by (auto simp: log_drain_def log_abs_def ring_inv_def Let_def nth_rotate intro!: nth_equalityI)

lemma log_drain_inv: "ring_inv b \<Longrightarrow> ring_inv (fst (log_drain b)) \<and> log_abs (fst (log_drain b)) = []"
  by (auto simp: log_drain_def log_abs_def ring_inv_def Let_def REMOTE_LOG_BUF_SIZE_def)

lemma scan_bytes_bound:
  "bytes \<le> MAX_LOG_MESSAGE_LEN \<Longrightarrow> bytes + length (as_bytes (scan_bytes bytes s)) \<le> MAX_LOG_MESSAGE_LEN"
proof (induction bytes s rule: scan_bytes.induct)
  case (2 bytes ch s)
  then show ?case by (auto simp: Let_def as_bytes_def length_utf8_char)
qed (simp add: as_bytes_def)

lemma scan_bytes_prefix: "\<exists>t. s = scan_bytes bytes s @ t"
  by (induction bytes s rule: scan_bytes.induct) (auto simp: Let_def)

lemma scan_bytes_all: "bytes + length (as_bytes s) \<le> MAX_LOG_MESSAGE_LEN \<Longrightarrow> scan_bytes bytes s = s"
  by (induction bytes s rule: scan_bytes.induct) (auto simp: Let_def as_bytes_def length_utf8_char)

section \<open>Properties\<close>

definition push_all :: "RemoteLogBuffer \<Rightarrow> (rstr \<times> rstr \<times> u64) list \<Rightarrow> RemoteLogBuffer" where
  "push_all b ms = foldl (\<lambda>b (l, m, t). log_push b l m t) b ms"

definition log_entry :: "rstr \<times> rstr \<times> u64 \<Rightarrow> LogEntry" where
  "log_entry = (\<lambda>(l, m, t). \<lparr>level = l, log_message = truncate_message m, timestamp_ms = t\<rparr>)"

lemma push_all_entries: "enabled b \<Longrightarrow> push_all b ms = foldl push_entry b (map log_entry ms)"
  by (induction ms arbitrary: b) (auto simp: push_all_def log_push_entry log_entry_def)

lemma push_all_spec:
  assumes "ring_inv b" and "enabled b"
  shows "ring_inv (push_all b ms) \<and> log_abs (push_all b ms) = take_last 16 (log_abs b @ map log_entry ms)"
  using push_entries_spec [OF assms(1)] by (simp add: push_all_entries [OF assms(2)])

text \<open>
  The remote log keeps the last sixteen messages. After any sequence of messages pushed
  into an enabled empty buffer, draining returns the last sixteen of them, oldest first, each cut to
  a prefix of at most 128 bytes, and leaves the buffer empty.
\<close>

theorem log_drain_last_16:
  "snd (log_drain (push_all (set_enabled True log_new) ms)) = take_last 16 (map log_entry ms) \<and>
   snd (log_drain (fst (log_drain (push_all (set_enabled True log_new) ms)))) = [] \<and>
   list_all (\<lambda>e. length (as_bytes (log_message e)) \<le> 128)
     (snd (log_drain (push_all (set_enabled True log_new) ms)))"
proof -
  let ?b = "push_all (set_enabled True log_new) ms"
  have "ring_inv (set_enabled True log_new)" "enabled (set_enabled True log_new)"
    "log_abs (set_enabled True log_new) = []"
    using ring_inv_new log_abs_new by (simp_all add: set_enabled_def ring_inv_def log_abs_def)
  with push_all_spec [of "set_enabled True log_new" ms] have b: "ring_inv ?b"
    "log_abs ?b = take_last 16 (map log_entry ms)" by simp_all
  have "set (take_last 16 (map log_entry ms)) \<subseteq> set (map log_entry ms)"
    by (auto simp: take_last_def dest: in_set_dropD)
  moreover have "length (as_bytes (log_message (log_entry x))) \<le> 128" for x
    using scan_bytes_bound [of 0 "fst (snd x)"]
    by (cases x) (simp add: log_entry_def truncate_message_def MAX_LOG_MESSAGE_LEN_def)
  ultimately have "list_all (\<lambda>e. length (as_bytes (log_message e)) \<le> 128)
      (take_last 16 (map log_entry ms))"
    by (auto simp: list_all_iff)
  with b show ?thesis
    using log_drain_abs [of ?b] log_drain_inv [of ?b] log_drain_abs [of "fst (log_drain ?b)"] by simp
qed

end
