(* ===== verification/Json.thy ===== *)
theory Json
  imports Strings Temperature "HOL-Library.Monad_Syntax"
begin

text \<open>
  JSON as the firmware writes it, by hand: the escaping of strings (\<open>crates/launa-mqtt/src/escape.rs\<close>)
  and the printing of floats. As its specification, a reader of flat JSON objects in the way of
  RFC 8259 and the text that an object stands for: reading that text gives back the object.
\<close>

section \<open>Escaping\<close>

definition hex_digit_lower :: "nat \<Rightarrow> nat" where
  "hex_digit_lower d = (if d < 10 then 48 + d else 87 + d)"

definition escape_char :: "nat \<Rightarrow> rstr" where
  "escape_char c =
     (if c = 92 then [92, 92] else if c = 34 then [92, 34] else if c = 10 then [92, 110]
      else if c = 13 then [92, 114] else if c = 9 then [92, 116]
      else if c \<le> 0x1F then [92, 117, 48, 48, hex_digit_lower (c div 16), hex_digit_lower (c mod 16)]
      else [c])"

definition escape_json_string :: "rstr \<Rightarrow> rstr" where
  "escape_json_string s = concat (map escape_char s)"

section \<open>Printing a float\<close>

text \<open>
  The standard library prints the shortest decimal that is read back as the same \<open>f32\<close>, the nearest
  of them to the value, without an exponent.
\<close>

definition pow10 :: "int \<Rightarrow> rat" where
  "pow10 k = (if 0 \<le> k then 10 ^ nat k else 1 / 10 ^ nat (- k))"

text \<open>The number of digits before the point, for a positive value; below one it is zero or negative.\<close>

definition decimal_exponent :: "rat \<Rightarrow> int" where
  "decimal_exponent x = (case filter (\<lambda>e. x < pow10 e) [- 45..40] of e # _ \<Rightarrow> e | [] \<Rightarrow> 40)"

definition nearest_digits :: "rat \<Rightarrow> int \<Rightarrow> nat \<Rightarrow> nat option" where
  "nearest_digits x e n =
     (let q = pow10 (e - int n); lo = nat \<lfloor>x / q\<rfloor>;
          ok = (\<lambda>k. round_f32 (of_nat k * q) = F32_Fin x) in
      if ok lo \<and> (ok (lo + 1) \<longrightarrow> x - of_nat lo * q \<le> of_nat (lo + 1) * q - x) then Some lo
      else if ok (lo + 1) then Some (lo + 1) else None)"

fun shortest_digits :: "rat \<Rightarrow> int \<Rightarrow> nat list \<Rightarrow> nat \<times> int" where
  "shortest_digits x e [] = (nat \<lfloor>x\<rfloor>, 0)"
| "shortest_digits x e (n # ns) =
     (case nearest_digits x e n of Some k \<Rightarrow> (k, e - int n) | None \<Rightarrow> shortest_digits x e ns)"

fun strip_zeros :: "nat \<Rightarrow> nat \<Rightarrow> nat \<times> nat" where
  "strip_zeros k 0 = (k, 0)"
| "strip_zeros k (Suc m) = (if k mod 10 = 0 then strip_zeros (k div 10) m else (k, Suc m))"

definition show_decimal :: "nat \<times> int \<Rightarrow> rstr" where
  "show_decimal d =
     (let (k, p) = d in
      if 0 \<le> p then show_nat (k * 10 ^ nat p)
      else let (j, m) = strip_zeros k (nat (- p)) in
        if m = 0 then show_nat j
        else show_nat (j div 10 ^ m) @ lit ''.'' @ pad_zero m (show_nat (j mod 10 ^ m)))"

fun show_f32 :: "f32 \<Rightarrow> rstr" where
  "show_f32 F32_NaN = lit ''NaN''"
| "show_f32 (F32_Inf neg) = (if neg then lit ''-inf'' else lit ''inf'')"
| "show_f32 (F32_Fin x) =
     (if x = 0 then lit ''0''
      else (if x < 0 then lit ''-'' else []) @
        show_decimal (shortest_digits \<bar>x\<bar> (decimal_exponent \<bar>x\<bar>) [1..<10]))"

definition show_temperature :: "Temperature \<Rightarrow> rstr" where
  "show_temperature t = show_f32 (temp_value t)"

definition show_bool :: "bool \<Rightarrow> rstr" where
  "show_bool b = (if b then lit ''true'' else lit ''false'')"

section \<open>The specification: reading a flat object\<close>

text \<open>A value is a string or a token (a number, \<open>true\<close>, \<open>false\<close>, \<open>null\<close>), kept as its text.\<close>

datatype json = J_Token rstr | J_String rstr

definition token_char :: "nat \<Rightarrow> bool" where
  "token_char c \<longleftrightarrow> 48 \<le> c \<and> c \<le> 57 \<or> 97 \<le> c \<and> c \<le> 122 \<or> c = 45 \<or> c = 46"

definition hex_value :: "nat \<Rightarrow> nat option" where
  "hex_value c =
     (if 48 \<le> c \<and> c \<le> 57 then Some (c - 48) else if 97 \<le> c \<and> c \<le> 102 then Some (c - 87)
      else if 65 \<le> c \<and> c \<le> 70 then Some (c - 55) else None)"

definition simple_escape :: "nat \<Rightarrow> nat option" where
  "simple_escape c =
     (if c = 34 \<or> c = 92 \<or> c = 47 then Some c else if c = 110 then Some 10 else if c = 114 then Some 13
      else if c = 116 then Some 9 else if c = 98 then Some 8 else if c = 102 then Some 12 else None)"

text \<open>The rest of a string after its opening quote: its value, and what follows the closing quote.\<close>

fun read_string :: "rstr \<Rightarrow> (rstr \<times> rstr) option" where
  "read_string [] = None"
| "read_string (c # cs) =
     (if c = 34 then Some ([], cs)
      else if c \<noteq> 92 then if c < 32 then None else map_option (apfst (Cons c)) (read_string cs)
      else
        (case cs of
           [] \<Rightarrow> None
         | f # rest \<Rightarrow>
             if f = 117 then
               (case rest of
                  a # b # d # e # rest' \<Rightarrow>
                    (case (hex_value a, hex_value b, hex_value d, hex_value e) of
                       (Some w, Some x, Some y, Some z) \<Rightarrow>
                         map_option (apfst (Cons (((w * 16 + x) * 16 + y) * 16 + z))) (read_string rest')
                     | _ \<Rightarrow> None)
                | _ \<Rightarrow> None)
             else
               (case simple_escape f of Some g \<Rightarrow> map_option (apfst (Cons g)) (read_string rest) | None \<Rightarrow> None)))"

definition expect_char :: "nat \<Rightarrow> rstr \<Rightarrow> rstr option" where
  "expect_char c s = (case s of d # rest \<Rightarrow> if d = c then Some rest else None | [] \<Rightarrow> None)"

definition read_value :: "rstr \<Rightarrow> (json \<times> rstr) option" where
  "read_value s =
     (case expect_char 34 s of
        Some cs \<Rightarrow> map_option (apfst J_String) (read_string cs)
      | None \<Rightarrow>
          if takeWhile token_char s = [] then None
          else Some (J_Token (takeWhile token_char s), dropWhile token_char s))"

text \<open>The members after the opening brace; the fuel is the length of the text.\<close>

fun read_members :: "nat \<Rightarrow> rstr \<Rightarrow> ((rstr \<times> json) list \<times> rstr) option" where
  "read_members 0 s = None"
| "read_members (Suc n) s = do {
     cs \<leftarrow> expect_char 34 s;
     (k, r1) \<leftarrow> read_string cs;
     vs \<leftarrow> expect_char 58 r1;
     (v, r2) \<leftarrow> read_value vs;
     case expect_char 44 r2 of
       Some ms \<Rightarrow> map_option (apfst (Cons (k, v))) (read_members n ms)
     | None \<Rightarrow> map_option (Pair [(k, v)]) (expect_char 125 r2)
   }"

definition read_object :: "rstr \<Rightarrow> (rstr \<times> json) list option" where
  "read_object s = do {
     ms \<leftarrow> expect_char 123 s;
     (fs, rest) \<leftarrow> read_members (length s) ms;
     if rest = [] then Some fs else None
   }"

text \<open>The text of an object.\<close>

definition quoted :: "rstr \<Rightarrow> rstr" where
  "quoted s = [34] @ escape_json_string s @ [34]"

fun value_text :: "json \<Rightarrow> rstr" where
  "value_text (J_Token t) = t"
| "value_text (J_String s) = quoted s"

definition member_text :: "rstr \<times> json \<Rightarrow> rstr" where
  "member_text m = quoted (fst m) @ [58] @ value_text (snd m)"

fun join_comma :: "rstr list \<Rightarrow> rstr" where
  "join_comma [] = []"
| "join_comma [s] = s"
| "join_comma (s # t # ss) = s @ [44] @ join_comma (t # ss)"

definition object_text :: "(rstr \<times> json) list \<Rightarrow> rstr" where
  "object_text fs = [123] @ join_comma (map member_text fs) @ [125]"

definition json_ok :: "json \<Rightarrow> bool" where
  "json_ok v = (case v of J_Token t \<Rightarrow> t \<noteq> [] \<and> list_all token_char t | J_String _ \<Rightarrow> True)"

section \<open>Reading what was written\<close>

lemma hex_value_lower: "d < 16 \<Longrightarrow> hex_value (hex_digit_lower d) = Some d"
  by (simp add: hex_value_def hex_digit_lower_def)

lemma read_escape_char:
  "read_string (escape_char c @ rest) = map_option (apfst (Cons c)) (read_string rest)"
proof (cases "c \<in> {92, 34, 10, 13, 9} \<or> 0x1F < c")
  case True
  then show ?thesis by (auto simp: escape_char_def simple_escape_def)
next
  case False
  then have "c < 32" by auto
  then have "c div 16 < 16" "c mod 16 < 16" by linarith+
  then have h: "hex_value (hex_digit_lower (c div 16)) = Some (c div 16)"
    "hex_value (hex_digit_lower (c mod 16)) = Some (c mod 16)" "hex_value 48 = Some 0"
    by (simp_all add: hex_value_lower) (simp add: hex_value_def)
  have "escape_char c = [92, 117, 48, 48, hex_digit_lower (c div 16), hex_digit_lower (c mod 16)]"
    using False by (auto simp: escape_char_def)
  then show ?thesis by (simp add: h)
qed

text \<open>An escaped string ends where it should, and is read as it was.\<close>

lemma read_escaped: "read_string (escape_json_string s @ 34 # rest) = Some (s, rest)"
proof (induction s)
  case (Cons c s)
  have "escape_json_string (c # s) @ 34 # rest = escape_char c @ escape_json_string s @ 34 # rest"
    by (simp add: escape_json_string_def)
  with Cons show ?case by (simp only: read_escape_char) simp
qed (simp add: escape_json_string_def)

lemma read_value_text:
  assumes "json_ok v" and "\<not> token_char c"
  shows "read_value (value_text v @ c # rest) = Some (v, c # rest)"
proof (cases v)
  case (J_Token t)
  with assms obtain d ds where t: "t = d # ds" "list_all token_char t"
    by (cases t) (auto simp: json_ok_def)
  then have "takeWhile token_char (t @ c # rest) = t" "dropWhile token_char (t @ c # rest) = c # rest"
    using assms(2) by (simp_all add: takeWhile_append2 list_all_iff)
  moreover have "d \<noteq> 34" using t by (auto simp: token_char_def)
  ultimately show ?thesis using J_Token t(1) by (simp add: read_value_def expect_char_def)
next
  case (J_String s)
  then show ?thesis by (simp add: read_value_def expect_char_def quoted_def read_escaped)
qed

lemma read_members_text:
  assumes "fs \<noteq> []" and "list_all (\<lambda>(k, v). json_ok v) fs" and "length fs \<le> n"
  shows "read_members n (join_comma (map member_text fs) @ 125 # rest) = Some (fs, rest)"
  using assms
proof (induction fs arbitrary: n)
  case (Cons m fs)
  obtain k v where m: "m = (k, v)" by fastforce
  obtain n' where n: "n = Suc n'" using Cons.prems(3) by (cases n) simp_all
  have ok: "json_ok v" using Cons.prems(2) m by simp
  have comma: "\<not> token_char 44" "\<not> token_char 125" by (simp_all add: token_char_def)
  have member: "read_members (Suc j) (member_text m @ c # r) =
      (case expect_char 44 (c # r) of
         Some ms \<Rightarrow> map_option (apfst (Cons (k, v))) (read_members j ms)
       | None \<Rightarrow> map_option (Pair [(k, v)]) (expect_char 125 (c # r)))" if "\<not> token_char c" for j c r
    using read_escaped [of k "58 # value_text v @ c # r"] read_value_text [OF ok that, of r]
    by (simp add: m member_text_def quoted_def expect_char_def)
  show ?case
  proof (cases fs)
    case Nil
    with member [OF comma(2), of n' rest] m n show ?thesis by (simp add: expect_char_def)
  next
    case (Cons m' fs')
    with Cons.IH [of n'] Cons.prems n have "read_members n' (join_comma (map member_text fs) @ 125 # rest) = Some (fs, rest)"
      by simp
    with member [OF comma(1), of n' "join_comma (map member_text fs) @ 125 # rest"] m n Cons show ?thesis
      by (simp add: expect_char_def)
  qed
qed simp

lemma length_join_comma: "list_all (\<lambda>t. t \<noteq> []) ts \<Longrightarrow> length ts \<le> length (join_comma ts)"
  by (induction ts rule: join_comma.induct) (auto simp: Suc_le_eq neq_Nil_conv)

text \<open>The text of an object is read as that object.\<close>

lemma read_object_text:
  assumes "fs \<noteq> []" and "list_all (\<lambda>(k, v). json_ok v) fs"
  shows "read_object (object_text fs) = Some fs"
proof -
  have "length fs \<le> length (object_text fs)"
    using length_join_comma [of "map member_text fs"]
    by (simp add: object_text_def member_text_def quoted_def list_all_iff)
  with read_members_text [OF assms, of "length (object_text fs)" "[]"] show ?thesis
    by (simp add: read_object_def object_text_def expect_char_def del: read_members.simps)
qed

section \<open>Tokens\<close>

lemma show_nat_token [simp]: "list_all token_char (show_nat n)"
  using show_nat_digits by (auto simp: list_all_iff token_char_def)

lemma show_bool_token [simp]: "show_bool b \<noteq> []" "list_all token_char (show_bool b)"
  by (simp_all add: show_bool_def lit_def token_char_def)

lemma show_f32_token: "list_all token_char (show_f32 (F32_Fin x))" "show_f32 (F32_Fin x) \<noteq> []"
  by (auto simp: show_decimal_def Let_def split_def pad_zero_def lit_def token_char_def)
    (use show_nat_digits in \<open>auto simp: list_all_iff token_char_def\<close>)

end
