(* ===== verification/MqttState.thy ===== *)
theory MqttState
  imports Json Status
begin

text \<open>
  What the firmware publishes: the topics (\<open>crates/launa-mqtt/src/topics.rs\<close>), the state
  (\<open>state.rs\<close>), when it has changed (\<open>state_change.rs\<close>) and log entries (\<open>remote_log.rs\<close>). The
  texts are read back with the reader of theory \<open>Json\<close>.
\<close>

section \<open>Topics\<close>

definition BASE_TOPIC :: rstr where "BASE_TOPIC = lit ''launa''"
definition AVAILABILITY_ONLINE :: rstr where "AVAILABILITY_ONLINE = lit ''online''"
definition AVAILABILITY_OFFLINE :: rstr where "AVAILABILITY_OFFLINE = lit ''offline''"

record TopicBuilder =
  tb_device_id :: rstr

definition topic_builder_new :: "rstr \<Rightarrow> TopicBuilder" where
  "topic_builder_new device_id = \<lparr>tb_device_id = device_id\<rparr>"

definition device_topic :: "TopicBuilder \<Rightarrow> string \<Rightarrow> rstr" where
  "device_topic b leaf = BASE_TOPIC @ lit ''/'' @ tb_device_id b @ lit ''/'' @ lit leaf"

definition state_topic :: "TopicBuilder \<Rightarrow> rstr" where "state_topic b = device_topic b ''state''"
definition command_topic :: "TopicBuilder \<Rightarrow> rstr" where "command_topic b = device_topic b ''command''"
definition availability_topic :: "TopicBuilder \<Rightarrow> rstr" where "availability_topic b = device_topic b ''availability''"
definition boot_topic :: "TopicBuilder \<Rightarrow> rstr" where "boot_topic b = device_topic b ''boot''"
definition ota_topic :: "TopicBuilder \<Rightarrow> rstr" where "ota_topic b = device_topic b ''ota''"
definition sniff_topic :: "TopicBuilder \<Rightarrow> rstr" where "sniff_topic b = device_topic b ''sniff''"
definition diagnostics_topic :: "TopicBuilder \<Rightarrow> rstr" where "diagnostics_topic b = device_topic b ''diagnostics''"
definition alert_topic :: "TopicBuilder \<Rightarrow> rstr" where "alert_topic b = device_topic b ''alert''"
definition log_topic :: "TopicBuilder \<Rightarrow> rstr" where "log_topic b = device_topic b ''log''"
definition ha_status_topic :: "TopicBuilder \<Rightarrow> rstr" where "ha_status_topic b = lit ''homeassistant/status''"

definition discovery_topic :: "TopicBuilder \<Rightarrow> rstr \<Rightarrow> rstr \<Rightarrow> rstr" where
  "discovery_topic b component object_id =
     lit ''homeassistant/'' @ component @ lit ''/'' @ tb_device_id b @ lit ''/'' @ object_id @ lit ''/config''"

record LwtConfig =
  lwt_topic :: rstr
  lwt_payload :: rstr
  lwt_qos :: u8
  lwt_retain :: bool

definition lwt_config :: "rstr \<Rightarrow> LwtConfig" where
  "lwt_config device_id =
     \<lparr>lwt_topic = availability_topic (topic_builder_new device_id), lwt_payload = AVAILABILITY_OFFLINE,
      lwt_qos = 1, lwt_retain = True\<rparr>"

record BirthConfig =
  birth_topic :: rstr
  birth_payload :: rstr
  birth_qos :: u8
  birth_retain :: bool

definition birth_config :: "rstr \<Rightarrow> BirthConfig" where
  "birth_config device_id =
     \<lparr>birth_topic = availability_topic (topic_builder_new device_id), birth_payload = AVAILABILITY_ONLINE,
      birth_qos = 1, birth_retain = True\<rparr>"

section \<open>The state\<close>

definition show_i32 :: "32 word \<Rightarrow> rstr" where
  "show_i32 w = (if sint w < 0 then lit ''-'' else []) @ show_nat (nat \<bar>sint w\<bar>)"

definition show_u8 :: "u8 \<Rightarrow> rstr" where "show_u8 b = show_nat (unat b)"

definition pump_part :: "nat \<Rightarrow> PumpState \<Rightarrow> rstr" where
  "pump_part i p =
     lit ''\"pump'' @ show_nat (i + 1) @ lit ''_on\":'' @
     (if p = Pump_Low \<or> p = Pump_High then lit ''true'' else lit ''false'')"

definition light_part :: "nat \<Rightarrow> bool \<Rightarrow> rstr" where
  "light_part i on = lit ''\"light'' @ show_nat (i + 1) @ lit ''\":'' @ show_bool on"

definition heating_mode_text :: "HeatingMode \<Rightarrow> rstr" where
  "heating_mode_text m = (case m of Mode_Ready \<Rightarrow> lit ''ready'' | Mode_Rest \<Rightarrow> lit ''rest''
     | Mode_ReadyInRest \<Rightarrow> lit ''ready_in_rest'')"

definition temp_range_text :: "TempRange \<Rightarrow> rstr" where
  "temp_range_text r = (case r of Range_High \<Rightarrow> lit ''high'' | Range_Low \<Rightarrow> lit ''low'')"

definition temp_scale_text :: "TemperatureScale \<Rightarrow> rstr" where
  "temp_scale_text s = (case s of Fahrenheit \<Rightarrow> lit ''fahrenheit'' | Celsius \<Rightarrow> lit ''celsius'')"

definition time_format_text :: "TimeFormat \<Rightarrow> rstr" where
  "time_format_text t = (case t of Hour12 \<Rightarrow> lit ''12h'' | Hour24 \<Rightarrow> lit ''24h'')"

definition opt_quoted :: "rstr option \<Rightarrow> rstr" where
  "opt_quoted s = (case s of Some v \<Rightarrow> lit ''\"'' @ escape_json_string v @ lit ''\"'' | None \<Rightarrow> lit ''null'')"

definition status_to_json ::
  "StatusUpdate \<Rightarrow> rstr option \<Rightarrow> rstr option \<Rightarrow> bool \<Rightarrow> 32 word option \<Rightarrow> rstr \<Rightarrow> rstr" where
  "status_to_json status last_fault firmware_version sniff_mode wifi_rssi registration_state =
     (let current = (case current_temp status of Some t \<Rightarrow> show_temperature t | None \<Rightarrow> lit ''null'');
          pump_fields = join_comma (map2 pump_part [0..<length (pumps status)] (pumps status));
          light_fields = join_comma (map2 light_part [0..<length (lights status)] (lights status));
          device_fields = join_comma [pump_fields, light_fields]
      in lit ''{\"current_temp\":'' @ current @
         lit '',\"set_temp\":'' @ show_temperature (set_temp status) @
         lit '',\"is_heating\":'' @ show_bool (is_heating status) @ lit '','' @ device_fields @
         lit '',\"blower\":'' @ show_bool (blower status) @
         lit '',\"circ_pump\":'' @ show_bool (circ_pump status) @
         lit '',\"mister\":'' @ show_bool (mister status) @
         lit '',\"hold_mode\":'' @ show_bool (is_hold status) @
         lit '',\"heating_mode\":\"'' @ heating_mode_text (heating_mode status) @
         lit ''\",\"temp_range\":\"'' @ temp_range_text (temp_range status) @
         lit ''\",\"temp_scale\":\"'' @ temp_scale_text (temperature_scale status) @
         lit ''\",\"time_format\":\"'' @ time_format_text (time_format status) @
         lit ''\",\"hour\":'' @ show_u8 (st_hour status) @
         lit '',\"minute\":'' @ show_u8 (st_minute status) @
         lit '',\"notification_type\":'' @ show_u8 (notification_type status) @
         lit '',\"panel_locked\":'' @ show_bool (panel_locked status) @
         lit '',\"settings_lock\":'' @ show_bool (settings_lock status) @
         lit '',\"m8_cycle_time\":'' @ show_u8 (m8_cycle_time status) @
         lit '',\"last_fault\":'' @ opt_quoted last_fault @
         lit '',\"firmware_version\":'' @ opt_quoted firmware_version @
         lit '',\"sniff_mode\":'' @ show_bool sniff_mode @
         lit '',\"wifi_rssi\":'' @ (case wifi_rssi of None \<Rightarrow> lit ''null'' | Some r \<Rightarrow> show_i32 r) @
         lit '',\"registration_state\":\"'' @ registration_state @ lit ''\"}'')"

section \<open>Change detection\<close>

definition opt_temp_eq :: "Temperature option \<Rightarrow> Temperature option \<Rightarrow> bool" where
  "opt_temp_eq a b = (case (a, b) of (Some s, Some t) \<Rightarrow> temp_eq s t | (None, None) \<Rightarrow> True | _ \<Rightarrow> False)"

definition status_fields_differ :: "StatusUpdate \<Rightarrow> StatusUpdate \<Rightarrow> bool" where
  "status_fields_differ prev current \<longleftrightarrow>
     \<not> opt_temp_eq (current_temp prev) (current_temp current) \<or>
     \<not> temp_eq (set_temp prev) (set_temp current) \<or>
     is_heating prev \<noteq> is_heating current \<or>
     pumps prev \<noteq> pumps current \<or>
     lights prev \<noteq> lights current \<or>
     blower prev \<noteq> blower current \<or>
     circ_pump prev \<noteq> circ_pump current \<or>
     mister prev \<noteq> mister current \<or>
     is_hold prev \<noteq> is_hold current \<or>
     heating_mode prev \<noteq> heating_mode current \<or>
     temp_range prev \<noteq> temp_range current \<or>
     hold_timer_minutes prev \<noteq> hold_timer_minutes current \<or>
     temperature_scale prev \<noteq> temperature_scale current \<or>
     time_format prev \<noteq> time_format current \<or>
     notification_type prev \<noteq> notification_type current \<or>
     panel_locked prev \<noteq> panel_locked current \<or>
     settings_lock prev \<noteq> settings_lock current \<or>
     m8_cycle_time prev \<noteq> m8_cycle_time current"

definition status_changed :: "StatusUpdate option \<Rightarrow> StatusUpdate \<Rightarrow> bool" where
  "status_changed prev current = (case prev of None \<Rightarrow> True | Some p \<Rightarrow> status_fields_differ p current)"

section \<open>Log entries\<close>

record RemoteLogEntry =
  rl_level :: rstr
  rl_message :: rstr
  rl_timestamp_ms :: u64

definition log_entry_to_json :: "RemoteLogEntry \<Rightarrow> rstr" where
  "log_entry_to_json e =
     lit ''{\"level\":\"'' @ rl_level e @ lit ''\",\"message\":\"'' @ escape_json_string (rl_message e) @
     lit ''\",\"ts\":'' @ show_nat (unat (rl_timestamp_ms e)) @ lit ''}''"

section \<open>The object that a state stands for\<close>

definition plain :: "rstr \<Rightarrow> bool" where
  "plain s \<longleftrightarrow> list_all (\<lambda>c. 32 \<le> c \<and> c \<noteq> 34 \<and> c \<noteq> 92) s"

lemma escape_plain: "plain s \<Longrightarrow> escape_json_string s = s"
  by (induction s) (auto simp: plain_def escape_json_string_def escape_char_def)

lemma plain_append [simp]: "plain (s @ t) \<longleftrightarrow> plain s \<and> plain t"
  by (simp add: plain_def)

lemma plain_show_nat [simp]: "plain (show_nat n)"
  by (fastforce simp: plain_def list_all_iff dest: show_nat_digits)

definition token :: "rstr \<Rightarrow> json" where "token = J_Token"

definition opt_json :: "rstr option \<Rightarrow> json" where
  "opt_json s = (case s of Some v \<Rightarrow> J_String v | None \<Rightarrow> J_Token (lit ''null''))"

definition pump_member :: "nat \<Rightarrow> PumpState \<Rightarrow> rstr \<times> json" where
  "pump_member i p = (lit ''pump'' @ show_nat (i + 1) @ lit ''_on'', J_Token (show_bool (p \<noteq> Pump_Off)))"

definition light_member :: "nat \<Rightarrow> bool \<Rightarrow> rstr \<times> json" where
  "light_member i on = (lit ''light'' @ show_nat (i + 1), J_Token (show_bool on))"

definition state_members ::
  "StatusUpdate \<Rightarrow> rstr option \<Rightarrow> rstr option \<Rightarrow> bool \<Rightarrow> 32 word option \<Rightarrow> rstr \<Rightarrow> (rstr \<times> json) list" where
  "state_members status last_fault firmware_version sniff_mode wifi_rssi registration_state =
     [(lit ''current_temp'', J_Token (case current_temp status of Some t \<Rightarrow> show_temperature t | None \<Rightarrow> lit ''null'')),
      (lit ''set_temp'', J_Token (show_temperature (set_temp status))),
      (lit ''is_heating'', J_Token (show_bool (is_heating status)))] @
     map2 pump_member [0..<length (pumps status)] (pumps status) @
     map2 light_member [0..<length (lights status)] (lights status) @
     [(lit ''blower'', J_Token (show_bool (blower status))),
      (lit ''circ_pump'', J_Token (show_bool (circ_pump status))),
      (lit ''mister'', J_Token (show_bool (mister status))),
      (lit ''hold_mode'', J_Token (show_bool (is_hold status))),
      (lit ''heating_mode'', J_String (heating_mode_text (heating_mode status))),
      (lit ''temp_range'', J_String (temp_range_text (temp_range status))),
      (lit ''temp_scale'', J_String (temp_scale_text (temperature_scale status))),
      (lit ''time_format'', J_String (time_format_text (time_format status))),
      (lit ''hour'', J_Token (show_u8 (st_hour status))),
      (lit ''minute'', J_Token (show_u8 (st_minute status))),
      (lit ''notification_type'', J_Token (show_u8 (notification_type status))),
      (lit ''panel_locked'', J_Token (show_bool (panel_locked status))),
      (lit ''settings_lock'', J_Token (show_bool (settings_lock status))),
      (lit ''m8_cycle_time'', J_Token (show_u8 (m8_cycle_time status))),
      (lit ''last_fault'', opt_json last_fault),
      (lit ''firmware_version'', opt_json firmware_version),
      (lit ''sniff_mode'', J_Token (show_bool sniff_mode)),
      (lit ''wifi_rssi'', J_Token (case wifi_rssi of None \<Rightarrow> lit ''null'' | Some r \<Rightarrow> show_i32 r)),
      (lit ''registration_state'', J_String registration_state)]"

lemma join_comma_append:
  "xs \<noteq> [] \<Longrightarrow> ys \<noteq> [] \<Longrightarrow> join_comma (xs @ ys) = join_comma xs @ [44] @ join_comma ys"
proof (induction xs rule: join_comma.induct)
  case (2 s)
  then show ?case by (cases ys) simp_all
qed simp_all

lemma join_comma_Cons: "ys \<noteq> [] \<Longrightarrow> join_comma (x # ys) = x @ [44] @ join_comma ys"
  by (cases ys) simp_all

lemma pump_member_text: "member_text (pump_member i p) = pump_part i p"
proof -
  have "plain (lit ''pump'')" "plain (lit ''_on'')" by (simp_all add: plain_def lit_def)
  then show ?thesis
    by (cases p) (simp_all add: member_text_def pump_member_def pump_part_def quoted_def escape_plain show_bool_def,
      simp_all add: lit_def)
qed

lemma light_member_text: "member_text (light_member i b) = light_part i b"
proof -
  have "plain (lit ''light'')" by (simp add: plain_def lit_def)
  then show ?thesis
    by (simp add: member_text_def light_member_def light_part_def quoted_def escape_plain)
      (simp add: lit_def)
qed

lemma map2_member_text:
  "map member_text (map2 pump_member is ps) = map2 pump_part is ps"
  "map member_text (map2 light_member is ls) = map2 light_part is ls"
  by (simp_all add: pump_member_text light_member_text split_def)

lemma plain_texts [simp]:
  "plain (heating_mode_text m)" "plain (temp_range_text r)" "plain (temp_scale_text c)" "plain (time_format_text f)"
  by (auto simp: heating_mode_text_def temp_range_text_def temp_scale_text_def time_format_text_def plain_def lit_def
      split: HeatingMode.splits TempRange.splits TemperatureScale.splits TimeFormat.splits)

lemma quoted_lit: "plain (lit s) \<Longrightarrow> quoted (lit s) = 34 # lit s @ [34]"
  by (simp add: quoted_def escape_plain)

lemma opt_json_text: "value_text (opt_json v) = opt_quoted v"
  by (simp add: opt_json_def opt_quoted_def quoted_def lit_def split: option.splits)

lemma member_lit: "plain (lit k) \<Longrightarrow> member_text (lit k, v) = 34 # lit k @ 34 # 58 # value_text v"
  by (simp add: member_text_def quoted_lit)

lemma status_to_json_object:
  assumes "pumps s \<noteq> []" and "lights s \<noteq> []" and "plain rs"
  shows "status_to_json s f v b r rs = object_text (state_members s f v b r rs)"
proof -
  let ?ps = "map2 pump_part [0..<length (pumps s)] (pumps s)"
  let ?ls = "map2 light_part [0..<length (lights s)] (lights s)"
  have ne: "?ps \<noteq> []" "?ls \<noteq> []" using assms(1,2) by (auto simp: zip_eq_Nil_iff)
  have str: "value_text (J_String t) = 34 # t @ [34]" if "plain t" for t
    using that by (simp add: quoted_def escape_plain)
  have keys: "plain (lit k)" if "list_all (\<lambda>c. 32 \<le> (of_char c :: nat) \<and> of_char c \<noteq> (34 :: nat) \<and> of_char c \<noteq> (92 :: nat)) k" for k
    using that by (simp add: plain_def lit_def list_all_iff)
  show ?thesis
    unfolding object_text_def state_members_def map_append map2_member_text
    using ne assms(3)
    by (simp add: join_comma_append join_comma_Cons member_lit keys str opt_json_text status_to_json_def Let_def
        del: value_text.simps(2)) (simp add: lit_def)
qed

section \<open>Rounding\<close>

lemma round_half_even_error: "\<bar>of_int (round_half_even x) - x\<bar> \<le> 1 / 2"
proof -
  have "of_int \<lfloor>x\<rfloor> \<le> x" "x < of_int \<lfloor>x\<rfloor> + 1" using floor_correct [of x] by simp_all
  then show ?thesis by (auto simp: round_half_even_def Let_def abs_le_iff not_less)
qed

text \<open>The rounding error of a value below 2048.\<close>

lemma round_f32_error:
  assumes "0 < x" and "x < 2048"
  obtains y where "round_f32 x = F32_Fin y" and "\<bar>y - x\<bar> \<le> 1 / 4096"
proof -
  define e where "e = max (ilog2 x - 23) (- 149)"
  define m where "m = round_half_even (x / pow2 e)"
  have "ilog2 x < 11"
    using pow2_ilog2_le [OF assms(1)] assms(2) by (intro pow2_less_iff) (simp add: pow2_def)
  then have "pow2 e \<le> pow2 (- 12)" by (intro pow2_mono) (simp add: e_def)
  then have e: "pow2 e \<le> 1 / 4096" by (simp add: pow2_def)
  have "of_int m * pow2 e - x = (of_int m - x / pow2 e) * pow2 e"
    using pow2_pos [of e, THEN less_imp_neq] by (simp add: field_simps)
  then have "\<bar>of_int m * pow2 e - x\<bar> = \<bar>of_int m - x / pow2 e\<bar> * pow2 e"
    by (simp add: abs_mult abs_of_pos)
  also have "\<dots> \<le> 1 / 2 * pow2 e"
    using round_half_even_error [of "x / pow2 e"] by (intro mult_right_mono) (simp_all add: m_def less_imp_le)
  also have "\<dots> \<le> 1 / 4096" using e by linarith
  finally have close: "\<bar>of_int m * pow2 e - x\<bar> \<le> 1 / 4096" .
  then have "\<bar>of_int m * pow2 e\<bar> < 4096" using assms by linarith
  then have "\<bar>of_int m * pow2 e\<bar> < 2 ^ 128" by simp
  then have "round_f32 x = F32_Fin (of_int m * pow2 e)"
    using assms(1) by (simp add: round_f32_def Let_def e_def [symmetric] m_def [symmetric])
  with close that show ?thesis by blast
qed

lemma celsius_fahrenheit:
  obtains y where "temp_to_fahrenheit (temp_from_wire b Celsius) = F32_Fin y"
    and "\<bar>y - (of_nat (unat b) * 9 / 10 + 32)\<bar> \<le> 1 / 2048"
proof -
  define x :: rat where "x = of_nat (unat b) * 9 / 10"
  have "(of_nat (unat b) :: rat) \<le> 255" using unat_u8_le [of b] by (metis of_nat_le_iff of_nat_numeral)
  then have x: "0 \<le> x" "x \<le> 1000" by (simp_all add: x_def del: of_nat_unat)
  have mul: "round_f32 (of_nat (unat b) * 9 / 2) = F32_Fin (of_nat (unat b) * 9 / 2)"
    using round_f32_of_nat_half [of "unat b * 9"] unat_u8_le [of b] by simp
  obtain y where y: "round_f32 x = F32_Fin y" "\<bar>y - x\<bar> \<le> 1 / 4096"
  proof (cases "x = 0")
    case True
    then show ?thesis using that [of 0] by (simp add: round_f32_def)
  next
    case False
    with x have "0 < x" "x < 2048" by simp_all
    then show ?thesis by (rule round_f32_error) (rule that)
  qed
  have "0 < y + 32" "y + 32 < 2048" using y(2) x by linarith+
  then obtain z where z: "round_f32 (y + 32) = F32_Fin z" "\<bar>z - (y + 32)\<bar> \<le> 1 / 4096"
    by (rule round_f32_error)
  have "temp_to_fahrenheit (temp_from_wire b Celsius) = F32_Fin z"
    using y(1) z(1) by (simp add: temp_to_fahrenheit_def temp_from_wire_value mul x_def del: of_nat_unat)
  moreover have "\<bar>z - (x + 32)\<bar> \<le> 1 / 2048" using y(2) z(2) by linarith
  ultimately show ?thesis using that by (simp add: x_def)
qed

text \<open>Within a scale, equality of temperatures is equality of the bytes they came from.\<close>

lemma temp_eq_wire [simp]: "temp_eq (temp_from_wire a sc) (temp_from_wire b sc) \<longleftrightarrow> a = b"
proof (cases sc)
  case Fahrenheit
  then show ?thesis
    by (auto simp: temp_eq_def temp_to_fahrenheit_def temp_from_wire_value word_unat_eq_iff simp del: of_nat_unat)
next
  case Celsius
  obtain y where y: "temp_to_fahrenheit (temp_from_wire a Celsius) = F32_Fin y"
      "\<bar>y - (of_nat (unat a) * 9 / 10 + 32)\<bar> \<le> 1 / 2048" by (rule celsius_fahrenheit)
  obtain z where z: "temp_to_fahrenheit (temp_from_wire b Celsius) = F32_Fin z"
      "\<bar>z - (of_nat (unat b) * 9 / 10 + 32)\<bar> \<le> 1 / 2048" by (rule celsius_fahrenheit)
  have "a = b" if "y = z"
  proof -
    have "\<bar>of_nat (unat a) - of_nat (unat b) :: rat\<bar> < 1" using y(2) z(2) that by linarith
    then have "\<bar>of_int (int (unat a) - int (unat b)) :: rat\<bar> < 1" by simp
    then have "int (unat a) = int (unat b)" by linarith
    then show ?thesis by (simp only: of_nat_eq_iff word_unat_eq_iff)
  qed
  moreover have "y = z" if "a = b" using y(1) z(1) that by simp
  ultimately show ?thesis using Celsius y(1) z(1) by (auto simp: temp_eq_def)
qed

section \<open>Parsed statuses\<close>

lemma parsed_temps:
  assumes "status_parse p = Inr s"
  shows "set_temp s = temp_from_wire (p ! 20) (temperature_scale s)"
    and "current_temp s = (if p ! 2 = 0xFF then None else Some (temp_from_wire (p ! 2) (temperature_scale s)))"
proof -
  have "24 \<le> length p" and s: "s = projr (status_parse p)"
    using assms by (simp_all add: status_parse_Inr_iff [of p s])
  then show "set_temp s = temp_from_wire (p ! 20) (temperature_scale s)"
    and "current_temp s = (if p ! 2 = 0xFF then None else Some (temp_from_wire (p ! 2) (temperature_scale s)))"
    unfolding s status_parse_def Let_def by (simp_all add: split_def)
qed

lemma temp_eq_parsed:
  assumes "status_parse p = Inr s" and "status_parse q = Inr t" and "temperature_scale s = temperature_scale t"
  shows "temp_eq (set_temp s) (set_temp t) \<longleftrightarrow> set_temp s = set_temp t"
    and "opt_temp_eq (current_temp s) (current_temp t) \<longleftrightarrow> current_temp s = current_temp t"
proof -
  have inj: "temp_from_wire a sc = temp_from_wire b sc \<longleftrightarrow> a = b" for a b sc
    using temp_eq_wire [of a sc b] temp_eq_wire [of a sc a] by metis
  show "temp_eq (set_temp s) (set_temp t) \<longleftrightarrow> set_temp s = set_temp t"
    and "opt_temp_eq (current_temp s) (current_temp t) \<longleftrightarrow> current_temp s = current_temp t"
    using assms(3) by (simp_all add: parsed_temps [OF assms(1)] parsed_temps [OF assms(2)] opt_temp_eq_def inj)
qed

text \<open>What the change detection looks at.\<close>

definition compared :: "StatusUpdate \<Rightarrow> StatusUpdate" where
  "compared s = s\<lparr>st_hour := 0, st_minute := 0, filter_mode := 0, is_priming := False,
     sensor_a_temp := None, sensor_b_temp := None\<rparr>"

lemma compared_eq:
  "compared s = compared t \<longleftrightarrow>
     current_temp s = current_temp t \<and> set_temp s = set_temp t \<and> is_heating s = is_heating t \<and> pumps s = pumps t \<and>
     lights s = lights t \<and> blower s = blower t \<and> circ_pump s = circ_pump t \<and> mister s = mister t \<and> is_hold s = is_hold t \<and>
     heating_mode s = heating_mode t \<and> temp_range s = temp_range t \<and> hold_timer_minutes s = hold_timer_minutes t \<and>
     temperature_scale s = temperature_scale t \<and> time_format s = time_format t \<and> notification_type s = notification_type t \<and>
     panel_locked s = panel_locked t \<and> settings_lock s = settings_lock t \<and> m8_cycle_time s = m8_cycle_time t"
  (is "?l \<longleftrightarrow> ?r")
proof
  assume l: ?l
  show ?r using arg_cong [OF l, of current_temp] arg_cong [OF l, of set_temp] arg_cong [OF l, of is_heating] arg_cong [OF l, of pumps]
    arg_cong [OF l, of lights] arg_cong [OF l, of blower] arg_cong [OF l, of circ_pump] arg_cong [OF l, of mister] arg_cong [OF l, of is_hold]
    arg_cong [OF l, of heating_mode] arg_cong [OF l, of temp_range] arg_cong [OF l, of hold_timer_minutes]
    arg_cong [OF l, of temperature_scale] arg_cong [OF l, of time_format] arg_cong [OF l, of notification_type]
    arg_cong [OF l, of panel_locked] arg_cong [OF l, of settings_lock] arg_cong [OF l, of m8_cycle_time]
    by (simp add: compared_def)
next
  assume ?r
  then show ?l by (intro StatusUpdate.equality) (simp_all add: compared_def)
qed

lemma fields_differ_compared:
  assumes "status_parse p = Inr s" and "status_parse q = Inr t"
  shows "status_fields_differ s t \<longleftrightarrow> compared s \<noteq> compared t"
proof (cases "temperature_scale s = temperature_scale t")
  case True
  note eqs = temp_eq_parsed [OF assms True]
  show ?thesis unfolding status_fields_differ_def eqs compared_eq by blast
next
  case False
  then show ?thesis unfolding status_fields_differ_def compared_eq by blast
qed

text \<open>The members of the published state are well formed, so the state is read back.\<close>

lemma show_temperature_token:
  "status_parse p = Inr s \<Longrightarrow> json_ok (J_Token (show_temperature (set_temp s)))"
  "status_parse p = Inr s \<Longrightarrow>
     json_ok (J_Token (case current_temp s of Some t \<Rightarrow> show_temperature t | None \<Rightarrow> lit ''null''))"
  by (simp_all add: parsed_temps [of p s] show_temperature_def temp_from_wire_value json_ok_def show_f32_token
      del: show_f32.simps) (simp add: lit_def token_char_def)

lemma show_u8_token [simp]: "json_ok (J_Token (show_u8 b))"
  by (simp add: json_ok_def show_u8_def)

lemma show_bool_ok [simp]: "json_ok (J_Token (show_bool b))"
  by (simp add: json_ok_def)

lemma show_i32_token [simp]: "json_ok (J_Token (case r of None \<Rightarrow> lit ''null'' | Some w \<Rightarrow> show_i32 w))"
  by (simp add: json_ok_def show_i32_def lit_def token_char_def split: option.split)

lemma opt_json_ok [simp]: "json_ok (opt_json v)" "json_ok (J_String t)"
  by (simp_all add: opt_json_def json_ok_def lit_def token_char_def split: option.split)

lemma device_members_ok [simp]:
  "list_all (\<lambda>(k, v). json_ok v) (map2 pump_member is ps)"
  "list_all (\<lambda>(k, v). json_ok v) (map2 light_member is ls)"
  by (auto simp: list_all_iff pump_member_def light_member_def)

lemma read_status_to_json:
  assumes "status_parse p = Inr s" and "plain rs"
  shows "read_object (status_to_json s f v b r rs) = Some (state_members s f v b r rs)"
proof -
  have "pumps s \<noteq> []" "lights s \<noteq> []" using status_parse_wf [OF assms(1)] by (auto simp: status_wf_def)
  from status_to_json_object [OF this assms(2)]
  have as_text: "status_to_json s f v b r rs = object_text (state_members s f v b r rs)" .
  have "list_all (\<lambda>(k, v). json_ok v) (state_members s f v b r rs)"
    by (simp add: state_members_def show_temperature_token [OF assms(1)])
  then show ?thesis unfolding as_text by (intro read_object_text) (simp_all add: state_members_def)
qed

lemma show_u8_inject: "show_u8 a = show_u8 b \<longleftrightarrow> a = b"
  unfolding show_u8_def word_unat_eq_iff by (metis digits_value_show_nat)

section \<open>Properties\<close>



text \<open>
  The change detection is exact. A new status counts as changed exactly when it differs
  from the last one in some field other than the clock, the filter mode, priming and the sensor
  readings; rounding hides no change of a temperature, in either scale.
\<close>

theorem state_change_exact:
  assumes "status_parse p = Inr s" and "status_parse q = Inr t"
  shows "status_changed (Some s) t \<longleftrightarrow> compared s \<noteq> compared t"
  using fields_differ_compared [OF assms] by (simp add: status_changed_def)

theorem state_change_exact_witness:
  "status_changed (Some (projr (status_parse (replicate 24 0)))) (projr (status_parse (replicate 24 1))) \<longleftrightarrow>
     compared (projr (status_parse (replicate 24 0))) \<noteq> compared (projr (status_parse (replicate 24 1)))"
  by (rule state_change_exact [of "replicate 24 0" _ "replicate 24 1"])
    (simp_all add: status_parse_Inr_iff [of "replicate 24 0"] status_parse_Inr_iff [of "replicate 24 1"])

text \<open>
  A status that counts as unchanged has the same published state but for the clock, which
  is published and not compared: the texts differ exactly when the hour or the minute does, and the
  state topic then keeps the old time.
\<close>

theorem unchanged_state_misses_clock:
  assumes "status_parse p = Inr s" and "status_parse q = Inr t" and "\<not> status_changed (Some s) t"
    and "plain registration_state"
  shows "status_to_json s fault version sniff rssi registration_state =
      status_to_json t fault version sniff rssi registration_state \<longleftrightarrow>
    st_hour s = st_hour t \<and> st_minute s = st_minute t"
proof
  have same: "compared s = compared t"
    using assms(3) fields_differ_compared [OF assms(1,2)] by (simp add: status_changed_def)
  let ?json = "\<lambda>u. status_to_json u fault version sniff rssi registration_state"
  {
    assume "?json s = ?json t"
    then have "state_members s fault version sniff rssi registration_state =
        state_members t fault version sniff rssi registration_state"
      using read_status_to_json [OF assms(1,4)] read_status_to_json [OF assms(2,4)]
      by (metis option.inject)
    moreover have "length (pumps s) = length (pumps t)" "length (lights s) = length (lights t)"
      using status_parse_wf [OF assms(1)] status_parse_wf [OF assms(2)] by (simp_all add: status_wf_def)
    ultimately show "st_hour s = st_hour t \<and> st_minute s = st_minute t"
      by (simp add: state_members_def show_u8_inject)
  }
  assume "st_hour s = st_hour t \<and> st_minute s = st_minute t"
  with same show "?json s = ?json t"
    by (cases s; cases t) (simp add: compared_def status_to_json_def)
qed

theorem unchanged_state_misses_clock_witness:
  "\<not> (status_to_json (projr (status_parse (replicate 24 0))) None None False None [] =
      status_to_json (projr (status_parse ((replicate 24 0)[3 := 7]))) None None False None [])"
proof -
  have parsed: "status_parse (replicate 24 0) = Inr (projr (status_parse (replicate 24 0)))"
    "status_parse ((replicate 24 0)[3 := 7]) = Inr (projr (status_parse ((replicate 24 0)[3 := 7])))"
    by (simp_all add: status_parse_Inr_iff [of "replicate 24 0"] status_parse_Inr_iff [of "(replicate 24 0)[3 := 7]"])
  have "\<not> status_changed (Some (projr (status_parse (replicate 24 0)))) (projr (status_parse ((replicate 24 0)[3 := 7])))"
    unfolding status_changed_def option.case fields_differ_compared [OF parsed] by code_simp
  moreover have "st_hour (projr (status_parse (replicate 24 0))) \<noteq> st_hour (projr (status_parse ((replicate 24 0)[3 := 7])))"
    by code_simp
  ultimately show ?thesis
    using unchanged_state_misses_clock [OF parsed, of "[]" None None False None] by (simp add: plain_def)
qed

end
