(* ===== verification/Hex.thy ===== *)
theory Hex
  imports Strings Interfaces
begin

text \<open>
  The hexadecimal helpers of \<open>crates/launa-protocol/src/hex.rs\<close>. Reading what was written gives the
  bytes back, for as many as the length limit allows.
\<close>

unbundle bit_operations_syntax

definition HEX_CHARS :: rstr where "HEX_CHARS = lit ''0123456789abcdef''"

definition to_hex :: "u8 list \<Rightarrow> rstr" where
  "to_hex bytes = concat (map (\<lambda>b. [HEX_CHARS ! unat (drop_bit 4 b), HEX_CHARS ! unat (b AND 0x0F)]) bytes)"

definition MAX_HEX_LEN :: nat where "MAX_HEX_LEN = 1024"

definition ascii_lower :: "u8 \<Rightarrow> u8" where
  "ascii_lower b = (if 65 \<le> b \<and> b \<le> 90 then b + 32 else b)"

definition decode_nibble :: "u8 \<Rightarrow> u8 option" where
  "decode_nibble byte =
     (let l = ascii_lower byte in
      if 48 \<le> l \<and> l \<le> 57 then Some (byte - 48)
      else if 97 \<le> l \<and> l \<le> 102 then Some (ascii_lower byte - 97 + 10)
      else None)"

fun decode_pairs :: "u8 list \<Rightarrow> u8 list option" where
  "decode_pairs (h # l # rest) =
     (case (decode_nibble h, decode_nibble l) of
        (Some hi, Some lo) \<Rightarrow> map_option (Cons (push_bit 4 hi OR lo)) (decode_pairs rest)
      | _ \<Rightarrow> None)"
| "decode_pairs _ = Some []"

definition from_hex :: "rstr \<Rightarrow> u8 list option" where
  "from_hex s =
     (let bytes = as_bytes s in
      if length bytes mod 2 \<noteq> 0 \<or> MAX_HEX_LEN < length bytes then None else decode_pairs bytes)"

lemma nibble_less:
  fixes b :: u8 shows "unat (drop_bit 4 b) < 16" and "unat (b AND 0x0F) < 16"
proof -
  show "unat (drop_bit 4 b) < 16" using unat_u8_less [of b] by (simp add: drop_bit_eq_div unat_div)
  have "b AND 0x0F = take_bit 4 b" by (simp add: take_bit_eq_mask mask_eq_exp_minus_1)
  then show "unat (b AND 0x0F) < 16" by (simp add: take_bit_eq_mod unat_mod)
qed

lemma hex_char_ascii: "k < 16 \<Longrightarrow> HEX_CHARS ! k < 0x80"
proof -
  have "\<forall>k \<in> set [0..<16]. HEX_CHARS ! k < 0x80" by code_simp
  then show "k < 16 \<Longrightarrow> HEX_CHARS ! k < 0x80" by simp
qed

lemma decode_hex_byte:
  "decode_pairs (as_bytes (to_hex [b]) @ rest) = map_option (Cons b) (decode_pairs rest)"
proof -
  have "\<forall>n \<in> set nibbles. decode_nibble (word_of_nat (HEX_CHARS ! unat n)) = Some n"
    unfolding nibbles_def by code_simp
  then have n: "decode_nibble (word_of_nat (HEX_CHARS ! unat n)) = Some n" if "unat n < 16" for n
    using nibble_in [OF that] by simp
  note ascii = hex_char_ascii and lt = nibble_less [of b]
  have split: "push_bit 4 (drop_bit 4 b) OR (b AND 0x0F) = b"
    by (rule all_u8) (simp add: nibbles_def)
  have "as_bytes (to_hex [b]) = [word_of_nat (HEX_CHARS ! unat (drop_bit 4 b)), word_of_nat (HEX_CHARS ! unat (b AND 0x0F))]"
    using ascii [OF lt(1)] ascii [OF lt(2)] by (simp add: to_hex_def as_bytes_def utf8_char_def)
  then show ?thesis by (simp only: append.simps decode_pairs.simps n [OF lt(1)] n [OF lt(2)] split prod.case option.case)
qed

lemma to_hex_Cons: "as_bytes (to_hex (b # bs)) = as_bytes (to_hex [b]) @ as_bytes (to_hex bs)"
  by (simp add: to_hex_def as_bytes_def)

lemma decode_to_hex: "decode_pairs (as_bytes (to_hex bs)) = Some bs"
proof (induction bs)
  case (Cons b bs)
  then show ?case unfolding to_hex_Cons [of b bs] decode_hex_byte by simp
qed (simp add: to_hex_def as_bytes_def)

lemma length_to_hex: "length (as_bytes (to_hex bs)) = 2 * length bs"
proof (induction bs)
  case (Cons b bs)
  then show ?case using hex_char_ascii nibble_less [of b]
    by (simp add: to_hex_def as_bytes_def length_utf8_char len_utf8_def)
qed (simp add: to_hex_def as_bytes_def)

interpretation hex_codec: codec to_hex from_hex "\<lambda>bs. length bs \<le> 512"
  by unfold_locales (simp add: from_hex_def Let_def length_to_hex decode_to_hex MAX_HEX_LEN_def)

section \<open>Properties\<close>

text \<open>
  Up to 512 bytes are read back from their hexadecimal text; longer ones are refused.
\<close>

theorem hex_roundtrip: "from_hex (to_hex bs) = (if length bs \<le> 512 then Some bs else None)"
  by (cases "length bs \<le> 512")
    (simp add: hex_codec.dec_enc, simp add: from_hex_def Let_def length_to_hex MAX_HEX_LEN_def)

end
