(* ===== verification/OtaHttp.thy ===== *)
theory OtaHttp
  imports FaultBuf
begin

text \<open>
  The texts of an update: the URL in the MQTT payload (\<open>crates/launa-mqtt/src/ota_url.rs\<close>) and the
  HTTP helpers (\<open>crates/launa-ota/src/http.rs\<close>). Byte slices are lists of bytes, strings lists of
  scalar values; positions in them are list positions.
\<close>

section \<open>The URL in the payload\<close>

definition MAX_OTA_URL_LEN :: nat where "MAX_OTA_URL_LEN = 256"

definition is_ascii_alphanumeric :: "nat \<Rightarrow> bool" where
  "is_ascii_alphanumeric c \<longleftrightarrow> is_digit c \<or> 65 \<le> c \<and> c \<le> 90 \<or> 97 \<le> c \<and> c \<le> 122"

definition url_key :: rstr where "url_key = [34, 117, 114, 108, 34]"

text \<open>What follows the key: a colon, and a quoted URL of at most 256 bytes with the scheme \<open>http\<close>.\<close>

definition url_value :: "rstr \<Rightarrow> rstr option" where
  "url_value after_key =
     (case strip_prefix (trim_start after_key) [58] of
        None \<Rightarrow> None
      | Some r1 \<Rightarrow>
          (case strip_prefix (trim_start r1) [34] of
             None \<Rightarrow> None
           | Some r2 \<Rightarrow>
               (case find_str r2 [34] of
                  None \<Rightarrow> None
                | Some stop \<Rightarrow>
                    let url = take stop r2 in
                    if MAX_OTA_URL_LEN < length (as_bytes url) then None
                    else case find_str url (lit ''://'') of
                        Some scheme_end \<Rightarrow> if take scheme_end url \<noteq> lit ''http'' then None else Some url
                      | None \<Rightarrow> None)))"

lemma find_str_bound: "find_str s p = Some i \<Longrightarrow> i \<le> length s"
  by (induction s p arbitrary: i rule: find_str.induct) (auto split: if_splits)

function ota_url_search :: "rstr \<Rightarrow> nat \<Rightarrow> rstr option" where
  "ota_url_search s search_from =
     (if length s < search_from then None
      else case find_str (drop search_from s) url_key of
        None \<Rightarrow> None
      | Some pos \<Rightarrow>
          let abs_pos = search_from + pos in
          if 0 < abs_pos \<and> (s ! (abs_pos - 1) = 95 \<or> is_ascii_alphanumeric (s ! (abs_pos - 1)))
          then ota_url_search s (abs_pos + 5)
          else url_value (drop (abs_pos + 5) s))"
  by pat_completeness auto
termination
  by (relation "measure (\<lambda>(s, i). Suc (length s) - i)") auto

declare ota_url_search.simps [simp del]

definition parse_ota_url :: "u8 list \<Rightarrow> rstr option" where
  "parse_ota_url payload = (case from_utf8 payload of None \<Rightarrow> None | Some s \<Rightarrow> ota_url_search s 0)"

section \<open>HTTP\<close>

fun position :: "('a \<Rightarrow> bool) \<Rightarrow> 'a list \<Rightarrow> nat option" where
  "position P [] = None"
| "position P (x # xs) = (if P x then Some 0 else map_option Suc (position P xs))"

definition bytes :: "string \<Rightarrow> u8 list" where
  "bytes s = map (\<lambda>c. word_of_nat (of_char c)) s"

definition validate_http_status :: "u8 list \<Rightarrow> bool" where
  "validate_http_status headers =
     (if \<not> starts_with headers (bytes ''HTTP/1.'') then False
      else case position (\<lambda>b. b = 32) headers of
          None \<Rightarrow> False
        | Some space_pos \<Rightarrow>
            let code_start = space_pos + 1 in
            if length headers < code_start + 3 then False
            else headers ! code_start = 50 \<and> headers ! (code_start + 1) = 48 \<and> headers ! (code_start + 2) = 48)"

definition line_end :: "u8 \<Rightarrow> bool" where
  "line_end b \<longleftrightarrow> b = 13 \<or> b = 10"

definition extract_status_line :: "u8 list \<Rightarrow> rstr" where
  "extract_status_line headers =
     (case position line_end headers of
        Some pos \<Rightarrow> from_utf8_lossy (take pos headers)
      | None \<Rightarrow> if 40 < length headers then from_utf8_lossy (take 40 headers) @ lit ''...''
                else from_utf8_lossy headers)"

definition header_end_at :: "u8 list \<Rightarrow> nat \<Rightarrow> bool" where
  "header_end_at data i \<longleftrightarrow> data ! i = 13 \<and> data ! (i + 1) = 10 \<and> data ! (i + 2) = 13 \<and> data ! (i + 3) = 10"

definition find_header_end :: "u8 list \<Rightarrow> nat option" where
  "find_header_end data = find (header_end_at data) [0..<length data - 3]"

definition hex_digit_any :: "nat \<Rightarrow> nat option" where
  "hex_digit_any c =
     (if is_digit c then Some (c - 48) else if 97 \<le> c \<and> c \<le> 102 then Some (c - 87)
      else if 65 \<le> c \<and> c \<le> 70 then Some (c - 55) else None)"

definition hex_value_of :: "rstr \<Rightarrow> nat" where
  "hex_value_of s = foldl (\<lambda>n c. 16 * n + the (hex_digit_any c)) 0 s"

text \<open>The standard library's parser for a radix: one plus sign may come first.\<close>

definition parse_hex_u32 :: "rstr \<Rightarrow> u32 option" where
  "parse_hex_u32 s =
     (let ds = (if s \<noteq> [] \<and> hd s = 43 then tl s else s) in
      if ds \<noteq> [] \<and> list_all (\<lambda>c. hex_digit_any c \<noteq> None) ds \<and> hex_value_of ds < 2 ^ 32
      then Some (word_of_nat (hex_value_of ds)) else None)"

fun crc_in_pairs :: "rstr list \<Rightarrow> u32 option" where
  "crc_in_pairs [] = None"
| "crc_in_pairs (pair # pairs) =
     (case strip_prefix pair (lit ''crc='') of Some v \<Rightarrow> parse_hex_u32 v | None \<Rightarrow> crc_in_pairs pairs)"

definition parse_crc_from_url :: "rstr \<Rightarrow> u32 option" where
  "parse_crc_from_url url =
     (case find_str url [63] of
        None \<Rightarrow> None
      | Some query_start \<Rightarrow> crc_in_pairs (split_char 38 (drop (query_start + 1) url)))"

definition parse_http_url :: "rstr \<Rightarrow> (rstr \<times> u16 \<times> rstr) option" where
  "parse_http_url url0 =
     (case strip_prefix url0 (lit ''http://'') of
        None \<Rightarrow> None
      | Some url \<Rightarrow>
          let (host_port, path) = (case find_str url [47] of
                                     Some idx \<Rightarrow> (take idx url, drop idx url)
                                   | None \<Rightarrow> (url, lit ''/''))
          in case find_str host_port [58] of
               Some idx \<Rightarrow>
                 (case parse_unsigned 65535 (drop (idx + 1) host_port) of
                    None \<Rightarrow> None
                  | Some port \<Rightarrow> Some (take idx host_port, word_of_nat port, path))
             | None \<Rightarrow> Some (host_port, 80, path))"

function skip_spaces :: "u8 list \<Rightarrow> nat \<Rightarrow> nat" where
  "skip_spaces data pos = (if pos < length data \<and> data ! pos = 32 then skip_spaces data (pos + 1) else pos)"
  by pat_completeness auto
termination
  by (relation "measure (\<lambda>(data, pos). length data - pos)") auto

declare skip_spaces.simps [simp del]

text \<open>The lines after the first, each from its \<open>CR LF\<close>.\<close>

function header_line_search :: "u8 list \<Rightarrow> u8 list \<Rightarrow> (u8 list \<Rightarrow> u8 list \<Rightarrow> bool) \<Rightarrow> nat \<Rightarrow> nat option" where
  "header_line_search headers name matches search_start =
     (if search_start + 2 < length headers then
        case find_str (drop search_start headers) [13, 10] of
          Some pos \<Rightarrow>
            let line_start = search_start + pos + 2 in
            if matches (drop line_start headers) name
            then Some (skip_spaces headers (line_start + length name))
            else header_line_search headers name matches line_start
        | None \<Rightarrow> None
      else None)"
  by pat_completeness auto
termination
  by (relation "measure (\<lambda>(headers, name, matches, i). length headers - i)") auto

declare header_line_search.simps [simp del]

definition find_header_value_start_impl :: "u8 list \<Rightarrow> u8 list \<Rightarrow> (u8 list \<Rightarrow> u8 list \<Rightarrow> bool) \<Rightarrow> nat option" where
  "find_header_value_start_impl headers name matches =
     (if name = [] then None
      else if matches headers name then Some (skip_spaces headers (length name))
      else header_line_search headers name matches 0)"

definition find_header_value_start :: "u8 list \<Rightarrow> u8 list \<Rightarrow> nat option" where
  "find_header_value_start headers name =
     find_header_value_start_impl headers name
       (\<lambda>data prefix. length prefix \<le> length data \<and> take (length prefix) data = prefix)"

definition to_ascii_lowercase :: "u8 \<Rightarrow> u8" where
  "to_ascii_lowercase b = (if 65 \<le> b \<and> b \<le> 90 then b + 32 else b)"

definition starts_with_ignore_case :: "u8 list \<Rightarrow> u8 list \<Rightarrow> bool" where
  "starts_with_ignore_case data prefix \<longleftrightarrow> length prefix \<le> length data \<and>
     list_all2 (\<lambda>a b. to_ascii_lowercase a = to_ascii_lowercase b) (take (length prefix) data) prefix"

definition find_header_value_start_case_insensitive :: "u8 list \<Rightarrow> u8 list \<Rightarrow> nat option" where
  "find_header_value_start_case_insensitive headers name =
     find_header_value_start_impl headers name starts_with_ignore_case"

definition parse_content_length :: "u8 list \<Rightarrow> nat option" where
  "parse_content_length headers =
     (case find_header_value_start_case_insensitive headers (bytes ''Content-Length:'') of
        None \<Rightarrow> None
      | Some pos \<Rightarrow>
          let value_end = (case position line_end (drop pos headers) of
                             Some i \<Rightarrow> pos + i | None \<Rightarrow> length headers)
          in case from_utf8 (take (value_end - pos) (drop pos headers)) of
               None \<Rightarrow> None
             | Some value_str \<Rightarrow> parse_unsigned 4294967295 (trim value_str))"

section \<open>Searching\<close>

lemma starts_with_iff: "starts_with s p \<longleftrightarrow> length p \<le> length s \<and> take (length p) s = p"
  by (induction s p rule: starts_with.induct) auto

lemma find_str_first:
  "find_str s p = Some i \<Longrightarrow> starts_with (drop i s) p \<and> (\<forall>j < i. \<not> starts_with (drop j s) p)"
proof (induction s p arbitrary: i rule: find_str.induct)
  case (2 c s p)
  then show ?case by (auto split: if_splits simp: less_Suc_eq_0_disj)
qed (auto split: if_splits)

lemma find_str_None: "p \<noteq> [] \<Longrightarrow> find_str s p = None \<Longrightarrow> \<not> starts_with (drop j s) p"
proof (induction s p arbitrary: j rule: find_str.induct)
  case (1 p)
  then show ?case by (cases p) auto
next
  case (2 c s p)
  then show ?case by (cases j) (auto split: if_splits)
qed

lemma find_str_Some_iff:
  assumes "p \<noteq> []"
  shows "find_str s p = Some i \<longleftrightarrow> starts_with (drop i s) p \<and> (\<forall>j < i. \<not> starts_with (drop j s) p)"
    (is "?l \<longleftrightarrow> ?r")
proof
  assume r: ?r
  then obtain k where k: "find_str s p = Some k" using find_str_None [OF assms, of s i] by (cases "find_str s p") auto
  with find_str_first [OF k] r have "k = i" by (metis linorder_neqE_nat)
  with k show ?l by simp
qed (rule find_str_first)

text \<open>A character that does not occur before.\<close>

lemma find_str_char: "c \<notin> set xs \<Longrightarrow> find_str (xs @ c # ys) [c] = Some (length xs)"
  by (induction xs) auto

lemma find_str_char_None: "c \<notin> set xs \<Longrightarrow> find_str xs [c] = None"
  by (induction xs) auto

lemma find_str_in_set: "find_str s [c] = Some i \<Longrightarrow> c \<notin> set (take i s)"
  by (induction s "[c]" arbitrary: i rule: find_str.induct) (auto split: if_splits)

section \<open>Properties\<close>

text \<open>The terminator of the headers is found at its first occurrence, wherever that is.\<close>

lemma header_end_at_starts: "i + 3 < length data \<Longrightarrow> header_end_at data i \<longleftrightarrow> starts_with (drop i data) [13, 10, 13, 10]"
proof -
  assume i: "i + 3 < length data"
  have "take 4 (drop i data) = [data ! i, data ! (i + 1), data ! (i + 2), data ! (i + 3)]"
    using i by (intro nth_equalityI) (auto simp: nth_Cons less_Suc_eq numeral_eq_Suc split: nat.splits)
  then show ?thesis using i by (simp add: starts_with_iff header_end_at_def numeral_eq_Suc) linarith
qed

lemma find_header_end_str: "find_header_end data = find_str data [13, 10, 13, 10]"
proof (cases "find_header_end data")
  case None
  then have "\<not> header_end_at data i" if "i + 3 < length data" for i
    using that by (auto simp: find_header_end_def find_None_iff)
  then have "\<not> starts_with (drop i data) [13, 10, 13, 10]" for i
    using header_end_at_starts [of i data] by (cases "i + 3 < length data") (auto simp: starts_with_iff)
  then have "find_str data [13, 10, 13, 10] = None"
    using find_str_first [of data "[13, 10, 13, 10]"] by (cases "find_str data [13, 10, 13, 10]") auto
  with None show ?thesis by simp
next
  case (Some i)
  then obtain j where j: "j < length data - 3" "i = [0..<length data - 3] ! j" "header_end_at data i"
      "\<forall>k < j. \<not> header_end_at data ([0..<length data - 3] ! k)"
    by (auto simp: find_header_end_def find_Some_iff)
  then have i: "i = j" by simp
  have "\<not> starts_with (drop k data) [13, 10, 13, 10]" if "k < i" for k
    using j i that header_end_at_starts [of k data] by auto
  moreover have "starts_with (drop i data) [13, 10, 13, 10]"
    using j i header_end_at_starts [of i data] by auto
  ultimately have "find_str data [13, 10, 13, 10] = Some i" by (simp add: find_str_Some_iff)
  with Some show ?thesis by simp
qed

lemma url_value_ok:
  assumes "url_value s = Some u"
  shows "starts_with u (lit ''http://'') \<and> 34 \<notin> set u \<and> length (as_bytes u) \<le> 256"
proof -
  obtain r2 stop i where u: "u = take stop r2" "find_str r2 [34] = Some stop" "length (as_bytes u) \<le> 256"
      "find_str u (lit ''://'') = Some i" "take i u = lit ''http''"
    using assms by (auto simp: url_value_def Let_def MAX_OTA_URL_LEN_def split: option.splits if_splits)
  have "starts_with (drop i u) (lit ''://'')" using find_str_first [OF u(4)] by simp
  then have d: "3 \<le> length (drop i u)" "take 3 (drop i u) = lit ''://''" by (simp_all add: starts_with_iff numeral_eq_Suc)
  have "length (take i u) = 4" using u(5) by simp
  then have i: "i = 4" using d(1) by simp
  have "take 7 u = take 4 u @ take 3 (drop 4 u)" using take_add [of 4 3 u] by simp
  also have "\<dots> = lit ''http://''" using u(5) d(2) i by (simp add: lit_def)
  finally have "starts_with u (lit ''http://'')" using d(1) i by (simp add: starts_with_iff numeral_eq_Suc)
  with u(1-3) find_str_in_set [OF u(2)] show ?thesis by simp
qed

lemma ota_url_search_ok: "ota_url_search s i = Some u \<Longrightarrow> \<exists>j. url_value (drop j s) = Some u"
proof (induction s i rule: ota_url_search.induct)
  case (1 s i)
  from 1(2) show ?case
    by (subst (asm) ota_url_search.simps)
      (auto simp: Let_def split: if_splits option.splits intro: 1(1))
qed

text \<open>
  A URL taken from an MQTT payload begins with \<open>http://\<close>, has no quote and at most 256
  bytes.
\<close>

theorem ota_url_accepted:
  assumes "parse_ota_url payload = Some u"
  shows "starts_with u (lit ''http://'') \<and> 34 \<notin> set u \<and> length (as_bytes u) \<le> 256"
  using assms ota_url_search_ok [of _ 0 u] url_value_ok by (fastforce simp: parse_ota_url_def split: option.splits)

theorem ota_url_accepted_witness:
  "\<exists>u. parse_ota_url (as_bytes (lit ''\"url\": \"http://10.0.0.2/f.bin\"'')) = Some u \<and> starts_with u (lit ''http://'')"
proof -
  have "from_utf8 (as_bytes (lit ''\"url\": \"http://10.0.0.2/f.bin\"'')) = Some (lit ''\"url\": \"http://10.0.0.2/f.bin\"'')"
    by (rule from_utf8_as_bytes) (simp add: lit_def scalar_value_def)
  moreover have "ota_url_search (lit ''\"url\": \"http://10.0.0.2/f.bin\"'') 0 = Some (lit ''http://10.0.0.2/f.bin'')"
    by (simp add: ota_url_search.simps url_key_def lit_def url_value_def strip_prefix_def trim_start_def is_whitespace_def
        in_range_def as_bytes_def utf8_char_def MAX_OTA_URL_LEN_def)
  ultimately have "parse_ota_url (as_bytes (lit ''\"url\": \"http://10.0.0.2/f.bin\"'')) = Some (lit ''http://10.0.0.2/f.bin'')"
    by (simp only: parse_ota_url_def option.case)
  with ota_url_accepted [OF this] show ?thesis by blast
qed

text \<open>
  A URL made of a host, a port and a path is taken apart into them.
\<close>

theorem http_url_roundtrip:
  assumes "47 \<notin> set host" and "58 \<notin> set host"
  shows "parse_http_url (lit ''http://'' @ host @ [58] @ show_nat (unat port) @ [47] @ path) =
    Some (host, port, [47] @ path)"
proof -
  let ?hp = "host @ [58] @ show_nat (unat port)"
  have "47 \<notin> set (show_nat (unat port))" using show_nat_digits [of 47] by fastforce
  then have slash: "find_str (?hp @ 47 # path) [47] = Some (length ?hp)"
    using assms(1) by (intro find_str_char) simp
  have colon: "find_str ?hp [58] = Some (length host)" using find_str_char [OF assms(2)] by simp
  have "unat port < 65536" by (rule order.strict_trans2 [OF unsigned_less]) simp
  then have "unat port \<le> 65535" by linarith
  then have num: "parse_unsigned 65535 (show_nat (unat port)) = Some (unat port)" by (rule parse_unsigned_show_nat)
  have pre: "strip_prefix (lit ''http://'' @ ?hp @ 47 # path) (lit ''http://'') = Some (?hp @ 47 # path)"
    by (simp add: strip_prefix_def starts_with_iff)
  show ?thesis
    using pre slash colon num by (simp add: parse_http_url_def Let_def)
qed

theorem http_url_roundtrip_witness:
  "parse_http_url (lit ''http://10.0.0.2:8080/f.bin'') = Some (lit ''10.0.0.2'', 8080, lit ''/f.bin'')"
proof -
  have port: "show_nat 8080 = lit ''8080''"
    by (simp add: show_nat.simps [of 8080] show_nat.simps [of 808] show_nat.simps [of 80] show_nat.simps [of 8] lit_def)
  have "47 \<notin> set (lit ''10.0.0.2'')" "58 \<notin> set (lit ''10.0.0.2'')" by (simp_all add: lit_def)
  from http_url_roundtrip [OF this, of 8080 "lit ''f.bin''"] show ?thesis
    by (simp add: port lit_def)
qed

end
