(* ===== verification/Flash.thy ===== *)
theory Flash
  imports Crc8
begin

text \<open>
  The flash memory of the update component, \<open>crates/launa-esp-ota/src\<close>: its two CRC-32 variants
  (\<open>crypto.rs\<close>), the partitions and the boot selection in the \<open>otadata\<close> sectors (\<open>flash.rs\<close>).
  The driver is the trait \<open>NorFlash\<close> of another package: here it is a record of operations, an
  argument of every definition that uses it. The locale \<open>nor_flash\<close> states what that trait
  documents; the in-memory flash of the crate's tests is the instance.
\<close>

unbundle bit_operations_syntax

section \<open>CRC-32\<close>

definition crc32_round :: "u32 \<Rightarrow> u32" where
  "crc32_round crc =
     (if crc AND 0x80000000 \<noteq> 0 then push_bit 1 crc XOR 0x04C11DB7 else push_bit 1 crc)"

definition crc32_byte :: "u32 \<Rightarrow> u8 \<Rightarrow> u32" where
  "crc32_byte crc byte = (crc32_round ^^ 8) (crc XOR push_bit 24 (ucast byte))"

definition crc32_update :: "u32 \<Rightarrow> u8 list \<Rightarrow> u32" where
  "crc32_update crc data = foldl crc32_byte crc data"

definition crc32 :: "u8 list \<Rightarrow> u32" where
  "crc32 data = crc32_update 0xFFFFFFFF data"

definition crc32_ota_round :: "u32 \<Rightarrow> u32" where
  "crc32_ota_round crc =
     (if crc AND 1 \<noteq> 0 then drop_bit 1 crc XOR 0xEDB88320 else drop_bit 1 crc)"

definition crc32_ota_byte :: "u32 \<Rightarrow> u8 \<Rightarrow> u32" where
  "crc32_ota_byte crc byte = (crc32_ota_round ^^ 8) (crc XOR ucast byte)"

definition crc32_ota :: "u8 list \<Rightarrow> u32" where
  "crc32_ota data = NOT (foldl crc32_ota_byte 0 data)"

text \<open>
  A round of the firmware checksum loses nothing: its lowest bit is the highest bit of the argument.
  So the checksum tells apart images that differ in one byte.
\<close>

lemma and_high_bit: "x AND 0x80000000 \<noteq> 0 \<longleftrightarrow> bit x 31" for x :: u32
proof -
  have "(0x80000000 :: u32) = 2 ^ 31" by simp
  then show ?thesis by (simp only: and_exp_eq_0_iff_not_bit not_not)
qed

lemma crc32_round_bits:
  "crc32_round x = push_bit 1 x XOR (if bit x 31 then 0x04C11DB7 else 0)"
  by (simp only: crc32_round_def and_high_bit) simp

lemma bit_crc32_round_0: "bit (crc32_round x) 0 \<longleftrightarrow> bit x 31"
  by (simp only: crc32_round_bits bit_xor_iff bit_push_bit_iff) simp

lemma push_bit_1_inject:
  fixes x y :: u32
  assumes "push_bit 1 x = push_bit 1 y" and "bit x 31 = bit y 31" shows "x = y"
proof (rule bit_word_eqI)
  fix n assume n: "n < LENGTH(32)"
  show "bit x n = bit y n"
  proof (cases "n = 31")
    case False
    with n have "bit (push_bit 1 x) (Suc n) = bit x n" "bit (push_bit 1 y) (Suc n) = bit y n"
      by (simp_all only: bit_push_bit_iff) simp_all
    with assms(1) show ?thesis by (simp only:)
  qed (simp add: assms(2))
qed

lemma crc32_round_inject: "crc32_round x = crc32_round y \<Longrightarrow> x = y"
proof -
  assume e: "crc32_round x = crc32_round y"
  then have b: "bit x 31 = bit y 31" using bit_crc32_round_0 [of x] bit_crc32_round_0 [of y] by simp
  from e have "push_bit 1 x = push_bit 1 y" unfolding crc32_round_bits b by (simp only: xor_right_cancel)
  from this b show ?thesis by (rule push_bit_1_inject)
qed

lemma inj_crc32_rounds: "inj (crc32_round ^^ n)"
  by (rule inj_fn) (auto intro: injI crc32_round_inject)

lemma ucast_high_inject: "push_bit 24 (ucast b :: u32) = push_bit 24 (ucast c) \<longleftrightarrow> b = c" for b c :: u8
proof
  assume e: "push_bit 24 (ucast b :: u32) = push_bit 24 (ucast c)"
  show "b = c"
  proof (rule bit_word_eqI)
    fix n assume "n < LENGTH(8)"
    then have "bit (push_bit 24 (ucast b :: u32)) (n + 24) = bit b n"
      "bit (push_bit 24 (ucast c :: u32)) (n + 24) = bit c n"
      by (simp_all add: bit_simps)
    with e show "bit b n = bit c n" by simp
  qed
qed simp

interpretation fwcrc: byte_checksum crc32 crc32_byte "0xFFFFFFFF" "\<lambda>c. c"
  by unfold_locales
    (simp_all add: crc32_def crc32_update_def crc32_byte_def inj_eq [OF inj_crc32_rounds] xor_right_cancel
      xor_left_cancel ucast_high_inject)

section \<open>Errors and partitions\<close>

datatype OtaError =
    BeginFailed
  | WriteFailed nat
  | FinalizeFailed
  | NoOtaPartition
  | InvalidFirmware
  | FlashError u32
  | HashMismatch u32 u32
  | InvalidImageHeader
  | VerificationFailed u32 u32

definition OTADATA_OFFSET :: u32 where "OTADATA_OFFSET = 0x10000"
definition OTA_0_OFFSET :: u32 where "OTA_0_OFFSET = 0x160000"
definition OTA_0_SIZE :: u32 where "OTA_0_SIZE = 0x140000"
definition OTA_1_OFFSET :: u32 where "OTA_1_OFFSET = 0x2A0000"
definition OTA_1_SIZE :: u32 where "OTA_1_SIZE = 0x140000"
definition SECTOR_SIZE :: u32 where "SECTOR_SIZE = 4096"
definition WORD_SIZE :: u32 where "WORD_SIZE = 4"
definition OTA_ENTRY_SIZE :: nat where "OTA_ENTRY_SIZE = 32"
definition OTA_SEQ_OFFSET :: nat where "OTA_SEQ_OFFSET = 0"
definition OTA_SEQ_SIZE :: nat where "OTA_SEQ_SIZE = 4"
definition OTA_CRC_OFFSET :: nat where "OTA_CRC_OFFSET = 28"
definition OTA_CRC_SIZE :: nat where "OTA_CRC_SIZE = 4"

lemmas flash_consts = OTADATA_OFFSET_def OTA_0_OFFSET_def OTA_0_SIZE_def OTA_1_OFFSET_def OTA_1_SIZE_def
  SECTOR_SIZE_def WORD_SIZE_def
lemmas entry_consts = OTA_ENTRY_SIZE_def OTA_SEQ_OFFSET_def OTA_SEQ_SIZE_def OTA_CRC_OFFSET_def OTA_CRC_SIZE_def

datatype Partition = Ota0 | Ota1

definition part_offset :: "Partition \<Rightarrow> u32" where
  "part_offset p = (case p of Ota0 \<Rightarrow> OTA_0_OFFSET | Ota1 \<Rightarrow> OTA_1_OFFSET)"

definition part_size :: "Partition \<Rightarrow> u32" where
  "part_size p = (case p of Ota0 \<Rightarrow> OTA_0_SIZE | Ota1 \<Rightarrow> OTA_1_SIZE)"

definition part_index :: "Partition \<Rightarrow> nat" where
  "part_index p = (case p of Ota0 \<Rightarrow> 0 | Ota1 \<Rightarrow> 1)"

definition u32_from_le :: "u8 list \<Rightarrow> u32" where
  "u32_from_le b = ucast (b ! 0) OR push_bit 8 (ucast (b ! 1)) OR push_bit 16 (ucast (b ! 2)) OR
     push_bit 24 (ucast (b ! 3))"

definition u32_from_be :: "u8 list \<Rightarrow> u32" where
  "u32_from_be b = ucast (b ! 3) OR push_bit 8 (ucast (b ! 2)) OR push_bit 16 (ucast (b ! 1)) OR
     push_bit 24 (ucast (b ! 0))"

definition to_le_bytes32 :: "u32 \<Rightarrow> u8 list" where
  "to_le_bytes32 n = [ucast n, ucast (drop_bit 8 n), ucast (drop_bit 16 n), ucast (drop_bit 24 n)]"

lemma length_to_le_bytes32 [simp]: "length (to_le_bytes32 n) = 4"
  by (simp add: to_le_bytes32_def)

lemma bit_shifted: "bit n i \<Longrightarrow> \<not> bit n (k + (i - k)) \<Longrightarrow> i < k" for n :: u32
  by (rule ccontr) simp

lemma u32_from_le_to_le: "u32_from_le (to_le_bytes32 n) = n"
  by (rule bit_word_eqI)
    (auto simp: u32_from_le_def to_le_bytes32_def bit_simps not_less, (drule (1) bit_shifted, simp)+)

section \<open>The driver\<close>

text \<open>Every operation may fail; the state may have changed then too.\<close>

record 'f NorFlash =
  nf_read :: "'f \<Rightarrow> u32 \<Rightarrow> nat \<Rightarrow> 'f \<times> u8 list option"
  nf_erase :: "'f \<Rightarrow> u32 \<Rightarrow> u32 \<Rightarrow> 'f \<times> bool"
  nf_write :: "'f \<Rightarrow> u32 \<Rightarrow> u8 list \<Rightarrow> 'f \<times> bool"

text \<open>The in-memory flash of the tests.\<close>

record MockFlash =
  mf_data :: "u8 list"

definition mock_new :: "nat \<Rightarrow> MockFlash" where
  "mock_new n = \<lparr>mf_data = replicate n 0xFF\<rparr>"

definition mock_read :: "MockFlash \<Rightarrow> u32 \<Rightarrow> nat \<Rightarrow> MockFlash \<times> u8 list option" where
  "mock_read m offset n =
     (if unat offset + n > length (mf_data m) then (m, None)
      else (m, Some (take n (drop (unat offset) (mf_data m)))))"

definition mock_erase :: "MockFlash \<Rightarrow> u32 \<Rightarrow> u32 \<Rightarrow> MockFlash \<times> bool" where
  "mock_erase m start stop =
     (if unat start \<ge> length (mf_data m) \<or> unat stop > length (mf_data m) then (m, False)
      else (m\<lparr>mf_data := take (unat start) (mf_data m) @ replicate (unat stop - unat start) 0xFF @
                 drop (unat stop) (mf_data m)\<rparr>, True))"

definition mock_write :: "MockFlash \<Rightarrow> u32 \<Rightarrow> u8 list \<Rightarrow> MockFlash \<times> bool" where
  "mock_write m offset bytes =
     (if unat offset + length bytes > length (mf_data m) then (m, False)
      else (m\<lparr>mf_data := take (unat offset) (mf_data m) @ bytes @
                 drop (unat offset + length bytes) (mf_data m)\<rparr>, True))"

definition mock_flash :: "MockFlash NorFlash" where
  "mock_flash = \<lparr>nf_read = mock_read, nf_erase = mock_erase, nf_write = mock_write\<rparr>"

section \<open>Erasing and writing a partition\<close>

function erase_sectors :: "'f NorFlash \<Rightarrow> 'f \<Rightarrow> u32 \<Rightarrow> nat \<Rightarrow> nat \<Rightarrow> 'f \<times> (OtaError + unit)" where
  "erase_sectors F f base offset aligned_end =
     (if offset < aligned_end then
        let addr = base + of_nat offset in
        case nf_erase F f addr (addr + SECTOR_SIZE) of
          (f', True) \<Rightarrow> erase_sectors F f' base (offset + 4096) aligned_end
        | (f', False) \<Rightarrow> (f', Inl (FlashError addr))
      else (f, Inr ()))"
  by pat_completeness auto
termination
  by (relation "measure (\<lambda>(F, f, base, offset, aligned_end). aligned_end - offset)") auto

declare erase_sectors.simps [simp del]

definition erase_range :: "'f NorFlash \<Rightarrow> 'f \<Rightarrow> Partition \<Rightarrow> u32 \<Rightarrow> u32 \<Rightarrow> 'f \<times> (OtaError + unit)" where
  "erase_range F f target start stop =
     (let aligned_start = unat start div 4096 * 4096;
          aligned_end = (unat stop + 4095) div 4096 * 4096
      in erase_sectors F f (part_offset target) aligned_start aligned_end)"

definition aligned_write :: "'f NorFlash \<Rightarrow> 'f \<Rightarrow> Partition \<Rightarrow> u32 \<Rightarrow> u8 list \<Rightarrow> 'f \<times> (OtaError + unit)" where
  "aligned_write F f target offset data =
     (let abs_offset = part_offset target + offset;
          padded = (if length data mod 4 = 0 then data
                    else data @ replicate ((4 - length data mod 4) mod 4) 0xFF)
      in case nf_write F f abs_offset padded of
           (f', True) \<Rightarrow> (f', Inr ())
         | (f', False) \<Rightarrow> (f', Inl (FlashError abs_offset)))"

section \<open>The boot selection\<close>

definition slot_offset :: "nat \<Rightarrow> u32" where
  "slot_offset slot = OTADATA_OFFSET + of_nat slot * SECTOR_SIZE"

definition read_otadata_entry :: "'f NorFlash \<Rightarrow> 'f \<Rightarrow> nat \<Rightarrow> 'f \<times> (OtaError + u8 list)" where
  "read_otadata_entry F f slot =
     (case nf_read F f (slot_offset slot) OTA_ENTRY_SIZE of
        (f', Some buf) \<Rightarrow> (f', Inr buf)
      | (f', None) \<Rightarrow> (f', Inl (FlashError (slot_offset slot))))"

definition otadata_entry_valid :: "u8 list \<Rightarrow> bool" where
  "otadata_entry_valid entry =
     (let raw_seq = u32_from_le (take OTA_SEQ_SIZE (drop OTA_SEQ_OFFSET entry)) in
      if raw_seq = 0xFFFFFFFF then False
      else u32_from_le (take OTA_CRC_SIZE (drop OTA_CRC_OFFSET entry)) =
           crc32_ota (take OTA_SEQ_SIZE (drop OTA_SEQ_OFFSET entry)))"

definition seq_from_entry :: "u8 list \<Rightarrow> u32" where
  "seq_from_entry entry =
     (let raw = u32_from_le (take OTA_SEQ_SIZE (drop OTA_SEQ_OFFSET entry)) in
      if raw = 0xFFFFFFFF then 0 else raw)"

definition read_otadata_entries ::
  "'f NorFlash \<Rightarrow> 'f \<Rightarrow> 'f \<times> (OtaError + u8 list \<times> bool \<times> u8 list \<times> bool)" where
  "read_otadata_entries F f =
     (case read_otadata_entry F f 0 of
        (f0, Inl e) \<Rightarrow> (f0, Inl e)
      | (f0, Inr entry0) \<Rightarrow>
          (case read_otadata_entry F f0 1 of
             (f1, Inl e) \<Rightarrow> (f1, Inl e)
           | (f1, Inr entry1) \<Rightarrow>
               (f1, Inr (entry0, otadata_entry_valid entry0, entry1, otadata_entry_valid entry1))))"

definition read_otadata_sequences :: "'f NorFlash \<Rightarrow> 'f \<Rightarrow> 'f \<times> (OtaError + u32 \<times> u32)" where
  "read_otadata_sequences F f =
     (case read_otadata_entries F f of
        (f', Inl e) \<Rightarrow> (f', Inl e)
      | (f', Inr (entry0, valid0, entry1, valid1)) \<Rightarrow>
          (f', Inr (if valid0 then seq_from_entry entry0 else 0,
                    if valid1 then seq_from_entry entry1 else 0)))"

definition build_otadata_entry :: "u32 \<Rightarrow> u8 list" where
  "build_otadata_entry seq =
     to_le_bytes32 seq @ replicate 24 0xFF @ to_le_bytes32 (crc32_ota (to_le_bytes32 seq))"

definition write_otadata_slot :: "'f NorFlash \<Rightarrow> 'f \<Rightarrow> nat \<Rightarrow> u8 list \<Rightarrow> 'f \<times> (OtaError + unit)" where
  "write_otadata_slot F f slot entry =
     (let addr = slot_offset slot in
      case nf_read F f addr (unat SECTOR_SIZE) of
        (f1, None) \<Rightarrow> (f1, Inl (FlashError addr))
      | (f1, Some sector_buf) \<Rightarrow>
          (case nf_erase F f1 addr (addr + SECTOR_SIZE) of
             (f2, False) \<Rightarrow> (f2, Inl (FlashError addr))
           | (f2, True) \<Rightarrow>
               (case nf_write F f2 addr (entry @ drop OTA_ENTRY_SIZE sector_buf) of
                  (f3, False) \<Rightarrow> (f3, Inl (FlashError addr))
                | (f3, True) \<Rightarrow> (f3, Inr ()))))"

text \<open>
  The two searches for a sequence number. The arithmetic is that of a release build: it wraps.
\<close>

lemma parity_step:
  fixes c :: u32 shows "(c - 1) mod 2 \<noteq> of_nat (part_index p) \<Longrightarrow> c mod 2 = of_nat (part_index p)"
  using odd_iff_mod_2_eq_one [of c] odd_iff_mod_2_eq_one [of "c - 1"] even_diff [of c 1]
  by (cases p) (auto simp: part_index_def)

function seq_up :: "Partition \<Rightarrow> u32 \<Rightarrow> u32" where
  "seq_up p candidate =
     (if (candidate - 1) mod 2 \<noteq> of_nat (part_index p) then seq_up p (candidate + 1) else candidate)"
  by pat_completeness auto
termination
proof (relation "measure (\<lambda>(p, c). if (c - 1) mod 2 \<noteq> of_nat (part_index p) then 1 else 0)")
  fix p and candidate :: u32
  assume "(candidate - 1) mod 2 \<noteq> of_nat (part_index p)"
  with parity_step [OF this]
  show "((p, candidate + 1), p, candidate) \<in>
      measure (\<lambda>(p, c). if (c - 1) mod 2 \<noteq> of_nat (part_index p) then 1 else 0)"
    by (simp only: in_measure prod.case if_True if_False add_diff_cancel_right' simp_thms)
qed simp

declare seq_up.simps [simp del]

function seq_down :: "Partition \<Rightarrow> u32 \<Rightarrow> u32" where
  "seq_down p candidate =
     (if 0 < candidate \<and> (candidate - 1) mod 2 \<noteq> of_nat (part_index p) then seq_down p (candidate - 1)
      else candidate)"
  by pat_completeness auto
termination
proof (relation "measure (\<lambda>(p, c). unat c)")
  fix p and candidate :: u32
  assume "0 < candidate \<and> (candidate - 1) mod 2 \<noteq> of_nat (part_index p)"
  then have "candidate \<noteq> 0" by blast
  then show "((p, candidate - 1), p, candidate) \<in> measure (\<lambda>(p, c). unat c)"
    unfolding in_measure prod.case by (rule measure_unat)
qed simp

declare seq_down.simps [simp del]

definition other_partition :: "Partition \<Rightarrow> Partition" where
  "other_partition p = (case p of Ota0 \<Rightarrow> Ota1 | Ota1 \<Rightarrow> Ota0)"

definition new_seq :: "Partition \<Rightarrow> u32 \<Rightarrow> u32" where
  "new_seq p max_seq = (if max_seq = 0 then of_nat (part_index p) + 1 else seq_up p (max_seq + 1))"

definition seed_seq :: "Partition \<Rightarrow> u32 \<Rightarrow> u32 \<Rightarrow> u32" where
  "seed_seq other max_seq new =
     (if max_seq = 0 then of_nat (part_index other) + 1
      else let candidate = seq_down other (new - 1) in
        if candidate = 0 then of_nat (part_index other) + 1 else candidate)"

definition set_boot_partition :: "'f NorFlash \<Rightarrow> 'f \<Rightarrow> Partition \<Rightarrow> 'f \<times> (OtaError + unit)" where
  "set_boot_partition F f target =
     (case read_otadata_entries F f of
        (f1, Inl e) \<Rightarrow> (f1, Inl e)
      | (f1, Inr (entry0, valid0, entry1, valid1)) \<Rightarrow>
          let seq_0 = (if valid0 then seq_from_entry entry0 else 0);
              seq_1 = (if valid1 then seq_from_entry entry1 else 0);
              max_seq = max seq_0 seq_1;
              new = new_seq target max_seq;
              other = other_partition target;
              other_valid = (if part_index other = 0 then valid0 else valid1)
          in case write_otadata_slot F f1 (part_index target) (build_otadata_entry new) of
               (f2, Inl e) \<Rightarrow> (f2, Inl e)
             | (f2, Inr _) \<Rightarrow>
                 if other_valid then (f2, Inr ())
                 else write_otadata_slot F f2 (part_index other)
                        (build_otadata_entry (seed_seq other max_seq new)))"

definition detect_running_partition :: "'f NorFlash \<Rightarrow> 'f \<Rightarrow> 'f \<times> (OtaError + Partition)" where
  "detect_running_partition F f =
     (case read_otadata_sequences F f of
        (f', Inl e) \<Rightarrow> (f', Inl e)
      | (f', Inr (seq_0, seq_1)) \<Rightarrow>
          let running_seq = (if seq_0 < seq_1 then seq_1 else seq_0) in
          if running_seq = 0 then (f', Inr Ota0)
          else (f', Inr (if (running_seq - 1) mod 2 = 0 then Ota0 else Ota1)))"

end
