(* ===== verification/FlashProperties.thy ===== *)
theory FlashProperties
  imports Flash
begin

text \<open>
  What the operations of theory \<open>Flash\<close> do to the memory, for every driver that behaves as its trait
  documents. \<open>nor_flash\<close> holds also when operations fail; \<open>reliable_flash\<close> adds that they
  succeed inside the capacity. \<open>booted\<close> is the specification of the boot selection.
\<close>

unbundle bit_operations_syntax

section \<open>The contract of the driver\<close>

locale nor_flash =
  fixes F :: "'f NorFlash" and byte :: "'f \<Rightarrow> nat \<Rightarrow> u8" and cap :: "'f \<Rightarrow> nat"
  assumes read_keeps: "byte (fst (nf_read F f a n)) = byte f"
    and read_value: "snd (nf_read F f a n) = Some bs \<Longrightarrow> bs = map (byte f) [unat a..<unat a + n]"
    and erase_outside: "unat a < unat b \<Longrightarrow> i < unat a \<or> unat b \<le> i \<Longrightarrow> byte (fst (nf_erase F f a b)) i = byte f i"
    and erase_value: "snd (nf_erase F f a b) \<Longrightarrow> unat a \<le> i \<Longrightarrow> i < unat b \<Longrightarrow>
      byte (fst (nf_erase F f a b)) i = 0xFF"
    and write_outside: "i < unat a \<or> unat a + length bs \<le> i \<Longrightarrow> byte (fst (nf_write F f a bs)) i = byte f i"
    and write_value: "snd (nf_write F f a bs) \<Longrightarrow> j < length bs \<Longrightarrow> byte f (unat a + j) = 0xFF \<Longrightarrow>
      byte (fst (nf_write F f a bs)) (unat a + j) = bs ! j"
    and cap_read: "cap (fst (nf_read F f a n)) = cap f"
    and cap_erase: "unat a < unat b \<Longrightarrow> cap (fst (nf_erase F f a b)) = cap f"
    and cap_write: "cap (fst (nf_write F f a bs)) = cap f"

locale reliable_flash = nor_flash +
  assumes read_ok: "unat a + n \<le> cap f \<Longrightarrow> snd (nf_read F f a n) \<noteq> None"
    and erase_ok: "unat a < unat b \<Longrightarrow> unat b \<le> cap f \<Longrightarrow> 4096 dvd unat a \<Longrightarrow> 4096 dvd unat b \<Longrightarrow>
      snd (nf_erase F f a b)"
    and write_ok: "unat a + length bs \<le> cap f \<Longrightarrow> 4 dvd unat a \<Longrightarrow> 4 dvd length bs \<Longrightarrow>
      snd (nf_write F f a bs)"

text \<open>The flash of the tests keeps the contract.\<close>

definition mock_byte :: "MockFlash \<Rightarrow> nat \<Rightarrow> u8" where
  "mock_byte m i = (if i < length (mf_data m) then mf_data m ! i else 0xFF)"

definition mock_capacity :: "MockFlash \<Rightarrow> nat" where
  "mock_capacity m = length (mf_data m)"

lemma mock_flash_sel [simp]:
  "nf_read mock_flash = mock_read" "nf_erase mock_flash = mock_erase" "nf_write mock_flash = mock_write"
  by (simp_all add: mock_flash_def)

interpretation mock: reliable_flash mock_flash mock_byte mock_capacity
proof unfold_locales
  fix f :: MockFlash and a b :: u32 and n i j :: nat and bs
  show "mock_byte (fst (nf_read mock_flash f a n)) = mock_byte f"
    by (simp add: mock_read_def)
  show "snd (nf_read mock_flash f a n) = Some bs \<Longrightarrow> bs = map (mock_byte f) [unat a..<unat a + n]"
    by (auto simp: mock_read_def mock_byte_def intro!: nth_equalityI split: if_splits)
  show "unat a < unat b \<Longrightarrow> i < unat a \<or> unat b \<le> i \<Longrightarrow> mock_byte (fst (nf_erase mock_flash f a b)) i = mock_byte f i"
    by (auto simp: mock_erase_def mock_byte_def nth_append)
  show "snd (nf_erase mock_flash f a b) \<Longrightarrow> unat a \<le> i \<Longrightarrow> i < unat b \<Longrightarrow> mock_byte (fst (nf_erase mock_flash f a b)) i = 0xFF"
    by (auto simp: mock_erase_def mock_byte_def nth_append split: if_splits)
  show "i < unat a \<or> unat a + length bs \<le> i \<Longrightarrow> mock_byte (fst (nf_write mock_flash f a bs)) i = mock_byte f i"
    by (auto simp: mock_write_def mock_byte_def nth_append)
  show "snd (nf_write mock_flash f a bs) \<Longrightarrow> j < length bs \<Longrightarrow> mock_byte f (unat a + j) = 0xFF \<Longrightarrow>
      mock_byte (fst (nf_write mock_flash f a bs)) (unat a + j) = bs ! j"
    by (auto simp: mock_write_def mock_byte_def nth_append split: if_splits)
  show "mock_capacity (fst (nf_read mock_flash f a n)) = mock_capacity f"
    and "unat a < unat b \<Longrightarrow> mock_capacity (fst (nf_erase mock_flash f a b)) = mock_capacity f"
    and "mock_capacity (fst (nf_write mock_flash f a bs)) = mock_capacity f"
    by (auto simp: mock_capacity_def mock_read_def mock_erase_def mock_write_def)
  show "unat a + n \<le> mock_capacity f \<Longrightarrow> snd (nf_read mock_flash f a n) \<noteq> None"
    and "unat a + length bs \<le> mock_capacity f \<Longrightarrow> 4 dvd unat a \<Longrightarrow> 4 dvd length bs \<Longrightarrow> snd (nf_write mock_flash f a bs)"
    and "unat a < unat b \<Longrightarrow> unat b \<le> mock_capacity f \<Longrightarrow> 4096 dvd unat a \<Longrightarrow> 4096 dvd unat b \<Longrightarrow> snd (nf_erase mock_flash f a b)"
    by (auto simp: mock_capacity_def mock_read_def mock_write_def mock_erase_def)
qed

section \<open>The specification of the boot selection\<close>

text \<open>
  The two entries in a memory, their sequence numbers, and the partition that the bootloader takes:
  that of the greater sequence number among the valid entries.
\<close>

definition slot_addr :: "nat \<Rightarrow> nat" where
  "slot_addr slot = 0x10000 + 0x1000 * slot"

definition entry_at :: "(nat \<Rightarrow> u8) \<Rightarrow> nat \<Rightarrow> u8 list" where
  "entry_at m slot = map m [slot_addr slot..<slot_addr slot + 32]"

definition slot_valid :: "(nat \<Rightarrow> u8) \<Rightarrow> nat \<Rightarrow> bool" where
  "slot_valid m slot = otadata_entry_valid (entry_at m slot)"

definition slot_seq :: "(nat \<Rightarrow> u8) \<Rightarrow> nat \<Rightarrow> u32" where
  "slot_seq m slot = (if slot_valid m slot then seq_from_entry (entry_at m slot) else 0)"

definition max_seq :: "(nat \<Rightarrow> u8) \<Rightarrow> u32" where
  "max_seq m = max (slot_seq m 0) (slot_seq m 1)"

definition booted :: "(nat \<Rightarrow> u8) \<Rightarrow> Partition" where
  "booted m = (if max_seq m = 0 \<or> (max_seq m - 1) mod 2 = 0 then Ota0 else Ota1)"

definition in_sector :: "nat \<Rightarrow> nat \<Rightarrow> bool" where
  "in_sector slot i \<longleftrightarrow> slot_addr slot \<le> i \<and> i < slot_addr slot + 4096"

lemma unat_slot_offset: "slot < 2 \<Longrightarrow> unat (slot_offset slot) = slot_addr slot"
  by (auto simp: slot_offset_def slot_addr_def flash_consts less_2_cases_iff)

lemma unat_slot_end: "slot < 2 \<Longrightarrow> unat (slot_offset slot + SECTOR_SIZE) = slot_addr slot + 4096"
  by (auto simp: slot_offset_def slot_addr_def flash_consts less_2_cases_iff)

lemma part_index_less [simp]: "part_index p < 2"
  by (simp add: part_index_def split: Partition.split)

lemma length_build_otadata_entry [simp]: "length (build_otadata_entry n) = 32"
  by (simp add: build_otadata_entry_def)

lemma length_entry_at [simp]: "length (entry_at m slot) = 32"
  by (simp add: entry_at_def)

text \<open>A built entry is valid and has its number, but for the number that means an erased entry.\<close>

lemma built_entry_fields:
  "take OTA_SEQ_SIZE (drop OTA_SEQ_OFFSET (build_otadata_entry n)) = to_le_bytes32 n"
  "take OTA_CRC_SIZE (drop OTA_CRC_OFFSET (build_otadata_entry n)) = to_le_bytes32 (crc32_ota (to_le_bytes32 n))"
  by (simp_all add: build_otadata_entry_def entry_consts)

lemma built_entry_valid [simp]: "otadata_entry_valid (build_otadata_entry n) \<longleftrightarrow> n \<noteq> 0xFFFFFFFF"
  unfolding otadata_entry_valid_def built_entry_fields Let_def by (simp add: u32_from_le_to_le)

lemma built_entry_seq [simp]: "n \<noteq> 0xFFFFFFFF \<Longrightarrow> seq_from_entry (build_otadata_entry n) = n"
  unfolding seq_from_entry_def built_entry_fields Let_def by (simp add: u32_from_le_to_le)

lemma seq_from_entry_max: "seq_from_entry e \<noteq> 0xFFFFFFFF"
  by (simp add: seq_from_entry_def Let_def)

section \<open>The searches\<close>

lemma mod2_cases:
  fixes c :: u32 obtains "c mod 2 = 0" | "c mod 2 = 1"
  by (metis odd_iff_mod_2_eq_one even_iff_mod_2_eq_zero)

lemma seq_up_value:
  "seq_up p c = (if (c - 1) mod 2 = of_nat (part_index p) then c else c + 1)"
proof (cases "(c - 1) mod 2 = of_nat (part_index p)")
  case True
  then show ?thesis by (subst seq_up.simps) simp
next
  case False
  have "(c + 1 - 1) mod 2 = of_nat (part_index p)" using parity_step [OF False] by simp
  then have "seq_up p (c + 1) = c + 1" by (subst seq_up.simps) simp
  with False show ?thesis by (subst seq_up.simps) simp
qed

lemma seq_up_parity: "(seq_up p c - 1) mod 2 = of_nat (part_index p)"
  using parity_step [of c p] by (simp add: seq_up_value)

lemma seq_up_above:
  assumes "unat s < 2 ^ 32 - 3"
  shows "s < seq_up p (s + 1)" and "seq_up p (s + 1) \<noteq> 0xFFFFFFFF"
proof -
  have "unat (s + 1) = unat s + 1" "unat (s + 2) = unat s + 2" using assms by (simp_all add: unat_word_ariths)
  moreover have "seq_up p (s + 1) \<in> {s + 1, s + 2}" by (simp add: seq_up_value)
  ultimately have "unat (seq_up p (s + 1)) \<in> {unat s + 1, unat s + 2}" by auto
  with assms show "s < seq_up p (s + 1)" and "seq_up p (s + 1) \<noteq> 0xFFFFFFFF"
    by (auto simp: word_less_nat_alt)
qed

section \<open>The operations on any driver\<close>

context nor_flash
begin

lemma read_otadata_entry_value:
  assumes "read_otadata_entry F f slot = (f', r)" and "slot < 2"
  shows "byte f' = byte f" and "cap f' = cap f" and "r = Inr e \<Longrightarrow> e = entry_at (byte f) slot"
proof -
  obtain f1 b where rd: "nf_read F f (slot_offset slot) 32 = (f1, b)" by fastforce
  have f': "f' = f1" using assms(1) rd by (auto simp: read_otadata_entry_def OTA_ENTRY_SIZE_def split: option.splits)
  show "byte f' = byte f" and "cap f' = cap f"
    using read_keeps [of f "slot_offset slot" 32] cap_read [of f "slot_offset slot" 32] rd f' by simp_all
  show "e = entry_at (byte f) slot" if "r = Inr e"
    using read_value [of f "slot_offset slot" 32] assms rd that
    by (auto simp: read_otadata_entry_def OTA_ENTRY_SIZE_def entry_at_def unat_slot_offset split: option.splits)
qed

lemma read_otadata_entries_value:
  assumes "read_otadata_entries F f = (f', r)"
  shows "byte f' = byte f" and "cap f' = cap f"
    and "r = Inr (e0, v0, e1, v1) \<Longrightarrow> e0 = entry_at (byte f) 0 \<and> v0 = slot_valid (byte f) 0 \<and>
      e1 = entry_at (byte f) 1 \<and> v1 = slot_valid (byte f) 1"
proof -
  obtain f0 r0 where r0: "read_otadata_entry F f 0 = (f0, r0)" by fastforce
  obtain f1 r1 where r1: "read_otadata_entry F f0 1 = (f1, r1)" by fastforce
  have a: "byte f0 = byte f" "cap f0 = cap f" "r0 = Inr e \<Longrightarrow> e = entry_at (byte f) 0" for e
    using read_otadata_entry_value [OF r0] by simp_all
  have b: "byte f1 = byte f" "cap f1 = cap f" "r1 = Inr e \<Longrightarrow> e = entry_at (byte f) 1" for e
    using read_otadata_entry_value [OF r1] a by simp_all
  show "byte f' = byte f" and "cap f' = cap f"
    using assms r0 r1 a(1,2) b(1,2) by (auto simp: read_otadata_entries_def split: sum.splits)
  show "e0 = entry_at (byte f) 0 \<and> v0 = slot_valid (byte f) 0 \<and>
      e1 = entry_at (byte f) 1 \<and> v1 = slot_valid (byte f) 1" if "r = Inr (e0, v0, e1, v1)"
    using assms r0 r1 a(3) b(3) that
    by (auto simp: read_otadata_entries_def slot_valid_def split: sum.splits)
qed

lemma detect_running_value:
  assumes "detect_running_partition F f = (f', r)"
  shows "byte f' = byte f" and "cap f' = cap f" and "r = Inr p \<Longrightarrow> p = booted (byte f)"
proof -
  obtain f1 r1 where r1: "read_otadata_entries F f = (f1, r1)" by fastforce
  note v = read_otadata_entries_value [OF r1]
  show "byte f' = byte f" and "cap f' = cap f"
    using assms r1 v(1,2)
    by (auto simp: detect_running_partition_def read_otadata_sequences_def Let_def split: sum.splits if_splits)
  show "p = booted (byte f)" if r: "r = Inr p"
  proof -
    obtain e0 v0 e1 v1 where e: "r1 = Inr (e0, v0, e1, v1)"
      using assms r1 r by (auto simp: detect_running_partition_def read_otadata_sequences_def split: sum.splits)
    have "(if v0 then seq_from_entry e0 else 0) = slot_seq (byte f) 0"
      "(if v1 then seq_from_entry e1 else 0) = slot_seq (byte f) 1"
      using v(3) [OF e] by (simp_all add: slot_seq_def)
    moreover have "(if a < b then b else a) = max a b" for a b :: u32 by (auto simp: max_def)
    ultimately show ?thesis
      using assms r1 r e
      by (simp add: detect_running_partition_def read_otadata_sequences_def Let_def booted_def max_seq_def
          split: if_splits)
  qed
qed

text \<open>Writing a slot touches its sector only, and then holds the entry.\<close>

lemma write_otadata_slot_outside:
  assumes "write_otadata_slot F f slot e = (f', r)" and "slot < 2" and "length e = 32"
  shows "\<not> in_sector slot i \<Longrightarrow> byte f' i = byte f i" and "cap f' = cap f"
proof -
  let ?a = "slot_offset slot"
  obtain f1 b where rd: "nf_read F f ?a (unat SECTOR_SIZE) = (f1, b)" by fastforce
  obtain f2 k where er: "nf_erase F f1 ?a (?a + SECTOR_SIZE) = (f2, k)" by fastforce
  define buf where "buf = e @ drop OTA_ENTRY_SIZE (the b)"
  obtain f3 l where wr: "nf_write F f2 ?a buf = (f3, l)" by fastforce
  note addr = unat_slot_offset [OF assms(2)] unat_slot_end [OF assms(2)]
  have c: "cap f1 = cap f" "cap f2 = cap f" "cap f3 = cap f"
    using cap_read [of f ?a "unat SECTOR_SIZE"] cap_erase [of ?a "?a + SECTOR_SIZE" f1] cap_write [of f2 ?a buf] rd er wr addr by auto
  have m1: "byte f1 = byte f" using read_keeps [of f ?a] rd by (metis fst_conv)
  have m2: "byte f2 i = byte f i" if "\<not> in_sector slot i" for i
    using erase_outside [of ?a "?a + SECTOR_SIZE" i f1] that er m1 addr by (auto simp: in_sector_def)
  have m3: "byte f3 i = byte f i" if "\<not> in_sector slot i" "b \<noteq> None" for i
  proof -
    have "length (the b) = 4096"
      using read_value [of f ?a "unat SECTOR_SIZE" "the b"] rd that(2) by (auto simp: SECTOR_SIZE_def)
    then have "length buf = 4096" using assms(3) by (simp add: buf_def OTA_ENTRY_SIZE_def)
    then show ?thesis
      using write_outside [of i ?a buf f2] wr that(1) m2 addr by (auto simp: in_sector_def)
  qed
  show "byte f' i = byte f i" if "\<not> in_sector slot i"
    using assms(1) rd er wr m1 m2 [OF that] m3 [OF that] buf_def
    by (auto simp: write_otadata_slot_def Let_def split: option.splits bool.splits)
  show "cap f' = cap f" using assms(1) rd er wr c buf_def
    by (auto simp: write_otadata_slot_def Let_def split: option.splits bool.splits)
qed

lemma write_otadata_slot_entry:
  assumes "write_otadata_slot F f slot e = (f', Inr u)" and "slot < 2" and "length e = 32"
  shows "entry_at (byte f') slot = e"
proof -
  let ?a = "slot_offset slot"
  obtain f1 b where rd: "nf_read F f ?a (unat SECTOR_SIZE) = (f1, Some b)"
    and er: "snd (nf_erase F f1 ?a (?a + SECTOR_SIZE))"
    and wr: "snd (nf_write F (fst (nf_erase F f1 ?a (?a + SECTOR_SIZE))) ?a (e @ drop 32 b))"
      "f' = fst (nf_write F (fst (nf_erase F f1 ?a (?a + SECTOR_SIZE))) ?a (e @ drop 32 b))"
    using assms(1) by (auto simp: write_otadata_slot_def Let_def OTA_ENTRY_SIZE_def split: prod.splits option.splits bool.splits)
  note addr = unat_slot_offset [OF assms(2)] unat_slot_end [OF assms(2)]
  show ?thesis
  proof (rule nth_equalityI)
    fix j assume "j < length (entry_at (byte f') slot)"
    then have j: "j < 32" by simp
    have "byte (fst (nf_erase F f1 ?a (?a + SECTOR_SIZE))) (unat ?a + j) = 0xFF"
      using j addr by (intro erase_value [OF er]) simp_all
    from write_value [OF wr(1) _ this] j assms(3) wr(2) addr
    show "entry_at (byte f') slot ! j = e ! j" by (simp add: entry_at_def nth_append)
  qed (simp add: assms(3))
qed

end

lemma entry_at_cong: "(\<And>i. in_sector slot i \<Longrightarrow> m i = m' i) \<Longrightarrow> entry_at m slot = entry_at m' slot"
  by (simp add: entry_at_def in_sector_def)

lemma in_sector_disjoint: "in_sector a i \<Longrightarrow> in_sector b i \<Longrightarrow> a = b"
  by (simp add: in_sector_def slot_addr_def)

lemma other_index [simp]: "part_index (other_partition p) \<noteq> part_index p" "part_index p \<noteq> part_index (other_partition p)"
  by (cases p; simp add: other_partition_def part_index_def)+

definition in_otadata :: "nat \<Rightarrow> bool" where
  "in_otadata i \<longleftrightarrow> in_sector 0 i \<or> in_sector 1 i"

lemma in_otadata_slot: "in_sector (part_index p) i \<Longrightarrow> in_otadata i"
  by (cases p) (simp_all add: in_otadata_def part_index_def)

context nor_flash
begin

text \<open>With the entries read, selecting a partition is one or two slots to write.\<close>

definition select_boot :: "'f \<Rightarrow> (nat \<Rightarrow> u8) \<Rightarrow> Partition \<Rightarrow> 'f \<times> (OtaError + unit)" where
  "select_boot f m p =
     (let new = new_seq p (max_seq m); oth = other_partition p in
      case write_otadata_slot F f (part_index p) (build_otadata_entry new) of
        (f2, Inl e) \<Rightarrow> (f2, Inl e)
      | (f2, Inr _) \<Rightarrow>
          if slot_valid m (part_index oth) then (f2, Inr ())
          else write_otadata_slot F f2 (part_index oth) (build_otadata_entry (seed_seq oth (max_seq m) new)))"

lemma set_boot_eq:
  assumes "read_otadata_entries F f = (f1, r1)"
  shows "set_boot_partition F f p = (case r1 of Inl e \<Rightarrow> (f1, Inl e) | Inr q \<Rightarrow> select_boot f1 (byte f) p)"
proof (cases r1)
  case (Inl e)
  with assms show ?thesis by (simp add: set_boot_partition_def)
next
  case (Inr q)
  obtain e0 v0 e1 v1 where q: "q = (e0, v0, e1, v1)" by (cases q) auto
  note v = read_otadata_entries_value(3) [OF assms [unfolded Inr q] refl]
  have mx: "max (if v0 then seq_from_entry e0 else 0) (if v1 then seq_from_entry e1 else 0) = max_seq (byte f)"
    using v by (simp add: max_seq_def slot_seq_def)
  have ov: "(if part_index (other_partition p) = 0 then v0 else v1) = slot_valid (byte f) (part_index (other_partition p))"
    using v by (cases p) (simp_all add: other_partition_def part_index_def)
  show ?thesis
    unfolding set_boot_partition_def select_boot_def assms Inr q prod.case sum.case Let_def mx ov by (rule refl)
qed

lemma select_boot_outside:
  assumes "select_boot f m p = (f', r)"
  shows "\<not> in_otadata i \<Longrightarrow> byte f' i = byte f i" and "cap f' = cap f"
proof -
  let ?o = "other_partition p" and ?new = "new_seq p (max_seq m)"
  obtain f2 r2 where r2: "write_otadata_slot F f (part_index p) (build_otadata_entry ?new) = (f2, r2)" by fastforce
  obtain f3 r3 where r3: "write_otadata_slot F f2 (part_index ?o) (build_otadata_entry (seed_seq ?o (max_seq m) ?new)) = (f3, r3)"
    by fastforce
  note w2 = write_otadata_slot_outside [OF r2] and w3 = write_otadata_slot_outside [OF r3]
  have f': "f' = f2 \<or> f' = f3"
    using assms r2 r3 by (auto simp: select_boot_def Let_def split: sum.splits if_splits)
  then show "cap f' = cap f" using w2(2) w3(2) by auto
  show "byte f' i = byte f i" if "\<not> in_otadata i"
  proof -
    have "\<not> in_sector (part_index p) i" "\<not> in_sector (part_index ?o) i" using that in_otadata_slot by blast+
    then show ?thesis using f' w2(1) [of i] w3(1) [of i] by auto
  qed
qed

lemma set_boot_outside:
  assumes "set_boot_partition F f p = (f', r)"
  shows "\<not> in_otadata i \<Longrightarrow> byte f' i = byte f i" and "cap f' = cap f"
proof -
  obtain f1 r1 where r1: "read_otadata_entries F f = (f1, r1)" by fastforce
  note v = read_otadata_entries_value(1,2) [OF r1]
  have "r1 = Inl e \<Longrightarrow> f' = f1" for e using assms set_boot_eq [OF r1] by simp
  moreover have "r1 = Inr q \<Longrightarrow> select_boot f1 (byte f) p = (f', r)" for q using assms set_boot_eq [OF r1] by simp
  ultimately show "\<not> in_otadata i \<Longrightarrow> byte f' i = byte f i" and "cap f' = cap f"
    using v select_boot_outside [of f1 "byte f" p f' r] by (cases r1; simp)+
qed

lemma set_boot_entries:
  assumes "set_boot_partition F f p = (f', Inr u)"
  shows "entry_at (byte f') (part_index p) = build_otadata_entry (new_seq p (max_seq (byte f)))"
    and "entry_at (byte f') (part_index (other_partition p)) =
      (if slot_valid (byte f) (part_index (other_partition p)) then entry_at (byte f) (part_index (other_partition p))
       else build_otadata_entry (seed_seq (other_partition p) (max_seq (byte f)) (new_seq p (max_seq (byte f)))))"
proof -
  let ?o = "other_partition p" and ?new = "new_seq p (max_seq (byte f))"
  let ?valid = "slot_valid (byte f) (part_index ?o)" and ?seed = "build_otadata_entry (seed_seq ?o (max_seq (byte f)) ?new)"
  obtain f1 q where r1: "read_otadata_entries F f = (f1, q)" by fastforce
  note v = read_otadata_entries_value(1) [OF r1]
  have sel: "select_boot f1 (byte f) p = (f', Inr u)" using assms set_boot_eq [OF r1] by (cases q) simp_all
  obtain f2 w where r2: "write_otadata_slot F f1 (part_index p) (build_otadata_entry ?new) = (f2, Inr w)"
    and fin: "f' = (if ?valid then f2 else fst (write_otadata_slot F f2 (part_index ?o) ?seed))"
    using sel by (cases "write_otadata_slot F f1 (part_index p) (build_otadata_entry ?new)")
      (auto simp: select_boot_def Let_def split: sum.splits if_splits)
  have e2: "entry_at (byte f2) (part_index p) = build_otadata_entry ?new"
    by (rule write_otadata_slot_entry [OF r2]) simp_all
  have o2: "entry_at (byte f2) (part_index ?o) = entry_at (byte f) (part_index ?o)"
    using write_otadata_slot_outside(1) [OF r2] v in_sector_disjoint [of "part_index p" _ "part_index ?o"]
    by (intro entry_at_cong) fastforce
  have seeded: "entry_at (byte f') (part_index p) = build_otadata_entry ?new \<and> entry_at (byte f') (part_index ?o) = ?seed"
    if "\<not> ?valid"
  proof -
    have w: "write_otadata_slot F f2 (part_index ?o) ?seed = (f', Inr u)"
      using sel r2 that by (simp add: select_boot_def Let_def)
    have "entry_at (byte f') (part_index p) = entry_at (byte f2) (part_index p)"
      using write_otadata_slot_outside(1) [OF w] in_sector_disjoint [of "part_index p" _ "part_index ?o"]
      by (intro entry_at_cong) fastforce
    with e2 write_otadata_slot_entry [OF w] show ?thesis by simp
  qed
  show "entry_at (byte f') (part_index p) = build_otadata_entry ?new"
    using seeded fin e2 by (cases ?valid) simp_all
  show "entry_at (byte f') (part_index ?o) = (if ?valid then entry_at (byte f) (part_index ?o) else ?seed)"
    using seeded fin o2 by (cases ?valid) simp_all
qed

end

text \<open>The sequence numbers after a selection.\<close>

definition selected_seqs :: "Partition \<Rightarrow> (nat \<Rightarrow> u8) \<Rightarrow> (nat \<Rightarrow> u8) \<Rightarrow> bool" where
  "selected_seqs p m m' \<longleftrightarrow>
     (let o' = part_index (other_partition p); new = new_seq p (max_seq m) in
      slot_valid m' 0 \<and> slot_valid m' 1 \<and> slot_seq m' (part_index p) = new \<and>
      slot_seq m' o' = (if slot_valid m o' then slot_seq m o' else seed_seq (other_partition p) (max_seq m) new))"

lemma max_seq_parts: "max_seq m = max (slot_seq m (part_index p)) (slot_seq m (part_index (other_partition p)))"
  by (cases p) (simp_all add: max_seq_def part_index_def other_partition_def max.commute)

lemma slot_valid_parts: "slot_valid m 0 \<and> slot_valid m 1 \<longleftrightarrow> slot_valid m (part_index p) \<and> slot_valid m (part_index (other_partition p))"
  by (cases p) (auto simp: part_index_def other_partition_def)

lemma new_seq_bounds:
  assumes "unat s < 2 ^ 32 - 3"
  shows "new_seq p s \<noteq> 0xFFFFFFFF" and "(new_seq p s - 1) mod 2 = of_nat (part_index p)" and "s < new_seq p s"
proof -
  have "s < 0xFFFFFFFD" using assms by (simp add: word_less_nat_alt)
  then show "new_seq p s \<noteq> 0xFFFFFFFF" and "(new_seq p s - 1) mod 2 = of_nat (part_index p)" and "s < new_seq p s"
    using seq_up_above [OF assms, of p] seq_up_parity [of p "s + 1"]
    by (cases p; cases "s = 0"; simp add: new_seq_def part_index_def)+
qed

lemma seed_seq_below:
  assumes "s \<noteq> 0" and "unat s < 2 ^ 32 - 3"
  shows "seed_seq (other_partition p) s (new_seq p s) = new_seq p s - 1"
    and "new_seq p s - 1 < new_seq p s"
proof -
  let ?n = "new_seq p s"
  note n = new_seq_bounds [OF assms(2), of p]
  have pos: "1 < unat ?n" using n(3) assms(1) by (simp add: word_less_nat_alt unat_gt_0 [symmetric])
  then have pred: "unat (?n - 1) = unat ?n - 1" by (intro unat_minus_one) auto
  have nz: "?n - 1 \<noteq> 0"
  proof
    assume "?n - 1 = 0"
    then have "unat (?n - 1) = 0" by (simp only: unat_0)
    with pred pos show False by linarith
  qed
  have "of_nat (part_index p) \<noteq> (of_nat (part_index (other_partition p)) :: u32)"
    by (cases p) (simp_all add: part_index_def other_partition_def)
  then have "(?n - 1 - 1) mod 2 = of_nat (part_index (other_partition p))"
    using parity_step [of "?n - 1" "other_partition p"] n(2) by auto
  then have "seq_down (other_partition p) (?n - 1) = ?n - 1" by (subst seq_down.simps) simp
  with nz assms(1) show "seed_seq (other_partition p) s ?n = ?n - 1" by (simp add: seed_seq_def Let_def)
  show "?n - 1 < ?n" using pred pos by (simp add: word_less_nat_alt)
qed

lemma seed_seq_ok: "unat s < 2 ^ 32 - 3 \<Longrightarrow> seed_seq (other_partition p) s (new_seq p s) \<noteq> 0xFFFFFFFF"
proof (cases "s = 0")
  case True
  then show ?thesis by (cases p) (simp_all add: seed_seq_def part_index_def other_partition_def)
next
  case False
  assume "unat s < 2 ^ 32 - 3"
  note seed = seed_seq_below [OF False this, of p]
  have "unat (new_seq p s - 1) < unat (new_seq p s)" using seed(2) by (simp only: word_less_nat_alt)
  moreover have "unat (new_seq p s) < 2 ^ 32" by (rule order.strict_trans2 [OF unsigned_less]) simp
  ultimately have "unat (new_seq p s - 1) \<noteq> unat (0xFFFFFFFF :: u32)" by simp
  then show ?thesis using seed(1) by metis
qed

lemma booted_selected:
  assumes "selected_seqs p m m'" and "unat (max_seq m) < 2 ^ 32 - 3"
  shows "booted m' = (if max_seq m = 0 \<and> p = Ota0 \<and> \<not> slot_valid m 1 then Ota1 else p)"
proof (cases "max_seq m = 0")
  case True
  have "slot_seq m 0 = 0" "slot_seq m 1 = 0" using True by (auto simp: max_seq_def max_def split: if_splits)
  with True assms(1) show ?thesis
    by (cases p) (auto simp: selected_seqs_def Let_def booted_def max_seq_def new_seq_def seed_seq_def part_index_def
        other_partition_def max_def)
next
  case False
  let ?n = "new_seq p (max_seq m)" and ?o = "part_index (other_partition p)"
  note n = new_seq_bounds [OF assms(2), of p]
  have "slot_seq m ?o \<le> max_seq m" using max_seq_parts [of m p] by simp
  then have "slot_seq m' ?o < ?n"
    using assms(1) n(3) seed_seq_below [OF False assms(2), of p] by (auto simp: selected_seqs_def Let_def)
  moreover have "slot_seq m' (part_index p) = ?n" using assms(1) by (simp add: selected_seqs_def Let_def)
  ultimately have mx: "max_seq m' = ?n" using max_seq_parts [of m' p] by simp
  then have "max_seq m' \<noteq> 0" using n(3) by auto
  with mx n(2) False show ?thesis by (cases p) (simp_all add: booted_def part_index_def)
qed

context nor_flash
begin

lemma set_boot_selected:
  assumes "set_boot_partition F f p = (f', Inr u)" and "unat (max_seq (byte f)) < 2 ^ 32 - 3"
  shows "selected_seqs p (byte f) (byte f')"
proof -
  note e = set_boot_entries [OF assms(1)]
  note n = new_seq_bounds(1) [OF assms(2), of p] and s = seed_seq_ok [OF assms(2), of p]
  have "slot_valid (byte f') (part_index p)" "slot_seq (byte f') (part_index p) = new_seq p (max_seq (byte f))"
    using n by (simp_all add: slot_seq_def slot_valid_def e(1))
  moreover have "slot_valid (byte f') (part_index (other_partition p))"
    "slot_seq (byte f') (part_index (other_partition p)) = (if slot_valid (byte f) (part_index (other_partition p))
       then slot_seq (byte f) (part_index (other_partition p))
       else seed_seq (other_partition p) (max_seq (byte f)) (new_seq p (max_seq (byte f))))"
    using s by (simp_all add: slot_seq_def slot_valid_def e(2))
  ultimately show ?thesis
    using slot_valid_parts [of "byte f'" p] by (simp add: selected_seqs_def Let_def)
qed

end

section \<open>A driver that does not fail\<close>

context reliable_flash
begin

lemma read_entry_total:
  assumes "0x12000 \<le> cap f" and "slot < 2"
  shows "\<exists>f' e. read_otadata_entry F f slot = (f', Inr e) \<and> cap f' = cap f"
proof -
  obtain f' b where rd: "nf_read F f (slot_offset slot) 32 = (f', b)" by fastforce
  have "b \<noteq> None" using read_ok [of "slot_offset slot" 32 f] rd assms
    by (auto simp: unat_slot_offset slot_addr_def)
  with rd cap_read [of f "slot_offset slot" 32] show ?thesis
    by (auto simp: read_otadata_entry_def OTA_ENTRY_SIZE_def)
qed

lemma read_entries_total:
  assumes "0x12000 \<le> cap f" shows "\<exists>f' q. read_otadata_entries F f = (f', Inr q)"
proof -
  obtain f0 e0 where "read_otadata_entry F f 0 = (f0, Inr e0)" "cap f0 = cap f"
    using read_entry_total [OF assms, of 0] by auto
  moreover obtain f1 e1 where "read_otadata_entry F f0 1 = (f1, Inr e1)"
    using read_entry_total [of f0 1] assms \<open>cap f0 = cap f\<close> by auto
  ultimately show ?thesis by (simp add: read_otadata_entries_def)
qed

lemma detect_running_total:
  assumes "0x12000 \<le> cap f" shows "\<exists>f'. detect_running_partition F f = (f', Inr (booted (byte f)))"
proof -
  obtain f' q where "read_otadata_entries F f = (f', Inr q)" using read_entries_total [OF assms] by blast
  moreover obtain g r where d: "detect_running_partition F f = (g, r)" by fastforce
  ultimately obtain p where "r = Inr p"
    by (cases q) (auto simp: detect_running_partition_def read_otadata_sequences_def Let_def split: if_splits)
  with d detect_running_value(3) [OF d, of p] show ?thesis by simp
qed

lemma write_slot_total:
  assumes "0x12000 \<le> cap f" and "slot < 2" and "length e = 32"
  shows "\<exists>f'. write_otadata_slot F f slot e = (f', Inr ()) \<and> cap f' = cap f"
proof -
  let ?a = "slot_offset slot"
  note addr = unat_slot_offset [OF assms(2)] unat_slot_end [OF assms(2)]
  have fits: "slot_addr slot + 4096 \<le> cap f" "4096 dvd slot_addr slot"
    using assms(1,2) by (auto simp: slot_addr_def less_2_cases_iff)
  obtain f1 b where rd: "nf_read F f ?a 4096 = (f1, b)" by fastforce
  have c1: "cap f1 = cap f" using cap_read [of f ?a 4096] rd by simp
  have "b \<noteq> None" using read_ok [of ?a 4096 f] rd fits addr by auto
  then obtain bs where b: "b = Some bs" by blast
  have len: "length bs = 4096" using read_value [of f ?a 4096 bs] rd b by simp
  obtain f2 k where er: "nf_erase F f1 ?a (?a + SECTOR_SIZE) = (f2, k)" by fastforce
  have k: "k" using erase_ok [of ?a "?a + SECTOR_SIZE" f1] er fits c1 addr by simp
  have c2: "cap f2 = cap f" using cap_erase [of ?a "?a + SECTOR_SIZE" f1] er c1 addr by simp
  obtain f3 l where wr: "nf_write F f2 ?a (e @ drop 32 bs) = (f3, l)" by fastforce
  have "4 dvd slot_addr slot" using assms(2) by (auto simp: slot_addr_def less_2_cases_iff)
  then have l: "l" using write_ok [of ?a "e @ drop 32 bs" f2] wr fits c2 addr len assms(3) by simp
  have "cap f3 = cap f" using cap_write [of f2 ?a "e @ drop 32 bs"] wr c2 by simp
  then show ?thesis using rd er wr k l b
    by (simp add: write_otadata_slot_def Let_def SECTOR_SIZE_def OTA_ENTRY_SIZE_def)
qed

lemma set_boot_total:
  assumes "0x12000 \<le> cap f" shows "\<exists>f'. set_boot_partition F f p = (f', Inr ())"
proof -
  obtain f1 q where r: "read_otadata_entries F f = (f1, Inr q)" using read_entries_total [OF assms] by blast
  have c1: "0x12000 \<le> cap f1" using read_otadata_entries_value(2) [OF r] assms by simp
  obtain f2 where w: "write_otadata_slot F f1 (part_index p) (build_otadata_entry (new_seq p (max_seq (byte f)))) = (f2, Inr ())"
      "cap f2 = cap f1"
    using write_slot_total [OF c1, of "part_index p" "build_otadata_entry (new_seq p (max_seq (byte f)))"] by auto
  then have "0x12000 \<le> cap f2" using c1 by simp
  from write_slot_total [OF this, of "part_index (other_partition p)"
      "build_otadata_entry (seed_seq (other_partition p) (max_seq (byte f)) (new_seq p (max_seq (byte f))))"]
  obtain f3 where "write_otadata_slot F f2 (part_index (other_partition p))
      (build_otadata_entry (seed_seq (other_partition p) (max_seq (byte f)) (new_seq p (max_seq (byte f))))) = (f3, Inr ())"
    by auto
  then show ?thesis using set_boot_eq [OF r, of p] w
    by (cases "slot_valid (byte f) (part_index (other_partition p))") (simp_all add: select_boot_def Let_def)
qed

end

end
