(* ===== verification/EspOta.thy ===== *)
theory EspOta
  imports FlashProperties
begin

text \<open>
  The update writer of \<open>crates/launa-esp-ota/src/ota.rs\<close>, an implementation of the trait \<open>OtaUpdate\<close>
  of \<open>crates/launa-ota/src/lib.rs\<close>: begin, write, finalize, the checks of the image and the boot
  confirmation. Each operation returns the new state beside its result, in error cases too.
\<close>

section \<open>State\<close>

record 'f EspOtaFlash =
  ota_flash :: 'f
  running :: Partition
  target :: Partition
  write_offset :: u32
  bytes_written :: u32
  in_progress :: bool
  firmware_crc :: u32
  first_chunk_validated :: bool
  pending_bytes :: "u8 list"
  pending_len :: nat

definition ota_new :: "'f \<Rightarrow> Partition \<Rightarrow> 'f EspOtaFlash" where
  "ota_new flash run =
     \<lparr>ota_flash = flash, running = run, target = (case run of Ota0 \<Rightarrow> Ota1 | Ota1 \<Rightarrow> Ota0),
      write_offset = 0, bytes_written = 0, in_progress = False, firmware_crc = 0xFFFFFFFF,
      first_chunk_validated = False, pending_bytes = [0xFF, 0xFF, 0xFF], pending_len = 0\<rparr>"

definition target_partition :: "'f EspOtaFlash \<Rightarrow> Partition" where "target_partition s = target s"
definition running_partition :: "'f EspOtaFlash \<Rightarrow> Partition" where "running_partition s = running s"
definition into_flash :: "'f EspOtaFlash \<Rightarrow> 'f" where "into_flash s = ota_flash s"

definition ota_detect_running :: "'f NorFlash \<Rightarrow> 'f EspOtaFlash \<Rightarrow> 'f EspOtaFlash \<times> (OtaError + Partition)" where
  "ota_detect_running F s =
     (case detect_running_partition F (ota_flash s) of (f', r) \<Rightarrow> (s\<lparr>ota_flash := f'\<rparr>, r))"

section \<open>Writing an image\<close>

definition ota_begin :: "'f NorFlash \<Rightarrow> 'f EspOtaFlash \<Rightarrow> 'f EspOtaFlash \<times> (OtaError + unit)" where
  "ota_begin F s =
     (if in_progress s then (s, Inl BeginFailed)
      else case erase_range F (ota_flash s) (target s) 0 (part_size (target s)) of
          (f', Inl e) \<Rightarrow> (s\<lparr>ota_flash := f'\<rparr>, Inl e)
        | (f', Inr _) \<Rightarrow>
            (s\<lparr>ota_flash := f', write_offset := 0, bytes_written := 0, in_progress := True,
               firmware_crc := 0xFFFFFFFF, first_chunk_validated := False, pending_len := 0\<rparr>, Inr ()))"

text \<open>The part of a write after the checks: whole words go to the flash, the rest is kept.\<close>

definition ota_store :: "'f NorFlash \<Rightarrow> 'f EspOtaFlash \<Rightarrow> u8 list \<Rightarrow> u8 list \<Rightarrow> 'f EspOtaFlash \<times> (OtaError + unit)" where
  "ota_store F s data chunk =
     (let whole_words = length data div 4; remainder = length data mod 4; aligned_end = whole_words * 4 in
      case (if 0 < whole_words
            then aligned_write F (ota_flash s) (target s) (write_offset s) (take aligned_end data)
            else (ota_flash s, Inr ())) of
        (f', Inl e) \<Rightarrow> (s\<lparr>ota_flash := f'\<rparr>, Inl e)
      | (f', Inr _) \<Rightarrow>
          let s1 = (if 0 < whole_words
                    then s\<lparr>ota_flash := f', write_offset := write_offset s + of_nat aligned_end\<rparr> else s);
              s2 = (if 0 < remainder
                    then s1\<lparr>pending_bytes := drop aligned_end data @ drop remainder (pending_bytes s1),
                            pending_len := remainder\<rparr>
                    else s1)
          in (s2\<lparr>bytes_written := bytes_written s2 + of_nat (length chunk)\<rparr>, Inr ()))"

definition ota_write :: "'f NorFlash \<Rightarrow> 'f EspOtaFlash \<Rightarrow> u8 list \<Rightarrow> 'f EspOtaFlash \<times> (OtaError + unit)" where
  "ota_write F s chunk =
     (if \<not> in_progress s then (s, Inl (WriteFailed 0))
      else if chunk = [] then (s, Inr ())
      else if \<not> first_chunk_validated s \<and> hd chunk \<noteq> 0xE9 then (s, Inl InvalidImageHeader)
      else let s1 = s\<lparr>first_chunk_validated := True\<rparr> in
        if part_size (target s1) < write_offset s1 + of_nat (length chunk)
        then (s1, Inl (WriteFailed (unat (bytes_written s1))))
        else let s2 = s1\<lparr>firmware_crc := crc32_update (firmware_crc s1) chunk\<rparr> in
          if 0 < pending_len s2
          then ota_store F (s2\<lparr>pending_len := 0\<rparr>) (take (pending_len s2) (pending_bytes s2) @ chunk) chunk
          else ota_store F s2 chunk chunk)"

definition ota_finalize :: "'f NorFlash \<Rightarrow> 'f EspOtaFlash \<Rightarrow> 'f EspOtaFlash \<times> (OtaError + unit)" where
  "ota_finalize F s =
     (if \<not> in_progress s then (s, Inl FinalizeFailed)
      else if bytes_written s = 0 then (s\<lparr>in_progress := False\<rparr>, Inl FinalizeFailed)
      else case (if 0 < pending_len s
                 then aligned_write F (ota_flash s) (target s) (write_offset s) (take (pending_len s) (pending_bytes s))
                 else (ota_flash s, Inr ())) of
          (f1, Inl e) \<Rightarrow> (s\<lparr>ota_flash := f1\<rparr>, Inl e)
        | (f1, Inr _) \<Rightarrow>
            let s1 = (if 0 < pending_len s
                      then s\<lparr>ota_flash := f1, write_offset := write_offset s + of_nat (pending_len s), pending_len := 0\<rparr>
                      else s)
            in case set_boot_partition F (ota_flash s1) (target s1) of
                 (f2, Inl e) \<Rightarrow> (s1\<lparr>ota_flash := f2\<rparr>, Inl e)
               | (f2, Inr _) \<Rightarrow> (s1\<lparr>ota_flash := f2, in_progress := False\<rparr>, Inr ()))"

section \<open>Confirming the boot\<close>

definition ota_mark_valid :: "'f NorFlash \<Rightarrow> 'f EspOtaFlash \<Rightarrow> 'f EspOtaFlash \<times> (OtaError + unit)" where
  "ota_mark_valid F s =
     (case read_otadata_entries F (ota_flash s) of
        (f1, Inl e) \<Rightarrow> (s\<lparr>ota_flash := f1\<rparr>, Inl e)
      | (f1, Inr (entry0, valid0, entry1, valid1)) \<Rightarrow>
          if \<not> valid0 \<and> \<not> valid1 then (s\<lparr>ota_flash := f1\<rparr>, Inr ())
          else
            let running_slot = part_index (running s);
                running_entry = [entry0, entry1] ! running_slot;
                running_valid = [valid0, valid1] ! running_slot;
                running_seq = (if running_valid then seq_from_entry running_entry else 0);
                running_correct = (0 < running_seq \<and> (running_seq - 1) mod 2 = of_nat running_slot);
                other_valid = [valid0, valid1] ! (1 - running_slot)
            in if running_correct \<and> other_valid then (s\<lparr>ota_flash := f1\<rparr>, Inr ())
               else case set_boot_partition F f1 (running s) of (f2, r) \<Rightarrow> (s\<lparr>ota_flash := f2\<rparr>, r))"

definition ota_needs_validation :: "'f NorFlash \<Rightarrow> 'f EspOtaFlash \<Rightarrow> 'f EspOtaFlash \<times> bool" where
  "ota_needs_validation F s =
     (case read_otadata_entries F (ota_flash s) of
        (f1, Inl e) \<Rightarrow> (s\<lparr>ota_flash := f1\<rparr>, True)
      | (f1, Inr (entry0, valid0, entry1, valid1)) \<Rightarrow>
          (s\<lparr>ota_flash := f1\<rparr>,
           if \<not> valid0 \<and> \<not> valid1 then False
           else
             let running_index = part_index (running s);
                 entry = [entry0, entry1] ! running_index;
                 valid = [valid0, valid1] ! running_index;
                 seq = seq_from_entry entry
             in if \<not> valid then True
                else if seq = 0 then True
                else (seq - 1) mod 2 \<noteq> of_nat running_index))"

definition ota_rollback_and_reboot :: "'f NorFlash \<Rightarrow> 'f EspOtaFlash \<Rightarrow> 'f EspOtaFlash \<times> (OtaError + unit)" where
  "ota_rollback_and_reboot F s =
     (case set_boot_partition F (ota_flash s) (running s) of
        (f', Inl e) \<Rightarrow> (s\<lparr>ota_flash := f'\<rparr>, Inl e)
      | (f', Inr _) \<Rightarrow> (s\<lparr>ota_flash := f'\<rparr>, Inr ()))"

section \<open>Checking the image\<close>

definition ota_verify_hash :: "'f EspOtaFlash \<Rightarrow> u32 \<Rightarrow> OtaError + unit" where
  "ota_verify_hash s expected_crc =
     (if firmware_crc s \<noteq> expected_crc then Inl (HashMismatch expected_crc (firmware_crc s)) else Inr ())"

definition ota_validate_first_chunk :: "u8 list \<Rightarrow> OtaError + unit" where
  "ota_validate_first_chunk chunk =
     (if chunk = [] \<or> hd chunk \<noteq> 0xE9 then Inl InvalidImageHeader else Inr ())"

end
