(* ===== verification/EspOtaProperties.thy ===== *)
theory EspOtaProperties
  imports EspOta
begin

text \<open>
  The update writer refines its specification, an image that grows: \<open>session\<close> relates the two. A
  write that succeeds appends its chunk to the image, whatever the chunking; after a successful
  finalize the partition holds the image and is the one to boot.
\<close>

unbundle bit_operations_syntax

section \<open>Addresses\<close>

definition part_base :: "Partition \<Rightarrow> nat" where
  "part_base p = (case p of Ota0 \<Rightarrow> 0x160000 | Ota1 \<Rightarrow> 0x2A0000)"

definition in_part :: "Partition \<Rightarrow> nat \<Rightarrow> bool" where
  "in_part p i \<longleftrightarrow> part_base p \<le> i \<and> i < part_base p + 0x140000"

lemma unat_part_offset [simp]: "unat (part_offset p) = part_base p"
  by (cases p) (simp_all add: part_offset_def part_base_def flash_consts)

lemma unat_part_size [simp]: "unat (part_size p) = 0x140000"
  by (cases p) (simp_all add: part_size_def flash_consts)

lemma part_base_bounds: "0x160000 \<le> part_base p" "part_base p \<le> 0x2A0000" "4096 dvd part_base p"
  by (cases p; simp add: part_base_def)+

lemma in_otadata_bounds: "in_otadata i \<Longrightarrow> 0x10000 \<le> i \<and> i < 0x12000"
  by (auto simp: in_otadata_def in_sector_def slot_addr_def)

lemma other_partition_disjoint: "in_part p i \<Longrightarrow> \<not> in_part (other_partition p) i" "in_part p i \<Longrightarrow> \<not> in_otadata i"
  by (cases p; auto simp: in_part_def part_base_def other_partition_def dest: in_otadata_bounds)+

definition pad4 :: "u8 list \<Rightarrow> u8 list" where
  "pad4 data = (if length data mod 4 = 0 then data
                else data @ replicate ((4 - length data mod 4) mod 4) 0xFF)"

lemma round_up4: "(q * 4 + r + 3) div 4 * 4 = q * 4 + r + (4 - r) mod 4" if "r < 4" for q r :: nat
proof -
  have "r \<in> {0, 1, 2, 3}" using that by auto
  then have "(r + 3) div 4 * 4 = r + (4 - r) mod 4" by auto
  moreover have "(q * 4 + r + 3) div 4 = q + (r + 3) div 4" by (simp add: add.assoc)
  ultimately show ?thesis by (simp add: distrib_right)
qed

lemma length_pad4: "length (pad4 data) = (length data + 3) div 4 * 4"
proof -
  have "length (pad4 data) = length data + (4 - length data mod 4) mod 4" by (simp add: pad4_def)
  also have "\<dots> = (length data + 3) div 4 * 4"
    using round_up4 [of "length data mod 4" "length data div 4"] by simp
  finally show ?thesis .
qed

lemma length_pad4_words: "length (pad4 (take (length d div 4 * 4) d)) = length d div 4 * 4"
  by (simp add: pad4_def)

lemma pad4_nth:
  "j < length data \<Longrightarrow> pad4 data ! j = data ! j"
  "length data \<le> j \<Longrightarrow> j < length (pad4 data) \<Longrightarrow> pad4 data ! j = 0xFF"
  by (auto simp: pad4_def nth_append split: if_splits)

section \<open>Erasing and writing\<close>

lemma unat_base_plus:
  "n < 2 ^ 31 \<Longrightarrow> unat (part_offset p + of_nat n) = part_base p + n"
  using part_base_bounds(2) [of p] by (simp add: unat_word_ariths unat_of_nat take_bit_nat_eq_self)

context nor_flash
begin

lemma erase_sectors_value:
  assumes "erase_sectors F f base off stop = (f', r)" and "unat base + stop < 2 ^ 32"
    and "4096 dvd off" and "4096 dvd stop"
  shows "(i < unat base + off \<or> unat base + stop \<le> i \<longrightarrow> byte f' i = byte f i) \<and>
    (r = Inr () \<longrightarrow> unat base + off \<le> i \<longrightarrow> i < unat base + stop \<longrightarrow> byte f' i = 0xFF) \<and> cap f' = cap f"
  using assms(1,3)
proof (induction "stop - off" arbitrary: f off rule: less_induct)
  case less
  let ?a = "base + of_nat off :: u32"
  show ?case
  proof (cases "off < stop")
    case False
    with less.prems assms(4) show ?thesis by (auto simp: erase_sectors.simps [of F f base off stop])
  next
    case True
    then have next_le: "off + 4096 \<le> stop" using less.prems(2) assms(4)
      by (metis dvd_imp_le dvd_diff_nat le_diff_conv2 less_imp_le_nat zero_less_diff add.commute)
    have a: "unat ?a = unat base + off" "unat (?a + SECTOR_SIZE) = unat base + off + 4096"
      using assms(2) next_le by (simp_all add: unat_word_ariths unat_of_nat take_bit_nat_eq_self SECTOR_SIZE_def)
    obtain f1 k where er: "nf_erase F f ?a (?a + SECTOR_SIZE) = (f1, k)" by fastforce
    have out: "byte f1 i = byte f i" if "i < unat base + off \<or> unat base + off + 4096 \<le> i" for i
      using erase_outside [of ?a "?a + SECTOR_SIZE" i f] er a that by auto
    have inn: "k \<Longrightarrow> unat base + off \<le> i \<Longrightarrow> i < unat base + off + 4096 \<Longrightarrow> byte f1 i = 0xFF" for i
      using erase_value [of f ?a "?a + SECTOR_SIZE" i] er a by auto
    have c: "cap f1 = cap f" using cap_erase [of ?a "?a + SECTOR_SIZE" f] er a by auto
    show ?thesis
    proof (cases k)
      case False
      with less.prems(1) True er out c next_le show ?thesis
        by (auto simp: erase_sectors.simps [of F f base off stop] Let_def)
    next
      case k: True
      have rest: "erase_sectors F f1 base (off + 4096) stop = (f', r)"
        using less.prems(1) True er k by (simp add: erase_sectors.simps [of F f base off stop] Let_def)
      have dv: "4096 dvd off + 4096" using less.prems(2) by simp
      have lt: "stop - (off + 4096) < stop - off" using True by simp
      have ih: "(i < unat base + off + 4096 \<or> unat base + stop \<le> i \<longrightarrow> byte f' i = byte f1 i) \<and>
          (r = Inr () \<longrightarrow> unat base + off + 4096 \<le> i \<longrightarrow> i < unat base + stop \<longrightarrow> byte f' i = 0xFF) \<and> cap f' = cap f1"
        unfolding add.assoc by (rule less.hyps [OF lt rest dv])
      show ?thesis using ih out [of i] inn [of i] k c next_le by (cases "i < unat base + off + 4096") auto
    qed
  qed
qed

lemma erase_part_value:
  assumes "erase_range F f p 0 (part_size p) = (f', r)"
  shows "\<not> in_part p i \<Longrightarrow> byte f' i = byte f i" and "cap f' = cap f"
    and "r = Inr () \<Longrightarrow> in_part p i \<Longrightarrow> byte f' i = 0xFF"
proof -
  have "erase_sectors F f (part_offset p) 0 0x140000 = (f', r)" using assms by (simp add: erase_range_def)
  then have v: "(i < part_base p + 0 \<or> part_base p + 0x140000 \<le> i \<longrightarrow> byte f' i = byte f i) \<and>
    (r = Inr () \<longrightarrow> part_base p + 0 \<le> i \<longrightarrow> i < part_base p + 0x140000 \<longrightarrow> byte f' i = 0xFF) \<and> cap f' = cap f" for i
    using erase_sectors_value [of f "part_offset p" 0 "0x140000" f' r i] part_base_bounds(2) [of p] by simp
  show "\<not> in_part p i \<Longrightarrow> byte f' i = byte f i" and "cap f' = cap f"
    and "r = Inr () \<Longrightarrow> in_part p i \<Longrightarrow> byte f' i = 0xFF"
    using v [of i] by (auto simp: in_part_def)
qed

lemma aligned_write_value:
  assumes "aligned_write F f p off data = (f', r)" and "unat off \<le> 0x140000"
  shows "i < part_base p + unat off \<or> part_base p + unat off + length (pad4 data) \<le> i \<Longrightarrow> byte f' i = byte f i"
    and "cap f' = cap f"
    and "r = Inr () \<Longrightarrow> j < length (pad4 data) \<Longrightarrow> byte f (part_base p + unat off + j) = 0xFF \<Longrightarrow>
      byte f' (part_base p + unat off + j) = pad4 data ! j"
proof -
  let ?a = "part_offset p + off"
  have a: "unat ?a = part_base p + unat off"
    using assms(2) part_base_bounds(2) [of p] by (simp add: unat_word_ariths)
  obtain f1 k where wr: "nf_write F f ?a (pad4 data) = (f1, k)" by fastforce
  have f': "f' = f1" "r = Inr () \<longleftrightarrow> k"
    using assms(1) wr by (auto simp: aligned_write_def Let_def pad4_def [symmetric] split: bool.splits)
  show "i < part_base p + unat off \<or> part_base p + unat off + length (pad4 data) \<le> i \<Longrightarrow> byte f' i = byte f i"
    using write_outside [of i ?a "pad4 data" f] wr f' a by auto
  show "cap f' = cap f" using cap_write [of f ?a "pad4 data"] wr f' by simp
  show "r = Inr () \<Longrightarrow> j < length (pad4 data) \<Longrightarrow> byte f (part_base p + unat off + j) = 0xFF \<Longrightarrow>
      byte f' (part_base p + unat off + j) = pad4 data ! j"
    using write_value [of f ?a "pad4 data" j] wr f' a by auto
qed

end

section \<open>The specification: a growing image\<close>

text \<open>The part of an image that is in the flash: its whole words.\<close>

definition stored :: "u8 list \<Rightarrow> nat" where
  "stored img = length img div 4 * 4"

definition holds :: "(nat \<Rightarrow> u8) \<Rightarrow> Partition \<Rightarrow> u8 list \<Rightarrow> bool" where
  "holds m p img \<longleftrightarrow> (\<forall>i < 0x140000. m (part_base p + i) = (if i < length img then img ! i else 0xFF))"

definition session :: "('f \<Rightarrow> nat \<Rightarrow> u8) \<Rightarrow> 'f EspOtaFlash \<Rightarrow> u8 list \<Rightarrow> bool" where
  "session byte s img \<longleftrightarrow>
     in_progress s \<and> first_chunk_validated s = (img \<noteq> []) \<and> (img \<noteq> [] \<longrightarrow> hd img = 0xE9) \<and>
     unat (write_offset s) = stored img \<and> stored img \<le> 0x140000 \<and>
     unat (bytes_written s) = length img \<and>
     pending_len s = length img mod 4 \<and> length (pending_bytes s) = 3 \<and>
     take (pending_len s) (pending_bytes s) = drop (stored img) img \<and>
     firmware_crc s = crc32 img \<and>
     holds (byte (ota_flash s)) (target s) (take (stored img) img)"

lemma stored_le: "stored img \<le> length img" "length img - stored img = length img mod 4" "4 dvd stored img"
  by (simp_all add: stored_def minus_div_mult_eq_mod)

lemma words_append: "(n + m) div 4 * 4 = n div 4 * 4 + (n mod 4 + m) div 4 * 4" for n m :: nat
proof -
  have "n + m = 4 * (n div 4) + (n mod 4 + m)" by simp
  then have "(n + m) div 4 = n div 4 + (n mod 4 + m) div 4"
    by (metis div_mult_self2 add.commute zero_neq_numeral)
  then show ?thesis by simp
qed

lemma stored_append:
  "stored (img @ c) = stored img + length (drop (stored img) img @ c) div 4 * 4"
  "length (img @ c) mod 4 = length (drop (stored img) img @ c) mod 4"
proof -
  have l: "length (drop (stored img) img @ c) = length img mod 4 + length c"
    by (simp add: stored_le(2))
  show "stored (img @ c) = stored img + length (drop (stored img) img @ c) div 4 * 4"
    unfolding l unfolding stored_def length_append by (rule words_append)
  show "length (img @ c) mod 4 = length (drop (stored img) img @ c) mod 4"
    unfolding l unfolding length_append by (rule mod_add_left_eq [symmetric])
qed

definition write_fits :: "'f EspOtaFlash \<Rightarrow> u8 list \<Rightarrow> bool" where
  "write_fits s c \<longleftrightarrow> unat (write_offset s) + length c \<le> 0x140000"

lemma fits_stored:
  assumes "unat (write_offset s) = stored img" and "write_fits s c"
  shows "stored (img @ c) \<le> 0x140000"
proof -
  have "stored (img @ c) \<le> 0x140003"
    using assms stored_le(1) [of "img @ c"] stored_le(2) [of img] by (simp add: write_fits_def)
  moreover obtain k where "stored (img @ c) = 4 * k" using stored_le(3) [of "img @ c"] by (rule dvdE)
  ultimately show ?thesis by simp
qed

lemma crc32_append: "crc32 (xs @ ys) = crc32_update (crc32 xs) ys"
  by (simp add: crc32_def crc32_update_def)

context nor_flash
begin

lemma begin_session:
  assumes "ota_begin F s = (s', Inr ())" and "length (pending_bytes s) = 3"
  shows "session byte s' []"
proof -
  obtain f' where er: "erase_range F (ota_flash s) (target s) 0 (part_size (target s)) = (f', Inr ())"
    and s': "s' = s\<lparr>ota_flash := f', write_offset := 0, bytes_written := 0, in_progress := True,
               firmware_crc := 0xFFFFFFFF, first_chunk_validated := False, pending_len := 0\<rparr>"
    using assms(1) by (auto simp: ota_begin_def split: if_splits prod.splits sum.splits)
  have "byte f' (part_base (target s) + i) = 0xFF" if "i < 0x140000" for i
    using erase_part_value(3) [OF er refl, of "part_base (target s) + i"] that by (simp add: in_part_def)
  then show ?thesis
    using assms(2) by (simp add: s' session_def holds_def stored_def crc32_def crc32_update_def)
qed

text \<open>Storing the whole words of what is to be written.\<close>

lemma store_words:
  assumes "aligned_write F f p off (take n data) = (f', Inr ())" and "unat off = k" and "k + n \<le> 0x140000"
    and "n \<le> length data" and "4 dvd n" and "holds (byte f) p (take k img)" and "k \<le> length img"
    and "data = drop k img"
  shows "holds (byte f') p (take (k + n) img)"
proof -
  have len: "pad4 (take n data) = take n data" "length (take n data) = n" using assms(4,5) by (simp_all add: pad4_def)
  note w = aligned_write_value [OF assms(1), unfolded len]
  have "byte f' (part_base p + i) = (if i < length (take (k + n) img) then take (k + n) img ! i else 0xFF)"
    if i: "i < 0x140000" for i
  proof (cases "k \<le> i \<and> i < k + n")
    case True
    then obtain j where j: "i = k + j" "j < n" using le_Suc_ex [of k i] by auto
    have "byte f (part_base p + i) = 0xFF" using assms(6) i True by (simp add: holds_def)
    then have "byte f' (part_base p + i) = take n data ! j"
      using w(3) [of j] j assms(2,3) by (simp add: add.assoc)
    then show ?thesis using j assms(4,7,8) by simp
  next
    case False
    then have "byte f' (part_base p + i) = byte f (part_base p + i)"
      using assms(2,3) by (intro w(1)) auto
    then show ?thesis using assms(4,6,7,8) i False by (auto simp: holds_def)
  qed
  then show ?thesis by (simp add: holds_def)
qed

end

text \<open>A write is the storing of what is pending, followed by the chunk.\<close>

definition write_start :: "'f EspOtaFlash \<Rightarrow> u8 list \<Rightarrow> 'f EspOtaFlash" where
  "write_start s img = s\<lparr>first_chunk_validated := True, firmware_crc := crc32 img, pending_len := 0\<rparr>"

lemma write_start_sel [simp]:
  "ota_flash (write_start s img) = ota_flash s" "target (write_start s img) = target s"
  "write_offset (write_start s img) = write_offset s" "running (write_start s img) = running s"
  "bytes_written (write_start s img) = bytes_written s" "in_progress (write_start s img) = in_progress s"
  "pending_bytes (write_start s img) = pending_bytes s" "pending_len (write_start s img) = 0"
  "first_chunk_validated (write_start s img)" "firmware_crc (write_start s img) = crc32 img"
  by (simp_all add: write_start_def)

lemma size_check:
  assumes "unat (write_offset s) \<le> 0x140000" and "length c < 2 ^ 31"
  shows "part_size p < write_offset s + of_nat (length c) \<longleftrightarrow> \<not> write_fits s c"
  using assms by (simp add: word_less_nat_alt unat_word_ariths unat_of_nat take_bit_nat_eq_self write_fits_def not_le)

lemma write_eq:
  assumes "session byte s img" and "c \<noteq> []" and "length c < 2 ^ 31"
  shows "ota_write F s c =
    (if img = [] \<and> hd c \<noteq> 0xE9 then (s, Inl InvalidImageHeader)
     else if \<not> write_fits s c then (s\<lparr>first_chunk_validated := True\<rparr>, Inl (WriteFailed (length img)))
     else ota_store F (write_start s (img @ c)) (drop (stored img) (img @ c)) c)"
proof -
  have s: "in_progress s" "first_chunk_validated s = (img \<noteq> [])" "unat (write_offset s) \<le> 0x140000"
    "unat (bytes_written s) = length img" "pending_len s = length img mod 4"
    "take (pending_len s) (pending_bytes s) = drop (stored img) img" "firmware_crc s = crc32 img"
    using assms(1) unfolding session_def by auto
  have data: "drop (stored img) (img @ c) = drop (stored img) img @ c" using stored_le(1) [of img] by simp
  show ?thesis
  proof (cases "pending_len s = 0")
    case True
    then have "drop (stored img) img = []" using s(6) by simp
    moreover have "write_start s (img @ c) = s\<lparr>first_chunk_validated := True, firmware_crc := crc32_update (crc32 img) c\<rparr>"
      using True by (cases s) (simp add: write_start_def crc32_append)
    ultimately show ?thesis using True assms(2) s data
      by (simp add: ota_write_def Let_def size_check [OF s(3) assms(3)])
  next
    case False
    with assms(2) s data show ?thesis
      by (simp add: ota_write_def Let_def size_check [OF s(3) assms(3)] write_start_def crc32_append)
  qed
qed

text \<open>What a successful storing does, the flash apart.\<close>

definition store_end :: "'f EspOtaFlash \<Rightarrow> 'f \<Rightarrow> u8 list \<Rightarrow> u8 list \<Rightarrow> 'f EspOtaFlash" where
  "store_end t f' data c =
     (let n = length data div 4 * 4; r = length data mod 4 in
      t\<lparr>ota_flash := f', write_offset := write_offset t + of_nat n,
        bytes_written := bytes_written t + of_nat (length c),
        pending_bytes := (if r = 0 then pending_bytes t else drop n data @ drop r (pending_bytes t)),
        pending_len := r\<rparr>)"

lemma store_end_sel [simp]:
  "pending_len (store_end t f' data c) = length data mod 4" "ota_flash (store_end t f' data c) = f'"
  "target (store_end t f' data c) = target t" "running (store_end t f' data c) = running t"
  "in_progress (store_end t f' data c) = in_progress t"
  "first_chunk_validated (store_end t f' data c) = first_chunk_validated t"
  "firmware_crc (store_end t f' data c) = firmware_crc t"
  "bytes_written (store_end t f' data c) = bytes_written t + of_nat (length c)"
  "write_offset (store_end t f' data c) = write_offset t + of_nat (length data div 4 * 4)"
  by (simp_all add: store_end_def Let_def)

lemma length_store_pending: "length (pending_bytes t) = 3 \<Longrightarrow> length (pending_bytes (store_end t f' data c)) = 3"
  by (simp add: store_end_def Let_def minus_div_mult_eq_mod)

lemma store_result:
  assumes "ota_store F t data c = (t', Inr ())" and "pending_len t = 0"
  obtains "length data div 4 = 0" and "t' = store_end t (ota_flash t) data c"
  | f' where "length data div 4 \<noteq> 0"
    and "aligned_write F (ota_flash t) (target t) (write_offset t) (take (length data div 4 * 4) data) = (f', Inr ())"
    and "t' = store_end t f' data c"
proof (cases "length data div 4 = 0")
  case True
  then have "length data div 4 * 4 = 0" by simp
  with True assms that(1) show ?thesis
    by (cases "length data mod 4 = 0"; cases t) (simp_all add: ota_store_def Let_def store_end_def)
next
  case False
  obtain f' r where w: "aligned_write F (ota_flash t) (target t) (write_offset t) (take (length data div 4 * 4) data) = (f', r)"
    by fastforce
  with assms(1) False have r: "r = Inr ()" by (cases r) (simp_all add: ota_store_def Let_def)
  with w False assms show ?thesis
    by (intro that(2) [of f']; cases t) (simp_all add: ota_store_def Let_def store_end_def split: if_splits)
qed

lemma take_length_append: "length xs = n \<Longrightarrow> take n (xs @ ys) = xs"
  by simp

context nor_flash
begin

lemma store_session:
  assumes "ota_store F (write_start s (img @ c)) (drop (stored img) (img @ c)) c = (s', Inr ())"
    and "session byte s img" and "c \<noteq> []" and "write_fits s c" and "img = [] \<longrightarrow> hd c = 0xE9" and "length c < 2 ^ 31"
  shows "session byte s' (img @ c)"
proof -
  let ?data = "drop (stored img) (img @ c)" and ?k = "stored img"
  define n where "n = length ?data div 4 * 4"
  have k: "unat (write_offset s) = ?k" "?k \<le> length img" using assms(2) stored_le by (simp_all add: session_def)
  have st: "stored (img @ c) = ?k + n" "length (img @ c) mod 4 = length ?data mod 4"
    using stored_append [of img c] k(2) by (simp_all add: n_def)
  have fits: "?k + n \<le> 0x140000" using fits_stored [OF k(1) assms(4)] st(1) by simp
  have n4: "n \<le> length ?data" "4 dvd n" "length ?data - n = length ?data mod 4"
    by (simp_all add: n_def minus_div_mult_eq_mod)
  obtain f' where held: "holds (byte f') (target s) (take (stored (img @ c)) (img @ c))"
    and s': "s' = store_end (write_start s (img @ c)) f' ?data c"
  proof (rule store_result [OF assms(1)])
    show "pending_len (write_start s (img @ c)) = 0" by (simp add: write_start_def)
  next
    assume a: "length ?data div 4 = 0" "s' = store_end (write_start s (img @ c)) (ota_flash (write_start s (img @ c))) ?data c"
    then have "stored (img @ c) = ?k" using st(1) by (simp only: n_def)
    with a(2) assms(2) k(2) show thesis
      by (intro that [of "ota_flash s"]) (simp_all add: write_start_def session_def)
  next
    fix f'
    assume w: "aligned_write F (ota_flash (write_start s (img @ c))) (target (write_start s (img @ c)))
        (write_offset (write_start s (img @ c))) (take (length ?data div 4 * 4) ?data) = (f', Inr ())"
      and e: "s' = store_end (write_start s (img @ c)) f' ?data c"
    have "aligned_write F (ota_flash s) (target s) (write_offset s) (take n ?data) = (f', Inr ())"
      using w by (simp only: write_start_sel n_def)
    moreover have "holds (byte (ota_flash s)) (target s) (take ?k (img @ c))"
      using assms(2) k(2) by (simp add: session_def)
    ultimately have "holds (byte f') (target s) (take (?k + n) (img @ c))"
      using k fits n4 by (intro store_words [of "ota_flash s" "target s" "write_offset s" n ?data]) simp_all
    with st(1) e show thesis by (intro that [of f']) simp_all
  qed
  have rest: "length (drop n ?data) = length ?data mod 4" using n4(3) by (simp only: length_drop)
  have dropped: "drop n ?data = drop (stored (img @ c)) (img @ c)"
    unfolding st(1) drop_drop by (simp only: add.commute)
  note pend = take_length_append [OF rest]
  have small: "length img \<le> 0x140003" using fits k(2) stored_le(2) [of img] assms(2) by (simp add: session_def)
  have words: "unat (write_offset s + of_nat n) = stored (img @ c)"
    "unat (bytes_written s + of_nat (length c)) = length (img @ c)"
    using assms(2,6) small k(1) st(1) fits
    by (simp_all add: session_def unat_word_ariths unat_of_nat take_bit_nat_eq_self)
  have "take (pending_len s') (pending_bytes s') = drop (stored (img @ c)) (img @ c)"
  proof (cases "length ?data mod 4 = 0")
    case True
    then have "drop (stored (img @ c)) (img @ c) = []" using rest dropped by (metis length_0_conv)
    with True show ?thesis by (simp only: s' store_end_def Let_def) simp
  next
    case False
    have "pending_len s' = length ?data mod 4"
      "pending_bytes s' = drop n ?data @ drop (length ?data mod 4) (pending_bytes s)"
      using False by (simp_all only: s' store_end_def Let_def n_def) simp_all
    then show ?thesis using pend dropped by (simp only:)
  qed
  moreover have "length (pending_bytes s') = 3"
    unfolding s' using assms(2) by (intro length_store_pending) (simp add: session_def)
  moreover have "pending_len s' = length (img @ c) mod 4" using st(2) by (simp only: s' store_end_sel)
  moreover have "hd (img @ c) = 0xE9" using assms(2,3,5) by (cases img) (simp_all add: session_def)
  ultimately show ?thesis
    using assms(2,3,5) held words st(1) fits
    unfolding session_def by (simp add: s' n_def [symmetric] del: length_drop drop_append)
qed

text \<open>A write that succeeds appends its chunk to the image.\<close>

lemma write_session:
  assumes "session byte s img" and "ota_write F s c = (s', Inr ())" and "length c < 2 ^ 31"
  shows "session byte s' (img @ c)"
proof (cases "c = []")
  case True
  then have "s' = s" using assms(1,2) by (simp add: ota_write_def session_def)
  with assms(1) True show ?thesis by simp
next
  case False
  from assms(2) write_eq [OF assms(1) False assms(3), of F] show ?thesis
    by (intro store_session [of s img c s'] assms(1,3) False) (auto split: if_splits)
qed

lemma store_frame:
  assumes "ota_store F t data c = (t', r)" and "unat (write_offset t) + length data div 4 * 4 \<le> 0x140000"
  shows "\<not> in_part (target t) i \<Longrightarrow> byte (ota_flash t') i = byte (ota_flash t) i"
    and "target t' = target t" and "running t' = running t" and "cap (ota_flash t') = cap (ota_flash t)"
proof -
  let ?n = "length data div 4 * 4"
  obtain f1 r1 where w: "aligned_write F (ota_flash t) (target t) (write_offset t) (take ?n data) = (f1, r1)" by fastforce
  have len: "length (pad4 (take ?n data)) = ?n" by (simp add: pad4_def)
  have off: "unat (write_offset t) \<le> 0x140000" using assms(2) by simp
  note v = aligned_write_value [OF w off, unfolded len]
  have out: "\<not> in_part (target t) i \<Longrightarrow> byte f1 i = byte (ota_flash t) i" for i
    using assms(2) by (intro v(1)) (auto simp: in_part_def)
  have fl: "ota_flash t' = f1 \<or> ota_flash t' = ota_flash t"
    using assms(1) w by (auto simp: ota_store_def Let_def split: if_splits sum.splits)
  then show "\<not> in_part (target t) i \<Longrightarrow> byte (ota_flash t') i = byte (ota_flash t) i"
    and "cap (ota_flash t') = cap (ota_flash t)"
    using out v(2) by auto
  show "target t' = target t" and "running t' = running t"
    using assms(1) by (auto simp: ota_store_def Let_def split: if_splits sum.splits prod.splits)
qed

lemma write_frame:
  assumes "session byte s img" and "ota_write F s c = (s', r)" and "length c < 2 ^ 31"
  shows "\<not> in_part (target s) i \<Longrightarrow> byte (ota_flash s') i = byte (ota_flash s) i"
    and "target s' = target s" and "running s' = running s" and "cap (ota_flash s') = cap (ota_flash s)"
proof -
  let ?t = "write_start s (img @ c)" and ?data = "drop (stored img) (img @ c)"
  have "(\<not> in_part (target s) i \<longrightarrow> byte (ota_flash s') i = byte (ota_flash s) i) \<and>
    target s' = target s \<and> running s' = running s \<and> cap (ota_flash s') = cap (ota_flash s)" for i
  proof (cases "c \<noteq> [] \<and> (img = [] \<longrightarrow> hd c = 0xE9) \<and> write_fits s c")
    case True
    then have st: "ota_store F ?t ?data c = (s', r)"
      using write_eq [OF assms(1) _ assms(3), of F] assms(2) by auto
    have "stored (img @ c) = stored img + length ?data div 4 * 4"
      using stored_append(1) [of img c] stored_le(1) [of img] by simp
    moreover have o: "unat (write_offset s) = stored img" using assms(1) by (simp add: session_def)
    ultimately have "unat (write_offset ?t) + length ?data div 4 * 4 \<le> 0x140000"
      using fits_stored [OF o, of c] True by simp
    from store_frame [OF st this] show ?thesis by simp
  next
    case False
    show ?thesis
    proof (cases "c = []")
      case True
      then show ?thesis using assms(1,2) by (simp add: ota_write_def session_def)
    next
      case c: False
      with False have "s' = s \<or> s' = s\<lparr>first_chunk_validated := True\<rparr>"
        using write_eq [OF assms(1) c assms(3), of F] assms(2) by (auto split: if_splits)
      then show ?thesis by auto
    qed
  qed
  then show "\<not> in_part (target s) i \<Longrightarrow> byte (ota_flash s') i = byte (ota_flash s) i"
    and "target s' = target s" and "running s' = running s" and "cap (ota_flash s') = cap (ota_flash s)"
    by auto
qed

end

section \<open>Finalizing\<close>

lemma entry_at_otadata:
  "(\<And>i. in_otadata i \<Longrightarrow> m i = m' i) \<Longrightarrow> slot < 2 \<Longrightarrow> entry_at m slot = entry_at m' slot"
  by (rule entry_at_cong) (auto simp: in_otadata_def less_2_cases_iff)

lemma selection_cong:
  assumes "\<And>i. in_otadata i \<Longrightarrow> m i = m' i"
  shows "max_seq m = max_seq m'" and "slot < 2 \<Longrightarrow> slot_valid m slot = slot_valid m' slot"
    and "slot < 2 \<Longrightarrow> slot_seq m slot = slot_seq m' slot" and "booted m = booted m'"
proof -
  have "entry_at m 0 = entry_at m' 0" "entry_at m 1 = entry_at m' 1"
    using entry_at_otadata [of m m', OF assms] by auto
  then have e: "slot < 2 \<Longrightarrow> entry_at m slot = entry_at m' slot" for slot by (auto simp: less_2_cases_iff)
  show "slot < 2 \<Longrightarrow> slot_valid m slot = slot_valid m' slot"
    and sq: "slot < 2 \<Longrightarrow> slot_seq m slot = slot_seq m' slot" for slot
    using e [of slot] by (simp_all add: slot_seq_def slot_valid_def)
  show mx: "max_seq m = max_seq m'" using sq [of 0] sq [of 1] by (simp add: max_seq_def)
  then show "booted m = booted m'" by (simp add: booted_def)
qed

lemma holds_cong: "(\<And>i. in_part p i \<Longrightarrow> m i = m' i) \<Longrightarrow> holds m p img = holds m' p img"
  by (simp add: holds_def in_part_def)

context nor_flash
begin

lemma flush_value:
  assumes "session byte s img" and "length img \<le> 0x140000"
    and "aligned_write F (ota_flash s) (target s) (write_offset s) (drop (stored img) img) = (f', Inr ())"
    and "pending_len s \<noteq> 0"
  shows "holds (byte f') (target s) img" and "\<not> in_part (target s) i \<Longrightarrow> byte f' i = byte (ota_flash s) i"
proof -
  let ?k = "stored img" and ?d = "drop (stored img) img"
  have k: "unat (write_offset s) = ?k" "?k \<le> length img" "holds (byte (ota_flash s)) (target s) (take ?k img)"
    using assms(1) stored_le by (simp_all add: session_def)
  have r: "0 < length img mod 4" using assms(1,4) by (simp add: session_def)
  have off: "unat (write_offset s) \<le> 0x140000" using assms(2) k by simp
  note w = aligned_write_value [OF assms(3) off]
  have len: "length (pad4 ?d) = 4"
  proof -
    have "length ?d = length img mod 4" using stored_le(2) by simp
    then have "1 \<le> length ?d" "length ?d \<le> 3" using r by linarith+
    then show ?thesis unfolding length_pad4 by (cases "length ?d = 1"; cases "length ?d = 2") simp_all
  qed
  have fit: "?k + 4 \<le> 0x140000"
  proof -
    obtain j where "?k = 4 * j" using stored_le(3) [of img] by (rule dvdE)
    moreover have "?k < length img" using stored_le(2) [of img] r by linarith
    ultimately show ?thesis using assms(2) by simp
  qed
  show "byte f' i = byte (ota_flash s) i" if "\<not> in_part (target s) i"
    using that fit k(1) len by (intro w(1)) (auto simp: in_part_def)
  have "byte f' (part_base (target s) + i) = (if i < length img then img ! i else 0xFF)" if i: "i < 0x140000" for i
  proof (cases "?k \<le> i \<and> i < ?k + 4")
    case True
    then obtain j where j: "i = ?k + j" "j < 4" using le_Suc_ex [of ?k i] by auto
    have "byte (ota_flash s) (part_base (target s) + i) = 0xFF" using k(3) i True by (simp add: holds_def)
    then have "byte f' (part_base (target s) + i) = pad4 ?d ! j"
      using w(3) [of j] j k(1) len by (simp add: add.assoc)
    then show ?thesis using j k(2) len pad4_nth(1) [of j ?d] pad4_nth(2) [of ?d j] by (auto simp: less_diff_conv add.commute)
  next
    case False
    then have "byte f' (part_base (target s) + i) = byte (ota_flash s) (part_base (target s) + i)"
      using k(1) len by (intro w(1)) auto
    moreover have "length img < ?k + 4" using stored_le(2) [of img] by linarith
    ultimately show ?thesis using k(2,3) i False by (auto simp: holds_def)
  qed
  then show "holds (byte f') (target s) img" by (simp add: holds_def)
qed

lemma finalize_value:
  assumes "session byte s img" and "img \<noteq> []" and "length img \<le> 0x140000" and "ota_finalize F s = (s', Inr ())"
  obtains f1 where "set_boot_partition F f1 (target s) = (ota_flash s', Inr ())" and "holds (byte f1) (target s) img"
    and "\<And>i. \<not> in_part (target s) i \<Longrightarrow> byte f1 i = byte (ota_flash s) i" and "target s' = target s"
    and "firmware_crc s' = crc32 img"
proof -
  have ip: "in_progress s" "bytes_written s \<noteq> 0" "take (pending_len s) (pending_bytes s) = drop (stored img) img"
    "firmware_crc s = crc32 img"
    using assms(1,2) unfolding session_def by auto
  show thesis
  proof (cases "pending_len s = 0")
    case True
    then have "take (stored img) img = img" using ip(3) by simp
    with assms(1) have "holds (byte (ota_flash s)) (target s) img" by (simp add: session_def)
    with True ip assms(4) show thesis
      by (intro that [of "ota_flash s"]) (auto simp: ota_finalize_def Let_def split: prod.splits sum.splits)
  next
    case False
    obtain f1 r1 where w: "aligned_write F (ota_flash s) (target s) (write_offset s) (drop (stored img) img) = (f1, r1)"
      by fastforce
    have r1: "r1 = Inr ()" using False ip assms(4) w by (cases r1) (auto simp: ota_finalize_def Let_def)
    note v = flush_value [OF assms(1,3) w [unfolded r1] False]
    show thesis using False ip assms(4) w r1 v
      by (intro that [of f1]) (auto simp: ota_finalize_def Let_def split: prod.splits sum.splits)
  qed
qed

end

section \<open>A driver that does not fail\<close>

lemma part_base_aligned: "4 dvd part_base p" "4096 dvd part_base p"
  by (cases p; simp add: part_base_def)+

context reliable_flash
begin

lemma erase_sectors_total:
  assumes "unat base + stop \<le> cap f" and "unat base + stop < 2 ^ 32" and "4096 dvd off" and "4096 dvd stop"
    and "4096 dvd unat base"
  shows "snd (erase_sectors F f base off stop) = Inr ()"
  using assms(1,3)
proof (induction "stop - off" arbitrary: f off rule: less_induct)
  case less
  let ?a = "base + of_nat off :: u32"
  show ?case
  proof (cases "off < stop")
    case False
    then show ?thesis by (simp add: erase_sectors.simps [of F f base off stop])
  next
    case True
    then have next_le: "off + 4096 \<le> stop" using less.prems(2) assms(4)
      by (metis dvd_imp_le dvd_diff_nat le_diff_conv2 less_imp_le_nat zero_less_diff add.commute)
    have a: "unat ?a = unat base + off" "unat (?a + SECTOR_SIZE) = unat base + off + 4096"
      using assms(2) next_le by (simp_all add: unat_word_ariths unat_of_nat take_bit_nat_eq_self SECTOR_SIZE_def)
    obtain f1 k where er: "nf_erase F f ?a (?a + SECTOR_SIZE) = (f1, k)" by fastforce
    have k: "k" using erase_ok [of ?a "?a + SECTOR_SIZE" f] er a assms(5) less.prems next_le by simp
    have c: "cap f1 = cap f" using cap_erase [of ?a "?a + SECTOR_SIZE" f] er a by auto
    have dv: "4096 dvd off + 4096" using less.prems(2) by simp
    have lt: "stop - (off + 4096) < stop - off" using True by simp
    have "snd (erase_sectors F f1 base (off + 4096) stop) = Inr ()"
      using less.prems(1) c by (intro less.hyps [OF lt _ dv]) simp
    with True er k show ?thesis by (simp add: erase_sectors.simps [of F f base off stop] Let_def)
  qed
qed

lemma aligned_write_total:
  assumes "part_base p + unat off + length (pad4 data) \<le> cap f" and "unat off \<le> 0x140000" and "4 dvd unat off"
  shows "snd (aligned_write F f p off data) = Inr ()"
proof -
  let ?a = "part_offset p + off"
  have a: "unat ?a = part_base p + unat off"
    using assms(2) part_base_bounds(2) [of p] by (simp add: unat_word_ariths)
  have "4 dvd length (pad4 data)" by (simp add: length_pad4)
  then have "snd (nf_write F f ?a (pad4 data))"
    using assms(1,3) a part_base_aligned(1) [of p] by (intro write_ok) simp_all
  then show ?thesis
    by (cases "nf_write F f ?a (pad4 data)") (simp add: aligned_write_def Let_def pad4_def)
qed

lemma begin_total:
  assumes "\<not> in_progress s" and "part_base (target s) + 0x140000 \<le> cap (ota_flash s)"
  shows "snd (ota_begin F s) = Inr ()"
proof -
  have "snd (erase_range F (ota_flash s) (target s) 0 (part_size (target s))) = Inr ()"
    using assms(2) part_base_bounds(2) [of "target s"] part_base_aligned(2)
    by (simp add: erase_range_def erase_sectors_total)
  with assms(1) show ?thesis by (auto simp: ota_begin_def split: prod.splits)
qed

lemma write_total:
  assumes "session byte s img" and "img = [] \<longrightarrow> c = [] \<or> hd c = 0xE9" and "write_fits s c"
    and "length c < 2 ^ 31" and "part_base (target s) + 0x140000 \<le> cap (ota_flash s)"
  shows "snd (ota_write F s c) = Inr ()"
proof (cases "c = []")
  case True
  with assms(1) show ?thesis by (simp add: ota_write_def session_def)
next
  case False
  let ?data = "drop (stored img) (img @ c)"
  let ?n = "length ?data div 4 * 4"
  have o: "unat (write_offset s) = stored img" "stored img \<le> 0x140000" using assms(1) by (simp_all add: session_def)
  have "stored (img @ c) = stored img + ?n" using stored_append(1) [of img c] stored_le(1) [of img] by simp
  then have fit: "stored img + ?n \<le> 0x140000" using fits_stored [OF o(1) assms(3)] by simp
  have "length (pad4 (take ?n ?data)) = ?n" by (rule length_pad4_words)
  then have w: "snd (aligned_write F (ota_flash s) (target s) (write_offset s) (take ?n ?data)) = Inr ()"
    using o fit assms(5) stored_le(3) [of img] by (intro aligned_write_total) simp_all
  have st: "snd (ota_store F (write_start s (img @ c)) d c) = Inr ()"
    if "snd (aligned_write F (ota_flash s) (target s) (write_offset s) (take (length d div 4 * 4) d)) = Inr ()" for d
    using that by (auto simp: ota_store_def Let_def split: prod.splits)
  have "ota_write F s c = ota_store F (write_start s (img @ c)) ?data c"
    using write_eq [OF assms(1) False assms(4), of F] assms(2,3) False by auto
  then show ?thesis using st [OF w] by (simp only:)
qed

lemma finalize_total:
  assumes "session byte s img" and "img \<noteq> []" and "length img \<le> 0x140000"
    and "part_base (target s) + 0x140000 \<le> cap (ota_flash s)"
  shows "snd (ota_finalize F s) = Inr ()"
proof -
  have ip: "in_progress s" "bytes_written s \<noteq> 0" "take (pending_len s) (pending_bytes s) = drop (stored img) img"
    "pending_len s = length img mod 4" "unat (write_offset s) = stored img" "stored img \<le> 0x140000"
    using assms(1,2) unfolding session_def by auto
  have boot: "snd (set_boot_partition F f p) = Inr ()" if "0x12000 \<le> cap f" for f p
    using set_boot_total [OF that, of p] by auto
  have big: "0x12000 \<le> cap (ota_flash s)" using assms(4) part_base_bounds(1) [of "target s"] by simp
  show ?thesis
  proof (cases "pending_len s = 0")
    case True
    with ip boot [OF big, of "target s"] show ?thesis
      by (auto simp: ota_finalize_def Let_def split: prod.splits)
  next
    case False
    obtain f1 r1 where w: "aligned_write F (ota_flash s) (target s) (write_offset s) (drop (stored img) img) = (f1, r1)"
      by fastforce
    have "length (pad4 (drop (stored img) img)) = (length img mod 4 + 3) div 4 * 4"
      by (simp add: length_pad4 stored_le(2))
    then have "length (pad4 (drop (stored img) img)) \<le> 4" using mod_less_divisor [of 4 "length img"] by simp
    moreover have "stored img + 4 \<le> 0x140000"
    proof -
      obtain j where "stored img = 4 * j" using stored_le(3) [of img] by (rule dvdE)
      moreover have "stored img < length img" using stored_le(2) [of img] False ip(4) by linarith
      ultimately show ?thesis using assms(3) by simp
    qed
    ultimately have "r1 = Inr ()"
      using aligned_write_total [of "target s" "write_offset s" "drop (stored img) img" "ota_flash s"]
        assms(4) ip(5,6) stored_le(3) [of img] w by simp
    moreover have "cap f1 = cap (ota_flash s)" using aligned_write_value(2) [OF w] ip(5,6) by simp
    ultimately show ?thesis using False ip w boot [of f1 "target s"] big
      by (auto simp: ota_finalize_def Let_def split: prod.splits)
  qed
qed

end

section \<open>A whole update\<close>

fun ota_write_all :: "'f NorFlash \<Rightarrow> 'f EspOtaFlash \<Rightarrow> u8 list list \<Rightarrow> 'f EspOtaFlash \<times> (OtaError + unit)" where
  "ota_write_all F s [] = (s, Inr ())"
| "ota_write_all F s (c # cs) =
     (case ota_write F s c of (s', Inl e) \<Rightarrow> (s', Inl e) | (s', Inr _) \<Rightarrow> ota_write_all F s' cs)"

definition ota_install :: "'f NorFlash \<Rightarrow> 'f EspOtaFlash \<Rightarrow> u8 list list \<Rightarrow> 'f EspOtaFlash \<times> (OtaError + unit)" where
  "ota_install F s chunks =
     (case ota_begin F s of
        (s1, Inl e) \<Rightarrow> (s1, Inl e)
      | (s1, Inr _) \<Rightarrow>
          (case ota_write_all F s1 chunks of (s2, Inl e) \<Rightarrow> (s2, Inl e) | (s2, Inr _) \<Rightarrow> ota_finalize F s2))"

context nor_flash
begin

lemma write_all_session:
  assumes "session byte s img" and "ota_write_all F s cs = (s', Inr ())" and "length (concat cs) < 2 ^ 31"
  shows "session byte s' (img @ concat cs) \<and>
    (\<not> in_part (target s) i \<longrightarrow> byte (ota_flash s') i = byte (ota_flash s) i) \<and>
    target s' = target s \<and> running s' = running s \<and> cap (ota_flash s') = cap (ota_flash s)"
  using assms
proof (induction cs arbitrary: s img)
  case (Cons c cs)
  obtain s1 r where w: "ota_write F s c = (s1, r)" by fastforce
  have r: "r = Inr ()" using Cons.prems(2) w by (cases r) simp_all
  have short: "length c < 2 ^ 31" "length (concat cs) < 2 ^ 31" using Cons.prems(3) by simp_all
  have rest: "ota_write_all F s1 cs = (s', Inr ())" using Cons.prems(2) w r by simp
  from Cons.IH [OF write_session [OF Cons.prems(1) w [unfolded r] short(1)] rest short(2)]
    write_frame [OF Cons.prems(1) w short(1)]
  show ?case by simp
qed simp

lemma begin_frame:
  assumes "ota_begin F s = (s', Inr ())"
  shows "(\<not> in_part (target s) i \<longrightarrow> byte (ota_flash s') i = byte (ota_flash s) i) \<and>
      target s' = target s \<and> running s' = running s \<and> cap (ota_flash s') = cap (ota_flash s)"
proof -
  obtain f' where er: "erase_range F (ota_flash s) (target s) 0 (part_size (target s)) = (f', Inr ())"
    and s': "s' = s\<lparr>ota_flash := f', write_offset := 0, bytes_written := 0, in_progress := True,
               firmware_crc := 0xFFFFFFFF, first_chunk_validated := False, pending_len := 0\<rparr>"
    using assms by (auto simp: ota_begin_def split: if_splits prod.splits sum.splits)
  show ?thesis using erase_part_value [OF er] by (simp add: s')
qed

text \<open>What an update that reports success has done.\<close>

lemma install_value:
  assumes "ota_install F s cs = (s', Inr ())" and "length (pending_bytes s) = 3"
    and "concat cs \<noteq> []" and "length (concat cs) \<le> 0x140000"
  obtains f1 where "set_boot_partition F f1 (target s) = (ota_flash s', Inr ())"
    and "holds (byte f1) (target s) (concat cs)"
    and "\<And>i. \<not> in_part (target s) i \<Longrightarrow> byte f1 i = byte (ota_flash s) i"
    and "firmware_crc s' = crc32 (concat cs)"
proof -
  obtain s1 where b: "ota_begin F s = (s1, Inr ())"
    using assms(1) by (auto simp: ota_install_def split: prod.splits sum.splits)
  obtain s2 where w: "ota_write_all F s1 cs = (s2, Inr ())"
    using assms(1) b by (auto simp: ota_install_def split: prod.splits sum.splits)
  have fin: "ota_finalize F s2 = (s', Inr ())" using assms(1) b w by (simp add: ota_install_def)
  have short: "length (concat cs) < 2 ^ 31" using assms(4) by simp
  have se: "session byte s2 (concat cs)"
    using write_all_session [OF begin_session [OF b assms(2)] w short] by simp
  note fr1 = begin_frame [OF b] and fr2 = write_all_session [OF begin_session [OF b assms(2)] w short]
  obtain f1 where f1: "set_boot_partition F f1 (target s2) = (ota_flash s', Inr ())" "holds (byte f1) (target s2) (concat cs)"
    "\<And>i. \<not> in_part (target s2) i \<Longrightarrow> byte f1 i = byte (ota_flash s2) i" "firmware_crc s' = crc32 (concat cs)"
    by (rule finalize_value [OF se assms(3,4) fin]) blast
  show thesis using that [of f1] f1 fr1 fr2 by auto
qed

end

context reliable_flash
begin

lemma write_all_total:
  assumes "session byte s img" and "img = [] \<longrightarrow> concat cs = [] \<or> hd (concat cs) = 0xE9"
    and "length img + length (concat cs) \<le> 0x140000" and "part_base (target s) + 0x140000 \<le> cap (ota_flash s)"
  shows "snd (ota_write_all F s cs) = Inr ()"
  using assms
proof (induction cs arbitrary: s img)
  case (Cons c cs)
  have short: "length c < 2 ^ 31" using Cons.prems(3) by simp
  have "unat (write_offset s) \<le> length img" using Cons.prems(1) stored_le(1) [of img] by (simp add: session_def)
  then have fits: "write_fits s c" using Cons.prems(3) by (simp add: write_fits_def)
  have "img = [] \<longrightarrow> c = [] \<or> hd c = 0xE9" using Cons.prems(2) by (cases c) auto
  then have "snd (ota_write F s c) = Inr ()" using Cons.prems(1,4) fits short by (intro write_total)
  then obtain s1 where w: "ota_write F s c = (s1, Inr ())" by (cases "ota_write F s c") auto
  note se = write_session [OF Cons.prems(1) w short] and fr = write_frame [OF Cons.prems(1) w short]
  have "img @ c = [] \<longrightarrow> concat cs = [] \<or> hd (concat cs) = 0xE9" using Cons.prems(2) by auto
  moreover have "length (img @ c) + length (concat cs) \<le> 0x140000" using Cons.prems(3) by simp
  ultimately have "snd (ota_write_all F s1 cs) = Inr ()"
    using Cons.prems(4) fr by (intro Cons.IH [OF se]) simp_all
  with w show ?case by simp
qed simp

lemma install_total:
  assumes "\<not> in_progress s" and "length (pending_bytes s) = 3" and "concat cs \<noteq> []" and "hd (concat cs) = 0xE9"
    and "length (concat cs) \<le> 0x140000" and "part_base (target s) + 0x140000 \<le> cap (ota_flash s)"
  shows "snd (ota_install F s cs) = Inr ()"
proof -
  obtain s1 where b: "ota_begin F s = (s1, Inr ())"
    using begin_total [OF assms(1,6)] by (cases "ota_begin F s") auto
  note se = begin_session [OF b assms(2)] and fr = begin_frame [OF b]
  have c1: "part_base (target s1) + 0x140000 \<le> cap (ota_flash s1)" using fr assms(6) by simp
  obtain s2 where w: "ota_write_all F s1 cs = (s2, Inr ())"
    using write_all_total [OF se _ _ c1, of cs] assms(4,5) by (cases "ota_write_all F s1 cs") auto
  have "length (concat cs) < 2 ^ 31" using assms(5) by simp
  note se2 = write_all_session [OF se w this]
  have "snd (ota_finalize F s2) = Inr ()"
    using se2 assms(3,5) c1 by (intro finalize_total [of s2 "concat cs"]) simp_all
  with b w show ?thesis by (simp add: ota_install_def)
qed

end

section \<open>Erased boot data\<close>

lemma erased_selection:
  assumes "\<And>i. in_otadata i \<Longrightarrow> m i = 0xFF"
  shows "\<not> slot_valid m 0" "\<not> slot_valid m 1" "max_seq m = 0" "booted m = Ota0"
proof -
  have e: "entry_at m slot = replicate 32 0xFF" if "slot < 2" for slot
    using that assms by (intro nth_equalityI) (auto simp: entry_at_def in_otadata_def in_sector_def less_2_cases_iff)
  have "\<not> otadata_entry_valid (replicate 32 0xFF)"
    by code_simp
  then show v: "\<not> slot_valid m 0" "\<not> slot_valid m 1" by (simp_all add: slot_valid_def e)
  then show "max_seq m = 0" by (simp add: max_seq_def slot_seq_def)
  then show "booted m = Ota0" by (simp add: booted_def)
qed

lemma mock_new_byte [simp]: "mock_byte (mock_new n) i = 0xFF"
  by (simp add: mock_byte_def mock_new_def)

lemma mock_new_capacity [simp]: "mock_capacity (mock_new n) = n"
  by (simp add: mock_capacity_def mock_new_def)

lemma mock_new_selection [simp]:
  "max_seq (mock_byte (mock_new n)) = 0" "booted (mock_byte (mock_new n)) = Ota0"
  "\<not> slot_valid (mock_byte (mock_new n)) 0" "\<not> slot_valid (mock_byte (mock_new n)) 1"
  "\<not> slot_valid (mock_byte (mock_new n)) (Suc 0)"
  using erased_selection [of "mock_byte (mock_new n)"] by simp_all

lemma ota_new_sel [simp]:
  "\<not> in_progress (ota_new f p)" "length (pending_bytes (ota_new f p)) = 3" "target (ota_new f p) = other_partition p"
  "running (ota_new f p) = p" "ota_flash (ota_new f p) = f"
  by (simp_all add: ota_new_def other_partition_def)

lemma other_other [simp]: "other_partition (other_partition p) = p"
  by (cases p) (simp_all add: other_partition_def)

text \<open>The one case in which a selection has no effect cannot come after a real boot of the other one.\<close>

lemma booted_Ota1: "booted m = Ota1 \<Longrightarrow> max_seq m \<noteq> 0"
  by (auto simp: booted_def)

context nor_flash
begin

lemma install_boots:
  assumes "ota_install F (ota_new f (booted (byte f))) cs = (s, Inr ())" and "unat (max_seq (byte f)) < 2 ^ 32 - 3"
    and "concat cs \<noteq> []" and "length (concat cs) \<le> 0x140000"
  shows "holds (byte (ota_flash s)) (other_partition (booted (byte f))) (concat cs)"
    and "selected_seqs (other_partition (booted (byte f))) (byte f) (byte (ota_flash s))"
    and "booted (byte (ota_flash s)) = other_partition (booted (byte f))"
    and "firmware_crc s = crc32 (concat cs)"
    and "\<not> in_part (other_partition (booted (byte f))) i \<Longrightarrow> \<not> in_otadata i \<Longrightarrow> byte (ota_flash s) i = byte f i"
proof -
  let ?p = "other_partition (booted (byte f))"
  obtain f1 where f1: "set_boot_partition F f1 ?p = (ota_flash s, Inr ())" "holds (byte f1) ?p (concat cs)"
    and same: "\<And>i. \<not> in_part ?p i \<Longrightarrow> byte f1 i = byte f i" and crc: "firmware_crc s = crc32 (concat cs)"
    using install_value [OF assms(1) _ assms(3,4)] by (metis ota_new_sel(2,3,5))
  have od: "byte f1 i = byte f i" if "in_otadata i" for i
    using same other_partition_disjoint(2) that by blast
  note cong = selection_cong [of "byte f1" "byte f", OF od]
  have sel: "selected_seqs ?p (byte f1) (byte (ota_flash s))"
    using set_boot_selected [OF f1(1)] assms(2) cong(1) by simp
  have "part_index (other_partition ?p) < 2" by simp
  then have "slot_valid (byte f1) (part_index (other_partition ?p)) = slot_valid (byte f) (part_index (other_partition ?p))"
    "slot_seq (byte f1) (part_index (other_partition ?p)) = slot_seq (byte f) (part_index (other_partition ?p))"
    using cong(2,3) by blast+
  with sel cong(1) show sel': "selected_seqs ?p (byte f) (byte (ota_flash s))"
    by (simp add: selected_seqs_def Let_def)
  have "\<not> (max_seq (byte f) = 0 \<and> ?p = Ota0)"
    using booted_Ota1 [of "byte f"] by (cases "booted (byte f)") (auto simp: other_partition_def)
  then show "booted (byte (ota_flash s)) = ?p" using booted_selected [OF sel' assms(2)] by auto
  show "firmware_crc s = crc32 (concat cs)" by (rule crc)
  show "byte (ota_flash s) i = byte f i" if "\<not> in_part ?p i" "\<not> in_otadata i" for i
    using set_boot_outside(1) [OF f1(1) that(2)] same [OF that(1)] by simp
  show "holds (byte (ota_flash s)) ?p (concat cs)"
    using f1(2) set_boot_outside(1) [OF f1(1)] other_partition_disjoint(2) holds_cong [of ?p "byte (ota_flash s)" "byte f1"]
    by blast
qed

end

section \<open>An image that is too long\<close>

text \<open>
  The size check counts the bytes in the flash, not the ones that are pending. With three bytes pending
  before the end of the partition, a chunk of four is accepted, and finalizing writes the last three
  bytes after the partition.
\<close>

lemma mock_overwrites:
  assumes "aligned_write mock_flash f p off data = (f', Inr ())" and "unat off \<le> 0x140000" and "j < length (pad4 data)"
  shows "mock_byte f' (part_base p + unat off + j) = pad4 data ! j"
proof -
  let ?a = "part_offset p + off"
  have a: "unat ?a = part_base p + unat off"
    using assms(2) part_base_bounds(2) [of p] by (simp add: unat_word_ariths)
  have w: "mock_write f ?a (pad4 data) = (f', True)"
    using assms(1) by (auto simp: aligned_write_def Let_def pad4_def [symmetric] split: prod.splits bool.splits)
  then show ?thesis using assms(3) a by (auto simp: mock_write_def mock_byte_def nth_append split: if_splits)
qed

lemma finalize_overrun:
  assumes "session mock_byte s img" and "length img = 0x140003" and "target s = Ota0"
    and "0x3E0000 \<le> mock_capacity (ota_flash s)"
  shows "\<exists>s'. ota_finalize mock_flash s = (s', Inr ()) \<and>
    (\<forall>j < 3. mock_byte (ota_flash s') (part_base Ota1 + j) = img ! (0x140000 + j))"
proof -
  let ?d = "drop 0x140000 img"
  have st: "stored img = 0x140000" "length img mod 4 = 3" using assms(2) by (simp_all add: stored_def)
  have ip: "in_progress s" "bytes_written s \<noteq> 0" "take (pending_len s) (pending_bytes s) = ?d" "pending_len s = 3"
    "unat (write_offset s) = 0x140000"
    using assms(1,2) st unfolding session_def by auto
  have len: "length (pad4 ?d) = 4" by (simp add: length_pad4 assms(2))
  obtain f1 r1 where w: "aligned_write mock_flash (ota_flash s) (target s) (write_offset s) ?d = (f1, r1)" by fastforce
  have "part_base Ota0 + 0x140004 \<le> mock_capacity (ota_flash s)" using assms(4) by (simp add: part_base_def)
  then have r1: "r1 = Inr ()"
    using mock.aligned_write_total [of "target s" "write_offset s" ?d "ota_flash s"] w len ip(5) assms(3) by simp
  have cap1: "mock_capacity f1 = mock_capacity (ota_flash s)" using mock.aligned_write_value(2) [OF w] ip(5) by simp
  have byte1: "mock_byte f1 (part_base Ota1 + j) = img ! (0x140000 + j)" if "j < 3" for j
  proof -
    have "part_base Ota1 = part_base Ota0 + unat (write_offset s)" using ip(5) by (simp add: part_base_def)
    then have "mock_byte f1 (part_base Ota1 + j) = pad4 ?d ! j"
      using mock_overwrites [OF w [unfolded r1], of j] that len ip(5) assms(3) by simp
    then show ?thesis using pad4_nth(1) [of j ?d] that assms(2) by simp
  qed
  obtain f2 where b: "set_boot_partition mock_flash f1 (target s) = (f2, Inr ())"
    using mock.set_boot_total [of f1 "target s"] cap1 assms(4) by auto
  have "\<not> in_otadata (part_base Ota1 + j)" for j by (auto simp: part_base_def dest: in_otadata_bounds)
  then have "\<forall>j < 3. mock_byte f2 (part_base Ota1 + j) = img ! (0x140000 + j)"
    using mock.set_boot_outside(1) [OF b] byte1 by simp
  then show ?thesis using ip w r1 b by (simp add: ota_finalize_def Let_def)
qed

section \<open>Properties\<close>

text \<open>
  Property C6: an update from the partition that is running, with an image that starts with the magic
  byte and fits, succeeds on a flash that does not fail, however the image is cut into chunks: the other
  partition then holds the image and is the one to boot, the checksum is the one of the image, and
  nothing outside that partition and the boot data has changed.
\<close>

theorem ota_installs_image:
  assumes "reliable_flash F byte cap" and "0x3E0000 \<le> cap f" and "run = booted (byte f)"
    and "unat (max_seq (byte f)) < 2 ^ 32 - 3"
    and "concat chunks = img" and "img \<noteq> []" and "hd img = 0xE9" and "length img \<le> 0x140000"
  shows "\<exists>s. ota_install F (ota_new f run) chunks = (s, Inr ()) \<and>
    holds (byte (ota_flash s)) (other_partition run) img \<and>
    booted (byte (ota_flash s)) = other_partition run \<and> firmware_crc s = crc32 img \<and>
    (\<forall>i. \<not> in_part (other_partition run) i \<and> \<not> in_otadata i \<longrightarrow> byte (ota_flash s) i = byte f i)"
proof -
  note nor = reliable_flash.axioms(1) [OF assms(1)]
  have "part_base (other_partition run) + 0x140000 \<le> cap f"
    using part_base_bounds(2) [of "other_partition run"] assms(2) by simp
  then obtain s where s: "ota_install F (ota_new f run) chunks = (s, Inr ())"
    using reliable_flash.install_total [OF assms(1), of "ota_new f run" chunks] assms(5-8)
    by (cases "ota_install F (ota_new f run) chunks") auto
  from nor_flash.install_boots [OF nor s [unfolded assms(3)] assms(4)] assms(3,5,6,8) s show ?thesis by auto
qed

theorem ota_installs_image_witness:
  "\<exists>s. ota_install mock_flash (ota_new (mock_new 0x3E0000) Ota0) [[0xE9, 1], [], [2, 3, 4, 5, 6]] = (s, Inr ()) \<and>
    holds (mock_byte (ota_flash s)) Ota1 [0xE9, 1, 2, 3, 4, 5, 6] \<and> booted (mock_byte (ota_flash s)) = Ota1"
  using ota_installs_image [OF mock.reliable_flash_axioms, of "mock_new 0x3E0000" Ota0 "[[0xE9, 1], [], [2, 3, 4, 5, 6]]"
      "[0xE9, 1, 2, 3, 4, 5, 6]"]
  by (auto simp: other_partition_def)

text \<open>
  Property C29: selecting the partition to boot works but for one case: with no sequence number yet,
  selecting the first partition while the entry of the second is not valid also writes that entry, with
  a greater number, and the bootloader then takes the second partition. In every case both entries are
  valid afterwards, and nothing but the boot data has changed.
\<close>

theorem boot_selection_exact:
  assumes "nor_flash F byte cap" and "set_boot_partition F f p = (f', Inr u)"
    and "unat (max_seq (byte f)) < 2 ^ 32 - 3" and "detect_running_partition F f' = (g, Inr q)"
  shows "q = (if max_seq (byte f) = 0 \<and> p = Ota0 \<and> \<not> slot_valid (byte f) 1 then Ota1 else p) \<and>
    slot_valid (byte f') 0 \<and> slot_valid (byte f') 1 \<and> (\<forall>i. \<not> in_otadata i \<longrightarrow> byte f' i = byte f i)"
proof -
  have sel: "selected_seqs p (byte f) (byte f')" by (rule nor_flash.set_boot_selected [OF assms(1-3)])
  have "q = booted (byte f')" by (rule nor_flash.detect_running_value(3) [OF assms(1,4) refl])
  moreover have "\<forall>i. \<not> in_otadata i \<longrightarrow> byte f' i = byte f i"
    using nor_flash.set_boot_outside(1) [OF assms(1,2)] by blast
  ultimately show ?thesis using booted_selected [OF sel assms(3)] sel by (simp add: selected_seqs_def Let_def)
qed

theorem boot_selection_exact_witness:
  "\<exists>f' g q. set_boot_partition mock_flash (mock_new 0x12000) Ota0 = (f', Inr ()) \<and>
     detect_running_partition mock_flash f' = (g, Inr q) \<and> q = Ota1"
proof -
  obtain f' where s: "set_boot_partition mock_flash (mock_new 0x12000) Ota0 = (f', Inr ())"
    using mock.set_boot_total [of "mock_new 0x12000" Ota0] by auto
  have "0x12000 \<le> mock_capacity f'" using mock.set_boot_outside(2) [OF s] by simp
  then obtain g q where d: "detect_running_partition mock_flash f' = (g, Inr q)"
    using mock.detect_running_total by blast
  from boot_selection_exact [OF mock.nor_flash_axioms s _ d] s d show ?thesis by simp
qed

text \<open>
  A rollback on a device that has only ever run its factory firmware (the boot data is
  erased, the running partition counts as the first) selects the update partition, the one whose
  download has just failed, and not the running one.
\<close>

theorem factory_rollback_selects_target:
  assumes "reliable_flash F byte cap" and "0x12000 \<le> cap f" and "\<And>i. in_otadata i \<Longrightarrow> byte f i = 0xFF"
  shows "\<exists>s. ota_rollback_and_reboot F (ota_new f (booted (byte f))) = (s, Inr ()) \<and>
    booted (byte (ota_flash s)) = target s \<and> target s \<noteq> running s"
proof -
  note er = erased_selection [of "byte f", OF assms(3)]
  obtain f' where b: "set_boot_partition F f Ota0 = (f', Inr ())"
    using reliable_flash.set_boot_total [OF assms(1,2), of Ota0] by blast
  have "selected_seqs Ota0 (byte f) (byte f')"
    by (rule nor_flash.set_boot_selected [OF reliable_flash.axioms(1) [OF assms(1)] b]) (simp add: er)
  from booted_selected [OF this] er have "booted (byte f') = Ota1" by simp
  with b er show ?thesis
    by (simp add: ota_rollback_and_reboot_def ota_new_def)
qed

theorem factory_rollback_selects_target_witness:
  "\<exists>s. ota_rollback_and_reboot mock_flash (ota_new (mock_new 0x12000) (booted (mock_byte (mock_new 0x12000)))) = (s, Inr ()) \<and>
    booted (mock_byte (ota_flash s)) = target s \<and> target s \<noteq> running s"
  by (rule factory_rollback_selects_target [OF mock.reliable_flash_axioms]) simp_all

text \<open>
  A partition that has just been selected, by an update or a rollback, never counts as one
  that needs validation when it boots.
\<close>

theorem selected_needs_no_validation:
  assumes "reliable_flash F byte cap" and "0x12000 \<le> cap f" and "set_boot_partition F f p = (f', Inr u)"
    and "unat (max_seq (byte f)) < 2 ^ 32 - 3"
  shows "\<not> snd (ota_needs_validation F (ota_new f' p))"
proof -
  note nor = reliable_flash.axioms(1) [OF assms(1)]
  have sel: "selected_seqs p (byte f) (byte f')" by (rule nor_flash.set_boot_selected [OF nor assms(3,4)])
  have "0x12000 \<le> cap f'" using nor_flash.set_boot_outside(2) [OF nor assms(3)] assms(2) by simp
  then obtain g q where r: "read_otadata_entries F f' = (g, Inr q)"
    using reliable_flash.read_entries_total [OF assms(1)] by blast
  obtain e0 v0 e1 v1 where q: "q = (e0, v0, e1, v1)" by (cases q) auto
  have v: "e0 = entry_at (byte f') 0 \<and> v0 = slot_valid (byte f') 0 \<and> e1 = entry_at (byte f') 1 \<and> v1 = slot_valid (byte f') 1"
    by (rule nor_flash.read_otadata_entries_value(3) [OF nor r]) (simp add: q)
  have "slot_seq (byte f') (part_index p) = new_seq p (max_seq (byte f))" "slot_valid (byte f') 0" "slot_valid (byte f') 1"
    using sel by (simp_all add: selected_seqs_def Let_def)
  then have "seq_from_entry (entry_at (byte f') (part_index p)) = new_seq p (max_seq (byte f))"
    by (cases p) (simp_all add: slot_seq_def part_index_def)
  moreover have "0 < new_seq p (max_seq (byte f))" using new_seq_bounds(3) [OF assms(4), of p] by (rule order.strict_trans1 [OF word_zero_le])
  moreover note new_seq_bounds(2) [OF assms(4), of p]
  ultimately show ?thesis using r q v \<open>slot_valid (byte f') 0\<close> \<open>slot_valid (byte f') 1\<close>
    by (cases p) (auto simp: ota_needs_validation_def Let_def part_index_def)
qed

theorem selected_needs_no_validation_witness:
  "\<exists>f'. set_boot_partition mock_flash (mock_new 0x12000) Ota1 = (f', Inr ()) \<and>
     \<not> snd (ota_needs_validation mock_flash (ota_new f' Ota1))"
proof -
  obtain f' where s: "set_boot_partition mock_flash (mock_new 0x12000) Ota1 = (f', Inr ())"
    using mock.set_boot_total [of "mock_new 0x12000" Ota1] by auto
  from selected_needs_no_validation [OF mock.reliable_flash_axioms _ s] s show ?thesis by simp
qed

text \<open>
  Property C30: the writer accepts an image that is three bytes too long for the partition when the last
  four bytes come as a chunk of their own; the update reports success, and when it goes to the first
  partition its last three bytes end up where the running firmware in the second one starts (on the
  in-memory flash, which overwrites).
\<close>

theorem image_overruns_running_partition:
  assumes "length img = 0x13FFFF" and "hd img = 0xE9" and "length c = 4" and "0x3E0000 \<le> mock_capacity f"
  shows "\<exists>s. ota_install mock_flash (ota_new f Ota1) [img, c] = (s, Inr ()) \<and> running s = Ota1 \<and>
    (\<forall>j < 3. mock_byte (ota_flash s) (part_base Ota1 + j) = c ! (j + 1))"
proof -
  let ?s = "ota_new f Ota1"
  have ne: "img \<noteq> []" using assms(1) by auto
  have t: "target ?s = Ota0" by (simp add: other_partition_def)
  have c0: "part_base Ota0 + 0x140000 \<le> mock_capacity f" using assms(4) by (simp add: part_base_def)
  obtain s1 where b: "ota_begin mock_flash ?s = (s1, Inr ())"
    using mock.begin_total [of ?s] c0 t by (cases "ota_begin mock_flash ?s") auto
  have fr1: "target s1 = Ota0" "running s1 = Ota1" "mock_capacity (ota_flash s1) = mock_capacity f"
    using mock.begin_frame [OF b] t by simp_all
  have se1: "session mock_byte s1 []" by (rule mock.begin_session [OF b]) simp
  have "snd (ota_write_all mock_flash s1 [img]) = Inr ()"
    by (rule mock.write_all_total [OF se1]) (use assms fr1 c0 in simp_all)
  then obtain s2 where w2: "ota_write_all mock_flash s1 [img] = (s2, Inr ())"
    by (cases "ota_write_all mock_flash s1 [img]") auto
  have se2: "session mock_byte s2 img" and fr2: "target s2 = Ota0" "running s2 = Ota1"
    "mock_capacity (ota_flash s2) = mock_capacity f"
    using mock.write_all_session [OF se1 w2] assms(1) fr1 by simp_all
  have "unat (write_offset s2) = 0x13FFFC" using se2 assms(1) by (simp add: session_def stored_def)
  then have "write_fits s2 c" using assms(3) by (simp add: write_fits_def)
  then have "snd (ota_write mock_flash s2 c) = Inr ()"
    using mock.write_total [OF se2, of c] assms fr2 ne c0 by simp
  then obtain s3 where w3: "ota_write mock_flash s2 c = (s3, Inr ())" by (cases "ota_write mock_flash s2 c") auto
  have se3: "session mock_byte s3 (img @ c)" by (rule mock.write_session [OF se2 w3]) (simp add: assms(3))
  have fr3: "target s3 = Ota0" "running s3 = Ota1" "mock_capacity (ota_flash s3) = mock_capacity f"
    using mock.write_frame [OF se2 w3] assms(3) fr2 by simp_all
  obtain s4 where f4: "ota_finalize mock_flash s3 = (s4, Inr ())"
      "\<forall>j < 3. mock_byte (ota_flash s4) (part_base Ota1 + j) = (img @ c) ! (0x140000 + j)"
    using finalize_overrun [OF se3] assms fr3 by auto
  have "running s4 = running s3"
    using f4(1) by (auto simp: ota_finalize_def Let_def split: if_splits prod.splits sum.splits)
  moreover have "(img @ c) ! (0x140000 + j) = c ! (j + 1)" for j using assms(1) by (simp add: nth_append)
  moreover have "ota_write_all mock_flash s1 [img, c] = (s3, Inr ())"
    using w2 w3 by (auto split: prod.splits sum.splits)
  ultimately show ?thesis using b f4 fr3 by (simp add: ota_install_def)
qed

theorem image_overruns_running_partition_witness:
  "\<exists>s. ota_install mock_flash (ota_new (mock_new 0x3E0000) Ota1) [replicate 0x13FFFF 0xE9, [1, 2, 3, 4]] = (s, Inr ()) \<and>
    running s = Ota1 \<and> mock_byte (ota_flash s) (part_base Ota1) = 2"
proof -
  have "hd (replicate 0x13FFFF (0xE9 :: u8)) = 0xE9" by (subst hd_replicate) simp_all
  from image_overruns_running_partition [OF length_replicate this, of "[1, 2, 3, 4]" "mock_new 0x3E0000"]
  obtain s where s: "ota_install mock_flash (ota_new (mock_new 0x3E0000) Ota1) [replicate 0x13FFFF 0xE9, [1, 2, 3, 4]] = (s, Inr ())"
      "running s = Ota1" "\<forall>j < 3. mock_byte (ota_flash s) (part_base Ota1 + j) = [1, 2, 3, 4] ! (j + 1)"
    by auto
  have "mock_byte (ota_flash s) (part_base Ota1) = 2" using s(3) [rule_format, of 0] by simp
  with s(1,2) show ?thesis by blast
qed

text \<open>
  An image that was changed in one byte on its way is refused when the checksum of the
  intended one is known.
\<close>

theorem changed_image_refused:
  assumes "session byte s (img[i := b])" and "i < length img" and "b \<noteq> img ! i"
  shows "ota_verify_hash s (crc32 img) = Inl (HashMismatch (crc32 img) (crc32 (img[i := b])))"
  using fwcrc.detects_update [OF assms(2,3)] assms(1) by (simp add: ota_verify_hash_def session_def)

theorem changed_image_refused_witness:
  "\<exists>s. session mock_byte s ([0xE9, 1][1 := 2]) \<and>
    ota_verify_hash s (crc32 [0xE9, 1]) = Inl (HashMismatch (crc32 [0xE9, 1]) (crc32 [0xE9, 2]))"
proof -
  let ?s = "ota_new (mock_new 0x3E0000) Ota0"
  obtain s1 where b: "ota_begin mock_flash ?s = (s1, Inr ())"
    using mock.begin_total [of ?s] part_base_bounds(2) [of Ota1]
    by (cases "ota_begin mock_flash ?s") (auto simp: other_partition_def)
  have se1: "session mock_byte s1 []" by (rule mock.begin_session [OF b]) simp
  have "snd (ota_write_all mock_flash s1 [[0xE9, 2]]) = Inr ()"
    by (rule mock.write_all_total [OF se1])
      (use mock.begin_frame [OF b] part_base_bounds(2) [of Ota1] in \<open>simp_all add: other_partition_def\<close>)
  then obtain s2 where "ota_write_all mock_flash s1 [[0xE9, 2]] = (s2, Inr ())"
    by (cases "ota_write_all mock_flash s1 [[0xE9, 2]]") auto
  then have "session mock_byte s2 ([0xE9, 1][1 := 2])" using mock.write_all_session [OF se1] by fastforce
  from changed_image_refused [OF this] this show ?thesis by auto
qed

end
