(* ===== verification/OtaUpdate.thy ===== *)
theory OtaUpdate
  imports OtaHttp EspOtaProperties
begin

text \<open>
  The update as the firmware runs it: \<open>perform_ota_update\<close> of \<open>app/src/ota.rs\<close> and its caller
  \<open>handle_ota_request\<close> of \<open>app/src/main.rs\<close>. Name resolution, connection and socket are another
  package's: their outcomes are an argument, the reads of the socket a list that ends where the peer
  closes. A function that resets the device does not return; \<open>Reset\<close> says so.
\<close>

definition MAX_HEADER_SIZE :: nat where "MAX_HEADER_SIZE = 4096"
definition APP_PARTITION_SIZE :: nat where "APP_PARTITION_SIZE = 0x140000"

datatype sock_read = Sock_Data "u8 list" | Sock_Error

record net =
  net_resolve :: "rstr \<Rightarrow> u32 option"
  net_connect :: "u32 \<Rightarrow> u16 \<Rightarrow> bool"
  net_send :: "rstr \<Rightarrow> bool"
  net_reads :: "sock_read list"

datatype ota_end = Returned_Err | Reset

definition create_ota :: "'f NorFlash \<Rightarrow> 'f \<Rightarrow> 'f EspOtaFlash" where
  "create_ota F flash =
     (let temp = ota_new flash Ota0 in
      case ota_detect_running F temp of
        (temp', r) \<Rightarrow> ota_new (into_flash temp') (case r of Inl _ \<Rightarrow> Ota0 | Inr p \<Rightarrow> p))"

definition build_http_get :: "rstr \<Rightarrow> rstr \<Rightarrow> rstr" where
  "build_http_get host path =
     lit ''GET '' @ path @ lit '' HTTP/1.1'' @ [13, 10] @ lit ''Host: '' @ host @ [13, 10] @
     lit ''Connection: close'' @ [13, 10, 13, 10]"

definition ota_rollback :: "'f NorFlash \<Rightarrow> 'f EspOtaFlash \<Rightarrow> 'f EspOtaFlash \<times> ota_end" where
  "ota_rollback F s = (fst (ota_rollback_and_reboot F s), Reset)"

text \<open>After the body: the checksum if the URL has one, and finalizing.\<close>

definition finish_update :: "'f NorFlash \<Rightarrow> u32 option \<Rightarrow> 'f EspOtaFlash \<Rightarrow> 'f EspOtaFlash \<times> ota_end" where
  "finish_update F expected_crc s =
     (if (case expected_crc of Some crc \<Rightarrow> ota_verify_hash s crc \<noteq> Inr () | None \<Rightarrow> False) then ota_rollback F s
      else case ota_finalize F s of
          (s', Inl e) \<Rightarrow> ota_rollback F s'
        | (s', Inr _) \<Rightarrow> (s', Reset))"

fun read_body :: "'f NorFlash \<Rightarrow> u32 option \<Rightarrow> 'f EspOtaFlash \<Rightarrow> sock_read list \<Rightarrow> 'f EspOtaFlash \<times> ota_end" where
  "read_body F crc s [] = finish_update F crc s"
| "read_body F crc s (Sock_Error # rest) = ota_rollback F s"
| "read_body F crc s (Sock_Data d # rest) =
     (if d = [] then finish_update F crc s
      else case ota_write F s d of
          (s', Inl e) \<Rightarrow> ota_rollback F s'
        | (s', Inr _) \<Rightarrow> read_body F crc s' rest)"

text \<open>With the headers complete: the target is erased, the length checked, the body begun.\<close>

definition start_body ::
  "'f NorFlash \<Rightarrow> u32 option \<Rightarrow> 'f EspOtaFlash \<Rightarrow> u8 list \<Rightarrow> nat \<Rightarrow> sock_read list \<Rightarrow> 'f EspOtaFlash \<times> ota_end" where
  "start_body F crc s header pos rest =
     (if \<not> validate_http_status header then (s, Returned_Err)
      else case ota_begin F s of
          (s1, Inl e) \<Rightarrow> (s1, Returned_Err)
        | (s1, Inr _) \<Rightarrow>
            if (case parse_content_length header of Some n \<Rightarrow> APP_PARTITION_SIZE < n | None \<Rightarrow> False)
            then ota_rollback F s1
            else let body_start = pos + 4 in
              if body_start < length header then
                (case ota_write F s1 (drop body_start header) of
                   (s2, Inl e) \<Rightarrow> ota_rollback F s2
                 | (s2, Inr _) \<Rightarrow> read_body F crc s2 rest)
              else read_body F crc s1 rest)"

fun read_headers ::
  "'f NorFlash \<Rightarrow> u32 option \<Rightarrow> 'f EspOtaFlash \<Rightarrow> u8 list \<Rightarrow> sock_read list \<Rightarrow> 'f EspOtaFlash \<times> ota_end" where
  "read_headers F crc s header [] = (s, Returned_Err)"
| "read_headers F crc s header (Sock_Error # rest) = (s, Returned_Err)"
| "read_headers F crc s header (Sock_Data d # rest) =
     (if d = [] then (s, Returned_Err)
      else if MAX_HEADER_SIZE < length header + length d then (s, Returned_Err)
      else case find_header_end (header @ d) of
          Some pos \<Rightarrow> start_body F crc s (header @ d) pos rest
        | None \<Rightarrow> read_headers F crc s (header @ d) rest)"

definition perform_ota_update :: "'f NorFlash \<Rightarrow> net \<Rightarrow> 'f EspOtaFlash \<Rightarrow> rstr \<Rightarrow> 'f EspOtaFlash \<times> ota_end" where
  "perform_ota_update F net s firmware_url =
     (case parse_http_url firmware_url of
        None \<Rightarrow> (s, Returned_Err)
      | Some (host, port, path) \<Rightarrow>
          let expected_crc = parse_crc_from_url firmware_url in
          case net_resolve net host of
            None \<Rightarrow> (s, Returned_Err)
          | Some addr \<Rightarrow>
              if \<not> net_connect net addr port then (s, Returned_Err)
              else if \<not> net_send net (build_http_get host path) then (s, Returned_Err)
              else read_headers F expected_crc s [] (net_reads net))"

text \<open>
  The caller in the main loop, for a request that is not a connection test; the device is reset in
  every case. The result is the flash it restarts from.
\<close>

definition handle_ota_request :: "'f NorFlash \<Rightarrow> net \<Rightarrow> 'f EspOtaFlash \<Rightarrow> rstr \<Rightarrow> 'f EspOtaFlash" where
  "handle_ota_request F net s firmware_url =
     (case perform_ota_update F net s firmware_url of
        (s', Returned_Err) \<Rightarrow> fst (ota_rollback_and_reboot F s')
      | (s', Reset) \<Rightarrow> s')"

end
