(* ===== verification/OtaUpdateProperties.thy ===== *)
theory OtaUpdateProperties
  imports OtaUpdate
begin

text \<open>
  The update end to end: whatever the network does, the device restarts from the firmware that was
  running or from an image that passed the checks; and what the server sends before it closes the
  connection, in any pieces, is what gets installed.
\<close>

section \<open>The states of an update\<close>

text \<open>
  \<open>untouched\<close>: nothing outside the target partition differs from the flash at the start.
  \<open>settled\<close>: the outcome is a restart into the running firmware or into a checked image.
\<close>

definition untouched :: "('f \<Rightarrow> nat \<Rightarrow> u8) \<Rightarrow> ('f \<Rightarrow> nat) \<Rightarrow> 'f \<Rightarrow> 'f EspOtaFlash \<Rightarrow> bool" where
  "untouched byte cap f s \<longleftrightarrow>
     running s = booted (byte f) \<and> target s = other_partition (booted (byte f)) \<and>
     cap (ota_flash s) = cap f \<and> length (pending_bytes s) = 3 \<and>
     (\<forall>i. \<not> in_part (target s) i \<longrightarrow> byte (ota_flash s) i = byte f i)"

definition settled :: "('f \<Rightarrow> nat \<Rightarrow> u8) \<Rightarrow> 'f \<Rightarrow> u32 option \<Rightarrow> 'f EspOtaFlash \<Rightarrow> bool" where
  "settled byte f crc s \<longleftrightarrow>
     (let run = booted (byte f); oth = other_partition run; m = byte (ota_flash s) in
      (\<forall>i. \<not> in_part oth i \<and> \<not> in_otadata i \<longrightarrow> m i = byte f i) \<and>
      (booted m = run \<or>
       booted m = oth \<and> (\<exists>img. img \<noteq> [] \<and> hd img = 0xE9 \<and> holds m oth img \<and>
         (\<forall>c. crc = Some c \<longrightarrow> crc32 img = c))))"

definition boot_known :: "(nat \<Rightarrow> u8) \<Rightarrow> bool" where
  "boot_known m \<longleftrightarrow> max_seq m \<noteq> 0 \<and> unat (max_seq m) < 2 ^ 32 - 3"

definition read_bytes :: "sock_read list \<Rightarrow> nat" where
  "read_bytes rs = sum_list (map (\<lambda>r. case r of Sock_Data d \<Rightarrow> length d | Sock_Error \<Rightarrow> 0) rs)"

context reliable_flash
begin

lemma untouched_new: "untouched byte cap f (ota_new f (booted (byte f)))"
  by (simp add: untouched_def)

text \<open>Selecting a partition from an untouched flash.\<close>

lemma untouched_select:
  assumes "boot_known (byte f)" and "\<And>i. in_otadata i \<Longrightarrow> byte g i = byte f i"
    and "set_boot_partition F g p = (g', Inr u)"
  shows "booted (byte g') = p" and "\<not> in_otadata i \<Longrightarrow> byte g' i = byte g i"
proof -
  have mx: "max_seq (byte g) = max_seq (byte f)" by (rule selection_cong(1)) (rule assms(2))
  then have sm: "unat (max_seq (byte g)) < 2 ^ 32 - 3" "max_seq (byte g) \<noteq> 0" using assms(1) by (simp_all add: boot_known_def)
  from booted_selected [OF set_boot_selected [OF assms(3) sm(1)] sm(1)] sm(2)
  show "booted (byte g') = p" by simp
  show "\<not> in_otadata i \<Longrightarrow> byte g' i = byte g i" by (rule set_boot_outside(1) [OF assms(3)])
qed

lemma rollback_settled:
  assumes "untouched byte cap f s" and "boot_known (byte f)" and "0x3E0000 \<le> cap f"
  shows "settled byte f crc (fst (ota_rollback_and_reboot F s))"
proof -
  have "0x12000 \<le> cap (ota_flash s)" using assms(1,3) by (simp add: untouched_def)
  then obtain g where g: "set_boot_partition F (ota_flash s) (running s) = (g, Inr ())"
    using set_boot_total by blast
  have "in_otadata i \<Longrightarrow> byte (ota_flash s) i = byte f i" for i
    using assms(1) other_partition_disjoint(2) by (auto simp: untouched_def)
  note sel = untouched_select [OF assms(2) this g]
  from sel(1) assms(1) have "booted (byte g) = booted (byte f)" by (simp add: untouched_def)
  moreover have "\<not> in_part (other_partition (booted (byte f))) i \<Longrightarrow> \<not> in_otadata i \<Longrightarrow> byte g i = byte f i" for i
    using sel(2) [of i] assms(1) by (simp add: untouched_def)
  ultimately show ?thesis using g by (simp add: ota_rollback_and_reboot_def settled_def Let_def)
qed

text \<open>A checked image of at least one byte is installed.\<close>

lemma finish_installs:
  assumes "untouched byte cap f s" and "session byte s img" and "length img \<le> 0x140000"
    and "img \<noteq> []" and "\<forall>c. crc = Some c \<longrightarrow> crc32 img = c"
    and "boot_known (byte f)" and "0x3E0000 \<le> cap f"
  defines "m \<equiv> byte (ota_flash (fst (finish_update F crc s)))" and "oth \<equiv> other_partition (booted (byte f))"
  shows "booted m = oth" and "holds m oth img" and "\<forall>i. \<not> in_part oth i \<and> \<not> in_otadata i \<longrightarrow> m i = byte f i"
proof -
  have t: "target s = oth" using assms(1) by (simp add: untouched_def oth_def)
  have "part_base (target s) + 0x140000 \<le> cap (ota_flash s)"
    using assms(1,7) part_base_bounds(2) [of "target s"] by (simp add: untouched_def)
  then obtain s' where fin: "ota_finalize F s = (s', Inr ())"
    using finalize_total [OF assms(2,4,3)] by (cases "ota_finalize F s") auto
  then have m: "m = byte (ota_flash s')"
    using assms(2,5) by (auto simp: m_def finish_update_def ota_verify_hash_def session_def split: option.split)
  obtain f1 where f1: "set_boot_partition F f1 (target s) = (ota_flash s', Inr ())" "holds (byte f1) (target s) img"
    and same: "\<And>i. \<not> in_part (target s) i \<Longrightarrow> byte f1 i = byte (ota_flash s) i"
    using finalize_value [OF assms(2,4,3) fin] by blast
  have keep: "\<not> in_part (target s) i \<Longrightarrow> byte f1 i = byte f i" for i
    using same assms(1) by (simp add: untouched_def)
  have "in_otadata i \<Longrightarrow> byte f1 i = byte f i" for i using keep other_partition_disjoint(2) by blast
  note sel = untouched_select [OF assms(6) this f1(1)]
  show "booted m = oth" using sel(1) m t by simp
  show "holds m oth img"
    using f1(2) sel(2) other_partition_disjoint(2) holds_cong [of "target s" "byte (ota_flash s')" "byte f1"] m t by metis
  show "\<forall>i. \<not> in_part oth i \<and> \<not> in_otadata i \<longrightarrow> m i = byte f i" using sel(2) keep m t by simp
qed

lemma finish_settled:
  assumes "untouched byte cap f s" and "session byte s img" and "length img \<le> 0x140000"
    and "boot_known (byte f)" and "0x3E0000 \<le> cap f"
  shows "settled byte f crc (fst (finish_update F crc s))" and "snd (finish_update F crc s) = Reset"
proof -
  let ?bad = "case crc of Some c \<Rightarrow> ota_verify_hash s c \<noteq> Inr () | None \<Rightarrow> False"
  show "snd (finish_update F crc s) = Reset"
    by (auto simp: finish_update_def ota_rollback_def split: prod.splits sum.splits)
  show "settled byte f crc (fst (finish_update F crc s))"
  proof (cases "?bad \<or> img = []")
    case True
    show ?thesis
    proof (cases ?bad)
      case True
      with rollback_settled [OF assms(1,4,5)] show ?thesis by (simp add: finish_update_def ota_rollback_def)
    next
      case False
      with True assms(2) have "ota_finalize F s = (s\<lparr>in_progress := False\<rparr>, Inl FinalizeFailed)"
        by (auto simp: ota_finalize_def session_def unat_eq_0)
      moreover have "untouched byte cap f (s\<lparr>in_progress := False\<rparr>)" using assms(1) by (simp add: untouched_def)
      ultimately show ?thesis using False rollback_settled [OF _ assms(4,5)]
        by (simp add: finish_update_def ota_rollback_def)
    qed
  next
    case False
    then have "\<forall>c. crc = Some c \<longrightarrow> crc32 img = c"
      using assms(2) by (auto simp: ota_verify_hash_def session_def split: if_splits)
    moreover have "hd img = 0xE9" "img \<noteq> []" using False assms(2) by (auto simp: session_def)
    ultimately show ?thesis
      using finish_installs [OF assms(1-3) _ _ assms(4,5), of crc] unfolding settled_def Let_def by blast
  qed
qed

lemma write_untouched:
  assumes "untouched byte cap f s" and "session byte s img" and "ota_write F s d = (s', r)" and "length d < 2 ^ 31"
  shows "running s' = running s" and "target s' = target s" and "cap (ota_flash s') = cap (ota_flash s)"
    and "\<not> in_part (target s') i \<Longrightarrow> byte (ota_flash s') i = byte f i"
  using write_frame [OF assms(2-4)] assms(1) by (auto simp: untouched_def)

text \<open>A write that fails before it touches the flash keeps the buffer; what matters is only its length.\<close>

lemma write_pending_length:
  assumes "session byte s img" and "ota_write F s d = (s', r)" and "length d < 2 ^ 31"
  shows "length (pending_bytes s') = 3"
proof (cases "r = Inr ()")
  case True
  with write_session [OF assms(1) _ assms(3)] assms(2) show ?thesis by (auto simp: session_def)
next
  case False
  then obtain e where r: "r = Inl e" by (cases r) auto
  have keep: "pending_bytes t' = pending_bytes t" if "ota_store F t d c = (t', Inl e)" for t t' d c
    using that by (cases "length d div 4 = 0"; cases "snd (aligned_write F (ota_flash t) (target t) (write_offset t) (take (length d div 4 * 4) d))")
      (auto simp: ota_store_def Let_def split: prod.splits if_splits)
  have "pending_bytes s' = pending_bytes s"
    using assms(2) r by (simp add: ota_write_def Let_def split: if_splits) (auto dest!: keep)
  with assms(1) show ?thesis by (simp add: session_def)
qed

lemma untouched_write:
  assumes "untouched byte cap f s" and "session byte s img" and "ota_write F s d = (s', r)" and "length d < 2 ^ 31"
  shows "untouched byte cap f s'"
  using write_untouched [OF assms] write_pending_length [OF assms(2-4)] assms(1) by (simp add: untouched_def)

lemma body_settled:
  assumes "untouched byte cap f s" and "session byte s img" and "length img + read_bytes rs \<le> 0x140000"
    and "boot_known (byte f)" and "0x3E0000 \<le> cap f"
  shows "settled byte f crc (fst (read_body F crc s rs)) \<and> snd (read_body F crc s rs) = Reset"
  using assms(1-3)
proof (induction rs arbitrary: s img)
  case Nil
  then show ?case using finish_settled [OF Nil.prems(1,2) _ assms(4,5)] by (simp add: read_bytes_def)
next
  case (Cons r rs)
  show ?case
  proof (cases r)
    case Sock_Error
    then show ?thesis using rollback_settled [OF Cons.prems(1) assms(4,5)] by (simp add: ota_rollback_def)
  next
    case (Sock_Data d)
    have budget: "length img + length d + read_bytes rs \<le> 0x140000"
      using Cons.prems(3) Sock_Data by (simp add: read_bytes_def)
    then have short: "length d < 2 ^ 31" by simp
    obtain s1 w where w: "ota_write F s d = (s1, w)" by fastforce
    note u1 = untouched_write [OF Cons.prems(1,2) w short]
    show ?thesis
    proof (cases "d = []")
      case True
      then show ?thesis using finish_settled [OF Cons.prems(1,2) _ assms(4,5)] budget Sock_Data by simp
    next
      case False
      show ?thesis
      proof (cases w)
        case (Inl e)
        with False Sock_Data w rollback_settled [OF u1 assms(4,5)] show ?thesis by (simp add: ota_rollback_def)
      next
        case (Inr x)
        have "session byte s1 (img @ d)" using write_session [OF Cons.prems(2) _ short] w Inr by simp
        from Cons.IH [OF u1 this] budget False Sock_Data w Inr show ?thesis by simp
      qed
    qed
  qed
qed

lemma begin_untouched:
  assumes "untouched byte cap f s" and "ota_begin F s = (s', Inr ())"
  shows "untouched byte cap f s'" and "session byte s' []"
proof -
  have "session byte s' []" using begin_session [OF assms(2)] assms(1) by (simp add: untouched_def)
  then show "untouched byte cap f s'" using begin_frame [OF assms(2)] assms(1) by (simp add: untouched_def session_def)
  show "session byte s' []" by fact
qed

lemma start_body_outcome:
  assumes "untouched byte cap f s" and "\<not> in_progress s" and "length header + read_bytes rs \<le> 0x140000"
    and "boot_known (byte f)" and "0x3E0000 \<le> cap f"
  shows "(case start_body F crc s header pos rs of (s', Reset) \<Rightarrow> settled byte f crc s' | (s', Returned_Err) \<Rightarrow> s' = s)"
proof (cases "validate_http_status header")
  case False
  then show ?thesis by (simp add: start_body_def)
next
  case valid: True
  have "part_base (target s) + 0x140000 \<le> cap (ota_flash s)"
    using assms(1,5) part_base_bounds(2) [of "target s"] by (simp add: untouched_def)
  then obtain s1 where b: "ota_begin F s = (s1, Inr ())"
    using begin_total [OF assms(2)] by (cases "ota_begin F s") auto
  note u1 = begin_untouched [OF assms(1) b]
  let ?long = "case parse_content_length header of Some n \<Rightarrow> APP_PARTITION_SIZE < n | None \<Rightarrow> False"
  show ?thesis
  proof (cases ?long)
    case True
    with valid b rollback_settled [OF u1(1) assms(4,5)] show ?thesis by (simp add: start_body_def ota_rollback_def)
  next
    case False
    let ?d = "drop (pos + 4) header"
    obtain s2 w where w: "ota_write F s1 ?d = (s2, w)" by fastforce
    have short: "length ?d < 2 ^ 31" using assms(3) by simp
    note u2 = untouched_write [OF u1 w short]
    have body: "settled byte f crc (fst (read_body F crc s1 rs)) \<and> snd (read_body F crc s1 rs) = Reset"
      using assms(3) by (intro body_settled [OF u1 _ assms(4,5)]) simp
    have fst_snd: "case x of (s', Reset) \<Rightarrow> settled byte f crc s' | (s', Returned_Err) \<Rightarrow> s' = s"
      if "settled byte f crc (fst x) \<and> snd x = Reset" for x
      using that by (cases x) simp
    show ?thesis
    proof (cases "pos + 4 < length header")
      case nobody: False
      with valid b False fst_snd [OF body] show ?thesis by (simp add: start_body_def Let_def)
    next
      case True
      show ?thesis
      proof (cases w)
        case (Inl e)
        with valid b False True w rollback_settled [OF u2 assms(4,5)] show ?thesis
          by (simp add: start_body_def Let_def ota_rollback_def)
      next
        case (Inr x)
        have "session byte s2 ([] @ ?d)" using write_session [OF u1(2) _ short] w Inr by simp
        then have "settled byte f crc (fst (read_body F crc s2 rs)) \<and> snd (read_body F crc s2 rs) = Reset"
          using assms(3) by (intro body_settled [where img = "[] @ ?d", OF u2 _ _ assms(4,5)]) simp_all
        with valid b False True w Inr fst_snd show ?thesis by (simp add: start_body_def Let_def)
      qed
    qed
  qed
qed

lemma headers_outcome:
  assumes "untouched byte cap f s" and "\<not> in_progress s" and "length header + read_bytes rs \<le> 0x140000"
    and "boot_known (byte f)" and "0x3E0000 \<le> cap f"
  shows "(case read_headers F crc s header rs of (s', Reset) \<Rightarrow> settled byte f crc s' | (s', Returned_Err) \<Rightarrow> s' = s)"
  using assms(3)
proof (induction rs arbitrary: header)
  case (Cons r rs)
  show ?case
  proof (cases r)
    case (Sock_Data d)
    then have "length (header @ d) + read_bytes rs \<le> 0x140000" using Cons.prems by (simp add: read_bytes_def)
    from Cons.IH [OF this] start_body_outcome [OF assms(1,2) this assms(4,5)] Sock_Data show ?thesis
      by (auto split: option.split)
  qed simp
qed simp

lemma request_settled:
  assumes "boot_known (byte f)" and "0x3E0000 \<le> cap f" and "read_bytes (net_reads n) \<le> 0x140000"
  shows "settled byte f (parse_crc_from_url url) (handle_ota_request F n (ota_new f (booted (byte f))) url)"
proof -
  let ?s = "ota_new f (booted (byte f))"
  have "(case perform_ota_update F n ?s url of (s', Reset) \<Rightarrow> settled byte f (parse_crc_from_url url) s' | (s', Returned_Err) \<Rightarrow> s' = ?s)"
    using headers_outcome [OF untouched_new _ _ assms(1,2), of "[]" "net_reads n" "parse_crc_from_url url"] assms(3)
    by (auto simp: perform_ota_update_def Let_def split: option.split)
  then show ?thesis using rollback_settled [OF untouched_new assms(1,2)]
    by (auto simp: handle_ota_request_def split: prod.splits ota_end.splits)
qed

end

section \<open>A response in pieces\<close>

lemma starts_with_take: "length p \<le> length xs \<Longrightarrow> starts_with (xs @ ys) p = starts_with xs p"
  by (simp add: starts_with_iff)

text \<open>Where the headers end depends on the bytes up to there only.\<close>

lemma header_end_extend:
  assumes "find_header_end h = Some i" and "length h = i + 4" shows "find_header_end (h @ x) = Some i"
proof -
  have "starts_with (drop j (h @ x)) [13, 10, 13, 10] = starts_with (drop j h) [13, 10, 13, 10]" if "j \<le> i" for j
    using that assms(2) starts_with_take [of "[13, 10, 13, 10]" "drop j h" x] by simp
  then show ?thesis using assms(1) by (simp add: find_header_end_str find_str_Some_iff)
qed

lemma header_end_prefix:
  assumes "find_header_end h = Some i" and "length h = i + 4" and "h = p @ q" and "q \<noteq> []"
  shows "find_header_end p = None"
proof (rule ccontr)
  assume "find_header_end p \<noteq> None"
  then obtain j where j: "starts_with (drop j p) [13, 10, 13, 10]" by (auto simp: find_header_end_str dest: find_str_first)
  then have "length (take 4 (drop j p)) = 4" by (simp add: starts_with_iff numeral_eq_Suc)
  then have len: "4 + j \<le> length p" by simp
  then have "starts_with (drop j h) [13, 10, 13, 10]"
    using j assms(3) starts_with_take [of "[13, 10, 13, 10]" "drop j p" q] by simp
  moreover have "j < i" using len assms(2-4) by (cases q) auto
  ultimately show False using assms(1) by (simp add: find_header_end_str find_str_Some_iff)
qed

lemma position_append: "position P xs = Some i \<Longrightarrow> position P (xs @ ys) = Some i"
  by (induction xs arbitrary: i) (auto split: if_splits)

lemma position_less: "position P xs = Some i \<Longrightarrow> i < length xs"
  by (induction xs arbitrary: i) (auto split: if_splits)

lemma validate_append: "validate_http_status h \<Longrightarrow> validate_http_status (h @ x)"
  using starts_with_take [of "bytes ''HTTP/1.''" h x]
  by (auto simp: validate_http_status_def Let_def position_append starts_with_iff nth_append
      split: if_splits option.splits)

text \<open>A head of a response with which an update goes on, whatever follows.\<close>

definition good_head :: "u8 list \<Rightarrow> bool" where
  "good_head h \<longleftrightarrow> validate_http_status h \<and> (\<exists>i. find_header_end h = Some i \<and> length h = i + 4) \<and>
     length h \<le> 3072 \<and> (\<forall>x. case parse_content_length (h @ x) of Some n \<Rightarrow> n \<le> 0x140000 | None \<Rightarrow> True)"

definition chunk_ok :: "u8 list \<Rightarrow> bool" where
  "chunk_ok d \<longleftrightarrow> d \<noteq> [] \<and> length d \<le> 1024"

lemma prefix_cases:
  assumes "p @ q = h @ b" and "length p < length h" shows "\<exists>r. h = p @ r \<and> r \<noteq> []"
  using assms by (metis append_eq_append_conv_if append_take_drop_id less_imp_le_nat append_Nil2 order_less_irrefl)

lemma split_at:
  assumes "a @ b = h @ c" and "length h \<le> length a" shows "\<exists>x. a = h @ x \<and> x @ b = c"
  using assms by (auto simp: append_eq_append_conv2)

context reliable_flash
begin

lemma body_pieces:
  assumes "untouched byte cap f s" and "session byte s img" and "img @ concat ds = body" and "list_all chunk_ok ds"
    and "length body \<le> 0x140000" and "body \<noteq> []" and "hd body = 0xE9" and "0x3E0000 \<le> cap f"
  shows "\<exists>s'. read_body F crc s (map Sock_Data ds) = finish_update F crc s' \<and> untouched byte cap f s' \<and> session byte s' body"
  using assms(1-4)
proof (induction ds arbitrary: s img)
  case Nil
  then show ?case by auto
next
  case (Cons d ds)
  have d: "d \<noteq> []" "length d < 2 ^ 31" using Cons.prems(4) by (simp_all add: chunk_ok_def)
  have "length img + length d \<le> 0x140000" using Cons.prems(3) assms(5) by auto
  moreover have "unat (write_offset s) \<le> length img" using Cons.prems(2) stored_le(1) [of img] by (simp add: session_def)
  ultimately have fits: "write_fits s d" by (simp add: write_fits_def)
  have c: "part_base (target s) + 0x140000 \<le> cap (ota_flash s)"
    using Cons.prems(1) assms(8) part_base_bounds(2) [of "target s"] by (simp add: untouched_def)
  have "img = [] \<longrightarrow> d = [] \<or> hd d = 0xE9" using Cons.prems(3) assms(7) d(1) by (cases d) auto
  from write_total [OF Cons.prems(2) this fits d(2) c]
  obtain s1 where w: "ota_write F s d = (s1, Inr ())" by (cases "ota_write F s d") auto
  note u1 = untouched_write [OF Cons.prems(1,2) w d(2)] and se1 = write_session [OF Cons.prems(2) w d(2)]
  have "\<exists>s'. read_body F crc s1 (map Sock_Data ds) = finish_update F crc s' \<and> untouched byte cap f s' \<and> session byte s' body"
    using Cons.prems(3,4) by (intro Cons.IH [OF u1 se1]) simp_all
  with w d(1) show ?case by simp
qed

lemma response_pieces:
  assumes "untouched byte cap f s" and "\<not> in_progress s" and "good_head h" and "p @ concat ds = h @ body"
    and "length p < length h" and "list_all chunk_ok ds"
    and "length body \<le> 0x140000" and "body \<noteq> []" and "hd body = 0xE9" and "0x3E0000 \<le> cap f"
  shows "\<exists>s'. read_headers F crc s p (map Sock_Data ds) = finish_update F crc s' \<and> untouched byte cap f s' \<and> session byte s' body"
  using assms(4-6)
proof (induction ds arbitrary: p)
  case Nil
  then show ?case by (metis concat.simps(1) append_Nil2 length_append le_add1 linorder_not_le)
next
  case (Cons d ds)
  obtain i where h: "validate_http_status h" "find_header_end h = Some i" "length h = i + 4" "length h \<le> 3072"
    and len: "\<And>x. case parse_content_length (h @ x) of Some n \<Rightarrow> n \<le> 0x140000 | None \<Rightarrow> True"
    using assms(3) by (auto simp: good_head_def)
  have d: "d \<noteq> []" "length d \<le> 1024" using Cons.prems(3) by (simp_all add: chunk_ok_def)
  have size: "\<not> MAX_HEADER_SIZE < length p + length d" using Cons.prems(2) h(4) d(2) by (simp add: MAX_HEADER_SIZE_def)
  show ?case
  proof (cases "length (p @ d) < length h")
    case True
    then obtain r where "h = (p @ d) @ r" "r \<noteq> []" using prefix_cases [of "p @ d" "concat ds" h body] Cons.prems(1) by auto
    from header_end_prefix [OF h(2,3) this] d size True Cons.IH [of "p @ d"] Cons.prems show ?thesis by simp
  next
    case False
    then obtain x where x: "p @ d = h @ x" "x @ concat ds = body"
      using split_at [of "p @ d" "concat ds" h body] Cons.prems(1) by auto
    note e = header_end_extend [OF h(2,3), of x]
    have "part_base (target s) + 0x140000 \<le> cap (ota_flash s)"
      using assms(1,10) part_base_bounds(2) [of "target s"] by (simp add: untouched_def)
    then obtain s1 where b: "ota_begin F s = (s1, Inr ())" using begin_total [OF assms(2)] by (cases "ota_begin F s") auto
    note u1 = begin_untouched [OF assms(1) b]
    have ok: "\<not> (case parse_content_length (h @ x) of Some n \<Rightarrow> APP_PARTITION_SIZE < n | None \<Rightarrow> False)"
      using len [of x] by (auto simp: APP_PARTITION_SIZE_def split: option.splits)
    have "list_all chunk_ok ds" using Cons.prems(3) by simp
    from body_pieces [OF u1 _ this assms(7-10), of crc] x(2)
    have plain: "x = [] \<Longrightarrow> ?thesis"
      using d size x(1) e b validate_append [OF h(1), of x] ok h(3) by (simp add: start_body_def Let_def)
    show ?thesis
    proof (cases "x = []")
      case False
      have "write_fits s1 x" "length x < 2 ^ 31" using x(2) assms(7) u1(2)
        by (auto simp: write_fits_def session_def stored_def)
      moreover have "hd x = 0xE9" using x(2) assms(9) False by (cases x) auto
      moreover have "part_base (target s1) + 0x140000 \<le> cap (ota_flash s1)"
        using u1(1) assms(10) part_base_bounds(2) [of "target s1"] by (simp add: untouched_def)
      ultimately obtain s2 where w: "ota_write F s1 x = (s2, Inr ())"
        using write_total [OF u1(2), of x] by (cases "ota_write F s1 x") auto
      have sx: "length x < 2 ^ 31" by fact
      have "\<exists>s'. read_body F crc s2 (map Sock_Data ds) = finish_update F crc s' \<and> untouched byte cap f s' \<and> session byte s' body"
        using x(2) write_session [OF u1(2) w sx] \<open>list_all chunk_ok ds\<close>
        by (intro body_pieces [OF untouched_write [OF u1 w sx] _ _ _ assms(7-10), of x]) simp_all
      with d size x(1) e b validate_append [OF h(1), of x] ok h(3) False w show ?thesis
        by (simp add: start_body_def Let_def)
    qed (rule plain)
  qed
qed

lemma request_installs:
  assumes "boot_known (byte f)" and "0x3E0000 \<le> cap f"
    and "parse_http_url url = Some (host, port, path)" and "net_resolve n host = Some addr" and "net_connect n addr port"
    and "net_send n (build_http_get host path)" and "net_reads n = map Sock_Data ds" and "list_all chunk_ok ds"
    and "good_head h" and "concat ds = h @ body"
    and "body \<noteq> []" and "hd body = 0xE9" and "length body \<le> 0x140000"
    and "\<forall>c. parse_crc_from_url url = Some c \<longrightarrow> crc32 body = c"
  defines "m \<equiv> byte (ota_flash (handle_ota_request F n (ota_new f (booted (byte f))) url))" and "oth \<equiv> other_partition (booted (byte f))"
  shows "booted m = oth" and "holds m oth body"
proof -
  let ?s = "ota_new f (booted (byte f))" and ?crc = "parse_crc_from_url url"
  have "h \<noteq> []" using assms(9) by (auto simp: good_head_def)
  then obtain s' where s': "read_headers F ?crc ?s [] (map Sock_Data ds) = finish_update F ?crc s'"
      "untouched byte cap f s'" "session byte s' body"
    using response_pieces [OF untouched_new _ assms(9) _ _ assms(8,13,11,12,2), of "[]" ?crc] assms(10) by auto
  have p: "perform_ota_update F n ?s url = finish_update F ?crc s'"
    using assms(3-7) s'(1) by (simp add: perform_ota_update_def Let_def)
  have "snd (finish_update F ?crc s') = Reset" by (rule finish_settled(2) [OF s'(2,3) assms(13,1,2)])
  then have m: "m = byte (ota_flash (fst (finish_update F ?crc s')))"
    unfolding m_def handle_ota_request_def p by (cases "finish_update F ?crc s'") simp
  note inst = finish_installs [OF s'(2,3) assms(13,11,14,1,2)]
  show "booted m = oth" unfolding m oth_def by (rule inst(1))
  show "holds m oth body" unfolding m oth_def by (rule inst(2))
qed

end

section \<open>A device to update\<close>

text \<open>The flash of the tests once the second partition has been selected.\<close>

lemma selected_mock:
  "\<exists>g. boot_known (mock_byte g) \<and> 0x3E0000 \<le> mock_capacity g \<and> booted (mock_byte g) = Ota1"
proof -
  let ?f = "mock_new 0x3E0000"
  obtain g where g: "set_boot_partition mock_flash ?f Ota1 = (g, Inr ())"
    using mock.set_boot_total [of ?f Ota1] by auto
  have sel: "selected_seqs Ota1 (mock_byte ?f) (mock_byte g)" by (rule mock.set_boot_selected [OF g]) simp
  then have seqs: "slot_seq (mock_byte g) 1 = 2" "slot_seq (mock_byte g) 0 \<in> {0, 1}"
    by (auto simp: selected_seqs_def new_seq_def seed_seq_def part_index_def other_partition_def Let_def split: if_splits)
  then have "max_seq (mock_byte g) = 2" by (auto simp: max_seq_def)
  then have "boot_known (mock_byte g)" "booted (mock_byte g) = Ota1" by (simp_all add: boot_known_def booted_def)
  moreover have "0x3E0000 \<le> mock_capacity g" using mock.set_boot_outside(2) [OF g] by simp
  ultimately show ?thesis by blast
qed

definition example_head :: "u8 list" where
  "example_head = bytes ''HTTP/1.1 200 OK'' @ [13, 10] @ bytes ''Content-Length: 7'' @ [13, 10, 13, 10]"

lemma good_example_head: "good_head example_head"
  unfolding good_head_def
proof (intro conjI allI exI)
  show "validate_http_status example_head" by code_simp
  show "find_header_end example_head = Some 34" by code_simp
  show "length example_head = 34 + 4" by (simp add: example_head_def bytes_def)
  show "length example_head \<le> 3072" by (simp add: example_head_def bytes_def)
  fix x
  have "from_utf8 [55] = Some [55]" by (simp add: utf8_step_def byte_at_def)
  moreover have "parse_unsigned 4294967295 (trim [55]) = Some 7"
    by (simp add: parse_unsigned_def trim_def trim_start_def trim_end_def is_whitespace_def in_range_def is_digit_def digits_value_def)
  ultimately have "parse_content_length (example_head @ x) = Some 7"
    by (simp add: example_head_def parse_content_length_def find_header_value_start_case_insensitive_def find_header_value_start_impl_def
        bytes_def header_line_search.simps skip_spaces.simps starts_with_ignore_case_def to_ascii_lowercase_def line_end_def del: from_utf8.simps)
  then show "case parse_content_length (example_head @ x) of Some n \<Rightarrow> n \<le> 0x140000 | None \<Rightarrow> True" by simp
qed

section \<open>Properties\<close>



text \<open>
  Property C5: an update installs what the server sent. If the URL parses, the host resolves, the
  connection and the request succeed and the server sends an accepted response head followed by a
  body that starts with the magic byte, cut into reads of up to 1024 bytes in any way, and the
  CRC of the URL, if it has one, is the body's, then the device restarts from the other partition and that
  partition holds the body. The head need not agree with the body: a body shorter than the
  Content-Length is installed too.
\<close>
theorem update_installs_download:
  fixes byte :: "'f \<Rightarrow> nat \<Rightarrow> u8"
  assumes "reliable_flash F byte cap" and "boot_known (byte f)" and "0x3E0000 \<le> cap f"
    and "parse_http_url url = Some (host, port, path)" and "net_resolve n host = Some addr" and "net_connect n addr port"
    and "net_send n (build_http_get host path)" and "net_reads n = map Sock_Data ds" and "list_all chunk_ok ds"
    and "good_head h" and "concat ds = h @ body"
    and "body \<noteq> []" and "hd body = 0xE9" and "length body \<le> 0x140000"
    and "\<forall>c. parse_crc_from_url url = Some c \<longrightarrow> crc32 body = c"
  defines "oth \<equiv> other_partition (booted (byte f))"
  defines "m \<equiv> byte (ota_flash (handle_ota_request F n (ota_new f (booted (byte f))) url))"
  shows "booted m = oth \<and> holds m oth body"
  unfolding m_def oth_def using reliable_flash.request_installs [OF assms(1-15)] by blast

text \<open>The example: the head announces seven bytes, one comes; it is installed.\<close>

theorem update_installs_download_witness:
  "\<exists>g. let m = mock_byte (ota_flash (handle_ota_request mock_flash
      \<lparr>net_resolve = \<lambda>_. Some 1, net_connect = \<lambda>_ _. True, net_send = \<lambda>_. True,
       net_reads = map Sock_Data [example_head, [0xE9]]\<rparr> (ota_new g Ota1) (lit ''http://h/f.bin''))) in
    booted (mock_byte g) = Ota1 \<and> booted m = Ota0 \<and> holds m Ota0 [0xE9]"
proof -
  let ?n = "\<lparr>net_resolve = \<lambda>_. Some 1, net_connect = \<lambda>_ _. True, net_send = \<lambda>_. True,
            net_reads = map Sock_Data [example_head, [0xE9]]\<rparr>"
  obtain g where g: "boot_known (mock_byte g)" "0x3E0000 \<le> mock_capacity g" "booted (mock_byte g) = Ota1"
    using selected_mock by blast
  have url: "parse_http_url (lit ''http://h/f.bin'') = Some (lit ''h'', 80, lit ''/f.bin'')"
    "parse_crc_from_url (lit ''http://h/f.bin'') = None" by code_simp+
  have ok: "list_all chunk_ok [example_head, [0xE9]]" by (simp add: chunk_ok_def example_head_def bytes_def)
  from update_installs_download [OF mock.reliable_flash_axioms g(1,2) url(1) _ _ _ _ ok good_example_head, of ?n 1 "[0xE9]"] url(2) g(3)
  show ?thesis by (auto simp: other_partition_def Let_def)
qed

end
