(* ===== verification/JsonTree.thy ===== *)
theory JsonTree
  imports Json
begin

text \<open>
  Nested JSON, as far as the discovery payloads go: the text of a tree of objects, arrays, strings
  and tokens, a reader for it, and the proof that the reader gives back the tree.
\<close>

section \<open>Trees and their text\<close>

datatype jtree = JT_Token rstr | JT_String rstr | JT_Array "jtree list" | JT_Object "(rstr \<times> jtree) list"

definition member_of :: "rstr \<times> rstr \<Rightarrow> rstr" where
  "member_of m = quoted (fst m) @ [58] @ snd m"

primrec tree_text :: "jtree \<Rightarrow> rstr" where
  "tree_text (JT_Token t) = t"
| "tree_text (JT_String s) = quoted s"
| "tree_text (JT_Array ts) = [91] @ join_comma (map tree_text ts) @ [93]"
| "tree_text (JT_Object ms) = [123] @ join_comma (map member_of (map (map_prod id tree_text) ms)) @ [125]"

text \<open>Empty arrays and objects do not occur.\<close>

primrec tree_ok :: "jtree \<Rightarrow> bool" where
  "tree_ok (JT_Token t) = (t \<noteq> [] \<and> list_all token_char t)"
| "tree_ok (JT_String s) = True"
| "tree_ok (JT_Array ts) = (ts \<noteq> [] \<and> list_all id (map tree_ok ts))"
| "tree_ok (JT_Object ms) = (ms \<noteq> [] \<and> list_all snd (map (map_prod id tree_ok) ms))"

primrec tree_fuel :: "jtree \<Rightarrow> nat" where
  "tree_fuel (JT_Token t) = 1"
| "tree_fuel (JT_String s) = 1"
| "tree_fuel (JT_Array ts) = Suc (sum_list (map Suc (map tree_fuel ts)))"
| "tree_fuel (JT_Object ms) = Suc (sum_list (map (Suc \<circ> snd) (map (map_prod id tree_fuel) ms)))"

section \<open>Reading\<close>

fun read_tree :: "nat \<Rightarrow> rstr \<Rightarrow> (jtree \<times> rstr) option"
and read_items :: "nat \<Rightarrow> rstr \<Rightarrow> (jtree list \<times> rstr) option"
and read_fields :: "nat \<Rightarrow> rstr \<Rightarrow> ((rstr \<times> jtree) list \<times> rstr) option" where
  "read_tree 0 s = None"
| "read_tree (Suc n) [] = None"
| "read_tree (Suc n) (c # cs) =
     (if c = 34 then map_option (apfst JT_String) (read_string cs)
      else if c = 91 then map_option (apfst JT_Array) (read_items n cs)
      else if c = 123 then map_option (apfst JT_Object) (read_fields n cs)
      else if token_char c then Some (JT_Token (takeWhile token_char (c # cs)), dropWhile token_char (c # cs))
      else None)"
| "read_items 0 s = None"
| "read_items (Suc n) s =
     (case read_tree n s of
        None \<Rightarrow> None
      | Some (t, r) \<Rightarrow>
          (case expect_char 44 r of
             Some r' \<Rightarrow> map_option (apfst (Cons t)) (read_items n r')
           | None \<Rightarrow> map_option (Pair [t]) (expect_char 93 r)))"
| "read_fields 0 s = None"
| "read_fields (Suc n) s =
     (case Option.bind (expect_char 34 s) read_string of
        None \<Rightarrow> None
      | Some (k, r1) \<Rightarrow>
          (case Option.bind (expect_char 58 r1) (read_tree n) of
             None \<Rightarrow> None
           | Some (t, r2) \<Rightarrow>
               (case expect_char 44 r2 of
                  Some r' \<Rightarrow> map_option (apfst (Cons (k, t))) (read_fields n r')
                | None \<Rightarrow> map_option (Pair [(k, t)]) (expect_char 125 r2))))"

definition read_json :: "rstr \<Rightarrow> jtree option" where
  "read_json s = (case read_tree (2 * length s) s of Some (t, []) \<Rightarrow> Some t | _ \<Rightarrow> None)"

section \<open>Reading what was written\<close>

definition ends_value :: "rstr \<Rightarrow> bool" where
  "ends_value r \<longleftrightarrow> (\<forall>c cs. r = c # cs \<longrightarrow> \<not> token_char c)"

lemma ends_value_simps [simp]: "ends_value []" "ends_value (44 # r)" "ends_value (93 # r)" "ends_value (125 # r)"
  by (simp_all add: ends_value_def token_char_def)

lemma takeWhile_token:
  assumes "list_all token_char t" and "ends_value r"
  shows "takeWhile token_char (t @ r) = t" "dropWhile token_char (t @ r) = r"
  using assms by (cases r; simp add: ends_value_def list_all_iff takeWhile_append2 dropWhile_append2)+

lemma items_text:
  assumes "\<And>t n r. t \<in> set ts \<Longrightarrow> tree_fuel t \<le> n \<Longrightarrow> ends_value r \<Longrightarrow> read_tree n (tree_text t @ r) = Some (t, r)"
    and "ts \<noteq> []" and "sum_list (map Suc (map tree_fuel ts)) \<le> n"
  shows "read_items n (join_comma (map tree_text ts) @ 93 # r) = Some (ts, r)"
  using assms
proof (induction ts arbitrary: n)
  case (Cons t ts)
  then obtain n' where n: "n = Suc n'" "tree_fuel t \<le> n'" by (cases n) simp_all
  have first: "read_tree n' (tree_text t @ c # q) = Some (t, c # q)" if "c = 44 \<or> c = 93" for c q
    using that n(2) by (intro Cons.prems(1)) auto
  show ?case
  proof (cases ts)
    case Nil
    with first [of 93 r] n show ?thesis by (simp add: expect_char_def)
  next
    case (Cons u us)
    have "read_items n' (join_comma (map tree_text ts) @ 93 # r) = Some (ts, r)"
      using Cons.prems n Cons by (intro Cons.IH) auto
    with first [of 44 "join_comma (map tree_text ts) @ 93 # r"] n Cons show ?thesis by (simp add: expect_char_def)
  qed
qed simp

lemma fields_text:
  assumes "\<And>k t n r. (k, t) \<in> set ms \<Longrightarrow> tree_fuel t \<le> n \<Longrightarrow> ends_value r \<Longrightarrow> read_tree n (tree_text t @ r) = Some (t, r)"
    and "ms \<noteq> []" and "sum_list (map (Suc \<circ> snd) (map (map_prod id tree_fuel) ms)) \<le> n"
  shows "read_fields n (join_comma (map member_of (map (map_prod id tree_text) ms)) @ 125 # r) = Some (ms, r)"
  using assms
proof (induction ms arbitrary: n)
  case (Cons m ms)
  obtain k t where m: "m = (k, t)" by fastforce
  obtain n' where n: "n = Suc n'" "tree_fuel t \<le> n'" using Cons.prems(3) m by (cases n) simp_all
  have first: "read_tree n' (tree_text t @ c # q) = Some (t, c # q)" if "c = 44 \<or> c = 125" for c q
    using that n(2) m by (intro Cons.prems(1)) auto
  have key: "Option.bind (expect_char 34 (member_of (k, tree_text t) @ q)) read_string = Some (k, 58 # tree_text t @ q)" for q
    using read_escaped [of k "58 # tree_text t @ q"] by (simp add: member_of_def quoted_def expect_char_def)
  have expect: "expect_char c (d # q) = (if d = c then Some q else None)" for c d q by (simp add: expect_char_def)
  show ?case
  proof (cases ms)
    case Nil
    with first [of 125 r] key [of "125 # r"] n m show ?thesis by (simp add: expect)
  next
    case (Cons u us)
    let ?rest = "join_comma (map member_of (map (map_prod id tree_text) ms)) @ 125 # r"
    have "read_fields n' ?rest = Some (ms, r)"
      using Cons.prems n Cons m by (intro Cons.IH) auto
    then have rest: "read_fields n' q = Some (ms, r)" if "q = ?rest" for q using that by simp
    define q where "q = ?rest"
    have shape: "join_comma (map member_of (map (map_prod id tree_text) (m # ms))) @ 125 # r = member_of (k, tree_text t) @ 44 # q"
      by (simp add: q_def m Cons)
    show ?thesis unfolding shape n(1) using first [of 44 q] key [of "44 # q"] rest [OF q_def] m by (simp add: expect)
  qed
qed simp

lemma read_tree_text:
  "tree_ok t \<Longrightarrow> tree_fuel t \<le> n \<Longrightarrow> ends_value r \<Longrightarrow> read_tree n (tree_text t @ r) = Some (t, r)"
proof (induction t arbitrary: n r)
  case (JT_Token t)
  then obtain c cs where t: "t = c # cs" "token_char c" by (cases t) auto
  then have "c \<noteq> 34" "c \<noteq> 91" "c \<noteq> 123" by (auto simp: token_char_def)
  moreover obtain n' where "n = Suc n'" using JT_Token by (cases n) simp_all
  ultimately show ?case using takeWhile_token [of t r] JT_Token t by simp
next
  case (JT_String s)
  then obtain n' where "n = Suc n'" by (cases n) simp_all
  then show ?case by (simp add: quoted_def read_escaped)
next
  case (JT_Array ts)
  then obtain n' where n: "n = Suc n'" by (cases n) simp_all
  have ok: "t \<in> set ts \<Longrightarrow> tree_ok t" for t using JT_Array.prems(1) by (auto simp: list_all_iff)
  have "read_items n' (join_comma (map tree_text ts) @ 93 # r) = Some (ts, r)"
    using JT_Array.prems n by (intro items_text JT_Array.IH ok) simp_all
  with n show ?case by simp
next
  case (JT_Object ms)
  then obtain n' where n: "n = Suc n'" by (cases n) simp_all
  have ok: "(k, t) \<in> set ms \<Longrightarrow> tree_ok t" for k t using JT_Object.prems(1) by (auto simp: list_all_iff)
  have "read_fields n' (join_comma (map member_of (map (map_prod id tree_text) ms)) @ 125 # r) = Some (ms, r)"
  proof (rule fields_text)
    fix k t n r assume "(k, t) \<in> set ms" and "tree_fuel t \<le> n" and "ends_value r"
    then show "read_tree n (tree_text t @ r) = Some (t, r)" by (intro JT_Object.IH [of "(k, t)"] ok) auto
  qed (use JT_Object.prems n in simp_all)
  with n show ?case by simp
qed

lemma join_comma_length: "ts \<noteq> [] \<Longrightarrow> Suc (length (join_comma ts)) = sum_list (map (Suc \<circ> length) ts)"
  by (induction ts rule: join_comma.induct) auto

lemma tree_fuel_bound: "tree_ok t \<Longrightarrow> tree_fuel t \<le> 2 * length (tree_text t)"
proof (induction t)
  case (JT_Token t)
  then show ?case by (cases t) simp_all
next
  case (JT_String s)
  then show ?case by (simp add: quoted_def)
next
  case (JT_Array ts)
  have "sum_list (map Suc (map tree_fuel ts)) \<le> sum_list (map (\<lambda>t. 2 * Suc (length (tree_text t))) ts)"
    using JT_Array by (auto simp: list_all_iff comp_def intro!: sum_list_mono order.trans [OF JT_Array.IH])
  also have "\<dots> = 2 * (\<Sum>t\<leftarrow>ts. Suc (length (tree_text t)))" by (rule sum_list_const_mult)
  also have "(\<Sum>t\<leftarrow>ts. Suc (length (tree_text t))) = Suc (length (join_comma (map tree_text ts)))"
    using join_comma_length [of "map tree_text ts"] JT_Array.prems by (simp add: comp_def)
  finally show ?case by simp
next
  case (JT_Object ms)
  have "Suc (tree_fuel (snd m)) \<le> 2 * Suc (length (member_of (map_prod id tree_text m)))" if "m \<in> set ms" for m
  proof -
    have "tree_fuel (snd m) \<le> 2 * length (tree_text (snd m))"
      using JT_Object.IH [OF that, of "snd m"] JT_Object.prems that by (cases m) (auto simp: list_all_iff)
    then show ?thesis by (cases m) (simp add: member_of_def)
  qed
  then have "sum_list (map (\<lambda>m. Suc (tree_fuel (snd m))) ms) \<le>
      sum_list (map (\<lambda>m. 2 * Suc (length (member_of (map_prod id tree_text m)))) ms)"
    by (rule sum_list_mono)
  also have "\<dots> = 2 * (\<Sum>m\<leftarrow>ms. Suc (length (member_of (map_prod id tree_text m))))" by (rule sum_list_const_mult)
  also have "(\<Sum>m\<leftarrow>ms. Suc (length (member_of (map_prod id tree_text m)))) =
      Suc (length (join_comma (map member_of (map (map_prod id tree_text) ms))))"
    using join_comma_length [of "map member_of (map (map_prod id tree_text) ms)"] JT_Object.prems
    by (simp add: comp_def)
  finally show ?case by (simp add: comp_def)
qed

text \<open>The text of a tree is read as that tree.\<close>

lemma read_json_text: "tree_ok t \<Longrightarrow> read_json (tree_text t) = Some t"
  using read_tree_text [of t "2 * length (tree_text t)" "[]"] tree_fuel_bound [of t] by (simp add: read_json_def)

end
