(* ===== verification/Discovery.thy ===== *)
theory Discovery
  imports JsonTree MqttState CommandParser
begin

text \<open>
  The discovery payloads for Home Assistant (\<open>crates/launa-mqtt/src/discovery.rs\<close>). The format
  strings of the source are lists of members here: \<open>entity_text\<close> prints them in the same order with the
  same characters. The identifier of the device goes into the texts unescaped, as in the source.
\<close>

section \<open>The builder\<close>

record DiscoveryMessage =
  dm_topic :: rstr
  dm_payload :: rstr
  dm_retain :: bool

record DiscoveryBuilder =
  db_device_id :: rstr
  db_device_name :: rstr
  db_device_model :: rstr
  db_sw_version :: rstr
  db_manufacturer :: rstr
  db_celsius :: bool

definition discovery_new :: "rstr \<Rightarrow> DiscoveryBuilder" where
  "discovery_new device_id =
     \<lparr>db_device_id = device_id, db_device_name = lit ''Launa Spa'', db_device_model = lit ''BP6013G1'',
      db_sw_version = lit ''unknown'', db_manufacturer = lit ''Launa'', db_celsius = False\<rparr>"

definition with_celsius :: "DiscoveryBuilder \<Rightarrow> bool \<Rightarrow> DiscoveryBuilder" where
  "with_celsius b celsius = b\<lparr>db_celsius := celsius\<rparr>"

definition with_device_name :: "DiscoveryBuilder \<Rightarrow> rstr \<Rightarrow> DiscoveryBuilder" where
  "with_device_name b name = b\<lparr>db_device_name := name\<rparr>"

definition with_device_model :: "DiscoveryBuilder \<Rightarrow> rstr \<Rightarrow> DiscoveryBuilder" where
  "with_device_model b model = b\<lparr>db_device_model := model\<rparr>"

definition with_manufacturer :: "DiscoveryBuilder \<Rightarrow> rstr \<Rightarrow> DiscoveryBuilder" where
  "with_manufacturer b manufacturer = b\<lparr>db_manufacturer := manufacturer\<rparr>"

definition with_sw_version :: "DiscoveryBuilder \<Rightarrow> rstr \<Rightarrow> DiscoveryBuilder" where
  "with_sw_version b version = b\<lparr>db_sw_version := version\<rparr>"

section \<open>Texts\<close>

definition raw_quoted :: "rstr \<Rightarrow> rstr" where
  "raw_quoted s = [34] @ s @ [34]"

definition entity_member :: "string \<times> rstr \<Rightarrow> rstr" where
  "entity_member m = raw_quoted (lit (fst m)) @ [58] @ snd m"

definition entity_text :: "(string \<times> rstr) list \<Rightarrow> rstr" where
  "entity_text ms = [123] @ join_comma (map entity_member ms) @ [125]"

definition array_text :: "rstr list \<Rightarrow> rstr" where
  "array_text vs = [91] @ join_comma vs @ [93]"

definition json_device_block :: "rstr \<Rightarrow> rstr \<Rightarrow> rstr \<Rightarrow> rstr \<Rightarrow> rstr \<Rightarrow> rstr" where
  "json_device_block device_id name manufacturer model sw_version =
     entity_text
       [(''identifiers'', array_text [raw_quoted (escape_json_string device_id)]),
        (''name'', raw_quoted (escape_json_string name)),
        (''manufacturer'', raw_quoted (escape_json_string manufacturer)),
        (''model'', raw_quoted (escape_json_string model)),
        (''sw_version'', raw_quoted (escape_json_string sw_version))]"

definition json_origin :: "rstr \<Rightarrow> rstr" where
  "json_origin sw_version =
     entity_text
       [(''name'', raw_quoted (lit ''launa-firmware'')),
        (''sw_version'', raw_quoted (escape_json_string sw_version))]"

text \<open>What every entity shares: topics, identifier, and the blocks for device and origin.\<close>

record shared =
  sh_topics :: TopicBuilder
  sh_device_id :: rstr
  sh_device :: rstr
  sh_origin :: rstr
  sh_state_topic :: rstr
  sh_avail_topic :: rstr

definition value_template :: "rstr \<Rightarrow> rstr" where
  "value_template field = lit ''{{ value_json.'' @ field @ lit '' }}''"

section \<open>Entities\<close>

definition make_sensor :: "shared \<Rightarrow> rstr \<Rightarrow> rstr \<Rightarrow> rstr \<Rightarrow> rstr \<Rightarrow> rstr \<Rightarrow> DiscoveryMessage" where
  "make_sensor sh object_id name device_class unit tmpl =
     \<lparr>dm_topic = discovery_topic (sh_topics sh) (lit ''sensor'') object_id,
      dm_payload = entity_text
        [(''device'', sh_device sh), (''origin'', sh_origin sh), (''name'', raw_quoted name),
         (''unique_id'', raw_quoted (sh_device_id sh @ lit ''_'' @ object_id)),
         (''device_class'', raw_quoted device_class), (''unit_of_measurement'', raw_quoted unit),
         (''state_topic'', raw_quoted (sh_state_topic sh)), (''value_template'', raw_quoted tmpl),
         (''availability_topic'', raw_quoted (sh_avail_topic sh))],
      dm_retain = False\<rparr>"

definition make_binary_sensor :: "shared \<Rightarrow> rstr \<Rightarrow> rstr \<Rightarrow> rstr \<Rightarrow> rstr \<Rightarrow> DiscoveryMessage" where
  "make_binary_sensor sh object_id name device_class tmpl =
     \<lparr>dm_topic = discovery_topic (sh_topics sh) (lit ''binary_sensor'') object_id,
      dm_payload = entity_text
        [(''device'', sh_device sh), (''origin'', sh_origin sh), (''name'', raw_quoted name),
         (''unique_id'', raw_quoted (sh_device_id sh @ lit ''_'' @ object_id)),
         (''device_class'', raw_quoted device_class), (''state_topic'', raw_quoted (sh_state_topic sh)),
         (''value_template'', raw_quoted tmpl), (''payload_on'', raw_quoted (lit ''true'')),
         (''payload_off'', raw_quoted (lit ''false'')), (''availability_topic'', raw_quoted (sh_avail_topic sh))],
      dm_retain = False\<rparr>"

definition make_switch :: "shared \<Rightarrow> rstr \<Rightarrow> rstr \<Rightarrow> rstr \<Rightarrow> rstr \<Rightarrow> DiscoveryMessage" where
  "make_switch sh object_id name tmpl cmd =
     \<lparr>dm_topic = discovery_topic (sh_topics sh) (lit ''switch'') object_id,
      dm_payload = entity_text
        [(''device'', sh_device sh), (''origin'', sh_origin sh), (''name'', raw_quoted name),
         (''unique_id'', raw_quoted (sh_device_id sh @ lit ''_'' @ object_id)),
         (''state_topic'', raw_quoted (sh_state_topic sh)), (''command_topic'', raw_quoted cmd),
         (''value_template'', raw_quoted tmpl), (''payload_on'', raw_quoted (lit ''true'')),
         (''payload_off'', raw_quoted (lit ''false'')), (''availability_topic'', raw_quoted (sh_avail_topic sh))],
      dm_retain = False\<rparr>"

definition make_switch_optimistic :: "shared \<Rightarrow> rstr \<Rightarrow> rstr \<Rightarrow> rstr \<Rightarrow> DiscoveryMessage" where
  "make_switch_optimistic sh object_id name cmd =
     \<lparr>dm_topic = discovery_topic (sh_topics sh) (lit ''switch'') object_id,
      dm_payload = entity_text
        [(''device'', sh_device sh), (''origin'', sh_origin sh), (''name'', raw_quoted name),
         (''unique_id'', raw_quoted (sh_device_id sh @ lit ''_'' @ object_id)),
         (''command_topic'', raw_quoted cmd), (''payload_on'', raw_quoted (lit ''true'')),
         (''payload_off'', raw_quoted (lit ''false'')), (''optimistic'', lit ''true''),
         (''availability_topic'', raw_quoted (sh_avail_topic sh))],
      dm_retain = False\<rparr>"

definition make_select :: "shared \<Rightarrow> rstr \<Rightarrow> rstr \<Rightarrow> rstr \<Rightarrow> rstr \<Rightarrow> rstr \<Rightarrow> DiscoveryMessage" where
  "make_select sh object_id name options tmpl cmd =
     \<lparr>dm_topic = discovery_topic (sh_topics sh) (lit ''select'') object_id,
      dm_payload = entity_text
        [(''device'', sh_device sh), (''origin'', sh_origin sh), (''name'', raw_quoted name),
         (''unique_id'', raw_quoted (sh_device_id sh @ lit ''_'' @ object_id)),
         (''state_topic'', raw_quoted (sh_state_topic sh)), (''command_topic'', raw_quoted cmd),
         (''value_template'', raw_quoted tmpl), (''options'', options),
         (''availability_topic'', raw_quoted (sh_avail_topic sh))],
      dm_retain = False\<rparr>"

definition make_entity :: "shared \<Rightarrow> string \<Rightarrow> rstr \<Rightarrow> (string \<times> rstr) list \<Rightarrow> DiscoveryMessage" where
  "make_entity sh component object_id ms =
     \<lparr>dm_topic = discovery_topic (sh_topics sh) (lit component) object_id,
      dm_payload = entity_text ([(''device'', sh_device sh), (''origin'', sh_origin sh)] @ ms),
      dm_retain = False\<rparr>"

definition unique_id :: "shared \<Rightarrow> rstr \<Rightarrow> string \<times> rstr" where
  "unique_id sh leaf = (''unique_id'', raw_quoted (sh_device_id sh @ lit ''_'' @ leaf))"

definition availability :: "shared \<Rightarrow> string \<times> rstr" where
  "availability sh = (''availability_topic'', raw_quoted (sh_avail_topic sh))"

section \<open>All messages\<close>

definition shared_of :: "DiscoveryBuilder \<Rightarrow> shared" where
  "shared_of b =
     (let topics = topic_builder_new (db_device_id b) in
      \<lparr>sh_topics = topics, sh_device_id = db_device_id b,
       sh_device = json_device_block (db_device_id b) (db_device_name b) (db_manufacturer b) (db_device_model b)
         (db_sw_version b),
       sh_origin = json_origin (db_sw_version b), sh_state_topic = state_topic topics,
       sh_avail_topic = availability_topic topics\<rparr>)"

definition temp_unit :: "bool \<Rightarrow> rstr" where
  "temp_unit celsius = (if celsius then [176, 67] else [176, 70])"

definition set_temperature_entity :: "shared \<Rightarrow> rstr \<Rightarrow> bool \<Rightarrow> DiscoveryMessage" where
  "set_temperature_entity sh cmd celsius =
     make_entity sh ''number'' (lit ''set_temperature'')
       [(''name'', raw_quoted (lit ''Set Temperature'')), unique_id sh (lit ''set_temp''),
        (''device_class'', raw_quoted (lit ''temperature'')),
        (''unit_of_measurement'', raw_quoted (temp_unit celsius)),
        (''min'', show_nat (if celsius then 10 else 50)), (''max'', show_nat (if celsius then 40 else 104)),
        (''step'', if celsius then lit ''0.5'' else lit ''1''),
        (''state_topic'', raw_quoted (sh_state_topic sh)),
        (''command_topic'', raw_quoted (cmd @ lit ''/set_temperature'')),
        (''value_template'', raw_quoted (value_template (lit ''set_temp''))), availability sh]"

definition pump_entity :: "shared \<Rightarrow> rstr \<Rightarrow> nat \<Rightarrow> DiscoveryMessage" where
  "pump_entity sh cmd i =
     make_switch sh (lit ''pump'' @ show_nat i) (lit ''Pump '' @ show_nat i)
       (value_template (lit ''pump'' @ show_nat i @ lit ''_on'')) (cmd @ lit ''/pump'' @ show_nat i)"

definition light_entity :: "shared \<Rightarrow> rstr \<Rightarrow> nat \<Rightarrow> DiscoveryMessage" where
  "light_entity sh cmd i =
     (let name = (if i = 1 then lit ''Spa Light'' else lit ''Spa Light '' @ show_nat i) in
      make_entity sh ''light'' (lit ''light'' @ show_nat i)
        [(''name'', raw_quoted name), unique_id sh (lit ''light'' @ show_nat i),
         (''state_topic'', raw_quoted (sh_state_topic sh)),
         (''command_topic'', raw_quoted (cmd @ lit ''/light'' @ show_nat i)),
         (''value_template'', raw_quoted (value_template (lit ''light'' @ show_nat i))),
         (''payload_on'', raw_quoted (lit ''true'')), (''payload_off'', raw_quoted (lit ''false'')), availability sh])"

definition blower_entity :: "shared \<Rightarrow> rstr \<Rightarrow> DiscoveryMessage" where
  "blower_entity sh cmd =
     make_entity sh ''fan'' (lit ''blower'')
       [(''name'', raw_quoted (lit ''Blower'')), unique_id sh (lit ''blower''),
        (''state_topic'', raw_quoted (sh_state_topic sh)), (''command_topic'', raw_quoted (cmd @ lit ''/blower'')),
        (''payload_on'', raw_quoted (lit ''true'')), (''payload_off'', raw_quoted (lit ''false'')), availability sh]"

definition optimistic_entity :: "shared \<Rightarrow> rstr \<Rightarrow> string \<Rightarrow> string \<Rightarrow> DiscoveryMessage" where
  "optimistic_entity sh cmd object_id name =
     make_switch_optimistic sh (lit object_id) (lit name) (cmd @ lit ''/'' @ lit object_id)"

definition sensor_entities :: "shared \<Rightarrow> DiscoveryMessage list" where
  "sensor_entities sh =
     [make_entity sh ''sensor'' (lit ''fault'')
        [(''name'', raw_quoted (lit ''Last Fault'')), unique_id sh (lit ''fault''),
         (''state_topic'', raw_quoted (sh_state_topic sh)),
         (''value_template'', raw_quoted (value_template (lit ''last_fault''))), availability sh],
      make_entity sh ''sensor'' (lit ''diagnostics'')
        [(''name'', raw_quoted (lit ''Diagnostics'')), unique_id sh (lit ''diagnostics''),
         (''state_topic'', raw_quoted (diagnostics_topic (sh_topics sh))), availability sh,
         (''entity_category'', raw_quoted (lit ''diagnostic''))],
      make_entity sh ''sensor'' (lit ''alert'')
        [(''name'', raw_quoted (lit ''Alert'')), unique_id sh (lit ''alert''),
         (''state_topic'', raw_quoted (alert_topic (sh_topics sh))), availability sh,
         (''entity_category'', raw_quoted (lit ''diagnostic''))]]"

definition device_entities :: "shared \<Rightarrow> rstr \<Rightarrow> DiscoveryMessage list" where
  "device_entities sh cmd =
     [make_entity sh ''sensor'' (lit ''firmware_version'')
        [(''name'', raw_quoted (lit ''Firmware Version'')), unique_id sh (lit ''firmware_version''),
         (''state_topic'', raw_quoted (sh_state_topic sh)),
         (''value_template'', raw_quoted (lit ''{{value_json.firmware_version}}'')), availability sh,
         (''entity_category'', raw_quoted (lit ''diagnostic'')),
         (''icon'', raw_quoted (lit ''mdi:information-outline''))],
      make_entity sh ''button'' (lit ''reboot'')
        [(''name'', raw_quoted (lit ''Reboot'')), unique_id sh (lit ''reboot''),
         (''command_topic'', raw_quoted (cmd @ lit ''/reboot'')), (''payload_press'', raw_quoted (lit ''ON'')),
         availability sh, (''entity_category'', raw_quoted (lit ''config'')),
         (''icon'', raw_quoted (lit ''mdi:restart''))],
      make_entity sh ''sensor'' (lit ''clock'')
        [(''name'', raw_quoted (lit ''Clock'')), unique_id sh (lit ''clock''),
         (''state_topic'', raw_quoted (sh_state_topic sh)),
         (''value_template'', raw_quoted (lit ''{{ '' @ [92, 34] @ lit ''%02d:%02d'' @ [92, 34] @
            lit '' | format(value_json.hour|default(0), value_json.minute|default(0)) }}'')), availability sh,
         (''icon'', raw_quoted (lit ''mdi:clock-outline'')), (''entity_category'', raw_quoted (lit ''diagnostic''))],
      make_entity sh ''text'' (lit ''set_time'')
        [(''name'', raw_quoted (lit ''Set Time'')), unique_id sh (lit ''set_time''),
         (''command_topic'', raw_quoted (cmd @ lit ''/set_time'')), availability sh,
         (''pattern'', raw_quoted (lit ''^([0-9]|1[0-9]|2[0-3]):[0-5][0-9]$'')),
         (''icon'', raw_quoted (lit ''mdi:clock-edit-outline'')), (''entity_category'', raw_quoted (lit ''config''))]]"

definition build_messages :: "DiscoveryBuilder \<Rightarrow> DiscoveryMessage list" where
  "build_messages b =
     (let sh = shared_of b; cmd = command_topic (sh_topics sh); switch = (\<lambda>object_id name field.
            make_switch sh (lit object_id) (lit name) (value_template (lit field)) (cmd @ lit ''/'' @ lit object_id))
      in [make_sensor sh (lit ''temperature'') (lit ''Water Temperature'') (lit ''temperature'')
            (temp_unit (db_celsius b)) (value_template (lit ''current_temp'')),
          set_temperature_entity sh cmd (db_celsius b),
          make_binary_sensor sh (lit ''heating'') (lit ''Heating'') (lit ''heat'') (value_template (lit ''is_heating''))] @
         map (pump_entity sh cmd) [1..<7] @ map (light_entity sh cmd) [1..<5] @
         [blower_entity sh cmd,
          make_select sh (lit ''heat_mode'') (lit ''Heat Mode'')
            (array_text (map (raw_quoted \<circ> lit) [''ready'', ''rest'', ''ready_in_rest'']))
            (value_template (lit ''heating_mode'')) (cmd @ lit ''/heat_mode''),
          switch ''circulation_pump'' ''Circulation Pump'' ''circ_pump'',
          make_select sh (lit ''temp_range'') (lit ''Temperature Range'')
            (array_text (map (raw_quoted \<circ> lit) [''high'', ''low'']))
            (value_template (lit ''temp_range'')) (cmd @ lit ''/temp_range''),
          switch ''hold_mode'' ''Hold Mode'' ''hold_mode'',
          optimistic_entity sh cmd ''aux1'' ''AUX 1'', optimistic_entity sh cmd ''aux2'' ''AUX 2'',
          optimistic_entity sh cmd ''soak_mode'' ''Soak Mode'',
          optimistic_entity sh cmd ''normal_operation'' ''Normal Operation'',
          optimistic_entity sh cmd ''clear_notification'' ''Clear Notification'',
          switch ''mister'' ''Mister'' ''mister''] @
         sensor_entities sh @ [optimistic_entity sh cmd ''sniff'' ''Sniff Mode''] @ device_entities sh cmd)"

definition discovery_build :: "DiscoveryBuilder \<Rightarrow> (rstr \<times> rstr) list" where
  "discovery_build b = map (\<lambda>m. (dm_topic m, dm_payload m)) (build_messages b)"

definition build_with_retain :: "DiscoveryBuilder \<Rightarrow> DiscoveryMessage list" where
  "build_with_retain b = map (\<lambda>m. m\<lparr>dm_retain := True\<rparr>) (build_messages b)"

end
