(* ===== verification/DiscoveryProperties.thy ===== *)
theory DiscoveryProperties
  imports Discovery
begin

text \<open>
  What Home Assistant reads from the discovery payloads: well-formed JSON, whose command topics the
  firmware accepts. An identifier of the device that needs no escaping is assumed, since the source
  does not escape it.
\<close>

section \<open>Values\<close>

definition is_value :: "rstr \<Rightarrow> bool" where
  "is_value v \<longleftrightarrow> (\<exists>t. tree_ok t \<and> tree_text t = v)"

lemma is_valueI: "tree_ok t \<Longrightarrow> tree_text t = v \<Longrightarrow> is_value v" by (auto simp: is_value_def)

lemma is_value_read: "is_value v \<Longrightarrow> tree_ok (the (read_json v)) \<and> tree_text (the (read_json v)) = v"
  by (auto simp: is_value_def read_json_text)

lemma escape_append: "escape_json_string (s @ t) = escape_json_string s @ escape_json_string t"
  by (simp add: escape_json_string_def)

lemma value_escaped [simp]: "is_value (raw_quoted (escape_json_string s))"
  by (rule is_valueI [of "JT_String s"]) (simp_all add: raw_quoted_def quoted_def)

lemma value_quoted [simp]: "plain s \<Longrightarrow> is_value (raw_quoted s)"
  using value_escaped [of s] by (simp add: escape_plain)

lemma read_quoted: "plain s \<Longrightarrow> read_json (raw_quoted s) = Some (JT_String s)"
  using read_json_text [of "JT_String s"] by (simp add: raw_quoted_def quoted_def escape_plain)

lemma read_escaped_value: "read_json (raw_quoted (escape_json_string s)) = Some (JT_String s)"
  using read_json_text [of "JT_String s"] by (simp add: raw_quoted_def quoted_def)

lemma value_token: "t \<noteq> [] \<Longrightarrow> list_all token_char t \<Longrightarrow> is_value t"
  by (rule is_valueI [of "JT_Token t"]) simp_all

lemma value_nat [simp]: "is_value (show_nat n)"
  by (rule value_token) simp_all

lemma array_json:
  assumes "vs \<noteq> []" and "list_all is_value vs"
  shows "read_json (array_text vs) = Some (JT_Array (map (the \<circ> read_json) vs)) \<and> is_value (array_text vs)"
proof -
  let ?t = "JT_Array (map (the \<circ> read_json) vs)"
  have "tree_ok ?t" using assms is_value_read by (auto simp: list_all_iff)
  moreover have "map tree_text (map (the \<circ> read_json) vs) = vs"
    using assms(2) is_value_read by (auto simp: list_all_iff intro!: map_idI)
  then have "tree_text ?t = array_text vs" by (simp only: tree_text.simps array_text_def)
  ultimately show ?thesis using read_json_text [of ?t] is_valueI by metis
qed

text \<open>The members of an entity are read one by one.\<close>

definition members_ok :: "(string \<times> rstr) list \<Rightarrow> bool" where
  "members_ok ms \<longleftrightarrow> list_all (\<lambda>(k, v). plain (lit k) \<and> is_value v) ms"

lemma entity_json:
  assumes "ms \<noteq> []" and "members_ok ms"
  shows "read_json (entity_text ms) = Some (JT_Object (map (\<lambda>(k, v). (lit k, the (read_json v))) ms)) \<and>
    is_value (entity_text ms)"
proof -
  let ?t = "JT_Object (map (\<lambda>(k, v). (lit k, the (read_json v))) ms)"
  have ok: "(k, v) \<in> set ms \<Longrightarrow> tree_ok (the (read_json v))" "(k, v) \<in> set ms \<Longrightarrow> tree_text (the (read_json v)) = v"
      "(k, v) \<in> set ms \<Longrightarrow> escape_json_string (lit k) = lit k" for k v
    using assms(2) is_value_read escape_plain by (auto simp: members_ok_def list_all_iff)
  then have "tree_ok ?t" using assms(1) by (auto simp: list_all_iff)
  moreover have "map member_of (map (map_prod id tree_text) (map (\<lambda>(k, v). (lit k, the (read_json v))) ms)) = map entity_member ms"
    using ok by (auto simp: member_of_def entity_member_def quoted_def raw_quoted_def)
  then have "tree_text ?t = entity_text ms" by (simp only: tree_text.simps entity_text_def)
  ultimately show ?thesis using read_json_text [of ?t] is_valueI by metis
qed

lemma plain_lit: "plain (lit s) \<longleftrightarrow> list_all (\<lambda>c. 32 \<le> (of_char c :: nat) \<and> (of_char c :: nat) \<noteq> 34 \<and> (of_char c :: nat) \<noteq> 92) s"
  by (simp add: plain_def lit_def list_all_iff)

lemma members_ok_simps [simp]:
  "members_ok []" "members_ok ((k, v) # ms) \<longleftrightarrow> plain (lit k) \<and> is_value v \<and> members_ok ms"
  "members_ok (ms @ ns) \<longleftrightarrow> members_ok ms \<and> members_ok ns"
  by (simp_all add: members_ok_def)

section \<open>Every message\<close>

definition known_subtopics :: "rstr list" where
  "known_subtopics = ALLOWED_SUBTOPICS @ [lit ''sniff'', lit ''reboot'']"

definition command_known :: "rstr \<Rightarrow> string \<times> rstr \<Rightarrow> bool" where
  "command_known cmd m \<longleftrightarrow> fst m = ''command_topic'' \<longrightarrow> (\<exists>s \<in> set known_subtopics. snd m = raw_quoted (cmd @ lit ''/'' @ s))"

definition good_members :: "shared \<Rightarrow> rstr \<Rightarrow> (string \<times> rstr) list \<Rightarrow> bool" where
  "good_members sh cmd ms \<longleftrightarrow> members_ok ms \<and> list_all (\<lambda>m. fst m \<noteq> ''device'' \<and> fst m \<noteq> ''origin'') ms \<and>
     availability sh \<in> set ms \<and> list_all (command_known cmd) ms"

definition good_message :: "shared \<Rightarrow> rstr \<Rightarrow> DiscoveryMessage \<Rightarrow> bool" where
  "good_message sh cmd m \<longleftrightarrow>
     (\<exists>ms. dm_payload m = entity_text ([(''device'', sh_device sh), (''origin'', sh_origin sh)] @ ms) \<and> good_members sh cmd ms)"

lemma good_entity: "good_members sh cmd ms \<Longrightarrow> good_message sh cmd (make_entity sh c i ms)"
  by (auto simp: good_message_def make_entity_def)

lemma command_known_other: "k \<noteq> ''command_topic'' \<Longrightarrow> command_known cmd (k, v)"
  by (simp add: command_known_def)

lemma command_known_sub: "s \<in> set known_subtopics \<Longrightarrow> command_known cmd (''command_topic'', raw_quoted (cmd @ lit ''/'' @ s))"
  by (auto simp: command_known_def)

text \<open>The makers are instances of \<open>make_entity\<close>.\<close>

lemma makers:
  "make_sensor sh i n dc u t = make_entity sh ''sensor'' i [(''name'', raw_quoted n), unique_id sh i,
     (''device_class'', raw_quoted dc), (''unit_of_measurement'', raw_quoted u),
     (''state_topic'', raw_quoted (sh_state_topic sh)), (''value_template'', raw_quoted t), availability sh]"
  "make_binary_sensor sh i n dc t = make_entity sh ''binary_sensor'' i [(''name'', raw_quoted n), unique_id sh i,
     (''device_class'', raw_quoted dc), (''state_topic'', raw_quoted (sh_state_topic sh)), (''value_template'', raw_quoted t),
     (''payload_on'', raw_quoted (lit ''true'')), (''payload_off'', raw_quoted (lit ''false'')), availability sh]"
  "make_switch sh i n t c = make_entity sh ''switch'' i [(''name'', raw_quoted n), unique_id sh i,
     (''state_topic'', raw_quoted (sh_state_topic sh)), (''command_topic'', raw_quoted c), (''value_template'', raw_quoted t),
     (''payload_on'', raw_quoted (lit ''true'')), (''payload_off'', raw_quoted (lit ''false'')), availability sh]"
  "make_switch_optimistic sh i n c = make_entity sh ''switch'' i [(''name'', raw_quoted n), unique_id sh i,
     (''command_topic'', raw_quoted c), (''payload_on'', raw_quoted (lit ''true'')),
     (''payload_off'', raw_quoted (lit ''false'')), (''optimistic'', lit ''true''), availability sh]"
  "make_select sh i n os t c = make_entity sh ''select'' i [(''name'', raw_quoted n), unique_id sh i,
     (''state_topic'', raw_quoted (sh_state_topic sh)), (''command_topic'', raw_quoted c), (''value_template'', raw_quoted t),
     (''options'', os), availability sh]"
  by (simp_all add: make_sensor_def make_binary_sensor_def make_switch_def make_switch_optimistic_def make_select_def
      make_entity_def unique_id_def availability_def)

lemma plain_text: "list_all (\<lambda>c. 32 \<le> c \<and> c \<noteq> 34 \<and> c \<noteq> 92) s \<Longrightarrow> plain s" by (simp add: plain_def)

lemma plain_shared:
  assumes "plain (db_device_id b)"
  shows "plain (sh_device_id (shared_of b))" "plain (sh_state_topic (shared_of b))" "plain (sh_avail_topic (shared_of b))"
    "plain (command_topic (sh_topics (shared_of b)))" "plain (diagnostics_topic (sh_topics (shared_of b)))"
    "plain (alert_topic (sh_topics (shared_of b)))"
  using assms by (simp_all add: shared_of_def Let_def state_topic_def availability_topic_def command_topic_def
      diagnostics_topic_def alert_topic_def device_topic_def topic_builder_new_def BASE_TOPIC_def plain_lit)

lemma known_members:
  "lit ''set_temperature'' \<in> set known_subtopics" "lit ''blower'' \<in> set known_subtopics"
  "lit ''heat_mode'' \<in> set known_subtopics" "lit ''circulation_pump'' \<in> set known_subtopics"
  "lit ''temp_range'' \<in> set known_subtopics" "lit ''hold_mode'' \<in> set known_subtopics"
  "lit ''aux1'' \<in> set known_subtopics" "lit ''aux2'' \<in> set known_subtopics" "lit ''soak_mode'' \<in> set known_subtopics"
  "lit ''normal_operation'' \<in> set known_subtopics" "lit ''clear_notification'' \<in> set known_subtopics"
  "lit ''mister'' \<in> set known_subtopics" "lit ''sniff'' \<in> set known_subtopics" "lit ''reboot'' \<in> set known_subtopics"
  "lit ''set_time'' \<in> set known_subtopics"
  by (simp_all add: known_subtopics_def ALLOWED_SUBTOPICS_def)

lemma numbered:
  "lit ''pump'' @ show_nat 1 = lit ''pump1''" "lit ''pump'' @ show_nat 2 = lit ''pump2''" "lit ''pump'' @ show_nat 3 = lit ''pump3''"
  "lit ''pump'' @ show_nat 4 = lit ''pump4''" "lit ''pump'' @ show_nat 5 = lit ''pump5''" "lit ''pump'' @ show_nat 6 = lit ''pump6''"
  "lit ''light'' @ show_nat 1 = lit ''light1''" "lit ''light'' @ show_nat 2 = lit ''light2''"
  "lit ''light'' @ show_nat 3 = lit ''light3''" "lit ''light'' @ show_nat 4 = lit ''light4''"
  by (simp_all add: lit_def show_nat.simps [of "Suc 0"] show_nat.simps [of 2] show_nat.simps [of 3] show_nat.simps [of 4]
      show_nat.simps [of 5] show_nat.simps [of 6])

lemma known_numbered:
  "i \<in> {1, 2, 3, 4, 5, 6} \<Longrightarrow> lit ''pump'' @ show_nat i \<in> set known_subtopics"
  "j \<in> {1, 2, 3, 4} \<Longrightarrow> lit ''light'' @ show_nat j \<in> set known_subtopics"
proof -
  have "lit x \<in> set known_subtopics" if "x \<in> {''pump1'', ''pump2'', ''pump3'', ''pump4'', ''pump5'', ''pump6'', ''light1'', ''light2'', ''light3'', ''light4''}" for x
    using that unfolding known_subtopics_def ALLOWED_SUBTOPICS_def by (elim insertE emptyE; simp only: list.map list.set insert_iff append_Cons; simp)
  then show "i \<in> {1, 2, 3, 4, 5, 6} \<Longrightarrow> lit ''pump'' @ show_nat i \<in> set known_subtopics"
    "j \<in> {1, 2, 3, 4} \<Longrightarrow> lit ''light'' @ show_nat j \<in> set known_subtopics"
    by (elim insertE emptyE; simp only: numbered; blast)+
qed

lemma good_members_simps:
  "good_members sh cmd ms \<longleftrightarrow> members_ok ms \<and> list_all (\<lambda>m. fst m \<noteq> ''device'' \<and> fst m \<noteq> ''origin'') ms \<and>
     availability sh \<in> set ms \<and> list_all (command_known cmd) ms"
  by (simp add: good_members_def)

text \<open>The members that need a proof of their own: plain texts, tokens, arrays.\<close>

lemma plain_template: "plain (value_template f) \<longleftrightarrow> plain f"
  by (simp add: value_template_def plain_lit)

lemma member_unique: "plain (sh_device_id sh) \<Longrightarrow> plain i \<Longrightarrow> is_value (snd (unique_id sh i)) \<and> fst (unique_id sh i) = ''unique_id''"
  by (simp add: unique_id_def plain_lit)

lemma member_availability: "plain (sh_avail_topic sh) \<Longrightarrow> is_value (snd (availability sh)) \<and> fst (availability sh) = ''availability_topic''"
  by (simp add: availability_def)

lemma value_true [simp]: "is_value (lit ''true'')" "is_value (lit ''0.5'')" "is_value (lit ''1'')"
  by (rule value_token; simp add: lit_def token_char_def)+

lemma value_options [simp]:
  "is_value (array_text (map (raw_quoted \<circ> lit) [''ready'', ''rest'', ''ready_in_rest'']))"
  "is_value (array_text (map (raw_quoted \<circ> lit) [''high'', ''low'']))"
  by (rule array_json [THEN conjunct2]; simp add: plain_lit)+

lemma value_clock [simp]:
  "is_value (raw_quoted (lit ''{{ '' @ [92, 34] @ lit ''%02d:%02d'' @ [92, 34] @
     lit '' | format(value_json.hour|default(0), value_json.minute|default(0)) }}''))"
proof -
  have "escape_json_string (34 # s) = 92 # 34 # escape_json_string s" for s
    by (simp add: escape_json_string_def escape_char_def)
  moreover have "escape_json_string (lit x) = lit x" if "x \<in> {''{{ '', ''%02d:%02d'',
      '' | format(value_json.hour|default(0), value_json.minute|default(0)) }}''}" for x
    using that by (intro escape_plain) (auto simp: plain_lit)
  ultimately show ?thesis
    using value_escaped [of "lit ''{{ '' @ [34] @ lit ''%02d:%02d'' @ [34] @
      lit '' | format(value_json.hour|default(0), value_json.minute|default(0)) }}''"] by (simp add: escape_append)
qed

lemmas value_clock_normal [simp] = value_clock [unfolded append_Cons append_Nil]

lemma plain_unit [simp]: "plain (temp_unit c)" by (simp add: temp_unit_def plain_def)

text \<open>A list of members is good if each one is.\<close>

lemma good_members_Cons:
  "good_members sh cmd ms \<Longrightarrow> plain (lit k) \<Longrightarrow> is_value v \<Longrightarrow> k \<noteq> ''device'' \<Longrightarrow> k \<noteq> ''origin'' \<Longrightarrow>
     command_known cmd (k, v) \<Longrightarrow> good_members sh cmd ((k, v) # ms)"
  by (simp add: good_members_def)

lemma good_members_pair:
  "good_members sh cmd ms \<Longrightarrow> is_value (snd m) \<and> fst m = k \<Longrightarrow> plain (lit k) \<Longrightarrow> k \<noteq> ''device'' \<Longrightarrow> k \<noteq> ''origin'' \<Longrightarrow>
     k \<noteq> ''command_topic'' \<Longrightarrow> good_members sh cmd (m # ms)"
  by (cases m) (simp add: good_members_def command_known_def)

lemma good_members_end:
  assumes "plain (sh_avail_topic sh)" and "members_ok ms"
    and "list_all (\<lambda>m. fst m \<noteq> ''device'' \<and> fst m \<noteq> ''origin'' \<and> fst m \<noteq> ''command_topic'') ms"
  shows "good_members sh cmd (availability sh # ms)"
  using assms by (auto simp: good_members_def availability_def command_known_def plain_lit list_all_iff)

lemmas good_rules = good_members_Cons good_members_pair [OF _ member_unique] good_members_end

definition plain_parts :: "shared \<Rightarrow> rstr \<Rightarrow> bool" where
  "plain_parts sh cmd \<longleftrightarrow> plain (sh_device_id sh) \<and> plain (sh_state_topic sh) \<and> plain (sh_avail_topic sh) \<and> plain cmd \<and>
     plain (diagnostics_topic (sh_topics sh)) \<and> plain (alert_topic (sh_topics sh))"

lemma plain_known: "s \<in> set known_subtopics \<Longrightarrow> plain s"
proof -
  have "list_all plain known_subtopics" by (simp add: known_subtopics_def ALLOWED_SUBTOPICS_def plain_lit)
  then show "s \<in> set known_subtopics \<Longrightarrow> plain s" by (simp add: list_all_iff)
qed

lemma plain_slash [simp]: "plain (lit ''/'')" "plain (lit ''true'')" "plain (lit ''false'')"
  by (simp_all add: plain_lit)

lemma command_known_lit:
  "lit ''/'' @ s = t \<Longrightarrow> s \<in> set known_subtopics \<Longrightarrow> command_known cmd (k, raw_quoted (cmd @ t))"
  by (auto simp: command_known_def)

lemma good_makers:
  assumes "plain_parts sh cmd" and "plain i" and "plain n" and "plain t" and "s \<in> set known_subtopics"
  shows "plain dc \<Longrightarrow> plain u \<Longrightarrow> good_message sh cmd (make_sensor sh i n dc u t)"
    and "plain dc \<Longrightarrow> good_message sh cmd (make_binary_sensor sh i n dc t)"
    and "good_message sh cmd (make_switch sh i n t (cmd @ lit ''/'' @ s))"
    and "good_message sh cmd (make_switch_optimistic sh i n (cmd @ lit ''/'' @ s))"
    and "is_value os \<Longrightarrow> good_message sh cmd (make_select sh i n os t (cmd @ lit ''/'' @ s))"
  unfolding makers
  using assms plain_known [OF assms(5)]
  by - (rule good_entity, intro good_rules command_known_sub command_known_other; simp add: plain_parts_def plain_lit)+

lemmas maker_rules =
  good_makers(1,2) [OF _ _ _ _ known_members(1)] good_makers(4) [where t = "lit ''true''", OF _ _ _ plain_slash(2)] good_makers(3,5)

lemma lit_slash: "lit ''/'' @ lit s = lit (CHR ''/'' # s)" "lit ''/'' @ lit s @ r = lit (CHR ''/'' # s) @ r"
  by (simp_all add: lit_def)

lemma good_others:
  assumes "plain_parts sh cmd"
  shows "good_message sh cmd (set_temperature_entity sh cmd c)" and "good_message sh cmd (blower_entity sh cmd)"
    and "list_all (good_message sh cmd) (sensor_entities sh)" and "list_all (good_message sh cmd) (device_entities sh cmd)"
  unfolding set_temperature_entity_def blower_entity_def sensor_entities_def device_entities_def
  using assms
  by - (rule conjI | simp only: list.pred_inject | (rule good_entity,
      intro good_rules command_known_lit [OF lit_slash(1)] known_members command_known_other;
      simp add: plain_parts_def plain_lit plain_template))+

lemma good_numbered:
  assumes "plain_parts sh cmd"
  shows "i \<in> {1, 2, 3, 4, 5, 6} \<Longrightarrow> good_message sh cmd (pump_entity sh cmd i)"
    and "j \<in> {1, 2, 3, 4} \<Longrightarrow> good_message sh cmd (light_entity sh cmd j)"
proof -
  assume i: "i \<in> {1, 2, 3, 4, 5, 6}"
  have "good_message sh cmd (make_switch sh (lit ''pump'' @ show_nat i) (lit ''Pump '' @ show_nat i)
      (value_template (lit ''pump'' @ show_nat i @ lit ''_on'')) (cmd @ lit ''/'' @ (lit ''pump'' @ show_nat i)))"
    using known_numbered(1) [OF i] by (intro good_makers(3) [OF assms]) (simp_all add: plain_template plain_lit)
  then show "good_message sh cmd (pump_entity sh cmd i)" by (simp add: pump_entity_def lit_slash)
next
  assume j: "j \<in> {1, 2, 3, 4}"
  have known: "command_known cmd (''command_topic'', raw_quoted (cmd @ lit ''/light'' @ show_nat j))"
    using known_numbered(2) [OF j] by (intro command_known_lit [OF lit_slash(2)])
  then show "good_message sh cmd (light_entity sh cmd j)"
    unfolding light_entity_def Let_def using assms
    by (intro good_entity good_rules known command_known_other) (simp_all add: plain_parts_def plain_lit plain_template)
qed

lemma good_selects:
  assumes "plain_parts sh cmd"
  shows "good_message sh cmd (make_select sh (lit ''heat_mode'') (lit ''Heat Mode'')
      (array_text [raw_quoted (lit ''ready''), raw_quoted (lit ''rest''), raw_quoted (lit ''ready_in_rest'')])
      (value_template (lit ''heating_mode'')) (cmd @ lit ''/heat_mode''))"
    and "good_message sh cmd (make_select sh (lit ''temp_range'') (lit ''Temperature Range'')
      (array_text [raw_quoted (lit ''high''), raw_quoted (lit ''low'')])
      (value_template (lit ''temp_range'')) (cmd @ lit ''/temp_range''))"
proof -
  have "plain (lit x)" if "x \<in> {''heat_mode'', ''Heat Mode'', ''temp_range'', ''Temperature Range'', ''heating_mode''}" for x
    using that by (auto simp: plain_lit)
  note p = this and sel = good_makers(5) [OF assms _ _ _ _ value_options(1)] good_makers(5) [OF assms _ _ _ _ value_options(2)]
  show "good_message sh cmd (make_select sh (lit ''heat_mode'') (lit ''Heat Mode'')
      (array_text [raw_quoted (lit ''ready''), raw_quoted (lit ''rest''), raw_quoted (lit ''ready_in_rest'')])
      (value_template (lit ''heating_mode'')) (cmd @ lit ''/heat_mode''))"
    using sel(1) [of "lit ''heat_mode''" "lit ''Heat Mode''" "value_template (lit ''heating_mode'')" "lit ''heat_mode''"]
    by (simp add: p plain_template known_members lit_slash)
  show "good_message sh cmd (make_select sh (lit ''temp_range'') (lit ''Temperature Range'')
      (array_text [raw_quoted (lit ''high''), raw_quoted (lit ''low'')])
      (value_template (lit ''temp_range'')) (cmd @ lit ''/temp_range''))"
    using sel(2) [of "lit ''temp_range''" "lit ''Temperature Range''" "value_template (lit ''temp_range'')" "lit ''temp_range''"]
    by (simp add: p plain_template known_members lit_slash)
qed

lemma good_build:
  assumes "plain (db_device_id b)"
  shows "list_all (good_message (shared_of b) (command_topic (sh_topics (shared_of b)))) (build_messages b)"
proof -
  let ?sh = "shared_of b" and ?cmd = "command_topic (sh_topics (shared_of b))"
  have parts: "plain_parts ?sh ?cmd" using plain_shared [OF assms] by (simp add: plain_parts_def)
  have numbered: "[1..<7] = [1, 2, 3, 4, 5, 6]" "[1..<5] = [1, 2, 3, 4]" by (simp_all add: upt_rec)
  show ?thesis
    unfolding build_messages_def Let_def optimistic_entity_def list_all_append list.pred_inject list.pred_map comp_def numbered
    using good_others [OF parts] good_selects [OF parts]
    by (intro conjI TrueI good_numbered [OF parts] maker_rules(1-4) [OF parts] known_members)
      (simp_all add: plain_lit plain_template known_members)
qed

text \<open>What a reader finds in the blocks of the device and of the origin.\<close>

definition device_tree :: "DiscoveryBuilder \<Rightarrow> jtree" where
  "device_tree b = JT_Object
     [(lit ''identifiers'', JT_Array [JT_String (db_device_id b)]), (lit ''name'', JT_String (db_device_name b)),
      (lit ''manufacturer'', JT_String (db_manufacturer b)), (lit ''model'', JT_String (db_device_model b)),
      (lit ''sw_version'', JT_String (db_sw_version b))]"

definition origin_tree :: "DiscoveryBuilder \<Rightarrow> jtree" where
  "origin_tree b = JT_Object [(lit ''name'', JT_String (lit ''launa-firmware'')), (lit ''sw_version'', JT_String (db_sw_version b))]"

lemma read_blocks:
  "read_json (sh_device (shared_of b)) = Some (device_tree b)" "is_value (sh_device (shared_of b))"
  "read_json (sh_origin (shared_of b)) = Some (origin_tree b)" "is_value (sh_origin (shared_of b))"
proof -
  have id: "read_json (array_text [raw_quoted (escape_json_string s)]) = Some (JT_Array [JT_String s])"
    "is_value (array_text [raw_quoted (escape_json_string s)])" for s
    using array_json [of "[raw_quoted (escape_json_string s)]"] by (simp_all add: read_escaped_value)
  show "read_json (sh_device (shared_of b)) = Some (device_tree b)" "is_value (sh_device (shared_of b))"
    unfolding shared_of_def Let_def json_device_block_def device_tree_def shared.simps
    by (simp_all add: entity_json plain_lit id read_escaped_value)
  show "read_json (sh_origin (shared_of b)) = Some (origin_tree b)" "is_value (sh_origin (shared_of b))"
    unfolding shared_of_def Let_def json_origin_def origin_tree_def shared.simps
    by (simp_all add: entity_json plain_lit read_quoted read_escaped_value)
qed

lemma lit_eq_iff: "lit a = lit b \<longleftrightarrow> a = b"
proof -
  have "inj (of_char :: char \<Rightarrow> nat)" by (rule inj_on_inverseI [of _ char_of]) simp
  then show ?thesis by (simp add: lit_def inj_map_eq_map)
qed

lemma map_of_members:
  "map_of (map (\<lambda>(k, v). (lit k, the (read_json v))) ms) (lit k) = map_option (the \<circ> read_json) (map_of ms k)"
  by (induction ms) (auto simp: lit_eq_iff)

lemma read_message:
  assumes "plain (db_device_id b)" and "m \<in> set (build_with_retain b)"
  obtains ms where "read_json (dm_payload m) = Some (JT_Object (map (\<lambda>(k, v). (lit k, the (read_json v)))
      ([(''device'', sh_device (shared_of b)), (''origin'', sh_origin (shared_of b))] @ ms)))"
    and "good_members (shared_of b) (command_topic (sh_topics (shared_of b))) ms"
proof -
  obtain m' where "m' \<in> set (build_messages b)" and "dm_payload m = dm_payload m'"
    using assms(2) by (auto simp: build_with_retain_def)
  then obtain ms where m: "dm_payload m = entity_text ([(''device'', sh_device (shared_of b)), (''origin'', sh_origin (shared_of b))] @ ms)"
      "good_members (shared_of b) (command_topic (sh_topics (shared_of b))) ms"
    using good_build [OF assms(1)] by (auto simp: list_all_iff good_message_def)
  then have "members_ok ([(''device'', sh_device (shared_of b)), (''origin'', sh_origin (shared_of b))] @ ms)"
    by (simp add: good_members_def read_blocks plain_lit)
  from entity_json [OF _ this] m show thesis by (intro that) simp_all
qed

section \<open>Properties\<close>

text \<open>
  Property C33: every discovery payload is a JSON object. Home Assistant reads back exactly the device and
  the origin that the builder was given, whatever characters their names and versions hold (quotes,
  backslashes and control characters included), and the availability topic of this device.
\<close>

theorem discovery_payloads_read:
  assumes "plain (db_device_id b)" and "m \<in> set (build_with_retain b)"
  shows "\<exists>ms. read_json (dm_payload m) = Some (JT_Object ms) \<and>
    map_of ms (lit ''device'') = Some (device_tree b) \<and> map_of ms (lit ''origin'') = Some (origin_tree b) \<and>
    (lit ''availability_topic'', JT_String (availability_topic (topic_builder_new (db_device_id b)))) \<in> set ms"
proof -
  obtain ms where r: "read_json (dm_payload m) = Some (JT_Object (map (\<lambda>(k, v). (lit k, the (read_json v)))
      ([(''device'', sh_device (shared_of b)), (''origin'', sh_origin (shared_of b))] @ ms)))"
    and g: "good_members (shared_of b) (command_topic (sh_topics (shared_of b))) ms"
    by (rule read_message [OF assms])
  let ?ms = "map (\<lambda>(k, v). (lit k, the (read_json v)))
      ([(''device'', sh_device (shared_of b)), (''origin'', sh_origin (shared_of b))] @ ms)"
  have "availability (shared_of b) \<in> set ms" using g by (simp add: good_members_def)
  then have "(lit ''availability_topic'', the (read_json (raw_quoted (sh_avail_topic (shared_of b))))) \<in> set ?ms"
    by (force simp: availability_def)
  moreover have "sh_avail_topic (shared_of b) = availability_topic (topic_builder_new (db_device_id b))"
    by (simp add: shared_of_def Let_def)
  ultimately show ?thesis
    using r plain_shared(3) [OF assms(1)]
    by (intro exI [of _ ?ms] conjI) (simp_all only: map_of_members, simp_all add: read_blocks read_quoted)
qed

theorem discovery_payloads_read_witness:
  "\<exists>m ms. m \<in> set (build_with_retain (with_device_name (discovery_new (lit ''spa_001'')) [34, 92])) \<and>
     read_json (dm_payload m) = Some (JT_Object ms) \<and>
     map_of ms (lit ''device'') = Some (device_tree (with_device_name (discovery_new (lit ''spa_001'')) [34, 92]))"
proof -
  let ?b = "with_device_name (discovery_new (lit ''spa_001'')) [34, 92]"
  obtain m where m: "m \<in> set (build_with_retain ?b)" by (force simp: build_with_retain_def build_messages_def Let_def)
  have "plain (db_device_id ?b)" by (simp add: with_device_name_def discovery_new_def plain_lit)
  from discovery_payloads_read [OF this m] m show ?thesis by blast
qed

text \<open>
  The topics the entities announce for commands are topics the firmware accepts: the command
  prefix of this device followed by one of the subtopics of the command parser, or by \<open>sniff\<close> or
  \<open>reboot\<close>, which the MQTT task answers itself.
\<close>

theorem discovery_commands_accepted:
  assumes "plain (db_device_id b)" and "m \<in> set (build_with_retain b)"
    and "read_json (dm_payload m) = Some (JT_Object ms)" and "(lit ''command_topic'', JT_String t) \<in> set ms"
  shows "\<exists>s \<in> set ALLOWED_SUBTOPICS \<union> {lit ''sniff'', lit ''reboot''}.
    t = command_topic (topic_builder_new (db_device_id b)) @ lit ''/'' @ s"
proof -
  let ?sh = "shared_of b"
  obtain ns where r: "read_json (dm_payload m) = Some (JT_Object (map (\<lambda>(k, v). (lit k, the (read_json v)))
      ([(''device'', sh_device ?sh), (''origin'', sh_origin ?sh)] @ ns)))"
    and g: "good_members ?sh (command_topic (sh_topics ?sh)) ns"
    by (rule read_message [OF assms(1,2)])
  have "lit ''command_topic'' \<noteq> lit ''device''" "lit ''command_topic'' \<noteq> lit ''origin''" by (simp_all add: lit_def)
  then obtain k v where kv: "(k, v) \<in> set ns" "lit k = lit ''command_topic''" "the (read_json v) = JT_String t"
    using r assms(3,4) by auto
  then have "k = ''command_topic''" by (simp add: lit_eq_iff)
  then obtain s where s: "s \<in> set known_subtopics" "v = raw_quoted (command_topic (sh_topics ?sh) @ lit ''/'' @ s)"
    using g kv(1) by (auto simp: good_members_def command_known_def list_all_iff)
  have "plain (command_topic (sh_topics ?sh) @ lit ''/'' @ s)"
    using plain_shared(4) [OF assms(1)] plain_known [OF s(1)] by (simp add: plain_lit)
  then have "t = command_topic (sh_topics ?sh) @ lit ''/'' @ s" using kv(3) s(2) by (simp add: read_quoted)
  then show ?thesis using s(1) by (auto simp: known_subtopics_def shared_of_def Let_def)
qed

theorem discovery_commands_accepted_witness:
  "\<exists>m ms t. m \<in> set (build_with_retain (discovery_new (lit ''spa_001''))) \<and>
     read_json (dm_payload m) = Some (JT_Object ms) \<and> (lit ''command_topic'', JT_String t) \<in> set ms \<and>
     (\<exists>s \<in> set ALLOWED_SUBTOPICS \<union> {lit ''sniff'', lit ''reboot''}.
        t = command_topic (topic_builder_new (lit ''spa_001'')) @ lit ''/'' @ s)"
proof -
  let ?b = "discovery_new (lit ''spa_001'')" and ?sh = "shared_of (discovery_new (lit ''spa_001''))"
  let ?cmd = "command_topic (sh_topics ?sh)"
  define m where "m = (set_temperature_entity ?sh ?cmd False)\<lparr>dm_retain := True\<rparr>"
  have p: "plain (db_device_id ?b)" by (simp add: discovery_new_def plain_lit)
  have m: "m \<in> set (build_with_retain ?b)"
    by (simp add: m_def build_with_retain_def build_messages_def Let_def discovery_new_def)
  let ?ms = "[(''device'', sh_device ?sh), (''origin'', sh_origin ?sh), (''name'', raw_quoted (lit ''Set Temperature'')),
     unique_id ?sh (lit ''set_temp''), (''device_class'', raw_quoted (lit ''temperature'')),
     (''unit_of_measurement'', raw_quoted (temp_unit False)), (''min'', show_nat 50), (''max'', show_nat 104),
     (''step'', lit ''1''), (''state_topic'', raw_quoted (sh_state_topic ?sh)),
     (''command_topic'', raw_quoted (?cmd @ lit ''/set_temperature'')),
     (''value_template'', raw_quoted (value_template (lit ''set_temp''))), availability ?sh]"
  have txt_m: "dm_payload m = entity_text ?ms" by (simp add: m_def set_temperature_entity_def make_entity_def)
  have ok: "members_ok ?ms"
    using plain_shared [OF p] plain_known [OF known_members(1)]
    by (simp add: read_blocks unique_id_def availability_def plain_lit plain_template)
  have r: "read_json (dm_payload m) = Some (JT_Object (map (\<lambda>(k, v). (lit k, the (read_json v))) ?ms))"
    unfolding txt_m by (rule entity_json [OF _ ok, THEN conjunct1]) simp
  have rd: "read_json (raw_quoted (?cmd @ lit ''/set_temperature'')) = Some (JT_String (?cmd @ lit ''/set_temperature''))"
    using plain_shared(4) [OF p] by (intro read_quoted) (simp add: plain_lit)
  have "(''command_topic'', raw_quoted (?cmd @ lit ''/set_temperature'')) \<in> set ?ms" by simp
  from imageI [OF this, of "\<lambda>(k, v). (lit k, the (read_json v))"]
  have t: "(lit ''command_topic'', JT_String (?cmd @ lit ''/set_temperature''))
      \<in> set (map (\<lambda>(k, v). (lit k, the (read_json v))) ?ms)" by (simp only: set_map prod.case rd option.sel)
  have "db_device_id ?b = lit ''spa_001''" by (simp add: discovery_new_def)
  note accepted = discovery_commands_accepted [OF p m r t, unfolded this]
  show ?thesis by (intro exI conjI) (rule m, rule r, rule t, rule accepted)
qed

end
