(* ===== verification/Sniff.thy ===== *)
theory Sniff
  imports Hex JsonTree MqttState
begin

text \<open>
  The burst capture of raw bytes from the bus (\<open>app/src/sniff.rs\<close>). The atomic \<open>SNIFF_CAPTURE\<close> and the
  channel to the MQTT task belong to the firmware's state; the operations here take the requested number
  and return the payload. The clock is read in microseconds. \<open>finish\<close> unwraps the start time, which is a
  panic without one: the result is then \<open>None\<close>.
\<close>

section \<open>The capture\<close>

definition SNIFF_MAX_DURATION_US :: u64 where "SNIFF_MAX_DURATION_US = 2000000"
definition SNIFF_MAX_TOTAL_HEX_LEN :: nat where "SNIFF_MAX_TOTAL_HEX_LEN = 12000"

datatype Direction = Rx | Tx

record RawChunk =
  ts_us :: u64
  dir :: Direction
  hex :: rstr

record SniffState =
  sn_active :: bool
  sn_start :: "u64 option"
  sn_chunks :: "RawChunk list"
  total_hex_len :: nat

definition sniff_new :: SniffState where
  "sniff_new = \<lparr>sn_active = False, sn_start = None, sn_chunks = [], total_hex_len = 0\<rparr>"

definition direction_char :: "Direction \<Rightarrow> string" where
  "direction_char d = (case d of Rx \<Rightarrow> ''R'' | Tx \<Rightarrow> ''T'')"

definition chunk_json :: "RawChunk \<Rightarrow> rstr" where
  "chunk_json c =
     lit ''[\"'' @ lit (direction_char (dir c)) @ lit ''\",'' @ show_nat (unat (ts_us c)) @
     lit '',\"'' @ hex c @ lit ''\"]''"

definition build_sniff_json :: "RawChunk list \<Rightarrow> u64 \<Rightarrow> rstr" where
  "build_sniff_json chunks capture_us =
     lit ''{\"capture_us\":'' @ show_nat (unat capture_us) @ lit '',\"chunks\":['' @
     join_comma (map chunk_json chunks) @ lit '']}''"

definition check_start :: "SniffState \<Rightarrow> u16 \<Rightarrow> u64 \<Rightarrow> SniffState" where
  "check_start s requested now_us =
     (if \<not> sn_active s then
        if requested > 0 then
          s\<lparr>sn_active := True, sn_start := Some now_us, sn_chunks := [], total_hex_len := 0\<rparr>
        else s
      else s)"

definition record_chunk :: "SniffState \<Rightarrow> u64 \<Rightarrow> Direction \<Rightarrow> u8 list \<Rightarrow> SniffState \<times> bool" where
  "record_chunk s now_us d data =
     (if \<not> sn_active s then (s, False)
      else case sn_start s of
          None \<Rightarrow> (s, False)
        | Some start \<Rightarrow>
            let ts = sat_sub now_us start; h = to_hex data; len = total_hex_len s + length h in
            (s\<lparr>total_hex_len := len, sn_chunks := sn_chunks s @ [\<lparr>ts_us = ts, dir = d, hex = h\<rparr>]\<rparr>,
             ts \<ge> SNIFF_MAX_DURATION_US \<or> len \<ge> SNIFF_MAX_TOTAL_HEX_LEN))"

definition sniff_finish :: "SniffState \<Rightarrow> u64 \<Rightarrow> (SniffState \<times> u8 list) option" where
  "sniff_finish s now_us =
     (case sn_start s of
        None \<Rightarrow> None
      | Some start \<Rightarrow>
          let capture_us = sat_sub now_us start in
          Some (s\<lparr>sn_chunks := [], total_hex_len := 0, sn_active := False, sn_start := None\<rparr>,
                as_bytes (build_sniff_json (sn_chunks s) capture_us)))"

section \<open>The invariant of a capture\<close>

text \<open>An active capture has a start, its length is that of its chunks, and it has not reached its limit.\<close>

definition sniff_inv :: "SniffState \<Rightarrow> bool" where
  "sniff_inv s \<longleftrightarrow> (sn_active s \<longrightarrow> sn_start s \<noteq> None) \<and> (\<not> sn_active s \<longrightarrow> sn_chunks s = [] \<and> total_hex_len s = 0) \<and>
     total_hex_len s = sum_list (map (length \<circ> hex) (sn_chunks s)) \<and>
     list_all (\<lambda>c. \<exists>bs. hex c = to_hex bs) (sn_chunks s)"

definition sniff_small :: "SniffState \<Rightarrow> bool" where
  "sniff_small s \<longleftrightarrow> total_hex_len s < SNIFF_MAX_TOTAL_HEX_LEN"

lemma sniff_inv_new [simp]: "sniff_inv sniff_new" "sniff_small sniff_new"
  by (simp_all add: sniff_inv_def sniff_small_def sniff_new_def SNIFF_MAX_TOTAL_HEX_LEN_def)

lemma check_start_inv: "sniff_inv s \<Longrightarrow> sniff_inv (check_start s n t)"
  by (auto simp: sniff_inv_def check_start_def)

lemma check_start_small: "sniff_small s \<Longrightarrow> sniff_small (check_start s n t)"
  by (simp add: sniff_small_def check_start_def SNIFF_MAX_TOTAL_HEX_LEN_def)

lemma record_chunk_inv: "sniff_inv s \<Longrightarrow> sniff_inv (fst (record_chunk s t d bs))"
  by (auto simp: sniff_inv_def record_chunk_def Let_def split: option.splits)

lemma record_chunk_continues: "sniff_small s \<Longrightarrow> \<not> snd (record_chunk s t d bs) \<Longrightarrow> sniff_small (fst (record_chunk s t d bs))"
  by (auto simp: sniff_small_def record_chunk_def Let_def not_le split: option.splits if_splits)

lemma record_chunk_ends:
  "snd (record_chunk s t d bs) \<Longrightarrow> \<exists>st. sn_start (fst (record_chunk s t d bs)) = Some st \<and> sn_chunks (fst (record_chunk s t d bs)) \<noteq> []"
  by (auto simp: record_chunk_def Let_def split: option.splits if_splits)

lemma finish_inv: "sniff_finish s t = Some (s', p) \<Longrightarrow> sniff_inv s' \<and> sniff_small s'"
  by (auto simp: sniff_finish_def sniff_inv_def sniff_small_def SNIFF_MAX_TOTAL_HEX_LEN_def split: option.splits)

text \<open>One chunk, as the UART task records it: the capture ends when the chunk reaches a limit.\<close>

definition record_or_finish :: "SniffState \<Rightarrow> u64 \<Rightarrow> Direction \<Rightarrow> u8 list \<Rightarrow> (SniffState \<times> u8 list option) option" where
  "record_or_finish s now_us d data =
     (case record_chunk s now_us d data of
        (s', True) \<Rightarrow> map_option (\<lambda>(s2, p). (s2, Some p)) (sniff_finish s' now_us)
      | (s', False) \<Rightarrow> Some (s', None))"

lemma record_or_finish_total:
  assumes "sniff_inv s" and "sniff_small s"
  shows "\<exists>s' p. record_or_finish s t d bs = Some (s', p) \<and> sniff_inv s' \<and> sniff_small s'"
proof -
  obtain s' b where r: "record_chunk s t d bs = (s', b)" by fastforce
  then have s': "s' = fst (record_chunk s t d bs)" "b = snd (record_chunk s t d bs)" by simp_all
  show ?thesis
  proof (cases b)
    case True
    then obtain st where "sn_start s' = Some st" using record_chunk_ends [of s t d bs] s' by auto
    then obtain s2 p where "sniff_finish s' t = Some (s2, p)" by (simp add: sniff_finish_def Let_def)
    with r True finish_inv [OF this] show ?thesis by (simp add: record_or_finish_def)
  next
    case False
    have "sniff_inv s'" using record_chunk_inv [OF assms(1), of t d bs] s'(1) by simp
    moreover have "sniff_small s'" using record_chunk_continues [OF assms(2)] s' False by blast
    moreover have "record_or_finish s t d bs = Some (s', None)" using r False by (simp add: record_or_finish_def)
    ultimately show ?thesis by blast
  qed
qed

section \<open>The payload\<close>

definition chunk_tree :: "RawChunk \<Rightarrow> jtree" where
  "chunk_tree c = JT_Array [JT_String (lit (direction_char (dir c))), JT_Token (show_nat (unat (ts_us c))), JT_String (hex c)]"

definition sniff_tree :: "RawChunk list \<Rightarrow> u64 \<Rightarrow> jtree" where
  "sniff_tree cs us = JT_Object [(lit ''capture_us'', JT_Token (show_nat (unat us))), (lit ''chunks'', JT_Array (map chunk_tree cs))]"

lemma hex_plain: "escape_json_string (to_hex bs) = to_hex bs"
proof (induction bs)
  case (Cons b bs)
  have "\<forall>k \<in> set [0..<16]. escape_char (HEX_CHARS ! k) = [HEX_CHARS ! k]" by code_simp
  then have "escape_char (HEX_CHARS ! k) = [HEX_CHARS ! k]" if "k < 16" for k using that by simp
  from this [OF nibble_less(1) [of b]] this [OF nibble_less(2) [of b]] Cons show ?case
    by (simp add: to_hex_def escape_json_string_def)
qed (simp add: to_hex_def escape_json_string_def)

lemma chunk_tree_text: "hex c = to_hex bs \<Longrightarrow> tree_text (chunk_tree c) = chunk_json c \<and> tree_ok (chunk_tree c)"
  by (cases "dir c") (simp_all add: chunk_tree_def chunk_json_def quoted_def direction_char_def hex_plain join_comma_Cons lit_def
      hex_plain [unfolded escape_json_string_def] escape_json_string_def escape_char_def)

lemma sniff_tree_text:
  assumes "cs \<noteq> []" and "list_all (\<lambda>c. \<exists>bs. hex c = to_hex bs) cs"
  shows "tree_text (sniff_tree cs us) = build_sniff_json cs us \<and> tree_ok (sniff_tree cs us)"
proof -
  have c: "tree_text (chunk_tree c) = chunk_json c" "tree_ok (chunk_tree c)" if "c \<in> set cs" for c
    using assms(2) that chunk_tree_text by (auto simp: list_all_iff)
  then have m: "map tree_text (map chunk_tree cs) = map chunk_json cs" by simp
  have "tree_text (JT_Array (map chunk_tree cs)) = 91 # join_comma (map chunk_json cs) @ [93]"
    unfolding tree_text.simps(3) m by simp
  moreover have "tree_ok (JT_Array (map chunk_tree cs))" using assms(1) c(2) by (simp add: list_all_iff)
  ultimately show ?thesis
    by (simp add: sniff_tree_def build_sniff_json_def member_of_def quoted_def join_comma_Cons lit_def
        escape_json_string_def escape_char_def del: tree_text.simps(3) tree_ok.simps(3))
qed

end
