(* ===== verification/Firmware.thy ===== *)
theory Firmware
  imports SpaApp Sniff "HOL-Library.Sublist"
begin

text \<open>
  The tasks of the firmware around the application core (\<open>app/src/main.rs\<close>, \<open>app/src/diagnostics.rs\<close>,
  \<open>app/src/types.rs\<close>): the UART task with the fast path of the registration, the main loop, and the
  channels and atomics they share. The executor is cooperative, so a task runs undisturbed between two
  awaits: one event of the model is what a task does between two points at which it may be suspended,
  and the order of events is the scheduler's choice. The MQTT task appears by what it puts into its
  channels and takes out of them.

  A channel (crate \<open>embassy_sync\<close>) is the list of its messages; whether one with a capacity takes another
  message is asked of \<open>accepts\<close>, a part of the environment. The environment also gives the clock, one
  reading for each event, the free heap and the signal strength. Log lines are left out.
\<close>

section \<open>State\<close>

record Env =
  now_us :: u64
  heap_free :: nat
  env_rssi :: "32 word"
  accepts :: "nat \<Rightarrow> nat \<Rightarrow> bool"

definition env_now :: "Env \<Rightarrow> Timestamp" where
  "env_now e = Timestamp (now_us e div 1000)"

record StateMessage =
  sm_status :: StatusUpdate
  sm_fault :: FaultBuf
  sm_recovering_from_stale :: bool
  sm_sniff_mode :: bool
  sm_wifi_rssi :: "32 word option"
  sm_registration_state :: rstr

text \<open>
  Where the UART task is suspended: waiting for bytes; between two bytes of what it has read, with the
  error count from before; or waiting for room in the frame channel.
\<close>

datatype UartPhase = Uart_Idle | Uart_Bytes "u8 list" u32 | Uart_Send frame "u8 list" u32

record UartTask =
  ut_decoder :: FrameDecoder
  ut_sniff :: SniffState
  ut_first_bytes_logged :: bool
  ut_phase :: UartPhase

text \<open>
  Where the main task is: at the start of an iteration, in the connection test of an OTA request, or
  past its last iteration, since the device is going to be reset (an update with its address included).
\<close>

datatype MainPhase = Main_Running | Main_Test | Main_Update rstr | Main_Reset

record MainLoop =
  ml_app :: SpaApp
  ml_device_id :: rstr
  ml_sniff_mode :: bool
  ml_mqtt_last_tick :: u32
  ml_mqtt_last_tick_time :: u64
  ml_phase :: MainPhase
  ml_ota_available :: bool

record Firmware =
  uart_task :: UartTask
  main_loop :: MainLoop
  firmware_version :: rstr
  MQTT_TASK_TICK :: u32
  MQTT_RECONNECT_COUNT :: u32
  MQTT_LOSS_COUNT :: u32
  FRAME_ERROR_COUNT :: u32
  UART_BYTES_RECEIVED :: u32
  UART_FIRST_BYTE_SEEN :: bool
  UART_LAST_NO_BYTE_ALERT_SECS :: u32
  DIAGNOSTICS_START_SECS :: u32
  REG_CLIENT_HASH :: u16
  APP_REGISTERED :: bool
  SNIFF_CAPTURE :: u16
  FRAME_CHANNEL :: "frame list"
  COMMAND_CHANNEL :: "Command list"
  UART_TX_CHANNEL :: "u8 list list"
  STATE_CHANNEL :: "StateMessage list"
  PUMP_TIMER_CHANNEL :: "(u8 \<times> u32) list"
  DIAGNOSTICS_CHANNEL :: "u8 list list"
  OTA_CHANNEL :: "rstr list"
  ALERT_CHANNEL :: "u8 list list"
  SNIFF_CHANNEL :: "u8 list list"
  fw_panicked :: bool

text \<open>What can be seen of a run: the traffic on the bus, what the application is given and asks for.\<close>

datatype Obs =
    Obs_Received "u8 list"
  | Obs_FastPath "u8 list"
  | Obs_Transmitted "u8 list"
  | Obs_Frame frame
  | Obs_Send "u8 list"

text \<open>One step after another.\<close>

definition seq_do ::
  "(Firmware \<Rightarrow> Firmware \<times> Obs list) \<Rightarrow> (Firmware \<Rightarrow> Firmware \<times> Obs list) \<Rightarrow> Firmware \<Rightarrow> Firmware \<times> Obs list" where
  "seq_do f g fw = (let (fw1, os1) = f fw; (fw2, os2) = g fw1 in (fw2, os1 @ os2))"

definition quiet :: "(Firmware \<Rightarrow> Firmware) \<Rightarrow> Firmware \<Rightarrow> Firmware \<times> Obs list" where
  "quiet f fw = (f fw, [])"

section \<open>Channels\<close>

definition try_send :: "Env \<Rightarrow> nat \<Rightarrow> 'a list \<Rightarrow> 'a \<Rightarrow> 'a list \<times> bool" where
  "try_send e cap ch x = (if accepts e cap (length ch) then (ch @ [x], True) else (ch, False))"

definition uptime :: "Env \<Rightarrow> Firmware \<Rightarrow> u64" where
  "uptime e fw =
     (let start = DIAGNOSTICS_START_SECS fw; now = ucast (as_millis (env_now e) div 1000) :: u32 in
      if start = 0 then 0 else ucast (sat_sub now start))"

definition read_wifi_rssi :: "Env \<Rightarrow> 32 word option" where
  "read_wifi_rssi e = (if env_rssi e = 0x80000000 then None else Some (env_rssi e))"

definition send_alert :: "Env \<Rightarrow> rstr \<Rightarrow> rstr \<Rightarrow> Firmware \<Rightarrow> Firmware" where
  "send_alert e level message fw =
     (if heap_free e < 1024 then fw
      else
        let json = lit ''{\"level\":\"'' @ escape_json_string level @ lit ''\",\"message\":\"'' @
              escape_json_string message @ lit ''\",\"timestamp\":'' @ show_nat (unat (uptime e fw)) @ lit ''}''
        in fw\<lparr>ALERT_CHANNEL := fst (try_send e 4 (ALERT_CHANNEL fw) (as_bytes json))\<rparr>)"

definition publish_diagnostics ::
  "Env \<Rightarrow> rstr \<Rightarrow> u64 \<Rightarrow> u32 \<Rightarrow> u32 \<Rightarrow> u32 \<Rightarrow> u32 \<Rightarrow> u32 \<Rightarrow> u32 \<Rightarrow> rstr \<Rightarrow> u32 \<Rightarrow> Firmware \<Rightarrow> Firmware" where
  "publish_diagnostics e dev up frames unregistered cmd_retries cmd_drops errors bytes reg active fw =
     (if heap_free e < 1024 then fw
      else
        let num = (\<lambda>k n. lit '',\"'' @ lit k @ lit ''\":'' @ show_nat n);
            json = lit ''{\"device_id\":\"'' @ escape_json_string dev @ lit ''\"'' @
              num ''uptime_secs'' (unat up) @ num ''mqtt_reconnect_count'' (unat (MQTT_RECONNECT_COUNT fw)) @
              num ''mqtt_loss_count'' (unat (MQTT_LOSS_COUNT fw)) @ num ''command_retry_count'' (unat cmd_retries) @
              num ''command_drop_count'' (unat cmd_drops) @ num ''frames_received'' (unat frames) @
              num ''unregistered_frames'' (unat unregistered) @ num ''frame_errors'' (unat errors) @
              num ''uart_bytes'' (unat bytes) @ lit '',\"reg\":\"'' @ reg @ lit ''\"'' @
              num ''uart_rx'' (unat active) @ num ''heap_free'' (heap_free e) @
              lit '',\"firmware_version\":\"'' @ escape_json_string (firmware_version fw) @ lit ''\"}''
        in fw\<lparr>DIAGNOSTICS_CHANNEL := fst (try_send e 2 (DIAGNOSTICS_CHANNEL fw) (as_bytes json))\<rparr>)"

section \<open>The actions of the application\<close>

definition execute_action :: "Env \<Rightarrow> bool \<Rightarrow> Firmware \<Rightarrow> AppAction \<Rightarrow> Firmware" where
  "execute_action e sniff_on fw action =
     (case action of
        SendFrame bytes \<Rightarrow> fw\<lparr>UART_TX_CHANNEL := fst (try_send e 4 (UART_TX_CHANNEL fw) bytes)\<rparr>
      | PublishState status fault recovering reg \<Rightarrow>
          fw\<lparr>STATE_CHANNEL := fst (try_send e 4 (STATE_CHANNEL fw)
               \<lparr>sm_status = status,
                sm_fault = (case fault of None \<Rightarrow> fault_buf_empty | Some s \<Rightarrow> fault_buf_from_string s),
                sm_recovering_from_stale = recovering, sm_sniff_mode = sniff_on,
                sm_wifi_rssi = read_wifi_rssi e, sm_registration_state = reg\<rparr>)\<rparr>
      | PublishStaleAvailability \<Rightarrow> fw
      | PublishAlert level message \<Rightarrow> send_alert e level message fw
      | PublishDiagnostics up frames unregistered cmd_retries cmd_drops reg _ _ \<Rightarrow>
          publish_diagnostics e (ml_device_id (main_loop fw)) up frames unregistered cmd_retries cmd_drops
            (FRAME_ERROR_COUNT fw) (UART_BYTES_RECEIVED fw) reg (of_bool (UART_FIRST_BYTE_SEEN fw)) fw
      | RequestOta url \<Rightarrow>
          (case try_send e 1 (OTA_CHANNEL fw) url of
             (ch, True) \<Rightarrow> fw\<lparr>OTA_CHANNEL := ch\<rparr>
           | (_, False) \<Rightarrow> send_alert e (lit ''error'') (lit ''ota_channel_full'') fw)
      | PublishAvailability _ \<Rightarrow> fw
      | PublishDiscovery \<Rightarrow> fw)"

definition execute_actions :: "Env \<Rightarrow> AppAction list \<Rightarrow> bool \<Rightarrow> Firmware \<Rightarrow> Firmware" where
  "execute_actions e actions sniff_on fw = foldl (execute_action e sniff_on) fw actions"

definition sends :: "AppAction list \<Rightarrow> u8 list list" where
  "sends acts = concat (map (\<lambda>a. case a of SendFrame bs \<Rightarrow> [bs] | _ \<Rightarrow> []) acts)"

text \<open>An operation of the application, and its actions carried out with the current sniff mode.\<close>

definition run_app :: "Env \<Rightarrow> (SpaApp \<Rightarrow> SpaApp \<times> AppAction list) \<Rightarrow> Firmware \<Rightarrow> Firmware \<times> Obs list" where
  "run_app e f fw =
     (let (a, acts) = f (ml_app (main_loop fw));
          fw1 = fw\<lparr>main_loop := (main_loop fw)\<lparr>ml_app := a\<rparr>\<rparr>
      in (execute_actions e acts (ml_sniff_mode (main_loop fw1)) fw1, map Obs_Send (sends acts)))"

definition set_phase :: "MainPhase \<Rightarrow> Firmware \<Rightarrow> Firmware" where
  "set_phase p fw = fw\<lparr>main_loop := (main_loop fw)\<lparr>ml_phase := p\<rparr>\<rparr>"

definition set_sniff_mode :: "bool \<Rightarrow> Firmware \<Rightarrow> Firmware" where
  "set_sniff_mode b fw = fw\<lparr>main_loop := (main_loop fw)\<lparr>ml_sniff_mode := b\<rparr>\<rparr>"

definition force_publish_app :: "SpaApp \<Rightarrow> SpaApp \<times> AppAction list" where
  "force_publish_app a = (a, force_publish a)"

section \<open>The UART task\<close>

definition uart_record :: "Env \<Rightarrow> Direction \<Rightarrow> u8 list \<Rightarrow> Firmware \<Rightarrow> Firmware" where
  "uart_record e d data fw =
     (case record_or_finish (ut_sniff (uart_task fw)) (now_us e) d data of
        None \<Rightarrow> fw\<lparr>fw_panicked := True\<rparr>
      | Some (s, None) \<Rightarrow> fw\<lparr>uart_task := (uart_task fw)\<lparr>ut_sniff := s\<rparr>\<rparr>
      | Some (s, Some json) \<Rightarrow>
          fw\<lparr>uart_task := (uart_task fw)\<lparr>ut_sniff := s\<rparr>, SNIFF_CAPTURE := 0,
             SNIFF_CHANNEL := fst (try_send e 4 (SNIFF_CHANNEL fw) json)\<rparr>)"

definition uart_check_start :: "Env \<Rightarrow> Firmware \<Rightarrow> Firmware" where
  "uart_check_start e fw =
     fw\<lparr>uart_task := (uart_task fw)\<lparr>ut_sniff := check_start (ut_sniff (uart_task fw)) (SNIFF_CAPTURE fw) (now_us e)\<rparr>\<rparr>"

definition set_uart :: "FrameDecoder \<Rightarrow> UartPhase \<Rightarrow> Firmware \<Rightarrow> Firmware" where
  "set_uart d p fw = fw\<lparr>uart_task := (uart_task fw)\<lparr>ut_decoder := d, ut_phase := p\<rparr>\<rparr>"

text \<open>A read that returned bytes.\<close>

definition uart_read :: "Env \<Rightarrow> u8 list \<Rightarrow> Firmware \<Rightarrow> Firmware \<times> Obs list" where
  "uart_read e data fw =
     (let fw1 = uart_check_start e fw;
          fw2 = fw1\<lparr>UART_BYTES_RECEIVED := UART_BYTES_RECEIVED fw1 + of_nat (length data)\<rparr>;
          fw3 = (if \<not> ut_first_bytes_logged (uart_task fw2) then
                   fw2\<lparr>uart_task := (uart_task fw2)\<lparr>ut_first_bytes_logged := True\<rparr>, UART_FIRST_BYTE_SEEN := True\<rparr>
                 else fw2);
          fw4 = uart_record e Rx data fw3;
          d = ut_decoder (uart_task fw4)
      in (set_uart d (Uart_Bytes data (frame_error_count d)) fw4, [Obs_Received data]))"

text \<open>The answer to a query for new clients, sent at once.\<close>

definition fast_path :: "Env \<Rightarrow> frame \<Rightarrow> Firmware \<Rightarrow> Firmware \<times> Obs list" where
  "fast_path e f fw =
     (if message_type f = (0xFE, 0xBF) \<and> (case payload f of b # _ \<Rightarrow> b = 0x00 | [] \<Rightarrow> False) \<and> \<not> APP_REGISTERED fw then
        let hash_be = REG_CLIENT_HASH fw;
            response = NewClientResponse 0x02 (ucast (drop_bit 8 hash_be), ucast (hash_be AND 0xFF))
        in (case registration_encode response of
              Inr encoded \<Rightarrow> (uart_record e Tx encoded fw, [Obs_FastPath encoded])
            | Inl _ \<Rightarrow> (fw, []))
      else (fw, []))"

text \<open>The next byte of what was read, or the end of the loop over the bytes.\<close>

definition uart_byte :: "Env \<Rightarrow> Firmware \<Rightarrow> Firmware \<times> Obs list" where
  "uart_byte e fw =
     (let d = ut_decoder (uart_task fw) in
      case ut_phase (uart_task fw) of
        Uart_Bytes [] prev_errors \<Rightarrow>
          (let new_errors = frame_error_count d;
               fw1 = (if new_errors > prev_errors
                      then fw\<lparr>FRAME_ERROR_COUNT := FRAME_ERROR_COUNT fw + (new_errors - prev_errors)\<rparr> else fw)
           in (set_uart d Uart_Idle fw1, []))
      | Uart_Bytes (b # bs) prev_errors \<Rightarrow>
          (case decoder_feed d b of
             (d', None) \<Rightarrow> (set_uart d' (Uart_Bytes bs prev_errors) fw, [])
           | (d', Some f) \<Rightarrow> fast_path e f (set_uart d' (Uart_Send f bs prev_errors) fw))
      | _ \<Rightarrow> (fw, []))"

text \<open>The frame channel has room for the decoded frame.\<close>

definition uart_send :: "Env \<Rightarrow> Firmware \<Rightarrow> Firmware \<times> Obs list" where
  "uart_send e fw =
     (case ut_phase (uart_task fw) of
        Uart_Send f bs prev_errors \<Rightarrow>
          (case try_send e 4 (FRAME_CHANNEL fw) f of
             (ch, True) \<Rightarrow> (set_uart (ut_decoder (uart_task fw)) (Uart_Bytes bs prev_errors) (fw\<lparr>FRAME_CHANNEL := ch\<rparr>), [])
           | (_, False) \<Rightarrow> (fw, []))
      | _ \<Rightarrow> (fw, []))"

text \<open>A read that returned nothing: the bus is idle and one queued transmission goes out.\<close>

definition uart_idle :: "Env \<Rightarrow> Firmware \<Rightarrow> Firmware \<times> Obs list" where
  "uart_idle e fw =
     (let fw1 = uart_check_start e fw in
      case UART_TX_CHANNEL fw1 of
        [] \<Rightarrow> (fw1, [])
      | data # rest \<Rightarrow> (uart_record e Tx data (fw1\<lparr>UART_TX_CHANNEL := rest\<rparr>), [Obs_Transmitted data]))"

section \<open>The main loop\<close>

definition handle_mqtt_command :: "Env \<Rightarrow> Command \<Rightarrow> Firmware \<Rightarrow> Firmware \<times> Obs list" where
  "handle_mqtt_command e cmd fw =
     (case cmd of
        Command.Sniff frame_count \<Rightarrow>
          run_app e force_publish_app
            (case frame_count of
               Some n \<Rightarrow> (set_sniff_mode True fw)\<lparr>SNIFF_CAPTURE := n\<rparr>
             | None \<Rightarrow> (set_sniff_mode False fw)\<lparr>SNIFF_CAPTURE := 0\<rparr>)
      | Reboot \<Rightarrow> (set_phase Main_Reset fw, [])
      | _ \<Rightarrow> run_app e (\<lambda>a. on_mqtt_command a cmd) fw)"

definition store_registered :: "Firmware \<Rightarrow> Firmware" where
  "store_registered fw = fw\<lparr>APP_REGISTERED := app_is_registered (ml_app (main_loop fw))\<rparr>"

definition process_frame :: "Env \<Rightarrow> frame \<Rightarrow> Firmware \<Rightarrow> Firmware \<times> Obs list" where
  "process_frame e f fw =
     (let (fw1, os) = run_app e (\<lambda>a. app_process_frame a (env_now e) f) fw in (fw1, Obs_Frame f # os))"

fun drain_frames :: "Env \<Rightarrow> frame list \<Rightarrow> Firmware \<Rightarrow> Firmware \<times> Obs list" where
  "drain_frames e [] fw = (fw, [])"
| "drain_frames e (f # fs) fw = seq_do (process_frame e f) (drain_frames e fs) (fw\<lparr>FRAME_CHANNEL := fs\<rparr>)"

definition process_uart_frames :: "Env \<Rightarrow> frame \<Rightarrow> Firmware \<Rightarrow> Firmware \<times> Obs list" where
  "process_uart_frames e f fw =
     seq_do (process_frame e f)
       (seq_do (quiet store_registered)
          (seq_do (\<lambda>fw. drain_frames e (FRAME_CHANNEL fw) fw) (quiet store_registered))) fw"

text \<open>Draining a channel of the main loop stops when a handler is waiting for the reset.\<close>

fun drain_commands :: "Env \<Rightarrow> Command list \<Rightarrow> Firmware \<Rightarrow> Firmware \<times> Obs list" where
  "drain_commands e [] fw = (fw, [])"
| "drain_commands e (c # cs) fw =
     (if ml_phase (main_loop fw) \<noteq> Main_Running then (fw, [])
      else seq_do (handle_mqtt_command e c) (drain_commands e cs) (fw\<lparr>COMMAND_CHANNEL := cs\<rparr>))"

fun drain_pump_timers :: "Env \<Rightarrow> (u8 \<times> u32) list \<Rightarrow> Firmware \<Rightarrow> Firmware \<times> Obs list" where
  "drain_pump_timers e [] fw = (fw, [])"
| "drain_pump_timers e ((i, minutes) # ts) fw =
     seq_do (run_app e (\<lambda>a. app_start_pump_timer a (env_now e) i minutes)) (drain_pump_timers e ts)
       (fw\<lparr>PUMP_TIMER_CHANNEL := ts\<rparr>)"

text \<open>The watch over the MQTT task: an alert when its counter has not moved for two minutes.\<close>

definition tick_mqtt_watch :: "Env \<Rightarrow> Firmware \<Rightarrow> Firmware" where
  "tick_mqtt_watch e fw =
     (let ml = main_loop fw; mqtt_tick = MQTT_TASK_TICK fw in
      if mqtt_tick \<noteq> ml_mqtt_last_tick ml then
        fw\<lparr>main_loop := ml\<lparr>ml_mqtt_last_tick := mqtt_tick, ml_mqtt_last_tick_time := now_us e\<rparr>\<rparr>
      else if sat_sub (now_us e) (ml_mqtt_last_tick_time ml) div 1000000 \<ge> 120 then
        (send_alert e (lit ''error'') (lit ''mqtt_task_frozen'') fw)
          \<lparr>main_loop := ml\<lparr>ml_mqtt_last_tick_time := now_us e\<rparr>\<rparr>
      else fw)"

text \<open>Which of the three futures of \<open>select3\<close> was ready.\<close>

datatype Selected = Sel_Frame | Sel_Command | Sel_Timer

definition tick_select :: "Env \<Rightarrow> Selected \<Rightarrow> Firmware \<Rightarrow> Firmware \<times> Obs list" where
  "tick_select e sel fw =
     (case sel of
        Sel_Frame \<Rightarrow>
          (case FRAME_CHANNEL fw of
             f # fs \<Rightarrow> process_uart_frames e f (fw\<lparr>FRAME_CHANNEL := fs\<rparr>)
           | [] \<Rightarrow> (fw, []))
      | Sel_Command \<Rightarrow>
          (case COMMAND_CHANNEL fw of
             c # cs \<Rightarrow> handle_mqtt_command e c (fw\<lparr>COMMAND_CHANNEL := cs\<rparr>)
           | [] \<Rightarrow> (fw, []))
      | Sel_Timer \<Rightarrow> (fw, []))"

definition tick_sniff_off :: "Env \<Rightarrow> Firmware \<Rightarrow> Firmware \<times> Obs list" where
  "tick_sniff_off e fw =
     (if ml_sniff_mode (main_loop fw) \<and> SNIFF_CAPTURE fw = 0
      then run_app e force_publish_app (set_sniff_mode False fw) else (fw, []))"

text \<open>The alert for a silent bus, after thirty seconds and then every five minutes.\<close>

definition tick_uart_health :: "Env \<Rightarrow> Firmware \<Rightarrow> Firmware" where
  "tick_uart_health e fw =
     (let up = uptime e fw; last_alert = ucast (UART_LAST_NO_BYTE_ALERT_SECS fw) :: u64 in
      if \<not> UART_FIRST_BYTE_SEEN fw \<and> up \<ge> 30 \<and> (up - last_alert \<ge> 300 \<or> last_alert = 0) then
        send_alert e (lit ''error'') (lit ''no_uart_bytes'') (fw\<lparr>UART_LAST_NO_BYTE_ALERT_SECS := ucast up\<rparr>)
      else fw)"

text \<open>
  A configuration that arrived on the serial line is saved, and the device reset; without the flash it
  is ignored.
\<close>

definition tick_serial_config :: "bool \<Rightarrow> Firmware \<Rightarrow> Firmware" where
  "tick_serial_config new_config fw =
     (if new_config \<and> ml_ota_available (main_loop fw) then set_phase Main_Reset fw else fw)"

text \<open>
  An OTA request ends in a connection test, after which the iteration goes on, or in an update, after
  which the device is reset in every case; the update itself is \<open>OtaUpdate.handle_ota_request\<close>.
\<close>

definition tick_ota :: "Env \<Rightarrow> Firmware \<Rightarrow> Firmware" where
  "tick_ota e fw =
     (case OTA_CHANNEL fw of
        [] \<Rightarrow> fw
      | url # rest \<Rightarrow>
          let fw1 = fw\<lparr>OTA_CHANNEL := rest\<rparr>;
              unavailable = send_alert e (lit ''error'') (lit ''ota_unavailable_no_flash'') fw1 in
          if sublist (lit ''?test=1'') url then
            (if ml_ota_available (main_loop fw1) then set_phase Main_Test fw1 else unavailable)
          else if ml_ota_available (main_loop fw1) then set_phase (Main_Update url) fw1
          else set_phase Main_Reset unavailable)"

definition while_running :: "(Firmware \<Rightarrow> Firmware \<times> Obs list) \<Rightarrow> Firmware \<Rightarrow> Firmware \<times> Obs list" where
  "while_running f fw = (if ml_phase (main_loop fw) = Main_Running then f fw else (fw, []))"

text \<open>One iteration, up to the OTA request, and its end.\<close>

definition tick_end :: "Env \<Rightarrow> Firmware \<Rightarrow> Firmware \<times> Obs list" where
  "tick_end e fw = drain_pump_timers e (PUMP_TIMER_CHANNEL fw) fw"

definition tick_periodic :: "Env \<Rightarrow> bool \<Rightarrow> Firmware \<Rightarrow> Firmware \<times> Obs list" where
  "tick_periodic e new_config =
     seq_do (tick_sniff_off e)
       (seq_do (run_app e (\<lambda>a. app_tick a (env_now e)))
         (seq_do (quiet store_registered)
           (seq_do (run_app e (\<lambda>a. check_heap a (env_now e) (heap_free e)))
             (seq_do (quiet (tick_uart_health e))
               (seq_do (quiet (tick_serial_config new_config))
                 (while_running (seq_do (quiet (tick_ota e)) (while_running (tick_end e)))))))))"

definition main_tick :: "Env \<Rightarrow> Selected \<Rightarrow> bool \<Rightarrow> Firmware \<Rightarrow> Firmware \<times> Obs list" where
  "main_tick e sel new_config =
     seq_do (quiet (tick_mqtt_watch e))
       (seq_do (tick_select e sel)
         (seq_do (\<lambda>fw. drain_commands e (COMMAND_CHANNEL fw) fw)
           (while_running (tick_periodic e new_config))))"

text \<open>The end of a connection test, and the rest of the iteration it belongs to.\<close>

definition test_done :: "Env \<Rightarrow> bool \<Rightarrow> Firmware \<Rightarrow> Firmware \<times> Obs list" where
  "test_done e passed fw =
     (if ml_phase (main_loop fw) = Main_Test then
        tick_end e (set_phase Main_Running
          (if passed then fw else send_alert e (lit ''error'') (lit ''tcp_test_failed'') fw))
      else (fw, []))"

section \<open>The firmware as a machine\<close>

text \<open>
  The start of normal operation: the hash is stored before the tasks are spawned, and the application
  is made from the same identifier.
\<close>

definition firmware_new :: "Env \<Rightarrow> rstr \<Rightarrow> rstr \<Rightarrow> bool \<Rightarrow> Firmware" where
  "firmware_new e version device_id ota =
     (let h = derive_client_hash device_id in
      \<lparr>uart_task = \<lparr>ut_decoder = decoder_new, ut_sniff = sniff_new, ut_first_bytes_logged = False, ut_phase = Uart_Idle\<rparr>,
       main_loop = \<lparr>ml_app = new_from_device_id (env_now e) device_id, ml_device_id = device_id, ml_sniff_mode = False,
         ml_mqtt_last_tick = 0, ml_mqtt_last_tick_time = now_us e, ml_phase = Main_Running, ml_ota_available = ota\<rparr>,
       firmware_version = version, MQTT_TASK_TICK = 0, MQTT_RECONNECT_COUNT = 0, MQTT_LOSS_COUNT = 0,
       FRAME_ERROR_COUNT = 0, UART_BYTES_RECEIVED = 0, UART_FIRST_BYTE_SEEN = False,
       UART_LAST_NO_BYTE_ALERT_SECS = 0, DIAGNOSTICS_START_SECS = ucast (as_millis (env_now e) div 1000),
       REG_CLIENT_HASH = push_bit 8 (ucast (fst h)) OR ucast (snd h), APP_REGISTERED = False,
       SNIFF_CAPTURE = 0, FRAME_CHANNEL = [], COMMAND_CHANNEL = [], UART_TX_CHANNEL = [], STATE_CHANNEL = [],
       PUMP_TIMER_CHANNEL = [], DIAGNOSTICS_CHANNEL = [], OTA_CHANNEL = [], ALERT_CHANNEL = [],
       SNIFF_CHANNEL = [], fw_panicked = False\<rparr>)"

text \<open>
  The events. An event that cannot happen in a state (bytes while the UART task is busy, an iteration
  of a main loop that waits for its reset, a message for a full channel) leaves the state as it is.
\<close>

datatype FwEvent =
    FE_Read "u8 list"
  | FE_Byte
  | FE_Send
  | FE_Idle
  | FE_Main Selected bool
  | FE_TestDone bool
  | FE_MqttCommand Command
  | FE_MqttPumpTimer u8 u32
  | FE_MqttOta rstr
  | FE_MqttTick
  | FE_MqttReconnect bool
  | FE_MqttTakeState
  | FE_MqttTakeDiagnostics
  | FE_MqttTakeAlert
  | FE_MqttTakeSniff
  | FE_MqttAlert "u8 list"

fun fw_event :: "Env \<Rightarrow> FwEvent \<Rightarrow> Firmware \<Rightarrow> Firmware \<times> Obs list" where
  "fw_event e (FE_Read data) fw =
     (if ut_phase (uart_task fw) = Uart_Idle \<and> data \<noteq> [] \<and> length data \<le> 128 then uart_read e data fw else (fw, []))"
| "fw_event e FE_Byte fw = uart_byte e fw"
| "fw_event e FE_Send fw = uart_send e fw"
| "fw_event e FE_Idle fw = (if ut_phase (uart_task fw) = Uart_Idle then uart_idle e fw else (fw, []))"
| "fw_event e (FE_Main sel new_config) fw = while_running (main_tick e sel new_config) fw"
| "fw_event e (FE_TestDone passed) fw = test_done e passed fw"
| "fw_event e (FE_MqttCommand c) fw = (fw\<lparr>COMMAND_CHANNEL := fst (try_send e 4 (COMMAND_CHANNEL fw) c)\<rparr>, [])"
| "fw_event e (FE_MqttPumpTimer i m) fw = (fw\<lparr>PUMP_TIMER_CHANNEL := fst (try_send e 4 (PUMP_TIMER_CHANNEL fw) (i, m))\<rparr>, [])"
| "fw_event e (FE_MqttOta url) fw = (fw\<lparr>OTA_CHANNEL := fst (try_send e 1 (OTA_CHANNEL fw) url)\<rparr>, [])"
| "fw_event e FE_MqttTick fw = (fw\<lparr>MQTT_TASK_TICK := MQTT_TASK_TICK fw + 1\<rparr>, [])"
| "fw_event e (FE_MqttReconnect loss) fw =
     (fw\<lparr>MQTT_RECONNECT_COUNT := MQTT_RECONNECT_COUNT fw + 1,
         MQTT_LOSS_COUNT := MQTT_LOSS_COUNT fw + (if loss then 1 else 0)\<rparr>, [])"
| "fw_event e FE_MqttTakeState fw = (fw\<lparr>STATE_CHANNEL := tl (STATE_CHANNEL fw)\<rparr>, [])"
| "fw_event e FE_MqttTakeDiagnostics fw = (fw\<lparr>DIAGNOSTICS_CHANNEL := tl (DIAGNOSTICS_CHANNEL fw)\<rparr>, [])"
| "fw_event e FE_MqttTakeAlert fw = (fw\<lparr>ALERT_CHANNEL := tl (ALERT_CHANNEL fw)\<rparr>, [])"
| "fw_event e FE_MqttTakeSniff fw = (fw\<lparr>SNIFF_CHANNEL := tl (SNIFF_CHANNEL fw)\<rparr>, [])"
| "fw_event e (FE_MqttAlert p) fw = (fw\<lparr>ALERT_CHANNEL := fst (try_send e 4 (ALERT_CHANNEL fw) p)\<rparr>, [])"

definition fw_step :: "Firmware \<Rightarrow> Env \<times> FwEvent \<Rightarrow> Firmware \<times> Obs list" where
  "fw_step fw ev = (if fw_panicked fw then (fw, []) else fw_event (fst ev) (snd ev) fw)"

end
