(* ===== verification/MqttClient.thy ===== *)
theory MqttClient
  imports MqttCodec CommandParser MqttState Discovery RateControl OtaHttp
begin

text \<open>
  The MQTT client of the firmware (\<open>app/src/mqtt_client.rs\<close>). The socket is another package's: what it
  does is a script, part of the state, that says what its reads return, with the time at which they
  return, and which of its writes succeed. The clock is read in microseconds. An operation returns, waits
  for ever (a read that is never answered, which the code does not bound), or panics.
\<close>

section \<open>Outcomes\<close>

datatype 'a outcome = Returns 'a | Waits | Panics

definition and_then :: "'a outcome \<Rightarrow> ('a \<Rightarrow> 'b outcome) \<Rightarrow> 'b outcome" where
  "and_then r f = (case r of Returns x \<Rightarrow> f x | Waits \<Rightarrow> Waits | Panics \<Rightarrow> Panics)"

lemma and_then_simps [simp]: "and_then (Returns x) f = f x" "and_then Waits f = Waits" "and_then Panics f = Panics"
  by (simp_all add: and_then_def)

section \<open>Commands\<close>

datatype MqttAction = Action_Command Command | StartPumpTimer (timer_pump_no: u8) (timer_minutes_no: u32)

definition client_parse_command ::
  "rstr \<Rightarrow> rstr \<Rightarrow> u8 list \<Rightarrow> TemperatureScale option \<Rightarrow> TempRange option \<Rightarrow> MqttAction option" where
  "client_parse_command command_topic_base topic p scale rng =
     (case parse_command command_topic_base topic p of
        Valid (SetTemperature temp) \<Rightarrow>
          (case (scale, rng) of
             (Some s, Some r) \<Rightarrow>
               (case validate_set_temperature temp s r of
                  Inr _ \<Rightarrow>
                    let wire_value = (case s of
                          Celsius \<Rightarrow>
                            let raw_float = (case Option.bind (from_utf8 p) parse_f32 of
                                  Some f \<Rightarrow> f | None \<Rightarrow> f32_of_u8 temp)
                            in f32_to_u8 (f32_add (f32_mul raw_float (F32_Fin 2)) (F32_Fin (1 / 2)))
                        | Fahrenheit \<Rightarrow> temp)
                    in Some (Action_Command (SetTemperature wire_value))
                | Inl _ \<Rightarrow> None)
           | _ \<Rightarrow> None)
      | Valid cmd \<Rightarrow> Some (Action_Command cmd)
      | TimerPump minutes pump_no \<Rightarrow> Some (StartPumpTimer pump_no minutes)
      | _ \<Rightarrow> None)"

section \<open>State\<close>

definition DEFAULT_KEEP_ALIVE_SECS :: u16 where "DEFAULT_KEEP_ALIVE_SECS = 30"
definition RX_BUFFER_MAX_SIZE :: nat where "RX_BUFFER_MAX_SIZE = 2048"
definition MQTT_RECV_BUF_SIZE :: nat where "MQTT_RECV_BUF_SIZE = 512"
definition HEADER_SUBACK :: u8 where "HEADER_SUBACK = 0x90"
definition HA_STATUS_TOPIC :: rstr where "HA_STATUS_TOPIC = lit ''homeassistant/status''"

datatype MqttError = ConnectionFailed | PublishFailed | SubscribeFailed | ReadFailed

text \<open>What a read of the socket returns (no bytes: the peer has closed), and the script of a socket.\<close>

datatype sock_result = Read_Data "u8 list" | Read_Error

record Socket =
  sk_reads :: "(u64 \<times> sock_result) list"
  sk_write_ok :: "nat \<Rightarrow> bool"
  sk_writes :: nat
  sk_sent :: "u8 list list"

record MqttClient =
  mq_transport :: "Socket option"
  mq_device_id :: rstr
  mq_keep_alive :: u16
  mq_config_user :: rstr
  mq_config_password :: rstr
  next_packet_id :: u16
  last_outgoing :: u64
  rx_buffer :: "u8 list"
  rate_limiter :: RateLimiter
  last_disconnect :: "rstr option"
  boot_id :: u32
  mq_firmware_version :: rstr

definition client_new :: "u64 \<Rightarrow> rstr \<Rightarrow> rstr \<Rightarrow> rstr \<Rightarrow> rstr \<Rightarrow> u32 \<Rightarrow> MqttClient" where
  "client_new now version device_id user pass boot =
     \<lparr>mq_transport = None, mq_device_id = device_id, mq_keep_alive = DEFAULT_KEEP_ALIVE_SECS,
      mq_config_user = user, mq_config_password = pass, next_packet_id = 1, last_outgoing = now, rx_buffer = [],
      rate_limiter = rate_limiter_new, last_disconnect = None, boot_id = boot, mq_firmware_version = version\<rparr>"

definition is_connected :: "MqttClient \<Rightarrow> bool" where
  "is_connected c \<longleftrightarrow> mq_transport c \<noteq> None"

definition allocate_packet_id :: "MqttClient \<Rightarrow> MqttClient \<times> u16" where
  "allocate_packet_id c =
     (let i = next_packet_id c; n = i + 1 in (c\<lparr>next_packet_id := (if n = 0 then 1 else n)\<rparr>, i))"

section \<open>Sending and reading\<close>

definition send_bytes :: "u64 \<Rightarrow> u8 list \<Rightarrow> MqttClient \<Rightarrow> MqttClient \<times> (MqttError + unit)" where
  "send_bytes now data c =
     (case mq_transport c of
        None \<Rightarrow> (c, Inl PublishFailed)
      | Some sk \<Rightarrow>
          let sk1 = sk\<lparr>sk_writes := sk_writes sk + 1\<rparr> in
          if sk_write_ok sk (sk_writes sk) then
            (c\<lparr>mq_transport := Some (sk1\<lparr>sk_sent := sk_sent sk @ [data]\<rparr>), last_outgoing := now\<rparr>, Inr ())
          else (c\<lparr>mq_transport := Some sk1\<rparr>, Inl PublishFailed))"

text \<open>
  The loop of \<open>read_exact\<close>: \<open>got\<close> are the bytes so far, at most \<open>room\<close> more fit into the buffer. What does
  not fit stays in the stream. The deadline is looked at between two reads only.
\<close>

fun read_loop :: "u64 \<Rightarrow> u64 \<Rightarrow> nat \<Rightarrow> nat \<Rightarrow> u8 list \<Rightarrow> (u64 \<times> sock_result) list \<Rightarrow>
    ((u64 \<times> sock_result) list \<times> u64 \<times> (MqttError + u8 list)) outcome" where
  "read_loop deadline now room min_bytes got [] =
     (if min_bytes \<le> length got then Returns ([], now, Inr got)
      else if now \<ge> deadline then Returns ([], now, Inl ReadFailed) else Waits)"
| "read_loop deadline now room min_bytes got ((t, r) # rest) =
     (if min_bytes \<le> length got then Returns ((t, r) # rest, now, Inr got)
      else if now \<ge> deadline then Returns ((t, r) # rest, now, Inl ReadFailed)
      else let t1 = max t now in
        (case r of
          Read_Error \<Rightarrow> Returns (rest, t1, Inl ReadFailed)
        | Read_Data d \<Rightarrow>
            if d = [] then read_loop deadline (t1 + 10000) room min_bytes got rest
            else if length d \<le> room - length got
            then read_loop deadline t1 room min_bytes (got @ d) rest
            else let n = room - length got in
              Returns ((t, Read_Data (drop n d)) # rest, t1, Inr (got @ take n d))))"

definition read_exact :: "u64 \<Rightarrow> nat \<Rightarrow> nat \<Rightarrow> MqttClient \<Rightarrow> (MqttClient \<times> u64 \<times> (MqttError + u8 list)) outcome" where
  "read_exact now room min_bytes c =
     (case mq_transport c of
        None \<Rightarrow> Returns (c, now, if min_bytes = 0 then Inr [] else Inl ReadFailed)
      | Some sk \<Rightarrow>
          and_then (read_loop (now + 5000000) now room min_bytes [] (sk_reads sk))
            (\<lambda>(rest, t, r). Returns (c\<lparr>mq_transport := Some (sk\<lparr>sk_reads := rest\<rparr>)\<rparr>, t, r)))"

definition maybe_ping :: "u64 \<Rightarrow> MqttClient \<Rightarrow> MqttClient \<times> (MqttError + bool)" where
  "maybe_ping now c =
     (let half_keepalive = (ucast (mq_keep_alive c) div 2) * 1000000 in
      if sat_sub now (last_outgoing c) \<ge> half_keepalive then
        (case send_bytes now encode_pingreq c of
           (c', Inl e) \<Rightarrow> (c', Inl e)
         | (c', Inr _) \<Rightarrow> (c', Inr True))
      else (c, Inr False))"

definition publish :: "u64 \<Rightarrow> rstr \<Rightarrow> u8 list \<Rightarrow> u8 \<Rightarrow> bool \<Rightarrow> MqttClient \<Rightarrow> MqttClient \<times> (MqttError + unit)" where
  "publish now topic p qos retain c =
     (let (c1, packet_id) = (if qos > 0 then (let (c1, i) = allocate_packet_id c in (c1, Some i)) else (c, None)) in
      case encode_publish topic p qos retain packet_id of
        Inl _ \<Rightarrow> (c1, Inl PublishFailed)
      | Inr packet \<Rightarrow> send_bytes now packet c1)"

section \<open>Subscribing\<close>

text \<open>The bytes of the remaining length, at most four.\<close>

fun read_length :: "nat \<Rightarrow> u8 list \<Rightarrow> u64 \<Rightarrow> MqttClient \<Rightarrow> (MqttClient \<times> u64 \<times> (MqttError + u8 list)) outcome" where
  "read_length 0 rl now c = Returns (c, now, Inr rl)"
| "read_length (Suc k) rl now c =
     and_then (read_exact now 1 1 c)
       (\<lambda>(c1, t, r). case r of
          Inl e \<Rightarrow> Returns (c1, t, Inl e)
        | Inr bs \<Rightarrow>
            if hd bs AND 0x80 = 0 then Returns (c1, t, Inr (rl @ bs)) else read_length k (rl @ bs) t c1)"

definition length_value :: "u8 list \<Rightarrow> nat" where
  "length_value rl = sum_list (map (\<lambda>(i, b). unat (b AND 0x7F) * 128 ^ i) (enumerate 0 rl))"

text \<open>One packet while waiting: its header byte, its length bytes, its payload of at most 128 bytes.\<close>

definition read_packet :: "u64 \<Rightarrow> MqttClient \<Rightarrow> (MqttClient \<times> u64 \<times> (MqttError + u8 \<times> u8 list \<times> u8 list)) outcome" where
  "read_packet now c =
     and_then (read_exact now 1 1 c)
       (\<lambda>(c1, t1, r1). case r1 of
          Inl _ \<Rightarrow> Returns (c1, t1, Inl SubscribeFailed)
        | Inr header \<Rightarrow>
            and_then (read_length 4 [] t1 c1)
              (\<lambda>(c2, t2, r2). case r2 of
                 Inl _ \<Rightarrow> Returns (c2, t2, Inl SubscribeFailed)
               | Inr rl \<Rightarrow>
                   if length_value rl > 128 then Returns (c2, t2, Inl SubscribeFailed)
                   else if length_value rl = 0 then Returns (c2, t2, Inr (hd header, rl, []))
                   else and_then (read_exact t2 (length_value rl) (length_value rl) c2)
                     (\<lambda>(c3, t3, r3). case r3 of
                        Inl _ \<Rightarrow> Returns (c3, t3, Inl SubscribeFailed)
                      | Inr body \<Rightarrow> Returns (c3, t3, Inr (hd header, rl, body)))))"

definition MAX_SKIP :: nat where "MAX_SKIP = 50"

text \<open>The loop of \<open>subscribe\<close>; the first argument counts down the packets that may still be skipped.\<close>

fun suback_loop :: "nat \<Rightarrow> u16 \<Rightarrow> u64 \<Rightarrow> MqttClient \<Rightarrow> (MqttClient \<times> u64 \<times> (MqttError + unit)) outcome" where
  "suback_loop skips pkt_id now c =
     and_then (read_packet now c)
       (\<lambda>(c1, t, r). case r of
          Inl e \<Rightarrow> Returns (c1, t, Inl e)
        | Inr (header, rl, body) \<Rightarrow>
            if header = HEADER_SUBACK then
              (case parse_suback ([HEADER_SUBACK] @ rl @ body) pkt_id of
                 None \<Rightarrow> Panics
               | Some (Inl _) \<Rightarrow> Returns (c1, t, Inl SubscribeFailed)
               | Some (Inr _) \<Rightarrow> Returns (c1\<lparr>last_outgoing := t\<rparr>, t, Inr ()))
            else (case skips of
                0 \<Rightarrow> Returns (c1, t, Inl SubscribeFailed)
              | Suc k \<Rightarrow>
                  suback_loop k pkt_id t
                    (if drop_bit 4 header = 12 then fst (send_bytes t encode_pingresp c1) else c1)))"

definition subscribe :: "u64 \<Rightarrow> rstr \<Rightarrow> MqttClient \<Rightarrow> (MqttClient \<times> u64 \<times> (MqttError + unit)) outcome" where
  "subscribe now topic c =
     (let (c1, pkt_id) = allocate_packet_id c in
      case send_bytes now (encode_subscribe topic pkt_id) c1 of
        (c2, Inl _) \<Rightarrow> Returns (c2, now, Inl SubscribeFailed)
      | (c2, Inr _) \<Rightarrow> suback_loop MAX_SKIP pkt_id now c2)"

section \<open>Receiving\<close>

text \<open>
  The result of \<open>process_packets\<close> as in the source: the outer \<open>None\<close> ends the connection, the inner one
  says that the packet needed no answer to the caller.
\<close>

definition process_publish :: "u64 \<Rightarrow> u8 list \<Rightarrow> MqttClient \<Rightarrow> MqttClient \<times> (rstr \<times> u8 list) option option" where
  "process_publish now packet c =
     (let qos = drop_bit 1 (hd packet) AND 0x03 in
      case decode_remaining_length packet of
        None \<Rightarrow> (c, None)
      | Some (_, idx) \<Rightarrow>
          if idx + 2 > length packet then (c, None)
          else
            let topic_len = unat (from_be16 (packet ! idx) (packet ! (idx + 1))); idx1 = idx + 2 in
            if idx1 + topic_len > length packet then (c, None)
            else
              let topic = (case from_utf8 (take topic_len (drop idx1 packet)) of Some t \<Rightarrow> t | None \<Rightarrow> []);
                  idx2 = idx1 + topic_len in
              if qos > 0 then
                if idx2 + 2 > length packet then (c, None)
                else
                  let pkt_id = from_be16 (packet ! idx2) (packet ! (idx2 + 1)) in
                  (fst (send_bytes now (encode_puback pkt_id) c), Some (Some (topic, drop (idx2 + 2) packet)))
              else (c, Some (Some (topic, drop idx2 packet))))"

definition process_packets :: "u64 \<Rightarrow> u8 list \<Rightarrow> MqttClient \<Rightarrow> MqttClient \<times> (rstr \<times> u8 list) option option" where
  "process_packets now packet c =
     (if packet = [] then (c, Some None)
      else
        let packet_type = drop_bit 4 (hd packet) in
        if packet_type = 3 then process_publish now packet c
        else if packet_type = 12 then (fst (send_bytes now encode_pingresp c), Some None)
        else if packet_type = 14 then (c, None)
        else (c, Some None))"

datatype recv_result = Recv_Message rstr "u8 list" | Recv_Lost | Recv_Cancelled | Recv_Running

definition lost :: "rstr \<Rightarrow> u64 \<Rightarrow> MqttClient \<Rightarrow> MqttClient \<times> u64 \<times> recv_result" where
  "lost reason now c = (c\<lparr>last_disconnect := Some reason\<rparr>, now, Recv_Lost)"

text \<open>
  The loop of \<open>recv\<close>, for so many iterations. The caller drops the future at the time \<open>until\<close>, which
  takes effect where the loop waits: before a read, in the read, and after a failed read. A read takes the
  next entry of the script if it comes before the caller's and the client's own timer.
\<close>

fun recv_loop :: "nat \<Rightarrow> u64 \<Rightarrow> u64 \<Rightarrow> nat \<Rightarrow> MqttClient \<Rightarrow> MqttClient \<times> u64 \<times> recv_result" where
  "recv_loop 0 until now retries c = (c, now, Recv_Running)"
| "recv_loop (Suc n) until now retries c =
     (case maybe_ping now c of
        (c1, Inl e) \<Rightarrow> lost (lit ''PING FAIL PublishFailed'') now c1
      | (c1, Inr pinged) \<Rightarrow>
          let retries1 = (if pinged then 0 else retries) in
          case try_extract_packet (rx_buffer c1) of
            (buf, Some packet) \<Rightarrow>
              (case process_packets now packet (c1\<lparr>rx_buffer := buf\<rparr>) of
                 (c2, Some (Some (topic, p))) \<Rightarrow> (c2, now, Recv_Message topic p)
               | (c2, Some None) \<Rightarrow> recv_loop n until now 0 c2
               | (c2, None) \<Rightarrow> lost (lit ''FATAL PKT type '' @ show_nat (unat (drop_bit 4 (hd packet)))) now c2)
          | (buf, None) \<Rightarrow>
              let now1 = now + 1000 in
              if until \<le> now1 then (c1, until, Recv_Cancelled)
              else case mq_transport c1 of
                  None \<Rightarrow> lost (lit ''NO TRANSPORT'') now1 c1
                | Some sk \<Rightarrow>
                    let ping_deadline = now1 + (ucast (mq_keep_alive c1) div 2) * 1000000;
                        limit = min until ping_deadline in
                    (case sk_reads sk of
                       (t, r) # rest \<Rightarrow>
                         if max t now1 \<le> limit then
                           (case r of
                              Read_Data d \<Rightarrow>
                                if d = [] then
                                  lost (lit ''FIN retries='' @ show_nat retries1) (max t now1)
                                    (c1\<lparr>mq_transport := Some (sk\<lparr>sk_reads := rest\<rparr>)\<rparr>)
                                else
                                  let chunk = take MQTT_RECV_BUF_SIZE d; left = drop MQTT_RECV_BUF_SIZE d;
                                      c2 = c1\<lparr>mq_transport := Some (sk\<lparr>sk_reads :=
                                             (if left = [] then rest else (t, Read_Data left) # rest)\<rparr>)\<rparr> in
                                  if length (rx_buffer c2) + length chunk > RX_BUFFER_MAX_SIZE
                                  then lost (lit ''BUF OVERFLOW'') (max t now1) (c2\<lparr>rx_buffer := []\<rparr>)
                                  else recv_loop n until (max t now1) 0 (c2\<lparr>rx_buffer := rx_buffer c2 @ chunk\<rparr>)
                            | Read_Error \<Rightarrow>
                                let c2 = c1\<lparr>mq_transport := Some (sk\<lparr>sk_reads := rest\<rparr>)\<rparr>; now2 = max t now1 in
                                if retries1 + 1 > 100
                                then lost (lit ''STUCK retries='' @ show_nat (retries1 + 1)) now2 c2
                                else if until \<le> now2 + 1000000 then (c2, until, Recv_Cancelled)
                                else recv_loop n until (now2 + 1000000) (retries1 + 1) c2)
                         else if until \<le> ping_deadline then (c1, until, Recv_Cancelled)
                         else recv_loop n until ping_deadline retries1 c1
                     | [] \<Rightarrow>
                         if until \<le> ping_deadline then (c1, until, Recv_Cancelled)
                         else recv_loop n until ping_deadline retries1 c1))"

definition recv :: "nat \<Rightarrow> u64 \<Rightarrow> u64 \<Rightarrow> MqttClient \<Rightarrow> MqttClient \<times> u64 \<times> recv_result" where
  "recv iterations until now c = recv_loop iterations until now 0 c"

section \<open>Publishing\<close>

definition client_topics :: "MqttClient \<Rightarrow> TopicBuilder" where
  "client_topics c = topic_builder_new (mq_device_id c)"

definition publish_state ::
  "u64 \<Rightarrow> StatusUpdate \<Rightarrow> rstr option \<Rightarrow> bool \<Rightarrow> 32 word option \<Rightarrow> bool \<Rightarrow> rstr \<Rightarrow> MqttClient \<Rightarrow>
     MqttClient \<times> (MqttError + unit)" where
  "publish_state now status last_fault sniff_on rssi retain reg c =
     publish now (state_topic (client_topics c))
       (as_bytes (status_to_json status last_fault (Some (mq_firmware_version c)) sniff_on rssi reg)) 1 retain c"

definition publish_availability :: "u64 \<Rightarrow> bool \<Rightarrow> MqttClient \<Rightarrow> MqttClient \<times> (MqttError + unit)" where
  "publish_availability now online c =
     (case publish now (availability_topic (client_topics c)) (as_bytes (if online then lit ''online'' else lit ''offline'')) 1 True c of
        (c1, Inl e) \<Rightarrow> (c1, Inl e)
      | (c1, Inr _) \<Rightarrow>
          if online then publish now (boot_topic (client_topics c)) (as_bytes (show_nat (unat (boot_id c1)))) 1 True c1
          else (c1, Inr ()))"

definition publish_availability_stale :: "u64 \<Rightarrow> MqttClient \<Rightarrow> MqttClient \<times> (MqttError + unit)" where
  "publish_availability_stale now c = publish now (availability_topic (client_topics c)) (as_bytes (lit ''stale'')) 1 True c"

definition publish_discovery :: "u64 \<Rightarrow> bool \<Rightarrow> MqttClient \<Rightarrow> MqttClient \<times> (MqttError + unit)" where
  "publish_discovery now celsius c =
     (let builder = with_celsius (with_sw_version (discovery_new (mq_device_id c)) (mq_firmware_version c)) celsius in
      (foldl (\<lambda>c m. fst (publish now (dm_topic m) (as_bytes (dm_payload m)) 1 (dm_retain m) c)) c (build_with_retain builder), Inr ()))"

definition subscribe_commands :: "u64 \<Rightarrow> MqttClient \<Rightarrow> (MqttClient \<times> u64 \<times> (MqttError + unit)) outcome" where
  "subscribe_commands now c =
     and_then (subscribe now (command_topic (client_topics c) @ lit ''/#'') c)
       (\<lambda>(c1, t1, r1). case r1 of
          Inl e \<Rightarrow> Returns (c1, t1, Inl e)
        | Inr _ \<Rightarrow>
            and_then (subscribe t1 (ota_topic (client_topics c)) c1)
              (\<lambda>(c2, t2, r2). case r2 of
                 Inl e \<Rightarrow> Returns (c2, t2, Inl e)
               | Inr _ \<Rightarrow> subscribe t2 (ha_status_topic (client_topics c)) c2))"

definition post_connect_publish :: "u64 \<Rightarrow> bool \<Rightarrow> MqttClient \<Rightarrow> (MqttClient \<times> u64) outcome" where
  "post_connect_publish now celsius c =
     (let c1 = fst (publish_availability now True c); c2 = fst (publish_discovery now celsius c1) in
      and_then (subscribe_commands now c2) (\<lambda>(c3, t, _). Returns (c3, t)))"

section \<open>Connecting\<close>

text \<open>What the network does with one attempt: whether the host has an address, and the socket if it connects.\<close>

record Attempt =
  at_resolved :: bool
  at_socket :: "Socket option"

definition send_connect :: "u64 \<Rightarrow> rstr \<Rightarrow> rstr \<Rightarrow> rstr option \<Rightarrow> rstr option \<Rightarrow> MqttClient \<Rightarrow>
    (MqttClient \<times> u64 \<times> (MqttError + unit)) outcome" where
  "send_connect now client_name lwt user pass c =
     (let packet = encode_connect \<lparr>cc_client_id = client_name, lwt_topic = lwt, username = user, password = pass,
            keep_alive = mq_keep_alive c\<rparr> in
      case send_bytes now packet c of
        (c1, Inl _) \<Rightarrow> Returns (c1, now, Inl ConnectionFailed)
      | (c1, Inr _) \<Rightarrow>
          and_then (read_exact now 64 4 c1)
            (\<lambda>(c2, t, r). case r of
               Inl _ \<Rightarrow> Returns (c2, t, Inl ConnectionFailed)
             | Inr reply \<Rightarrow>
                 (case parse_connack reply of
                    Inl _ \<Rightarrow> Returns (c2, t, Inl ConnectionFailed)
                  | Inr _ \<Rightarrow> Returns (c2\<lparr>last_outgoing := t\<rparr>, t, Inr ()))))"

definition connect :: "u64 \<Rightarrow> Attempt \<Rightarrow> MqttClient \<Rightarrow> (MqttClient \<times> u64 \<times> (MqttError + unit)) outcome" where
  "connect now att c =
     (let c0 = c\<lparr>mq_transport := None\<rparr>; non_empty = (\<lambda>s. if s = [] then None else Some s) in
      if \<not> at_resolved att then Returns (c0, now, Inl ConnectionFailed)
      else case at_socket att of
          None \<Rightarrow> Returns (c0, now, Inl ConnectionFailed)
        | Some sk \<Rightarrow>
            send_connect now (lit ''launa_'' @ mq_device_id c) (availability_topic (client_topics c))
              (non_empty (mq_config_user c)) (non_empty (mq_config_password c))
              (c0\<lparr>mq_transport := Some sk, rx_buffer := [], next_packet_id := 1\<rparr>))"

record LastState =
  ls_status :: StatusUpdate
  ls_fault :: "rstr option"
  ls_sniff_mode :: bool
  ls_wifi_rssi :: "32 word option"
  ls_registration_state :: rstr

definition reconnect_and_sync :: "u64 \<Rightarrow> Attempt \<Rightarrow> bool \<Rightarrow> LastState option \<Rightarrow> MqttClient \<Rightarrow>
    (MqttClient \<times> u64 \<times> (MqttError + unit)) outcome" where
  "reconnect_and_sync now att celsius last_state c =
     and_then (connect now att c)
       (\<lambda>(c1, t1, r). case r of
          Inl e \<Rightarrow> Returns (c1, t1, Inl e)
        | Inr _ \<Rightarrow>
            and_then (post_connect_publish t1 celsius c1)
              (\<lambda>(c2, t2). Returns
                 (case last_state of
                    None \<Rightarrow> c2
                  | Some ls \<Rightarrow> fst (publish_state t2 (ls_status ls) (ls_fault ls) (ls_sniff_mode ls) (ls_wifi_rssi ls) False
                      (ls_registration_state ls) c2), t2, Inr ())))"

section \<open>Small operations\<close>

definition is_ota_topic :: "MqttClient \<Rightarrow> rstr \<Rightarrow> bool" where
  "is_ota_topic c topic \<longleftrightarrow> topic = ota_topic (client_topics c)"

definition is_ha_status_topic :: "rstr \<Rightarrow> bool" where
  "is_ha_status_topic topic \<longleftrightarrow> topic = HA_STATUS_TOPIC"

definition check_rate_limit :: "u64 \<Rightarrow> MqttClient \<Rightarrow> MqttClient \<times> bool" where
  "check_rate_limit now c =
     (let (rl, allowed_now) = rate_limiter_check (rate_limiter c) (now div 1000) in (c\<lparr>rate_limiter := rl\<rparr>, allowed_now))"

definition disconnect :: "u64 \<Rightarrow> MqttClient \<Rightarrow> MqttClient" where
  "disconnect now c = fst (send_bytes now encode_disconnect c)"

end
