(* ===== verification/RemoteLog.thy ===== *)
theory RemoteLog
  imports LogBuffer
begin

text \<open>
  The firmware's own remote log, \<open>app/src/remote_log.rs\<close>: the ring buffer of \<open>LogBuffer\<close> written again
  with atomics, whose reads and writes are plain here since the executor is cooperative, and the capture of a log line.
  It keeps the last sixteen messages as the other one does, but cuts a message after 128 characters.
\<close>

section \<open>The buffer\<close>

definition app_log_new :: RemoteLogBuffer where
  "app_log_new = \<lparr>entries = [], head = 0, len = 0, enabled = False\<rparr>"

definition app_set_enabled :: "bool \<Rightarrow> RemoteLogBuffer \<Rightarrow> RemoteLogBuffer" where
  "app_set_enabled e b = b\<lparr>enabled := e\<rparr>"

definition init_remote_log :: RemoteLogBuffer where
  "init_remote_log = app_set_enabled True app_log_new"

definition app_log_push :: "RemoteLogBuffer \<Rightarrow> rstr \<Rightarrow> rstr \<Rightarrow> u64 \<Rightarrow> RemoteLogBuffer" where
  "app_log_push b lvl msg ts =
     (if \<not> enabled b then b
      else
        let entry = \<lparr>level = lvl, log_message = take MAX_LOG_MESSAGE_LEN msg, timestamp_ms = ts\<rparr> in
        if len b < REMOTE_LOG_BUF_SIZE then
          let es = entries b @ [entry] in
          b\<lparr>entries := es, len := length es, head := length es mod REMOTE_LOG_BUF_SIZE\<rparr>
        else
          b\<lparr>entries := (if head b < length (entries b) then (entries b)[head b := entry] else entries b),
            head := (head b + 1) mod REMOTE_LOG_BUF_SIZE\<rparr>)"

definition app_log_drain :: "RemoteLogBuffer \<Rightarrow> RemoteLogBuffer \<times> LogEntry list" where
  "app_log_drain b =
     (if len b = 0 then (b, [])
      else
        let capacity = min (length (entries b)) (len b);
            result = concat (map (\<lambda>i. let idx = (head b + i) mod length (entries b) in
              if idx < length (entries b) then [entries b ! idx] else []) [0..<capacity])
        in (b\<lparr>entries := [], head := 0, len := 0\<rparr>, result))"

definition app_log_is_empty :: "RemoteLogBuffer \<Rightarrow> bool" where
  "app_log_is_empty b \<longleftrightarrow> len b = 0"

section \<open>Capturing\<close>

datatype LogLevel = Level_Error | Level_Warn | Level_Info | Level_Debug | Level_Trace

fun level_text :: "LogLevel \<Rightarrow> rstr" where
  "level_text Level_Error = lit ''error''"
| "level_text Level_Warn = lit ''warn''"
| "level_text Level_Info = lit ''info''"
| "level_text Level_Debug = lit ''debug''"
| "level_text Level_Trace = lit ''trace''"

text \<open>A number, padded on the left with a character to a width.\<close>

definition padded :: "nat \<Rightarrow> nat \<Rightarrow> nat \<Rightarrow> rstr" where
  "padded c width n = replicate (width - length (show_nat n)) c @ show_nat n"

definition capture_log :: "RemoteLogBuffer option \<Rightarrow> u64 \<Rightarrow> LogLevel \<Rightarrow> rstr \<Rightarrow> RemoteLogBuffer option" where
  "capture_log buf ts lvl msg =
     (let ts_secs = ts div 1000; ts_frac = ts mod 1000;
          prefixed = padded 32 5 (unat ts_secs) @ [46] @ padded 48 3 (unat ts_frac) @ lit ''s '' @ msg in
      map_option (\<lambda>b. app_log_push b (level_text lvl) prefixed ts) buf)"

section \<open>The last sixteen messages\<close>

definition app_log_entry :: "rstr \<times> rstr \<times> u64 \<Rightarrow> LogEntry" where
  "app_log_entry = (\<lambda>(l, m, t). \<lparr>level = l, log_message = take MAX_LOG_MESSAGE_LEN m, timestamp_ms = t\<rparr>)"

definition app_push_all :: "RemoteLogBuffer \<Rightarrow> (rstr \<times> rstr \<times> u64) list \<Rightarrow> RemoteLogBuffer" where
  "app_push_all b ms = foldl (\<lambda>b (l, m, t). app_log_push b l m t) b ms"

lemma app_push_all_entries: "enabled b \<Longrightarrow> app_push_all b ms = foldl push_entry b (map app_log_entry ms)"
  by (induction ms arbitrary: b) (auto simp: app_push_all_def app_log_push_def push_entry_def app_log_entry_def Let_def)

lemma truncate_ascii: "list_all (\<lambda>c. c < 128) s \<Longrightarrow> n \<le> MAX_LOG_MESSAGE_LEN \<Longrightarrow> scan_bytes n s = take (MAX_LOG_MESSAGE_LEN - n) s"
  by (induction n s rule: scan_bytes.induct)
    (auto simp: Let_def len_utf8_def take_Cons' Suc_diff_Suc)

lemma app_log_drain_core: "ring_inv b \<Longrightarrow> app_log_drain b = log_drain b"
proof -
  assume "ring_inv b"
  then have "len b = length (entries b)" by (simp add: ring_inv_def)
  moreover have "concat (map (\<lambda>i. let idx = (head b + i) mod length (entries b) in
      if idx < length (entries b) then [entries b ! idx] else []) ks) =
    map (\<lambda>i. entries b ! ((head b + i) mod length (entries b))) ks" if "0 < length (entries b)" for ks
    using that by (induction ks) (auto simp: Let_def)
  ultimately show ?thesis by (auto simp: app_log_drain_def log_drain_def Let_def)
qed

lemma init_inv: "ring_inv init_remote_log" "enabled init_remote_log" "log_abs init_remote_log = []"
  by (simp_all add: init_remote_log_def app_set_enabled_def app_log_new_def ring_inv_def log_abs_def REMOTE_LOG_BUF_SIZE_def)

lemma app_drain_last_16: "app_log_drain (app_push_all init_remote_log ms) =
    (init_remote_log, take_last 16 (map app_log_entry ms))"
proof -
  let ?b = "app_push_all init_remote_log ms"
  have b: "ring_inv ?b" "log_abs ?b = take_last 16 (map app_log_entry ms)"
    using push_entries_spec [OF init_inv(1)] init_inv(3) by (simp_all add: app_push_all_entries [OF init_inv(2)])
  have "fst (log_drain ?b) = init_remote_log"
  proof -
    have "enabled (foldl push_entry b es) = enabled b" for b es by (induction es arbitrary: b) simp_all
    then have "enabled ?b" using init_inv(2) by (simp add: app_push_all_entries [OF init_inv(2)])
    moreover have "entries ?b = [] \<and> head ?b = 0" if "len ?b = 0"
      using b(1) that by (auto simp: ring_inv_def REMOTE_LOG_BUF_SIZE_def)
    ultimately show ?thesis
      by (cases ?b) (auto simp: log_drain_def Let_def init_remote_log_def app_set_enabled_def app_log_new_def)
  qed
  then show ?thesis
    using log_drain_abs [OF b(1)] b(2) by (simp add: app_log_drain_core [OF b(1)] prod_eq_iff)
qed

section \<open>Properties\<close>

text \<open>
  The two ring buffers of the repository agree. After the same messages, in ASCII, the firmware's
  own buffer is drained to the same entries as the tested one of \<open>launa-core\<close>: the last sixteen, oldest first,
  cut to the same length. On other texts they differ, since the firmware counts characters and not bytes.
\<close>

theorem app_log_matches_core:
  assumes "list_all (\<lambda>(l, m, t). list_all (\<lambda>c. c < 128) m) ms"
  shows "snd (app_log_drain (app_push_all init_remote_log ms)) = snd (log_drain (push_all (set_enabled True log_new) ms))"
proof -
  have "app_log_entry x = log_entry x" if "x \<in> set ms" for x
    using assms that truncate_ascii [of "fst (snd x)" 0]
    by (cases x) (auto simp: app_log_entry_def log_entry_def truncate_message_def list_all_iff)
  then have same: "map app_log_entry ms = map log_entry ms" by simp
  have start: "set_enabled True log_new = init_remote_log"
    by (simp add: init_remote_log_def app_set_enabled_def app_log_new_def set_enabled_def log_new_def)
  have "ring_inv (push_all init_remote_log ms)" "log_abs (push_all init_remote_log ms) = take_last 16 (map log_entry ms)"
    using push_all_spec [OF init_inv(1,2), of ms] init_inv(3) by simp_all
  then show ?thesis by (simp add: start app_drain_last_16 same log_drain_abs del: map_eq_conv)
qed

theorem app_log_matches_core_witness:
  "snd (app_log_drain (app_push_all init_remote_log [(lit ''info'', lit ''up'', 7)])) =
     snd (log_drain (push_all (set_enabled True log_new) [(lit ''info'', lit ''up'', 7)]))"
  by (rule app_log_matches_core) (simp add: lit_def)

lemma app_log_keeps_more:
  "length (as_bytes (log_message (app_log_entry ([], replicate 128 0xE9, 0)))) = 256"
  "length (as_bytes (log_message (log_entry ([], replicate 128 0xE9, 0)))) \<le> 128"
  using scan_bytes_bound [of 0 "replicate 128 0xE9"]
  by (simp_all add: app_log_entry_def log_entry_def truncate_message_def MAX_LOG_MESSAGE_LEN_def as_bytes_def
      length_concat o_def length_utf8_char len_utf8_def sum_list_replicate)

end
