(* ===== verification/MqttTask.thy ===== *)
theory MqttTask
  imports Firmware MqttClient RemoteLog
begin

text \<open>
  The MQTT task of the firmware (\<open>app/src/mqtt_task.rs\<close>) and the reconnection of \<open>app/src/net_util.rs\<close>. The
  channels and counters it shares with the other tasks are those of \<open>Firmware\<close>. One step is one turn of
  the task's loop: a turn takes at most one message from one channel and then starts again, or it receives
  one packet, so that it meets the other tasks at one point. The environment gives the attempts to
  connect, the signal of a new WiFi connection, and the number of turns \<open>recv\<close> may make.
\<close>

section \<open>State\<close>

text \<open>
  Where the task is: in its loop; waiting for room in a channel of the main loop; resting after an update has
  been handed over; or past a software reset.
\<close>

datatype MqttPhase =
  MP_Loop | MP_SendCommand Command | MP_SendPump u8 u32 | MP_SendOta rstr | MP_Rest | MP_Reset

record MqttTask =
  mt_client :: MqttClient
  last_scale_range :: "(TemperatureScale \<times> TempRange) option"
  last_sniff_mode :: bool
  last_wifi_rssi :: "32 word option"
  last_published_status :: "StatusUpdate option"
  last_published_fault :: "FaultBuf option"
  last_registration_state :: rstr
  mt_log :: "RemoteLogBuffer option"
  mt_phase :: MqttPhase

definition mqtt_task_new :: "MqttClient \<Rightarrow> RemoteLogBuffer option \<Rightarrow> MqttTask" where
  "mqtt_task_new c logbuf = \<lparr>mt_client = c, last_scale_range = None, last_sniff_mode = False, last_wifi_rssi = None,
     last_published_status = None, last_published_fault = None, last_registration_state = lit ''waiting_for_query'',
     mt_log = logbuf, mt_phase = MP_Loop\<rparr>"

definition is_celsius :: "(TemperatureScale \<times> TempRange) option \<Rightarrow> bool" where
  "is_celsius sr = (case sr of None \<Rightarrow> False | Some (s, _) \<Rightarrow> s = Celsius)"

definition build_last_state :: "MqttTask \<Rightarrow> LastState option" where
  "build_last_state t =
     map_option (\<lambda>s. \<lparr>ls_status = s, ls_fault = Option.bind (last_published_fault t) fault_buf_as_str,
       ls_sniff_mode = last_sniff_mode t, ls_wifi_rssi = last_wifi_rssi t,
       ls_registration_state = last_registration_state t\<rparr>) (last_published_status t)"

section \<open>Connecting\<close>

definition set_client :: "MqttTask \<Rightarrow> MqttClient \<Rightarrow> MqttTask" where
  "set_client t c = t\<lparr>mt_client := c\<rparr>"

text \<open>The first connection: at most ten attempts, then a reset.\<close>

fun connect_loop :: "nat \<Rightarrow> u32 \<Rightarrow> (u32 \<Rightarrow> Attempt) \<Rightarrow> u64 \<Rightarrow> MqttClient \<Rightarrow> (MqttClient \<times> u64 \<times> bool) outcome" where
  "connect_loop 0 attempt atts now c = Returns (c, now, False)"
| "connect_loop (Suc k) attempt atts now c =
     and_then (connect now (atts (attempt + 1)) c)
       (\<lambda>(c1, t, r). case r of
          Inr _ \<Rightarrow> Returns (c1, t, True)
        | Inl _ \<Rightarrow>
            if attempt + 1 \<ge> 10 then Returns (c1, t, False)
            else connect_loop k (attempt + 1) atts (t + backoff_secs (attempt + 1) * 1000000) c1)"

definition mqtt_task_start :: "(u32 \<Rightarrow> Attempt) \<Rightarrow> u64 \<Rightarrow> MqttTask \<Rightarrow> (MqttTask \<times> u64) outcome" where
  "mqtt_task_start atts now t =
     and_then (connect_loop 10 0 atts now (mt_client t))
       (\<lambda>(c1, t1, connected). if connected
          then and_then (post_connect_publish t1 False c1) (\<lambda>(c2, t2). Returns (set_client t c2, t2))
          else Returns ((set_client t c1)\<lparr>mt_phase := MP_Reset\<rparr>, t1))"

definition reconnect_alert :: "Env \<Rightarrow> rstr \<Rightarrow> u32 \<Rightarrow> Firmware \<Rightarrow> Firmware" where
  "reconnect_alert e message attempt fw =
     (let json = lit ''{\"level\":\"error\",\"message\":\"'' @ message @ lit ''\",\"attempts\":'' @ show_nat (unat attempt) @
            lit '',\"timestamp\":'' @ show_nat (unat (uptime e fw)) @ lit ''}''
      in fw\<lparr>ALERT_CHANNEL := fst (try_send e 4 (ALERT_CHANNEL fw) (as_bytes json))\<rparr>)"

text \<open>The reconnection: at most thirty attempts, with an alert after the third, at most one in a minute.\<close>

fun reconnect_loop ::
  "nat \<Rightarrow> u32 \<Rightarrow> u64 option \<Rightarrow> Env \<Rightarrow> (u32 \<Rightarrow> Attempt) \<Rightarrow> bool \<Rightarrow> LastState option \<Rightarrow> rstr \<Rightarrow> u64 \<Rightarrow> MqttClient \<Rightarrow> Firmware \<Rightarrow>
     (MqttClient \<times> Firmware \<times> u64 \<times> bool) outcome" where
  "reconnect_loop 0 attempt alerted e atts celsius ls message now c fw = Returns (c, fw, now, False)"
| "reconnect_loop (Suc k) attempt alerted e atts celsius ls message now c fw =
     (let attempt1 = attempt + 1 in
      and_then (reconnect_and_sync now (atts attempt1) celsius ls c)
       (\<lambda>(c1, t, r). case r of
          Inr _ \<Rightarrow> Returns (c1, fw, t, True)
        | Inl _ \<Rightarrow>
            let alert = attempt1 > 3 \<and> (case alerted of None \<Rightarrow> True | Some a \<Rightarrow> sat_sub t a \<ge> 60000000);
                fw1 = (if alert then reconnect_alert (e\<lparr>now_us := t\<rparr>) message attempt1 fw else fw);
                alerted1 = (if alert then Some t else alerted)
            in if attempt1 \<ge> 30 then Returns (c1, fw1, t, False)
               else reconnect_loop k attempt1 alerted1 e atts celsius ls message (t + backoff_secs attempt1 * 1000000) c1 fw1))"

definition reconnect_with_backoff ::
  "Env \<Rightarrow> (u32 \<Rightarrow> Attempt) \<Rightarrow> rstr \<Rightarrow> u64 \<Rightarrow> MqttTask \<Rightarrow> Firmware \<Rightarrow> (MqttTask \<times> Firmware \<times> u64) outcome" where
  "reconnect_with_backoff e atts message now t fw =
     and_then (reconnect_loop 30 0 None e atts (is_celsius (last_scale_range t)) (build_last_state t) message now (mt_client t) fw)
       (\<lambda>(c, fw1, now1, connected).
          Returns (if connected then set_client t c else (set_client t c)\<lparr>mt_phase := MP_Reset\<rparr>, fw1, now1))"

section \<open>Publishing what the channels hold\<close>

definition task_publish :: "u64 \<Rightarrow> rstr \<Rightarrow> u8 list \<Rightarrow> u8 \<Rightarrow> MqttTask \<Rightarrow> MqttTask" where
  "task_publish now topic p qos t = set_client t (fst (publish now topic p qos False (mt_client t)))"

definition handle_state :: "u64 \<Rightarrow> StateMessage \<Rightarrow> MqttTask \<Rightarrow> MqttTask" where
  "handle_state now msg t =
     (let status = sm_status msg; stale = sm_recovering_from_stale msg;
          t1 = t\<lparr>last_scale_range := Some (temperature_scale status, temp_range status)\<rparr>;
          mode_changed = sm_sniff_mode msg \<noteq> last_sniff_mode t;
          reg_changed = sm_registration_state msg \<noteq> last_registration_state t;
          t2 = (if mode_changed \<or> reg_changed then t1\<lparr>last_published_status := None\<rparr> else t1);
          t3 = t2\<lparr>last_sniff_mode := sm_sniff_mode msg, last_registration_state := sm_registration_state msg\<rparr>;
          changed = status_changed (last_published_status t3) status;
          rssi_changed = sm_wifi_rssi msg \<noteq> last_wifi_rssi t3;
          t4 = t3\<lparr>last_wifi_rssi := sm_wifi_rssi msg\<rparr>;
          t5 = (if stale \<or> changed \<or> rssi_changed
                then (let t' = t4\<lparr>last_published_status := Some status, last_published_fault := Some (sm_fault msg)\<rparr> in
                  set_client t' (fst (publish_state now status (fault_buf_as_str (sm_fault msg)) (sm_sniff_mode msg)
                    (sm_wifi_rssi msg) False (sm_registration_state msg) (mt_client t'))))
                else t4)
      in if stale then set_client t5 (fst (publish_availability_stale now (mt_client t5)))
         else set_client t5 (fst (publish_availability now True (mt_client t5))))"

definition MAX_LOG_ENTRIES_PER_ITER :: nat where "MAX_LOG_ENTRIES_PER_ITER = 3"

definition log_payload :: "LogEntry \<Rightarrow> u8 list" where
  "log_payload entry = as_bytes (log_entry_to_json
     \<lparr>rl_level = level entry, rl_message = log_message entry, rl_timestamp_ms = timestamp_ms entry\<rparr>)"

text \<open>The entries are published until one fails or the limit is reached.\<close>

fun publish_log :: "u64 \<Rightarrow> nat \<Rightarrow> LogEntry list \<Rightarrow> MqttClient \<Rightarrow> MqttClient" where
  "publish_log now i [] c = c"
| "publish_log now i (entry # es) c =
     (if i \<ge> MAX_LOG_ENTRIES_PER_ITER then c
      else case publish now (log_topic (client_topics c)) (log_payload entry) 0 False c of
        (c1, Inl _) \<Rightarrow> c1
      | (c1, Inr _) \<Rightarrow> publish_log now (i + 1) es c1)"

definition drain_log :: "u64 \<Rightarrow> RemoteLogBuffer \<Rightarrow> MqttTask \<Rightarrow> MqttTask" where
  "drain_log now buf t =
     (let (buf1, es) = app_log_drain buf in
      (set_client t (publish_log now 0 es (mt_client t)))\<lparr>mt_log := Some buf1\<rparr>)"

text \<open>
  The channels in the order the code looks at them; \<open>None\<close> if there was nothing to publish. The count of
  receives is a variable of the loop's body and zero whenever it is compared with its limit.
\<close>

definition channel_work :: "u64 \<Rightarrow> MqttTask \<Rightarrow> Firmware \<Rightarrow> (MqttTask \<times> Firmware) option" where
  "channel_work now t fw =
     (if \<not> is_connected (mt_client t) then None
      else
        let topics = client_topics (mt_client t) in
        case DIAGNOSTICS_CHANNEL fw of
          p # rest \<Rightarrow> Some (task_publish now (diagnostics_topic topics) p 0 t, fw\<lparr>DIAGNOSTICS_CHANNEL := rest\<rparr>)
        | [] \<Rightarrow> case ALERT_CHANNEL fw of
          p # rest \<Rightarrow> Some (task_publish now (alert_topic topics) p 1 t, fw\<lparr>ALERT_CHANNEL := rest\<rparr>)
        | [] \<Rightarrow> case SNIFF_CHANNEL fw of
          p # rest \<Rightarrow> Some (task_publish now (sniff_topic topics) p 0 t, fw\<lparr>SNIFF_CHANNEL := rest\<rparr>)
        | [] \<Rightarrow> case STATE_CHANNEL fw of
          msg # rest \<Rightarrow> Some (handle_state now msg t, fw\<lparr>STATE_CHANNEL := rest\<rparr>)
        | [] \<Rightarrow> case mt_log t of
          Some buf \<Rightarrow> if app_log_is_empty buf then None else Some (drain_log now buf t, fw)
        | None \<Rightarrow> None)"

section \<open>Messages\<close>

definition eq_ignore_ascii_case :: "rstr \<Rightarrow> rstr \<Rightarrow> bool" where
  "eq_ignore_ascii_case a b \<longleftrightarrow> map ascii_lower a = map ascii_lower b"

definition parse_sniff :: "u8 list \<Rightarrow> u16 option" where
  "parse_sniff p =
     (let payload_str = (case from_utf8 p of Some s \<Rightarrow> s | None \<Rightarrow> []) in
      if eq_ignore_ascii_case payload_str (lit ''OFF'') then None
      else case find_str payload_str (lit ''\"frames\"'') of
          None \<Rightarrow> None
        | Some pos \<Rightarrow>
            (case strip_prefix (trim_start (drop (pos + 8) payload_str)) [58] of
               None \<Rightarrow> None
             | Some r \<Rightarrow>
                 let s = trim_start r; digits = takeWhile is_digit s in
                 if digits = [] then None else map_option word_of_nat (parse_unsigned 65535 digits)))"

text \<open>What is done with a message. An update's address, and the commands, are sent on to the main loop.\<close>

definition handle_message :: "u64 \<Rightarrow> rstr \<Rightarrow> u8 list \<Rightarrow> MqttTask \<Rightarrow> MqttTask" where
  "handle_message now topic p t =
     (let c = mt_client t; cmd_base = command_topic (client_topics c) in
      if is_ota_topic c topic then
        (case parse_ota_url p of Some url \<Rightarrow> t\<lparr>mt_phase := MP_SendOta url\<rparr> | None \<Rightarrow> t)
      else if is_ha_status_topic topic then
        (if from_utf8 p = Some (lit ''online'') then
           let c1 = fst (publish_discovery now (is_celsius (last_scale_range t)) c) in
           set_client t (fst (publish_availability now True c1))
         else t)
      else if strip_prefix topic cmd_base = Some (lit ''/sniff'') then t\<lparr>mt_phase := MP_SendCommand (Sniff (parse_sniff p))\<rparr>
      else if strip_prefix topic cmd_base = Some (lit ''/reboot'') then t\<lparr>mt_phase := MP_SendCommand Reboot\<rparr>
      else
        let scale = map_option fst (last_scale_range t); rng = map_option snd (last_scale_range t) in
        case client_parse_command cmd_base topic p scale rng of
          Some (Action_Command cmd) \<Rightarrow>
            if (case cmd of SetTemperature _ \<Rightarrow> True | _ \<Rightarrow> False) then t\<lparr>mt_phase := MP_SendCommand cmd\<rparr>
            else
              let (c1, allowed_now) = check_rate_limit now c in
              if allowed_now then (set_client t c1)\<lparr>mt_phase := MP_SendCommand cmd\<rparr> else set_client t c1
        | Some (StartPumpTimer pump_no minutes) \<Rightarrow> t\<lparr>mt_phase := MP_SendPump pump_no minutes\<rparr>
        | None \<Rightarrow> t)"

text \<open>The messages after which the loop starts again at once, without counting the turn.\<close>

definition message_continues :: "rstr \<Rightarrow> MqttClient \<Rightarrow> bool" where
  "message_continues topic c \<longleftrightarrow>
     (let cmd_base = command_topic (client_topics c) in
      is_ota_topic c topic \<or> is_ha_status_topic topic \<or> strip_prefix topic cmd_base = Some (lit ''/sniff'') \<or>
      strip_prefix topic cmd_base = Some (lit ''/reboot''))"

section \<open>A turn\<close>

definition bump_tick :: "Firmware \<Rightarrow> Firmware" where
  "bump_tick fw = fw\<lparr>MQTT_TASK_TICK := MQTT_TASK_TICK fw + 1\<rparr>"

definition count_reconnect :: "bool \<Rightarrow> Firmware \<Rightarrow> Firmware" where
  "count_reconnect loss fw = fw\<lparr>MQTT_RECONNECT_COUNT := MQTT_RECONNECT_COUNT fw + 1,
     MQTT_LOSS_COUNT := MQTT_LOSS_COUNT fw + (if loss then 1 else 0)\<rparr>"

text \<open>Receiving, for one second at most. A command waits for room before the turn is counted.\<close>

definition receive_turn ::
  "Env \<Rightarrow> nat \<Rightarrow> (u32 \<Rightarrow> Attempt) \<Rightarrow> u64 \<Rightarrow> MqttTask \<Rightarrow> Firmware \<Rightarrow> (MqttTask \<times> Firmware) outcome" where
  "receive_turn e fuel atts now t fw =
     (case recv fuel (now + 1000000) now (mt_client t) of
        (c, t1, Recv_Running) \<Rightarrow> Waits
      | (c, t1, Recv_Cancelled) \<Rightarrow> Returns (set_client t c, bump_tick fw)
      | (c, t1, Recv_Message topic p) \<Rightarrow>
          let t' = handle_message t1 topic p (set_client t c) in
          Returns (t', if message_continues topic c \<or> mt_phase t' \<noteq> MP_Loop then fw else bump_tick fw)
      | (c, t1, Recv_Lost) \<Rightarrow>
          and_then (reconnect_with_backoff e atts (lit ''mqtt_reconnect_loop'') t1
              (set_client t (c\<lparr>last_disconnect := None\<rparr>)) (count_reconnect True fw))
            (\<lambda>(t', fw1, _). Returns (t', if mt_phase t' = MP_Reset then fw1 else bump_tick fw1)))"

definition mqtt_turn ::
  "Env \<Rightarrow> nat \<Rightarrow> bool \<Rightarrow> (u32 \<Rightarrow> Attempt) \<Rightarrow> (u32 \<Rightarrow> Attempt) \<Rightarrow> MqttTask \<Rightarrow> Firmware \<Rightarrow> (MqttTask \<times> Firmware) outcome" where
  "mqtt_turn e fuel wifi_signal wifi_atts atts t fw =
     and_then (if wifi_signal
               then reconnect_with_backoff e wifi_atts (lit ''wifi_reconnect_loop'') (now_us e) t (count_reconnect False fw)
               else Returns (t, fw, now_us e))
       (\<lambda>(t1, fw1, now). if mt_phase t1 = MP_Reset then Returns (t1, fw1)
          else case channel_work now t1 fw1 of
            Some (t2, fw2) \<Rightarrow> Returns (t2, fw2)
          | None \<Rightarrow> receive_turn (e\<lparr>now_us := now\<rparr>) fuel atts now t1 fw1)"

text \<open>
  A step of the task. A message for the main loop is put into its channel when there is room; a timer and
  a plain command then end the turn, the others go straight back to the loop.
\<close>

definition counted_command :: "Command \<Rightarrow> bool" where
  "counted_command cmd = (case cmd of Sniff _ \<Rightarrow> False | Reboot \<Rightarrow> False | _ \<Rightarrow> True)"

definition mqtt_step ::
  "Env \<Rightarrow> nat \<Rightarrow> bool \<Rightarrow> (u32 \<Rightarrow> Attempt) \<Rightarrow> (u32 \<Rightarrow> Attempt) \<Rightarrow> MqttTask \<Rightarrow> Firmware \<Rightarrow> (MqttTask \<times> Firmware) outcome" where
  "mqtt_step e fuel wifi_signal wifi_atts atts t fw =
     (case mt_phase t of
        MP_Loop \<Rightarrow> mqtt_turn e fuel wifi_signal wifi_atts atts t fw
      | MP_SendCommand cmd \<Rightarrow>
          (case try_send e 4 (COMMAND_CHANNEL fw) cmd of
             (ch, True) \<Rightarrow>
               let fw1 = fw\<lparr>COMMAND_CHANNEL := ch\<rparr> in
               Returns (t\<lparr>mt_phase := MP_Loop\<rparr>, if counted_command cmd then bump_tick fw1 else fw1)
           | (_, False) \<Rightarrow> Returns (t, fw))
      | MP_SendPump i m \<Rightarrow>
          (case try_send e 4 (PUMP_TIMER_CHANNEL fw) (i, m) of
             (ch, True) \<Rightarrow> Returns (t\<lparr>mt_phase := MP_Loop\<rparr>, bump_tick (fw\<lparr>PUMP_TIMER_CHANNEL := ch\<rparr>))
           | (_, False) \<Rightarrow> Returns (t, fw))
      | MP_SendOta url \<Rightarrow>
          (case try_send e 1 (OTA_CHANNEL fw) url of
             (ch, True) \<Rightarrow> Returns (t\<lparr>mt_phase := MP_Rest\<rparr>, fw\<lparr>OTA_CHANNEL := ch\<rparr>)
           | (_, False) \<Rightarrow> Returns (t, fw))
      | MP_Rest \<Rightarrow> Returns (t, fw)
      | MP_Reset \<Rightarrow> Returns (t, fw))"

end
