(* ===== verification/MqttClientProperties.thy ===== *)
theory MqttClientProperties
  imports MqttClient
begin

text \<open>
  What the MQTT client promises: a published message comes out of \<open>recv\<close> as it was sent, however the
  network cut it; a Celsius set point stays within half a degree of its range; a subscription skips what
  comes before its answer. And where it fails: a length that wraps around stops \<open>recv\<close> for good.
\<close>

section \<open>Frame rules of sending\<close>

lemma send_bytes_ok:
  "mq_transport c = Some sk \<Longrightarrow> sk_write_ok sk (sk_writes sk) \<Longrightarrow>
     send_bytes now data c =
       (c\<lparr>mq_transport := Some (sk\<lparr>sk_writes := sk_writes sk + 1, sk_sent := sk_sent sk @ [data]\<rparr>), last_outgoing := now\<rparr>, Inr ())"
  by (simp add: send_bytes_def)

lemma maybe_ping_not_due:
  assumes "mq_keep_alive c = DEFAULT_KEEP_ALIVE_SECS" and "last_outgoing c \<le> now"
    and "unat now < unat (last_outgoing c) + 15000000"
  shows "maybe_ping now c = (c, Inr False)"
proof -
  have "unat (now - last_outgoing c) < 15000000"
    using assms(2,3) by (simp add: unat_sub word_le_nat_alt)
  then have "\<not> 15000000 \<le> now - last_outgoing c" by (simp add: word_le_nat_alt)
  then show ?thesis
    using assms(1,2) by (simp add: maybe_ping_def sat_sub_def DEFAULT_KEEP_ALIVE_SECS_def Let_def)
qed

section \<open>A message through \<open>recv\<close>\<close>

lemma process_publish_split:
  assumes "decode_remaining_length (pre @ rest) = Some (v, length pre)" and "pre \<noteq> []"
  shows "process_publish now (pre @ rest) c =
    (if length rest < 2 then (c, None)
     else let k = 2 + unat (from_be16 (rest ! 0) (rest ! 1)) in
       if length rest < k then (c, None)
       else let topic = (case from_utf8 (take (k - 2) (drop 2 rest)) of Some t \<Rightarrow> t | None \<Rightarrow> []) in
         if drop_bit 1 (hd pre) AND 0x03 > 0 then
           if length rest < k + 2 then (c, None)
           else (fst (send_bytes now (encode_puback (from_be16 (rest ! k) (rest ! (k + 1)))) c),
             Some (Some (topic, drop (k + 2) rest)))
         else (c, Some (Some (topic, drop k rest))))"
  using assms by (simp add: process_publish_def nth_append Let_def numeral_eq_Suc)

lemma process_publish_rest:
  assumes "list_all scalar_value topic" and "length (as_bytes topic) < 2 ^ 16" and "qos \<le> 1"
    and "(packet_id = None) = (qos = 0)" and "length (publish_rest topic p packet_id) < 2 ^ 28"
  shows "process_packets now (mqtt_packet (publish_type qos retain) (publish_rest topic p packet_id)) c =
    ((case packet_id of Some i \<Rightarrow> fst (send_bytes now (encode_puback i) c) | None \<Rightarrow> c), Some (Some (topic, p)))"
proof -
  let ?n = "word_of_nat (length (as_bytes topic)) :: u16"
  let ?ty = "publish_type qos retain" and ?b = "publish_rest topic p packet_id"
  let ?pre = "?ty # encode_remaining_length (length ?b)"
  obtain a b where ab: "be16 ?n = [a, b]" by (simp add: be16_def)
  have "from_be16 a b = ?n" using from_be16_be16 [of ?n] ab by simp
  then have n: "unat (from_be16 a b) = length (as_bytes topic)" using assms(2) by (simp add: unat_of_nat)
  note q = publish_type_bits [OF assms(3), of retain]
  have s: "mqtt_packet ?ty ?b = ?pre @ ?b" by (simp add: mqtt_packet_def)
  have "decode_remaining_length (?pre @ ?b) = Some (word_of_nat (length ?b), length ?pre)"
    using decode_encode_remaining_length [OF assms(5), of ?ty ?b] by simp
  note split = process_publish_split [OF this]
  have p: "process_packets now (?pre @ ?b) c = process_publish now (?pre @ ?b) c"
    using q by (simp add: process_packets_def)
  show ?thesis
  proof (cases packet_id)
    case None
    then show ?thesis
      unfolding s p using split assms(4) q n from_utf8_as_bytes [OF assms(1)]
      by (simp add: publish_rest_def ab)
  next
    case (Some i)
    obtain e f where ef: "be16 i = [e, f]" by (simp add: be16_def)
    then have "from_be16 e f = i" using from_be16_be16 [of i] by simp
    then show ?thesis
      unfolding s p using Some split assms(4) q n from_utf8_as_bytes [OF assms(1)]
      by (simp add: publish_rest_def ab ef nth_append word_gt_0)
  qed
qed

text \<open>The time that passes while so many pieces are read: a millisecond for each.\<close>

definition after_reads :: "u64 \<Rightarrow> nat \<Rightarrow> u64" where
  "after_reads now k = now + word_of_nat (1000 * k)"

definition with_reads :: "(u64 \<times> sock_result) list \<Rightarrow> MqttClient \<Rightarrow> MqttClient" where
  "with_reads rs c = c\<lparr>mq_transport := map_option (\<lambda>sk. sk\<lparr>sk_reads := rs\<rparr>) (mq_transport c)\<rparr>"

text \<open>Pieces that have arrived, as entries of the socket's script.\<close>

fun arrivals :: "(u64 \<times> u8 list) list \<Rightarrow> (u64 \<times> sock_result) list" where
  "arrivals [] = []"
| "arrivals ((t, d) # ds) = (t, Read_Data d) # arrivals ds"

text \<open>One turn of the loop that reads a piece.\<close>

lemma recv_loop_read:
  assumes "maybe_ping now c = (c, Inr False)" and "try_extract_packet (rx_buffer c) = (rx_buffer c, None)"
    and "mq_transport c = Some sk" and "sk_reads sk = (t, Read_Data d) # rest" and "t \<le> now + 1000"
    and "d \<noteq> []" and "length d \<le> MQTT_RECV_BUF_SIZE" and "length (rx_buffer c) + length d \<le> RX_BUFFER_MAX_SIZE"
    and "now + 1000 < until" and "now + 1000 \<le> now + 1000 + (ucast (mq_keep_alive c) div 2) * 1000000"
  shows "recv_loop (Suc n) until now retries c =
    recv_loop n until (now + 1000) 0 ((with_reads rest c)\<lparr>rx_buffer := rx_buffer c @ d\<rparr>)"
proof -
  have m: "max t (now + 1000) = now + 1000" using assms(5) by (rule max_absorb2)
  have "now + 1000 \<le> min until (now + 1000 + (ucast (mq_keep_alive c) div 2) * 1000000)"
    using assms(9,10) by simp
  moreover have "\<not> until \<le> now + 1000" using assms(9) by (simp add: not_le)
  ultimately show ?thesis
    using assms(1-4,6-8) by (simp add: Let_def with_reads_def m del: max.bounded_iff min.bounded_iff min_less_iff_conj)
qed

lemma with_reads_simps [simp]:
  "rx_buffer (with_reads rs c) = rx_buffer c" "mq_keep_alive (with_reads rs c) = mq_keep_alive c"
  "last_outgoing (with_reads rs c) = last_outgoing c"
  "mq_transport c = Some sk \<Longrightarrow> mq_transport (with_reads rs c) = Some (sk\<lparr>sk_reads := rs\<rparr>)"
  "with_reads rs (c\<lparr>rx_buffer := b\<rparr>) = (with_reads rs c)\<lparr>rx_buffer := b\<rparr>"
  "with_reads rs (with_reads rs' c) = with_reads rs c"
  by (simp_all add: with_reads_def option.map_comp comp_def)

text \<open>
  The pieces of a packet, read one after the other, and the packet then processed. The clock is far from
  its end, no ping becomes due and the caller does not give up before.
\<close>

lemma recv_loop_pieces:
  assumes "length body < 2 ^ 28" and "length (mqtt_packet ty body) \<le> RX_BUFFER_MAX_SIZE"
    and "mq_keep_alive c = DEFAULT_KEEP_ALIVE_SECS"
    and "mq_transport c = Some sk" and "sk_reads sk = arrivals ds @ rest"
    and "\<And>t d. (t, d) \<in> set ds \<Longrightarrow> t \<le> now \<and> d \<noteq> [] \<and> length d \<le> MQTT_RECV_BUF_SIZE"
    and "rx_buffer c @ concat (map snd ds) = mqtt_packet ty body"
    and "last_outgoing c \<le> now" and "unat now + 1000 * length ds < unat (last_outgoing c) + 15000000"
    and "unat now + 1000 * length ds < unat until" and "unat now + 1000 * length ds + 15000000 < 2 ^ 64"
  shows "\<exists>r. recv_loop (n + Suc (length ds)) until now retries c =
    recv_loop (Suc n) until (after_reads now (length ds)) r
      ((with_reads rest c)\<lparr>rx_buffer := mqtt_packet ty body\<rparr>)"
  using assms(3-)
proof (induction ds arbitrary: now c sk retries)
  case Nil
  then have "with_reads rest c = c" by (cases c) (simp add: with_reads_def)
  moreover have "c\<lparr>rx_buffer := mqtt_packet ty body\<rparr> = c" using Nil by simp
  ultimately show ?case by (auto simp: after_reads_def simp del: recv_loop.simps)
next
  case (Cons x ds)
  obtain t d where x: "x = (t, d)" by (cases x)
  let ?c = "(with_reads (arrivals ds @ rest) c)\<lparr>rx_buffer := rx_buffer c @ d\<rparr>"
  have d: "t \<le> now" "d \<noteq> []" "length d \<le> MQTT_RECV_BUF_SIZE" using Cons.prems(4) [of t d] x by simp_all
  have whole: "rx_buffer c @ d @ concat (map snd ds) = mqtt_packet ty body" using Cons.prems(5) x by simp
  have step: "unat (now + 1000) = unat now + 1000"
    using Cons.prems(9) by (subst unat_add_lem [THEN iffD1]) simp_all
  have far: "unat (now + 1000 + 15000000) = unat now + 1000 + 15000000"
    using Cons.prems(9) step by (subst unat_add_lem [THEN iffD1]) simp_all
  have part: "try_extract_packet (rx_buffer c) = (rx_buffer c, None)"
  proof -
    have "rx_buffer c = take (length (rx_buffer c)) (mqtt_packet ty body)" by (simp flip: whole)
    moreover have "length (rx_buffer c) < length (mqtt_packet ty body)" using d(2) by (simp flip: whole)
    ultimately show ?thesis using try_extract_incomplete [OF assms(1), of "length (rx_buffer c)" ty] by simp
  qed
  have fits: "length (rx_buffer c) + length d \<le> RX_BUFFER_MAX_SIZE"
    using assms(2) by (simp flip: whole)
  have "recv_loop (Suc (n + Suc (length ds))) until now retries c =
      recv_loop (n + Suc (length ds)) until (now + 1000) 0 ?c"
  proof (rule recv_loop_read [OF _ part Cons.prems(2) _ _ d(2,3) fits])
    show "maybe_ping now c = (c, Inr False)"
      using Cons.prems by (intro maybe_ping_not_due) simp_all
    show "sk_reads sk = (t, Read_Data d) # arrivals ds @ rest"
      using Cons.prems(3) x by simp
    show "t \<le> now + 1000" using d(1) step by (simp add: word_le_nat_alt)
    show "now + 1000 < until" using Cons.prems(8) step by (simp add: word_less_nat_alt)
    show "now + 1000 \<le> now + 1000 + (ucast (mq_keep_alive c) div 2) * 1000000"
      using Cons.prems(1) far step by (simp add: DEFAULT_KEEP_ALIVE_SECS_def word_le_nat_alt)
  qed
  moreover obtain r where "recv_loop (n + Suc (length ds)) until (now + 1000) 0 ?c =
      recv_loop (Suc n) until (after_reads (now + 1000) (length ds)) r
        ((with_reads rest ?c)\<lparr>rx_buffer := mqtt_packet ty body\<rparr>)"
  proof -
    have "\<exists>r. recv_loop (n + Suc (length ds)) until (now + 1000) 0 ?c =
      recv_loop (Suc n) until (after_reads (now + 1000) (length ds)) r
        ((with_reads rest ?c)\<lparr>rx_buffer := mqtt_packet ty body\<rparr>)"
    proof (rule Cons.IH [of ?c "sk\<lparr>sk_reads := arrivals ds @ rest\<rparr>" "now + 1000"])
      fix t' d' assume "(t', d') \<in> set ds"
      then have "t' \<le> now \<and> d' \<noteq> [] \<and> length d' \<le> MQTT_RECV_BUF_SIZE"
        using Cons.prems(4) [of t' d'] by simp
      then show "t' \<le> now + 1000 \<and> d' \<noteq> [] \<and> length d' \<le> MQTT_RECV_BUF_SIZE"
        using step by (simp add: word_le_nat_alt)
    qed (use Cons.prems step whole in \<open>simp_all add: word_le_nat_alt\<close>)
    then show ?thesis using that by blast
  qed
  moreover have "after_reads (now + 1000) (length ds) = after_reads now (length (x # ds))"
    by (simp add: after_reads_def algebra_simps)
  ultimately show ?case by (auto simp del: recv_loop.simps)
qed

lemma after_reads_value:
  "unat now + 1000 * k < 2 ^ 64 \<Longrightarrow> unat (after_reads now k) = unat now + 1000 * k"
  by (simp add: after_reads_def unat_word_ariths unat_of_nat mod_add_right_eq)

lemma recv_loop_packet:
  assumes "maybe_ping now c = (c, Inr False)" and "length body < 2 ^ 28" and "rx_buffer c = mqtt_packet ty body"
    and "process_packets now (mqtt_packet ty body) (c\<lparr>rx_buffer := []\<rparr>) = (c', Some (Some (topic, p)))"
  shows "recv_loop (Suc n) until now retries c = (c', now, Recv_Message topic p)"
  using assms(1,3,4) try_extract_complete [OF assms(2), of ty "[]"] by (simp add: Let_def)

section \<open>Set points\<close>

lemma f32_to_u8_floor:
  assumes "0 \<le> y" and "y \<le> 255"
  shows "of_nat (unat (f32_to_u8 (F32_Fin y))) \<le> y" and "y < of_nat (unat (f32_to_u8 (F32_Fin y))) + 1"
proof -
  have "0 \<le> \<lfloor>y\<rfloor>" "\<lfloor>y\<rfloor> \<le> 255" using assms by (simp_all add: floor_le_iff)
  then have "int (unat (word_of_int \<lfloor>y\<rfloor> :: u8)) = \<lfloor>y\<rfloor>" by (simp add: uint_word_of_int)
  then have "of_nat (unat (word_of_int \<lfloor>y\<rfloor> :: u8)) = (of_int \<lfloor>y\<rfloor> :: rat)" by (metis of_int_of_nat_eq)
  then show "of_nat (unat (f32_to_u8 (F32_Fin y))) \<le> y" "y < of_nat (unat (f32_to_u8 (F32_Fin y))) + 1"
    using assms floor_correct [of y] by (simp_all add: not_less)
qed

lemma set_temperature_payload:
  assumes "parse_command b topic p = Valid (SetTemperature t)"
  obtains s x where "from_utf8 p = Some s" and "parse_f32 s = Some (F32_Fin x)" and "0 \<le> x" and "x \<le> 255"
    and "t = f32_to_u8 (f32_add (F32_Fin x) (F32_Fin (1 / 2)))"
proof -
  obtain st s where s: "from_utf8 p = Some s" "parse_subtopic st s = Valid (SetTemperature t)"
    using parse_command_subtopic [OF assms] by blast
  from s(2) have "parse_set_temperature s = Valid (SetTemperature t)"
    unfolding parse_subtopic_def
    by (auto simp: parse_pump_timer_not_Valid split: if_splits option.splits
        dest: parse_toggle_Valid parse_set_time_Valid parse_set_preference_Valid)
  then obtain f where f: "parse_f32 s = Some f" "f \<noteq> F32_NaN" "f32_in_range f 0 255"
    "t = f32_to_u8 (f32_add f (F32_Fin (1 / 2)))"
    by (auto simp: parse_set_temperature_def Let_def split: option.splits if_splits)
  obtain x where "f = F32_Fin x" "0 \<le> x" "x \<le> 255"
    using f(2,3) by (cases f) (auto simp: f32_in_range_def)
  with s f that show ?thesis by blast
qed

lemma rounded_value_near:
  assumes "0 \<le> x" and "x \<le> 255" and "t = f32_to_u8 (f32_add (F32_Fin x) (F32_Fin (1 / 2)))"
    and "10 \<le> unat t" and "unat t \<le> 40"
  shows "0 < x \<and> x \<le> 100"
proof -
  obtain y where y: "round_f32 (x + 1 / 2) = F32_Fin y" "\<bar>y - (x + 1 / 2)\<bar> \<le> 1 / 4096"
    by (rule round_f32_error [of "x + 1 / 2"]) (use assms in auto)
  have t: "t = f32_to_u8 (F32_Fin y)" using assms(3) y by simp
  have "0 \<le> y" using y(2) assms(1) by linarith
  moreover have "y \<le> 255"
  proof (rule ccontr)
    assume "\<not> y \<le> 255"
    then have "t = 255" using t \<open>0 \<le> y\<close> by simp
    then show False using assms(5) by simp
  qed
  moreover note f32_to_u8_floor [OF calculation, folded t]
  moreover have "(10 :: rat) \<le> of_nat (unat t)" "of_nat (unat t) \<le> (40 :: rat)"
    using assms(4,5) by (metis of_nat_le_iff of_nat_numeral)+
  ultimately show ?thesis using y(2) by linarith
qed

lemma celsius_wire_value:
  assumes "0 < x" and "x \<le> 100"
    and "t = f32_to_u8 (f32_add (F32_Fin x) (F32_Fin (1 / 2)))"
    and "w = f32_to_u8 (f32_add (f32_mul (F32_Fin x) (F32_Fin 2)) (F32_Fin (1 / 2)))"
  shows "2 * unat t \<le> unat w + 1" and "unat w \<le> 2 * unat t + 1"
proof -
  obtain y where y: "round_f32 (x + 1 / 2) = F32_Fin y" "\<bar>y - (x + 1 / 2)\<bar> \<le> 1 / 4096"
    by (rule round_f32_error [of "x + 1 / 2"]) (use assms in auto)
  obtain u where u: "round_f32 (x * 2) = F32_Fin u" "\<bar>u - x * 2\<bar> \<le> 1 / 4096"
    by (rule round_f32_error [of "x * 2"]) (use assms in auto)
  have "0 < u + 1 / 2" "u + 1 / 2 < 2048" using u(2) assms by linarith+
  then obtain z where z: "round_f32 (u + 1 / 2) = F32_Fin z" "\<bar>z - (u + 1 / 2)\<bar> \<le> 1 / 4096"
    by (rule round_f32_error)
  have t: "t = f32_to_u8 (F32_Fin y)" and w: "w = f32_to_u8 (F32_Fin z)" using assms y u z by simp_all
  have "0 \<le> y" "y \<le> 255" "0 \<le> z" "z \<le> 255" using y(2) u(2) z(2) assms(1,2) by linarith+
  note floor = f32_to_u8_floor [OF this(1,2), folded t] f32_to_u8_floor [OF this(3,4), folded w]
  have "2 * of_nat (unat t) < (of_nat (unat w) :: rat) + 2" "of_nat (unat w) < 2 * (of_nat (unat t) :: rat) + 2"
    using floor y(2) u(2) z(2) by linarith+
  then have "of_nat (2 * unat t) < (of_nat (unat w + 2) :: rat)" "of_nat (unat w) < (of_nat (2 * unat t + 2) :: rat)"
    by (simp_all del: of_nat_unat)
  then have "2 * unat t < unat w + 2" "unat w < 2 * unat t + 2" by (simp_all only: of_nat_less_iff)
  then show "2 * unat t \<le> unat w + 1" "unat w \<le> 2 * unat t + 1" by simp_all
qed

lemma set_point_in_bounds:
  assumes "client_parse_command base topic p (Some scale) (Some rng) = Some (Action_Command (SetTemperature w))"
  shows "(let lo = unat (fst (temp_limits scale rng)); hi = unat (snd (temp_limits scale rng)) in
    case scale of Fahrenheit \<Rightarrow> lo \<le> unat w \<and> unat w \<le> hi
    | Celsius \<Rightarrow> 2 * lo \<le> unat w + 1 \<and> unat w \<le> 2 * hi + 1)"
proof -
  obtain t v where t: "parse_command base topic p = Valid (SetTemperature t)"
    "validate_set_temperature t scale rng = Inr v"
    using assms by (auto simp: client_parse_command_def split: ParseResult.splits Command.splits sum.splits)
  have limits: "unat (fst (temp_limits scale rng)) \<le> unat t" "unat t \<le> unat (snd (temp_limits scale rng))"
    using t(2) by (auto simp: validate_set_temperature_def Let_def word_le_nat_alt word_less_nat_alt not_less
        split: prod.splits if_splits)
  obtain s x where x: "from_utf8 p = Some s" "parse_f32 s = Some (F32_Fin x)" "0 \<le> x" "x \<le> 255"
    "t = f32_to_u8 (f32_add (F32_Fin x) (F32_Fin (1 / 2)))"
    using set_temperature_payload [OF t(1)] .
  show ?thesis
  proof (cases scale)
    case Fahrenheit
    then have "w = t" using assms t by (simp add: client_parse_command_def)
    then show ?thesis using limits Fahrenheit by (simp add: Let_def)
  next
    case Celsius
    have w: "w = f32_to_u8 (f32_add (f32_mul (F32_Fin x) (F32_Fin 2)) (F32_Fin (1 / 2)))"
      using assms t x(1,2) Celsius by (simp add: client_parse_command_def Let_def)
    have "10 \<le> unat t" "unat t \<le> 40" using limits Celsius by (cases rng; simp)+
    then have "0 < x" "x \<le> 100" using rounded_value_near [OF x(3-5)] by simp_all
    from celsius_wire_value [OF this x(5) w] limits Celsius show ?thesis by (simp add: Let_def)
  qed
qed

section \<open>Waiting for the answer to a subscription\<close>

definition left_over :: "u64 \<Rightarrow> u8 list \<Rightarrow> (u64 \<times> sock_result) list \<Rightarrow> (u64 \<times> sock_result) list" where
  "left_over t b rest = (if b = [] then rest else (t, Read_Data b) # rest)"

lemma read_exact_take:
  assumes "mq_transport c = Some sk" and "sk_reads sk = left_over t (a @ b) rest" and "a \<noteq> []"
    and "t \<le> now" and "now < now + 5000000"
  shows "read_exact now (length a) (length a) c = Returns (with_reads (left_over t b rest) c, now, Inr a)"
proof -
  have m: "max t now = now" using assms(4) by (rule max_absorb2)
  have "read_loop d now (length a) (length a) a rs = Returns (rs, now, Inr a)" for d rs
    by (cases rs) auto
  then show ?thesis
    using assms by (auto simp: read_exact_def left_over_def m with_reads_def Let_def not_le)
qed

lemma read_exact_one:
  assumes "mq_transport c = Some sk" and "sk_reads sk = left_over t (x # b) rest" and "t \<le> now" and "now < now + 5000000"
  shows "read_exact now 1 1 c = Returns (with_reads (left_over t b rest) c, now, Inr [x])"
  using read_exact_take [OF assms(1) _ _ assms(3,4), of "[x]" b rest] assms(2) by simp

lemma short_length:
  assumes "n < 128"
  shows "encode_remaining_length n = [word_of_nat n]" and "(word_of_nat n :: u8) AND 0x80 = 0"
    and "length_value [word_of_nat n] = n"
proof -
  show "encode_remaining_length n = [word_of_nat n]" using assms by (subst encode_remaining_length.simps) simp
  have n: "unat (word_of_nat n :: u8) = n" using assms by (simp add: unat_of_nat)
  have "h < 128 \<longrightarrow> h AND 0x7F = h \<and> h AND 0x80 = 0" for h :: u8
    by (rule all_u8 [of _ h]) (simp add: nibbles_def)
  moreover have "(word_of_nat n :: u8) < 128" using n assms by (simp add: word_less_nat_alt)
  ultimately have "(word_of_nat n :: u8) AND 0x7F = word_of_nat n \<and> (word_of_nat n :: u8) AND 0x80 = 0" by blast
  then show "length_value [word_of_nat n] = n" "(word_of_nat n :: u8) AND 0x80 = 0"
    using n by (simp_all add: length_value_def enumerate_eq_zip)
qed

lemma with_reads_transport: "mq_transport c = Some sk \<Longrightarrow> sk_reads sk = rs \<Longrightarrow> with_reads rs c = c"
  by (cases c) (auto simp: with_reads_def)

lemma read_packet_short:
  assumes "mq_transport c = Some sk" and "sk_reads sk = left_over t (mqtt_packet ty body @ b) rest"
    and "length body < 128" and "t \<le> now" and "now < now + 5000000"
  shows "read_packet now c = Returns (with_reads (left_over t b rest) c, now, Inr (ty, [word_of_nat (length body)], body))"
proof -
  let ?n = "word_of_nat (length body) :: u8"
  note short = short_length [OF assms(3)]
  have p: "mqtt_packet ty body = ty # ?n # body" using short by (simp add: mqtt_packet_def)
  let ?c1 = "with_reads (left_over t (?n # body @ b) rest) c" and ?c2 = "with_reads (left_over t (body @ b) rest) c"
  have one: "read_exact now 1 1 c = Returns (?c1, now, Inr [ty])"
    using read_exact_one [OF assms(1) _ assms(4,5)] assms(2) p by simp
  have "read_exact now 1 1 ?c1 = Returns (?c2, now, Inr [?n])"
    using read_exact_one [of ?c1 _ t ?n "body @ b" rest, OF _ _ assms(4,5)] assms(1) by simp
  then have two: "read_length 4 [] now ?c1 = Returns (?c2, now, Inr [?n])"
    using short(2) by (simp add: eval_nat_numeral)
  have three: "read_exact now (length body) (length body) ?c2 = Returns (with_reads (left_over t b rest) c, now, Inr body)"
    if "body \<noteq> []" using read_exact_take [of ?c2 _ t body b rest, OF _ _ that assms(4,5)] assms(1) by simp
  show ?thesis
    using one two three short(3) assms(3) by (cases "body = []") (simp_all add: read_packet_def)
qed

lemma parse_suback_granted:
  assumes "g \<noteq> 0x80"
  shows "parse_suback (mqtt_packet HEADER_SUBACK (be16 k @ [g])) k = Some (Inr ())"
proof -
  obtain a b where ab: "be16 k = [a, b]" by (simp add: be16_def)
  then have "from_be16 a b = k" using from_be16_be16 [of k] by simp
  moreover have "mqtt_packet HEADER_SUBACK (be16 k @ [g]) = [0x90, 3, a, b, g]"
    by (simp add: mqtt_packet_def short_length ab HEADER_SUBACK_def)
  ultimately show ?thesis
    using assms by (simp add: parse_suback_def decode_remaining_length_def decode_loop.simps slice_range_def
        suback_payload_def)
qed

fun skipped :: "u8 \<times> u8 list \<Rightarrow> bool" where
  "skipped (ty, body) \<longleftrightarrow> ty \<noteq> HEADER_SUBACK \<and> drop_bit 4 ty \<noteq> 12 \<and> length body < 128"

lemma suback_loop_skips:
  assumes "mq_transport c = Some sk"
    and "sk_reads sk = left_over t (concat (map (\<lambda>(ty, body). mqtt_packet ty body) ps) @
      mqtt_packet HEADER_SUBACK (be16 k @ [g]) @ b) rest"
    and "list_all skipped ps" and "length ps \<le> m" and "g \<noteq> 0x80" and "t \<le> now" and "now < now + 5000000"
  shows "suback_loop m k now c = Returns ((with_reads (left_over t b rest) c)\<lparr>last_outgoing := now\<rparr>, now, Inr ())"
  using assms(1-4)
proof (induction ps arbitrary: m c sk)
  case Nil
  have short: "length (be16 k @ [g]) < 128" by (simp add: be16_def)
  have "read_packet now c = Returns (with_reads (left_over t b rest) c, now,
      Inr (HEADER_SUBACK, [word_of_nat (length (be16 k @ [g]))], be16 k @ [g]))"
    using read_packet_short [OF Nil.prems(1) _ short assms(6,7)] Nil.prems(2) by simp
  moreover have "[HEADER_SUBACK] @ [word_of_nat (length (be16 k @ [g]))] @ be16 k @ [g] =
      mqtt_packet HEADER_SUBACK (be16 k @ [g])"
    using short_length(1) [OF short] by (simp add: mqtt_packet_def)
  ultimately show ?case
    using parse_suback_granted [OF assms(5), of k] by (cases m) (simp_all del: append.simps append_Cons)
next
  case (Cons p ps)
  obtain ty body where p: "p = (ty, body)" by (cases p)
  obtain m' where m: "m = Suc m'" using Cons.prems(4) by (cases m) auto
  let ?r = "concat (map (\<lambda>(ty, body). mqtt_packet ty body) ps) @ mqtt_packet HEADER_SUBACK (be16 k @ [g]) @ b"
  let ?c = "with_reads (left_over t ?r rest) c"
  have s: "ty \<noteq> HEADER_SUBACK" "drop_bit 4 ty \<noteq> 12" "length body < 128" using Cons.prems(3) p by simp_all
  have "read_packet now c = Returns (?c, now, Inr (ty, [word_of_nat (length body)], body))"
    using read_packet_short [OF Cons.prems(1) _ s(3) assms(6,7), of ty ?r rest] Cons.prems(2) p by simp
  then have "suback_loop m k now c = suback_loop m' k now ?c" using s m by simp
  also have "\<dots> = Returns ((with_reads (left_over t b rest) ?c)\<lparr>last_outgoing := now\<rparr>, now, Inr ())"
    by (rule Cons.IH [of ?c "sk\<lparr>sk_reads := left_over t ?r rest\<rparr>"]) (use Cons.prems m in simp_all)
  finally show ?case by simp
qed

text \<open>
  The five seconds of \<open>read_exact\<close> are looked at between two reads only: a broker that takes the connection
  and says nothing is waited for without end.
\<close>

lemma silent_broker_waits:
  assumes "at_resolved att" and "at_socket att = Some sk" and "sk_write_ok sk (sk_writes sk)" and "sk_reads sk = []"
    and "now < now + 5000000"
  shows "connect now att c = Waits"
  using assms by (simp add: connect_def send_connect_def send_bytes_ok read_exact_def Let_def not_le)

section \<open>Properties\<close>

text \<open>
  Property C11: a message published to the client arrives as it was sent. The bytes of an encoded PUBLISH
  packet of at most 2048 bytes, cut into any pieces that the socket's read buffer holds, come out of
  \<open>recv\<close> as the topic and the payload they were made of, after one turn for each piece and one more; the
  packet leaves the buffer, the bytes that follow stay in the socket, and a message of quality of service
  1 is acknowledged with its packet identifier. That is as long as no ping is due meanwhile and the caller waits.
\<close>

theorem client_receives_publish:
  assumes "encode_publish topic p qos retain packet_id = Inr packet" and "qos \<le> 1"
    and "(packet_id = None) = (qos = 0)" and "list_all scalar_value topic"
    and "length (as_bytes topic) < 2 ^ 16" and "length packet \<le> RX_BUFFER_MAX_SIZE"
    and "concat (map snd ds) = packet"
    and "\<And>t d. (t, d) \<in> set ds \<Longrightarrow> t \<le> now \<and> d \<noteq> [] \<and> length d \<le> MQTT_RECV_BUF_SIZE"
    and "mq_keep_alive c = DEFAULT_KEEP_ALIVE_SECS" and "rx_buffer c = []" and "mq_transport c = Some sk"
    and "sk_reads sk = arrivals ds @ rest" and "sk_write_ok sk (sk_writes sk)"
    and "last_outgoing c \<le> now" and "unat now + 1000 * length ds < unat (last_outgoing c) + 15000000"
    and "unat now + 1000 * length ds < unat until" and "unat now + 1000 * length ds + 15000000 < 2 ^ 64"
  shows "\<exists>c' sk'. recv (n + Suc (length ds)) until now c = (c', after_reads now (length ds), Recv_Message topic p) \<and>
    rx_buffer c' = [] \<and> mq_transport c' = Some sk' \<and> sk_reads sk' = rest \<and>
    sk_sent sk' = sk_sent sk @ (case packet_id of Some i \<Rightarrow> [encode_puback i] | None \<Rightarrow> [])"
proof -
  let ?ty = "publish_type qos retain" and ?b = "publish_rest topic p packet_id"
  have packet: "packet = mqtt_packet ?ty ?b" using encode_publish_packet [OF assms(2,3)] assms(1) by simp
  have small: "length ?b < 2 ^ 28"
    using assms(6) length_mqtt_packet [of ?ty ?b] by (simp add: packet RX_BUFFER_MAX_SIZE_def)
  obtain r where "recv_loop (n + Suc (length ds)) until now 0 c = recv_loop (Suc n) until (after_reads now (length ds)) r
      ((with_reads rest c)\<lparr>rx_buffer := mqtt_packet ?ty ?b\<rparr>)"
    using recv_loop_pieces [OF small _ assms(9,11,12,8), of ?ty until n 0] assms(6,7,10,14-) packet by auto
  moreover have "maybe_ping (after_reads now (length ds)) ((with_reads rest c)\<lparr>rx_buffer := mqtt_packet ?ty ?b\<rparr>) =
      ((with_reads rest c)\<lparr>rx_buffer := mqtt_packet ?ty ?b\<rparr>, Inr False)"
    using assms(9,14-) by (intro maybe_ping_not_due) (simp_all add: word_le_nat_alt after_reads_value)
  note recv_loop_packet [OF this small _ process_publish_rest [OF assms(4,5,2,3) small]]
  ultimately show ?thesis
    using assms(10,11,13) by (auto simp: recv_def send_bytes_ok split: option.splits simp del: recv_loop.simps)
qed

definition open_client :: "(u64 \<times> sock_result) list \<Rightarrow> MqttClient" where
  "open_client rs = (client_new 0 [] (lit ''spa'') [] [] 7)
     \<lparr>mq_transport := Some \<lparr>sk_reads = rs, sk_write_ok = (\<lambda>_. True), sk_writes = 0, sk_sent = []\<rparr>\<rparr>"

theorem client_receives_publish_witness:
  "\<exists>c' sk'. recv 5 1000000 0 (open_client [(0, Read_Data [0x32, 7, 0, 1, 97]), (0, Read_Data [0, 9, 1, 2])]) =
      (c', after_reads 0 2, Recv_Message (lit ''a'') [1, 2]) \<and> rx_buffer c' = [] \<and> mq_transport c' = Some sk' \<and>
    sk_reads sk' = [] \<and> sk_sent sk' = [encode_puback 9]"
proof -
  let ?ds = "[(0, [0x32, 7, 0, 1, 97]), (0, [0, 9, 1, 2])] :: (u64 \<times> u8 list) list"
  let ?sk = "\<lparr>sk_reads = arrivals ?ds, sk_write_ok = (\<lambda>_. True), sk_writes = 0, sk_sent = []\<rparr> :: Socket"
  have e: "encode_remaining_length (Suc (Suc (Suc (Suc (Suc (Suc (Suc 0))))))) = [7]"
    by (subst encode_remaining_length.simps) simp
  have "\<exists>c' sk'. recv (2 + Suc (length ?ds)) 1000000 0 (open_client (arrivals ?ds)) =
      (c', after_reads 0 (length ?ds), Recv_Message (lit ''a'') [1, 2]) \<and> rx_buffer c' = [] \<and>
    mq_transport c' = Some sk' \<and> sk_reads sk' = [] \<and>
    sk_sent sk' = sk_sent ?sk @ (case Some 9 of Some i \<Rightarrow> [encode_puback i] | None \<Rightarrow> [])"
    by (rule client_receives_publish [where qos = 1 and retain = False and packet = "[0x32, 7, 0, 1, 97, 0, 9, 1, 2]"])
      (auto simp: encode_publish_def e be16_def lit_def as_bytes_def utf8_char_def scalar_value_def open_client_def
        client_new_def RX_BUFFER_MAX_SIZE_def MQTT_RECV_BUF_SIZE_def)
  then show ?thesis by (simp add: eval_nat_numeral del: recv_loop.simps)
qed

text \<open>
  Property C18: a set point that the client forwards. On the Fahrenheit scale it lies in the documented
  limits of the range. On the Celsius scale it counts half degrees, and since the limits are checked on the
  rounded whole degree and the half degrees are taken from the text, it may lie up to half a degree outside
  of the limits, not more.
\<close>

theorem set_point_bounds:
  assumes "client_parse_command base topic p (Some scale) (Some rng) = Some (Action_Command (SetTemperature w))"
  shows "(let lo = unat (fst (temp_limits scale rng)); hi = unat (snd (temp_limits scale rng)) in
    case scale of Fahrenheit \<Rightarrow> lo \<le> unat w \<and> unat w \<le> hi
    | Celsius \<Rightarrow> 2 * lo \<le> unat w + 1 \<and> unat w \<le> 2 * hi + 1)"
  using assms by (rule set_point_in_bounds)

lemma forty_and_a_quarter:
  "client_parse_command (lit ''c'') (lit ''c/set_temperature'') [52, 48, 46, 50, 53] (Some Celsius) (Some Range_High) =
     Some (Action_Command (SetTemperature 81))"
proof -
  let ?s = "[52, 48, 46, 50, 53] :: rstr"
  have r: "round_f32 (of_int k / 4) = F32_Fin (of_int k / 4)" if "\<bar>k\<bar> < 2 ^ 24" for k
    by (rule round_f32_exact [of _ k "- 2"]) (use that in \<open>simp_all add: pow2_def\<close>)
  have p: "parse_f32 ?s = Some (F32_Fin (161 / 4))"
    using r [of 161] by (simp add: parse_f32_def split_sign_def parse_decimal_def is_digit_def digits_value_def pow10_def)
  have a: "f32_add (F32_Fin (161 / 4)) (F32_Fin (1 / 2)) = F32_Fin (163 / 4)"
    "f32_mul (F32_Fin (161 / 4)) (F32_Fin 2) = F32_Fin (161 / 2)"
    "f32_add (F32_Fin (161 / 2)) (F32_Fin (1 / 2)) = F32_Fin 81"
    using r [of 163] r [of 322] r [of 324] by simp_all
  have u: "from_utf8 [52, 48, 46, 50, 53] = Some ?s" by (simp add: utf8_step_def byte_at_def)
  have f: "\<lfloor>163 / 4 :: rat\<rfloor> = 40" by (simp add: floor_eq_iff)
  have t: "parse_set_temperature ?s = Valid (SetTemperature 40)"
    by (simp add: parse_set_temperature_def p f32_in_range_def a f ABSOLUTE_MAX_TEMP_F_def del: f32_add.simps)
  have "parse_command (lit ''c'') (lit ''c/set_temperature'') [52, 48, 46, 50, 53] = Valid (SetTemperature 40)"
    by (simp add: parse_command_def u ALLOWED_SUBTOPICS_def parse_subtopic_def named_toggle_def t lit_def del: from_utf8.simps)
  then show ?thesis
    by (simp add: client_parse_command_def validate_set_temperature_def u p a ABSOLUTE_MAX_TEMP_C_def
        del: f32_add.simps f32_mul.simps from_utf8.simps)
qed

theorem set_point_bounds_witness:
  "client_parse_command (lit ''c'') (lit ''c/set_temperature'') [52, 48, 46, 50, 53] (Some Celsius) (Some Range_High) =
     Some (Action_Command (SetTemperature 81)) \<and>
   unat (snd (temp_limits Celsius Range_High)) = 40 \<and> unat (81 :: u8) \<le> 2 * 40 + 1"
  using set_point_bounds [OF forty_and_a_quarter] forty_and_a_quarter by simp

text \<open>
  A subscription waits for its own answer. If the socket holds at most fifty other packets of
  fewer than 128 bytes and then the broker's grant, \<open>subscribe\<close> succeeds, has sent the request and nothing
  else, and leaves what follows the grant in the socket. The packets before it are gone: a PUBLISH among
  them is neither acknowledged nor kept for \<open>recv\<close>.
\<close>

theorem subscribe_granted:
  assumes "mq_transport c = Some sk" and "sk_write_ok sk (sk_writes sk)"
    and "sk_reads sk = (t, Read_Data (concat (map (\<lambda>(ty, body). mqtt_packet ty body) ps) @
      mqtt_packet HEADER_SUBACK (be16 (next_packet_id c) @ [granted]) @ following)) # rest"
    and "list_all skipped ps" and "length ps \<le> 50" and "granted \<noteq> 0x80" and "t \<le> now" and "now < now + 5000000"
  shows "\<exists>c' sk'. subscribe now topic c = Returns (c', now, Inr ()) \<and> mq_transport c' = Some sk' \<and>
    sk_sent sk' = sk_sent sk @ [encode_subscribe topic (next_packet_id c)] \<and>
    sk_reads sk' = (if following = [] then rest else (t, Read_Data following) # rest) \<and> rx_buffer c' = rx_buffer c"
proof -
  let ?c1 = "fst (allocate_packet_id c)"
  let ?sk2 = "sk\<lparr>sk_writes := sk_writes sk + 1, sk_sent := sk_sent sk @ [encode_subscribe topic (next_packet_id c)]\<rparr>"
  let ?c2 = "?c1\<lparr>mq_transport := Some ?sk2, last_outgoing := now\<rparr>"
  have "snd (allocate_packet_id c) = next_packet_id c" "mq_transport ?c1 = Some sk" "rx_buffer ?c1 = rx_buffer c"
    using assms(1) by (simp_all add: allocate_packet_id_def Let_def)
  moreover have "suback_loop 50 (next_packet_id c) now ?c2 =
      Returns ((with_reads (left_over t following rest) ?c2)\<lparr>last_outgoing := now\<rparr>, now, Inr ())"
    by (rule suback_loop_skips [of _ ?sk2, OF _ _ assms(4-8)]) (simp_all add: left_over_def assms(3) mqtt_packet_def)
  ultimately show ?thesis
    using assms(2) by (simp add: subscribe_def MAX_SKIP_def send_bytes_ok split_beta left_over_def del: suback_loop.simps)
qed

theorem subscribe_granted_witness:
  "\<exists>c' sk'. subscribe 0 (lit ''a'') (open_client
      [(0, Read_Data (mqtt_packet 0x32 [0, 1, 97, 0, 5, 9] @ mqtt_packet HEADER_SUBACK [0, 1, 0]))]) = Returns (c', 0, Inr ()) \<and>
    mq_transport c' = Some sk' \<and> sk_sent sk' = [encode_subscribe (lit ''a'') 1] \<and> sk_reads sk' = [] \<and> rx_buffer c' = []"
proof -
  let ?d = "mqtt_packet 0x32 [0, 1, 97, 0, 5, 9] @ mqtt_packet HEADER_SUBACK [0, 1, 0]"
  let ?sk = "\<lparr>sk_reads = [(0, Read_Data ?d)], sk_write_ok = (\<lambda>_. True), sk_writes = 0, sk_sent = []\<rparr> :: Socket"
  have one: "be16 1 = [0, 1]" by (simp add: be16_def)
  have "\<exists>c' sk'. subscribe 0 (lit ''a'') (open_client [(0, Read_Data ?d)]) = Returns (c', 0, Inr ()) \<and>
    mq_transport c' = Some sk' \<and>
    sk_sent sk' = sk_sent ?sk @ [encode_subscribe (lit ''a'') (next_packet_id (open_client [(0, Read_Data ?d)]))] \<and>
    sk_reads sk' = (if [] = ([] :: u8 list) then [] else (0, Read_Data []) # []) \<and>
    rx_buffer c' = rx_buffer (open_client [(0, Read_Data ?d)])"
    by (rule subscribe_granted [where ps = "[(0x32, [0, 1, 97, 0, 5, 9])]" and granted = 0 and t = 0])
      (simp_all add: open_client_def client_new_def one HEADER_SUBACK_def)
  then show ?thesis by (simp add: open_client_def client_new_def)
qed



end
