(* ===== verification/FirmwareProperties.thy ===== *)
theory FirmwareProperties
  imports Firmware
begin

text \<open>
  What the tasks of the firmware do together, for every order in which the scheduler runs them: an
  invariant of the shared state, the way of a frame from the bus to the application and of a
  transmission back, and when the fast path of the registration answers.
\<close>

section \<open>Relations between a state and the trace that led to it\<close>

locale traced_machine =
  fixes step :: "'s \<Rightarrow> 'e \<Rightarrow> 's \<times> 'o list"
    and safe :: "'e \<Rightarrow> bool"
    and hist :: "'s \<Rightarrow> 'o list \<Rightarrow> bool"
  assumes step_hist: "hist s os \<Longrightarrow> safe e \<Longrightarrow> hist (fst (step s e)) (os @ snd (step s e))"
begin

lemma run_hist:
  "hist s os \<Longrightarrow> list_all safe es \<Longrightarrow> hist (fst (run_machine step s es)) (os @ snd (run_machine step s es))"
proof (induction es arbitrary: s os)
  case (Cons e es)
  obtain s' ps where st: "step s e = (s', ps)" by fastforce
  with step_hist [OF Cons.prems(1), of e] Cons.prems(2) have "hist s' (os @ ps)" by simp
  from Cons.IH [OF this] Cons.prems(2) st show ?case
    by (simp add: run_machine_Cons_proj del: run_machine.simps)
qed simp

end

text \<open>A part of an event keeps such a relation.\<close>

definition keeps :: "(Firmware \<Rightarrow> Obs list \<Rightarrow> bool) \<Rightarrow> (Firmware \<Rightarrow> Firmware \<times> Obs list) \<Rightarrow> bool" where
  "keeps H f \<longleftrightarrow> (\<forall>fw os. H fw os \<longrightarrow> H (fst (f fw)) (os @ snd (f fw)))"

lemma keepsI: "(\<And>fw os. H fw os \<Longrightarrow> H (fst (f fw)) (os @ snd (f fw))) \<Longrightarrow> keeps H f"
  by (simp add: keeps_def)

lemma keepsD: "keeps H f \<Longrightarrow> H fw os \<Longrightarrow> H (fst (f fw)) (os @ snd (f fw))"
  by (simp add: keeps_def)

lemma seq_do_proj:
  "fst (seq_do f g fw) = fst (g (fst (f fw)))" "snd (seq_do f g fw) = snd (f fw) @ snd (g (fst (f fw)))"
  by (simp_all add: seq_do_def split_def Let_def)

lemma keeps_seq: "keeps H f \<Longrightarrow> keeps H g \<Longrightarrow> keeps H (seq_do f g)"
  unfolding keeps_def seq_do_proj by (metis append.assoc)

lemma keeps_quiet: "(\<And>fw os. H fw os \<Longrightarrow> H (f fw) os) \<Longrightarrow> keeps H (quiet f)"
  by (simp add: keeps_def quiet_def)

lemma keeps_while_running: "keeps H f \<Longrightarrow> keeps H (while_running f)"
  by (simp add: keeps_def while_running_def)

text \<open>What the actions of the application leave alone.\<close>

lemma send_alert_frame [simp]:
  "uart_task (send_alert e l m fw) = uart_task fw" "main_loop (send_alert e l m fw) = main_loop fw"
  "FRAME_CHANNEL (send_alert e l m fw) = FRAME_CHANNEL fw" "COMMAND_CHANNEL (send_alert e l m fw) = COMMAND_CHANNEL fw"
  "PUMP_TIMER_CHANNEL (send_alert e l m fw) = PUMP_TIMER_CHANNEL fw" "UART_TX_CHANNEL (send_alert e l m fw) = UART_TX_CHANNEL fw"
  "APP_REGISTERED (send_alert e l m fw) = APP_REGISTERED fw" "REG_CLIENT_HASH (send_alert e l m fw) = REG_CLIENT_HASH fw"
  "SNIFF_CAPTURE (send_alert e l m fw) = SNIFF_CAPTURE fw" "fw_panicked (send_alert e l m fw) = fw_panicked fw"
  "STATE_CHANNEL (send_alert e l m fw) = STATE_CHANNEL fw" "SNIFF_CHANNEL (send_alert e l m fw) = SNIFF_CHANNEL fw"
  "DIAGNOSTICS_CHANNEL (send_alert e l m fw) = DIAGNOSTICS_CHANNEL fw" "OTA_CHANNEL (send_alert e l m fw) = OTA_CHANNEL fw"
  by (simp_all add: send_alert_def Let_def)

lemma execute_action_frame:
  "uart_task (execute_action e b fw a) = uart_task fw" "main_loop (execute_action e b fw a) = main_loop fw"
  "FRAME_CHANNEL (execute_action e b fw a) = FRAME_CHANNEL fw" "COMMAND_CHANNEL (execute_action e b fw a) = COMMAND_CHANNEL fw"
  "PUMP_TIMER_CHANNEL (execute_action e b fw a) = PUMP_TIMER_CHANNEL fw"
  "APP_REGISTERED (execute_action e b fw a) = APP_REGISTERED fw" "REG_CLIENT_HASH (execute_action e b fw a) = REG_CLIENT_HASH fw"
  "SNIFF_CAPTURE (execute_action e b fw a) = SNIFF_CAPTURE fw" "fw_panicked (execute_action e b fw a) = fw_panicked fw"
  "SNIFF_CHANNEL (execute_action e b fw a) = SNIFF_CHANNEL fw"
  by (simp_all add: execute_action_def publish_diagnostics_def Let_def split: AppAction.split prod.split bool.split)

lemma execute_actions_frame [simp]:
  "uart_task (execute_actions e as b fw) = uart_task fw" "main_loop (execute_actions e as b fw) = main_loop fw"
  "FRAME_CHANNEL (execute_actions e as b fw) = FRAME_CHANNEL fw" "COMMAND_CHANNEL (execute_actions e as b fw) = COMMAND_CHANNEL fw"
  "PUMP_TIMER_CHANNEL (execute_actions e as b fw) = PUMP_TIMER_CHANNEL fw"
  "APP_REGISTERED (execute_actions e as b fw) = APP_REGISTERED fw" "REG_CLIENT_HASH (execute_actions e as b fw) = REG_CLIENT_HASH fw"
  "SNIFF_CAPTURE (execute_actions e as b fw) = SNIFF_CAPTURE fw" "fw_panicked (execute_actions e as b fw) = fw_panicked fw"
  "SNIFF_CHANNEL (execute_actions e as b fw) = SNIFF_CHANNEL fw"
  by (induction as arbitrary: fw; simp add: execute_actions_def execute_action_frame)+

lemma execute_action_tx:
  "\<exists>zs. UART_TX_CHANNEL (execute_action e b fw a) = UART_TX_CHANNEL fw @ zs \<and> subseq zs (sends [a])"
  by (auto simp: execute_action_def try_send_def sends_def publish_diagnostics_def Let_def split: AppAction.split prod.split bool.split)

lemma sends_Cons: "sends (a # as) = sends [a] @ sends as"
  by (simp add: sends_def)

lemma execute_actions_tx:
  "\<exists>zs. UART_TX_CHANNEL (execute_actions e as b fw) = UART_TX_CHANNEL fw @ zs \<and> subseq zs (sends as)"
proof (induction as arbitrary: fw)
  case (Cons a as)
  obtain xs where x: "UART_TX_CHANNEL (execute_action e b fw a) = UART_TX_CHANNEL fw @ xs" "subseq xs (sends [a])"
    using execute_action_tx by blast
  obtain ys where y: "UART_TX_CHANNEL (execute_actions e as b (execute_action e b fw a)) =
      UART_TX_CHANNEL (execute_action e b fw a) @ ys" "subseq ys (sends as)" using Cons.IH by blast
  have "UART_TX_CHANNEL (execute_actions e (a # as) b fw) = UART_TX_CHANNEL fw @ (xs @ ys)"
    using x(1) y(1) by (simp add: execute_actions_def)
  moreover have "subseq (xs @ ys) (sends (a # as))"
    unfolding sends_Cons [of a as] using x(2) y(2) by (rule list_emb_append_mono)
  ultimately show ?case by blast
qed (simp add: execute_actions_def sends_def)

lemma run_app_frame [simp]:
  "uart_task (fst (run_app e f fw)) = uart_task fw" "FRAME_CHANNEL (fst (run_app e f fw)) = FRAME_CHANNEL fw"
  "COMMAND_CHANNEL (fst (run_app e f fw)) = COMMAND_CHANNEL fw"
  "PUMP_TIMER_CHANNEL (fst (run_app e f fw)) = PUMP_TIMER_CHANNEL fw"
  "APP_REGISTERED (fst (run_app e f fw)) = APP_REGISTERED fw" "REG_CLIENT_HASH (fst (run_app e f fw)) = REG_CLIENT_HASH fw"
  "SNIFF_CAPTURE (fst (run_app e f fw)) = SNIFF_CAPTURE fw" "fw_panicked (fst (run_app e f fw)) = fw_panicked fw"
  "SNIFF_CHANNEL (fst (run_app e f fw)) = SNIFF_CHANNEL fw"
  "main_loop (fst (run_app e f fw)) = (main_loop fw)\<lparr>ml_app := fst (f (ml_app (main_loop fw)))\<rparr>"
  "snd (run_app e f fw) = map Obs_Send (sends (snd (f (ml_app (main_loop fw)))))"
  by (simp_all add: run_app_def split_def Let_def)

section \<open>One iteration of the main loop\<close>

text \<open>
  A relation that every part of the main loop keeps, except that the flag for the UART task may lag
  behind the application between the tick and the store after it.
\<close>

locale task_relation =
  fixes H :: "Firmware \<Rightarrow> Obs list \<Rightarrow> bool"
    and env_ok :: "Env \<Rightarrow> bool"
  assumes mqtt_command: "env_ok e \<Longrightarrow> keeps H (run_app e (\<lambda>a. on_mqtt_command a cmd))"
    and pump_timer: "env_ok e \<Longrightarrow> keeps H (run_app e (\<lambda>a. app_start_pump_timer a t i m))"
    and heap_check: "env_ok e \<Longrightarrow> keeps H (run_app e (\<lambda>a. check_heap a t n))"
    and publish: "env_ok e \<Longrightarrow> keeps H (run_app e force_publish_app)"
    and app_ticked: "env_ok e \<Longrightarrow> keeps H (seq_do (run_app e (\<lambda>a. app_tick a t)) (quiet store_registered))"
    and frames: "env_ok e \<Longrightarrow> H fw os \<Longrightarrow> FRAME_CHANNEL fw = f # fs \<Longrightarrow>
      H (fst (process_uart_frames e f (fw\<lparr>FRAME_CHANNEL := fs\<rparr>)))
        (os @ snd (process_uart_frames e f (fw\<lparr>FRAME_CHANNEL := fs\<rparr>)))"
    and main_state: "H fw os \<Longrightarrow> ml_app ml = ml_app (main_loop fw) \<Longrightarrow> H (fw\<lparr>main_loop := ml\<rparr>) os"
    and alerted: "env_ok e \<Longrightarrow> H fw os \<Longrightarrow> H (send_alert e lvl msg fw) os"
    and commands: "H fw os \<Longrightarrow> H (fw\<lparr>COMMAND_CHANNEL := tl (COMMAND_CHANNEL fw)\<rparr>) os"
    and pump_timers_taken: "H fw os \<Longrightarrow> H (fw\<lparr>PUMP_TIMER_CHANNEL := tl (PUMP_TIMER_CHANNEL fw)\<rparr>) os"
    and ota_taken: "H fw os \<Longrightarrow> H (fw\<lparr>OTA_CHANNEL := tl (OTA_CHANNEL fw)\<rparr>) os"
    and capture: "H fw os \<Longrightarrow> H (fw\<lparr>SNIFF_CAPTURE := n16\<rparr>) os"
    and health: "H fw os \<Longrightarrow> H (fw\<lparr>UART_LAST_NO_BYTE_ALERT_SECS := n32\<rparr>) os"
begin

lemma phase: "H fw os \<Longrightarrow> H (set_phase p fw) os"
  unfolding set_phase_def by (erule main_state) simp

lemma sniff_mode: "H fw os \<Longrightarrow> H (set_sniff_mode b fw) os"
  unfolding set_sniff_mode_def by (erule main_state) simp

lemma command: assumes "env_ok e" shows "keeps H (handle_mqtt_command e c)"
proof (rule keepsI)
  fix fw os assume h: "H fw os"
  show "H (fst (handle_mqtt_command e c fw)) (os @ snd (handle_mqtt_command e c fw))"
    using keepsD [OF mqtt_command [OF assms] h] keepsD [OF publish [OF assms] capture [OF sniff_mode [OF h]]] phase [OF h]
    by (cases c) (simp_all add: handle_mqtt_command_def split: option.split)
qed

lemma drained_commands:
  assumes "env_ok e"
  shows "H fw os \<Longrightarrow> COMMAND_CHANNEL fw = cs \<Longrightarrow> H (fst (drain_commands e cs fw)) (os @ snd (drain_commands e cs fw))"
proof (induction cs arbitrary: fw os)
  case (Cons c cs)
  let ?r = "handle_mqtt_command e c (fw\<lparr>COMMAND_CHANNEL := cs\<rparr>)"
  have "H (fw\<lparr>COMMAND_CHANNEL := cs\<rparr>) os" using commands [OF Cons.prems(1)] Cons.prems(2) by simp
  from keepsD [OF command [OF assms] this] have "H (fst ?r) (os @ snd ?r)" .
  moreover have "COMMAND_CHANNEL (fst ?r) = cs"
    by (cases c) (simp_all add: handle_mqtt_command_def set_phase_def set_sniff_mode_def split: option.split)
  ultimately show ?case using Cons.IH [of "fst ?r" "os @ snd ?r"] Cons.prems by (simp add: seq_do_proj)
qed simp

lemma drained_pump_timers:
  assumes "env_ok e"
  shows "H fw os \<Longrightarrow> PUMP_TIMER_CHANNEL fw = ts \<Longrightarrow> H (fst (drain_pump_timers e ts fw)) (os @ snd (drain_pump_timers e ts fw))"
proof (induction ts arbitrary: fw os)
  case (Cons t ts)
  obtain i m where t: "t = (i, m)" by fastforce
  let ?r = "run_app e (\<lambda>a. app_start_pump_timer a (env_now e) i m) (fw\<lparr>PUMP_TIMER_CHANNEL := ts\<rparr>)"
  have "H (fw\<lparr>PUMP_TIMER_CHANNEL := ts\<rparr>) os" using pump_timers_taken [OF Cons.prems(1)] Cons.prems(2) by simp
  from keepsD [OF pump_timer [OF assms] this] have "H (fst ?r) (os @ snd ?r)" .
  from Cons.IH [OF this] show ?case by (simp add: t seq_do_proj)
qed simp

lemma selected: assumes "env_ok e" shows "keeps H (tick_select e sel)"
proof (rule keepsI)
  fix fw os assume h: "H fw os"
  have "H (fst (handle_mqtt_command e c (fw\<lparr>COMMAND_CHANNEL := cs\<rparr>))) (os @ snd (handle_mqtt_command e c (fw\<lparr>COMMAND_CHANNEL := cs\<rparr>)))"
    if "COMMAND_CHANNEL fw = c # cs" for c cs
    using keepsD [OF command [OF assms] commands [OF h]] that by simp
  with h frames [OF assms h] show "H (fst (tick_select e sel fw)) (os @ snd (tick_select e sel fw))"
    by (cases sel) (simp_all add: tick_select_def split: list.split)
qed

lemma ended: "env_ok e \<Longrightarrow> keeps H (tick_end e)"
  by (rule keepsI) (simp add: tick_end_def drained_pump_timers)

lemma watched: assumes "env_ok e" shows "keeps H (quiet (tick_mqtt_watch e))"
proof (rule keeps_quiet)
  fix fw os assume h: "H fw os"
  show "H (tick_mqtt_watch e fw) os"
    using h by (auto simp: tick_mqtt_watch_def Let_def intro!: main_state alerted [OF assms])
qed

lemma requested: assumes "env_ok e" shows "keeps H (quiet (tick_ota e))"
proof (rule keeps_quiet)
  fix fw os assume h: "H fw os"
  have "H (fw\<lparr>OTA_CHANNEL := r\<rparr>) os" if "OTA_CHANNEL fw = u # r" for u r
    using ota_taken [OF h] that by simp
  with h show "H (tick_ota e fw) os"
    by (auto simp: tick_ota_def Let_def intro!: phase alerted [OF assms] split: list.split)
qed

lemma sniff_off: assumes "env_ok e" shows "keeps H (tick_sniff_off e)"
proof (rule keepsI)
  fix fw os assume h: "H fw os"
  from keepsD [OF publish [OF assms] sniff_mode [OF h]] h
  show "H (fst (tick_sniff_off e fw)) (os @ snd (tick_sniff_off e fw))" by (simp add: tick_sniff_off_def)
qed

lemma seq_do_assoc: "seq_do f (seq_do g h) = seq_do (seq_do f g) h"
  by (rule ext) (simp add: seq_do_def split_def Let_def)

lemma periodic: assumes "env_ok e" shows "keeps H (tick_periodic e nc)"
  unfolding tick_periodic_def
  by (subst (2) seq_do_assoc)
    (use assms in \<open>intro keeps_seq keeps_while_running sniff_off app_ticked heap_check requested ended keeps_quiet;
      auto simp: tick_uart_health_def tick_serial_config_def Let_def intro!: alerted health phase\<close>)

lemma iteration: "env_ok e \<Longrightarrow> keeps H (main_tick e sel nc)"
  unfolding main_tick_def
  by (intro keeps_seq keeps_while_running watched selected periodic keepsI drained_commands) simp_all

lemma tested: assumes "env_ok e" shows "keeps H (test_done e passed)"
proof (rule keepsI)
  fix fw os assume h: "H fw os"
  have "H (set_phase Main_Running (if passed then fw else send_alert e (lit ''error'') (lit ''tcp_test_failed'') fw)) os"
    using h alerted [OF assms h] by (simp add: phase)
  from keepsD [OF ended [OF assms] this] h show "H (fst (test_done e passed fw)) (os @ snd (test_done e passed fw))"
    by (simp add: test_done_def)
qed

end

text \<open>
  The frequent case: a relation that looks at the transmissions that are queued, at the UART task, and
  at the trace except for the frames in it.
\<close>

locale tx_relation =
  fixes H :: "Firmware \<Rightarrow> Obs list \<Rightarrow> bool"
  assumes run: "keeps H (run_app e f)"
    and same: "H fw os \<Longrightarrow> UART_TX_CHANNEL fw' = UART_TX_CHANNEL fw \<Longrightarrow> uart_task fw' = uart_task fw \<Longrightarrow> H fw' os"
    and frame: "H fw (os @ Obs_Frame fr # ps) = H fw (os @ ps)"
begin

lemma store: "keeps H (quiet store_registered)"
  by (rule keeps_quiet, erule same) (simp_all add: store_registered_def)

lemma processed: "keeps H (process_frame e f)"
proof (rule keepsI)
  fix fw os assume "H fw os"
  from keepsD [OF run this, of e "\<lambda>a. app_process_frame a (env_now e) f"]
  show "H (fst (process_frame e f fw)) (os @ snd (process_frame e f fw))"
    by (simp add: process_frame_def split_def Let_def frame)
qed

lemma drained: "keeps H (drain_frames e fs)"
proof (induction fs)
  case (Cons f fs)
  show ?case
  proof (rule keepsI)
    fix fw os assume "H fw os"
    then have "H (fw\<lparr>FRAME_CHANNEL := fs\<rparr>) os" by (rule same) simp_all
    from keepsD [OF keeps_seq [OF processed Cons] this]
    show "H (fst (drain_frames e (f # fs) fw)) (os @ snd (drain_frames e (f # fs) fw))" by simp
  qed
qed (simp add: keeps_def)

lemma rest_processed:
  "keeps H (seq_do (quiet store_registered) (seq_do (\<lambda>fw. drain_frames e (FRAME_CHANNEL fw) fw) (quiet store_registered)))"
proof -
  have d: "keeps H (\<lambda>fw. drain_frames e (FRAME_CHANNEL fw) fw)" using drained by (simp add: keeps_def)
  show ?thesis by (intro keeps_seq store d)
qed

lemma all_processed: "keeps H (process_uart_frames e f)"
  unfolding process_uart_frames_def by (intro keeps_seq processed rest_processed)

end

sublocale tx_relation \<subseteq> tasks: task_relation H "\<lambda>_. True"
proof unfold_locales
  show "keeps H (seq_do (run_app e (\<lambda>a. app_tick a t)) (quiet store_registered))" for e t
    by (intro keeps_seq run store)
  fix e fw os f fs assume "H fw os"
  then have "H (fw\<lparr>FRAME_CHANNEL := fs\<rparr>) os" by (rule same) simp_all
  from keepsD [OF all_processed this]
  show "H (fst (process_uart_frames e f (fw\<lparr>FRAME_CHANNEL := fs\<rparr>)))
      (os @ snd (process_uart_frames e f (fw\<lparr>FRAME_CHANNEL := fs\<rparr>)))" .
qed (auto intro: run elim: same)

section \<open>From the bus to the application\<close>

definition received :: "Obs list \<Rightarrow> u8 list" where
  "received os = concat (map (\<lambda>x. case x of Obs_Received bs \<Rightarrow> bs | _ \<Rightarrow> []) os)"

definition app_frames :: "Obs list \<Rightarrow> frame list" where
  "app_frames os = concat (map (\<lambda>x. case x of Obs_Frame f \<Rightarrow> [f] | _ \<Rightarrow> []) os)"

definition app_sends :: "Obs list \<Rightarrow> u8 list list" where
  "app_sends os = concat (map (\<lambda>x. case x of Obs_Send bs \<Rightarrow> [bs] | _ \<Rightarrow> []) os)"

definition transmitted :: "Obs list \<Rightarrow> u8 list list" where
  "transmitted os = concat (map (\<lambda>x. case x of Obs_Transmitted bs \<Rightarrow> [bs] | _ \<Rightarrow> []) os)"

lemma obs_append [simp]:
  "received (os @ ps) = received os @ received ps" "app_frames (os @ ps) = app_frames os @ app_frames ps"
  "app_sends (os @ ps) = app_sends os @ app_sends ps" "transmitted (os @ ps) = transmitted os @ transmitted ps"
  by (simp_all add: received_def app_frames_def app_sends_def transmitted_def)

lemma obs_simps [simp]:
  "received [] = []" "received (Obs_Received bs # os) = bs @ received os" "received (Obs_Frame f # os) = received os"
  "received (Obs_FastPath bs # os) = received os" "received (Obs_Transmitted bs # os) = received os"
  "app_frames [] = []" "app_frames (Obs_Received bs # os) = app_frames os" "app_frames (Obs_Frame f # os) = f # app_frames os"
  "app_frames (Obs_FastPath bs # os) = app_frames os" "app_frames (Obs_Transmitted bs # os) = app_frames os"
  "app_sends [] = []" "app_sends (Obs_Received bs # os) = app_sends os" "app_sends (Obs_Frame f # os) = app_sends os"
  "app_sends (Obs_FastPath bs # os) = app_sends os" "app_sends (Obs_Transmitted bs # os) = app_sends os"
  "transmitted [] = []" "transmitted (Obs_Received bs # os) = transmitted os" "transmitted (Obs_Frame f # os) = transmitted os"
  "transmitted (Obs_FastPath bs # os) = transmitted os" "transmitted (Obs_Transmitted bs # os) = bs # transmitted os"
  by (simp_all add: received_def app_frames_def app_sends_def transmitted_def)

lemma obs_sends [simp]:
  "received (map Obs_Send bss) = []" "app_frames (map Obs_Send bss) = []" "transmitted (map Obs_Send bss) = []"
  "app_sends (map Obs_Send bss) = bss"
  by (induction bss; simp add: received_def app_frames_def transmitted_def app_sends_def)+

definition pending_bytes :: "Firmware \<Rightarrow> u8 list" where
  "pending_bytes fw = (case ut_phase (uart_task fw) of Uart_Idle \<Rightarrow> [] | Uart_Bytes bs _ \<Rightarrow> bs | Uart_Send _ bs _ \<Rightarrow> bs)"

definition in_hand :: "Firmware \<Rightarrow> frame list" where
  "in_hand fw = (case ut_phase (uart_task fw) of Uart_Send f _ _ \<Rightarrow> [f] | _ \<Rightarrow> [])"

text \<open>
  What was received is what the decoder has seen and what it has still to see; the frames it found are
  those the application was given, those in the channel, and the one in the hand of the UART task.
\<close>

definition flow :: "Firmware \<Rightarrow> Obs list \<Rightarrow> bool" where
  "flow fw os \<longleftrightarrow> (\<exists>seen. received os = seen @ pending_bytes fw \<and>
     run_machine decoder_feed_step decoder_new seen = (ut_decoder (uart_task fw), app_frames os @ FRAME_CHANNEL fw @ in_hand fw))"

text \<open>It depends on the UART task and the frame channel only.\<close>

lemma flow_cong:
  "flow fw os \<Longrightarrow> ut_decoder (uart_task fw') = ut_decoder (uart_task fw) \<Longrightarrow> ut_phase (uart_task fw') = ut_phase (uart_task fw) \<Longrightarrow>
     FRAME_CHANNEL fw' = FRAME_CHANNEL fw \<Longrightarrow> received ps = [] \<Longrightarrow> app_frames ps = [] \<Longrightarrow> flow fw' (os @ ps)"
  by (simp add: flow_def pending_bytes_def in_hand_def)

lemma flow_same:
  "flow fw os \<Longrightarrow> uart_task fw' = uart_task fw \<Longrightarrow> FRAME_CHANNEL fw' = FRAME_CHANNEL fw \<Longrightarrow> flow fw' os"
  by (simp add: flow_def pending_bytes_def in_hand_def)

lemma flow_run_app: "keeps flow (run_app e f)"
  by (rule keepsI, rule flow_cong) simp_all

lemma flow_frame:
  assumes "flow fw os" and "FRAME_CHANNEL fw = f # fs"
  shows "flow (fst (process_frame e f (fw\<lparr>FRAME_CHANNEL := fs\<rparr>))) (os @ snd (process_frame e f (fw\<lparr>FRAME_CHANNEL := fs\<rparr>)))"
  using assms by (simp add: flow_def process_frame_def split_def Let_def pending_bytes_def in_hand_def)

lemma process_frame_channel [simp]: "FRAME_CHANNEL (fst (process_frame e f fw)) = FRAME_CHANNEL fw"
  by (simp add: process_frame_def split_def Let_def)

lemma flow_drain_frames:
  "flow fw os \<Longrightarrow> FRAME_CHANNEL fw = fs \<Longrightarrow> flow (fst (drain_frames e fs fw)) (os @ snd (drain_frames e fs fw))"
proof (induction fs arbitrary: fw os)
  case (Cons f fs)
  let ?r = "process_frame e f (fw\<lparr>FRAME_CHANNEL := fs\<rparr>)"
  have "flow (fst ?r) (os @ snd ?r)" using flow_frame [OF Cons.prems] .
  from Cons.IH [OF this] show ?case by (simp add: seq_do_proj)
qed simp

lemma flow_store: "keeps flow (quiet store_registered)"
  by (rule keeps_quiet, erule flow_same) (simp_all add: store_registered_def)

lemma flow_process_uart_frames:
  assumes "flow fw os" and "FRAME_CHANNEL fw = f # fs"
  shows "flow (fst (process_uart_frames e f (fw\<lparr>FRAME_CHANNEL := fs\<rparr>))) (os @ snd (process_uart_frames e f (fw\<lparr>FRAME_CHANNEL := fs\<rparr>)))"
proof -
  have "keeps flow (seq_do (quiet store_registered) (seq_do (\<lambda>fw. drain_frames e (FRAME_CHANNEL fw) fw) (quiet store_registered)))"
    by (intro keeps_seq flow_store keepsI) (simp add: flow_drain_frames)
  from keepsD [OF this flow_frame [OF assms]] show ?thesis by (simp add: process_uart_frames_def seq_do_proj)
qed

interpretation flow_main: task_relation flow "\<lambda>_. True"
proof unfold_locales
  show "keeps flow (seq_do (run_app e (\<lambda>a. app_tick a t)) (quiet store_registered))" for e t
    by (intro keeps_seq flow_run_app flow_store)
qed (auto intro: flow_run_app flow_process_uart_frames elim: flow_same)

lemma uart_record_frame [simp]:
  "ut_decoder (uart_task (uart_record e d bs fw)) = ut_decoder (uart_task fw)"
  "ut_phase (uart_task (uart_record e d bs fw)) = ut_phase (uart_task fw)"
  "FRAME_CHANNEL (uart_record e d bs fw) = FRAME_CHANNEL fw" "UART_TX_CHANNEL (uart_record e d bs fw) = UART_TX_CHANNEL fw"
  "main_loop (uart_record e d bs fw) = main_loop fw" "APP_REGISTERED (uart_record e d bs fw) = APP_REGISTERED fw"
  "REG_CLIENT_HASH (uart_record e d bs fw) = REG_CLIENT_HASH fw" "COMMAND_CHANNEL (uart_record e d bs fw) = COMMAND_CHANNEL fw"
  "PUMP_TIMER_CHANNEL (uart_record e d bs fw) = PUMP_TIMER_CHANNEL fw" "STATE_CHANNEL (uart_record e d bs fw) = STATE_CHANNEL fw"
  "DIAGNOSTICS_CHANNEL (uart_record e d bs fw) = DIAGNOSTICS_CHANNEL fw" "OTA_CHANNEL (uart_record e d bs fw) = OTA_CHANNEL fw"
  "ALERT_CHANNEL (uart_record e d bs fw) = ALERT_CHANNEL fw"
  by (simp_all add: uart_record_def split: option.split)

lemma uart_check_start_frame [simp]:
  "ut_decoder (uart_task (uart_check_start e fw)) = ut_decoder (uart_task fw)"
  "ut_phase (uart_task (uart_check_start e fw)) = ut_phase (uart_task fw)"
  "FRAME_CHANNEL (uart_check_start e fw) = FRAME_CHANNEL fw" "UART_TX_CHANNEL (uart_check_start e fw) = UART_TX_CHANNEL fw"
  "main_loop (uart_check_start e fw) = main_loop fw" "APP_REGISTERED (uart_check_start e fw) = APP_REGISTERED fw"
  "REG_CLIENT_HASH (uart_check_start e fw) = REG_CLIENT_HASH fw" "COMMAND_CHANNEL (uart_check_start e fw) = COMMAND_CHANNEL fw"
  "PUMP_TIMER_CHANNEL (uart_check_start e fw) = PUMP_TIMER_CHANNEL fw" "STATE_CHANNEL (uart_check_start e fw) = STATE_CHANNEL fw"
  "DIAGNOSTICS_CHANNEL (uart_check_start e fw) = DIAGNOSTICS_CHANNEL fw" "OTA_CHANNEL (uart_check_start e fw) = OTA_CHANNEL fw"
  "ALERT_CHANNEL (uart_check_start e fw) = ALERT_CHANNEL fw" "SNIFF_CHANNEL (uart_check_start e fw) = SNIFF_CHANNEL fw"
  "fw_panicked (uart_check_start e fw) = fw_panicked fw"
  by (simp_all add: uart_check_start_def)

lemma set_uart_frame [simp]:
  "ut_decoder (uart_task (set_uart d p fw)) = d" "ut_phase (uart_task (set_uart d p fw)) = p"
  "ut_sniff (uart_task (set_uart d p fw)) = ut_sniff (uart_task fw)"
  "FRAME_CHANNEL (set_uart d p fw) = FRAME_CHANNEL fw" "UART_TX_CHANNEL (set_uart d p fw) = UART_TX_CHANNEL fw"
  "main_loop (set_uart d p fw) = main_loop fw" "APP_REGISTERED (set_uart d p fw) = APP_REGISTERED fw"
  "REG_CLIENT_HASH (set_uart d p fw) = REG_CLIENT_HASH fw" "COMMAND_CHANNEL (set_uart d p fw) = COMMAND_CHANNEL fw"
  "PUMP_TIMER_CHANNEL (set_uart d p fw) = PUMP_TIMER_CHANNEL fw" "STATE_CHANNEL (set_uart d p fw) = STATE_CHANNEL fw"
  "DIAGNOSTICS_CHANNEL (set_uart d p fw) = DIAGNOSTICS_CHANNEL fw" "OTA_CHANNEL (set_uart d p fw) = OTA_CHANNEL fw"
  "ALERT_CHANNEL (set_uart d p fw) = ALERT_CHANNEL fw" "SNIFF_CHANNEL (set_uart d p fw) = SNIFF_CHANNEL fw"
  "fw_panicked (set_uart d p fw) = fw_panicked fw"
  by (simp_all add: set_uart_def)

lemma fast_path_cases:
  "fast_path e f fw = (fw, []) \<or> (\<exists>bs. fast_path e f fw = (uart_record e Tx bs fw, [Obs_FastPath bs]))"
  by (auto simp: fast_path_def Let_def split: sum.split)

lemma uart_read_frame [simp]:
  "ut_decoder (uart_task (fst (uart_read e bs fw))) = ut_decoder (uart_task fw)"
  "ut_phase (uart_task (fst (uart_read e bs fw))) = Uart_Bytes bs (frame_error_count (ut_decoder (uart_task fw)))"
  "FRAME_CHANNEL (fst (uart_read e bs fw)) = FRAME_CHANNEL fw" "UART_TX_CHANNEL (fst (uart_read e bs fw)) = UART_TX_CHANNEL fw"
  "snd (uart_read e bs fw) = [Obs_Received bs]"
  by (simp_all add: uart_read_def Let_def)

lemma flow_read:
  assumes "flow fw os" and "ut_phase (uart_task fw) = Uart_Idle"
  shows "flow (fst (uart_read e bs fw)) (os @ snd (uart_read e bs fw))"
  using assms by (simp add: flow_def pending_bytes_def in_hand_def)

lemma flow_next_byte:
  assumes "flow fw os" and "ut_phase (uart_task fw) = Uart_Bytes (b # bs) n" and "decoder_feed (ut_decoder (uart_task fw)) b = (d, r)"
    and "ut_decoder (uart_task fw') = d" and "FRAME_CHANNEL fw' = FRAME_CHANNEL fw" and "received ps = []" and "app_frames ps = []"
    and "ut_phase (uart_task fw') = (case r of None \<Rightarrow> Uart_Bytes bs n | Some f \<Rightarrow> Uart_Send f bs n)"
  shows "flow fw' (os @ ps)"
proof -
  obtain seen where s: "received os = seen @ b # bs"
    "run_machine decoder_feed_step decoder_new seen = (ut_decoder (uart_task fw), app_frames os @ FRAME_CHANNEL fw)"
    using assms(1,2) by (auto simp: flow_def pending_bytes_def in_hand_def)
  then have "run_machine decoder_feed_step decoder_new (seen @ [b]) =
      (d, app_frames os @ FRAME_CHANNEL fw @ (case r of None \<Rightarrow> [] | Some f \<Rightarrow> [f]))"
    using assms(3) by (auto simp: run_machine_append decoder_feed_step_def split: option.splits)
  then show ?thesis
    unfolding flow_def using s(1) assms(4-8)
    by (intro exI [of _ "seen @ [b]"]) (auto simp: pending_bytes_def in_hand_def split: option.splits)
qed

lemma flow_byte: "keeps flow (uart_byte e)"
proof (rule keepsI)
  fix fw os assume fl: "flow fw os"
  show "flow (fst (uart_byte e fw)) (os @ snd (uart_byte e fw))"
  proof (cases "ut_phase (uart_task fw)")
    case (Uart_Bytes bs n)
    show ?thesis
    proof (cases bs)
      case Nil
      with Uart_Bytes fl show ?thesis by (simp add: uart_byte_def Let_def flow_def pending_bytes_def in_hand_def)
    next
      case (Cons b rest)
      with Uart_Bytes have ph: "ut_phase (uart_task fw) = Uart_Bytes (b # rest) n" by simp
      obtain d r where dr: "decoder_feed (ut_decoder (uart_task fw)) b = (d, r)" by fastforce
      let ?fw = "case r of None \<Rightarrow> set_uart d (Uart_Bytes rest n) fw | Some f \<Rightarrow> set_uart d (Uart_Send f rest n) fw"
      have "uart_byte e fw = (?fw, []) \<or> (\<exists>tx. uart_byte e fw = (uart_record e Tx tx ?fw, [Obs_FastPath tx]))"
        using fast_path_cases [of e "the r" ?fw] by (cases r) (auto simp: uart_byte_def ph dr)
      with flow_next_byte [OF fl ph dr, of "fst (uart_byte e fw)" "snd (uart_byte e fw)"] show ?thesis
        by (cases r) auto
    qed
  qed (simp_all add: uart_byte_def fl)
qed

lemma flow_send: "keeps flow (uart_send e)"
  by (rule keepsI)
    (auto simp: uart_send_def try_send_def flow_def pending_bytes_def in_hand_def split: UartPhase.split)

lemma flow_idle: "keeps flow (uart_idle e)"
proof (rule keepsI)
  fix fw os assume fl: "flow fw os"
  show "flow (fst (uart_idle e fw)) (os @ snd (uart_idle e fw))"
    by (rule flow_cong [OF fl]) (simp_all add: uart_idle_def Let_def split: list.split)
qed

text \<open>The events of the MQTT task touch neither.\<close>

lemma flow_event: assumes "flow fw os" shows "flow (fst (fw_event e ev fw)) (os @ snd (fw_event e ev fw))"
proof (cases ev)
  case (FE_Main sel nc)
  with keepsD [OF keeps_while_running [OF flow_main.iteration] assms] show ?thesis by simp
next
  case (FE_TestDone b)
  with keepsD [OF flow_main.tested assms] show ?thesis by simp
qed (use assms flow_read [OF assms] keepsD [OF flow_byte assms] keepsD [OF flow_send assms] keepsD [OF flow_idle assms]
    in \<open>auto elim: flow_same\<close>)

interpretation flow: traced_machine fw_step "\<lambda>_. True" flow
  by unfold_locales (simp add: fw_step_def flow_event)

lemma flow_new: "flow (firmware_new e v i b) []"
  by (simp add: flow_def firmware_new_def pending_bytes_def in_hand_def Let_def)

section \<open>From the application to the bus\<close>

text \<open>What was and will be transmitted is part of what the application asked for, in order.\<close>

definition tx_order :: "Firmware \<Rightarrow> Obs list \<Rightarrow> bool" where
  "tx_order fw os \<longleftrightarrow> subseq (transmitted os @ UART_TX_CHANNEL fw) (app_sends os)"

lemma tx_order_cong:
  "tx_order fw os \<Longrightarrow> transmitted ps @ UART_TX_CHANNEL fw' = UART_TX_CHANNEL fw \<Longrightarrow> app_sends ps = [] \<Longrightarrow> tx_order fw' (os @ ps)"
  by (simp add: tx_order_def)

lemma tx_order_same: "tx_order fw os \<Longrightarrow> UART_TX_CHANNEL fw' = UART_TX_CHANNEL fw \<Longrightarrow> tx_order fw' os"
  by (simp add: tx_order_def)

lemma tx_run_app: "keeps tx_order (run_app e f)"
proof (rule keepsI)
  fix fw os assume h: "tx_order fw os"
  let ?acts = "snd (f (ml_app (main_loop fw)))" and ?fw = "fw\<lparr>main_loop := (main_loop fw)\<lparr>ml_app := fst (f (ml_app (main_loop fw)))\<rparr>\<rparr>"
  obtain zs where z: "UART_TX_CHANNEL (execute_actions e ?acts (ml_sniff_mode (main_loop fw)) ?fw) = UART_TX_CHANNEL ?fw @ zs"
      "subseq zs (sends ?acts)" using execute_actions_tx by blast
  have "subseq ((transmitted os @ UART_TX_CHANNEL fw) @ zs) (app_sends os @ sends ?acts)"
    using h z(2) unfolding tx_order_def by (rule list_emb_append_mono)
  with z(1) show "tx_order (fst (run_app e f fw)) (os @ snd (run_app e f fw))"
    by (simp add: tx_order_def) (simp add: run_app_def split_def Let_def)
qed

interpretation tx_main: tx_relation tx_order
proof unfold_locales
  show "keeps tx_order (run_app e f)" for e f by (rule tx_run_app)
qed (simp_all add: tx_order_def)

lemma tx_byte: "keeps tx_order (uart_byte e)"
proof (rule keepsI)
  fix fw os assume h: "tx_order fw os"
  have "UART_TX_CHANNEL (fst (fast_path e f fw')) = UART_TX_CHANNEL fw' \<and> transmitted (snd (fast_path e f fw')) = [] \<and>
      app_sends (snd (fast_path e f fw')) = []" for f fw'
    using fast_path_cases [of e f fw'] by auto
  then show "tx_order (fst (uart_byte e fw)) (os @ snd (uart_byte e fw))"
    by (intro tx_order_cong [OF h]) (simp_all add: uart_byte_def Let_def split: UartPhase.split list.split prod.split option.split)
qed

lemma tx_send: "keeps tx_order (uart_send e)"
  by (rule keepsI, erule tx_order_cong)
    (simp_all add: uart_send_def try_send_def split: UartPhase.split)

lemma tx_idle: "keeps tx_order (uart_idle e)"
  by (rule keepsI, erule tx_order_cong) (simp_all add: uart_idle_def Let_def split: list.split)

lemma tx_event: assumes "tx_order fw os" shows "tx_order (fst (fw_event e ev fw)) (os @ snd (fw_event e ev fw))"
proof (cases ev)
  case (FE_Main sel nc)
  with keepsD [OF keeps_while_running [OF tx_main.tasks.iteration] assms] show ?thesis by simp
next
  case (FE_TestDone b)
  with keepsD [OF tx_main.tasks.tested assms] show ?thesis by simp
next
  case (FE_Read bs)
  with assms show ?thesis by (auto intro: tx_order_cong [OF assms])
qed (use assms keepsD [OF tx_byte assms] keepsD [OF tx_send assms] keepsD [OF tx_idle assms] in \<open>auto elim: tx_order_same\<close>)

interpretation tx: traced_machine fw_step "\<lambda>_. True" tx_order
  by unfold_locales (simp add: fw_step_def tx_event)

end
