(* ===== verification/FirmwareSafety.thy ===== *)
theory FirmwareSafety
  imports FirmwareProperties
begin

text \<open>
  The invariant of the state that the tasks share, and what the firmware as a whole guarantees from it
  and from the two relations of \<open>FirmwareProperties\<close>.
\<close>

section \<open>The invariant\<close>

text \<open>What the documentation of the channels says: a message is taken only when there is room.\<close>

definition documented :: "Env \<Rightarrow> bool" where
  "documented e \<longleftrightarrow> (\<forall>cap n. accepts e cap n \<longrightarrow> n < cap)"

definition hash_word :: "hash \<Rightarrow> u16" where
  "hash_word h = push_bit 8 (ucast (fst h)) OR ucast (snd h)"

definition channels_ok :: "Firmware \<Rightarrow> bool" where
  "channels_ok fw \<longleftrightarrow> length (FRAME_CHANNEL fw) \<le> 4 \<and> length (COMMAND_CHANNEL fw) \<le> 4 \<and> length (UART_TX_CHANNEL fw) \<le> 4 \<and>
     length (STATE_CHANNEL fw) \<le> 4 \<and> length (PUMP_TIMER_CHANNEL fw) \<le> 4 \<and> length (DIAGNOSTICS_CHANNEL fw) \<le> 2 \<and>
     length (OTA_CHANNEL fw) \<le> 1 \<and> length (ALERT_CHANNEL fw) \<le> 4 \<and> length (SNIFF_CHANNEL fw) \<le> 4"

definition base_ok :: "Firmware \<Rightarrow> bool" where
  "base_ok fw \<longleftrightarrow> app_inv (ml_app (main_loop fw)) \<and> list_all sendable (UART_TX_CHANNEL fw) \<and>
     REG_CLIENT_HASH fw = hash_word (client_hash (ml_app (main_loop fw))) \<and>
     sniff_inv (ut_sniff (uart_task fw)) \<and> sniff_small (ut_sniff (uart_task fw)) \<and> \<not> fw_panicked fw \<and> channels_ok fw"

definition flag_ok :: "Firmware \<Rightarrow> bool" where
  "flag_ok fw \<longleftrightarrow> APP_REGISTERED fw = app_is_registered (ml_app (main_loop fw))"

fun obs_ok :: "Obs \<Rightarrow> bool" where
  "obs_ok (Obs_FastPath bs) = sendable bs"
| "obs_ok (Obs_Transmitted bs) = sendable bs"
| "obs_ok (Obs_Send bs) = sendable bs"
| "obs_ok _ = True"

lemma try_send_length: "documented e \<Longrightarrow> length ch \<le> cap \<Longrightarrow> length (fst (try_send e cap ch x)) \<le> cap"
  by (simp add: try_send_def documented_def Suc_le_eq)

lemma send_alert_channels:
  assumes "documented e" and "channels_ok fw" shows "channels_ok (send_alert e l m fw)"
proof -
  have "length (ALERT_CHANNEL (send_alert e l m fw)) \<le> 4"
    using try_send_length [OF assms(1), of "ALERT_CHANNEL fw" 4] assms(2)
    unfolding send_alert_def Let_def by (simp only: channels_ok_def if_split Firmware.simps) simp
  with assms(2) show ?thesis by (simp add: channels_ok_def)
qed

lemma send_alert_base: "documented e \<Longrightarrow> base_ok fw \<Longrightarrow> base_ok (send_alert e l m fw)"
  using send_alert_channels by (simp add: base_ok_def)

lemma execute_action_channels:
  assumes "documented e" and "channels_ok fw" shows "channels_ok (execute_action e b fw act)"
proof (cases act)
  case (RequestOta url)
  with try_send_length [OF assms(1), of "OTA_CHANNEL fw" 1 url] send_alert_channels [OF assms] assms(2) show ?thesis
    by (auto simp: execute_action_def channels_ok_def split: prod.split bool.split)
next
  case (PublishAlert l m)
  with send_alert_channels [OF assms] show ?thesis by (simp add: execute_action_def)
next
  case (PublishDiagnostics u fr un r d reg x y)
  with try_send_length [OF assms(1), of "DIAGNOSTICS_CHANNEL fw" 2] assms(2) show ?thesis
    unfolding execute_action_def publish_diagnostics_def Let_def channels_ok_def by simp
qed (use assms in \<open>simp_all add: execute_action_def channels_ok_def try_send_length\<close>)

lemma execute_action_base:
  assumes "documented e" and "base_ok fw" and "action_ok act" shows "base_ok (execute_action e b fw act)"
proof -
  have "list_all sendable (UART_TX_CHANNEL (execute_action e b fw act))"
    using assms(2,3) by (cases act)
      (auto simp: execute_action_def base_ok_def try_send_def action_ok_def publish_diagnostics_def Let_def split: prod.split bool.split)
  with assms(2) execute_action_channels [OF assms(1), of fw b act] show ?thesis
    by (simp add: base_ok_def execute_action_frame)
qed

lemma execute_actions_base:
  "documented e \<Longrightarrow> base_ok fw \<Longrightarrow> list_all action_ok acts \<Longrightarrow> base_ok (execute_actions e acts b fw)"
  by (induction acts arbitrary: fw) (simp_all add: execute_actions_def execute_action_base)

lemma sends_sendable: "list_all action_ok acts \<Longrightarrow> list_all sendable (sends acts)"
  by (induction acts) (auto simp: sends_def action_ok_def split: AppAction.splits)

text \<open>An operation of the application that keeps its invariant and its hash.\<close>

definition good_operation :: "(SpaApp \<Rightarrow> SpaApp \<times> AppAction list) \<Rightarrow> bool" where
  "good_operation f \<longleftrightarrow> (\<forall>a. app_inv a \<longrightarrow> handler_ok (f a) \<and> client_hash (fst (f a)) = client_hash a)"

definition holds :: "(Firmware \<Rightarrow> bool) \<Rightarrow> Firmware \<Rightarrow> Obs list \<Rightarrow> bool" where
  "holds P fw os \<longleftrightarrow> P fw \<and> list_all obs_ok os"

lemma run_app_base:
  assumes "documented e" and "good_operation f" shows "keeps (holds base_ok) (run_app e f)"
proof (rule keepsI)
  fix fw os assume h: "holds base_ok fw os"
  let ?a = "ml_app (main_loop fw)"
  have ok: "app_inv (fst (f ?a))" "list_all action_ok (snd (f ?a))" "client_hash (fst (f ?a)) = client_hash ?a"
    using assms(2) h by (auto simp: good_operation_def handler_ok_def holds_def base_ok_def)
  then have "base_ok (fw\<lparr>main_loop := (main_loop fw)\<lparr>ml_app := fst (f ?a)\<rparr>\<rparr>)"
    using h by (simp add: holds_def base_ok_def channels_ok_def)
  from execute_actions_base [OF assms(1) this ok(2)] have "base_ok (fst (run_app e f fw))"
    by (simp add: run_app_def split_def Let_def)
  moreover have "list_all obs_ok (snd (run_app e f fw))"
    using sends_sendable [OF ok(2)] by (simp add: list_all_iff)
  ultimately show "holds base_ok (fst (run_app e f fw)) (os @ snd (run_app e f fw))" using h by (simp add: holds_def)
qed

lemma process_unregistered_hash: "client_hash (fst (process_unregistered a t f)) = client_hash a"
  by (simp add: process_unregistered_def handle_registration_action_def Let_def split_def split: sum.split RegistrationAction.split)

lemma process_registered_hash: "client_hash (fst (process_registered a t rs f)) = client_hash a"
  by (simp add: process_registered_def process_status_def process_ready_def Let_def split_def
      split: IncomingMessage.split RegistrationMessage.split list.split option.split)

lemma tick_hash:
  "client_hash (fst (tick_registration a t)) = client_hash a" "client_hash (fst (tick_cts a t)) = client_hash a"
  "client_hash (fst (tick_stale a t)) = client_hash a" "client_hash (fst (tick_diag a t)) = client_hash a"
  by (simp_all add: tick_registration_def tick_cts_def tick_stale_def tick_probe_def tick_diag_def reset_registration_state_def
      Let_def split_def split: option.split)

lemma app_tick_hash: "client_hash (fst (app_tick a t)) = client_hash a"
  by (simp add: app_tick_def split_def Let_def tick_hash)

lemma good_operations:
  "good_operation (\<lambda>a. on_mqtt_command a cmd)" "good_operation (\<lambda>a. app_start_pump_timer a t i m)"
  "good_operation (\<lambda>a. check_heap a t n)" "good_operation force_publish_app"
  "good_operation (\<lambda>a. app_tick a t)" "good_operation (\<lambda>a. app_process_frame a t f)"
proof -
  show "good_operation (\<lambda>a. on_mqtt_command a cmd)"
    by (simp add: good_operation_def on_mqtt_command_ok on_mqtt_command_frame)
  show "good_operation (\<lambda>a. app_start_pump_timer a t i m)"
    by (simp add: good_operation_def start_pump_timer_ok) (simp add: app_start_pump_timer_def split_def Let_def)
  show "good_operation (\<lambda>a. check_heap a t n)"
    by (simp add: good_operation_def check_heap_ok) (simp add: check_heap_def split_def Let_def)
  show "good_operation force_publish_app"
    by (simp add: good_operation_def force_publish_app_def handler_ok_def force_publish_def split: option.split)
  show "good_operation (\<lambda>a. app_tick a t)" by (simp add: good_operation_def app_tick_ok app_tick_hash)
  show "good_operation (\<lambda>a. app_process_frame a t f)"
    by (simp add: good_operation_def process_frame_ok)
      (simp add: app_process_frame_def process_unregistered_hash process_registered_hash)
qed

lemma registered_unchanged:
  "app_is_registered (fst (on_mqtt_command a cmd)) = app_is_registered a"
  "app_is_registered (fst (app_start_pump_timer a t i m)) = app_is_registered a"
  "app_is_registered (fst (check_heap a t n)) = app_is_registered a"
  "app_is_registered (fst (force_publish_app a)) = app_is_registered a"
  by (simp_all add: app_is_registered_def on_mqtt_command_frame app_start_pump_timer_def check_heap_def force_publish_app_def
      split_def Let_def)

definition shared_ok :: "Firmware \<Rightarrow> bool" where
  "shared_ok fw \<longleftrightarrow> base_ok fw \<and> flag_ok fw"

lemma run_app_shared:
  assumes "documented e" and "good_operation f" and "\<And>a. app_is_registered (fst (f a)) = app_is_registered a"
  shows "keeps (holds shared_ok) (run_app e f)"
proof (rule keepsI)
  fix fw os assume h: "holds shared_ok fw os"
  then have "holds base_ok fw os" by (simp add: holds_def shared_ok_def)
  from keepsD [OF run_app_base [OF assms(1,2)] this] h assms(3)
  show "holds shared_ok (fst (run_app e f fw)) (os @ snd (run_app e f fw))"
    by (simp add: holds_def shared_ok_def flag_ok_def)
qed

lemma store_shared: "base_ok fw \<Longrightarrow> shared_ok (store_registered fw)"
  by (simp add: shared_ok_def base_ok_def flag_ok_def store_registered_def channels_ok_def)

lemma stored_shared: "keeps (holds base_ok) f \<Longrightarrow> keeps (holds shared_ok) (seq_do f (quiet store_registered))"
proof (rule keepsI)
  fix fw os assume f: "keeps (holds base_ok) f" and "holds shared_ok fw os"
  then have "holds base_ok fw os" by (simp add: holds_def shared_ok_def)
  from keepsD [OF f this] show "holds shared_ok (fst (seq_do f (quiet store_registered) fw))
      (os @ snd (seq_do f (quiet store_registered) fw))"
    by (simp add: holds_def seq_do_proj quiet_def store_shared)
qed

lemma process_frame_base: assumes "documented e" shows "keeps (holds base_ok) (process_frame e f)"
proof (rule keepsI)
  fix fw os assume "holds base_ok fw os"
  from keepsD [OF run_app_base [OF assms good_operations(6) [of "env_now e" f]] this]
  show "holds base_ok (fst (process_frame e f fw)) (os @ snd (process_frame e f fw))"
    by (simp add: process_frame_def split_def Let_def holds_def)
qed

lemma base_frames: "base_ok fw \<Longrightarrow> length fs \<le> 4 \<Longrightarrow> base_ok (fw\<lparr>FRAME_CHANNEL := fs\<rparr>)"
  by (simp add: base_ok_def channels_ok_def)

lemma drain_frames_base:
  assumes "documented e"
  shows "length fs \<le> 4 \<Longrightarrow> keeps (holds base_ok) (drain_frames e fs)"
proof (induction fs)
  case (Cons f fs)
  show ?case
  proof (rule keepsI)
    fix fw os assume "holds base_ok fw os"
    then have "holds base_ok (fw\<lparr>FRAME_CHANNEL := fs\<rparr>) os" using Cons.prems by (simp add: holds_def base_frames)
    from keepsD [OF keeps_seq [OF process_frame_base [OF assms] Cons.IH] this] Cons.prems
    show "holds base_ok (fst (drain_frames e (f # fs) fw)) (os @ snd (drain_frames e (f # fs) fw))" by simp
  qed
qed (simp add: keeps_def)

lemma process_uart_frames_shared:
  assumes "documented e" shows "keeps (holds shared_ok) (process_uart_frames e f)"
proof -
  have d: "keeps (holds base_ok) (\<lambda>fw. drain_frames e (FRAME_CHANNEL fw) fw)"
  proof (rule keepsI)
    fix fw os assume h: "holds base_ok fw os"
    then have "length (FRAME_CHANNEL fw) \<le> 4" by (simp add: holds_def base_ok_def channels_ok_def)
    from keepsD [OF drain_frames_base [OF assms this] h]
    show "holds base_ok (fst (drain_frames e (FRAME_CHANNEL fw) fw)) (os @ snd (drain_frames e (FRAME_CHANNEL fw) fw))" .
  qed
  have "keeps (holds base_ok) (quiet store_registered)"
    by (rule keeps_quiet) (use store_shared in \<open>simp add: holds_def shared_ok_def\<close>)
  then have "keeps (holds base_ok) (seq_do (seq_do (process_frame e f) (quiet store_registered))
      (\<lambda>fw. drain_frames e (FRAME_CHANNEL fw) fw))" by (intro keeps_seq process_frame_base [OF assms] d)
  from stored_shared [OF this] show ?thesis
    unfolding process_uart_frames_def by (simp add: flow_main.seq_do_assoc [symmetric])
qed

interpretation shared_main: task_relation "holds shared_ok" documented
proof unfold_locales
  fix e assume d: "documented e"
  show "keeps (holds shared_ok) (run_app e (\<lambda>a. on_mqtt_command a cmd))" for cmd
    by (intro run_app_shared d good_operations registered_unchanged)
  show "keeps (holds shared_ok) (run_app e (\<lambda>a. app_start_pump_timer a t i m))" for t i m
    by (intro run_app_shared d good_operations registered_unchanged)
  show "keeps (holds shared_ok) (run_app e (\<lambda>a. check_heap a t n))" for t n
    by (intro run_app_shared d good_operations registered_unchanged)
  show "keeps (holds shared_ok) (run_app e force_publish_app)"
    by (intro run_app_shared d good_operations registered_unchanged)
  show "keeps (holds shared_ok) (seq_do (run_app e (\<lambda>a. app_tick a t)) (quiet store_registered))" for t
    by (intro stored_shared run_app_base d good_operations)
  fix fw :: Firmware and os f fs assume h: "holds shared_ok fw os"
  show "holds shared_ok (send_alert e lvl msg fw) os" for lvl msg
    using h send_alert_base [OF d] by (simp add: holds_def shared_ok_def flag_ok_def)
  assume "FRAME_CHANNEL fw = f # fs"
  with h have "holds shared_ok (fw\<lparr>FRAME_CHANNEL := fs\<rparr>) os"
    by (simp add: holds_def shared_ok_def flag_ok_def base_ok_def channels_ok_def)
  from keepsD [OF process_uart_frames_shared [OF d] this]
  show "holds shared_ok (fst (process_uart_frames e f (fw\<lparr>FRAME_CHANNEL := fs\<rparr>)))
      (os @ snd (process_uart_frames e f (fw\<lparr>FRAME_CHANNEL := fs\<rparr>)))" .
qed (auto simp: holds_def shared_ok_def flag_ok_def base_ok_def channels_ok_def)

section \<open>The UART task\<close>

lemma uart_record_shared:
  assumes "documented e" and "shared_ok fw" shows "shared_ok (uart_record e d bs fw)"
proof -
  have "sniff_inv (ut_sniff (uart_task fw))" "sniff_small (ut_sniff (uart_task fw))"
    using assms(2) by (simp_all add: shared_ok_def base_ok_def)
  from record_or_finish_total [OF this, of "now_us e" d bs]
  obtain s p where r: "record_or_finish (ut_sniff (uart_task fw)) (now_us e) d bs = Some (s, p)" "sniff_inv s" "sniff_small s"
    by blast
  have "length (SNIFF_CHANNEL (uart_record e d bs fw)) \<le> 4"
    using assms by (cases p) (simp_all add: uart_record_def r(1) shared_ok_def base_ok_def channels_ok_def try_send_length)
  moreover have "ut_sniff (uart_task (uart_record e d bs fw)) = s" "fw_panicked (uart_record e d bs fw) = fw_panicked fw"
    by (cases p; simp add: uart_record_def r(1))+
  ultimately show ?thesis
    using assms(2) r(2,3) by (simp add: shared_ok_def base_ok_def flag_ok_def channels_ok_def)
qed

lemma uart_check_start_shared: "shared_ok fw \<Longrightarrow> shared_ok (uart_check_start e fw)"
  by (simp add: shared_ok_def base_ok_def flag_ok_def channels_ok_def)
    (simp add: uart_check_start_def check_start_inv check_start_small)

lemma set_uart_shared: "shared_ok (set_uart d p fw) = shared_ok fw"
  by (simp add: shared_ok_def base_ok_def flag_ok_def channels_ok_def)

text \<open>The answer of the fast path is the response that belongs to the hash of the application.\<close>

definition fast_answer :: "Firmware \<Rightarrow> u8 list" where
  "fast_answer fw = wire_bytes \<lparr>message_type = (0xFE, 0xBF),
     payload = (let h = client_hash (ml_app (main_loop fw)) in [0x01, 0x02, fst h, snd h])\<rparr>"

lemma hash_word_split: "(ucast (drop_bit 8 (hash_word h)), ucast (hash_word h AND 0xFF)) = h"
proof -
  have "ucast (drop_bit 8 (push_bit 8 (ucast a) OR ucast b :: u16)) = (a :: u8)"
    "ucast ((push_bit 8 (ucast a) OR ucast b :: u16) AND 0xFF) = (b :: u8)" for a b :: u8
  proof -
    have m: "(0xFF :: u16) = mask 8" by (simp add: mask_eq_exp_minus_1)
    show "ucast (drop_bit 8 (push_bit 8 (ucast a) OR ucast b :: u16)) = a"
      by (rule bit_word_eqI) (auto simp: bit_simps dest: bit_imp_le_length)
    show "ucast ((push_bit 8 (ucast a) OR ucast b :: u16) AND 0xFF) = b"
      unfolding m by (rule bit_word_eqI) (auto simp: bit_simps)
  qed
  then show ?thesis by (cases h) (simp add: hash_word_def)
qed

definition is_query :: "frame \<Rightarrow> bool" where
  "is_query f \<longleftrightarrow> message_type f = (0xFE, 0xBF) \<and> payload f \<noteq> [] \<and> hd (payload f) = 0x00"

lemma fast_path_exact:
  assumes "shared_ok fw"
  shows "fast_path e f fw =
    (if is_query f \<and> \<not> app_is_registered (ml_app (main_loop fw))
     then (uart_record e Tx (fast_answer fw) fw, [Obs_FastPath (fast_answer fw)]) else (fw, []))"
proof -
  let ?h = "client_hash (ml_app (main_loop fw))"
  have h: "REG_CLIENT_HASH fw = hash_word ?h" using assms by (simp add: shared_ok_def base_ok_def)
  have e: "registration_encode (NewClientResponse 0x02 ?h) = Inr (fast_answer fw)"
    using registration_encode_wire [of "NewClientResponse 0x02 ?h"] by (simp add: fast_answer_def Let_def)
  have q: "(case payload f of b # _ \<Rightarrow> b = 0x00 | [] \<Rightarrow> False) \<longleftrightarrow> payload f \<noteq> [] \<and> hd (payload f) = 0x00"
    by (cases "payload f") simp_all
  show ?thesis
    using assms unfolding fast_path_def Let_def h hash_word_split e q
    by (auto simp: is_query_def shared_ok_def flag_ok_def)
qed

lemma fast_answer_sendable: "sendable (fast_answer fw)"
  unfolding fast_answer_def Let_def by (rule sendable_wire_bytes) simp

lemma fast_path_shared:
  assumes "documented e" and "shared_ok fw"
  shows "shared_ok (fst (fast_path e f fw)) \<and> list_all obs_ok (snd (fast_path e f fw))"
  using assms uart_record_shared [OF assms] fast_answer_sendable [of fw] by (simp add: fast_path_exact)

lemma byte_shared: assumes "documented e" shows "keeps (holds shared_ok) (uart_byte e)"
proof (rule keepsI)
  fix fw os assume h: "holds shared_ok fw os"
  then have s: "shared_ok (set_uart d p fw)" for d p by (simp add: holds_def set_uart_shared)
  have c: "shared_ok (set_uart d p (fw\<lparr>FRAME_ERROR_COUNT := n\<rparr>))" for d p n
    using h by (simp add: set_uart_shared holds_def shared_ok_def base_ok_def flag_ok_def channels_ok_def)
  show "holds shared_ok (fst (uart_byte e fw)) (os @ snd (uart_byte e fw))"
    using h fast_path_shared [OF assms s] s c
    by (auto simp: uart_byte_def Let_def holds_def split: UartPhase.split list.split prod.split option.split)
qed

lemma send_shared: assumes "documented e" shows "keeps (holds shared_ok) (uart_send e)"
proof (rule keepsI)
  fix fw os assume h: "holds shared_ok fw os"
  have "shared_ok (set_uart d p (fw\<lparr>FRAME_CHANNEL := FRAME_CHANNEL fw @ [f]\<rparr>))" if "accepts e 4 (length (FRAME_CHANNEL fw))" for d p f
    using h that assms
    by (simp add: set_uart_shared holds_def shared_ok_def base_ok_def flag_ok_def channels_ok_def documented_def Suc_le_eq)
  with h show "holds shared_ok (fst (uart_send e fw)) (os @ snd (uart_send e fw))"
    by (auto simp: uart_send_def try_send_def holds_def split: UartPhase.split)
qed

lemma idle_shared: assumes "documented e" shows "keeps (holds shared_ok) (uart_idle e)"
proof (rule keepsI)
  fix fw os assume h: "holds shared_ok fw os"
  show "holds shared_ok (fst (uart_idle e fw)) (os @ snd (uart_idle e fw))"
  proof (cases "UART_TX_CHANNEL fw")
    case Nil
    with h show ?thesis by (simp add: uart_idle_def Let_def holds_def uart_check_start_shared)
  next
    case (Cons data rest)
    let ?fw = "(uart_check_start e fw)\<lparr>UART_TX_CHANNEL := rest\<rparr>"
    have "sendable data" using h Cons by (simp add: holds_def shared_ok_def base_ok_def)
    moreover have "shared_ok (uart_check_start e fw)" using h by (simp add: holds_def uart_check_start_shared)
    then have "shared_ok ?fw"
      using Cons by (simp add: shared_ok_def base_ok_def flag_ok_def channels_ok_def)
    from uart_record_shared [OF assms this]
    have "shared_ok (uart_record e Tx data ?fw)" .
    ultimately show ?thesis using h Cons by (simp add: uart_idle_def Let_def holds_def)
  qed
qed

lemma read_shared: assumes "documented e" and "holds shared_ok fw os"
  shows "holds shared_ok (fst (uart_read e bs fw)) (os @ snd (uart_read e bs fw))"
proof -
  have "shared_ok (uart_check_start e fw)" using assms(2) by (simp add: holds_def uart_check_start_shared)
  then have "shared_ok (let fw2 = (uart_check_start e fw)\<lparr>UART_BYTES_RECEIVED := n\<rparr> in
      if \<not> ut_first_bytes_logged (uart_task fw2) then
        fw2\<lparr>uart_task := (uart_task fw2)\<lparr>ut_first_bytes_logged := True\<rparr>, UART_FIRST_BYTE_SEEN := True\<rparr> else fw2)" for n
    by (simp add: shared_ok_def base_ok_def flag_ok_def channels_ok_def Let_def)
  from uart_record_shared [OF assms(1) this] assms(2) show ?thesis
    by (simp add: uart_read_def Let_def set_uart_shared holds_def)
qed

lemma taken_length: "length xs \<le> k \<Longrightarrow> length xs - Suc 0 \<le> k"
  by simp

lemma shared_event:
  assumes "documented e" and "holds shared_ok fw os"
  shows "holds shared_ok (fst (fw_event e ev fw)) (os @ snd (fw_event e ev fw))"
proof (cases ev)
  case (FE_Read bs)
  with assms(2) read_shared [OF assms] show ?thesis by simp
next
  case FE_Byte
  with keepsD [OF byte_shared [OF assms(1)] assms(2)] show ?thesis by simp
next
  case FE_Send
  with keepsD [OF send_shared [OF assms(1)] assms(2)] show ?thesis by simp
next
  case FE_Idle
  with assms(2) keepsD [OF idle_shared [OF assms(1)] assms(2)] show ?thesis by simp
next
  case (FE_Main sel nc)
  with keepsD [OF keeps_while_running [OF shared_main.iteration [OF assms(1)]] assms(2)] show ?thesis by simp
next
  case (FE_TestDone passed)
  with keepsD [OF shared_main.tested [OF assms(1)] assms(2)] show ?thesis by simp
qed (use assms in \<open>simp_all add: holds_def shared_ok_def flag_ok_def base_ok_def channels_ok_def try_send_length taken_length\<close>)

interpretation shared: traced_machine fw_step "\<lambda>ev. documented (fst ev)" "holds shared_ok"
  by unfold_locales (simp add: fw_step_def shared_event)

lemma shared_new: "holds shared_ok (firmware_new e v i b) []"
proof -
  have "client_hash (with_client_hash t h) = h" "\<not> app_is_registered (with_client_hash t h)" for t h
    by (simp_all add: with_client_hash_def app_is_registered_def is_registered_def registration_new_def)
  then show ?thesis
    by (simp add: holds_def shared_ok_def base_ok_def flag_ok_def channels_ok_def firmware_new_def Let_def hash_word_def
        new_from_device_id_def app_inv_new)
qed

end
