(* ===== verification/FirmwareBus.thy ===== *)
theory FirmwareBus
  imports FirmwareSafety SpaAppProperties
begin

text \<open>
  The firmware on the bus: schedules that make progress, and the properties of the composed tasks. The
  environments of a schedule take a message whenever the channel has room (\<open>exact\<close>); the safety
  properties only need that none is taken without room (\<open>documented\<close>), or nothing at all.
\<close>

section \<open>Progress of the UART task\<close>

definition exact :: "Env \<Rightarrow> bool" where
  "exact e \<longleftrightarrow> (\<forall>cap n. accepts e cap n \<longleftrightarrow> n < cap)"

lemma exact_documented: "exact e \<Longrightarrow> documented e"
  by (simp add: exact_def documented_def)

definition byte_schedule :: "Env \<Rightarrow> nat \<Rightarrow> (Env \<times> FwEvent) list" where
  "byte_schedule e n = concat (replicate n [(e, FE_Byte), (e, FE_Send)])"

lemma byte_schedule_simps [simp]:
  "byte_schedule e 0 = []" "byte_schedule e (Suc n) = (e, FE_Byte) # (e, FE_Send) # byte_schedule e n"
  by (simp_all add: byte_schedule_def)

text \<open>What the UART task leaves alone while it decodes.\<close>

definition same_rest :: "Firmware \<Rightarrow> Firmware \<Rightarrow> bool" where
  "same_rest fw fw' \<longleftrightarrow> main_loop fw' = main_loop fw \<and> UART_TX_CHANNEL fw' = UART_TX_CHANNEL fw \<and>
     COMMAND_CHANNEL fw' = COMMAND_CHANNEL fw \<and> OTA_CHANNEL fw' = OTA_CHANNEL fw"

lemma same_rest_trans: "same_rest fw fw1 \<Longrightarrow> same_rest fw1 fw2 \<Longrightarrow> same_rest fw fw2"
  by (simp add: same_rest_def)

lemma fw_step_event: "shared_ok fw \<Longrightarrow> fw_step fw (e, ev) = fw_event e ev fw"
  by (simp add: fw_step_def shared_ok_def base_ok_def)

lemma step_shared: "documented e \<Longrightarrow> shared_ok fw \<Longrightarrow> shared_ok (fst (fw_step fw (e, ev)))"
  using shared.step_hist [of fw "[]" "(e, ev)"] by (simp add: holds_def)

text \<open>One byte, and the frame it may complete.\<close>

lemma byte_round:
  assumes "exact e" and "shared_ok fw" and "ut_phase (uart_task fw) = Uart_Bytes (b # bs) n"
    and "decoder_feed_step (ut_decoder (uart_task fw)) b = (d, fs)" and "length (FRAME_CHANNEL fw) + length fs \<le> 4"
  defines "r \<equiv> run_machine fw_step fw [(e, FE_Byte), (e, FE_Send)]"
  shows "shared_ok (fst r)" and "ut_phase (uart_task (fst r)) = Uart_Bytes bs n" and "ut_decoder (uart_task (fst r)) = d"
    and "FRAME_CHANNEL (fst r) = FRAME_CHANNEL fw @ fs" and "same_rest fw (fst r)" and "transmitted (snd r) = []"
    and "received (snd r) = []"
proof -
  let ?fw1 = "fst (fw_step fw (e, FE_Byte))"
  have fw1: "?fw1 = fst (uart_byte e fw)" by (simp add: fw_step_event assms(2))
  have s1: "shared_ok ?fw1" using step_shared [OF exact_documented] assms(1,2) by blast
  have st: "fw_step ?fw1 (e, FE_Send) = uart_send e ?fw1" using fw_step_event [OF s1] by simp
  have r: "fst r = fst (uart_send e ?fw1)" "snd r = snd (uart_byte e fw) @ snd (uart_send e ?fw1)"
    unfolding r_def run_machine_Cons_proj st by (simp_all add: fw_step_event assms(2))
  show "shared_ok (fst r)"
    using step_shared [OF exact_documented [OF assms(1)] s1, of FE_Send] by (simp add: r fw_step_event [OF s1])
  have "ut_phase (uart_task (fst r)) = Uart_Bytes bs n \<and> ut_decoder (uart_task (fst r)) = d \<and>
      FRAME_CHANNEL (fst r) = FRAME_CHANNEL fw @ fs \<and> same_rest fw (fst r) \<and> transmitted (snd r) = [] \<and> received (snd r) = []"
  proof (cases "decoder_feed (ut_decoder (uart_task fw)) b")
    case (Pair d' x)
    show ?thesis
    proof (cases x)
      case None
      with Pair assms(3,4) show ?thesis
        unfolding r by (simp add: fw_step_event assms(2) uart_byte_def decoder_feed_step_def uart_send_def same_rest_def)
    next
      case (Some f)
      then have df: "d' = d" "fs = [f]" using Pair assms(4) by (simp_all add: decoder_feed_step_def)
      have room: "accepts e 4 (length (FRAME_CHANNEL fw))" using assms(1,5) df(2) by (simp add: exact_def)
      have s: "shared_ok (set_uart d (Uart_Send f bs n) fw)" using assms(2) by (simp add: set_uart_shared)
      have b: "uart_byte e fw = fast_path e f (set_uart d (Uart_Send f bs n) fw)"
        using Pair Some df assms(3) by (simp add: uart_byte_def)
      show ?thesis
        unfolding r by (simp add: fw_step_event assms(2) b fast_path_exact [OF s])
          (simp add: uart_send_def try_send_def room df same_rest_def)
    qed
  qed
  then show "ut_phase (uart_task (fst r)) = Uart_Bytes bs n" and "ut_decoder (uart_task (fst r)) = d"
    and "FRAME_CHANNEL (fst r) = FRAME_CHANNEL fw @ fs" and "same_rest fw (fst r)" and "transmitted (snd r) = []"
    and "received (snd r) = []"
    by simp_all
qed

lemma bytes_decoded:
  assumes "exact e"
  shows "shared_ok fw \<Longrightarrow> ut_phase (uart_task fw) = Uart_Bytes bs n \<Longrightarrow>
     run_machine decoder_feed_step (ut_decoder (uart_task fw)) bs = (d, fs) \<Longrightarrow> length (FRAME_CHANNEL fw) + length fs \<le> 4 \<Longrightarrow>
     (let r = run_machine fw_step fw (byte_schedule e (length bs)) in
      shared_ok (fst r) \<and> ut_phase (uart_task (fst r)) = Uart_Bytes [] n \<and> ut_decoder (uart_task (fst r)) = d \<and>
      FRAME_CHANNEL (fst r) = FRAME_CHANNEL fw @ fs \<and> same_rest fw (fst r) \<and> transmitted (snd r) = [] \<and> received (snd r) = [])"
proof (induction bs arbitrary: fw fs)
  case (Cons b bs)
  obtain d1 fs1 where d1: "decoder_feed_step (ut_decoder (uart_task fw)) b = (d1, fs1)" by fastforce
  obtain fs2 where d2: "run_machine decoder_feed_step d1 bs = (d, fs2)" and fs: "fs = fs1 @ fs2"
    using Cons.prems(3) d1 by (auto split: prod.splits)
  let ?r = "run_machine fw_step fw [(e, FE_Byte), (e, FE_Send)]"
  note round = byte_round [OF assms Cons.prems(1,2) d1]
  have len: "length (FRAME_CHANNEL fw) + length fs1 \<le> 4" using Cons.prems(4) fs by simp
  have ih: "let r = run_machine fw_step (fst ?r) (byte_schedule e (length bs)) in
      shared_ok (fst r) \<and> ut_phase (uart_task (fst r)) = Uart_Bytes [] n \<and> ut_decoder (uart_task (fst r)) = d \<and>
      FRAME_CHANNEL (fst r) = FRAME_CHANNEL (fst ?r) @ fs2 \<and> same_rest (fst ?r) (fst r) \<and> transmitted (snd r) = [] \<and> received (snd r) = []"
    using round [OF len] d2 Cons.prems(4) fs by (intro Cons.IH) simp_all
  have split: "run_machine fw_step fw (byte_schedule e (length (b # bs))) =
      (fst (run_machine fw_step (fst ?r) (byte_schedule e (length bs))),
       snd ?r @ snd (run_machine fw_step (fst ?r) (byte_schedule e (length bs))))"
    using run_machine_append [of fw_step fw "[(e, FE_Byte), (e, FE_Send)]" "byte_schedule e (length bs)"]
    by (simp add: split_def del: run_machine.simps)
  show ?case
    unfolding split using ih round(4-7) [OF len] same_rest_trans fs
    by (simp only: Let_def fst_conv snd_conv obs_append append_Nil append_assoc)
qed (simp add: same_rest_def)

text \<open>A whole read: the bytes arrive, are decoded one by one, and the task is idle again.\<close>

definition read_schedule :: "Env \<Rightarrow> u8 list \<Rightarrow> (Env \<times> FwEvent) list" where
  "read_schedule e bs = (e, FE_Read bs) # byte_schedule e (length bs) @ [(e, FE_Byte)]"

lemma bytes_read:
  assumes "exact e" and "shared_ok fw" and "ut_phase (uart_task fw) = Uart_Idle" and "bs \<noteq> []" and "length bs \<le> 128"
    and "run_machine decoder_feed_step (ut_decoder (uart_task fw)) bs = (d, fs)" and "length (FRAME_CHANNEL fw) + length fs \<le> 4"
  defines "r \<equiv> run_machine fw_step fw (read_schedule e bs)"
  shows "shared_ok (fst r)" and "ut_phase (uart_task (fst r)) = Uart_Idle" and "ut_decoder (uart_task (fst r)) = d"
    and "FRAME_CHANNEL (fst r) = FRAME_CHANNEL fw @ fs" and "same_rest fw (fst r)" and "transmitted (snd r) = []"
    and "received (snd r) = bs"
proof -
  let ?fw1 = "fst (uart_read e bs fw)"
  let ?r2 = "run_machine fw_step ?fw1 (byte_schedule e (length bs))"
  have st: "fw_step fw (e, FE_Read bs) = (?fw1, [Obs_Received bs])"
    using assms(2-5) by (simp add: fw_step_event prod_eq_iff)
  have s1: "shared_ok ?fw1" using step_shared [OF exact_documented [OF assms(1)] assms(2), of "FE_Read bs"] st by simp
  have same: "same_rest fw ?fw1"
    by (simp add: same_rest_def uart_read_def Let_def)
  have d: "shared_ok (fst ?r2)" "ut_phase (uart_task (fst ?r2)) = Uart_Bytes [] (frame_error_count (ut_decoder (uart_task fw)))"
    "ut_decoder (uart_task (fst ?r2)) = d" "FRAME_CHANNEL (fst ?r2) = FRAME_CHANNEL fw @ fs" "same_rest ?fw1 (fst ?r2)"
    "transmitted (snd ?r2) = []" "received (snd ?r2) = []"
    using bytes_decoded [OF assms(1) s1, of bs] assms(6,7) by (simp_all add: Let_def)
  have r: "fst r = fst (uart_byte e (fst ?r2))" "snd r = Obs_Received bs # snd ?r2 @ snd (uart_byte e (fst ?r2))"
    using fw_step_event [OF d(1)]
    by (simp_all add: r_def read_schedule_def run_machine_Cons_proj st run_machine_append_proj run_machine.simps(1) del: run_machine.simps(2))
  show "shared_ok (fst r)"
    using step_shared [OF exact_documented [OF assms(1)] d(1), of FE_Byte] fw_step_event [OF d(1)] by (simp add: r)
  have last: "ut_phase (uart_task (fst r)) = Uart_Idle \<and> ut_decoder (uart_task (fst r)) = d \<and>
      FRAME_CHANNEL (fst r) = FRAME_CHANNEL fw @ fs \<and> same_rest (fst ?r2) (fst r) \<and> snd (uart_byte e (fst ?r2)) = []"
    unfolding r using d(2-4) by (simp add: uart_byte_def Let_def same_rest_def)
  then show "ut_phase (uart_task (fst r)) = Uart_Idle" and "ut_decoder (uart_task (fst r)) = d"
    and "FRAME_CHANNEL (fst r) = FRAME_CHANNEL fw @ fs" and "transmitted (snd r) = []" and "received (snd r) = bs"
    using d(6,7) by (simp_all add: r)
  show "same_rest fw (fst r)" using last same d(5) same_rest_trans by blast
qed

section \<open>What the main loop adds\<close>

text \<open>With room in the channel no transmission is lost.\<close>

lemma execute_actions_all:
  "exact e \<Longrightarrow> length (UART_TX_CHANNEL fw) + length (sends acts) \<le> 4 \<Longrightarrow>
     UART_TX_CHANNEL (execute_actions e acts b fw) = UART_TX_CHANNEL fw @ sends acts"
proof (induction acts arbitrary: fw)
  case (Cons a acts)
  have "UART_TX_CHANNEL (execute_action e b fw a) = UART_TX_CHANNEL fw @ sends [a]"
    using Cons.prems by (cases a)
      (auto simp: execute_action_def sends_def try_send_def exact_def publish_diagnostics_def Let_def split: prod.split bool.split)
  with Cons.IH [of "execute_action e b fw a"] Cons.prems show ?case
    by (simp add: execute_actions_def sends_Cons [of a acts])
qed (simp add: execute_actions_def sends_def)

lemma run_app_all:
  "exact e \<Longrightarrow> length (UART_TX_CHANNEL fw) + length (sends (snd (f (ml_app (main_loop fw))))) \<le> 4 \<Longrightarrow>
     UART_TX_CHANNEL (fst (run_app e f fw)) = UART_TX_CHANNEL fw @ sends (snd (f (ml_app (main_loop fw))))"
  using execute_actions_all [of e] by (simp add: run_app_def split_def Let_def)

text \<open>The oldest transmission keeps its place while the main loop runs; the UART task stands still.\<close>

definition head_is :: "u8 list \<Rightarrow> UartTask \<Rightarrow> Firmware \<Rightarrow> Obs list \<Rightarrow> bool" where
  "head_is x u fw os \<longleftrightarrow> (\<exists>zs. UART_TX_CHANNEL fw = x # zs) \<and> uart_task fw = u \<and> transmitted os = []"

interpretation head: tx_relation "head_is x u" for x u
proof unfold_locales
  show "keeps (head_is x u) (run_app e f)" for x u e f
  proof (rule keepsI)
    fix fw os assume h: "head_is x u fw os"
    let ?acts = "snd (f (ml_app (main_loop fw)))" and ?fw = "fw\<lparr>main_loop := (main_loop fw)\<lparr>ml_app := fst (f (ml_app (main_loop fw)))\<rparr>\<rparr>"
    obtain zs where "UART_TX_CHANNEL (execute_actions e ?acts (ml_sniff_mode (main_loop fw)) ?fw) = UART_TX_CHANNEL ?fw @ zs"
      using execute_actions_tx by blast
    then have "UART_TX_CHANNEL (fst (run_app e f fw)) = UART_TX_CHANNEL fw @ zs" by (simp add: run_app_def split_def Let_def)
    with h show "head_is x u (fst (run_app e f fw)) (os @ snd (run_app e f fw))" by (auto simp: head_is_def)
  qed
qed (simp_all add: head_is_def)

interpretation idle_uart: tx_relation "\<lambda>fw os. uart_task fw = u" for u
  by unfold_locales (simp_all add: keeps_def)

text \<open>The main loop never uses the fast path.\<close>

definition no_fast :: "Firmware \<Rightarrow> Obs list \<Rightarrow> bool" where
  "no_fast fw os \<longleftrightarrow> (\<forall>bs. Obs_FastPath bs \<notin> set os)"

interpretation no_fast: tx_relation no_fast
  by unfold_locales (auto simp: no_fast_def keeps_def)

lemma main_no_fast:
  "Obs_FastPath bs \<notin> set (snd (while_running (main_tick e sel nc) fw))" "Obs_FastPath bs \<notin> set (snd (test_done e passed fw))"
  using keepsD [OF keeps_while_running [OF no_fast.tasks.iteration], of fw "[]" e sel nc]
    keepsD [OF no_fast.tasks.tested, of fw "[]" e passed] by (simp_all add: no_fast_def)

lemma fast_path_step:
  assumes "shared_ok fw"
  shows "Obs_FastPath bs \<in> set (snd (fw_step fw (e, ev))) \<longleftrightarrow>
    ev = FE_Byte \<and> \<not> app_is_registered (ml_app (main_loop fw)) \<and> bs = fast_answer fw \<and>
    (\<exists>b rest n d f. ut_phase (uart_task fw) = Uart_Bytes (b # rest) n \<and>
       decoder_feed (ut_decoder (uart_task fw)) b = (d, Some f) \<and> is_query f)"
proof (cases "ev = FE_Byte")
  case True
  have s: "shared_ok (set_uart d p fw)" for d p using assms by (simp add: set_uart_shared)
  have a: "fast_answer (set_uart d p fw) = fast_answer fw" for d p by (simp add: fast_answer_def)
  show ?thesis
    using True by (auto simp: fw_step_event assms uart_byte_def Let_def fast_path_exact [OF s] a
        split: UartPhase.splits list.splits prod.splits option.splits)
next
  case False
  have r: "Obs_FastPath bs \<notin> set (snd (uart_read e xs fw))" "Obs_FastPath bs \<notin> set (snd (uart_send e fw))"
    "Obs_FastPath bs \<notin> set (snd (uart_idle e fw))" for xs
    by (simp_all add: uart_read_def uart_send_def uart_idle_def Let_def split: UartPhase.split prod.split bool.split list.split)
  from False show ?thesis by (cases ev) (simp_all add: fw_step_event assms main_no_fast r)
qed

section \<open>Properties\<close>

lemma reachable_shared:
  assumes "list_all (\<lambda>ev. documented (fst ev)) evs" and "run_machine fw_step (firmware_new e0 version device_id ota) evs = (fw, os)"
  shows "shared_ok fw \<and> list_all obs_ok os"
  using shared.run_hist [OF shared_new assms(1), of e0 version device_id ota] assms(2) by (simp add: holds_def)

text \<open>
  Property C7: whatever the scheduler, the bus and the broker do, the tasks never panic, the flag that the
  UART task reads agrees with the application whenever another task can run, the application's own invariant
  holds, no channel holds more than its capacity, and all that is put on the bus, by either task, is empty or
  one frame that a decoder finds.
\<close>

theorem firmware_state_consistent:
  assumes "list_all (\<lambda>ev. documented (fst ev)) evs"
    and "run_machine fw_step (firmware_new e0 version device_id ota) evs = (fw, os)"
  shows "\<not> fw_panicked fw \<and> APP_REGISTERED fw = app_is_registered (ml_app (main_loop fw)) \<and>
    app_inv (ml_app (main_loop fw)) \<and> channels_ok fw \<and> list_all obs_ok os"
  using reachable_shared [OF assms] by (simp add: shared_ok_def base_ok_def flag_ok_def)

definition example_env :: Env where
  "example_env = \<lparr>now_us = 5000000, heap_free = 40000, env_rssi = 0, accepts = (\<lambda>cap n. n < cap)\<rparr>"

lemma example_env_exact: "exact example_env" "documented example_env"
  by (simp_all add: exact_def documented_def example_env_def)

theorem firmware_state_consistent_witness:
  "\<not> fw_panicked (fst (run_machine fw_step (firmware_new example_env (lit ''1'') (lit ''spa'') True)
     [(example_env, FE_MqttPumpTimer 1 5), (example_env, FE_Main Sel_Timer False), (example_env, FE_Idle)]))"
  using firmware_state_consistent [of "[(example_env, FE_MqttPumpTimer 1 5), (example_env, FE_Main Sel_Timer False), (example_env, FE_Idle)]",
      OF _ surjective_pairing [of "run_machine fw_step (firmware_new example_env (lit ''1'') (lit ''spa'') True)
        [(example_env, FE_MqttPumpTimer 1 5), (example_env, FE_Main Sel_Timer False), (example_env, FE_Idle)]"]]
  by (simp only: list.pred_inject fst_conv example_env_exact simp_thms)



text \<open>
  Property C9: what is transmitted from the queue is what the application asked for, in the order in which it
  asked, each at most once. (A transmission may be dropped: the queue holds four.)
\<close>

theorem firmware_transmits_in_order:
  "subseq (transmitted (snd (run_machine fw_step (firmware_new e0 version device_id ota) evs)))
     (app_sends (snd (run_machine fw_step (firmware_new e0 version device_id ota) evs)))"
proof -
  have "tx_order (firmware_new e0 version device_id ota) []" by (simp add: tx_order_def firmware_new_def Let_def)
  from tx.run_hist [OF this, of evs]
  have "subseq (transmitted (snd (run_machine fw_step (firmware_new e0 version device_id ota) evs)) @
      UART_TX_CHANNEL (fst (run_machine fw_step (firmware_new e0 version device_id ota) evs)))
     (app_sends (snd (run_machine fw_step (firmware_new e0 version device_id ota) evs)))"
    by (simp add: tx_order_def list_all_iff)
  then show ?thesis by (rule subseq_order.order_trans [OF prefix_imp_subseq, rotated]) simp
qed

text \<open>
  Property C21: the fast path answers exactly when the UART task completes a query for new clients while the
  application is not registered, with the response that carries the application's own hash, the one under
  which an assignment is accepted.
\<close>

theorem fast_path_answers:
  assumes "list_all (\<lambda>ev. documented (fst ev)) evs"
    and "run_machine fw_step (firmware_new e0 version device_id ota) evs = (fw, os)"
  shows "Obs_FastPath bs \<in> set (snd (fw_step fw (e, ev))) \<longleftrightarrow>
    ev = FE_Byte \<and> \<not> app_is_registered (ml_app (main_loop fw)) \<and>
    Inr bs = registration_encode (NewClientResponse 0x02 (reg_hash (registration (ml_app (main_loop fw))))) \<and>
    (\<exists>b rest n d f. ut_phase (uart_task fw) = Uart_Bytes (b # rest) n \<and>
       decoder_feed (ut_decoder (uart_task fw)) b = (d, Some f) \<and> is_query f)"
proof -
  let ?a = "ml_app (main_loop fw)"
  have s: "shared_ok fw" using reachable_shared [OF assms] by simp
  then have "reg_hash (registration ?a) = client_hash ?a" by (simp add: shared_ok_def base_ok_def app_inv_def)
  then have "registration_encode (NewClientResponse 0x02 (reg_hash (registration ?a))) = Inr (fast_answer fw)"
    using registration_encode_wire [of "NewClientResponse 0x02 (client_hash ?a)"] by (simp add: fast_answer_def Let_def)
  then show ?thesis unfolding fast_path_step [OF s] by auto
qed

theorem fast_path_answers_witness:
  "Obs_FastPath [0x7E] \<notin> set (snd (fw_step (fst (run_machine fw_step (firmware_new example_env (lit ''1'') (lit ''spa'') True)
     [(example_env, FE_Read [0x7E])])) (example_env, FE_Idle)))"
  using fast_path_answers [of "[(example_env, FE_Read [0x7E])]",
      OF _ surjective_pairing [of "run_machine fw_step (firmware_new example_env (lit ''1'') (lit ''spa'') True) [(example_env, FE_Read [0x7E])]"],
      of "[0x7E]" example_env FE_Idle] example_env_exact(2) by simp



text \<open>A firmware whose application is registered and has a command to send.\<close>

definition example_firmware :: Firmware where
  "example_firmware = (let fw = firmware_new example_env (lit ''1'') (lit ''spa'') True in
     fw\<lparr>main_loop := (main_loop fw)\<lparr>ml_app := example_app\<lparr>command_queue := [ToggleItem Pump1]\<rparr>\<rparr>, APP_REGISTERED := True,
        REG_CLIENT_HASH := hash_word (1, 2)\<rparr>)"

lemma example_firmware: "shared_ok example_firmware"
proof -
  have "client_hash example_app = (1, 2)"
    by (simp add: example_app_def force_registered_def with_client_hash_def Let_def)
  then show ?thesis
    using example_app(1,2) by (simp add: example_firmware_def shared_ok_def base_ok_def flag_ok_def channels_ok_def firmware_new_def
        Let_def app_inv_def app_is_registered_def)
qed


section \<open>A transmission without a clear-to-send\<close>

lemma run_app_ota:
  "list_all (\<lambda>a. \<forall>u. a \<noteq> RequestOta u) (snd (f (ml_app (main_loop fw)))) \<Longrightarrow> OTA_CHANNEL (fst (run_app e f fw)) = OTA_CHANNEL fw"
proof -
  have "list_all (\<lambda>a. \<forall>u. a \<noteq> RequestOta u) acts \<Longrightarrow> OTA_CHANNEL (execute_actions e acts b fw) = OTA_CHANNEL fw" for acts b fw
  proof (induction acts arbitrary: fw)
    case (Cons a acts)
    then have "OTA_CHANNEL (execute_action e b fw a) = OTA_CHANNEL fw"
      by (cases a) (simp_all add: execute_action_def publish_diagnostics_def Let_def)
    with Cons show ?case by (simp add: execute_actions_def)
  qed (simp add: execute_actions_def)
  then show "list_all (\<lambda>a. \<forall>u. a \<noteq> RequestOta u) (snd (f (ml_app (main_loop fw)))) \<Longrightarrow> OTA_CHANNEL (fst (run_app e f fw)) = OTA_CHANNEL fw"
    by (simp add: run_app_def split_def Let_def)
qed

lemma fresh_tick:
  fixes t h defines "r \<equiv> app_tick (with_client_hash t h) t"
  shows "sends (snd r) = []" and "list_all (\<lambda>a. \<forall>u. a \<noteq> RequestOta u) (snd r)" and "pump_timers (fst r) = pump_timers_new"
  by (simp_all add: r_def app_tick_def tick_registration_def tick_cts_def tick_stale_def tick_diag_def with_client_hash_def
      registration_new_def is_registered_def Let_def sends_def STALE_THRESHOLD_MS_def)

lemma heap_actions:
  "sends (snd (check_heap a t n)) = []" "list_all (\<lambda>a. \<forall>u. a \<noteq> RequestOta u) (snd (check_heap a t n))"
  "pump_timers (fst (check_heap a t n)) = pump_timers a"
  by (auto simp: check_heap_def split_def Let_def sends_def alert_def split: option.split bool.split)

lemma uart_health_frame:
  "main_loop (tick_uart_health e fw) = main_loop fw" "OTA_CHANNEL (tick_uart_health e fw) = OTA_CHANNEL fw"
  "UART_TX_CHANNEL (tick_uart_health e fw) = UART_TX_CHANNEL fw" "PUMP_TIMER_CHANNEL (tick_uart_health e fw) = PUMP_TIMER_CHANNEL fw"
  by (simp_all add: tick_uart_health_def Let_def)

lemma fresh_pump_timer:
  assumes "pump_timers a = pump_timers_new" and "1 \<le> unat i" and "unat i \<le> 6"
  shows "sends (snd (app_start_pump_timer a t i m)) = [encode_command (ToggleItem ([Pump1, Pump2, Pump3, Pump4, Pump5, Pump6] ! (unat i - 1)))]"
proof -
  have "unat i - 1 < 6" using assms(2,3) by simp
  then have "timer_pump (timers pump_timers_new ! (unat i - 1)) = [Pump1, Pump2, Pump3, Pump4, Pump5, Pump6] ! (unat i - 1)"
    unfolding pump_timers_new_def by (simp add: pump_timer_new_def nth_Cons' del: list.map)
  with assms show ?thesis
    by (simp add: app_start_pump_timer_def start_timer_def start_with_minutes_def pump_timer_start_def Let_def sends_def
        pump_timers_new_def not_less)
qed

text \<open>An iteration on a fresh firmware with one pump timer waiting.\<close>

lemma fresh_iteration:
  assumes "exact e" and "1 \<le> unat i" and "unat i \<le> 6" and "UART_TX_CHANNEL fw = []" and "COMMAND_CHANNEL fw = []"
    and "OTA_CHANNEL fw = []" and "PUMP_TIMER_CHANNEL fw = [(i, m)]" and "ml_phase (main_loop fw) = Main_Running"
    and "\<not> ml_sniff_mode (main_loop fw)" and "ml_app (main_loop fw) = with_client_hash (env_now e) h"
    and "tick_mqtt_watch e fw = fw"
  shows "UART_TX_CHANNEL (fst (main_tick e Sel_Timer False fw)) =
      [encode_command (ToggleItem ([Pump1, Pump2, Pump3, Pump4, Pump5, Pump6] ! (unat i - 1)))]" (is "_ = [?x]")
    and "received (snd (main_tick e Sel_Timer False fw)) = []" and "transmitted (snd (main_tick e Sel_Timer False fw)) = []"
proof -
  let ?A = "fst (run_app e (\<lambda>a. app_tick a (env_now e)) fw)"
  let ?B = "store_registered ?A"
  let ?C = "fst (run_app e (\<lambda>a. check_heap a (env_now e) (heap_free e)) ?B)"
  let ?D = "tick_uart_health e ?C"
  let ?E = "run_app e (\<lambda>a. app_start_pump_timer a (env_now e) i m) (?D\<lparr>PUMP_TIMER_CHANNEL := []\<rparr>)"
  have A: "UART_TX_CHANNEL ?A = []" "OTA_CHANNEL ?A = []" "main_loop ?A = (main_loop fw)\<lparr>ml_app := fst (app_tick (with_client_hash (env_now e) h) (env_now e))\<rparr>"
    using run_app_all [OF assms(1), of fw "\<lambda>a. app_tick a (env_now e)"] run_app_ota [of "\<lambda>a. app_tick a (env_now e)" fw e] assms(4,6,10)
    by (simp_all add: fresh_tick(1,2))
  then have B: "UART_TX_CHANNEL ?B = []" "OTA_CHANNEL ?B = []" "main_loop ?B = main_loop ?A" "PUMP_TIMER_CHANNEL ?B = [(i, m)]"
    using assms(7) by (simp_all add: store_registered_def)
  have C: "UART_TX_CHANNEL ?C = []" "OTA_CHANNEL ?C = []" "PUMP_TIMER_CHANNEL ?C = [(i, m)]"
    using run_app_all [OF assms(1), of ?B "\<lambda>a. check_heap a (env_now e) (heap_free e)"]
      run_app_ota [of "\<lambda>a. check_heap a (env_now e) (heap_free e)" ?B e] B by (simp_all add: heap_actions(1,2))
  have "pump_timers (ml_app (main_loop ?D)) = pump_timers_new"
    by (simp add: uart_health_frame heap_actions(3) B(3) A(3) fresh_tick(3) assms(10))
  note pump = fresh_pump_timer [OF this assms(2,3), of "env_now e" m]
  have E: "UART_TX_CHANNEL (fst ?E) = [?x]"
    using run_app_all [OF assms(1), of "?D\<lparr>PUMP_TIMER_CHANNEL := []\<rparr>" "\<lambda>a. app_start_pump_timer a (env_now e) i m"] pump
    by (simp add: uart_health_frame C(1))
  have phase: "ml_phase (main_loop ?D) = Main_Running" "PUMP_TIMER_CHANNEL ?D = [(i, m)]" "OTA_CHANNEL ?D = []"
    using assms(8) C by (simp_all add: uart_health_frame B(3) A(3))
  have periodic: "fst (tick_periodic e False fw) = fst ?E"
      "received (snd (tick_periodic e False fw)) = []" "transmitted (snd (tick_periodic e False fw)) = []"
    using assms(9) phase
    by (simp_all add: tick_periodic_def seq_do_proj tick_sniff_off_def quiet_def tick_serial_config_def while_running_def tick_ota_def
        tick_end_def)
  have main: "main_tick e Sel_Timer False fw = tick_periodic e False fw"
    using assms(5,8,11) by (simp add: main_tick_def seq_do_def quiet_def tick_select_def while_running_def)
  show "UART_TX_CHANNEL (fst (main_tick e Sel_Timer False fw)) = [?x]"
    and "received (snd (main_tick e Sel_Timer False fw)) = []" and "transmitted (snd (main_tick e Sel_Timer False fw)) = []"
    unfolding main using periodic E by simp_all
qed

text \<open>
  The file promises that commands are only sent when the spa sends a ready message. A pump timer
  requested over MQTT is put on the bus at once: on a bus on which no byte has been received yet, and
  by a device that is not registered.
\<close>

theorem pump_timer_speaks_unasked:
  assumes "exact e" and "1 \<le> unat i" and "unat i \<le> 6"
  shows "let os = snd (run_machine fw_step (firmware_new e version device_id ota)
      [(e, FE_MqttPumpTimer i m), (e, FE_Main Sel_Timer False), (e, FE_Idle)])
    in received os = [] \<and> transmitted os = [encode_command (ToggleItem ([Pump1, Pump2, Pump3, Pump4, Pump5, Pump6] ! (unat i - 1)))]"
proof -
  let ?fw0 = "firmware_new e version device_id ota"
  let ?fw1 = "?fw0\<lparr>PUMP_TIMER_CHANNEL := [(i, m)]\<rparr>"
  have st: "fw_step ?fw0 (e, FE_MqttPumpTimer i m) = (?fw1, [])"
    using assms(1) by (simp add: fw_step_def try_send_def exact_def firmware_new_def Let_def)
  have watch: "tick_mqtt_watch e ?fw1 = ?fw1" by (simp add: tick_mqtt_watch_def firmware_new_def Let_def sat_sub_def)
  have it: "UART_TX_CHANNEL (fst (main_tick e Sel_Timer False ?fw1)) =
        [encode_command (ToggleItem ([Pump1, Pump2, Pump3, Pump4, Pump5, Pump6] ! (unat i - 1)))]"
      "received (snd (main_tick e Sel_Timer False ?fw1)) = []" "transmitted (snd (main_tick e Sel_Timer False ?fw1)) = []"
    using fresh_iteration [OF assms, of ?fw1 m "derive_client_hash device_id"] watch
    by (simp_all add: firmware_new_def Let_def new_from_device_id_def)
  have s1: "shared_ok ?fw1"
    using shared.step_hist [OF shared_new, of "(e, FE_MqttPumpTimer i m)" e version device_id ota] st exact_documented [OF assms(1)]
    by (simp add: holds_def)
  have st1: "fw_step ?fw1 (e, FE_Main Sel_Timer False) = main_tick e Sel_Timer False ?fw1"
    using fw_step_event [OF s1] by (simp add: while_running_def firmware_new_def Let_def)
  let ?fw2 = "fst (main_tick e Sel_Timer False ?fw1)"
  have s2: "shared_ok ?fw2" using step_shared [OF exact_documented [OF assms(1)] s1, of "FE_Main Sel_Timer False"] st1 by simp
  have "keeps (\<lambda>fw os. uart_task fw = uart_task ?fw1) (main_tick e Sel_Timer False)" by (rule idle_uart.tasks.iteration) simp
  then have "uart_task ?fw2 = uart_task ?fw1" by (simp add: keeps_def)
  then have idle: "ut_phase (uart_task ?fw2) = Uart_Idle" by (simp add: firmware_new_def Let_def)
  have "snd (fw_step ?fw2 (e, FE_Idle)) = [Obs_Transmitted (hd (UART_TX_CHANNEL ?fw2))]"
    using it(1) by (simp add: fw_step_event [OF s2] idle uart_idle_def Let_def)
  with it show ?thesis
    by (simp add: st st1 run_machine_Cons_proj Let_def run_machine.simps(1) del: run_machine.simps(2))
qed

theorem pump_timer_speaks_unasked_witness:
  "received (snd (run_machine fw_step (firmware_new example_env (lit ''1'') (lit ''spa'') True)
     [(example_env, FE_MqttPumpTimer 2 15), (example_env, FE_Main Sel_Timer False), (example_env, FE_Idle)])) = [] \<and>
   transmitted (snd (run_machine fw_step (firmware_new example_env (lit ''1'') (lit ''spa'') True)
     [(example_env, FE_MqttPumpTimer 2 15), (example_env, FE_Main Sel_Timer False), (example_env, FE_Idle)])) = [encode_command (ToggleItem Pump2)]"
  using pump_timer_speaks_unasked [OF example_env_exact(1), of 2 "lit ''1''" "lit ''spa''" True 15] by (simp add: Let_def)

end
