(* ===== verification/MqttTaskProperties.thy ===== *)
theory MqttTaskProperties
  imports MqttTask MqttClientProperties FirmwareBus
begin

text \<open>
  What the MQTT task does to the rest of the firmware: its steps are the events by which \<open>Firmware\<close> describes
  it, so that what is proved there holds of the two together; the commands it forwards; and what becomes of
  the availability, the log and a connection test.
\<close>

section \<open>The task as events of the firmware\<close>

fun mqtt_event :: "FwEvent \<Rightarrow> bool" where
  "mqtt_event (FE_Read _) = False"
| "mqtt_event FE_Byte = False"
| "mqtt_event FE_Send = False"
| "mqtt_event FE_Idle = False"
| "mqtt_event (FE_Main _ _) = False"
| "mqtt_event (FE_TestDone _) = False"
| "mqtt_event _ = True"

text \<open>From one state of the firmware to another by events of the MQTT task, in environments with the same channels.\<close>

definition mqtt_path :: "Env \<Rightarrow> Firmware \<Rightarrow> Firmware \<Rightarrow> bool" where
  "mqtt_path e fw fw' \<longleftrightarrow>
     (\<exists>evs. list_all (\<lambda>ev. mqtt_event (snd ev) \<and> accepts (fst ev) = accepts e) evs \<and> run_machine fw_step fw evs = (fw', []))"

lemma mqtt_path_refl [simp, intro]: "mqtt_path e fw fw"
  by (auto simp: mqtt_path_def intro: exI [of _ "[]"])

lemma mqtt_path_trans: "mqtt_path e fw fw1 \<Longrightarrow> mqtt_path e fw1 fw2 \<Longrightarrow> mqtt_path e fw fw2"
proof -
  assume "mqtt_path e fw fw1" "mqtt_path e fw1 fw2"
  then obtain xs ys where x: "list_all (\<lambda>ev. mqtt_event (snd ev) \<and> accepts (fst ev) = accepts e) xs"
      "run_machine fw_step fw xs = (fw1, [])"
    and y: "list_all (\<lambda>ev. mqtt_event (snd ev) \<and> accepts (fst ev) = accepts e) ys" "run_machine fw_step fw1 ys = (fw2, [])"
    by (auto simp: mqtt_path_def)
  have "run_machine fw_step fw (xs @ ys) = (fw2, [])" using x(2) y(2) by (simp add: run_machine_append)
  with x(1) y(1) show ?thesis unfolding mqtt_path_def by (intro exI [of _ "xs @ ys"]) simp
qed

lemma mqtt_path_event:
  assumes "\<not> fw_panicked fw" and "mqtt_event ev" and "accepts e' = accepts e" and "fw_event e' ev fw = (fw', [])"
  shows "mqtt_path e fw fw'"
  using assms unfolding mqtt_path_def by (intro exI [of _ "[(e', ev)]"]) (simp add: fw_step_def)

lemma mqtt_event_not_panicked: "mqtt_event ev \<Longrightarrow> fw_panicked (fst (fw_event e ev fw)) = fw_panicked fw"
  by (cases ev) simp_all

lemma mqtt_path_not_panicked:
  assumes "mqtt_path e fw fw'" shows "fw_panicked fw' = fw_panicked fw"
proof -
  obtain evs where e: "list_all (\<lambda>ev. mqtt_event (snd ev) \<and> accepts (fst ev) = accepts e) evs"
    "run_machine fw_step fw evs = (fw', [])"
    using assms by (auto simp: mqtt_path_def)
  have "list_all (\<lambda>ev. mqtt_event (snd ev) \<and> accepts (fst ev) = accepts e) evs \<Longrightarrow>
      fw_panicked (fst (run_machine fw_step fw evs)) = fw_panicked fw" for evs
  proof (induction evs arbitrary: fw)
    case (Cons ev evs)
    have "fw_panicked (fst (fw_step fw ev)) = fw_panicked fw"
      using Cons.prems mqtt_event_not_panicked [of "snd ev" "fst ev" fw] by (simp add: fw_step_def)
    then show ?case using Cons.IH [of "fst (fw_step fw ev)"] Cons.prems by (simp add: run_machine_Cons_proj(1) del: run_machine.simps)
  qed simp
  from this [OF e(1)] show ?thesis by (simp add: e(2) del: run_machine.simps)
qed

text \<open>The single effects of the task.\<close>

lemma path_tick: "\<not> fw_panicked fw \<Longrightarrow> mqtt_path e fw (bump_tick fw)"
  by (rule mqtt_path_event [of _ FE_MqttTick e]) (simp_all add: bump_tick_def)

lemma path_count: "\<not> fw_panicked fw \<Longrightarrow> mqtt_path e fw (count_reconnect l fw)"
  by (rule mqtt_path_event [of _ "FE_MqttReconnect l" e]) (simp_all add: count_reconnect_def)

lemma path_alert_payload:
  "\<not> fw_panicked fw \<Longrightarrow> accepts e' = accepts e \<Longrightarrow>
     mqtt_path e fw (fw\<lparr>ALERT_CHANNEL := fst (try_send e' 4 (ALERT_CHANNEL fw) p)\<rparr>)"
  by (rule mqtt_path_event [of _ "FE_MqttAlert p" e']) simp_all

lemma path_alert: "\<not> fw_panicked fw \<Longrightarrow> mqtt_path e fw (reconnect_alert (e\<lparr>now_us := t\<rparr>) m k fw)"
  unfolding reconnect_alert_def Let_def by (rule path_alert_payload) simp_all

lemma path_take_diagnostics:
  "\<not> fw_panicked fw \<Longrightarrow> DIAGNOSTICS_CHANNEL fw = p # rest \<Longrightarrow> mqtt_path e fw (fw\<lparr>DIAGNOSTICS_CHANNEL := rest\<rparr>)"
  by (rule mqtt_path_event [of _ FE_MqttTakeDiagnostics e]) simp_all

lemma path_take_alert:
  "\<not> fw_panicked fw \<Longrightarrow> ALERT_CHANNEL fw = p # rest \<Longrightarrow> mqtt_path e fw (fw\<lparr>ALERT_CHANNEL := rest\<rparr>)"
  by (rule mqtt_path_event [of _ FE_MqttTakeAlert e]) simp_all

lemma path_take_sniff:
  "\<not> fw_panicked fw \<Longrightarrow> SNIFF_CHANNEL fw = p # rest \<Longrightarrow> mqtt_path e fw (fw\<lparr>SNIFF_CHANNEL := rest\<rparr>)"
  by (rule mqtt_path_event [of _ FE_MqttTakeSniff e]) simp_all

lemma path_take_state:
  "\<not> fw_panicked fw \<Longrightarrow> STATE_CHANNEL fw = msg # rest \<Longrightarrow> mqtt_path e fw (fw\<lparr>STATE_CHANNEL := rest\<rparr>)"
  by (rule mqtt_path_event [of _ FE_MqttTakeState e]) simp_all

lemmas path_take = path_take_diagnostics path_take_alert path_take_sniff path_take_state

lemma path_send_command:
  "\<not> fw_panicked fw \<Longrightarrow> mqtt_path e fw (fw\<lparr>COMMAND_CHANNEL := fst (try_send e 4 (COMMAND_CHANNEL fw) cmd)\<rparr>)"
  by (rule mqtt_path_event [of _ "FE_MqttCommand cmd" e]) simp_all

lemma path_send_pump:
  "\<not> fw_panicked fw \<Longrightarrow> mqtt_path e fw (fw\<lparr>PUMP_TIMER_CHANNEL := fst (try_send e 4 (PUMP_TIMER_CHANNEL fw) (i, m))\<rparr>)"
  by (rule mqtt_path_event [of _ "FE_MqttPumpTimer i m" e]) simp_all

lemma path_send_ota:
  "\<not> fw_panicked fw \<Longrightarrow> mqtt_path e fw (fw\<lparr>OTA_CHANNEL := fst (try_send e 1 (OTA_CHANNEL fw) url)\<rparr>)"
  by (rule mqtt_path_event [of _ "FE_MqttOta url" e]) simp_all

lemmas path_send = path_send_command path_send_pump path_send_ota

lemma and_then_Returns: "and_then r f = Returns y \<longleftrightarrow> (\<exists>x. r = Returns x \<and> f x = Returns y)"
  by (cases r) simp_all

lemma path_reconnect_loop:
  "reconnect_loop k a al e atts cel ls m now c fw = Returns (c', fw', t', b) \<Longrightarrow> \<not> fw_panicked fw \<Longrightarrow> mqtt_path e fw fw'"
proof (induction k arbitrary: a al now c fw)
  case (Suc k)
  obtain c1 t r where r: "reconnect_and_sync now (atts (a + 1)) cel ls c = Returns (c1, t, r)"
    using Suc.prems(1) by (auto simp: Let_def and_then_Returns)
  show ?case
  proof (cases r)
    case (Inl x)
    define fw1 where "fw1 = (if a + 1 > 3 \<and> (case al of None \<Rightarrow> True | Some s \<Rightarrow> sat_sub t s \<ge> 60000000)
      then reconnect_alert (e\<lparr>now_us := t\<rparr>) m (a + 1) fw else fw)"
    have p: "mqtt_path e fw fw1" using path_alert [OF Suc.prems(2)] by (simp add: fw1_def)
    then have "\<not> fw_panicked fw1" using mqtt_path_not_panicked Suc.prems(2) by blast
    then have "mqtt_path e fw1 fw'"
      using Suc.prems(1) Suc.IH [of "a + 1" _ _ c1 fw1] r Inl
      by (auto simp: Let_def fw1_def [symmetric] split: if_splits)
    with p show ?thesis by (rule mqtt_path_trans)
  next
    case (Inr u)
    then show ?thesis using Suc.prems(1) r by (simp add: Let_def)
  qed
qed simp

lemma path_reconnect:
  assumes "reconnect_with_backoff e atts m now t fw = Returns (t', fw', now')" and "\<not> fw_panicked fw"
  shows "mqtt_path e fw fw'"
  using assms(1) path_reconnect_loop [OF _ assms(2)] by (auto simp: reconnect_with_backoff_def and_then_Returns)

lemma path_channel_work:
  assumes "channel_work now t fw = Some (t', fw')" and "\<not> fw_panicked fw" shows "mqtt_path e fw fw'"
  using assms(1) path_take [OF assms(2)]
  by (auto simp: channel_work_def Let_def split: if_splits list.splits option.splits)

lemma accepts_path: "accepts e' = accepts e \<Longrightarrow> mqtt_path e' fw fw' = mqtt_path e fw fw'"
  by (simp add: mqtt_path_def)

lemma path_receive_turn:
  assumes "receive_turn e fuel atts now t fw = Returns (t', fw')" and "\<not> fw_panicked fw"
  shows "mqtt_path e fw fw'"
proof -
  obtain c t1 r where r: "recv fuel (now + 1000000) now (mt_client t) = (c, t1, r)" by (cases "recv fuel (now + 1000000) now (mt_client t)")
  show ?thesis
  proof (cases r)
    case Recv_Lost
    let ?fw = "count_reconnect True fw"
    obtain t2 fw2 n2 where w: "reconnect_with_backoff e atts (lit ''mqtt_reconnect_loop'') t1
        (set_client t (c\<lparr>last_disconnect := None\<rparr>)) ?fw = Returns (t2, fw2, n2)"
      "fw' = (if mt_phase t2 = MP_Reset then fw2 else bump_tick fw2)"
      using assms(1) r Recv_Lost by (auto simp: receive_turn_def and_then_Returns)
    have a: "mqtt_path e fw ?fw" using path_count [OF assms(2)] .
    then have "\<not> fw_panicked ?fw" using mqtt_path_not_panicked assms(2) by blast
    note b = mqtt_path_trans [OF a path_reconnect [OF w(1) this]]
    then have "\<not> fw_panicked fw2" using mqtt_path_not_panicked assms(2) by blast
    then show ?thesis using w(2) b mqtt_path_trans [OF b path_tick] by simp
  qed (use assms r path_tick [OF assms(2)] in \<open>auto simp: receive_turn_def Let_def split: if_splits\<close>)
qed

lemma path_turn:
  assumes "mqtt_turn e fuel w wa atts t fw = Returns (t', fw')" and "\<not> fw_panicked fw"
  shows "mqtt_path e fw fw'"
proof -
  obtain t1 fw1 now where 1: "(if w then reconnect_with_backoff e wa (lit ''wifi_reconnect_loop'') (now_us e) t (count_reconnect False fw)
      else Returns (t, fw, now_us e)) = Returns (t1, fw1, now)"
    using assms(1) by (auto simp: mqtt_turn_def and_then_Returns)
  have p: "mqtt_path e fw fw1"
  proof (cases w)
    case True
    have a: "mqtt_path e fw (count_reconnect False fw)" using path_count [OF assms(2)] .
    then have "\<not> fw_panicked (count_reconnect False fw)" using mqtt_path_not_panicked assms(2) by blast
    with True 1 a show ?thesis using mqtt_path_trans path_reconnect by fastforce
  qed (use 1 in simp)
  then have n: "\<not> fw_panicked fw1" using mqtt_path_not_panicked assms(2) by blast
  consider "fw' = fw1" | t2 where "channel_work now t1 fw1 = Some (t2, fw')"
    | "receive_turn (e\<lparr>now_us := now\<rparr>) fuel atts now t1 fw1 = Returns (t', fw')"
    using assms(1) 1 by (auto simp: mqtt_turn_def split: if_splits option.splits)
  then have "mqtt_path e fw1 fw'"
  proof cases
    case 3
    then have "mqtt_path (e\<lparr>now_us := now\<rparr>) fw1 fw'" by (rule path_receive_turn [OF _ n])
    then show ?thesis using accepts_path [of "e\<lparr>now_us := now\<rparr>" e] by simp
  qed (use path_channel_work [OF _ n] in auto)
  with p show ?thesis by (rule mqtt_path_trans)
qed

lemma try_send_taken: "try_send e n ch x = (ch', True) \<Longrightarrow> ch' = fst (try_send e n ch x)"
  by simp

lemma path_step:
  assumes "mqtt_step e fuel w wa atts t fw = Returns (t', fw')" and "\<not> fw_panicked fw"
  shows "mqtt_path e fw fw'"
proof -
  have tick: "mqtt_path e fw x \<Longrightarrow> mqtt_path e fw (bump_tick x)" for x
    using mqtt_path_trans path_tick mqtt_path_not_panicked assms(2) by blast
  show ?thesis
  proof (cases "mt_phase t")
    case MP_Loop
    then show ?thesis using assms path_turn by (simp add: mqtt_step_def)
  next
    case (MP_SendCommand cmd)
    then show ?thesis using assms(1) tick path_send_command [OF assms(2), of e cmd]
      by (auto simp: mqtt_step_def Let_def dest!: try_send_taken split: prod.splits bool.splits if_splits)
  next
    case (MP_SendPump i m)
    then show ?thesis using assms(1) tick path_send_pump [OF assms(2), of e i m]
      by (auto simp: mqtt_step_def dest!: try_send_taken split: prod.splits bool.splits)
  next
    case (MP_SendOta url)
    then show ?thesis using assms(1) path_send_ota [OF assms(2), of e url]
      by (auto simp: mqtt_step_def dest!: try_send_taken split: prod.splits bool.splits)
  qed (use assms(1) in \<open>simp_all add: mqtt_step_def\<close>)
qed

section \<open>The tasks together\<close>

text \<open>
  The firmware with the MQTT task in the place of the events that stood for it. A turn of the task that
  waits for ever has no successor, and the others go on.
\<close>

inductive system :: "Env \<Rightarrow> rstr \<Rightarrow> rstr \<Rightarrow> bool \<Rightarrow> MqttTask \<Rightarrow> MqttTask \<Rightarrow> Firmware \<Rightarrow> Obs list \<Rightarrow> bool"
  for e0 version device_id ota t0 where
  system_start: "system e0 version device_id ota t0 t0 (firmware_new e0 version device_id ota) []"
| system_other: "system e0 version device_id ota t0 t fw os \<Longrightarrow> documented e \<Longrightarrow> \<not> mqtt_event ev \<Longrightarrow>
    fw_step fw (e, ev) = (fw', os') \<Longrightarrow> system e0 version device_id ota t0 t fw' (os @ os')"
| system_mqtt: "system e0 version device_id ota t0 t fw os \<Longrightarrow> documented e \<Longrightarrow>
    mqtt_step e fuel wifi wifi_atts atts t fw = Returns (t', fw') \<Longrightarrow> system e0 version device_id ota t0 t' fw' os"

inductive_cases system_cases: "system e0 version device_id ota t0 t fw os"

lemma documented_path:
  "documented e \<Longrightarrow> mqtt_path e fw fw' \<Longrightarrow>
     \<exists>evs. list_all (\<lambda>ev. documented (fst ev)) evs \<and> run_machine fw_step fw evs = (fw', [])"
  by (fastforce simp: mqtt_path_def documented_def list_all_iff)

lemma system_run:
  assumes "system e0 version device_id ota t0 t fw os"
  shows "\<exists>evs. list_all (\<lambda>ev. documented (fst ev)) evs \<and> run_machine fw_step (firmware_new e0 version device_id ota) evs = (fw, os)"
  using assms
proof (induction rule: system.induct)
  case system_start
  show ?case by (rule exI [of _ "[]"]) simp
next
  case (system_other t fw os e ev fw' os')
  obtain evs where evs: "list_all (\<lambda>ev. documented (fst ev)) evs"
    "run_machine fw_step (firmware_new e0 version device_id ota) evs = (fw, os)"
    using system_other.IH by blast
  then have "run_machine fw_step (firmware_new e0 version device_id ota) (evs @ [(e, ev)]) = (fw', os @ os')"
    using system_other.hyps by (simp add: run_machine_append)
  with evs(1) system_other.hyps show ?case by (intro exI [of _ "evs @ [(e, ev)]"]) simp
next
  case (system_mqtt t fw os e fuel wifi wifi_atts atts t' fw')
  obtain evs where evs: "list_all (\<lambda>ev. documented (fst ev)) evs"
    "run_machine fw_step (firmware_new e0 version device_id ota) evs = (fw, os)"
    using system_mqtt.IH by blast
  have "\<not> fw_panicked fw" using reachable_shared [OF evs] by (simp add: shared_ok_def base_ok_def)
  from path_step [OF system_mqtt.hyps(3) this] documented_path [OF system_mqtt.hyps(2)]
  obtain more where more: "list_all (\<lambda>ev. documented (fst ev)) more" "run_machine fw_step fw more = (fw', [])" by blast
  have "run_machine fw_step (firmware_new e0 version device_id ota) (evs @ more) = (fw', os)"
    using evs(2) more(2) by (simp add: run_machine_append)
  with evs(1) more(1) show ?case by (intro exI [of _ "evs @ more"]) simp
qed

section \<open>The phase of the main loop\<close>

lemma execute_action_phase: "ml_phase (main_loop (execute_action e b fw act)) = ml_phase (main_loop fw)"
  by (cases act) (simp_all add: execute_action_def send_alert_def publish_diagnostics_def Let_def split: prod.splits bool.splits)

lemma execute_actions_phase: "ml_phase (main_loop (execute_actions e acts b fw)) = ml_phase (main_loop fw)"
  unfolding execute_actions_def by (induction acts arbitrary: fw) (simp_all add: execute_action_phase)

lemma run_app_phase: "ml_phase (main_loop (fst (run_app e f fw))) = ml_phase (main_loop fw)"
  by (simp add: run_app_def execute_actions_phase Let_def split: prod.splits)

lemma drain_pump_timers_phase: "ml_phase (main_loop (fst (drain_pump_timers e ps fw))) = ml_phase (main_loop fw)"
  by (induction e ps fw rule: drain_pump_timers.induct) (simp_all add: seq_do_def run_app_phase split_beta Let_def)

section \<open>Publishing\<close>

definition writable :: "MqttClient \<Rightarrow> bool" where
  "writable c \<longleftrightarrow> (\<exists>sk. mq_transport c = Some sk \<and> (\<forall>n. sk_write_ok sk n))"

definition sent_by :: "MqttClient \<Rightarrow> u8 list list" where
  "sent_by c = (case mq_transport c of Some sk \<Rightarrow> sk_sent sk | None \<Rightarrow> [])"

lemma encode_publish_Some:
  "qos \<le> 1 \<Longrightarrow> (packet_id = None) = (qos = 0) \<Longrightarrow> \<exists>bs. encode_publish topic p qos retain packet_id = Inr bs"
  using encode_publish_packet by blast

text \<open>A publication on a connection that takes what is written: one more packet, with the topic and payload.\<close>

lemma publish_sends:
  assumes "writable c" and "qos \<le> 1"
  shows "\<exists>i bs. snd (publish now topic p qos retain c) = Inr () \<and> encode_publish topic p qos retain i = Inr bs \<and>
    sent_by (fst (publish now topic p qos retain c)) = sent_by c @ [bs] \<and> writable (fst (publish now topic p qos retain c)) \<and>
    mq_device_id (fst (publish now topic p qos retain c)) = mq_device_id c"
proof -
  obtain sk where sk: "mq_transport c = Some sk" "\<And>n. sk_write_ok sk n" using assms(1) by (auto simp: writable_def)
  let ?i = "if qos > 0 then Some (next_packet_id c) else None"
  have "(?i = None) = (qos = 0)" by (simp add: word_gt_0)
  from encode_publish_Some [OF assms(2) this]
  obtain bs where bs: "encode_publish topic p qos retain ?i = Inr bs" by blast
  show ?thesis
  proof (cases "0 < qos")
    case True
    then show ?thesis
      using sk bs by (intro exI [of _ ?i] exI [of _ bs])
        (auto simp: publish_def allocate_packet_id_def send_bytes_ok Let_def writable_def sent_by_def)
  next
    case False
    then have "?i = None" by simp
    then show ?thesis
      using sk bs False by (intro exI [of _ None] exI [of _ bs])
        (auto simp: publish_def send_bytes_ok writable_def sent_by_def)
  qed
qed

text \<open>That a packet publishes something, whatever its identifier.\<close>

definition publishes :: "rstr \<Rightarrow> u8 list \<Rightarrow> u8 \<Rightarrow> bool \<Rightarrow> u8 list \<Rightarrow> bool" where
  "publishes topic p qos retain packet \<longleftrightarrow> (\<exists>i. encode_publish topic p qos retain i = Inr packet)"

lemma publish_result:
  assumes "writable c" and "qos \<le> 1"
  obtains c' bs where "publish now topic p qos retain c = (c', Inr ())" and "publishes topic p qos retain bs"
    and "sent_by c' = sent_by c @ [bs]" and "writable c'" and "mq_device_id c' = mq_device_id c"
  using publish_sends [OF assms, of now topic p retain] by (cases "publish now topic p qos retain c") (auto simp: publishes_def)

definition availability_sent :: "MqttClient \<Rightarrow> rstr \<Rightarrow> u8 list \<Rightarrow> bool" where
  "availability_sent c value packet = publishes (availability_topic (client_topics c)) (as_bytes value) 1 True packet"

lemma stale_sends:
  assumes "writable c"
  shows "\<exists>bs. availability_sent c (lit ''stale'') bs \<and> sent_by (fst (publish_availability_stale now c)) = sent_by c @ [bs]"
  using publish_result [OF assms, of 1 now "availability_topic (client_topics c)" "as_bytes (lit ''stale'')" True]
  by (metis publish_availability_stale_def availability_sent_def fst_conv order_refl)

lemma online_sends:
  assumes "writable c"
  shows "\<exists>bs boot. availability_sent c (lit ''online'') bs \<and> sent_by (fst (publish_availability now True c)) = sent_by c @ [bs, boot]"
proof -
  obtain c' bs where 1: "publish now (availability_topic (client_topics c)) (as_bytes (lit ''online'')) 1 True c = (c', Inr ())"
    "publishes (availability_topic (client_topics c)) (as_bytes (lit ''online'')) 1 True bs"
    "sent_by c' = sent_by c @ [bs]" "writable c'" "mq_device_id c' = mq_device_id c"
    using publish_result [OF assms order_refl] .
  obtain c2 boot where 2: "publish now (boot_topic (client_topics c)) (as_bytes (show_nat (unat (boot_id c')))) 1 True c' = (c2, Inr ())"
    "sent_by c2 = sent_by c' @ [boot]"
    using publish_result [OF 1(4) order_refl] .
  show ?thesis using 1 2 by (auto simp: publish_availability_def availability_sent_def)
qed

lemma publish_state_keeps:
  assumes "writable c"
  shows "writable (fst (publish_state now st fault sn rssi retain reg c)) \<and>
    client_topics (fst (publish_state now st fault sn rssi retain reg c)) = client_topics c"
proof -
  have "writable (fst (publish now topic p 1 retain c)) \<and> mq_device_id (fst (publish now topic p 1 retain c)) = mq_device_id c"
    for topic p using publish_sends [OF assms order_refl] by blast
  then show ?thesis by (simp add: publish_state_def client_topics_def)
qed

lemma handle_state_availability:
  assumes "writable (mt_client t)"
  shows "\<exists>before bs boot. availability_sent (mt_client t) (if sm_recovering_from_stale msg then lit ''stale'' else lit ''online'') bs \<and>
    sent_by (mt_client (handle_state now msg t)) = before @ bs # (if sm_recovering_from_stale msg then [] else [boot])"
proof -
  define c where "c = (\<lambda>x. if sm_recovering_from_stale msg then fst (publish_availability_stale now x) else fst (publish_availability now True x))"
  obtain x where x: "mt_client (handle_state now msg t) = c x" "writable x" "client_topics x = client_topics (mt_client t)"
  proof (rule that)
    let ?pub = "fst (publish_state now (sm_status msg) (fault_buf_as_str (sm_fault msg)) (sm_sniff_mode msg)
      (sm_wifi_rssi msg) False (sm_registration_state msg) (mt_client t))"
    let ?x = "if sm_recovering_from_stale msg \<or>
        status_changed (if sm_sniff_mode msg \<noteq> last_sniff_mode t \<or> sm_registration_state msg \<noteq> last_registration_state t
          then None else last_published_status t) (sm_status msg) \<or> sm_wifi_rssi msg \<noteq> last_wifi_rssi t
      then ?pub else mt_client t"
    show "mt_client (handle_state now msg t) = c ?x" by (simp add: handle_state_def Let_def set_client_def c_def)
    show "writable ?x" "client_topics ?x = client_topics (mt_client t)" using publish_state_keeps [OF assms] assms by simp_all
  qed
  then show ?thesis
    using stale_sends [OF x(2), of now] online_sends [OF x(2), of now]
    by (cases "sm_recovering_from_stale msg") (fastforce simp: c_def availability_sent_def)+
qed

section \<open>What the task forwards\<close>

definition encodes :: "Command \<Rightarrow> bool" where
  "encodes cmd \<longleftrightarrow> (case command_encode cmd of Inl _ \<Rightarrow> False | Inr _ \<Rightarrow> True)"

text \<open>A set point needs a known scale and range, and is at most half a degree outside of their limits.\<close>

definition command_allowed :: "(TemperatureScale \<times> TempRange) option \<Rightarrow> Command \<Rightarrow> bool" where
  "command_allowed sr cmd \<longleftrightarrow> encodes cmd \<and>
     (case cmd of
        SetTemperature w \<Rightarrow>
          (case sr of None \<Rightarrow> False
           | Some (scale, rng) \<Rightarrow>
               let lo = unat (fst (temp_limits scale rng)); hi = unat (snd (temp_limits scale rng)) in
               (case scale of Fahrenheit \<Rightarrow> lo \<le> unat w \<and> unat w \<le> hi
                | Celsius \<Rightarrow> 2 * lo \<le> unat w + 1 \<and> unat w \<le> 2 * hi + 1))
      | _ \<Rightarrow> True)"

definition forward_ok :: "(TemperatureScale \<times> TempRange) option \<Rightarrow> MqttPhase \<Rightarrow> bool" where
  "forward_ok sr ph \<longleftrightarrow>
     (case ph of MP_SendCommand cmd \<Rightarrow> command_allowed sr cmd
      | MP_SendPump i m \<Rightarrow> 1 \<le> unat i \<and> unat i \<le> 6 \<and> 0 < m \<and> m \<le> 120
      | _ \<Rightarrow> True)"

lemma client_command_allowed:
  assumes "client_parse_command base topic p (map_option fst sr) (map_option snd sr) = Some (Action_Command cmd)"
  shows "command_allowed sr cmd"
proof (cases "\<exists>w. cmd = SetTemperature w")
  case True
  then obtain w where w: "cmd = SetTemperature w" by blast
  from assms obtain scale rng where sr: "sr = Some (scale, rng)"
    unfolding client_parse_command_def w
    by (cases sr) (auto split: ParseResult.splits Command.splits)
  have b: "(let lo = unat (fst (temp_limits scale rng)); hi = unat (snd (temp_limits scale rng)) in
    case scale of Fahrenheit \<Rightarrow> lo \<le> unat w \<and> unat w \<le> hi
    | Celsius \<Rightarrow> 2 * lo \<le> unat w + 1 \<and> unat w \<le> 2 * hi + 1)"
    using set_point_in_bounds assms sr w by simp
  then have "unat w \<le> 108" by (cases scale; cases rng) (simp_all add: Let_def)
  then have "encodes (SetTemperature w)"
    by (simp add: encodes_def ABSOLUTE_MAX_TEMP_F_def word_less_nat_alt not_less)
  then show ?thesis using b sr w by (simp add: command_allowed_def)
next
  case False
  from assms have v: "parse_command base topic p = Valid cmd"
    using False unfolding client_parse_command_def
    by (auto split: ParseResult.splits Command.splits option.splits sum.splits)
  then obtain st ps where "parse_subtopic st ps = Valid cmd" using parse_command_subtopic [OF v] by auto
  from parse_subtopic_Valid [OF this] have "encodes cmd"
    by (auto simp: encodes_def Let_def ABSOLUTE_MAX_TEMP_F_def not_less hour_flag)
  with False show ?thesis by (auto simp: command_allowed_def split: Command.split)
qed

lemma client_timer_allowed:
  assumes "client_parse_command base topic p sc rn = Some (StartPumpTimer i m)"
  shows "1 \<le> unat i \<and> unat i \<le> 6 \<and> 0 < m \<and> m \<le> 120"
proof -
  have v: "parse_command base topic p = TimerPump m i"
    using assms unfolding client_parse_command_def
    by (auto split: ParseResult.splits Command.splits option.splits sum.splits)
  then obtain st ps where "parse_subtopic st ps = TimerPump m i" using parse_command_subtopic [OF v] by auto
  from parse_subtopic_TimerPump [OF this] show ?thesis by simp
qed

lemma set_client_simps [simp]:
  "mt_phase (set_client t c) = mt_phase t" "last_scale_range (set_client t c) = last_scale_range t"
  "mt_client (set_client t c) = c"
  by (simp_all add: set_client_def)

lemma forward_ok_other [simp]:
  "forward_ok sr MP_Loop" "forward_ok sr MP_Rest" "forward_ok sr MP_Reset" "forward_ok sr (MP_SendOta url)"
  by (simp_all add: forward_ok_def)

lemma forward_ok_plain: "forward_ok sr (MP_SendCommand (Sniff n))" "forward_ok sr (MP_SendCommand Reboot)"
  by (simp_all add: forward_ok_def command_allowed_def encodes_def)

lemma reconnect_keeps:
  assumes "reconnect_with_backoff e atts msg now t fw = Returns (t', fw', now')"
  shows "last_scale_range t' = last_scale_range t" and "mt_phase t' = mt_phase t \<or> mt_phase t' = MP_Reset"
  using assms by (auto simp: reconnect_with_backoff_def and_then_Returns split: if_splits)

lemma handle_state_phase: "mt_phase (handle_state now msg t) = mt_phase t"
  by (simp add: handle_state_def Let_def)

lemma channel_work_phase: "channel_work now t fw = Some (t', fw') \<Longrightarrow> mt_phase t' = mt_phase t"
  by (auto simp: channel_work_def task_publish_def drain_log_def handle_state_phase Let_def
      split: if_splits list.splits option.splits prod.splits)

lemma handle_message_forwards:
  assumes "mt_phase t = MP_Loop"
  shows "forward_ok (last_scale_range t) (mt_phase (handle_message now topic p t))"
proof (cases "message_continues topic (mt_client t)")
  case True
  then show ?thesis
    using assms forward_ok_plain
    by (auto simp: handle_message_def message_continues_def Let_def split: option.splits)
next
  case False
  let ?r = "client_parse_command (command_topic (client_topics (mt_client t))) topic p
    (map_option fst (last_scale_range t)) (map_option snd (last_scale_range t))"
  have plain: "handle_message now topic p t = (case ?r of
      Some (Action_Command cmd) \<Rightarrow>
        if (case cmd of SetTemperature _ \<Rightarrow> True | _ \<Rightarrow> False) then t\<lparr>mt_phase := MP_SendCommand cmd\<rparr>
        else let (c1, allowed_now) = check_rate_limit now (mt_client t) in
          if allowed_now then (set_client t c1)\<lparr>mt_phase := MP_SendCommand cmd\<rparr> else set_client t c1
    | Some (StartPumpTimer pump_no minutes) \<Rightarrow> t\<lparr>mt_phase := MP_SendPump pump_no minutes\<rparr>
    | None \<Rightarrow> t)"
    using False by (simp add: handle_message_def message_continues_def Let_def)
  show ?thesis
  proof (cases ?r)
    case (Some act)
    show ?thesis
    proof (cases act)
      case (Action_Command cmd)
      then have "forward_ok (last_scale_range t) (MP_SendCommand cmd)"
        using Some client_command_allowed by (simp add: forward_ok_def)
      then show ?thesis using Some Action_Command assms by (simp add: plain Let_def split: prod.splits)
    next
      case (StartPumpTimer i m)
      then have "forward_ok (last_scale_range t) (MP_SendPump i m)"
        using Some client_timer_allowed by (simp add: forward_ok_def)
      then show ?thesis using Some StartPumpTimer by (simp add: plain)
    qed
  qed (use assms plain in simp)
qed

lemma receive_turn_forwards:
  assumes "receive_turn e fuel atts now t fw = Returns (t', fw')" and "mt_phase t = MP_Loop"
  shows "forward_ok (last_scale_range t) (mt_phase t')"
proof -
  obtain c t1 r where r: "recv fuel (now + 1000000) now (mt_client t) = (c, t1, r)" by (cases "recv fuel (now + 1000000) now (mt_client t)")
  show ?thesis
  proof (cases r)
    case (Recv_Message topic p)
    then have "t' = handle_message t1 topic p (set_client t c)" using assms(1) r by (auto simp: receive_turn_def Let_def)
    then show ?thesis using handle_message_forwards [of "set_client t c" t1 topic p] assms(2) by simp
  next
    case Recv_Lost
    obtain t2 fw2 n2 where w: "reconnect_with_backoff e atts (lit ''mqtt_reconnect_loop'') t1
        (set_client t (c\<lparr>last_disconnect := None\<rparr>)) (count_reconnect True fw) = Returns (t2, fw2, n2)" "t' = t2"
      using assms(1) r Recv_Lost by (auto simp: receive_turn_def and_then_Returns)
    then have "mt_phase t' = MP_Loop \<or> mt_phase t' = MP_Reset" using reconnect_keeps(2) [OF w(1)] assms(2) by simp
    then show ?thesis by auto
  qed (use assms r in \<open>auto simp: receive_turn_def\<close>)
qed

section \<open>Properties\<close>

text \<open>
  Property C10: the MQTT task does what the model of the firmware lets it do. Every run of the tasks together, whatever
  the broker sends, the network does and the scheduler decides, is for the other tasks a run of the firmware
  against events of its environment, with the same observations; so the tasks do not panic, the registration flag
  agrees with the application, and no channel holds more than its capacity.
\<close>

theorem system_refines_firmware:
  assumes "system e0 version device_id ota t0 t fw os"
  shows "(\<exists>evs. list_all (\<lambda>ev. documented (fst ev)) evs \<and>
      run_machine fw_step (firmware_new e0 version device_id ota) evs = (fw, os)) \<and>
    \<not> fw_panicked fw \<and> APP_REGISTERED fw = app_is_registered (ml_app (main_loop fw)) \<and> channels_ok fw \<and> list_all obs_ok os"
  using system_run [OF assms] reachable_shared by (fastforce simp: shared_ok_def base_ok_def flag_ok_def)

definition example_task :: "MqttPhase \<Rightarrow> MqttTask" where
  "example_task ph = (mqtt_task_new (open_client []) (Some init_remote_log))\<lparr>mt_phase := ph\<rparr>"

theorem system_refines_firmware_witness:
  "channels_ok ((firmware_new example_env (lit ''1'') (lit ''spa'') True)\<lparr>COMMAND_CHANNEL := [Reboot]\<rparr>)"
proof -
  let ?fw = "firmware_new example_env (lit ''1'') (lit ''spa'') True" and ?t = "example_task (MP_SendCommand Reboot)"
  have "mqtt_step example_env 0 False undefined undefined ?t ?fw =
      Returns (?t\<lparr>mt_phase := MP_Loop\<rparr>, ?fw\<lparr>COMMAND_CHANNEL := [Reboot]\<rparr>)"
    by (simp add: mqtt_step_def example_task_def try_send_def example_env_def firmware_new_def counted_command_def Let_def)
  from system_refines_firmware [OF system_mqtt [OF system_start example_env_exact(2) this]] show ?thesis by simp
qed

text \<open>
  Property C16: a connection test is the end of the MQTT task. A request whose address asks for the test is put
  into the channel like any update; the task then rests for good, since it expects the device to reset. The main
  loop runs the test and goes on without a reset, so from then on nothing is published and no command is received.
\<close>

theorem test_request_ends_mqtt:
  assumes "mt_phase t = MP_SendOta url" and "sublist (lit ''?test=1'') url" and "OTA_CHANNEL fw = []"
    and "accepts e 1 0" and "ml_phase (main_loop fw) = Main_Running"
  shows "\<exists>t' fw'. mqtt_step e fuel wifi wifi_atts atts t fw = Returns (t', fw') \<and>
    ml_phase (main_loop (fst (test_done e2 passed (tick_ota e1 fw')))) = Main_Running \<and>
    (\<forall>e fuel wifi wifi_atts atts fw2. mqtt_step e fuel wifi wifi_atts atts t' fw2 = Returns (t', fw2))"
proof -
  let ?t = "t\<lparr>mt_phase := MP_Rest\<rparr>" and ?fw = "fw\<lparr>OTA_CHANNEL := [url]\<rparr>"
  have "mqtt_step e fuel wifi wifi_atts atts t fw = Returns (?t, ?fw)"
    using assms by (simp add: mqtt_step_def try_send_def)
  moreover have "ml_phase (main_loop (fst (test_done e2 passed (tick_ota e1 ?fw)))) = Main_Running"
    using assms(2,5)
    by (simp add: tick_ota_def test_done_def tick_end_def drain_pump_timers_phase set_phase_def send_alert_def Let_def)
  moreover have "mqtt_step e fuel wifi wifi_atts atts ?t fw2 = Returns (?t, fw2)" for e fuel wifi wifi_atts atts fw2
    by (simp add: mqtt_step_def)
  ultimately show ?thesis by blast
qed

theorem test_request_ends_mqtt_witness:
  "\<exists>t' fw'. mqtt_step example_env 0 False (\<lambda>_. \<lparr>at_resolved = False, at_socket = None\<rparr>) (\<lambda>_. \<lparr>at_resolved = False, at_socket = None\<rparr>)
      (example_task (MP_SendOta (lit ''http://10.0.0.1/f?test=1''))) (firmware_new example_env (lit ''1'') (lit ''spa'') True) =
      Returns (t', fw') \<and>
    ml_phase (main_loop (fst (test_done example_env True (tick_ota example_env fw')))) = Main_Running \<and>
    (\<forall>e fuel wifi wifi_atts atts fw2. mqtt_step e fuel wifi wifi_atts atts t' fw2 = Returns (t', fw2))"
proof (rule test_request_ends_mqtt)
  have "lit ''http://10.0.0.1/f?test=1'' = lit ''http://10.0.0.1/f'' @ lit ''?test=1'' @ []" by (simp add: lit_def)
  then show "sublist (lit ''?test=1'') (lit ''http://10.0.0.1/f?test=1'')" unfolding sublist_def by blast
qed (simp_all add: example_task_def example_env_def firmware_new_def Let_def)

text \<open>What the application asks for when the spa falls silent, and when it comes back.\<close>

definition stale_actions :: "bool \<Rightarrow> StatusUpdate \<Rightarrow> rstr option \<Rightarrow> rstr \<Rightarrow> AppAction list" where
  "stale_actions recovering status fault reg =
     (if recovering then [PublishState status fault True reg]
      else [PublishState status fault False reg, PublishStaleAvailability])"


text \<open>
  Log lines are thrown away. When more than three lines wait in the log and no channel has
  anything to publish, a turn of the task publishes the three oldest and empties the buffer, so that
  the others are neither published nor kept.
\<close>

theorem log_lines_lost:
  assumes "writable (mt_client t)" and "DIAGNOSTICS_CHANNEL fw = []" and "ALERT_CHANNEL fw = []"
    and "SNIFF_CHANNEL fw = []" and "STATE_CHANNEL fw = []" and "mt_log t = Some (app_push_all init_remote_log lines)"
    and "take_last 16 (map app_log_entry lines) = [a, b, c] @ others"
  shows "\<exists>t' x y z. channel_work now t fw = Some (t', fw) \<and> mt_log t' = Some init_remote_log \<and>
    sent_by (mt_client t') = sent_by (mt_client t) @ [x, y, z] \<and>
    (let log = log_topic (client_topics (mt_client t)) in publishes log (log_payload a) 0 False x \<and>
      publishes log (log_payload b) 0 False y \<and> publishes log (log_payload c) 0 False z)"
proof -
  let ?log = "log_topic (client_topics (mt_client t))" and ?buf = "app_push_all init_remote_log lines"
  note drained = app_drain_last_16 [of lines, unfolded assms(7)]
  have "app_log_is_empty ?buf \<Longrightarrow> snd (app_log_drain ?buf) = []" by (simp add: app_log_is_empty_def app_log_drain_def)
  with drained have some: "\<not> app_log_is_empty ?buf" by auto
  obtain c1 x where 1: "publish now ?log (log_payload a) 0 False (mt_client t) = (c1, Inr ())" "publishes ?log (log_payload a) 0 False x"
    "sent_by c1 = sent_by (mt_client t) @ [x]" "writable c1" "mq_device_id c1 = mq_device_id (mt_client t)"
    by (rule publish_result [OF assms(1), of 0]) simp_all
  obtain c2 y where 2: "publish now ?log (log_payload b) 0 False c1 = (c2, Inr ())" "publishes ?log (log_payload b) 0 False y"
    "sent_by c2 = sent_by c1 @ [y]" "writable c2" "mq_device_id c2 = mq_device_id c1"
    by (rule publish_result [OF 1(4), of 0]) simp_all
  obtain c3 z where 3: "publish now ?log (log_payload c) 0 False c2 = (c3, Inr ())" "publishes ?log (log_payload c) 0 False z"
    "sent_by c3 = sent_by c2 @ [z]" "writable c3" "mq_device_id c3 = mq_device_id c2"
    by (rule publish_result [OF 2(4), of 0]) simp_all
  have topics: "client_topics c1 = client_topics (mt_client t)" "client_topics c2 = client_topics (mt_client t)"
    using 1(5) 2(5) by (simp_all add: client_topics_def)
  have "publish_log now 0 (a # b # c # others) (mt_client t) = c3"
    using 1(1) 2(1) 3(1) topics by (cases others) (simp_all add: MAX_LOG_ENTRIES_PER_ITER_def)
  moreover have "is_connected (mt_client t)" using assms(1) by (auto simp: writable_def is_connected_def)
  ultimately have "channel_work now t fw = Some ((set_client t c3)\<lparr>mt_log := Some init_remote_log\<rparr>, fw)"
    using assms(2-6) drained some by (simp add: channel_work_def drain_log_def)
  then show ?thesis using 1(2,3) 2(2,3) 3(2,3) by (simp add: set_client_def Let_def)
qed

theorem log_lines_lost_witness:
  "\<exists>t' x y z. channel_work 0 ((example_task MP_Loop)\<lparr>mt_log := Some (app_push_all init_remote_log (replicate 9 ([], [97], 0)))\<rparr>)
      (firmware_new example_env (lit ''1'') (lit ''spa'') True) = Some (t', firmware_new example_env (lit ''1'') (lit ''spa'') True) \<and>
    mt_log t' = Some init_remote_log \<and> sent_by (mt_client t') = [x, y, z]"
proof -
  let ?t = "(example_task MP_Loop)\<lparr>mt_log := Some (app_push_all init_remote_log (replicate 9 ([], [97], 0)))\<rparr>"
  let ?e = "\<lparr>level = [], log_message = [97], timestamp_ms = 0\<rparr> :: LogEntry"
  have w: "writable (mt_client ?t)" "sent_by (mt_client ?t) = []"
    by (simp_all add: writable_def sent_by_def example_task_def mqtt_task_new_def open_client_def)
  have "take_last 16 (map app_log_entry (replicate 9 ([], [97], 0))) = [?e, ?e, ?e] @ replicate 6 ?e"
    by (simp add: take_last_def app_log_entry_def MAX_LOG_MESSAGE_LEN_def eval_nat_numeral)
  from log_lines_lost [OF w(1) _ _ _ _ _ this, of "firmware_new example_env (lit ''1'') (lit ''spa'') True" 0]
  show ?thesis using w(2) by (auto simp: firmware_new_def Let_def)
qed


text \<open>
  Property C13: what the MQTT task forwards to the main loop. Whatever arrives, a command it is about to put into
  the command channel has an encoding; a set point is forwarded only when the scale and range are known, and is at
  most half a degree outside of their limits; a pump timer names one of the six pumps and from 1 to 120 minutes.
\<close>

theorem forwarded_commands_allowed:
  assumes "mqtt_step e fuel wifi wifi_atts atts t fw = Returns (t', fw')" and "mt_phase t = MP_Loop"
  shows "forward_ok (last_scale_range t) (mt_phase t')"
proof -
  obtain t1 fw1 now where 1: "(if wifi then reconnect_with_backoff e wifi_atts (lit ''wifi_reconnect_loop'') (now_us e) t (count_reconnect False fw)
      else Returns (t, fw, now_us e)) = Returns (t1, fw1, now)"
    using assms by (auto simp: mqtt_step_def mqtt_turn_def and_then_Returns)
  have same: "last_scale_range t1 = last_scale_range t" "mt_phase t1 = MP_Loop \<or> mt_phase t1 = MP_Reset"
    using 1 reconnect_keeps [of e wifi_atts _ "now_us e" t] assms(2) by (auto split: if_splits)
  consider "t' = t1" | "mt_phase t1 = MP_Loop" "channel_work now t1 fw1 = Some (t', fw')"
    | "mt_phase t1 = MP_Loop" "receive_turn (e\<lparr>now_us := now\<rparr>) fuel atts now t1 fw1 = Returns (t', fw')"
    using assms 1 same(2) by (auto simp: mqtt_step_def mqtt_turn_def split: if_splits option.splits)
  then show ?thesis
  proof cases
    case 1
    then show ?thesis using same(2) by auto
  next
    case 2
    then show ?thesis using channel_work_phase by fastforce
  next
    case 3
    then show ?thesis using receive_turn_forwards same(1) by metis
  qed
qed

lemma reboot_message:
  defines "t \<equiv> (example_task MP_Loop)\<lparr>mt_client := (open_client [])
      \<lparr>rx_buffer := mqtt_packet (publish_type 0 False) (publish_rest (lit ''launa/spa/command/reboot'') [] None)\<rparr>\<rparr>"
  shows "\<exists>t' fw'. mqtt_step example_env 1 False atts atts t (firmware_new example_env (lit ''1'') (lit ''spa'') True) = Returns (t', fw') \<and>
    mt_phase t' = MP_SendCommand Reboot"
proof -
  let ?topic = "lit ''launa/spa/command/reboot''" and ?c = "mt_client t" and ?fw = "firmware_new example_env (lit ''1'') (lit ''spa'') True"
  have topics: "command_topic (client_topics c) = lit ''launa/spa/command''" "ota_topic (client_topics c) \<noteq> ?topic"
    if "mq_device_id c = lit ''spa''" for c
    using that by (simp_all add: client_topics_def topic_builder_new_def command_topic_def ota_topic_def device_topic_def BASE_TOPIC_def lit_def)
  have c: "mq_device_id ?c = lit ''spa''" "maybe_ping 5000000 ?c = (?c, Inr False)" "is_connected ?c"
    by (simp_all add: t_def open_client_def client_new_def maybe_ping_def DEFAULT_KEEP_ALIVE_SECS_def sat_sub_def is_connected_def)
  have "process_packets 5000000 (mqtt_packet (publish_type 0 False) (publish_rest ?topic [] None)) (?c\<lparr>rx_buffer := []\<rparr>) =
      (?c\<lparr>rx_buffer := []\<rparr>, Some (Some (?topic, [])))"
    by (subst process_publish_rest) (simp_all add: lit_def scalar_value_def as_bytes_def utf8_char_def publish_rest_def be16_def)
  from recv_loop_packet [OF c(2) _ _ this, of 0 6000000 0]
  have "recv 1 6000000 5000000 ?c = (?c\<lparr>rx_buffer := []\<rparr>, 5000000, Recv_Message ?topic [])"
    by (simp add: recv_def t_def publish_rest_def lit_def as_bytes_def utf8_char_def be16_def del: recv_loop.simps)
  moreover have "channel_work 5000000 t ?fw = None"
    using c(3) by (simp add: channel_work_def firmware_new_def t_def example_task_def mqtt_task_new_def app_log_is_empty_def
        init_remote_log_def app_set_enabled_def app_log_new_def Let_def)
  moreover have "mt_phase (handle_message 5000000 ?topic [] (set_client t (?c\<lparr>rx_buffer := []\<rparr>))) = MP_SendCommand Reboot"
    using topics [of "?c\<lparr>rx_buffer := []\<rparr>"] c(1)
    by (simp add: handle_message_def is_ota_topic_def is_ha_status_topic_def HA_STATUS_TOPIC_def strip_prefix_def lit_def)
  moreover have "mt_phase t = MP_Loop" "now_us example_env = 5000000"
    by (simp_all add: t_def example_task_def mqtt_task_new_def example_env_def)
  ultimately show ?thesis by (simp add: mqtt_step_def mqtt_turn_def receive_turn_def Let_def)
qed

theorem forwarded_commands_allowed_witness:
  "\<exists>t' fw'. mqtt_step example_env 1 False (\<lambda>_. \<lparr>at_resolved = False, at_socket = None\<rparr>) (\<lambda>_. \<lparr>at_resolved = False, at_socket = None\<rparr>)
      ((example_task MP_Loop)\<lparr>mt_client := (open_client [])
        \<lparr>rx_buffer := mqtt_packet (publish_type 0 False) (publish_rest (lit ''launa/spa/command/reboot'') [] None)\<rparr>\<rparr>)
      (firmware_new example_env (lit ''1'') (lit ''spa'') True) = Returns (t', fw') \<and>
    mt_phase t' = MP_SendCommand Reboot \<and> forward_ok None (mt_phase t')"
proof -
  let ?a = "\<lambda>_ :: u32. \<lparr>at_resolved = False, at_socket = None\<rparr> :: Attempt"
  from reboot_message [of ?a] obtain t' fw' where r: "mqtt_step example_env 1 False ?a ?a
      ((example_task MP_Loop)\<lparr>mt_client := (open_client [])
        \<lparr>rx_buffer := mqtt_packet (publish_type 0 False) (publish_rest (lit ''launa/spa/command/reboot'') [] None)\<rparr>\<rparr>)
      (firmware_new example_env (lit ''1'') (lit ''spa'') True) = Returns (t', fw')" "mt_phase t' = MP_SendCommand Reboot"
    by blast
  from forwarded_commands_allowed [OF r(1)] have "forward_ok None (mt_phase t')"
    by (simp add: example_task_def mqtt_task_new_def)
  with r show ?thesis by blast
qed

end
