(* ===== verification/ServerStore.thy ===== *)
theory ServerStore
  imports Float32 Strings "HOL-Library.AList" "HOL-Library.List_Lexorder"
begin

text \<open>
  The server's store and what writes to it: \<open>crates/launa-server/src/memory.rs\<close>, \<open>mqtt_bridge.rs\<close> and
  \<open>notifier.rs\<close>. A hash map is an association list with unique keys, its order that of iteration. The
  clock gives a text in RFC 3339 form, one reading for an operation; reading such a text (crate \<open>chrono\<close>) and
  reading JSON (crate \<open>serde_json\<close>) are arguments. The locks are left out: an operation is one step. So
  is the sending of a notice.
\<close>

section \<open>Records\<close>

record DeviceStatus =
  ds_status :: rstr
  ds_boot_id :: "u32 option"
  ds_updated_at :: rstr

record ServerLogEntry =
  sl_level :: rstr
  sl_message :: rstr
  sl_timestamp_ms :: u64
  sl_received_at :: rstr

record TimestampedEntry =
  te_payload :: rstr
  te_received_at :: rstr

record AvailabilityEntry =
  ae_status :: rstr
  ae_received_at :: rstr

record TemperatureSample =
  smp_current_temp :: "rat option"
  smp_set_temp :: "rat option"
  smp_received_at :: rstr

record ComponentEvent =
  ce_component :: rstr
  ce_state :: "32 word"
  ce_received_at :: rstr

record DeviceSummary =
  dv_device_id :: rstr
  dv_status :: rstr
  dv_boot_id :: "u32 option"
  dv_updated_at :: rstr

record AccessoryConfigData =
  ac_pumps :: u8
  ac_lights :: u8
  ac_blower :: bool
  ac_mister :: bool

record NotificationConfig =
  discord_webhook_url :: rstr
  offline_threshold_hours :: u64
  monitored_devices :: "rstr list"

type_synonym 'v hash_map = "(rstr \<times> 'v) list"

record MemoryStore =
  ms_devices :: "DeviceStatus hash_map"
  accessory_config :: AccessoryConfigData
  notification_config :: NotificationConfig
  ms_logs :: "ServerLogEntry list hash_map"
  ms_diagnostics :: "TimestampedEntry list hash_map"
  ms_alerts :: "TimestampedEntry list hash_map"
  ms_sniff_frames :: "TimestampedEntry list hash_map"
  ms_availability :: "AvailabilityEntry list hash_map"
  ms_temperatures :: "TemperatureSample list hash_map"
  ms_component_events :: "ComponentEvent list hash_map"
  ms_offline_since :: "rstr hash_map"

section \<open>Constants and helpers\<close>

definition MAX_LOG_ENTRIES :: nat where "MAX_LOG_ENTRIES = 1000"
definition MAX_DIAGNOSTICS_ENTRIES :: nat where "MAX_DIAGNOSTICS_ENTRIES = 200"
definition MAX_ALERT_ENTRIES :: nat where "MAX_ALERT_ENTRIES = 200"
definition MAX_SNIFF_ENTRIES :: nat where "MAX_SNIFF_ENTRIES = 500"
definition MAX_AVAILABILITY_ENTRIES :: nat where "MAX_AVAILABILITY_ENTRIES = 500"
definition MAX_TEMPERATURE_ENTRIES :: nat where "MAX_TEMPERATURE_ENTRIES = 50000"
definition MAX_COMPONENT_ENTRIES :: nat where "MAX_COMPONENT_ENTRIES = 10000"
definition TEMP_SAMPLE_MIN_INTERVAL_SECS :: int where "TEMP_SAMPLE_MIN_INTERVAL_SECS = 30"
definition TEMP_MIN_DELTA :: rat where "TEMP_MIN_DELTA = round_f64 (4 / 10)"

definition COMPONENT_FIELDS :: "rstr list" where
  "COMPONENT_FIELDS = map lit
     [''is_heating'', ''pump1_on'', ''pump2_on'', ''pump3_on'', ''pump4_on'', ''pump5_on'', ''pump6_on'',
      ''circ_pump'', ''blower'', ''light1'', ''light2'', ''light3'', ''light4'', ''mister'']"

definition push_capped :: "'a list \<Rightarrow> 'a \<Rightarrow> nat \<Rightarrow> 'a list" where
  "push_capped deque item mx = (if mx \<le> length deque then tl deque else deque) @ [item]"

definition recent :: "'a list \<Rightarrow> nat \<Rightarrow> 'a list" where
  "recent deque limit = drop (length deque - limit) deque"

definition recent_since :: "'a list \<Rightarrow> ('a \<Rightarrow> rstr) \<Rightarrow> rstr \<Rightarrow> 'a list" where
  "recent_since deque get_time since = filter (\<lambda>item. since \<le> get_time item) deque"

text \<open>The entry of a map, an empty queue if there is none; and a push into it.\<close>

definition entry_of :: "'a list hash_map \<Rightarrow> rstr \<Rightarrow> 'a list" where
  "entry_of m k = (case map_of m k of Some d \<Rightarrow> d | None \<Rightarrow> [])"

definition push_entry_of :: "'a list hash_map \<Rightarrow> rstr \<Rightarrow> 'a \<Rightarrow> nat \<Rightarrow> 'a list hash_map" where
  "push_entry_of m k item mx = AList.update k (push_capped (entry_of m k) item mx) m"

definition clear_entry :: "'a list hash_map \<Rightarrow> rstr \<Rightarrow> 'a list hash_map" where
  "clear_entry m k = (if map_of m k = None then m else AList.update k [] m)"

section \<open>The store\<close>

definition accessory_default :: AccessoryConfigData where
  "accessory_default = \<lparr>ac_pumps = 2, ac_lights = 1, ac_blower = True, ac_mister = False\<rparr>"

definition notification_default :: NotificationConfig where
  "notification_default = \<lparr>discord_webhook_url = [], offline_threshold_hours = 6, monitored_devices = []\<rparr>"

definition store_new :: MemoryStore where
  "store_new = \<lparr>ms_devices = [], accessory_config = accessory_default, notification_config = notification_default,
     ms_logs = [], ms_diagnostics = [], ms_alerts = [], ms_sniff_frames = [], ms_availability = [],
     ms_temperatures = [], ms_component_events = [], ms_offline_since = []\<rparr>"

definition set_accessory_config :: "AccessoryConfigData \<Rightarrow> MemoryStore \<Rightarrow> MemoryStore" where
  "set_accessory_config cfg s = s\<lparr>accessory_config := cfg\<rparr>"

definition set_notification_config :: "NotificationConfig \<Rightarrow> MemoryStore \<Rightarrow> MemoryStore" where
  "set_notification_config cfg s = s\<lparr>notification_config := cfg\<rparr>"

text \<open>
  What is kept on disk. A queue and the vector it is saved as are both lists here. \<open>to_string\<close> and
  \<open>store_from_str\<close> are the serializer and its reader; a write that fails leaves any text in the temporary file.
\<close>

record SerializedStore =
  ss_devices :: "DeviceStatus hash_map"
  ss_accessory_config :: "AccessoryConfigData option"
  ss_notification_config :: "NotificationConfig option"
  ss_logs :: "ServerLogEntry list hash_map"
  ss_diagnostics :: "TimestampedEntry list hash_map"
  ss_alerts :: "TimestampedEntry list hash_map"
  ss_sniff_frames :: "TimestampedEntry list hash_map"
  ss_availability :: "AvailabilityEntry list hash_map"
  ss_temperatures :: "TemperatureSample list hash_map"
  ss_component_events :: "ComponentEvent list hash_map"
  ss_offline_since :: "rstr hash_map"

record StoreFiles =
  sf_file :: "rstr option"
  sf_tmp :: "rstr option"

datatype WriteResult = Write_Ok | Write_Failed "rstr option"

definition unwrap_or :: "'a option \<Rightarrow> 'a \<Rightarrow> 'a" where
  "unwrap_or x d = (case x of Some v \<Rightarrow> v | None \<Rightarrow> d)"

definition store_of :: "SerializedStore \<Rightarrow> MemoryStore" where
  "store_of x = \<lparr>ms_devices = ss_devices x, accessory_config = unwrap_or (ss_accessory_config x) accessory_default,
     notification_config = unwrap_or (ss_notification_config x) notification_default, ms_logs = ss_logs x,
     ms_diagnostics = ss_diagnostics x, ms_alerts = ss_alerts x, ms_sniff_frames = ss_sniff_frames x,
     ms_availability = ss_availability x, ms_temperatures = ss_temperatures x,
     ms_component_events = ss_component_events x, ms_offline_since = ss_offline_since x\<rparr>"

definition serialized :: "MemoryStore \<Rightarrow> SerializedStore" where
  "serialized s = \<lparr>ss_devices = ms_devices s, ss_accessory_config = Some (accessory_config s),
     ss_notification_config = Some (notification_config s), ss_logs = ms_logs s,
     ss_diagnostics = ms_diagnostics s, ss_alerts = ms_alerts s, ss_sniff_frames = ms_sniff_frames s,
     ss_availability = ms_availability s, ss_temperatures = ms_temperatures s,
     ss_component_events = ms_component_events s, ss_offline_since = ms_offline_since s\<rparr>"

definition store_load :: "(rstr \<Rightarrow> SerializedStore option) \<Rightarrow> StoreFiles \<Rightarrow> MemoryStore" where
  "store_load store_from_str fs =
     (case sf_file fs of
        None \<Rightarrow> store_new
      | Some t \<Rightarrow> (case store_from_str t of Some x \<Rightarrow> store_of x | None \<Rightarrow> store_new))"

definition store_save ::
  "(SerializedStore \<Rightarrow> rstr option) \<Rightarrow> WriteResult \<Rightarrow> bool \<Rightarrow> MemoryStore \<Rightarrow> StoreFiles \<Rightarrow> StoreFiles" where
  "store_save to_string written renamed s fs =
     (case to_string (serialized s) of
        None \<Rightarrow> fs
      | Some t \<Rightarrow>
          (case written of
             Write_Failed rest \<Rightarrow> fs\<lparr>sf_tmp := rest\<rparr>
           | Write_Ok \<Rightarrow> if renamed then fs\<lparr>sf_file := Some t, sf_tmp := None\<rparr> else fs\<lparr>sf_tmp := Some t\<rparr>))"

definition mark_device_offline :: "rstr \<Rightarrow> rstr \<Rightarrow> MemoryStore \<Rightarrow> MemoryStore" where
  "mark_device_offline now d s =
     (if map_of (ms_offline_since s) d = None then s\<lparr>ms_offline_since := AList.update d now (ms_offline_since s)\<rparr> else s)"

definition mark_device_online :: "rstr \<Rightarrow> MemoryStore \<Rightarrow> MemoryStore" where
  "mark_device_online d s = s\<lparr>ms_offline_since := AList.delete d (ms_offline_since s)\<rparr>"

definition update_device_status :: "rstr \<Rightarrow> rstr \<Rightarrow> rstr \<Rightarrow> u32 option \<Rightarrow> MemoryStore \<Rightarrow> MemoryStore" where
  "update_device_status now d status boot s =
     (let s1 = s\<lparr>ms_devices := AList.update d \<lparr>ds_status = status, ds_boot_id = boot, ds_updated_at = now\<rparr> (ms_devices s)\<rparr> in
      if status = lit ''online'' then mark_device_online d s1 else mark_device_offline now d s1)"

definition get_device_status :: "MemoryStore \<Rightarrow> rstr \<Rightarrow> DeviceStatus option" where
  "get_device_status s d = map_of (ms_devices s) d"

definition list_devices :: "MemoryStore \<Rightarrow> DeviceSummary list" where
  "list_devices s = sort_key dv_device_id (map (\<lambda>(i, d). \<lparr>dv_device_id = i, dv_status = ds_status d,
     dv_boot_id = ds_boot_id d, dv_updated_at = ds_updated_at d\<rparr>) (ms_devices s))"

text \<open>The devices that have been offline for long; \<open>elapsed\<close> gives the seconds since a text, if it is a time.\<close>

definition get_long_offline_devices :: "(rstr \<Rightarrow> int option) \<Rightarrow> int \<Rightarrow> MemoryStore \<Rightarrow> (rstr \<times> rstr \<times> int) list" where
  "get_long_offline_devices elapsed threshold_secs s =
     (let monitored = monitored_devices (notification_config s) in
      sort_key fst (concat (map (\<lambda>(d, since).
        if monitored \<noteq> [] \<and> d \<notin> set monitored then []
        else case elapsed since of
            Some n \<Rightarrow> if n \<ge> threshold_secs then [(d, since, n)] else []
          | None \<Rightarrow> []) (ms_offline_since s))))"

definition insert_log :: "rstr \<Rightarrow> rstr \<Rightarrow> rstr \<Rightarrow> rstr \<Rightarrow> u64 \<Rightarrow> MemoryStore \<Rightarrow> MemoryStore" where
  "insert_log now d lvl msg ts s =
     s\<lparr>ms_logs := push_entry_of (ms_logs s) d
        \<lparr>sl_level = lvl, sl_message = msg, sl_timestamp_ms = ts, sl_received_at = now\<rparr> MAX_LOG_ENTRIES\<rparr>"

definition newest_first :: "'a list hash_map \<Rightarrow> rstr \<Rightarrow> u64 \<Rightarrow> 'a list" where
  "newest_first m d limit = rev (recent (entry_of m d) (unat limit))"

definition get_logs :: "MemoryStore \<Rightarrow> rstr \<Rightarrow> u64 \<Rightarrow> ServerLogEntry list" where
  "get_logs s d limit = newest_first (ms_logs s) d limit"

definition clear_logs :: "rstr \<Rightarrow> MemoryStore \<Rightarrow> MemoryStore" where
  "clear_logs d s = s\<lparr>ms_logs := clear_entry (ms_logs s) d\<rparr>"

definition insert_diagnostics :: "rstr \<Rightarrow> rstr \<Rightarrow> rstr \<Rightarrow> MemoryStore \<Rightarrow> MemoryStore" where
  "insert_diagnostics now d p s = s\<lparr>ms_diagnostics := push_entry_of (ms_diagnostics s) d
     \<lparr>te_payload = p, te_received_at = now\<rparr> MAX_DIAGNOSTICS_ENTRIES\<rparr>"

definition get_diagnostics :: "MemoryStore \<Rightarrow> rstr \<Rightarrow> u64 \<Rightarrow> TimestampedEntry list" where
  "get_diagnostics s d limit = newest_first (ms_diagnostics s) d limit"

definition clear_diagnostics :: "rstr \<Rightarrow> MemoryStore \<Rightarrow> MemoryStore" where
  "clear_diagnostics d s = s\<lparr>ms_diagnostics := clear_entry (ms_diagnostics s) d\<rparr>"

definition insert_alert :: "rstr \<Rightarrow> rstr \<Rightarrow> rstr \<Rightarrow> MemoryStore \<Rightarrow> MemoryStore" where
  "insert_alert now d p s = s\<lparr>ms_alerts := push_entry_of (ms_alerts s) d
     \<lparr>te_payload = p, te_received_at = now\<rparr> MAX_ALERT_ENTRIES\<rparr>"

definition get_alerts :: "MemoryStore \<Rightarrow> rstr \<Rightarrow> u64 \<Rightarrow> TimestampedEntry list" where
  "get_alerts s d limit = newest_first (ms_alerts s) d limit"

definition clear_alerts :: "rstr \<Rightarrow> MemoryStore \<Rightarrow> MemoryStore" where
  "clear_alerts d s = s\<lparr>ms_alerts := clear_entry (ms_alerts s) d\<rparr>"

definition insert_sniff_frame :: "rstr \<Rightarrow> rstr \<Rightarrow> rstr \<Rightarrow> MemoryStore \<Rightarrow> MemoryStore" where
  "insert_sniff_frame now d p s = s\<lparr>ms_sniff_frames := push_entry_of (ms_sniff_frames s) d
     \<lparr>te_payload = p, te_received_at = now\<rparr> MAX_SNIFF_ENTRIES\<rparr>"

definition get_sniff_frames :: "MemoryStore \<Rightarrow> rstr \<Rightarrow> u64 \<Rightarrow> TimestampedEntry list" where
  "get_sniff_frames s d limit = newest_first (ms_sniff_frames s) d limit"

definition clear_sniff_frames :: "rstr \<Rightarrow> MemoryStore \<Rightarrow> MemoryStore" where
  "clear_sniff_frames d s = s\<lparr>ms_sniff_frames := clear_entry (ms_sniff_frames s) d\<rparr>"

definition insert_availability :: "rstr \<Rightarrow> rstr \<Rightarrow> rstr \<Rightarrow> MemoryStore \<Rightarrow> MemoryStore" where
  "insert_availability now d status s =
     (let deque = entry_of (ms_availability s) d in
      if deque = [] \<or> ae_status (last deque) \<noteq> status
      then s\<lparr>ms_availability := push_entry_of (ms_availability s) d
             \<lparr>ae_status = status, ae_received_at = now\<rparr> MAX_AVAILABILITY_ENTRIES\<rparr>
      else s\<lparr>ms_availability := AList.update d deque (ms_availability s)\<rparr>)"

definition get_availability_history :: "MemoryStore \<Rightarrow> rstr \<Rightarrow> u64 \<Rightarrow> AvailabilityEntry list" where
  "get_availability_history s d limit = newest_first (ms_availability s) d limit"

definition get_availability_history_since :: "MemoryStore \<Rightarrow> rstr \<Rightarrow> rstr \<Rightarrow> AvailabilityEntry list" where
  "get_availability_history_since s d since = recent_since (entry_of (ms_availability s) d) ae_received_at since"

text \<open>
  A sample is kept if enough time has passed or a temperature has changed. \<open>secs later earlier\<close> gives the
  seconds between two times, if both are.
\<close>

definition keep_sample :: "(rstr \<Rightarrow> rstr \<Rightarrow> int option) \<Rightarrow> rstr \<Rightarrow> rat option \<Rightarrow> rat option \<Rightarrow> TemperatureSample list \<Rightarrow> bool" where
  "keep_sample secs now cur set_t deque =
     (if deque = [] then True
      else
        let prev = last deque;
            enough = (case secs now (smp_received_at prev) of None \<Rightarrow> True | Some n \<Rightarrow> n \<ge> TEMP_SAMPLE_MIN_INTERVAL_SECS);
            temp_changed = (case (cur, smp_current_temp prev) of
                (Some a, Some b) \<Rightarrow> \<bar>round_f64 (a - b)\<bar> \<ge> TEMP_MIN_DELTA | (Some _, None) \<Rightarrow> True | _ \<Rightarrow> False);
            set_changed = (case (set_t, smp_set_temp prev) of
                (Some a, Some b) \<Rightarrow> a \<noteq> b | (Some _, None) \<Rightarrow> True | _ \<Rightarrow> False)
        in enough \<or> temp_changed \<or> set_changed)"

definition insert_temperature_sample ::
  "(rstr \<Rightarrow> rstr \<Rightarrow> int option) \<Rightarrow> rstr \<Rightarrow> rstr \<Rightarrow> rat option \<Rightarrow> rat option \<Rightarrow> MemoryStore \<Rightarrow> MemoryStore" where
  "insert_temperature_sample secs now d cur set_t s =
     (let deque = entry_of (ms_temperatures s) d in
      if keep_sample secs now cur set_t deque
      then s\<lparr>ms_temperatures := push_entry_of (ms_temperatures s) d
             \<lparr>smp_current_temp = cur, smp_set_temp = set_t, smp_received_at = now\<rparr> MAX_TEMPERATURE_ENTRIES\<rparr>
      else s\<lparr>ms_temperatures := AList.update d deque (ms_temperatures s)\<rparr>)"

definition last_component :: "ComponentEvent list \<Rightarrow> rstr \<Rightarrow> bool option" where
  "last_component deque field = map_option (\<lambda>e. ce_state e \<noteq> 0) (find (\<lambda>e. ce_component e = field) (rev deque))"

definition component_change :: "rstr \<Rightarrow> ComponentEvent list \<Rightarrow> rstr \<times> bool \<Rightarrow> ComponentEvent list" where
  "component_change now deque c =
     (if last_component deque (fst c) \<noteq> Some (snd c)
      then push_capped deque \<lparr>ce_component = fst c, ce_state = of_bool (snd c), ce_received_at = now\<rparr> MAX_COMPONENT_ENTRIES
      else deque)"

definition insert_component_changes :: "rstr \<Rightarrow> rstr \<Rightarrow> (rstr \<times> bool) list \<Rightarrow> MemoryStore \<Rightarrow> MemoryStore" where
  "insert_component_changes now d new_states s =
     s\<lparr>ms_component_events := AList.update d (foldl (component_change now) (entry_of (ms_component_events s) d) new_states)
        (ms_component_events s)\<rparr>"

definition get_temperature_history_since :: "MemoryStore \<Rightarrow> rstr \<Rightarrow> rstr \<Rightarrow> TemperatureSample list" where
  "get_temperature_history_since s d since = recent_since (entry_of (ms_temperatures s) d) smp_received_at since"

definition get_component_events_since :: "MemoryStore \<Rightarrow> rstr \<Rightarrow> rstr \<Rightarrow> ComponentEvent list" where
  "get_component_events_since s d since = recent_since (entry_of (ms_component_events s) d) ce_received_at since"

definition get_latest_temperature :: "MemoryStore \<Rightarrow> rstr \<Rightarrow> TemperatureSample option" where
  "get_latest_temperature s d = (let deque = entry_of (ms_temperatures s) d in if deque = [] then None else Some (last deque))"

definition get_latest_component_state :: "MemoryStore \<Rightarrow> rstr \<Rightarrow> rstr \<Rightarrow> bool" where
  "get_latest_component_state s d component =
     (case last_component (entry_of (ms_component_events s) d) component of Some b \<Rightarrow> b | None \<Rightarrow> False)"

section \<open>JSON values\<close>

datatype number = PosInt u64 | NegInt int | Float_Number rat

datatype jvalue =
    Json_Null | Json_Bool bool | Json_Number number | Json_String rstr | Json_Array "jvalue list"
  | Json_Object "(rstr \<times> jvalue) list"

fun json_get :: "jvalue \<Rightarrow> rstr \<Rightarrow> jvalue option" where
  "json_get (Json_Object members) k = map_of members k"
| "json_get _ k = None"

definition json_at :: "jvalue \<Rightarrow> rstr \<Rightarrow> jvalue" where
  "json_at v k = (case json_get v k of Some x \<Rightarrow> x | None \<Rightarrow> Json_Null)"

fun as_f64 :: "jvalue \<Rightarrow> rat option" where
  "as_f64 (Json_Number (PosInt n)) = Some (round_f64 (of_nat (unat n)))"
| "as_f64 (Json_Number (NegInt n)) = Some (round_f64 (of_int n))"
| "as_f64 (Json_Number (Float_Number x)) = Some x"
| "as_f64 _ = None"

fun as_u64 :: "jvalue \<Rightarrow> u64 option" where
  "as_u64 (Json_Number (PosInt n)) = Some n"
| "as_u64 _ = None"

fun as_bool :: "jvalue \<Rightarrow> bool option" where
  "as_bool (Json_Bool b) = Some b"
| "as_bool _ = None"

fun as_str :: "jvalue \<Rightarrow> rstr option" where
  "as_str (Json_String s) = Some s"
| "as_str _ = None"

fun as_array :: "jvalue \<Rightarrow> jvalue list option" where
  "as_array (Json_Array vs) = Some vs"
| "as_array _ = None"

section \<open>The bridge from the broker\<close>

text \<open>The code behind the crates: reading JSON, and the seconds between two times.\<close>

record Crates =
  from_str :: "rstr \<Rightarrow> jvalue option"
  seconds_between :: "rstr \<Rightarrow> rstr \<Rightarrow> int option"

definition component_states :: "jvalue \<Rightarrow> (rstr \<times> bool) list" where
  "component_states v = concat (map (\<lambda>field. case Option.bind (json_get v field) as_bool of Some b \<Rightarrow> [(field, b)] | None \<Rightarrow> [])
     COMPONENT_FIELDS)"

definition bridge_state :: "Crates \<Rightarrow> rstr \<Rightarrow> rstr \<Rightarrow> rstr \<Rightarrow> MemoryStore \<Rightarrow> MemoryStore" where
  "bridge_state cr now d p s =
     (case from_str cr p of
        None \<Rightarrow> s
      | Some v \<Rightarrow>
          insert_component_changes now d (component_states v)
            (insert_temperature_sample (seconds_between cr) now d
              (Option.bind (json_get v (lit ''current_temp'')) as_f64) (Option.bind (json_get v (lit ''set_temp'')) as_f64) s))"

definition bridge_availability :: "rstr \<Rightarrow> rstr \<Rightarrow> rstr \<Rightarrow> MemoryStore \<Rightarrow> MemoryStore" where
  "bridge_availability now d p s =
     (let status = trim p in insert_availability now d status (update_device_status now d status None s))"

definition bridge_boot :: "rstr \<Rightarrow> rstr \<Rightarrow> rstr \<Rightarrow> MemoryStore \<Rightarrow> MemoryStore" where
  "bridge_boot now d p s =
     update_device_status now d (lit ''online'') (map_option word_of_nat (parse_unsigned (2 ^ 32 - 1) (trim p))) s"

definition bridge_log :: "Crates \<Rightarrow> rstr \<Rightarrow> rstr \<Rightarrow> rstr \<Rightarrow> MemoryStore \<Rightarrow> MemoryStore" where
  "bridge_log cr now d p s =
     (case from_str cr p of
        None \<Rightarrow> insert_log now d (lit ''unknown'') p 0 s
      | Some v \<Rightarrow>
          insert_log now d
            (case as_str (json_at v (lit ''level'')) of Some l \<Rightarrow> l | None \<Rightarrow> lit ''unknown'')
            (case as_str (json_at v (lit ''message'')) of Some m \<Rightarrow> m | None \<Rightarrow> p)
            (case as_u64 (json_at v (lit ''ts'')) of Some t \<Rightarrow> t | None \<Rightarrow> 0) s)"

text \<open>The topic up to its second slash, and the rest.\<close>

definition split_topic :: "rstr \<Rightarrow> (rstr \<times> rstr) option" where
  "split_topic topic =
     (case find_str topic [47] of
        None \<Rightarrow> None
      | Some i \<Rightarrow>
          let r = drop (i + 1) topic in
          (case find_str r [47] of None \<Rightarrow> None | Some j \<Rightarrow> Some (take j r, drop (j + 1) r)))"

definition handle_forward :: "Crates \<Rightarrow> rstr \<Rightarrow> u8 list \<Rightarrow> u8 list \<Rightarrow> MemoryStore \<Rightarrow> MemoryStore" where
  "handle_forward cr now topic_bytes payload_bytes s =
     (case (from_utf8 topic_bytes, from_utf8 payload_bytes) of
        (Some topic, Some p) \<Rightarrow>
          (case split_topic topic of
             None \<Rightarrow> s
           | Some (d, subtopic) \<Rightarrow>
               if subtopic = lit ''availability'' then bridge_availability now d p s
               else if subtopic = lit ''boot'' then bridge_boot now d p s
               else if subtopic = lit ''state'' then bridge_state cr now d p s
               else if subtopic = lit ''log'' then bridge_log cr now d p s
               else if subtopic = lit ''diagnostics'' then insert_diagnostics now d p s
               else if subtopic = lit ''alert'' then insert_alert now d p s
               else if subtopic = lit ''sniff'' then insert_sniff_frame now d p s
               else s)
      | _ \<Rightarrow> s)"

section \<open>Notices\<close>

datatype Notice = Offline_Alert rstr rstr | Back_Online rstr

definition duration_text :: "int \<Rightarrow> rstr" where
  "duration_text n =
     (let hours = n div 3600; mins = (n mod 3600) div 60 in
      if hours > 0 then show_nat (nat hours) @ lit ''h '' @ show_nat (nat mins) @ lit ''m''
      else show_nat (nat mins) @ lit ''m'')"

text \<open>
  One check: \<open>elapsed\<close> as above, \<open>delivered\<close> whether an alert for a device reaches the service. The set of the
  devices that have been reported is a list.
\<close>

definition offline_alert :: "(rstr \<Rightarrow> bool) \<Rightarrow> rstr list \<times> Notice list \<Rightarrow> rstr \<times> rstr \<times> int \<Rightarrow> rstr list \<times> Notice list" where
  "offline_alert delivered acc dev =
     (case (acc, dev) of ((notified, notices), (d, _, n)) \<Rightarrow>
        if d \<in> set notified then (notified, notices)
        else (if delivered d then notified @ [d] else notified, notices @ [Offline_Alert d (duration_text n)]))"

definition notifier_check ::
  "(rstr \<Rightarrow> int option) \<Rightarrow> (rstr \<Rightarrow> bool) \<Rightarrow> MemoryStore \<Rightarrow> rstr list \<Rightarrow> rstr list \<times> Notice list" where
  "notifier_check elapsed delivered s notified =
     (let cfg = notification_config s in
      if discord_webhook_url cfg = [] then (notified, [])
      else
        let offline = get_long_offline_devices elapsed (sint (offline_threshold_hours cfg * 3600)) s;
            (notified1, alerts) = foldl (offline_alert delivered) (notified, []) offline;
            recovered = filter (\<lambda>d. d \<notin> fst ` set offline) notified1
        in (filter (\<lambda>d. d \<in> fst ` set offline) notified1, alerts @ map Back_Online recovered))"

end
