(* ===== verification/GoogleHome.thy ===== *)
theory GoogleHome
  imports ServerStore CommandParser
begin

text \<open>
  The Google Home side of the server, \<open>crates/launa-server/src/google_home.rs\<close>: the exchange of authorization
  codes, the names of the devices, and the three intents. The crate for the tokens is an argument; the
  random code comes from outside. A response is a JSON value, a command is what is put into the
  channel to the broker. The login page is left out but for its escaping.
\<close>

section \<open>Configuration and authorization\<close>

record GoogleHomeConfig =
  gh_username :: rstr
  gh_password :: rstr
  gh_client_id :: rstr
  gh_client_secret :: rstr
  gh_jwt_secret :: rstr
  gh_celsius :: bool

record LoginForm =
  lf_username :: rstr
  lf_password :: rstr
  lf_redirect_uri :: rstr
  lf_state :: "rstr option"

record TokenRequest =
  tr_code :: rstr
  tr_client_id :: rstr
  tr_client_secret :: rstr
  tr_redirect_uri :: "rstr option"

datatype LoginResponse = Not_Enabled | Login_Failed | Redirect_To rstr
datatype TokenResponse = Token_Error rstr | Access_Token rstr

definition auth_login ::
  "GoogleHomeConfig option \<Rightarrow> rstr \<Rightarrow> LoginForm \<Rightarrow> rstr hash_map \<Rightarrow> rstr hash_map \<times> LoginResponse" where
  "auth_login gh code form pending =
     (case gh of
        None \<Rightarrow> (pending, Not_Enabled)
      | Some g \<Rightarrow>
          if lf_username form \<noteq> gh_username g \<or> lf_password form \<noteq> gh_password g then (pending, Login_Failed)
          else (AList.update code (lf_redirect_uri form) pending,
            Redirect_To (lf_redirect_uri form @ lit ''?code='' @ code @
              (case lf_state form of Some s \<Rightarrow> lit ''&state='' @ s | None \<Rightarrow> []))))"

definition auth_token ::
  "(rstr \<Rightarrow> rstr \<Rightarrow> rstr option) \<Rightarrow> GoogleHomeConfig option \<Rightarrow> TokenRequest \<Rightarrow> rstr hash_map \<Rightarrow> rstr hash_map \<times> TokenResponse" where
  "auth_token create_jwt gh req pending =
     (case gh of
        None \<Rightarrow> (pending, Token_Error (lit ''invalid_grant''))
      | Some g \<Rightarrow>
          if tr_client_id req \<noteq> gh_client_id g \<or> tr_client_secret req \<noteq> gh_client_secret g
          then (pending, Token_Error (lit ''invalid_client''))
          else case map_of pending (tr_code req) of
              None \<Rightarrow> (pending, Token_Error (lit ''invalid_grant''))
            | Some redirect_uri \<Rightarrow>
                if (case tr_redirect_uri req of Some expected_uri \<Rightarrow> expected_uri \<noteq> redirect_uri | None \<Rightarrow> False)
                then (pending, Token_Error (lit ''invalid_grant''))
                else
                  let pending1 = AList.delete (tr_code req) pending in
                  case create_jwt (gh_jwt_secret g) (tr_code req) of
                    Some token \<Rightarrow> (pending1, Access_Token token)
                  | None \<Rightarrow> (pending1, Token_Error (lit ''server_error'')))"

section \<open>Names of devices\<close>

definition strip_suffix :: "rstr \<Rightarrow> rstr \<Rightarrow> rstr option" where
  "strip_suffix s p = (if ends_with s p then Some (take (length s - length p) s) else None)"

fun first_suffix :: "rstr \<Rightarrow> rstr list \<Rightarrow> (rstr \<times> rstr) option" where
  "first_suffix google_id [] = None"
| "first_suffix google_id (suffix # rest) =
     (case strip_suffix google_id suffix of Some base \<Rightarrow> Some (base, tl suffix) | None \<Rightarrow> first_suffix google_id rest)"

definition trim_digits :: "rstr \<Rightarrow> rstr" where
  "trim_digits s = rev (dropWhile is_digit (rev s))"

definition parse_google_device_id :: "rstr \<Rightarrow> rstr \<times> rstr" where
  "parse_google_device_id google_id =
     (case first_suffix google_id (map lit [''_thermostat'', ''_circ_pump'', ''_blower'', ''_mister'']) of
        Some r \<Rightarrow> r
      | None \<Rightarrow>
          let trimmed = trim_digits google_id; num_suffix_len = length google_id - length trimmed in
          if num_suffix_len > 0 then
            (case strip_suffix trimmed (lit ''_pump'') of
               Some base \<Rightarrow> (base, lit ''pump'')
             | None \<Rightarrow>
                 (case strip_suffix trimmed (lit ''_light'') of
                    Some base \<Rightarrow> (base, lit ''light'')
                  | None \<Rightarrow> (google_id, lit ''unknown'')))
          else (google_id, lit ''unknown''))"

text \<open>The text after the last underscore.\<close>

definition after_underscore :: "rstr \<Rightarrow> rstr" where
  "after_underscore s = rev (takeWhile (\<lambda>c. c \<noteq> 95) (rev s))"

section \<open>The intent SYNC\<close>

definition jstr :: "string \<Rightarrow> jvalue" where "jstr s = Json_String (lit s)"
definition jobj :: "(string \<times> jvalue) list \<Rightarrow> jvalue" where "jobj ms = Json_Object (map (\<lambda>(k, v). (lit k, v)) ms)"

definition on_off_device :: "rstr \<Rightarrow> string \<Rightarrow> rstr \<Rightarrow> rstr list \<Rightarrow> jvalue" where
  "on_off_device google_id ty name nicknames =
     jobj [(''id'', Json_String google_id), (''type'', jstr ty), (''traits'', Json_Array [jstr ''action.devices.traits.OnOff'']),
       (''name'', jobj [(''name'', Json_String name), (''nicknames'', Json_Array (map Json_String nicknames))]),
       (''willReportState'', Json_Bool True)]"

definition thermostat_device :: "rstr \<Rightarrow> bool \<Rightarrow> jvalue" where
  "thermostat_device d celsius =
     jobj [(''id'', Json_String (d @ lit ''_thermostat'')), (''type'', jstr ''action.devices.types.THERMOSTAT''),
       (''traits'', Json_Array [jstr ''action.devices.traits.TemperatureSetting'']),
       (''name'', jobj [(''name'', jstr ''Spa Temperature''), (''nicknames'', Json_Array [jstr ''spa'', jstr ''spa temp''])]),
       (''attributes'', jobj [(''availableThermostatModes'', Json_Array [jstr ''heat'', jstr ''off'']),
          (''thermostatTemperatureUnit'', if celsius then jstr ''C'' else jstr ''F''),
          (''thermostatTemperatureRange'', jobj [(''minThresholdCelsius'', Json_Number (Float_Number 10)),
             (''maxThresholdCelsius'', Json_Number (Float_Number 40))]),
          (''commandOnlyTemperatureSetting'', Json_Bool False), (''queryOnlyTemperatureSetting'', Json_Bool False)]),
       (''willReportState'', Json_Bool True),
       (''deviceInfo'', jobj [(''manufacturer'', jstr ''Launa''), (''model'', jstr ''BP6013G1'')])]"

definition pump_device :: "rstr \<Rightarrow> nat \<Rightarrow> jvalue" where
  "pump_device d i = on_off_device (d @ lit ''_pump'' @ show_nat i) ''action.devices.types.SWITCH''
     (lit ''Spa Pump '' @ show_nat i) [lit ''pump '' @ show_nat i]"

definition light_device :: "rstr \<Rightarrow> nat \<Rightarrow> jvalue" where
  "light_device d i = on_off_device (d @ lit ''_light'' @ show_nat i) ''action.devices.types.LIGHT''
     (if i = 1 then lit ''Spa Light'' else lit ''Spa Light '' @ show_nat i) [lit ''spa light '' @ show_nat i]"

definition spa_devices :: "AccessoryConfigData \<Rightarrow> bool \<Rightarrow> rstr \<Rightarrow> jvalue list" where
  "spa_devices cfg celsius d =
     [thermostat_device d celsius] @
     map (pump_device d) [1..<Suc (unat (ac_pumps cfg))] @
     map (light_device d) [1..<Suc (unat (ac_lights cfg))] @
     (if ac_blower cfg then [on_off_device (d @ lit ''_blower'') ''action.devices.types.FAN'' (lit ''Spa Blower'') [lit ''blower'', lit ''jets'']] else []) @
     (if ac_mister cfg then [on_off_device (d @ lit ''_mister'') ''action.devices.types.SWITCH'' (lit ''Spa Mister'') [lit ''mister'']] else []) @
     [on_off_device (d @ lit ''_circ_pump'') ''action.devices.types.SWITCH'' (lit ''Circulation Pump'') [lit ''circ pump'', lit ''circulation'']]"

definition sync_devices :: "bool \<Rightarrow> MemoryStore \<Rightarrow> jvalue list" where
  "sync_devices celsius mem =
     concat (map (\<lambda>dev. spa_devices (accessory_config mem) celsius (dv_device_id dev)) (list_devices mem))"

definition sync_response :: "rstr \<Rightarrow> bool \<Rightarrow> MemoryStore \<Rightarrow> jvalue" where
  "sync_response request_id celsius mem =
     jobj [(''requestId'', Json_String request_id),
       (''payload'', jobj [(''agentUserId'', jstr ''launa-user''), (''devices'', Json_Array (sync_devices celsius mem))])]"

section \<open>The intent QUERY\<close>

text \<open>Rounding to the nearest whole number, halves away from zero.\<close>

definition round_away :: "rat \<Rightarrow> int" where
  "round_away x = (if 0 \<le> x then \<lfloor>x + 1 / 2\<rfloor> else \<lceil>x - 1 / 2\<rceil>)"

definition to_celsius :: "bool \<Rightarrow> rat \<Rightarrow> rat" where
  "to_celsius celsius f = (if celsius then f else round_f64 (round_f64 (round_f64 (f - 32) * 5) / 9))"

definition one_decimal :: "rat \<Rightarrow> jvalue" where
  "one_decimal x = Json_Number (Float_Number (round_f64 (of_int (round_away (round_f64 (x * 10))) / 10)))"

definition device_online :: "MemoryStore \<Rightarrow> rstr \<Rightarrow> jvalue" where
  "device_online mem d = Json_Bool (case get_device_status mem d of Some s \<Rightarrow> ds_status s = lit ''online'' | None \<Rightarrow> False)"

definition device_component :: "rstr \<Rightarrow> rstr \<Rightarrow> rstr" where
  "device_component google_id device_type =
     (if device_type = lit ''pump'' then after_underscore google_id @ lit ''_on''
      else if device_type = lit ''light'' then after_underscore google_id
      else device_type)"

definition query_device :: "MemoryStore \<Rightarrow> bool \<Rightarrow> rstr \<Rightarrow> jvalue" where
  "query_device mem celsius google_id =
     (let (d, device_type) = parse_google_device_id google_id in
      if device_type = lit ''thermostat'' then
        (case get_latest_temperature mem d of
           None \<Rightarrow> jobj [(''status'', jstr ''OFFLINE''), (''online'', Json_Bool False)]
         | Some sample \<Rightarrow>
             let celsius_of = (\<lambda>t. case t of Some f \<Rightarrow> to_celsius celsius f | None \<Rightarrow> 0) in
             jobj [(''status'', jstr ''SUCCESS''), (''online'', device_online mem d), (''thermostatMode'', jstr ''heat''),
               (''thermostatTemperatureAmbient'', one_decimal (celsius_of (smp_current_temp sample))),
               (''thermostatTemperatureSetpoint'', one_decimal (celsius_of (smp_set_temp sample)))])
      else if device_type \<in> set (map lit [''pump'', ''light'', ''blower'', ''mister'', ''circ_pump'']) then
        jobj [(''status'', jstr ''SUCCESS''), (''online'', device_online mem d),
          (''on'', Json_Bool (get_latest_component_state mem d (device_component google_id device_type)))]
      else jobj [(''status'', jstr ''ERROR''), (''errorCode'', jstr ''deviceNotFound'')])"

definition query_handler :: "MemoryStore \<Rightarrow> bool \<Rightarrow> jvalue list option \<Rightarrow> jvalue hash_map \<Rightarrow> jvalue hash_map" where
  "query_handler mem celsius requested results =
     (case requested of
        None \<Rightarrow> results
      | Some devs \<Rightarrow>
          let ids = concat (map (\<lambda>d. case as_str (json_at d (lit ''id'')) of Some i \<Rightarrow> [i] | None \<Rightarrow> []) devs) in
          foldl (\<lambda>rs google_id. AList.update google_id (query_device mem celsius google_id) rs) results ids)"

section \<open>The intent EXECUTE\<close>

definition show_int :: "int \<Rightarrow> rstr" where
  "show_int n = (if n < 0 then 45 # show_nat (nat (- n)) else show_nat (nat n))"

definition as_i32 :: "int \<Rightarrow> int" where
  "as_i32 n = max (- (2 ^ 31)) (min (2 ^ 31 - 1) n)"

definition execute_error :: "rstr \<Rightarrow> jvalue" where
  "execute_error google_id = jobj [(''ids'', Json_Array [Json_String google_id]), (''status'', jstr ''ERROR''),
     (''errorCode'', jstr ''functionNotSupported'')]"

definition execute_success :: "rstr \<Rightarrow> jvalue" where
  "execute_success google_id = jobj [(''ids'', Json_Array [Json_String google_id]), (''status'', jstr ''SUCCESS'')]"

definition command_topic_of :: "rstr \<Rightarrow> rstr \<Rightarrow> rstr" where
  "command_topic_of d leaf = lit ''launa/'' @ d @ lit ''/command/'' @ leaf"

text \<open>The leaf of the topic for switching a device, if it can be switched.\<close>

definition on_off_leaf :: "rstr \<Rightarrow> rstr \<Rightarrow> rstr option" where
  "on_off_leaf google_id device_type =
     (if device_type = lit ''pump'' \<or> device_type = lit ''light'' then Some (after_underscore google_id)
      else if device_type = lit ''blower'' then Some (lit ''blower'')
      else if device_type = lit ''mister'' then Some (lit ''mister'')
      else if device_type = lit ''circ_pump'' then Some (lit ''circulation_pump'')
      else None)"

definition execute_command ::
  "bool \<Rightarrow> rstr \<Rightarrow> rstr \<Rightarrow> rstr \<Rightarrow> rstr \<Rightarrow> jvalue \<Rightarrow> jvalue \<times> (rstr \<times> rstr) list" where
  "execute_command celsius d device_type google_id command params =
     (if command = lit ''action.devices.commands.ThermostatTemperatureSetpoint'' then
        let setpoint_c = (case as_f64 (json_at params (lit ''thermostatTemperatureSetpoint'')) of Some x \<Rightarrow> x | None \<Rightarrow> 40);
            setpoint_f = (if celsius then setpoint_c else round_f64 (round_f64 (round_f64 (setpoint_c * 9) / 5) + 32))
        in (execute_success google_id, [(command_topic_of d (lit ''set_temperature''), show_int (as_i32 (round_away setpoint_f)))])
      else if command = lit ''action.devices.commands.ThermostatSetMode'' then
        let mode = (case as_str (json_at params (lit ''thermostatMode'')) of Some m \<Rightarrow> m | None \<Rightarrow> lit ''heat'')
        in (execute_success google_id, [(command_topic_of d (lit ''heat_mode''), if mode = lit ''off'' then lit ''rest'' else lit ''ready'')])
      else if command = lit ''action.devices.commands.OnOff'' then
        let on = (case as_bool (json_at params (lit ''on'')) of Some b \<Rightarrow> b | None \<Rightarrow> False) in
        (case on_off_leaf google_id device_type of
           None \<Rightarrow> (execute_error google_id, [])
         | Some leaf \<Rightarrow> (execute_success google_id, [(command_topic_of d leaf, if on then lit ''true'' else lit ''false'')]))
      else (execute_error google_id, []))"

definition execute_group :: "bool \<Rightarrow> jvalue \<Rightarrow> (jvalue \<times> (rstr \<times> rstr) list) list" where
  "execute_group celsius grp =
     (let devs = (case Option.bind (json_get grp (lit ''devices'')) as_array of Some ds \<Rightarrow> ds | None \<Rightarrow> []) in
      case Option.bind (json_get grp (lit ''execution'')) as_array of
        None \<Rightarrow> []
      | Some executions \<Rightarrow>
          concat (map (\<lambda>device.
            let google_id = (case as_str (json_at device (lit ''id'')) of Some i \<Rightarrow> i | None \<Rightarrow> []);
                (d, device_type) = parse_google_device_id google_id
            in map (\<lambda>ex. execute_command celsius d device_type google_id
                  (case as_str (json_at ex (lit ''command'')) of Some c \<Rightarrow> c | None \<Rightarrow> [])
                  (case json_get ex (lit ''params'') of Some p \<Rightarrow> p | None \<Rightarrow> Json_Object [])) executions) devs))"

definition execute_handler :: "bool \<Rightarrow> rstr \<Rightarrow> jvalue \<Rightarrow> jvalue \<times> (rstr \<times> rstr) list" where
  "execute_handler celsius request_id input =
     (let results = (case Option.bind (Option.bind (json_get input (lit ''payload'')) (\<lambda>p. json_get p (lit ''commands''))) as_array of
            None \<Rightarrow> [] | Some groups \<Rightarrow> concat (map (execute_group celsius) groups))
      in (jobj [(''requestId'', Json_String request_id), (''payload'', jobj [(''commands'', Json_Array (map fst results))])],
          concat (map snd results)))"

section \<open>The endpoint\<close>

definition error_response :: "rstr \<Rightarrow> rstr \<Rightarrow> jvalue" where
  "error_response code msg = jobj [(''payload'', jobj [(''errorCode'', Json_String code), (''debugString'', Json_String msg)])]"

text \<open>The inputs in turn; all intents but QUERY end the request.\<close>

fun fulfil_inputs :: "GoogleHomeConfig \<Rightarrow> MemoryStore \<Rightarrow> rstr \<Rightarrow> jvalue list \<Rightarrow> jvalue hash_map \<Rightarrow> jvalue \<times> (rstr \<times> rstr) list" where
  "fulfil_inputs gh mem request_id [] payload_devices =
     (jobj [(''requestId'', Json_String request_id), (''payload'', jobj [(''devices'', Json_Object payload_devices)])], [])"
| "fulfil_inputs gh mem request_id (input # inputs) payload_devices =
     (let intent = (case as_str (json_at input (lit ''intent'')) of Some i \<Rightarrow> i | None \<Rightarrow> []) in
      if intent = lit ''action.devices.SYNC'' then (sync_response request_id (gh_celsius gh) mem, [])
      else if intent = lit ''action.devices.QUERY'' then
        fulfil_inputs gh mem request_id inputs
          (query_handler mem (gh_celsius gh)
            (Option.bind (Option.bind (json_get input (lit ''payload'')) (\<lambda>p. json_get p (lit ''devices''))) as_array) payload_devices)
      else if intent = lit ''action.devices.EXECUTE'' then execute_handler (gh_celsius gh) request_id input
      else if intent = lit ''action.devices.DISCONNECT'' then (jobj [(''requestId'', Json_String request_id)], [])
      else fulfil_inputs gh mem request_id inputs payload_devices)"

definition fulfillment_handler ::
  "(rstr \<Rightarrow> rstr \<Rightarrow> bool) \<Rightarrow> GoogleHomeConfig option \<Rightarrow> MemoryStore \<Rightarrow> rstr option \<Rightarrow> jvalue \<Rightarrow> jvalue \<times> (rstr \<times> rstr) list" where
  "fulfillment_handler validate_jwt gh mem authorization body =
     (case gh of
        None \<Rightarrow> (error_response (lit ''notSupported'') (lit ''Google Home not enabled''), [])
      | Some g \<Rightarrow>
          (case authorization of
             None \<Rightarrow> (error_response (lit ''authFailure'') (lit ''Missing Authorization header''), [])
           | Some auth_str \<Rightarrow>
               (case strip_prefix auth_str (lit ''Bearer '') of
                  None \<Rightarrow> (error_response (lit ''authFailure'') (lit ''Missing Bearer token''), [])
                | Some token \<Rightarrow>
                    if \<not> validate_jwt (gh_jwt_secret g) token
                    then (error_response (lit ''authFailure'') (lit ''Invalid access token''), [])
                    else
                      let request_id = (case as_str (json_at body (lit ''requestId'')) of Some i \<Rightarrow> i | None \<Rightarrow> []) in
                      case as_array (json_at body (lit ''inputs'')) of
                        None \<Rightarrow> (error_response (lit ''protocolError'') (lit ''Missing inputs''), [])
                      | Some inputs \<Rightarrow> fulfil_inputs g mem request_id inputs [])))"

definition replace_char :: "nat \<Rightarrow> string \<Rightarrow> rstr \<Rightarrow> rstr" where
  "replace_char c by s = concat (map (\<lambda>x. if x = c then lit by else [x]) s)"

definition html_escape :: "rstr \<Rightarrow> rstr" where
  "html_escape s = replace_char 39 ''&#39;'' (replace_char 34 ''&quot;'' (replace_char 62 ''&gt;''
     (replace_char 60 ''&lt;'' (replace_char 38 ''&amp;'' s))))"

end
