(* ===== verification/ServerStoreProperties.thy ===== *)
theory ServerStoreProperties
  imports ServerStore MqttState FaultBuf
begin

text \<open>
  Properties of the server's store: what the bridge keeps of a state that the firmware publishes, and
  which notices are sent for the devices that are offline.
\<close>

section \<open>The events of the components\<close>

lemma find_last_snoc: "find P (rev (xs @ [x])) = (if P x then Some x else find P (rev xs))"
  by simp

lemma last_component_change:
  assumes "length deque < MAX_COMPONENT_ENTRIES"
  shows "last_component (component_change now deque (f, b)) k = (if k = f then Some b else last_component deque k)"
  using assms by (auto simp: component_change_def last_component_def push_capped_def)

lemma length_component_change: "length (component_change now deque c) \<le> Suc (length deque)"
  by (simp add: component_change_def push_capped_def)

lemma last_component_changes:
  assumes "distinct (map fst cs)" and "length deque + length cs \<le> MAX_COMPONENT_ENTRIES"
  shows "last_component (foldl (component_change now) deque cs) k =
    (case map_of cs k of Some b \<Rightarrow> Some b | None \<Rightarrow> last_component deque k)"
  using assms
proof (induction cs arbitrary: deque)
  case (Cons c cs)
  obtain f b where c: "c = (f, b)" by (cases c)
  have "length (component_change now deque c) + length cs \<le> MAX_COMPONENT_ENTRIES"
    using Cons.prems(2) length_component_change [of now deque c] by simp
  from Cons.IH [OF _ this] Cons.prems show ?case
    by (auto simp: c last_component_change dom_map_of_conv_image_fst [symmetric] split: option.split)
qed simp

text \<open>In a full history, a change of one component can push out the only event of another.\<close>

lemma full_history_forgets:
  assumes "length (e # es) = MAX_COMPONENT_ENTRIES" and "k \<notin> ce_component ` set es" and "f \<noteq> k"
    and "last_component (e # es) f \<noteq> Some b"
  shows "last_component (component_change now (e # es) (f, b)) k = None"
proof -
  have "find (\<lambda>e. ce_component e = k) (rev es) = None" using assms(2) by (auto simp: find_None_iff)
  then show ?thesis using assms by (simp add: component_change_def push_capped_def last_component_def)
qed

section \<open>Reading JSON\<close>

text \<open>The texts of numbers in JSON, without an exponent.\<close>

definition number_text :: "rstr \<Rightarrow> bool" where
  "number_text t =
     (let u = (if t \<noteq> [] \<and> hd t = 45 then tl t else t); ip = takeWhile is_digit u; r = dropWhile is_digit u in
      ip \<noteq> [] \<and> (hd ip = 48 \<longrightarrow> tl ip = []) \<and> (r = [] \<or> hd r = 46 \<and> tl r \<noteq> [] \<and> list_all is_digit (tl r)))"

definition json_literal :: "json \<Rightarrow> bool" where
  "json_literal v = (case v of
       J_Token t \<Rightarrow> t = lit ''true'' \<or> t = lit ''false'' \<or> t = lit ''null'' \<or> number_text t
     | J_String s \<Rightarrow> list_all scalar_value s)"

text \<open>The value of such a text; \<open>num\<close> gives the one of a number.\<close>

definition value_of :: "(rstr \<Rightarrow> number) \<Rightarrow> json \<Rightarrow> jvalue" where
  "value_of num v = (case v of
       J_Token t \<Rightarrow>
         if t = lit ''true'' then Json_Bool True else if t = lit ''false'' then Json_Bool False
         else if t = lit ''null'' then Json_Null else Json_Number (num t)
     | J_String s \<Rightarrow> Json_String s)"

text \<open>The crate \<open>serde_json\<close> reads the text of an object with different names as that object.\<close>

definition reads_objects :: "(rstr \<Rightarrow> number) \<Rightarrow> Crates \<Rightarrow> bool" where
  "reads_objects num cr \<longleftrightarrow>
     (\<forall>ms. ms \<noteq> [] \<and> distinct (map fst ms) \<and> list_all (\<lambda>(k, v). list_all scalar_value k \<and> json_literal v) ms \<longrightarrow>
        from_str cr (object_text ms) = Some (Json_Object (map (\<lambda>(k, v). (k, value_of num v)) ms)))"

lemma json_get_members:
  "json_get (Json_Object (map (\<lambda>(k, v). (k, value_of num v)) ms)) k = map_option (value_of num) (map_of ms k)"
  by (simp add: map_of_map)

section \<open>The texts of the state\<close>

lemma show_nat_no_zero: "hd (show_nat n) = 48 \<Longrightarrow> tl (show_nat n) = []"
proof (induction n rule: show_nat.induct)
  case (1 n)
  show ?case
  proof (cases "n < 10")
    case False
    then have "0 < n div 10" by simp
    moreover have "digits_value (show_nat (n div 10)) = n div 10" by (rule digits_value_show_nat)
    moreover have "show_nat (n div 10) \<noteq> []" by simp
    moreover have "hd (show_nat (n div 10)) = 48" using 1(2) False by (simp add: show_nat.simps [of n])
    ultimately have "tl (show_nat (n div 10)) = []" using 1(1) [OF False] by simp
    then have "show_nat (n div 10) = [48]"
      using \<open>hd (show_nat (n div 10)) = 48\<close> by (metis list.collapse show_nat_not_Nil)
    then have "n div 10 = 0" using digits_value_show_nat [of "n div 10"] by (simp add: digits_value_def)
    with \<open>0 < n div 10\<close> show ?thesis by simp
  qed (simp add: show_nat.simps [of n])
qed

lemma digit_show_nat: "list_all is_digit (show_nat n)"
  using show_nat_digits by (auto simp: list_all_iff is_digit_def)

lemma digits_prefix:
  assumes "list_all is_digit xs" and "r = [] \<or> \<not> is_digit (hd r)"
  shows "takeWhile is_digit (xs @ r) = xs" "dropWhile is_digit (xs @ r) = r"
  using assms by (induction xs) (cases r; simp)+

lemma number_text_show_nat:
  assumes "r = [] \<or> hd r = 46 \<and> tl r \<noteq> [] \<and> list_all is_digit (tl r)"
  shows "number_text (show_nat n @ r)" "number_text (45 # show_nat n @ r)"
proof -
  have "r = [] \<or> \<not> is_digit (hd r)" using assms by (auto simp: is_digit_def)
  note ds = digits_prefix [OF digit_show_nat this, of n]
  have "hd (show_nat n @ r) \<noteq> 45" using show_nat_digits [of "hd (show_nat n)" n] by (cases "show_nat n") simp_all
  then show "number_text (show_nat n @ r)" "number_text (45 # show_nat n @ r)"
    using assms show_nat_no_zero [of n] by (simp_all add: number_text_def Let_def ds del: dropWhile_eq_Nil_conv)
qed

lemma number_text_show_decimal: "number_text (show_decimal d)" "number_text (45 # show_decimal d)"
proof -
  have pz: "list_all is_digit (pad_zero m (show_nat j))" "pad_zero m (show_nat j) \<noteq> []" for m j
    using digit_show_nat [of j] by (auto simp: pad_zero_def list_all_iff is_digit_def)
  show "number_text (show_decimal d)" "number_text (45 # show_decimal d)"
    using number_text_show_nat [of "[]"] pz
    by (auto simp: show_decimal_def Let_def split_def lit_def intro!: number_text_show_nat)
qed

lemma number_text_show_f32: "number_text (show_f32 (F32_Fin x))"
proof -
  have "number_text (lit ''0'')" using number_text_show_nat(1) [of "[]" 0] by (simp add: lit_def show_nat.simps)
  then show ?thesis using number_text_show_decimal by (simp add: lit_def)
qed

lemma scalar_lit [simp]: "list_all scalar_value (lit k)"
proof -
  have "(of_char c :: nat) < 256" for c by (cases c) (simp add: of_bool_def)
  then show ?thesis by (simp add: lit_def list_all_iff scalar_value_def less_trans [of _ 256])
qed

lemma scalar_show_nat [simp]: "list_all scalar_value (show_nat n)"
  using show_nat_digits [of _ n] by (fastforce simp: list_all_iff scalar_value_def)

lemma literal_simps [simp]:
  "json_literal (J_Token (show_bool b))" "json_literal (J_Token (show_u8 u))" "json_literal (J_Token (lit ''null''))"
  "json_literal (J_Token (show_i32 i))" "json_literal (J_String t) \<longleftrightarrow> list_all scalar_value t"
proof -
  have n: "number_text (show_nat n)" "number_text (45 # show_nat n)" for n using number_text_show_nat [of "[]" n] by simp_all
  then show "json_literal (J_Token (show_bool b))" "json_literal (J_Token (show_u8 u))" "json_literal (J_Token (lit ''null''))"
      "json_literal (J_Token (show_i32 i))" "json_literal (J_String t) \<longleftrightarrow> list_all scalar_value t"
    by (simp_all add: json_literal_def show_bool_def show_u8_def show_i32_def) (simp add: lit_def n)
qed

lemma state_literals:
  assumes "status_parse p = Inr s" and "list_all scalar_value rs"
    and "list_all scalar_value (unwrap_or f [])" and "list_all scalar_value (unwrap_or v [])"
  shows "list_all (\<lambda>(k, v). list_all scalar_value k \<and> json_literal v) (state_members s f v b r rs)"
proof -
  have t: "json_literal (J_Token (show_temperature (set_temp s)))"
      "json_literal (J_Token (case current_temp s of Some t \<Rightarrow> show_temperature t | None \<Rightarrow> lit ''null''))"
    using number_text_show_f32
    by (simp_all add: parsed_temps [OF assms(1)] show_temperature_def temp_from_wire_value json_literal_def del: show_f32.simps)
  have opt: "json_literal (opt_json x)" if "list_all scalar_value (unwrap_or x [])" for x
    using that by (simp add: opt_json_def unwrap_or_def split: option.splits)
  have "list_all (\<lambda>(k, v). list_all scalar_value k \<and> json_literal v) (map2 pump_member js ps)"
      "list_all (\<lambda>(k, v). list_all scalar_value k \<and> json_literal v) (map2 light_member js ls)" for js ps ls
    by (auto simp: list_all_iff [of _ "map2 _ _ _"] pump_member_def light_member_def)
  then show ?thesis
    using t assms(2) opt [OF assms(3)] opt [OF assms(4)]
    by (simp add: state_members_def heating_mode_text_def temp_range_text_def temp_scale_text_def time_format_text_def
        split: option.split HeatingMode.split TempRange.split TemperatureScale.split TimeFormat.split)
qed

section \<open>The members of the state\<close>

lemma lit_eq: "lit a = lit b \<longleftrightarrow> a = b"
  by (auto simp: lit_def inj_map_eq_map inj_def)

definition state_keys :: "string list" where
  "state_keys = [''current_temp'', ''set_temp'', ''is_heating'',
     ''pump1_on'', ''pump2_on'', ''pump3_on'', ''pump4_on'', ''pump5_on'', ''pump6_on'',
     ''light1'', ''light2'', ''light3'', ''light4'', ''blower'', ''circ_pump'', ''mister'', ''hold_mode'',
     ''heating_mode'', ''temp_range'', ''temp_scale'', ''time_format'', ''hour'', ''minute'', ''notification_type'',
     ''panel_locked'', ''settings_lock'', ''m8_cycle_time'', ''last_fault'', ''firmware_version'', ''sniff_mode'',
     ''wifi_rssi'', ''registration_state'']"

lemma numbered_keys:
  "map fst (map2 pump_member [0..<6] ps) = take (length ps) (map lit [''pump1_on'', ''pump2_on'', ''pump3_on'', ''pump4_on'', ''pump5_on'', ''pump6_on''])"
  "map fst (map2 light_member [0..<4] ls) = take (length ls) (map lit [''light1'', ''light2'', ''light3'', ''light4''])"
proof -
  have p: "map fst (map2 pump_member js ps) = take (length ps) (map (\<lambda>i. lit ''pump'' @ show_nat (i + 1) @ lit ''_on'') js)" for js
    by (induction js arbitrary: ps) (simp, case_tac ps, simp_all add: pump_member_def)
  have l: "map fst (map2 light_member js ls) = take (length ls) (map (\<lambda>i. lit ''light'' @ show_nat (i + 1)) js)" for js
    by (induction js arbitrary: ls) (simp, case_tac ls, simp_all add: light_member_def)
  have u: "[0..<6] = [0, 1, 2, 3, 4, 5 :: nat]" "[0..<4] = [0, 1, 2, 3 :: nat]" by (simp_all add: upt_rec)
  show "map fst (map2 pump_member [0..<6] ps) = take (length ps) (map lit [''pump1_on'', ''pump2_on'', ''pump3_on'', ''pump4_on'', ''pump5_on'', ''pump6_on''])"
      "map fst (map2 light_member [0..<4] ls) = take (length ls) (map lit [''light1'', ''light2'', ''light3'', ''light4''])"
    unfolding p l u by (simp_all add: show_nat.simps lit_def)
qed

lemma state_members_keys:
  assumes "status_wf s"
  shows "map fst (state_members s f v b r rs) = map lit state_keys"
  using assms numbered_keys(1) [of "pumps s"] numbered_keys(2) [of "lights s"]
  by (simp add: state_members_def status_wf_def state_keys_def)

lemma state_members_distinct: "status_wf s \<Longrightarrow> distinct (map fst (state_members s f v b r rs))"
proof -
  assume w: "status_wf s"
  have "distinct state_keys" by (simp add: state_keys_def)
  moreover have "inj lit" by (simp add: inj_def lit_eq)
  ultimately show ?thesis unfolding state_members_keys [OF w] by (simp add: distinct_map inj_on_subset [of lit UNIV])
qed

text \<open>The fields the server follows, with what the spa says of them.\<close>

definition spa_components :: "StatusUpdate \<Rightarrow> (rstr \<times> bool) list" where
  "spa_components s =
     [(lit ''is_heating'', is_heating s)] @
     map (\<lambda>i. (lit ''pump'' @ show_nat (i + 1) @ lit ''_on'', pumps s ! i \<noteq> Pump_Off)) [0..<6] @
     [(lit ''circ_pump'', circ_pump s), (lit ''blower'', blower s)] @
     map (\<lambda>i. (lit ''light'' @ show_nat (i + 1), lights s ! i)) [0..<4] @
     [(lit ''mister'', mister s)]"

lemma spa_components_members:
  assumes "status_wf s" and "(k, c) \<in> set (spa_components s)"
  shows "map_of (state_members s f v b r rs) k = Some (J_Token (show_bool c))"
proof (rule map_of_is_SomeI [OF state_members_distinct [OF assms(1)]])
  have "pump_member i (pumps s ! i) \<in> set (map2 pump_member [0..<length (pumps s)] (pumps s))" if "i < 6" for i
    using that assms(1) by (force simp: status_wf_def set_zip)
  then have p: "(lit ''pump'' @ show_nat (i + 1) @ lit ''_on'', J_Token (show_bool (pumps s ! i \<noteq> Pump_Off))) \<in> set (state_members s f v b r rs)"
    if "i < 6" for i using that unfolding state_members_def set_append pump_member_def by blast
  have "light_member i (lights s ! i) \<in> set (map2 light_member [0..<length (lights s)] (lights s))" if "i < 4" for i
    using that assms(1) by (force simp: status_wf_def set_zip)
  then have l: "(lit ''light'' @ show_nat (i + 1), J_Token (show_bool (lights s ! i))) \<in> set (state_members s f v b r rs)"
    if "i < 4" for i using that unfolding state_members_def set_append light_member_def by blast
  have o: "(k, J_Token (show_bool c)) \<in> set (state_members s f v b r rs)"
    if "(k, c) \<in> {(lit ''is_heating'', is_heating s), (lit ''circ_pump'', circ_pump s), (lit ''blower'', blower s), (lit ''mister'', mister s)}"
    using that by (simp add: state_members_def, elim disjE conjE) (simp_all only: simp_thms)
  show "(k, J_Token (show_bool c)) \<in> set (state_members s f v b r rs)"
    using assms(2) p l o unfolding spa_components_def set_append set_map set_upt by fastforce
qed

lemma spa_components_fields: "map fst (spa_components s) = COMPONENT_FIELDS"
proof -
  have u: "[0..<6] = [0, 1, 2, 3, 4, 5 :: nat]" "[0..<4] = [0, 1, 2, 3 :: nat]" by (simp_all add: upt_rec)
  show ?thesis unfolding spa_components_def COMPONENT_FIELDS_def u by (simp add: show_nat.simps) (simp add: lit_def)
qed

section \<open>A published state in the store\<close>

lemma collected_fields:
  "map_of (concat (map (\<lambda>f. case g f of Some b \<Rightarrow> [(f, b)] | None \<Rightarrow> []) fs)) k = (if k \<in> set fs then g k else None)"
  by (induction fs) (auto split: option.split)

lemma collected_fields_fst:
  "map fst (concat (map (\<lambda>f. case g f of Some b \<Rightarrow> [(f, b)] | None \<Rightarrow> []) fs)) = filter (\<lambda>f. g f \<noteq> None) fs"
  by (induction fs) (simp_all split: option.split)

lemma component_states_map: "map_of (component_states v) k =
    (if k \<in> set COMPONENT_FIELDS then Option.bind (json_get v k) as_bool else None)"
  unfolding component_states_def by (rule collected_fields)

lemma component_states_small: "distinct (map fst (component_states v))" "length (component_states v) \<le> 14"
proof -
  have f: "map fst (component_states v) = filter (\<lambda>f. Option.bind (json_get v f) as_bool \<noteq> None) COMPONENT_FIELDS"
    unfolding component_states_def by (rule collected_fields_fst)
  have "distinct COMPONENT_FIELDS" unfolding COMPONENT_FIELDS_def by (simp add: lit_eq)
  then show "distinct (map fst (component_states v))" unfolding f by simp
  have "length (map fst (component_states v)) \<le> length COMPONENT_FIELDS" unfolding f by (rule length_filter_le)
  then show "length (component_states v) \<le> 14" by (simp add: COMPONENT_FIELDS_def)
qed

lemma entry_of_update [simp]: "entry_of (AList.update d x m) d = x"
  by (simp add: entry_of_def update_conv')

lemma sample_keeps_events [simp]: "ms_component_events (insert_temperature_sample secs now d a b mem) = ms_component_events mem"
  by (simp add: insert_temperature_sample_def Let_def)

lemma stored_component:
  assumes "length (entry_of (ms_component_events mem) d) + length cs \<le> MAX_COMPONENT_ENTRIES"
    and "distinct (map fst cs)" and "(k, c) \<in> set cs"
  shows "get_latest_component_state (insert_component_changes now d cs mem) d k = c"
  using last_component_changes [OF assms(2), of "entry_of (ms_component_events mem) d" now k] assms(1) map_of_is_SomeI [OF assms(2,3)]
  by (simp add: get_latest_component_state_def insert_component_changes_def)

text \<open>The bridge follows what the spa says of its components.\<close>

lemma bridge_state_components:
  assumes cr: "reads_objects num cr" and st: "status_parse p = Inr s" and rs: "plain rs" "list_all scalar_value rs"
    and texts: "list_all scalar_value (unwrap_or f [])" "list_all scalar_value (unwrap_or v [])"
    and room: "length (entry_of (ms_component_events mem) d) + 14 \<le> MAX_COMPONENT_ENTRIES"
    and k: "(k, c) \<in> set (spa_components s)"
  shows "get_latest_component_state (bridge_state cr now d (status_to_json s f v b r rs) mem) d k = c"
proof -
  let ?ms = "state_members s f v b r rs"
  let ?v = "Json_Object (map (\<lambda>(k, v). (k, value_of num v)) ?ms)"
  have w: "status_wf s" by (rule status_parse_wf [OF st])
  have "?ms \<noteq> []" by (simp add: state_members_def)
  then have "from_str cr (object_text ?ms) = Some ?v"
    using cr [unfolded reads_objects_def, rule_format, of ?ms] state_members_distinct [OF w] state_literals [OF st rs(2) texts] by blast
  moreover have "pumps s \<noteq> []" "lights s \<noteq> []" using w by (auto simp: status_wf_def)
  ultimately have v: "from_str cr (status_to_json s f v b r rs) = Some ?v"
    using status_to_json_object [of s rs] rs(1) by simp
  have "json_get ?v k = Some (Json_Bool c)"
    unfolding json_get_members spa_components_members [OF w k]
    by (cases c) (simp_all add: value_of_def show_bool_def lit_eq)
  moreover have "k \<in> set COMPONENT_FIELDS" using k spa_components_fields [of s] by (metis fst_conv image_eqI set_map)
  ultimately have "map_of (component_states ?v) k = Some c" by (simp only: component_states_map) simp
  then have "(k, c) \<in> set (component_states ?v)" by (rule map_of_SomeD)
  then show ?thesis
    unfolding bridge_state_def v option.case
    using room component_states_small [of ?v] by (intro stored_component) simp_all
qed

text \<open>The topic of the state leads to the bridge's handler, if there is no slash in the name of the device.\<close>

lemma find_slash: "47 \<notin> set xs \<Longrightarrow> find_str (xs @ 47 # r) [47] = Some (length xs)"
  by (induction xs) simp_all

lemma split_topic_device:
  assumes "47 \<notin> set d"
  shows "split_topic (device_topic (topic_builder_new d) leaf) = Some (d, lit leaf)"
proof -
  have t: "device_topic (topic_builder_new d) leaf = lit ''launa'' @ 47 # d @ 47 # lit leaf"
    by (simp add: device_topic_def topic_builder_new_def BASE_TOPIC_def) (simp add: lit_def)
  have "47 \<notin> set (lit ''launa'')" by (simp add: lit_def)
  from find_slash [OF this, of "d @ 47 # lit leaf"] show ?thesis
    unfolding t split_topic_def using find_slash [OF assms, of "lit leaf"] by (simp add: Let_def)
qed

lemma forward_state:
  assumes "47 \<notin> set d" and "from_utf8 tb = Some (state_topic (topic_builder_new d))" and "from_utf8 pb = Some text"
  shows "handle_forward cr now tb pb mem = bridge_state cr now d text mem"
  using assms by (simp add: handle_forward_def state_topic_def split_topic_device lit_eq)

section \<open>A reader that does what is asked\<close>

definition object_reader :: "(rstr \<Rightarrow> number) \<Rightarrow> Crates" where
  "object_reader num =
     \<lparr>from_str = (\<lambda>t. map_option (\<lambda>ms. Json_Object (map (\<lambda>(k, v). (k, value_of num v)) ms)) (read_object t)),
      seconds_between = (\<lambda>_ _. None)\<rparr>"

lemma number_text_token:
  assumes "number_text t"
  shows "t \<noteq> [] \<and> list_all token_char t"
proof -
  define u where "u = (if t \<noteq> [] \<and> hd t = 45 then tl t else t)"
  have dig: "token_char c" if "is_digit c" for c using that by (simp add: is_digit_def token_char_def)
  have "list_all token_char (takeWhile is_digit u)" using dig by (auto simp: list_all_iff dest: set_takeWhileD)
  moreover have "list_all token_char (dropWhile is_digit u)" "takeWhile is_digit u \<noteq> []"
    using assms dig unfolding number_text_def u_def [symmetric] Let_def
    by (cases "dropWhile is_digit u"; auto simp: list_all_iff token_char_def [of 46])+
  ultimately have "list_all token_char u" "u \<noteq> []"
    by (metis list_all_append takeWhile_dropWhile_id) (metis takeWhile.simps(1) \<open>takeWhile is_digit u \<noteq> []\<close>)
  then show ?thesis by (cases t) (auto simp: u_def token_char_def [of 45] split: if_splits)
qed

lemma reads_objects_reader: "reads_objects num (object_reader num)"
proof -
  have "json_ok v" if "json_literal v" for v
  proof (cases v)
    case (J_Token t)
    with that show ?thesis
      using number_text_token [of t] by (auto simp: json_literal_def json_ok_def lit_def token_char_def)
  qed (simp add: json_ok_def)
  then show ?thesis
    unfolding reads_objects_def object_reader_def
    by (auto simp: read_object_text list_all_iff split_def simp del: set_map)
qed

section \<open>The bytes of a state\<close>

lemma scalar_escape: "list_all scalar_value s \<Longrightarrow> list_all scalar_value (escape_json_string s)"
proof -
  have small: "scalar_value c" if "c < 55296" for c using that by (simp add: scalar_value_def)
  have "hex_digit_lower n < 55296" if "n < 32" for n using that by (simp add: hex_digit_lower_def)
  then have "list_all scalar_value (escape_char c)" if "scalar_value c" for c
    using that by (simp add: escape_char_def small)
  then show "list_all scalar_value s \<Longrightarrow> list_all scalar_value (escape_json_string s)"
    by (induction s) (simp_all add: escape_json_string_def)
qed

lemma scalar_value_text: "json_literal v \<Longrightarrow> list_all scalar_value (value_text v)"
proof (cases v)
  case (J_Token t)
  have "scalar_value c" if "token_char c" for c using that unfolding token_char_def scalar_value_def by linarith
  then have "list_all scalar_value t" if "list_all token_char t" using that by (simp add: list_all_iff)
  moreover assume "json_literal v"
  then have "t = lit ''true'' \<or> t = lit ''false'' \<or> t = lit ''null'' \<or> number_text t" by (simp add: J_Token json_literal_def)
  ultimately have "list_all scalar_value t" using number_text_token [of t] by (elim disjE) simp_all
  then show ?thesis by (simp add: J_Token)
qed (simp add: json_literal_def quoted_def scalar_escape, simp add: scalar_value_def)

lemma scalar_join_comma: "list_all (list_all scalar_value) ts \<Longrightarrow> list_all scalar_value (join_comma ts)"
  by (induction ts rule: join_comma.induct) (simp_all add: scalar_value_def [of 44])

lemma scalar_object_text:
  assumes "list_all (\<lambda>(k, v). list_all scalar_value k \<and> json_literal v) ms"
  shows "list_all scalar_value (object_text ms)"
proof -
  have "list_all (list_all scalar_value) (map member_text ms)"
    using assms
    by (induction ms) (auto simp: member_text_def quoted_def scalar_escape scalar_value_text scalar_value_def [of 34] scalar_value_def [of 58])
  then show ?thesis by (simp add: object_text_def scalar_join_comma scalar_value_def [of 123] scalar_value_def [of 125])
qed

lemma state_bytes:
  assumes "status_parse p = Inr s" and "plain rs" and "list_all scalar_value rs"
    and "list_all scalar_value (unwrap_or f [])" and "list_all scalar_value (unwrap_or v [])"
  shows "from_utf8 (as_bytes (status_to_json s f v b r rs)) = Some (status_to_json s f v b r rs)"
proof (rule from_utf8_as_bytes)
  have "pumps s \<noteq> []" "lights s \<noteq> []" using status_parse_wf [OF assms(1)] by (auto simp: status_wf_def)
  from status_to_json_object [OF this assms(2)] show "list_all scalar_value (status_to_json s f v b r rs)"
    using state_literals [OF assms(1,3-5)] by (simp add: scalar_object_text)
qed

lemma topic_bytes:
  assumes "list_all scalar_value d"
  shows "from_utf8 (as_bytes (device_topic (topic_builder_new d) leaf)) = Some (device_topic (topic_builder_new d) leaf)"
  using assms by (intro from_utf8_as_bytes) (simp add: device_topic_def topic_builder_new_def BASE_TOPIC_def)

section \<open>Offline devices\<close>

text \<open>A device has been offline for long: it is watched and its time is over the threshold.\<close>

definition long_offline :: "(rstr \<Rightarrow> int option) \<Rightarrow> MemoryStore \<Rightarrow> rstr \<Rightarrow> bool" where
  "long_offline elapsed s d =
     (case map_of (ms_offline_since s) d of
        None \<Rightarrow> False
      | Some since \<Rightarrow>
          (monitored_devices (notification_config s) = [] \<or> d \<in> set (monitored_devices (notification_config s))) \<and>
          (case elapsed since of
             None \<Rightarrow> False | Some n \<Rightarrow> sint (offline_threshold_hours (notification_config s) * 3600) \<le> n))"

definition offline_ids :: "(rstr \<times> rstr \<times> int) list \<Rightarrow> rstr set" where
  "offline_ids xs = set (map fst xs)"

text \<open>The time an entry has been offline for, if it counts.\<close>

definition late :: "(rstr \<Rightarrow> int option) \<Rightarrow> int \<Rightarrow> MemoryStore \<Rightarrow> rstr \<times> rstr \<Rightarrow> int option" where
  "late elapsed n s x =
     (if monitored_devices (notification_config s) \<noteq> [] \<and> fst x \<notin> set (monitored_devices (notification_config s)) then None
      else case elapsed (snd x) of Some m \<Rightarrow> if n \<le> m then Some m else None | None \<Rightarrow> None)"

lemma long_offline_devices_late:
  "get_long_offline_devices elapsed n s =
    sort_key fst (concat (map (\<lambda>x. case late elapsed n s x of Some m \<Rightarrow> [(fst x, snd x, m)] | None \<Rightarrow> []) (ms_offline_since s)))"
proof -
  have "(if monitored_devices (notification_config s) \<noteq> [] \<and> d \<notin> set (monitored_devices (notification_config s)) then []
      else case elapsed since of Some m \<Rightarrow> if m \<ge> n then [(d, since, m)] else [] | None \<Rightarrow> []) =
    (case late elapsed n s (d, since) of Some m \<Rightarrow> [(fst (d, since), snd (d, since), m)] | None \<Rightarrow> [])" for d since
    by (simp add: late_def split: option.split)
  then show ?thesis
    unfolding get_long_offline_devices_def Let_def
    by (intro arg_cong [of _ _ "sort_key fst"] arg_cong [of _ _ concat] map_cong) (simp_all only: split_paired_all prod.case)
qed

lemma map_fst_collect:
  "map fst (concat (map (\<lambda>x. case g x of Some m \<Rightarrow> [(fst x, snd x, m)] | None \<Rightarrow> []) xs)) = map fst (filter (\<lambda>x. g x \<noteq> None) xs)"
  by (induction xs) (simp_all split: option.split)

lemma offline_ids_late:
  "offline_ids (get_long_offline_devices elapsed n s) = fst ` {x \<in> set (ms_offline_since s). late elapsed n s x \<noteq> None}"
  using arg_cong [OF map_fst_collect [of "late elapsed n s" "ms_offline_since s"], of set]
  by (simp add: offline_ids_def long_offline_devices_late)

lemma long_offline_listed:
  assumes "distinct (map fst (ms_offline_since s))"
  shows "d \<in> offline_ids (get_long_offline_devices elapsed (sint (offline_threshold_hours (notification_config s) * 3600)) s) \<longleftrightarrow>
    long_offline elapsed s d"
proof -
  let ?n = "sint (offline_threshold_hours (notification_config s) * 3600)"
  have m: "map_of (ms_offline_since s) a = Some b \<longleftrightarrow> (a, b) \<in> set (ms_offline_since s)" for a b
    using assms by (simp add: map_of_eq_Some_iff)
  have "long_offline elapsed s d \<longleftrightarrow> (\<exists>since. map_of (ms_offline_since s) d = Some since \<and> late elapsed ?n s (d, since) \<noteq> None)"
    by (cases "map_of (ms_offline_since s) d") (simp_all add: long_offline_def late_def split: option.split)
  then show ?thesis by (force simp: offline_ids_late m)
qed

lemma listed_once:
  assumes "distinct (map fst (ms_offline_since s))"
  shows "distinct (map fst (get_long_offline_devices elapsed n s))"
proof -
  have "distinct (map fst (sort_key fst ys))" if "distinct (map fst ys)" for ys :: "(rstr \<times> rstr \<times> int) list"
    using that by (simp add: distinct_map)
  moreover have "distinct (map fst (concat (map (\<lambda>x. case late elapsed n s x of Some m \<Rightarrow> [(fst x, snd x, m)] | None \<Rightarrow> [])
      (ms_offline_since s))))"
    unfolding map_fst_collect using assms by (rule distinct_map_filter)
  ultimately show ?thesis unfolding long_offline_devices_late .
qed

lemma offline_alerts:
  assumes "distinct (map fst xs)"
  shows "foldl (offline_alert delivered) (ns, as) xs =
    (ns @ filter (\<lambda>d. d \<notin> set ns \<and> delivered d) (map fst xs),
     as @ map (\<lambda>(d, _, n). Offline_Alert d (duration_text n)) (filter (\<lambda>x. fst x \<notin> set ns) xs))"
  using assms
proof (induction xs arbitrary: ns as)
  case (Cons x xs)
  obtain d t n where x: "x = (d, t, n)" by (cases x)
  have d: "d \<notin> fst ` set xs" using Cons.prems by (simp add: x)
  then have "filter (\<lambda>k. k \<notin> set (ns @ [d]) \<and> delivered k) (map fst xs) = filter (\<lambda>k. k \<notin> set ns \<and> delivered k) (map fst xs)"
      "filter (\<lambda>y. fst y \<notin> set (ns @ [d])) xs = filter (\<lambda>y. fst y \<notin> set ns) xs"
    by (auto intro!: filter_cong)
  with Cons show ?case by (simp add: x offline_alert_def)
qed simp

lemma alert_in:
  "(\<exists>t. Offline_Alert d t \<in> set (map (\<lambda>(k, _, n). Offline_Alert k (duration_text n)) xs @ map Back_Online ys)) \<longleftrightarrow> d \<in> fst ` set xs"
proof
  assume "d \<in> fst ` set xs"
  then obtain t n where "(d, t, n) \<in> set xs" by force
  then have "Offline_Alert d (duration_text n) \<in> (\<lambda>(k, _, n). Offline_Alert k (duration_text n)) ` set xs" by force
  then show "\<exists>t. Offline_Alert d t \<in> set (map (\<lambda>(k, _, n). Offline_Alert k (duration_text n)) xs @ map Back_Online ys)"
    unfolding set_append set_map by blast
qed force

lemma fst_filter: "d \<in> fst ` set (filter (\<lambda>x. fst x \<notin> N) xs) \<longleftrightarrow> d \<in> fst ` set xs \<and> d \<notin> N"
  by force

section \<open>Properties\<close>

text \<open>
  Property C20: which notices a check sends, for every store and every outcome of the sending. An alert goes out
  for exactly the devices that have been offline for long and have not been reported; those whose alert arrives
  are remembered, the others are tried again. The word that a device is back goes out for exactly the remembered
  devices that are not in the list of the long offline ones, and that is all it means: a device that is no longer
  watched, or that was reported under a lower threshold, is announced as back online while it is still offline.
\<close>

theorem notifier_notices:
  assumes "distinct (map fst (ms_offline_since s))" and "discord_webhook_url (notification_config s) \<noteq> []"
    and "notifier_check elapsed delivered s notified = (notified', notices)"
  shows "((\<exists>t. Offline_Alert d t \<in> set notices) \<longleftrightarrow> long_offline elapsed s d \<and> d \<notin> set notified) \<and>
    (Back_Online d \<in> set notices \<longleftrightarrow> d \<in> set notified \<and> \<not> long_offline elapsed s d) \<and>
    (d \<in> set notified' \<longleftrightarrow> long_offline elapsed s d \<and> (d \<in> set notified \<or> delivered d))"
proof -
  let ?xs = "get_long_offline_devices elapsed (sint (offline_threshold_hours (notification_config s) * 3600)) s"
  have ids: "k \<in> fst ` set ?xs \<longleftrightarrow> long_offline elapsed s k" for k
    using long_offline_listed [OF assms(1), of k elapsed] by (simp add: offline_ids_def)
  have n: "notified' = filter (\<lambda>k. k \<in> fst ` set ?xs) (notified @ filter (\<lambda>k. k \<notin> set notified \<and> delivered k) (map fst ?xs))"
      "notices = map (\<lambda>(k, _, n). Offline_Alert k (duration_text n)) (filter (\<lambda>x. fst x \<notin> set notified) ?xs) @
        map Back_Online (filter (\<lambda>k. k \<notin> fst ` set ?xs) (notified @ filter (\<lambda>k. k \<notin> set notified \<and> delivered k) (map fst ?xs)))"
    using assms(2,3) by (simp_all add: notifier_check_def Let_def offline_alerts [OF listed_once [OF assms(1)]])
  have "Back_Online d \<in> set notices \<longleftrightarrow> d \<in> set notified \<and> d \<notin> fst ` set ?xs" by (auto simp: n(2))
  moreover have "(\<exists>t. Offline_Alert d t \<in> set notices) \<longleftrightarrow> d \<in> fst ` set ?xs \<and> d \<notin> set notified"
    by (simp only: n(2) alert_in fst_filter)
  moreover have "d \<in> set notified' \<longleftrightarrow> d \<in> fst ` set ?xs \<and> (d \<in> set notified \<or> delivered d)"
    by (auto simp: n(1))
  ultimately show ?thesis by (simp add: ids)
qed

text \<open>An unwatched device that is still offline, announced as back.\<close>

definition unwatched_store :: MemoryStore where
  "unwatched_store = set_notification_config
     \<lparr>discord_webhook_url = [104], offline_threshold_hours = 6, monitored_devices = [[121]]\<rparr>
     (update_device_status [49] [120] (lit ''offline'') None store_new)"

theorem notifier_notices_witness:
  "map_of (ms_offline_since unwatched_store) [120] = Some [49] \<and>
   Back_Online [120] \<in> set (snd (notifier_check (\<lambda>_. Some 90000) (\<lambda>_. True) unwatched_store [[120]]))"
proof -
  have f: "ms_offline_since unwatched_store = [([120], [49])]"
    by (simp add: unwatched_store_def set_notification_config_def update_device_status_def mark_device_offline_def
        Let_def store_new_def) (simp add: lit_def)
  have c: "notification_config unwatched_store = \<lparr>discord_webhook_url = [104], offline_threshold_hours = 6, monitored_devices = [[121]]\<rparr>"
    by (simp add: unwatched_store_def set_notification_config_def)
  show ?thesis
    using notifier_notices [of unwatched_store "\<lambda>_. Some 90000" "\<lambda>_. True" "[[120]]"
        "fst (notifier_check (\<lambda>_. Some 90000) (\<lambda>_. True) unwatched_store [[120]])"
        "snd (notifier_check (\<lambda>_. Some 90000) (\<lambda>_. True) unwatched_store [[120]])" "[120]"]
    by (simp add: f c long_offline_def)
qed

text \<open>
  The store survives a save that fails. If the serializer and its reader fit together, then after a
  save a load gives the saved store or what a load gave before, whichever of the two steps fails and whatever is
  left in the temporary file; the first it gives exactly when both steps succeed.
\<close>

theorem saved_store_loads:
  assumes "to_string (serialized s) = Some t" and "from_string t = Some (serialized s)"
  shows "store_load from_string (store_save to_string written renamed s fs) =
    (if written = Write_Ok \<and> renamed then s else store_load from_string fs)"
proof -
  have "store_of (serialized s) = s" by (simp add: store_of_def serialized_def unwrap_or_def)
  with assms show ?thesis by (cases written) (simp_all add: store_save_def store_load_def)
qed

theorem saved_store_loads_witness:
  "store_load (\<lambda>_. Some (serialized unwatched_store)) (store_save (\<lambda>_. Some [123]) (Write_Failed (Some [])) True unwatched_store
     \<lparr>sf_file = None, sf_tmp = None\<rparr>) = store_new"
  using saved_store_loads [of "\<lambda>_. Some [123]" unwatched_store "[123]" "\<lambda>_. Some (serialized unwatched_store)"
      "Write_Failed (Some [])" True "\<lparr>sf_file = None, sf_tmp = None\<rparr>"]
  by (simp add: store_load_def)

end
