(* ===== verification/GoogleHomeProperties.thy ===== *)
theory GoogleHomeProperties
  imports GoogleHome ServerStoreProperties
begin

text \<open>
  Properties of \<open>crates/launa-server/src/google_home.rs\<close> together with the firmware it commands: the names
  announced to Google are read back, and what a switch or a mode does on the device. The names of the switches
  are followed from the announcement through the request to the topic the firmware listens on.
\<close>

section \<open>Texts\<close>

lemma starts_with_split: "starts_with s p \<longleftrightarrow> (\<exists>r. s = p @ r)"
  by (induction s p rule: starts_with.induct) auto

lemma ends_with_iff: "ends_with s p \<longleftrightarrow> (\<exists>r. s = r @ p)"
proof
  assume "ends_with s p"
  then obtain r where "rev s = rev p @ r" by (auto simp: ends_with_def starts_with_split)
  then have "rev (rev s) = rev (rev p @ r)" by simp
  then show "\<exists>r. s = r @ p" by auto
qed (auto simp: ends_with_def starts_with_split)

lemma ends_with_last: "ends_with s p \<Longrightarrow> p \<noteq> [] \<Longrightarrow> s \<noteq> [] \<and> last s = last p"
  by (auto simp: ends_with_iff)

lemma strip_suffix_append [simp]: "strip_suffix (b @ p) p = Some b"
  by (simp add: strip_suffix_def ends_with_iff)

lemma strip_suffix_other: "p \<noteq> [] \<Longrightarrow> last s \<noteq> last p \<Longrightarrow> strip_suffix s p = None"
  using ends_with_last [of s p] by (auto simp: strip_suffix_def)

lemma strip_suffix_differ:
  assumes "length q \<le> length p" and "drop (length p - length q) p \<noteq> q"
  shows "strip_suffix (b @ p) q = None"
proof -
  have "\<not> ends_with (b @ p) q"
  proof
    assume "ends_with (b @ p) q"
    then obtain r where "b @ p = r @ q" by (auto simp: ends_with_iff)
    then have "drop (length (b @ p) - length q) (b @ p) = drop (length (r @ q) - length q) (r @ q)" by simp
    with assms show False by simp
  qed
  then show ?thesis by (simp add: strip_suffix_def)
qed

lemma show_nat_is_digit: "c \<in> set (show_nat n) \<Longrightarrow> is_digit c"
  using show_nat_digits by (simp add: is_digit_def)

lemma last_show_nat: "is_digit (last (s @ show_nat n))"
  using show_nat_is_digit [of "last (show_nat n)" n] by simp

lemma trim_digits_show_nat: "s = [] \<or> \<not> is_digit (last s) \<Longrightarrow> trim_digits (s @ show_nat n) = s"
proof -
  assume s: "s = [] \<or> \<not> is_digit (last s)"
  have "dropWhile is_digit (rev (show_nat n) @ rev s) = dropWhile is_digit (rev s)"
    by (rule dropWhile_append2) (simp add: show_nat_is_digit)
  also have "\<dots> = rev s" using s by (cases s rule: rev_cases) simp_all
  finally show ?thesis by (simp add: trim_digits_def)
qed

lemma after_underscore_append: "95 \<notin> set t \<Longrightarrow> after_underscore (s @ 95 # t) = t"
  by (simp add: after_underscore_def takeWhile_tail) (subst takeWhile_eq_all_conv [THEN iffD2], auto)

section \<open>Names\<close>

text \<open>The names of what can be switched, and of the thermostat.\<close>

datatype google_name = Thermostat | Switch_Pump nat | Switch_Light nat | Switch_Blower | Switch_Mister | Switch_Circ_Pump

fun name_suffix :: "google_name \<Rightarrow> rstr" where
  "name_suffix Thermostat = lit ''_thermostat''"
| "name_suffix (Switch_Pump i) = lit ''_pump'' @ show_nat i"
| "name_suffix (Switch_Light i) = lit ''_light'' @ show_nat i"
| "name_suffix Switch_Blower = lit ''_blower''"
| "name_suffix Switch_Mister = lit ''_mister''"
| "name_suffix Switch_Circ_Pump = lit ''_circ_pump''"

fun name_type :: "google_name \<Rightarrow> rstr" where
  "name_type Thermostat = lit ''thermostat''"
| "name_type (Switch_Pump i) = lit ''pump''"
| "name_type (Switch_Light i) = lit ''light''"
| "name_type Switch_Blower = lit ''blower''"
| "name_type Switch_Mister = lit ''mister''"
| "name_type Switch_Circ_Pump = lit ''circ_pump''"

text \<open>The field of the published state that stands for it.\<close>

fun name_field :: "google_name \<Rightarrow> rstr" where
  "name_field Thermostat = lit ''thermostat''"
| "name_field (Switch_Pump i) = lit ''pump'' @ show_nat i @ lit ''_on''"
| "name_field (Switch_Light i) = lit ''light'' @ show_nat i"
| "name_field Switch_Blower = lit ''blower''"
| "name_field Switch_Mister = lit ''mister''"
| "name_field Switch_Circ_Pump = lit ''circ_pump''"

lemma first_suffix_digit: "is_digit (last s) \<Longrightarrow> first_suffix s (map lit [''_thermostat'', ''_circ_pump'', ''_blower'', ''_mister'']) = None"
  by (auto simp: strip_suffix_other lit_def is_digit_def)

lemma parse_numbered:
  assumes "x \<noteq> []" and "\<not> is_digit (last x)"
  shows "parse_google_device_id (d @ x @ show_nat i) =
    (case strip_suffix (d @ x) (lit ''_pump'') of Some base \<Rightarrow> (base, lit ''pump'')
     | None \<Rightarrow> (case strip_suffix (d @ x) (lit ''_light'') of Some base \<Rightarrow> (base, lit ''light'')
         | None \<Rightarrow> (d @ x @ show_nat i, lit ''unknown'')))"
proof -
  have t: "trim_digits (d @ x @ show_nat i) = d @ x"
    using trim_digits_show_nat [of "d @ x" i] assms by simp
  have n: "first_suffix (d @ x @ show_nat i) (map lit [''_thermostat'', ''_circ_pump'', ''_blower'', ''_mister'']) = None"
    using last_show_nat [of "d @ x" i] by (intro first_suffix_digit) simp
  show ?thesis unfolding parse_google_device_id_def n by (simp add: t Let_def)
qed

lemma last_lit_suffix: "\<not> is_digit (last (lit ''_pump''))" "\<not> is_digit (last (lit ''_light''))"
    "lit ''_pump'' \<noteq> []" "lit ''_light'' \<noteq> []"
  by (simp_all add: lit_def is_digit_def)

lemma light_no_pump: "strip_suffix (d @ lit ''_light'') (lit ''_pump'') = None"
  by (rule strip_suffix_differ) (simp_all add: lit_def)

lemma parse_name: "parse_google_device_id (d @ name_suffix g) = (d, name_type g)"
proof (cases g)
  case (Switch_Pump i)
  then show ?thesis using parse_numbered [of "lit ''_pump''" d i] by (simp add: last_lit_suffix)
next
  case (Switch_Light i)
  then show ?thesis using parse_numbered [of "lit ''_light''" d i] by (simp add: last_lit_suffix light_no_pump)
qed (simp_all add: parse_google_device_id_def strip_suffix_differ strip_suffix_other lit_def)

lemma after_underscore_numbered:
  "after_underscore (d @ lit ''_pump'' @ show_nat i) = lit ''pump'' @ show_nat i"
  "after_underscore (d @ lit ''_light'' @ show_nat i) = lit ''light'' @ show_nat i"
proof -
  have "95 \<notin> set (lit ''pump'' @ show_nat i)" "95 \<notin> set (lit ''light'' @ show_nat i)"
    using show_nat_digits [of 95 i] by (auto simp: lit_def)
  then show "after_underscore (d @ lit ''_pump'' @ show_nat i) = lit ''pump'' @ show_nat i"
      "after_underscore (d @ lit ''_light'' @ show_nat i) = lit ''light'' @ show_nat i"
    using after_underscore_append [of "lit ''pump'' @ show_nat i" d] after_underscore_append [of "lit ''light'' @ show_nat i" d]
    by (simp_all add: lit_def)
qed

lemma name_component: "g \<noteq> Thermostat \<Longrightarrow> device_component (d @ name_suffix g) (name_type g) = name_field g"
  by (cases g) (simp_all add: device_component_def after_underscore_numbered, simp_all add: lit_def)

section \<open>What is announced\<close>

text \<open>The identifier of an announced device.\<close>

definition announced_id :: "jvalue \<Rightarrow> rstr option" where
  "announced_id v = as_str (json_at v (lit ''id''))"

definition announced_names :: "AccessoryConfigData \<Rightarrow> google_name list" where
  "announced_names cfg =
     [Thermostat] @ map Switch_Pump [1..<Suc (unat (ac_pumps cfg))] @ map Switch_Light [1..<Suc (unat (ac_lights cfg))] @
     (if ac_blower cfg then [Switch_Blower] else []) @ (if ac_mister cfg then [Switch_Mister] else []) @ [Switch_Circ_Pump]"

lemma announced_id_jobj: "announced_id (jobj ((''id'', Json_String i) # ms)) = Some i"
  by (simp add: announced_id_def json_at_def jobj_def)

lemma announced_ids:
  "map announced_id (spa_devices cfg celsius d) = map (\<lambda>g. Some (d @ name_suffix g)) (announced_names cfg)"
  by (simp add: spa_devices_def announced_names_def thermostat_device_def pump_device_def light_device_def
      on_off_device_def announced_id_jobj o_def)

text \<open>The leaf of the topic and the item behind a switch.\<close>

fun name_leaf :: "google_name \<Rightarrow> rstr option" where
  "name_leaf Thermostat = None"
| "name_leaf (Switch_Pump i) = Some (lit ''pump'' @ show_nat i)"
| "name_leaf (Switch_Light i) = Some (lit ''light'' @ show_nat i)"
| "name_leaf Switch_Blower = Some (lit ''blower'')"
| "name_leaf Switch_Mister = Some (lit ''mister'')"
| "name_leaf Switch_Circ_Pump = Some (lit ''circulation_pump'')"

lemma name_on_off_leaf: "on_off_leaf (d @ name_suffix g) (name_type g) = name_leaf g"
  by (cases g) (simp_all add: on_off_leaf_def after_underscore_numbered, simp_all add: lit_def)

fun name_item :: "google_name \<Rightarrow> ToggleItem option" where
  "name_item Thermostat = None"
| "name_item (Switch_Pump i) = (if i = 0 then None else from_pump_index (i - 1))"
| "name_item (Switch_Light i) = (if i = 0 then None else from_light_index (i - 1))"
| "name_item Switch_Blower = Some Blower"
| "name_item Switch_Mister = Some Mister"
| "name_item Switch_Circ_Pump = Some CirculationPump"

section \<open>On the device\<close>

lemma show_nat_digit: "n < 10 \<Longrightarrow> show_nat n = [48 + n]"
  by (subst show_nat.simps) simp

lemma item_leaf: "name_item g = Some i \<Longrightarrow> name_leaf g = Some (item_topic i)"
  by (cases g) (auto simp: from_pump_index_def from_light_index_def show_nat_digit split: if_splits, simp_all add: lit_def show_nat_digit)

lemma pump_not_allowed:
  assumes "i = 0 \<or> 6 < i"
  shows "lit ''pump'' @ show_nat i \<notin> set ALLOWED_SUBTOPICS"
proof
  assume "lit ''pump'' @ show_nat i \<in> set ALLOWED_SUBTOPICS"
  moreover have "95 \<notin> set (show_nat i)" using show_nat_digits [of 95 i] by auto
  ultimately have "show_nat i \<in> {[49], [50], [51], [52], [53], [54]}"
    by (auto simp: ALLOWED_SUBTOPICS_def lit_def)
  then have "digits_value (show_nat i) \<in> digits_value ` {[49], [50], [51], [52], [53], [54]}" by (rule imageI)
  then show False using assms by (auto simp: digits_value_show_nat, auto simp: digits_value_def)
qed

lemma light_not_allowed:
  assumes "i = 0 \<or> 4 < i"
  shows "lit ''light'' @ show_nat i \<notin> set ALLOWED_SUBTOPICS"
proof
  assume "lit ''light'' @ show_nat i \<in> set ALLOWED_SUBTOPICS"
  then have "show_nat i \<in> {[49], [50], [51], [52]}" by (auto simp: ALLOWED_SUBTOPICS_def lit_def)
  then have "digits_value (show_nat i) \<in> digits_value ` {[49], [50], [51], [52]}" by (rule imageI)
  then show False using assms by (auto simp: digits_value_show_nat, auto simp: digits_value_def)
qed

lemma no_item_leaf:
  assumes "name_item g = None" and "name_leaf g = Some leaf"
  shows "leaf \<notin> set ALLOWED_SUBTOPICS"
proof (cases g)
  case (Switch_Pump i)
  then have "i = 0 \<or> 6 < i" using assms(1) by (auto simp: from_pump_index_def split: if_splits)
  then show ?thesis using Switch_Pump assms(2) pump_not_allowed by auto
next
  case (Switch_Light i)
  then have "i = 0 \<or> 4 < i" using assms(1) by (auto simp: from_light_index_def split: if_splits)
  then show ?thesis using Switch_Light assms(2) light_not_allowed by auto
qed (use assms in simp_all)

lemma parse_unknown: "s \<notin> set ALLOWED_SUBTOPICS \<Longrightarrow> parse_command b (b @ 47 # s) p = UnknownSubtopic s"
  by (simp add: parse_command_def Let_def)

lemma command_topic_of_device: "command_topic_of d leaf = command_topic (topic_builder_new d) @ 47 # leaf"
  by (simp add: command_topic_of_def command_topic_def device_topic_def topic_builder_new_def BASE_TOPIC_def)
    (simp add: lit_def)

lemma from_utf8_lit: "list_all (\<lambda>c. of_char c < (128 :: nat)) s \<Longrightarrow> from_utf8 (as_bytes (lit s)) = Some (lit s)"
  by (rule from_utf8_as_bytes) (auto simp: lit_def scalar_value_def list_all_iff)

text \<open>What the firmware of device \<open>d\<close> makes of a message of the server.\<close>

definition firmware_reads :: "rstr \<Rightarrow> rstr \<times> rstr \<Rightarrow> ParseResult" where
  "firmware_reads d m = parse_command (command_topic (topic_builder_new d)) (fst m) (as_bytes (snd m))"

lemma firmware_reads_item:
  assumes "from_utf8 (as_bytes ps) = Some ps" and "ps \<noteq> []"
  shows "firmware_reads d (command_topic_of d (item_topic i), ps) = Valid (ToggleItem i)"
  using assms by (simp add: firmware_reads_def command_topic_of_device parse_command_topic item_topic_allowed
      parse_subtopic_item parse_toggle_def)

lemma firmware_reads_leaf:
  assumes "name_leaf g = Some leaf" and "from_utf8 (as_bytes ps) = Some ps" and "ps \<noteq> []"
  shows "firmware_reads d (command_topic_of d leaf, ps) =
    (case name_item g of Some i \<Rightarrow> Valid (ToggleItem i) | None \<Rightarrow> UnknownSubtopic leaf)"
proof (cases "name_item g")
  case None
  from no_item_leaf [OF this assms(1)] None show ?thesis
    by (simp add: firmware_reads_def command_topic_of_device parse_unknown)
next
  case (Some i)
  with item_leaf [OF Some] assms show ?thesis by (simp add: firmware_reads_item)
qed

section \<open>Requests\<close>

text \<open>A request that asks for one command on one device.\<close>

definition one_command :: "rstr \<Rightarrow> string \<Rightarrow> jvalue \<Rightarrow> jvalue" where
  "one_command google_id command params =
     jobj [(''intent'', jstr ''action.devices.EXECUTE''), (''payload'', jobj [(''commands'', Json_Array
       [jobj [(''devices'', Json_Array [jobj [(''id'', Json_String google_id)]]),
          (''execution'', Json_Array [jobj [(''command'', jstr command), (''params'', params)]])]])])]"

lemma json_get_jobj: "json_get (jobj ms) (lit k) = map_of ms k"
proof -
  have "lit a = lit b \<longleftrightarrow> a = b" for a b by (auto simp: lit_def inj_map_eq_map inj_def)
  then show ?thesis by (induction ms) (auto simp: jobj_def)
qed

lemma json_at_jobj: "json_at (jobj ms) (lit k) = (case map_of ms k of Some v \<Rightarrow> v | None \<Rightarrow> Json_Null)"
  by (simp add: json_at_def json_get_jobj)

lemma one_command_executed:
  "execute_handler celsius rid (one_command (d @ name_suffix g) c params) =
    (let r = execute_command celsius d (name_type g) (d @ name_suffix g) (lit c) params in
     (jobj [(''requestId'', Json_String rid), (''payload'', jobj [(''commands'', Json_Array [fst r])])], snd r))"
  by (simp add: execute_handler_def one_command_def json_get_jobj json_at_jobj execute_group_def parse_name jstr_def Let_def
      del: name_suffix.simps)

lemma command_names: "lit ''action.devices.commands.OnOff'' \<noteq> lit ''action.devices.commands.ThermostatTemperatureSetpoint''"
    "lit ''action.devices.commands.OnOff'' \<noteq> lit ''action.devices.commands.ThermostatSetMode''"
    "lit ''action.devices.commands.ThermostatSetMode'' \<noteq> lit ''action.devices.commands.ThermostatTemperatureSetpoint''"
  by (simp_all add: lit_def)

text \<open>The answer when all went well.\<close>

definition success_answer :: "rstr \<Rightarrow> rstr \<Rightarrow> jvalue" where
  "success_answer rid google_id =
     jobj [(''requestId'', Json_String rid), (''payload'', jobj [(''commands'', Json_Array [execute_success google_id])])]"

lemma switch_executed:
  assumes "name_leaf g = Some leaf"
  shows "execute_handler celsius rid (one_command (d @ name_suffix g) ''action.devices.commands.OnOff'' (jobj [(''on'', Json_Bool on)])) =
    (success_answer rid (d @ name_suffix g), [(command_topic_of d leaf, if on then lit ''true'' else lit ''false'')])"
  using assms
  by (simp add: one_command_executed execute_command_def command_names name_on_off_leaf json_at_jobj success_answer_def Let_def
      del: name_suffix.simps)

lemma mode_executed:
  "execute_handler celsius rid (one_command (d @ name_suffix Thermostat) ''action.devices.commands.ThermostatSetMode''
      (jobj [(''thermostatMode'', Json_String m)])) =
    (success_answer rid (d @ name_suffix Thermostat),
     [(command_topic_of d (lit ''heat_mode''), if m = lit ''off'' then lit ''rest'' else lit ''ready'')])"
  unfolding one_command_executed execute_command_def
  by (simp add: command_names json_at_jobj success_answer_def Let_def del: name_suffix.simps)

section \<open>Degrees\<close>

text \<open>The relative error of rounding to 53 bits, and the absolute one of the temperatures.\<close>

lemma round_f64_error: "\<bar>round_f64 x - x\<bar> \<le> \<bar>x\<bar> / 2 ^ 53"
proof (cases "x = 0")
  case False
  define e where "e = ilog2 \<bar>x\<bar> - 52"
  have p: "pow2 e \<noteq> 0" using pow2_pos [of e] by (rule less_imp_neq [symmetric])
  have "pow2 e * 2 ^ 52 = pow2 (ilog2 \<bar>x\<bar>)"
    using pow2_add [of e 52] by (simp add: e_def pow2_def)
  also have "\<dots> \<le> \<bar>x\<bar>" using False by (simp add: pow2_ilog2_le)
  finally have e: "pow2 e \<le> \<bar>x\<bar> / 2 ^ 52" by (simp add: field_simps)
  have "round_f64 x - x = (of_int (round_half_even (x / pow2 e)) - x / pow2 e) * pow2 e"
    using False p by (simp add: round_f64_def Let_def e_def [symmetric] field_simps)
  then have "\<bar>round_f64 x - x\<bar> = \<bar>of_int (round_half_even (x / pow2 e)) - x / pow2 e\<bar> * pow2 e"
    by (simp add: abs_mult abs_of_pos)
  also have "\<dots> \<le> 1 / 2 * pow2 e"
    using round_half_even_error [of "x / pow2 e"] by (intro mult_right_mono) (simp_all add: less_imp_le)
  also have "\<dots> \<le> \<bar>x\<bar> / 2 ^ 53" using e by simp
  finally show ?thesis .
qed (simp add: round_f64_def)

lemma round_f64_near: "\<bar>x\<bar> \<le> 2048 \<Longrightarrow> \<bar>round_f64 x - x\<bar> \<le> 1 / 1000000"
  using round_f64_error [of x] by simp

lemma round_away_near: "\<bar>of_int (round_away x) - x\<bar> \<le> 1 / 2"
proof (cases "0 \<le> x")
  case True
  then show ?thesis using floor_correct [of "x + 1 / 2"] unfolding round_away_def if_P [OF True] by linarith
next
  case False
  then show ?thesis using ceiling_correct [of "x - 1 / 2"] unfolding round_away_def if_not_P [OF False] by linarith
qed

lemma round_away_of_near:
  assumes "\<bar>x - of_int n\<bar> < 1 / 2"
  shows "round_away x = n"
proof -
  have "\<bar>of_int (round_away x - n) :: rat\<bar> < 1"
    using round_away_near [of x] assms unfolding abs_le_iff abs_less_iff of_int_diff
    by (-, elim conjE, intro conjI; linarith)
  then show ?thesis by linarith
qed

text \<open>A whole number of degrees Fahrenheit survives the way to tenths of a degree Celsius and back.\<close>

definition celsius_tenths :: "rat \<Rightarrow> rat" where
  "celsius_tenths f = round_f64 (of_int (round_away (round_f64 (to_celsius False f * 10))) / 10)"

definition fahrenheit_of :: "rat \<Rightarrow> rat" where
  "fahrenheit_of c = round_f64 (round_f64 (round_f64 (c * 9) / 5) + 32)"

lemma celsius_tenths_near:
  assumes "\<bar>f - 32\<bar> \<le> 200"
  shows "\<bar>celsius_tenths f - (f * 5 / 9 - 160 / 9)\<bar> \<le> 6 / 100"
proof -
  define a where "a = round_f64 (f - 32)"
  define b where "b = round_f64 (a * 5)"
  define c where "c = round_f64 (b / 9)"
  define t where "t = round_f64 (c * 10)"
  define r where "r = (of_int (round_away t) :: rat)"
  have a: "\<bar>a - (f - 32)\<bar> \<le> 1 / 1000000" unfolding a_def using assms by (intro round_f64_near) simp
  have b: "\<bar>b - a * 5\<bar> \<le> 1 / 1000000" unfolding b_def using assms a by (intro round_f64_near) linarith
  have c: "\<bar>c - b / 9\<bar> \<le> 1 / 1000000" unfolding c_def using assms a b by (intro round_f64_near) linarith
  have t: "\<bar>t - c * 10\<bar> \<le> 1 / 1000000" unfolding t_def using assms a b c by (intro round_f64_near) linarith
  have r: "\<bar>r - t\<bar> \<le> 1 / 2" unfolding r_def by (rule round_away_near)
  have v: "\<bar>round_f64 (r / 10) - r / 10\<bar> \<le> 1 / 1000000" using assms a b c t r by (intro round_f64_near) linarith
  have "\<bar>c - (f * 5 / 9 - 160 / 9)\<bar> \<le> 1 / 100000" using a b c by linarith
  moreover have "\<bar>round_f64 (r / 10) - c\<bar> \<le> 51 / 1000" using t r v by linarith
  moreover have "celsius_tenths f = round_f64 (r / 10)"
    by (simp add: celsius_tenths_def to_celsius_def r_def t_def c_def b_def a_def)
  ultimately show ?thesis by linarith
qed

lemma fahrenheit_of_near:
  assumes "\<bar>c\<bar> \<le> 200"
  shows "\<bar>fahrenheit_of c - (c * 9 / 5 + 32)\<bar> \<le> 1 / 100"
proof -
  define a where "a = round_f64 (c * 9)"
  define b where "b = round_f64 (a / 5)"
  have a: "\<bar>a - c * 9\<bar> \<le> 1 / 1000000" unfolding a_def using assms by (intro round_f64_near) linarith
  have b: "\<bar>b - a / 5\<bar> \<le> 1 / 1000000" unfolding b_def using assms a by (intro round_f64_near) linarith
  have "\<bar>fahrenheit_of c - (b + 32)\<bar> \<le> 1 / 1000000"
    unfolding fahrenheit_of_def a_def [symmetric] b_def [symmetric] using assms a b by (intro round_f64_near) linarith
  with a b show ?thesis by linarith
qed

lemma fahrenheit_celsius_near:
  assumes "0 \<le> x" and "x \<le> 200"
  shows "\<bar>fahrenheit_of (celsius_tenths x) - x\<bar> < 1 / 2"
proof -
  have c: "\<bar>celsius_tenths x - (x * 5 / 9 - 160 / 9)\<bar> \<le> 6 / 100"
    using assms by (intro celsius_tenths_near) linarith
  then have "\<bar>celsius_tenths x\<bar> \<le> 200" using assms by linarith
  from fahrenheit_of_near [OF this] c show ?thesis by linarith
qed

lemma fahrenheit_celsius_tenths:
  assumes "n \<le> 200"
  shows "round_away (fahrenheit_of (celsius_tenths (of_nat n))) = int n"
proof -
  have "(of_nat n :: rat) \<le> of_nat 200" using assms by (simp only: of_nat_le_iff)
  then show ?thesis using fahrenheit_celsius_near [of "of_nat n"] by (intro round_away_of_near) simp
qed

section \<open>What the spa says of a switch\<close>

fun spa_switch :: "StatusUpdate \<Rightarrow> google_name \<Rightarrow> bool" where
  "spa_switch s Thermostat = False"
| "spa_switch s (Switch_Pump i) = (pumps s ! (i - 1) \<noteq> Pump_Off)"
| "spa_switch s (Switch_Light i) = lights s ! (i - 1)"
| "spa_switch s Switch_Blower = blower s"
| "spa_switch s Switch_Mister = mister s"
| "spa_switch s Switch_Circ_Pump = circ_pump s"

lemma numbered_components:
  "j < 6 \<Longrightarrow> (lit ''pump'' @ show_nat (j + 1) @ lit ''_on'', pumps s ! j \<noteq> Pump_Off) \<in> set (spa_components s)"
  "j < 4 \<Longrightarrow> (lit ''light'' @ show_nat (j + 1), lights s ! j) \<in> set (spa_components s)"
proof -
  let ?p = "\<lambda>i. (lit ''pump'' @ show_nat (i + 1) @ lit ''_on'', pumps s ! i \<noteq> Pump_Off)"
  let ?l = "\<lambda>i. (lit ''light'' @ show_nat (i + 1), lights s ! i)"
  have "?p ` set [0..<6] \<subseteq> set (spa_components s)" "?l ` set [0..<4] \<subseteq> set (spa_components s)"
    unfolding spa_components_def set_append set_map by blast+
  then show "j < 6 \<Longrightarrow> ?p j \<in> set (spa_components s)" "j < 4 \<Longrightarrow> ?l j \<in> set (spa_components s)" by auto
qed

lemma switch_component:
  assumes "name_item g \<noteq> None"
  shows "(name_field g, spa_switch s g) \<in> set (spa_components s)"
proof (cases g)
  case (Switch_Pump i)
  then have "0 < i" "i - 1 < 6" using assms by (auto simp: from_pump_index_def split: if_splits)
  with numbered_components(1) [of "i - 1" s] show ?thesis by (simp add: Switch_Pump)
next
  case (Switch_Light i)
  then have "0 < i" "i - 1 < 4" using assms by (auto simp: from_light_index_def split: if_splits)
  with numbered_components(2) [of "i - 1" s] show ?thesis by (simp add: Switch_Light)
qed (use assms in \<open>simp_all add: spa_components_def\<close>)

lemma switch_query:
  assumes "g \<noteq> Thermostat"
  shows "query_device mem celsius (d @ name_suffix g) =
    jobj [(''status'', jstr ''SUCCESS''), (''online'', device_online mem d),
      (''on'', Json_Bool (get_latest_component_state mem d (name_field g)))]"
proof -
  have "name_type g \<noteq> lit ''thermostat''" "name_type g \<in> set (map lit [''pump'', ''light'', ''blower'', ''mister'', ''circ_pump''])"
    using assms by (cases g; simp add: lit_eq)+
  then show ?thesis unfolding query_device_def parse_name by (simp add: name_component [OF assms])
qed

lemma bridge_state_devices: "device_online (bridge_state cr now d text mem) k = device_online mem k"
  by (simp add: device_online_def get_device_status_def bridge_state_def insert_component_changes_def
      insert_temperature_sample_def Let_def split: option.split)

section \<open>Properties\<close>

text \<open>
  Every device that is announced to Google has an identifier, and the identifiers are read
  back, whatever the identifier of the spa, with underscores, digits or the words for a pump in it: the identifier
  of the spa, the kind of the device, and for a switch the field of the published state that holds its state.
\<close>

theorem announced_devices_parse:
  "map announced_id (spa_devices cfg celsius d) = map (\<lambda>g. Some (d @ name_suffix g)) (announced_names cfg) \<and>
   parse_google_device_id (d @ name_suffix g) = (d, name_type g) \<and>
   (if g = Thermostat then name_type g = lit ''thermostat''
    else device_component (d @ name_suffix g) (name_type g) = name_field g)"
  using announced_ids parse_name name_component by auto

text \<open>
  Property C15: a switch does not switch. Asked to turn a device on or off, the server reports success and
  publishes the state that is wanted, but the firmware only toggles: it reads the same command for on and for
  off. A pump above the sixth and a light above the fourth are announced and reported as switched while the
  firmware drops the message. The mode of the thermostat is no better: whatever mode is wanted, the firmware
  toggles the heating mode.
\<close>

theorem google_switch_toggles:
  assumes "name_leaf g = Some leaf"
  shows "(let r = execute_handler celsius rid
            (one_command (d @ name_suffix g) ''action.devices.commands.OnOff'' (jobj [(''on'', Json_Bool on)]))
      in fst r = success_answer rid (d @ name_suffix g) \<and>
         map (firmware_reads d) (snd r) =
           [case name_item g of Some i \<Rightarrow> Valid (ToggleItem i) | None \<Rightarrow> UnknownSubtopic leaf]) \<and>
    (let r = execute_handler celsius rid
            (one_command (d @ name_suffix Thermostat) ''action.devices.commands.ThermostatSetMode''
               (jobj [(''thermostatMode'', Json_String m)]))
      in fst r = success_answer rid (d @ name_suffix Thermostat) \<and>
         map (firmware_reads d) (snd r) = [Valid (ToggleItem HeatingModeItem)])"
proof -
  let ?onoff = "if on then lit ''true'' else lit ''false''" and ?mode = "if m = lit ''off'' then lit ''rest'' else lit ''ready''"
  have ps: "from_utf8 (as_bytes ?onoff) = Some ?onoff" "?onoff \<noteq> []" "from_utf8 (as_bytes ?mode) = Some ?mode" "?mode \<noteq> []"
    using from_utf8_lit [of "''true''"] from_utf8_lit [of "''false''"] from_utf8_lit [of "''rest''"] from_utf8_lit [of "''ready''"]
    by (simp_all del: from_utf8.simps) (simp_all add: lit_def)
  show ?thesis
    unfolding switch_executed [OF assms] mode_executed Let_def fst_conv snd_conv list.map
    using firmware_reads_leaf [OF assms ps(1,2), of d] firmware_reads_item [OF ps(3,4), of d HeatingModeItem] by simp
qed

theorem google_switch_toggles_witness:
  "map (firmware_reads [120]) (snd (execute_handler False [] (one_command ([120] @ name_suffix (Switch_Pump 2))
     ''action.devices.commands.OnOff'' (jobj [(''on'', Json_Bool False)])))) = [Valid (ToggleItem Pump2)]"
  using google_switch_toggles [OF name_leaf.simps(2), of False "[]" "[120]" 2 False]
  by (simp add: Let_def from_pump_index_def del: name_suffix.simps)

text \<open>
  Property C19: the set point goes round. The thermostat shows the set point of a spa on the Fahrenheit scale in
  tenths of a degree Celsius; asked to set the value that is shown, the server publishes the set point itself, and
  the firmware reads a command for exactly that set point. No rounding on the way loses or gains a degree.
\<close>

theorem thermostat_set_point_returns:
  assumes "get_latest_temperature mem d = Some sample" and "smp_set_temp sample = Some (of_nat n)" and "1 \<le> n" and "n \<le> 108"
  shows "(let shown = json_at (query_device mem False (d @ name_suffix Thermostat)) (lit ''thermostatTemperatureSetpoint'');
           r = execute_handler False rid (one_command (d @ name_suffix Thermostat)
             ''action.devices.commands.ThermostatTemperatureSetpoint'' (jobj [(''thermostatTemperatureSetpoint'', shown)]))
      in fst r = success_answer rid (d @ name_suffix Thermostat) \<and>
         map (firmware_reads d) (snd r) = [Valid (SetTemperature (word_of_nat n))])"
proof -
  have shown: "json_at (query_device mem False (d @ name_suffix Thermostat)) (lit ''thermostatTemperatureSetpoint'') =
      Json_Number (Float_Number (celsius_tenths (of_nat n)))"
    unfolding query_device_def parse_name
    using assms(1,2) by (simp add: json_at_jobj one_decimal_def celsius_tenths_def)
  have i: "show_int (as_i32 (round_away (fahrenheit_of (celsius_tenths (of_nat n))))) = show_nat n"
    using assms(4) by (simp add: fahrenheit_celsius_tenths as_i32_def show_int_def)
  have "firmware_reads d (command_topic_of d (lit ''set_temperature''), show_nat n) = Valid (SetTemperature (word_of_nat n))"
    using set_temperature_topic [of n "command_topic (topic_builder_new d)"] assms(3,4)
    by (simp add: firmware_reads_def command_topic_of_device)
  then show ?thesis
    unfolding shown Let_def one_command_executed execute_command_def
    by (simp add: json_at_jobj i [unfolded fahrenheit_of_def] success_answer_def del: name_suffix.simps)
qed

theorem thermostat_set_point_returns_witness:
  "map (firmware_reads [120]) (snd (execute_handler False [] (one_command ([120] @ name_suffix Thermostat)
     ''action.devices.commands.ThermostatTemperatureSetpoint'' (jobj [(''thermostatTemperatureSetpoint'',
        json_at (query_device (insert_temperature_sample (\<lambda>_ _. None) [] [120] None (Some 102) store_new) False
          ([120] @ name_suffix Thermostat)) (lit ''thermostatTemperatureSetpoint''))])))) = [Valid (SetTemperature 102)]"
proof -
  let ?mem = "insert_temperature_sample (\<lambda>_ _. None) [] [120] None (Some 102) store_new"
  have "get_latest_temperature ?mem [120] = Some \<lparr>smp_current_temp = None, smp_set_temp = Some 102, smp_received_at = []\<rparr>"
    by (simp add: get_latest_temperature_def insert_temperature_sample_def keep_sample_def entry_of_def store_new_def
        push_entry_of_def push_capped_def MAX_TEMPERATURE_ENTRIES_def)
  from thermostat_set_point_returns [OF this, of 102 "[]"] show ?thesis by (simp add: Let_def)
qed



end
