(* ===== verification/Spec2Isabelle.thy ===== *)
theory Spec2Isabelle
  imports Harness MqttCodec CommandParser LogBuffer MqttState Hex OtaUpdateProperties DiscoveryProperties MqttTaskProperties GoogleHomeProperties ServerStoreProperties
begin

text \<open>
  A verification development for \<^bold>\<open>launa\<close>, a Rust controller for Balboa hot tubs. Paths are under
  \<open>src/crates/\<close>, or under \<open>src/app/\<close> for the firmware image, unless they say otherwise.

  \<^bold>\<open>The program.\<close> The spa's main board talks on an RS485 bus: it broadcasts its status, polls for new
  clients and gives each registered client, in turn, the right to transmit (clear to send). The
  firmware (\<open>app/src\<close>) runs three tasks. The UART task decodes the byte stream into frames
  (\<open>launa-protocol/src/frame.rs\<close>), answers urgent queries itself and hands frames to the main loop. The main
  loop dispatches them to typed messages (\<open>dispatcher.rs\<close>) and gives them to the core of the application
  (\<open>launa-core/src/spa_app.rs\<close>), which keeps the registration, a command queue, the tracker of unconfirmed
  commands and the timers, and returns actions: bytes to send, states and faults to publish. The MQTT task
  keeps the connection to the broker (\<open>mqtt_client.rs\<close>, over \<open>launa-mqtt\<close>), publishes what the others put into
  channels and turns messages into commands for the main loop. An update is downloaded (\<open>app/src/ota.rs\<close>,
  \<open>launa-ota\<close>) and written to flash (\<open>launa-esp-ota\<close>). A server (\<open>launa-server\<close>) keeps what the firmware
  publishes and offers it to Google Home. \<open>launa-sim\<close> simulates a spa, and the integration tests connect it
  with the core.

  \<^bold>\<open>Foundations.\<close>
  \<^item> \<open>Prelude\<close>: word abbreviations, saturating arithmetic, \<open>run_machine\<close> (a run of a machine with outputs),
    list lemmas. \<open>Interfaces\<close>: the locales \<open>codec\<close>, \<open>invariant_machine\<close>, \<open>partial_machine\<close>,
    \<open>partial_observer\<close>, \<open>stream_decoder\<close>, \<open>framed_decoder\<close>, \<open>byte_checksum\<close>. The flash interface is the locale
    \<open>nor_flash\<close> with \<open>reliable_flash\<close> (theory \<open>Flash\<close>), the tasks of the firmware share \<open>traced_machine\<close>,
    \<open>task_relation\<close> and \<open>tx_relation\<close> (\<open>FirmwareProperties\<close>, \<open>FirmwareBus\<close>). Each is interpreted on the
    program's own definitions where these are proved to obey it.
  \<^item> \<open>Strings\<close>, \<open>Float32\<close>: what the sources use of Rust strings (Unicode scalar values, trimming, number
    parsing, UTF-8 both ways, strict and lossy) and of \<open>f32\<close> and \<open>f64\<close> (rationals, rounded to 24 or 53 bits;
    infinities and NaN for \<open>f32\<close>).

  \<^bold>\<open>Protocol\<close> (\<open>launa-protocol/src\<close>).
  \<^item> \<open>Crc8\<close>, \<open>Frame\<close>: the checksum, the frame encoder and parser, and the streaming decoder with both entry
    points. Frames in a stream are recovered with any noise and any chunking, one corrupted byte is
    detected, the index loop of the bulk decoder ends and stays in bounds, the decoder recovers from any
    state, and the two entry points differ exactly where it is said.
  \<^item> \<open>Temperature\<close>, \<open>Status\<close>, \<open>Messages\<close>, \<open>Command\<close>, \<open>Hex\<close>: \<open>temperature.rs\<close>, \<open>status.rs\<close>, \<open>pump_bits.rs\<close>,
    \<open>fault.rs\<close>, \<open>filter.rs\<close>, \<open>config.rs\<close>, \<open>information.rs\<close>, \<open>command.rs\<close>, \<open>hex.rs\<close>: totality and ranges of the parsers,
    exactness of the validation, encodability of commands, round trips.
  \<^item> \<open>Registration\<close>, \<open>Dispatcher\<close>: \<open>registration.rs\<close>, \<open>dispatcher.rs\<close>. A channel needs a grant, two clients
    never collide, the handshake completes; no frame is lost in the dispatcher.

  \<^bold>\<open>Core\<close> (\<open>launa-core/src\<close>, \<open>launa-hal/src/clock.rs\<close>).
  \<^item> \<open>Clock\<close>, \<open>RateControl\<close>, \<open>LogBuffer\<close>, \<open>FaultBuf\<close>, \<open>Timers\<close>: the small parts. The channel broker, whose
    calls come from concurrent tasks, is a step relation with reachable states.
  \<^item> \<open>CommandTracker\<close>: the verification loop with its two index lists refines a filter over the pending
    commands; the tracker is bounded and drains.
  \<^item> \<open>SpaApp\<close>, \<open>SpaAppProperties\<close>: every entry point, with the invariant \<open>app_inv\<close> of the machine \<open>app_step\<close>
    that has one event per entry point; when the application transmits, how its registration refines that
    of \<open>Registration\<close>, the life of a command, the detection of lost communication.

  \<^bold>\<open>MQTT\<close> (\<open>launa-mqtt/src\<close>).
  \<^item> \<open>MqttCodec\<close>, \<open>CommandParser\<close>: packets are recovered from the stream, published messages arrive as sent,
    parsed commands can be carried out.
  \<^item> \<open>Json\<close>, \<open>JsonTree\<close>: escaping and printing, and a reader of JSON as the specification of what is written.
    \<open>MqttState\<close>: \<open>topics.rs\<close>, \<open>state.rs\<close>, \<open>state_change.rs\<close>, \<open>remote_log.rs\<close>. \<open>Discovery\<close>,
    \<open>DiscoveryProperties\<close>: \<open>discovery.rs\<close>. Every payload is read back.

  \<^bold>\<open>Updates.\<close>
  \<^item> \<open>Flash\<close>, \<open>FlashProperties\<close>: the flash interface and its mock (\<open>launa-esp-ota/src/flash.rs\<close>). \<open>EspOta\<close>,
    \<open>EspOtaProperties\<close>: \<open>ota.rs\<close>, \<open>crypto.rs\<close>; writing in any chunks refines the installation of an image, and
    what the bootloader takes afterwards.
  \<^item> \<open>OtaHttp\<close>, \<open>OtaUpdate\<close>, \<open>OtaUpdateProperties\<close>: \<open>launa-ota\<close>, \<open>launa-mqtt/src/ota_url.rs\<close> and \<open>app/src/ota.rs\<close>:
    whatever the network does, the device restarts from the running firmware or from a checked image.

  \<^bold>\<open>Firmware\<close> (\<open>app/src\<close>).
  \<^item> \<open>Sniff\<close>, \<open>Firmware\<close>: \<open>sniff.rs\<close>, \<open>diagnostics.rs\<close>, the UART task and the main loop of \<open>main.rs\<close>, as a machine
    whose events are the turns of the tasks, in any order. \<open>FirmwareProperties\<close>, \<open>FirmwareSafety\<close>,
    \<open>FirmwareBus\<close>: its invariant, what reaches the application and in which order the bus is written.
  \<^item> \<open>MqttClient\<close>, \<open>MqttClientProperties\<close>: \<open>mqtt_client.rs\<close>. \<open>RemoteLog\<close>: \<open>remote_log.rs\<close>. \<open>MqttTask\<close>,
    \<open>MqttTaskProperties\<close>: \<open>mqtt_task.rs\<close>, \<open>net_util.rs\<close>. Runs of the MQTT task together with the other tasks
    (the relation \<open>system\<close>) are runs of the firmware against some environment. A turn that waits for ever
    has no successor.

  \<^bold>\<open>Server\<close> (\<open>launa-server/src\<close>).
  \<^item> \<open>ServerStore\<close>, \<open>ServerStoreProperties\<close>: \<open>memory.rs\<close>, \<open>mqtt_bridge.rs\<close>, \<open>notifier.rs\<close>. What the bridge keeps
    of a state of the firmware, saving and loading, which notices are sent.
  \<^item> \<open>GoogleHome\<close>, \<open>GoogleHomeProperties\<close>: \<open>google_home.rs\<close>, composed with the firmware: what a query answers
    after the spa's state was published, and what the firmware makes of a command from Google.

  \<^bold>\<open>Simulator\<close> (\<open>launa-sim/src\<close>). \<open>SimState\<close>, \<open>SimPhysics\<close>, \<open>SimFrames\<close>, \<open>SpaSim\<close>: the spa with its physics,
  faults, injected errors and messages; \<open>SimTraffic\<close>, \<open>SimProperties\<close>: it never panics and carries out
  commands. \<open>Harness\<close>: \<open>launa-integration-tests/src/harness.rs\<close>, the simulator connected with the application.

  \<^bold>\<open>Reading the model.\<close> A Rust struct is a record with the fields of the source (prefixed where two
  structs share a name), an enum a datatype, a \<open>&mut self\<close> method a function that returns the updated
  record beside its result, a \<open>Result\<close> a sum with the error on the left. Integers keep their width
  (\<open>u8\<close> and so on are words, with the wrap-around of a release build); \<open>usize\<close> is \<open>nat\<close> where it indexes
  memory, and a 32-bit word in \<open>MqttCodec\<close>, where the wrap-around on the ESP32 shows. The clock is an
  argument \<open>now\<close> of each operation that reads it, one reading for an event. A panic (index out of range, a
  \<open>usize\<close> that would go below zero) is the value \<open>None\<close> where the code can reach it. What the program calls
  and this repository does not hold is an argument: the flash chip, the sockets (a script of what each read
  and write gives; a write that fails sends nothing), the random numbers, the JSON crate and the crate for
  tokens of the server. Theorems that rely on such code name what they rely on.

  \<^bold>\<open>Loops.\<close> Loops over data are structural recursion. The index loop of \<open>feed_slice\<close> is a function with
  a termination measure and gives \<open>None\<close> where an access would be out of range. The caller's loop over
  \<open>try_extract_packet\<close> need not end (a packet of length zero is extracted for ever, see the finding on
  \<open>packet.rs\<close>), so \<open>extract_packets\<close> and the receive loop of the client take fuel; it is shown how much is
  enough on well-formed streams, and that on a certain packet no fuel is.

  \<^bold>\<open>Not modelled.\<close> Log lines (they change no state) and the wording of payload errors (a datatype of
  reasons stands for it). The start-up of the hardware and the validation loop of a new image at boot, WiFi,
  the stored configuration and its encryption, crash records, the panic handler and the serial console
  (\<open>app/src/wifi.rs\<close>, \<open>config.rs\<close>, \<open>crypto.rs\<close>, \<open>crash_info.rs\<close>, \<open>panic.rs\<close>, \<open>logger.rs\<close>), which drive peripherals
  through vendor crates; the other firmware images; the web pages and the embedded broker of the server,
  which are routes and configuration of frameworks; the simulated broker and transport, which only the
  tests use; the build and host tools under \<open>src/xtask\<close>.

  \<^bold>\<open>Properties\<close> stand in the theory of their component, each after a text that numbers it C1 to C40 in
  order of importance, with a witness at concrete values where it has hypotheses.
\<close>

end
